(* ===== verification/Go_Prelude.thy ===== *)
theory Go_Prelude
  imports Main "HOL-Library.AList" "HOL-Library.Sublist" "HOL-Library.Word"
    "HOL-Library.Multiset"
begin

text \<open>
  The prelude of the development: what the modelled packages use of the Go language and of its
  standard library (\<open>strings\<close>, \<open>strconv\<close>, \<open>sort\<close>, the built-in map type), and the lemmas the
  component theories share.

  A Go string is a sequence of bytes; it is a HOL \<open>string\<close>, whose characters are exactly the 256
  byte values. A Go map is an association list with distinct keys: the list order is one of the
  iteration orders \<open>range\<close> may choose, so a theorem about every list is a theorem about every
  iteration order. A call that can return an error or panic has a value of type \<open>outcome\<close>.
\<close>

named_theorems go_string_simps
  \<open>characterisations of the modelled functions of the strings package\<close>

named_theorems go_map_simps
  \<open>lookups in an association list after a store or a delete\<close>

section \<open>Outcomes of a call\<close>

text \<open>
  \<open>Ok\<close> is a normal return, \<open>Err\<close> a return with a non-nil error, \<open>Panic\<close> a run-time panic.
\<close>

datatype ('e, 'a) outcome = Ok 'a | Err 'e | Panic

fun bind_outcome :: "('e, 'a) outcome \<Rightarrow> ('a \<Rightarrow> ('e, 'b) outcome) \<Rightarrow> ('e, 'b) outcome" where
  "bind_outcome (Ok x) f = f x"
| "bind_outcome (Err e) f = Err e"
| "bind_outcome Panic f = Panic"

fun is_Ok :: "('e, 'a) outcome \<Rightarrow> bool" where
  "is_Ok (Ok _) = True"
| "is_Ok _ = False"

lemma is_Ok_iff: "is_Ok r \<longleftrightarrow> (\<exists>x. r = Ok x)"
  by (cases r) auto

lemma bind_outcome_Ok_iff [simp]:
  "bind_outcome r f = Ok y \<longleftrightarrow> (\<exists>x. r = Ok x \<and> f x = Ok y)"
  by (cases r) auto

lemma bind_outcome_cong [fundef_cong]:
  "r = r' \<Longrightarrow> (\<And>x. r' = Ok x \<Longrightarrow> f x = g x) \<Longrightarrow> bind_outcome r f = bind_outcome r' g"
  by (cases r') auto

section \<open>Go maps as association lists\<close>

type_synonym ('k, 'v) gomap = "('k \<times> 'v) list"

abbreviation map_put :: "'k \<Rightarrow> 'v \<Rightarrow> ('k, 'v) gomap \<Rightarrow> ('k, 'v) gomap" where
  "map_put \<equiv> AList.update"

abbreviation map_del :: "'k \<Rightarrow> ('k, 'v) gomap \<Rightarrow> ('k, 'v) gomap" where
  "map_del \<equiv> AList.delete"

definition wf_map :: "('k, 'v) gomap \<Rightarrow> bool" where
  "wf_map m \<longleftrightarrow> distinct (map fst m)"

lemma map_of_map_put [go_map_simps, simp]:
  "map_of (map_put k v m) k' = (if k' = k then Some v else map_of m k')"
  by (simp add: update_conv')

lemma map_of_map_del [go_map_simps, simp]:
  "map_of (map_del k m) k' = (if k' = k then None else map_of m k')"
  by (simp add: delete_conv')

lemma wf_map_Nil [simp]: "wf_map []"
  by (simp add: wf_map_def)

lemma wf_map_put [simp, intro]: "wf_map m \<Longrightarrow> wf_map (map_put k v m)"
  by (simp add: wf_map_def distinct_update)

lemma wf_map_del [simp, intro]: "wf_map m \<Longrightarrow> wf_map (map_del k m)"
  by (simp add: wf_map_def distinct_delete)

lemma map_put_map_put_same [simp]: "map_put k v (map_put k w m) = map_put k v m"
  by (induction m) auto

lemma map_put_id: "map_of m k = Some v \<Longrightarrow> map_put k v m = m"
  by (induction m) (auto split: if_splits)

lemma map_put_not_Nil [simp]: "map_put k v m \<noteq> []"
  by (cases m) auto

lemma set_map_put: "(k', v') \<in> set (map_put k v m) \<Longrightarrow> (k', v') = (k, v) \<or> (k', v') \<in> set m"
  by (induction m) (auto split: if_splits)

lemma set_map_del: "set (map_del k m) \<subseteq> set m"
  by (induction m) auto

lemma wf_map_mem: "wf_map m \<Longrightarrow> (k, v) \<in> set m \<longleftrightarrow> map_of m k = Some v"
  unfolding wf_map_def by (metis map_of_eq_Some_iff)

text \<open>Copying every entry of one map into another, in iteration order.\<close>

fun map_put_all :: "('k, 'v) gomap \<Rightarrow> ('k, 'v) gomap \<Rightarrow> ('k, 'v) gomap" where
  "map_put_all m [] = m"
| "map_put_all m ((k, v) # d) = map_put_all (map_put k v m) d"

lemma wf_map_put_all [simp, intro]: "wf_map m \<Longrightarrow> wf_map (map_put_all m d)"
  by (induction m d rule: map_put_all.induct) auto

lemma map_of_map_put_all:
  "wf_map d \<Longrightarrow> map_of (map_put_all m d) k = (case map_of d k of Some v \<Rightarrow> Some v | None \<Rightarrow> map_of m k)"
proof (induction m d rule: map_put_all.induct)
  case (2 m k' v d)
  then have "wf_map d" and "map_of d k' = None"
    by (auto simp: wf_map_def map_of_eq_None_iff)
  with 2 show ?case by (auto split: option.splits)
qed simp

lemma map_of_map_put_all_empty: "wf_map d \<Longrightarrow> map_of (map_put_all [] d) = map_of d"
  by (rule ext) (simp add: map_of_map_put_all split: option.splits)

section \<open>Strings\<close>

subsection \<open>Cutting and splitting at a byte\<close>

text \<open>\<open>strings.IndexRune(s, c)\<close> for an ASCII \<open>c\<close>, with the two parts around the hit.\<close>

fun cut_byte :: "char \<Rightarrow> string \<Rightarrow> (string \<times> string) option" where
  "cut_byte c [] = None"
| "cut_byte c (x # xs) =
     (if x = c then Some ([], xs)
      else map_option (\<lambda>(a, b). (x # a, b)) (cut_byte c xs))"

lemma cut_byte_Some [go_string_simps]:
  "cut_byte c s = Some (a, b) \<longleftrightarrow> s = a @ c # b \<and> c \<notin> set a"
proof (induction s arbitrary: a)
  case (Cons x s)
  then show ?case by (cases a) auto
qed simp

lemma cut_byte_None [go_string_simps]: "cut_byte c s = None \<longleftrightarrow> c \<notin> set s"
  by (induction s) auto

lemma cut_byte_length: "cut_byte c s = Some (a, b) \<Longrightarrow> length b < length s"
  by (auto simp: cut_byte_Some)

text \<open>The part before and after the last hit: \<open>strings.LastIndex\<close> with a one-byte needle.\<close>

definition cut_last_byte :: "char \<Rightarrow> string \<Rightarrow> (string \<times> string) option" where
  "cut_last_byte c s = map_option (\<lambda>(a, b). (rev b, rev a)) (cut_byte c (rev s))"

lemma cut_last_byte_Some [go_string_simps]:
  "cut_last_byte c s = Some (a, b) \<longleftrightarrow> s = a @ c # b \<and> c \<notin> set b"
proof -
  have "cut_last_byte c s = Some (a, b) \<longleftrightarrow> cut_byte c (rev s) = Some (rev b, rev a)"
    by (auto simp: cut_last_byte_def)
  also have "\<dots> \<longleftrightarrow> rev s = rev b @ c # rev a \<and> c \<notin> set b"
    by (simp add: cut_byte_Some)
  also have "\<dots> \<longleftrightarrow> s = a @ c # b \<and> c \<notin> set b"
    by (simp add: rev_swap)
  finally show ?thesis .
qed

lemma cut_last_byte_None [go_string_simps]: "cut_last_byte c s = None \<longleftrightarrow> c \<notin> set s"
  by (simp add: cut_last_byte_def cut_byte_None)

text \<open>\<open>strings.Split(s, sep)\<close> for a one-byte separator; never empty.\<close>

fun split_byte :: "char \<Rightarrow> string \<Rightarrow> string list" where
  "split_byte c [] = [[]]"
| "split_byte c (x # xs) =
     (if x = c then [] # split_byte c xs
      else (case split_byte c xs of [] \<Rightarrow> [[x]] | p # ps \<Rightarrow> (x # p) # ps))"

text \<open>\<open>strings.Join(parts, sep)\<close>.\<close>

fun join_str :: "string \<Rightarrow> string list \<Rightarrow> string" where
  "join_str sep [] = []"
| "join_str sep [p] = p"
| "join_str sep (p # q # ps) = p @ sep @ join_str sep (q # ps)"

lemma split_byte_not_Nil [simp]: "split_byte c s \<noteq> []"
  by (induction s) (auto split: list.splits)

lemma split_byte_no_sep: "c \<notin> set s \<Longrightarrow> split_byte c s = [s]"
  by (induction s) auto

lemma split_byte_cut: "c \<notin> set a \<Longrightarrow> split_byte c (a @ c # b) = a # split_byte c b"
  by (induction a) auto

lemma split_byte_parts: "p \<in> set (split_byte c s) \<Longrightarrow> c \<notin> set p"
  by (induction s arbitrary: p) (auto split: if_splits list.splits)

lemma join_str_Cons: "ps \<noteq> [] \<Longrightarrow> join_str sep (p # ps) = p @ sep @ join_str sep ps"
  by (cases ps) auto

lemma join_split: "join_str [c] (split_byte c s) = s"
proof (induction s)
  case (Cons x xs)
  show ?case
  proof (cases "split_byte c xs")
    case Nil
    then show ?thesis by simp
  next
    case (Cons p ps)
    with \<open>join_str [c] (split_byte c xs) = xs\<close> show ?thesis
      by (cases ps) auto
  qed
qed simp

lemma split_join:
  "ps \<noteq> [] \<Longrightarrow> (\<And>p. p \<in> set ps \<Longrightarrow> c \<notin> set p) \<Longrightarrow> split_byte c (join_str [c] ps) = ps"
proof (induction ps)
  case (Cons p ps)
  show ?case
  proof (cases "ps = []")
    case True
    with Cons.prems show ?thesis by (simp add: split_byte_no_sep)
  next
    case False
    with Cons show ?thesis by (simp add: join_str_Cons split_byte_cut)
  qed
qed simp

lemma length_split_byte: "length (split_byte c s) = Suc (count_list s c)"
proof (induction s)
  case (Cons x xs)
  then show ?case by (auto split: list.splits)
qed simp

subsection \<open>Searching\<close>

text \<open>\<open>strings.Index(s, needle)\<close>: the least offset, \<open>None\<close> for -1.\<close>

fun go_index :: "string \<Rightarrow> string \<Rightarrow> nat option" where
  "go_index [] n = (if n = [] then Some 0 else None)"
| "go_index (x # xs) n =
     (if prefix n (x # xs) then Some 0 else map_option Suc (go_index xs n))"

lemma go_index_Some:
  "go_index s n = Some i \<Longrightarrow> prefix n (drop i s) \<and> i + length n \<le> length s"
proof (induction s arbitrary: i)
  case (Cons x s)
  show ?case
  proof (cases "prefix n (x # s)")
    case True
    with Cons.prems have "i = 0" by simp
    with True prefix_length_le [OF True] show ?thesis by simp
  next
    case False
    with Cons.prems obtain j where "go_index s n = Some j" and "i = Suc j" by auto
    with Cons.IH show ?thesis by auto
  qed
qed (auto split: if_splits)

lemma go_index_least:
  "go_index s n = Some i \<Longrightarrow> j < i \<Longrightarrow> \<not> prefix n (drop j s)"
proof (induction s arbitrary: i j)
  case (Cons x s)
  then have np: "\<not> prefix n (x # s)" by (auto split: if_splits)
  with Cons.prems obtain i' where "go_index s n = Some i'" "i = Suc i'" by auto
  with Cons np show ?case by (cases j) auto
qed (auto split: if_splits)

lemma go_index_None: "go_index s n = None \<longleftrightarrow> \<not> sublist n s"
  by (induction s) (auto simp: sublist_Cons_right)

abbreviation go_contains :: "string \<Rightarrow> string \<Rightarrow> bool" where
  "go_contains s n \<equiv> sublist n s"

text \<open>\<open>strings.TrimSuffix\<close> and \<open>strings.TrimRight\<close> with a one-byte cutset.\<close>

definition trim_suffix :: "string \<Rightarrow> string \<Rightarrow> string" where
  "trim_suffix s x = (if suffix x s then take (length s - length x) s else s)"

definition trim_right_byte :: "char \<Rightarrow> string \<Rightarrow> string" where
  "trim_right_byte c s = rev (dropWhile (\<lambda>x. x = c) (rev s))"

subsection \<open>Letter case\<close>

definition is_upper_ascii :: "char \<Rightarrow> bool" where
  "is_upper_ascii c \<longleftrightarrow> 65 \<le> (of_char c :: nat) \<and> (of_char c :: nat) \<le> 90"

definition lower_byte :: "char \<Rightarrow> char" where
  "lower_byte c = (if is_upper_ascii c then char_of ((of_char c :: nat) + 32) else c)"

definition is_digit :: "char \<Rightarrow> bool" where
  "is_digit c \<longleftrightarrow> 48 \<le> (of_char c :: nat) \<and> (of_char c :: nat) \<le> 57"

lemma of_char_char_of_small: "n < 256 \<Longrightarrow> (of_char (char_of n) :: nat) = n"
  by (simp add: of_char_of take_bit_eq_mod)

lemma lower_byte_not_upper [simp]: "\<not> is_upper_ascii (lower_byte c)"
  by (auto simp: lower_byte_def is_upper_ascii_def of_char_char_of_small)

lemma lower_byte_idem [simp]: "lower_byte (lower_byte c) = lower_byte c"
  using lower_byte_not_upper [of c] by (simp add: lower_byte_def [of "lower_byte c"])

subsection \<open>Decimal numbers\<close>

text \<open>\<open>strconv.Atoi\<close>: an optional sign, then at least one digit; an error is \<open>None\<close>. The result
  must fit a 64-bit \<open>int\<close>.\<close>

definition digit_val :: "char \<Rightarrow> nat" where
  "digit_val c = of_char c - 48"

fun parse_digits :: "nat \<Rightarrow> string \<Rightarrow> nat option" where
  "parse_digits acc [] = Some acc"
| "parse_digits acc (c # cs) =
     (if is_digit c then parse_digits (10 * acc + digit_val c) cs else None)"

definition parse_nat :: "string \<Rightarrow> nat option" where
  "parse_nat s = (if s = [] then None else parse_digits 0 s)"

definition max_int64 :: int where "max_int64 = 9223372036854775807"

definition go_atoi :: "string \<Rightarrow> int option" where
  "go_atoi s =
     (case s of
        [] \<Rightarrow> None
      | c # cs \<Rightarrow>
          if c = CHR ''-'' then
            (case parse_nat cs of
               Some n \<Rightarrow> if int n \<le> max_int64 + 1 then Some (- int n) else None
             | None \<Rightarrow> None)
          else
            (case parse_nat (if c = CHR ''+'' then cs else s) of
               Some n \<Rightarrow> if int n \<le> max_int64 then Some (int n) else None
             | None \<Rightarrow> None))"

text \<open>\<open>strconv.Itoa\<close> on a non-negative number.\<close>

definition digit_char :: "nat \<Rightarrow> char" where
  "digit_char d = char_of (48 + d)"

fun go_itoa :: "nat \<Rightarrow> string" where
  "go_itoa n = (if n < 10 then [digit_char n] else go_itoa (n div 10) @ [digit_char (n mod 10)])"

declare go_itoa.simps [simp del]

text \<open>\<open>strconv.Itoa\<close> of an integer.\<close>

definition itoaInt :: "int \<Rightarrow> string" where
  "itoaInt n = (if n < 0 then CHR ''-'' # go_itoa (nat (- n)) else go_itoa (nat n))"

lemma is_digit_digit_char [simp]: "d < 10 \<Longrightarrow> is_digit (digit_char d)"
  by (simp add: is_digit_def digit_char_def of_char_char_of_small)

lemma digit_val_digit_char [simp]: "d < 10 \<Longrightarrow> digit_val (digit_char d) = d"
  by (simp add: digit_val_def digit_char_def of_char_char_of_small)

lemma parse_digits_append:
  "parse_digits acc (xs @ ys) =
     (case parse_digits acc xs of None \<Rightarrow> None | Some a \<Rightarrow> parse_digits a ys)"
  by (induction acc xs rule: parse_digits.induct) auto

lemma go_itoa_not_Nil [simp]: "go_itoa n \<noteq> []"
  by (subst go_itoa.simps) simp

lemma parse_digits_itoa: "parse_digits 0 (go_itoa n) = Some n"
proof (induction n rule: go_itoa.induct)
  case (1 n)
  then show ?case
    by (cases "n < 10") (auto simp: go_itoa.simps [of n] parse_digits_append)
qed

lemma go_itoa_digits: "c \<in> set (go_itoa n) \<Longrightarrow> is_digit c"
proof (induction n rule: go_itoa.induct)
  case (1 n)
  then show ?case
    by (cases "n < 10") (auto simp: go_itoa.simps [of n])
qed

lemma is_digit_not_sign: "is_digit c \<Longrightarrow> c \<noteq> CHR ''-'' \<and> c \<noteq> CHR ''+''"
  by (auto simp: is_digit_def)

lemma go_atoi_itoa: "int n \<le> max_int64 \<Longrightarrow> go_atoi (go_itoa n) = Some (int n)"
proof -
  assume le: "int n \<le> max_int64"
  obtain c cs where s: "go_itoa n = c # cs"
    by (cases "go_itoa n") auto
  then have "c \<noteq> CHR ''-''" "c \<noteq> CHR ''+''"
    using go_itoa_digits [of c n] is_digit_not_sign [of c] by auto
  moreover have "parse_nat (c # cs) = Some n"
    using parse_digits_itoa [of n] by (simp add: parse_nat_def s)
  ultimately show ?thesis
    using le by (simp add: go_atoi_def s)
qed

section \<open>Stores with independent keys\<close>

text \<open>
  The interface of a component that stores values under keys: what a lookup returns after a store
  (under the same key, and under a key that is independent of it), and the invariant. A store may
  fail (\<open>None\<close>). The client lemma is about a sequence of stores, as a caller makes them one after
  the other.
\<close>

fun put_seq :: "('m \<Rightarrow> 'k \<Rightarrow> 'v \<Rightarrow> 'm option) \<Rightarrow> 'm \<Rightarrow> ('k \<times> 'v) list \<Rightarrow> 'm option" where
  "put_seq put m [] = Some m"
| "put_seq put m ((k, v) # kvs) =
     (case put m k v of None \<Rightarrow> None | Some m' \<Rightarrow> put_seq put m' kvs)"

fun pairwise_indep :: "('k \<Rightarrow> 'k \<Rightarrow> bool) \<Rightarrow> 'k list \<Rightarrow> bool" where
  "pairwise_indep ind [] = True"
| "pairwise_indep ind (k # ks) = ((\<forall>k' \<in> set ks. ind k' k) \<and> pairwise_indep ind ks)"

locale keyed_store =
  fixes get :: "'m \<Rightarrow> 'k \<Rightarrow> 'v option"
    and put :: "'m \<Rightarrow> 'k \<Rightarrow> 'v \<Rightarrow> 'm option"
    and indep :: "'k \<Rightarrow> 'k \<Rightarrow> bool"
    and storable :: "'k \<Rightarrow> 'v \<Rightarrow> bool"
    and inv :: "'m \<Rightarrow> bool"
  assumes inv_put: "inv m \<Longrightarrow> storable k v \<Longrightarrow> put m k v = Some m' \<Longrightarrow> inv m'"
    and get_put: "inv m \<Longrightarrow> storable k v \<Longrightarrow> put m k v = Some m' \<Longrightarrow> get m' k = Some v"
    and get_put_indep:
      "inv m \<Longrightarrow> storable k v \<Longrightarrow> put m k v = Some m' \<Longrightarrow> indep k k' \<Longrightarrow> get m' k' = get m k'"
begin

lemma put_seq_inv:
  "inv m \<Longrightarrow> (\<And>k v. (k, v) \<in> set kvs \<Longrightarrow> storable k v) \<Longrightarrow> put_seq put m kvs = Some m' \<Longrightarrow> inv m'"
proof (induction kvs arbitrary: m)
  case (Cons kv kvs)
  obtain k v where kv: "kv = (k, v)" by (cases kv)
  with Cons.prems obtain m1 where m1: "put m k v = Some m1" "put_seq put m1 kvs = Some m'"
    by (auto split: option.splits)
  have "inv m1" using Cons.prems m1 by (auto simp: kv intro: inv_put)
  with m1(2) Cons.prems show ?case by (intro Cons.IH [of m1]) auto
qed simp

lemma put_seq_other:
  "inv m \<Longrightarrow> (\<And>k v. (k, v) \<in> set kvs \<Longrightarrow> storable k v) \<Longrightarrow> put_seq put m kvs = Some m' \<Longrightarrow>
     (\<And>k. k \<in> fst ` set kvs \<Longrightarrow> indep k k') \<Longrightarrow> get m' k' = get m k'"
proof (induction kvs arbitrary: m)
  case (Cons kv kvs)
  obtain k v where kv: "kv = (k, v)" by (cases kv)
  with Cons.prems obtain m1 where m1: "put m k v = Some m1" "put_seq put m1 kvs = Some m'"
    by (auto split: option.splits)
  have "inv m1" using Cons.prems m1 by (auto simp: kv intro: inv_put)
  then have "get m' k' = get m1 k'"
    using Cons.IH [of m1] Cons.prems m1(2) by auto
  also have "\<dots> = get m k'"
    using Cons.prems m1(1) by (auto simp: kv intro: get_put_indep)
  finally show ?case .
qed simp

lemma put_seq_get:
  "inv m \<Longrightarrow> (\<And>k v. (k, v) \<in> set kvs \<Longrightarrow> storable k v) \<Longrightarrow> put_seq put m kvs = Some m' \<Longrightarrow>
     pairwise_indep indep (map fst kvs) \<Longrightarrow> (k, v) \<in> set kvs \<Longrightarrow> get m' k = Some v"
proof (induction kvs arbitrary: m)
  case (Cons kv kvs)
  obtain k1 v1 where kv: "kv = (k1, v1)" by (cases kv)
  with Cons.prems obtain m1 where m1: "put m k1 v1 = Some m1" "put_seq put m1 kvs = Some m'"
    by (auto split: option.splits)
  have inv1: "inv m1" using Cons.prems m1 by (auto simp: kv intro: inv_put)
  show ?case
  proof (cases "(k, v) = (k1, v1)")
    case True
    have "get m' k1 = get m1 k1"
      using Cons.prems by (intro put_seq_other [OF inv1 _ m1(2)]) (auto simp: kv)
    then show ?thesis using True Cons.prems m1(1) by (auto simp: kv intro: get_put)
  next
    case False
    with Cons.prems show ?thesis
      by (intro Cons.IH [OF inv1 _ m1(2)]) (auto simp: kv)
  qed
qed simp

end

section \<open>Sorting a slice\<close>

text \<open>
  \<open>sort.Slice\<close> and \<open>sort.Strings\<close> promise a permutation of the slice that is ordered by the key;
  \<open>sort.Slice\<close> does not promise to keep the order of equal elements. A client that sorts is
  modelled with the sorting function as an argument, and its lemmas hold for every function with
  these two laws.
\<close>

locale slice_sorter =
  fixes srt :: "'a list \<Rightarrow> 'a list"
    and key :: "'a \<Rightarrow> 'k::linorder"
  assumes srt_mset: "mset (srt xs) = mset xs"
    and srt_sorted: "sorted (map key (srt xs))"
begin

lemma srt_set [simp]: "set (srt xs) = set xs"
  by (metis srt_mset set_mset_mset)

lemma srt_length [simp]: "length (srt xs) = length xs"
  by (metis srt_mset size_mset)

lemma srt_distinct: "distinct (map f (srt xs)) \<longleftrightarrow> distinct (map f xs)"
  by (metis srt_mset mset_map mset_eq_imp_distinct_iff)

end

text \<open>The library's stable sort is one such function.\<close>

interpretation stable_sort: slice_sorter "sort_key k" k for k :: "'a \<Rightarrow> 'k::linorder"
  by unfold_locales simp_all

end
