(* ===== verification/Mapstr.thy ===== *)
theory Mapstr
  imports Go_Prelude
begin

text \<open>
  Package \<open>mapstr\<close> (src/mapstr/mapstr.go): the nested string maps that events and configurations
  are made of, with access by dotted key.

  A value of type \<open>interface{}\<close> is a \<open>gval\<close>; its constructors are the dynamic types the package's
  type switches distinguish. \<open>VM\<close> is an \<open>M\<close>, \<open>VMap\<close> a plain \<open>map[string]interface{}\<close>; a nil map is
  \<open>None\<close>, so a write to it is a panic. The theory treats a map as the tree below it: a map reached
  through a reference is a position in the tree, given by the frames from it to the root, and
  \<open>plug\<close> rebuilds the root after the code has changed the map at that position. This is exact for
  maps in which no sub-map is stored twice.
\<close>

section \<open>Data\<close>

datatype gval =
    VNil
  | VStr string
  | VInt int
  | VBool bool
  | VOther nat
  | VStrs "string list"
  | VAnys "gval list"
  | VM "(string \<times> gval) list option"
  | VMap "(string \<times> gval) list option"
  | VMs "(string \<times> gval) list option list"
  | VMaps "(string \<times> gval) list option list"

type_synonym kvs = "(string, gval) gomap"
type_synonym M = "kvs option"

datatype map_error =
    ErrKeyNotFound
  | ErrKeyCollision
  | ErrNotMapType
  | ErrExpectedMap
  | ErrExpectedStringArray
  | ErrAlterFunc
  | ErrEmptyReplacement

definition FieldsKey :: string where "FieldsKey = ''fields''"
definition TagsKey :: string where "TagsKey = ''tags''"

abbreviation dot :: char where "dot \<equiv> CHR ''.''"

text \<open>Reading from a nil map is reading from an empty one.\<close>

fun entries :: "M \<Rightarrow> kvs" where
  "entries None = []"
| "entries (Some d) = d"

definition m_get :: "M \<Rightarrow> string \<Rightarrow> gval option" where
  "m_get m k = map_of (entries m) k"

fun tryToMapStr :: "gval \<Rightarrow> M option" where
  "tryToMapStr (VM m) = Some m"
| "tryToMapStr (VMap m) = Some m"
| "tryToMapStr _ = None"

fun toMapStr :: "gval \<Rightarrow> (map_error, M) outcome" where
  "toMapStr v = (case tryToMapStr v of Some m \<Rightarrow> Ok m | None \<Rightarrow> Err ErrExpectedMap)"

text \<open>The measure of the recursions over nested maps.\<close>

abbreviation kvs_size :: "kvs \<Rightarrow> nat" where
  "kvs_size \<equiv> size_list (size_prod (\<lambda>_. 0) size)"

lemma kvs_size_entries [simp]: "kvs_size (entries m) \<le> size_option kvs_size m"
  by (cases m) auto

lemma tryToMapStr_size: "tryToMapStr v = Some m \<Longrightarrow> kvs_size (entries m) < size v"
  by (cases v) (auto simp: less_Suc_eq_le)

lemma kvs_size_entries_list:
  "m \<in> set ms \<Longrightarrow> kvs_size (entries m) \<le> size_list (size_option kvs_size) ms"
  by (rule order_trans [OF kvs_size_entries size_list_estimation']) auto

lemma kvs_size_mem: "kv \<in> set d \<Longrightarrow> size (snd kv) < kvs_size d"
  by (induction d) auto

section \<open>Positions in a map\<close>

text \<open>
  A frame is a map on the way from the root, the key under which the walk left it, and whether the
  value there is a plain map.
\<close>

type_synonym frame = "kvs \<times> string \<times> bool"

fun is_plain :: "gval \<Rightarrow> bool" where
  "is_plain (VMap _) = True"
| "is_plain _ = False"

definition as_map :: "bool \<Rightarrow> M \<Rightarrow> gval" where
  "as_map plain m = (if plain then VMap m else VM m)"

fun plug :: "frame list \<Rightarrow> M \<Rightarrow> M" where
  "plug [] m = m"
| "plug ((p, k, plain) # fs) m = plug fs (Some (map_put k (as_map plain m) p))"

section \<open>Walking a dotted key\<close>

text \<open>
  The result of \<open>mapFind\<close>: the root after the call (intermediate maps may have been created), and
  either the sub-key, the position of the sub-map, the sub-map, the old value and the present
  flag, or the error.
\<close>

type_synonym found = "string \<times> frame list \<times> M \<times> gval \<times> bool"

function mapFind :: "string \<Rightarrow> M \<Rightarrow> bool \<Rightarrow> frame list \<Rightarrow> M \<times> (map_error, found) outcome" where
  "mapFind key data createMissing fs =
     (case m_get data key of
        Some v \<Rightarrow> (plug fs data, Ok (key, fs, data, v, True))
      | None \<Rightarrow>
          (case cut_byte dot key of
             None \<Rightarrow> (plug fs data, Ok (key, fs, data, VNil, False))
           | Some (k, rest) \<Rightarrow>
               (case m_get data k of
                  None \<Rightarrow>
                    (if createMissing then
                       (case data of
                          None \<Rightarrow> (plug fs data, Panic)
                        | Some d \<Rightarrow>
                            mapFind rest (Some []) createMissing
                              ((map_put k (VM (Some [])) d, k, False) # fs))
                     else (plug fs data, Err ErrKeyNotFound))
                | Some d \<Rightarrow>
                    (case toMapStr d of
                       Ok v \<Rightarrow> mapFind rest v createMissing ((entries data, k, is_plain d) # fs)
                     | Err e \<Rightarrow> (plug fs data, Err e)
                     | Panic \<Rightarrow> (plug fs data, Panic)))))"
  by pat_completeness auto
termination
  by (relation "measure (\<lambda>(key, _). length key)") (auto dest: cut_byte_length)

declare mapFind.simps [simp del]

section \<open>Operations on one key\<close>

definition GetValue :: "M \<Rightarrow> string \<Rightarrow> (map_error, gval) outcome" where
  "GetValue m key =
     (case snd (mapFind key m False []) of
        Ok (_, _, _, v, present) \<Rightarrow> if present then Ok v else Err ErrKeyNotFound
      | Err e \<Rightarrow> Err e
      | Panic \<Rightarrow> Panic)"

definition HasKey :: "M \<Rightarrow> string \<Rightarrow> bool \<times> map_error option" where
  "HasKey m key =
     (case snd (mapFind key m False []) of
        Ok (_, _, _, _, present) \<Rightarrow> (present, None)
      | Err e \<Rightarrow> (False, Some e)
      | Panic \<Rightarrow> (False, None))"

text \<open>The assignment \<open>d[k] = value\<close> after \<open>mapFind\<close>, and the \<open>delete(d, k)\<close>.\<close>

fun storeFound :: "gval \<Rightarrow> M \<times> (map_error, found) outcome \<Rightarrow> M \<times> (map_error, gval) outcome" where
  "storeFound v (_, Ok (k, fs, Some d, old, _)) = (plug fs (Some (map_put k v d)), Ok old)"
| "storeFound v (r, Ok (_, _, None, _, _)) = (r, Panic)"
| "storeFound v (r, Err e) = (r, Err e)"
| "storeFound v (r, Panic) = (r, Panic)"

fun deleteFound :: "M \<times> (map_error, found) outcome \<Rightarrow> M \<times> (map_error, unit) outcome" where
  "deleteFound (r, Ok (k, fs, d, _, present)) =
     (if present then (plug fs (map_option (map_del k) d), Ok ()) else (r, Err ErrKeyNotFound))"
| "deleteFound (r, Err e) = (r, Err e)"
| "deleteFound (r, Panic) = (r, Panic)"

definition Put :: "M \<Rightarrow> string \<Rightarrow> gval \<Rightarrow> M \<times> (map_error, gval) outcome" where
  "Put m key v = storeFound v (mapFind key m True [])"

definition Delete :: "M \<Rightarrow> string \<Rightarrow> M \<times> (map_error, unit) outcome" where
  "Delete m key = deleteFound (mapFind key m False [])"

definition CopyFieldsTo :: "M \<Rightarrow> M \<Rightarrow> string \<Rightarrow> M \<times> (map_error, unit) outcome" where
  "CopyFieldsTo m to key =
     (case GetValue m key of
        Ok v \<Rightarrow> (case Put to key v of
                   (to', Ok _) \<Rightarrow> (to', Ok ())
                 | (to', Err e) \<Rightarrow> (to', Err e)
                 | (to', Panic) \<Rightarrow> (to', Panic))
      | Err e \<Rightarrow> (to, Err e)
      | Panic \<Rightarrow> (to, Panic))"

section \<open>Whole-map operations\<close>

text \<open>Writing a nil map panics, unless there is nothing to write.\<close>

definition Update :: "M \<Rightarrow> M \<Rightarrow> (map_error, M) outcome" where
  "Update m d =
     (case m of
        None \<Rightarrow> if entries d = [] then Ok None else Panic
      | Some kv \<Rightarrow> Ok (Some (map_put_all kv (entries d))))"

definition Union :: "M \<Rightarrow> M \<Rightarrow> M" where
  "Union dict1 dict2 = Some (map_put_all (map_put_all [] (entries dict1)) (entries dict2))"

function (sequential)
  deepUpdateMap :: "kvs \<Rightarrow> kvs \<Rightarrow> bool \<Rightarrow> kvs"
  and deepUpdateValue :: "gval option \<Rightarrow> M \<Rightarrow> bool \<Rightarrow> gval"
where
  "deepUpdateMap m [] overwrite = m"
| "deepUpdateMap m ((k, v) # d) overwrite =
     (case tryToMapStr v of
        Some val \<Rightarrow>
          deepUpdateMap (map_put k (deepUpdateValue (map_of m k) val overwrite) m) d overwrite
      | None \<Rightarrow>
          (if overwrite then deepUpdateMap (map_put k v m) d overwrite
           else if map_of m k = None then deepUpdateMap (map_put k v m) d overwrite
           else deepUpdateMap m d overwrite))"
| "deepUpdateValue (Some (VM None)) val overwrite = VM val"
| "deepUpdateValue (Some (VM (Some sub))) val overwrite =
     VM (Some (deepUpdateMap sub (entries val) overwrite))"
| "deepUpdateValue (Some (VMap None)) val overwrite = VM val"
| "deepUpdateValue (Some (VMap (Some sub))) val overwrite =
     VM (Some (deepUpdateMap sub (entries val) overwrite))"
| "deepUpdateValue _ val overwrite = VM val"
  by pat_completeness auto
termination
  by (relation "measure (\<lambda>x. case x of
        Inl (_, d, _) \<Rightarrow> 2 * kvs_size d
      | Inr (_, val, _) \<Rightarrow> Suc (2 * kvs_size (entries val)))")
    (auto dest: tryToMapStr_size)

definition DeepUpdate :: "M \<Rightarrow> M \<Rightarrow> (map_error, M) outcome" where
  "DeepUpdate m d =
     (case m of
        None \<Rightarrow> if entries d = [] then Ok None else Panic
      | Some kv \<Rightarrow> Ok (Some (deepUpdateMap kv (entries d) True)))"

definition DeepUpdateNoOverwrite :: "M \<Rightarrow> M \<Rightarrow> (map_error, M) outcome" where
  "DeepUpdateNoOverwrite m d =
     (case m of
        None \<Rightarrow> if entries d = [] then Ok None else Panic
      | Some kv \<Rightarrow> Ok (Some (deepUpdateMap kv (entries d) False)))"

function (sequential)
  cloneMap :: "kvs \<Rightarrow> kvs \<Rightarrow> kvs"
  and cloneValue :: "gval \<Rightarrow> gval"
where
  "cloneMap dst [] = dst"
| "cloneMap dst ((k, v) # src) = cloneMap (map_put k (cloneValue v) dst) src"
| "cloneValue (VM m) = VM (Some (cloneMap [] (entries m)))"
| "cloneValue (VMap m) = VM (Some (cloneMap [] (entries m)))"
| "cloneValue (VMs ms) = VMs (map (\<lambda>m. Some (cloneMap [] (entries m))) ms)"
| "cloneValue (VMaps ms) = VMs (map (\<lambda>m. Some (cloneMap [] (entries m))) ms)"
| "cloneValue v = v"
  by pat_completeness auto
termination
  by (relation "measure (\<lambda>x. case x of
        Inl (_, src) \<Rightarrow> kvs_size src
      | Inr v \<Rightarrow> size v)")
    (auto simp: less_Suc_eq_le dest: kvs_size_entries_list)

definition Clone :: "M \<Rightarrow> M" where
  "Clone m = Some (cloneMap [] (entries m))"

definition fullKey :: "string \<Rightarrow> string \<Rightarrow> string" where
  "fullKey prfx k = (if prfx = [] then k else prfx @ [dot] @ k)"

function flatten :: "string \<Rightarrow> kvs \<Rightarrow> kvs \<Rightarrow> kvs" where
  "flatten prfx [] out = out"
| "flatten prfx ((k, v) # rest) out =
     (case tryToMapStr v of
        Some m \<Rightarrow> flatten prfx rest (flatten (fullKey prfx k) (entries m) out)
      | None \<Rightarrow> flatten prfx rest (map_put (fullKey prfx k) v out))"
  by pat_completeness auto
termination
  by (relation "measure (\<lambda>(_, kv, _). kvs_size kv)") (auto dest: tryToMapStr_size)

definition Flatten :: "M \<Rightarrow> M" where
  "Flatten m = Some (flatten [] (entries m) [])"

function flattenKeys :: "string \<Rightarrow> kvs \<Rightarrow> string list \<Rightarrow> string list" where
  "flattenKeys prfx [] out = out"
| "flattenKeys prfx ((k, v) # rest) out =
     (case tryToMapStr v of
        Some m \<Rightarrow>
          flattenKeys prfx rest (flattenKeys (fullKey prfx k) (entries m) out @ [fullKey prfx k])
      | None \<Rightarrow> flattenKeys prfx rest (out @ [fullKey prfx k]))"
  by pat_completeness auto
termination
  by (relation "measure (\<lambda>(_, kv, _). kvs_size kv)") (auto dest: tryToMapStr_size)

definition FlattenKeys :: "M \<Rightarrow> string list" where
  "FlattenKeys m = flattenKeys [] (entries m) []"

section \<open>Merging event metadata\<close>

text \<open>The destination map of a merge, as a position in the target.\<close>

definition mergeFieldsGetDestMap ::
  "kvs \<Rightarrow> M \<Rightarrow> bool \<Rightarrow> (map_error, frame list \<times> M) outcome" where
  "mergeFieldsGetDestMap target from underRoot =
     (if \<not> underRoot then
        (case map_of target FieldsKey of
           None \<Rightarrow> Ok ([(map_put FieldsKey (VM (Some [])) target, FieldsKey, False)], Some [])
         | Some f \<Rightarrow>
             (case toMapStr f of
                Ok destMap \<Rightarrow> Ok ([(target, FieldsKey, is_plain f)], destMap)
              | Err e \<Rightarrow> Err e
              | Panic \<Rightarrow> Panic))
      else Ok ([], Some target))"

definition MergeFields :: "M \<Rightarrow> M \<Rightarrow> bool \<Rightarrow> M \<times> (map_error, unit) outcome" where
  "MergeFields target from underRoot =
     (case target of
        None \<Rightarrow> (target, Ok ())
      | Some t \<Rightarrow>
          if entries from = [] then (target, Ok ())
          else
            (case mergeFieldsGetDestMap t from underRoot of
               Ok (fs, Some destMap) \<Rightarrow> (plug fs (Some (map_put_all destMap (entries from))), Ok ())
             | Ok (fs, None) \<Rightarrow> (target, Panic)
             | Err e \<Rightarrow> (target, Err e)
             | Panic \<Rightarrow> (target, Panic)))"

definition MergeFieldsDeep :: "M \<Rightarrow> M \<Rightarrow> bool \<Rightarrow> M \<times> (map_error, unit) outcome" where
  "MergeFieldsDeep target from underRoot =
     (case target of
        None \<Rightarrow> (target, Ok ())
      | Some t \<Rightarrow>
          if entries from = [] then (target, Ok ())
          else
            (case mergeFieldsGetDestMap t from underRoot of
               Ok (fs, destMap) \<Rightarrow>
                 (case DeepUpdate destMap from of
                    Ok d \<Rightarrow> (plug fs d, Ok ())
                  | Err e \<Rightarrow> (target, Err e)
                  | Panic \<Rightarrow> (target, Panic))
             | Err e \<Rightarrow> (target, Err e)
             | Panic \<Rightarrow> (target, Panic)))"

definition AddTagsWithKey :: "M \<Rightarrow> string \<Rightarrow> string list \<Rightarrow> M \<times> (map_error, unit) outcome" where
  "AddTagsWithKey ms key tags =
     (if ms = None \<or> tags = [] then (ms, Ok ())
      else
        (case mapFind key ms True [] of
           (_, Ok (k, fs, Some subMap, oldTags, present)) \<Rightarrow>
             (if \<not> present then (plug fs (Some (map_put k (VStrs tags) subMap)), Ok ())
              else
                (case oldTags of
                   VStrs arr \<Rightarrow> (plug fs (Some (map_put k (VStrs (arr @ tags)) subMap)), Ok ())
                 | VAnys arr \<Rightarrow>
                     (plug fs (Some (map_put k (VAnys (arr @ map VStr tags)) subMap)), Ok ())
                 | _ \<Rightarrow> (plug fs (Some subMap), Err ErrExpectedStringArray)))
         | (r, Ok (_, _, None, _, _)) \<Rightarrow> (r, Panic)
         | (r, Err e) \<Rightarrow> (r, Err e)
         | (r, Panic) \<Rightarrow> (r, Panic)))"

definition AddTags :: "M \<Rightarrow> string list \<Rightarrow> M \<times> (map_error, unit) outcome" where
  "AddTags ms tags = AddTagsWithKey ms TagsKey tags"

section \<open>Traversal\<close>

text \<open>
  \<open>Traverse\<close> calls a visitor on the map of each level. The model of a visitor gets the caller's
  state, the level and the key; it returns the new state, the level after its changes and the key
  under which the visited value is stored afterwards (the code descends through a saved
  reference, so it follows the value when the visitor renames its key), or an error.

  \<open>strings.EqualFold\<close> folds Unicode letters; it is the argument \<open>eqFold\<close>. Go leaves open whether an
  entry created while a map is ranged over is produced by that range: it is the argument \<open>late\<close>.
\<close>

datatype TraversalMode = CaseSensitiveMode | CaseInsensitiveMode

type_synonym 's visitor = "'s \<Rightarrow> kvs \<Rightarrow> string \<Rightarrow> 's \<times> kvs \<times> (map_error, string) outcome"

fun matchKey :: "(string \<Rightarrow> string \<Rightarrow> bool) \<Rightarrow> TraversalMode \<Rightarrow> string \<Rightarrow> string \<Rightarrow> bool" where
  "matchKey eqFold CaseInsensitiveMode a b = eqFold a b"
| "matchKey eqFold CaseSensitiveMode a b = (a = b)"

text \<open>The keys the range still produces after the visitor changed \<open>level\<close> to \<open>level'\<close> at key \<open>k\<close>.\<close>

definition remaining :: "bool \<Rightarrow> kvs \<Rightarrow> kvs \<Rightarrow> string \<Rightarrow> string list" where
  "remaining late level level' k =
     filter (\<lambda>x. x \<in> fst ` set level') (tl (dropWhile (\<lambda>x. x \<noteq> k) (map fst level))) @
     (if late then filter (\<lambda>x. x \<notin> fst ` set level) (map fst level') else [])"

fun traverse :: "(string \<Rightarrow> string \<Rightarrow> bool) \<Rightarrow> bool \<Rightarrow> TraversalMode \<Rightarrow> 's visitor \<Rightarrow>
    string list \<Rightarrow> M \<Rightarrow> 's \<Rightarrow> M \<times> 's \<times> (map_error, unit) outcome" where
  "traverse eqFold late mode visitor [] current s = (current, s, Ok ())"
| "traverse eqFold late mode visitor (segment # segments) current s =
     (let level = entries current in
      case find (matchKey eqFold mode segment) (map fst level) of
        None \<Rightarrow> (current, s, Err ErrKeyNotFound)
      | Some k \<Rightarrow>
          let nxt = map_of level k in
          case visitor s level k of
            (s', level', Err e) \<Rightarrow> (Some level', s', Err e)
          | (s', level', Panic) \<Rightarrow> (Some level', s', Panic)
          | (s', level', Ok k') \<Rightarrow>
              let collision = (\<exists>x \<in> set (remaining late level level' k). matchKey eqFold mode segment x) in
              if segments = [] then
                (if collision then (Some level', s', Err ErrKeyCollision)
                 else (Some level', s', Ok ()))
              else
                (case Option.bind nxt tryToMapStr of
                   None \<Rightarrow> (Some level', s', Err ErrNotMapType)
                 | Some child \<Rightarrow>
                     if mode = CaseInsensitiveMode \<and> collision
                     then (Some level', s', Err ErrKeyCollision)
                     else
                       (case traverse eqFold late mode visitor segments child s' of
                          (child', s'', r) \<Rightarrow>
                            (Some (map_put k' (as_map (is_plain (the nxt)) child') level'), s'', r))))"

definition Traverse :: "(string \<Rightarrow> string \<Rightarrow> bool) \<Rightarrow> bool \<Rightarrow> M \<Rightarrow> string \<Rightarrow> TraversalMode \<Rightarrow>
    's visitor \<Rightarrow> 's \<Rightarrow> M \<times> 's \<times> (map_error, unit) outcome" where
  "Traverse eqFold late m path mode visitor s =
     traverse eqFold late mode visitor (split_byte dot path) m s"

text \<open>The visitor of \<open>FindFold\<close>; its state is the segment counter, the matched key and the value.\<close>

definition findFoldVisitor :: "(nat \<times> string \<times> gval) visitor" where
  "findFoldVisitor = (\<lambda>(segmentCount, matchedKey, value) level key.
     if segmentCount - 1 \<noteq> 0
     then ((segmentCount - 1, matchedKey @ key @ [dot], value), level, Ok key)
     else ((0, matchedKey @ key, case map_of level key of Some v \<Rightarrow> v | None \<Rightarrow> VNil), level, Ok key))"

definition FindFold :: "(string \<Rightarrow> string \<Rightarrow> bool) \<Rightarrow> bool \<Rightarrow> M \<Rightarrow> string \<Rightarrow>
    (map_error, string \<times> gval) outcome" where
  "FindFold eqFold late m path =
     (case Traverse eqFold late m path CaseInsensitiveMode findFoldVisitor
             (count_list path dot + 1, [], VNil) of
        (_, (_, matchedKey, value), Ok _) \<Rightarrow> Ok (matchedKey, value)
      | (_, _, Err e) \<Rightarrow> Err e
      | (_, _, Panic) \<Rightarrow> Panic)"

text \<open>The visitor of \<open>AlterPath\<close>; the alter function returns \<open>None\<close> for an error.\<close>

definition alterVisitor :: "(string \<Rightarrow> string option) \<Rightarrow> unit visitor" where
  "alterVisitor alterFunc = (\<lambda>_ level key.
     case alterFunc key of
       None \<Rightarrow> ((), level, Err ErrAlterFunc)
     | Some newKey \<Rightarrow>
         if newKey = [] then ((), level, Err ErrEmptyReplacement)
         else if newKey = key then ((), level, Ok key)
         else if map_of level newKey \<noteq> None then ((), level, Err ErrKeyCollision)
         else ((), map_put newKey (the (map_of level key)) (map_del key level), Ok newKey))"

definition AlterPath :: "(string \<Rightarrow> string \<Rightarrow> bool) \<Rightarrow> bool \<Rightarrow> M \<Rightarrow> string \<Rightarrow> TraversalMode \<Rightarrow>
    (string \<Rightarrow> string option) \<Rightarrow> M \<times> (map_error, unit) outcome" where
  "AlterPath eqFold late m path mode alterFunc =
     (case Traverse eqFold late m path mode (alterVisitor alterFunc) () of
        (m', _, r) \<Rightarrow> (m', r))"

section \<open>Small facts about values and lookups\<close>

lemma m_get_Some [simp]: "m_get (Some d) k = map_of d k"
  by (simp add: m_get_def)

lemma m_get_None [simp]: "m_get None k = None"
  by (simp add: m_get_def)

lemma m_get_SomeD: "m_get m k = Some v \<Longrightarrow> \<exists>d. m = Some d \<and> map_of d k = Some v"
  by (cases m) auto

lemma tryToMapStr_as_map [simp]: "tryToMapStr (as_map p m) = Some m"
  by (simp add: as_map_def)

lemma as_map_tryToMapStr [simp]: "tryToMapStr d = Some m \<Longrightarrow> as_map (is_plain d) m = d"
  by (cases d) (auto simp: as_map_def)

lemma is_plain_as_map [simp]: "is_plain (as_map p m) = p"
  by (simp add: as_map_def)

lemma cut_head_neq: "cut_byte dot key = Some (k, rest) \<Longrightarrow> k \<noteq> key \<and> key \<noteq> k"
  by (auto simp: cut_byte_Some)

section \<open>Laws of the walk\<close>

lemma plug_append: "plug (fs @ gs) m = plug gs (plug fs m)"
  by (induction fs m rule: plug.induct) auto

fun map_found :: "(frame list \<Rightarrow> frame list) \<Rightarrow> (map_error, found) outcome \<Rightarrow> (map_error, found) outcome" where
  "map_found f (Ok (k, fs, d, old, p)) = Ok (k, f fs, d, old, p)"
| "map_found f (Err e) = Err e"
| "map_found f Panic = Panic"

lemma map_found_id [simp]: "map_found (\<lambda>fs. fs) r = r"
  by (cases r) auto

lemma map_found_comp [simp]: "map_found f (map_found g r) = map_found (\<lambda>fs. f (g fs)) r"
  by (cases r) auto

text \<open>The walk only ever adds frames in front of those it was given.\<close>

lemma mapFind_frames:
  "mapFind key data c fs =
     (plug fs (fst (mapFind key data c [])),
      map_found (\<lambda>gs. gs @ fs) (snd (mapFind key data c [])))"
proof (induction key arbitrary: data c fs rule: length_induct)
  case (1 key)
  have IH: "mapFind k' d c gs =
      (plug gs (fst (mapFind k' d c [])), map_found (\<lambda>hs. hs @ gs) (snd (mapFind k' d c [])))"
    if "cut_byte dot key = Some (k, k')" and "gs \<noteq> []" for k k' d c gs
    using 1 cut_byte_length [OF that(1)] by blast
  show ?case
    by (auto simp: mapFind.simps [of key data c fs] mapFind.simps [of key data c "[]"] IH
        split: option.splits outcome.splits)
qed

text \<open>The recursive form of the operations on one key, which no longer mentions positions.\<close>

lemma GetValue_unfold:
  "GetValue m key =
     (case m_get m key of
        Some v \<Rightarrow> Ok v
      | None \<Rightarrow>
          (case cut_byte dot key of
             None \<Rightarrow> Err ErrKeyNotFound
           | Some (k, rest) \<Rightarrow>
               (case m_get m k of
                  None \<Rightarrow> Err ErrKeyNotFound
                | Some d \<Rightarrow>
                    (case tryToMapStr d of
                       None \<Rightarrow> Err ErrExpectedMap
                     | Some v \<Rightarrow> GetValue v rest))))"
proof -
  have map_found_get: "(case map_found f r of
        Ok (_, _, _, v, present) \<Rightarrow> if present then Ok v else Err ErrKeyNotFound
      | Err e \<Rightarrow> Err e | Panic \<Rightarrow> Panic) =
     (case r of
        Ok (_, _, _, v, present) \<Rightarrow> if present then Ok v else Err ErrKeyNotFound
      | Err e \<Rightarrow> Err e | Panic \<Rightarrow> Panic)" for f r
    by (cases r) auto
  have fs: "snd (mapFind k d c (f # fs)) = map_found (\<lambda>gs. gs @ f # fs) (snd (mapFind k d c []))"
    for k d c f fs by (subst mapFind_frames) simp
  show ?thesis
    by (auto simp: GetValue_def mapFind.simps [of key] fs map_found_get split: option.splits)
qed

lemma storeFound_frames:
  "storeFound v (plug gs a, map_found (\<lambda>hs. hs @ gs) b) =
     (plug gs (fst (storeFound v (a, b))), snd (storeFound v (a, b)))"
  by (cases "(v, a, b)" rule: storeFound.cases) (auto simp: plug_append)

lemma deleteFound_frames:
  "deleteFound (plug gs a, map_found (\<lambda>hs. hs @ gs) b) =
     (plug gs (fst (deleteFound (a, b))), snd (deleteFound (a, b)))"
  by (cases "(a, b)" rule: deleteFound.cases) (auto simp: plug_append)

lemma Put_unfold:
  "Put m key v =
     (case m_get m key of
        Some old \<Rightarrow> (Some (map_put key v (entries m)), Ok old)
      | None \<Rightarrow>
          (case cut_byte dot key of
             None \<Rightarrow>
               (case m of
                  None \<Rightarrow> (None, Panic)
                | Some d \<Rightarrow> (Some (map_put key v d), Ok VNil))
           | Some (k, rest) \<Rightarrow>
               (case m_get m k of
                  None \<Rightarrow>
                    (case m of
                       None \<Rightarrow> (None, Panic)
                     | Some d \<Rightarrow>
                         (case Put (Some []) rest v of
                            (sub, r) \<Rightarrow> (Some (map_put k (VM sub) d), r)))
                | Some d \<Rightarrow>
                    (case tryToMapStr d of
                       None \<Rightarrow> (m, Err ErrExpectedMap)
                     | Some c \<Rightarrow>
                         (case Put c rest v of
                            (sub, r) \<Rightarrow>
                              (Some (map_put k (as_map (is_plain d) sub) (entries m)), r))))))"
proof -
  have sf: "storeFound v (mapFind k d True (f # fs)) =
      (plug (f # fs) (fst (Put d k v)), snd (Put d k v))" for k d f fs
    by (subst mapFind_frames) (simp only: storeFound_frames Put_def prod.collapse)
  show ?thesis
    by (subst Put_def, subst mapFind.simps, cases m)
      (auto simp: sf as_map_def [of False] split: option.splits prod.splits)
qed

lemma Delete_unfold:
  "Delete m key =
     (case m_get m key of
        Some old \<Rightarrow> (Some (map_del key (entries m)), Ok ())
      | None \<Rightarrow>
          (case cut_byte dot key of
             None \<Rightarrow> (m, Err ErrKeyNotFound)
           | Some (k, rest) \<Rightarrow>
               (case m_get m k of
                  None \<Rightarrow> (m, Err ErrKeyNotFound)
                | Some d \<Rightarrow>
                    (case tryToMapStr d of
                       None \<Rightarrow> (m, Err ErrExpectedMap)
                     | Some c \<Rightarrow>
                         (case Delete c rest of
                            (sub, r) \<Rightarrow>
                              (Some (map_put k (as_map (is_plain d) sub) (entries m)), r))))))"
proof -
  have df: "deleteFound (mapFind k d False (f # fs)) =
      (plug (f # fs) (fst (Delete d k)), snd (Delete d k))" for k d f fs
    by (subst mapFind_frames) (simp only: deleteFound_frames Delete_def prod.collapse)
  show ?thesis
    by (subst Delete_def, subst mapFind.simps, cases m)
      (auto simp: df split: option.splits prod.splits)
qed

text \<open>Induction along a dotted key, for any map the walk meets.\<close>

lemma key_induct [case_names step]:
  assumes "\<And>key m. (\<And>k rest m'. cut_byte dot key = Some (k, rest) \<Longrightarrow> P rest m') \<Longrightarrow> P key m"
  shows "P key m"
proof (induction key arbitrary: m rule: length_induct)
  case (1 key)
  show ?case
    by (rule assms) (use 1 in \<open>blast dest: cut_byte_length\<close>)
qed

text \<open>The five ways a walk can meet a non-nil map, and each operation in each of them.\<close>

lemma walk_cases [case_names hit leaf gap blocked down]:
  obtains
    (hit) v where "map_of d key = Some v"
  | (leaf) "map_of d key = None" "cut_byte dot key = None"
  | (gap) k rest where "map_of d key = None" "cut_byte dot key = Some (k, rest)"
      "map_of d k = None" "key \<noteq> k"
  | (blocked) k rest x where "map_of d key = None" "cut_byte dot key = Some (k, rest)"
      "map_of d k = Some x" "tryToMapStr x = None" "key \<noteq> k"
  | (down) k rest x c where "map_of d key = None" "cut_byte dot key = Some (k, rest)"
      "map_of d k = Some x" "tryToMapStr x = Some c" "key \<noteq> k"
  by (metis cut_head_neq option.exhaust surj_pair)

lemma GetValue_nil [simp]: "GetValue None key = Err ErrKeyNotFound"
  by (simp add: GetValue_unfold split: option.splits)

lemma Put_nil [simp]: "Put None key v = (None, Panic)"
  by (simp add: Put_unfold split: option.splits)

lemma Delete_nil [simp]: "Delete None key = (None, Err ErrKeyNotFound)"
  by (simp add: Delete_unfold split: option.splits)

lemma GetValue_walk:
  "map_of d key = Some v \<Longrightarrow> GetValue (Some d) key = Ok v"
  "map_of d key = None \<Longrightarrow> cut_byte dot key = None \<Longrightarrow> GetValue (Some d) key = Err ErrKeyNotFound"
  "map_of d key = None \<Longrightarrow> cut_byte dot key = Some (k, rest) \<Longrightarrow> map_of d k = None \<Longrightarrow>
     GetValue (Some d) key = Err ErrKeyNotFound"
  "map_of d key = None \<Longrightarrow> cut_byte dot key = Some (k, rest) \<Longrightarrow> map_of d k = Some x \<Longrightarrow>
     tryToMapStr x = None \<Longrightarrow> GetValue (Some d) key = Err ErrExpectedMap"
  "map_of d key = None \<Longrightarrow> cut_byte dot key = Some (k, rest) \<Longrightarrow> map_of d k = Some x \<Longrightarrow>
     tryToMapStr x = Some c \<Longrightarrow> GetValue (Some d) key = GetValue c rest"
  by (simp_all add: GetValue_unfold [of _ key])

lemma Put_walk:
  "map_of d key = Some x \<Longrightarrow> Put (Some d) key v = (Some (map_put key v d), Ok x)"
  "map_of d key = None \<Longrightarrow> cut_byte dot key = None \<Longrightarrow>
     Put (Some d) key v = (Some (map_put key v d), Ok VNil)"
  "map_of d key = None \<Longrightarrow> cut_byte dot key = Some (k, rest) \<Longrightarrow> map_of d k = None \<Longrightarrow>
     Put (Some d) key v =
       (Some (map_put k (VM (fst (Put (Some []) rest v))) d), snd (Put (Some []) rest v))"
  "map_of d key = None \<Longrightarrow> cut_byte dot key = Some (k, rest) \<Longrightarrow> map_of d k = Some x \<Longrightarrow>
     tryToMapStr x = None \<Longrightarrow> Put (Some d) key v = (Some d, Err ErrExpectedMap)"
  "map_of d key = None \<Longrightarrow> cut_byte dot key = Some (k, rest) \<Longrightarrow> map_of d k = Some x \<Longrightarrow>
     tryToMapStr x = Some c \<Longrightarrow>
     Put (Some d) key v =
       (Some (map_put k (as_map (is_plain x) (fst (Put c rest v))) d), snd (Put c rest v))"
  by (simp_all add: Put_unfold [of _ key] case_prod_beta)

lemma Delete_walk:
  "map_of d key = Some x \<Longrightarrow> Delete (Some d) key = (Some (map_del key d), Ok ())"
  "map_of d key = None \<Longrightarrow> cut_byte dot key = None \<Longrightarrow>
     Delete (Some d) key = (Some d, Err ErrKeyNotFound)"
  "map_of d key = None \<Longrightarrow> cut_byte dot key = Some (k, rest) \<Longrightarrow> map_of d k = None \<Longrightarrow>
     Delete (Some d) key = (Some d, Err ErrKeyNotFound)"
  "map_of d key = None \<Longrightarrow> cut_byte dot key = Some (k, rest) \<Longrightarrow> map_of d k = Some x \<Longrightarrow>
     tryToMapStr x = None \<Longrightarrow> Delete (Some d) key = (Some d, Err ErrExpectedMap)"
  "map_of d key = None \<Longrightarrow> cut_byte dot key = Some (k, rest) \<Longrightarrow> map_of d k = Some x \<Longrightarrow>
     tryToMapStr x = Some c \<Longrightarrow>
     Delete (Some d) key =
       (Some (map_put k (as_map (is_plain x) (fst (Delete c rest))) d), snd (Delete c rest))"
  by (simp_all add: Delete_unfold [of _ key] case_prod_beta)

section \<open>Reading after a write\<close>

text \<open>Storing below an empty map creates the whole path and finds no old value.\<close>

lemma Put_fresh: "\<exists>sub. Put (Some []) key v = (Some sub, Ok VNil)"
proof (induction key "()" rule: key_induct)
  case (step key)
  show ?case
  proof (cases "cut_byte dot key")
    case (Some kr)
    with step show ?thesis by (cases kr) (auto simp: Put_walk(3))
  qed (simp add: Put_walk(2))
qed

lemma Put_fresh_Ok [simp]: "snd (Put (Some []) key v) = Ok VNil"
  using Put_fresh [of key v] by auto

lemma Put_GetValue:
  "is_Ok (snd (Put m key v)) \<Longrightarrow> GetValue (fst (Put m key v)) key = Ok v"
proof (induction key m rule: key_induct)
  case (step key m)
  show ?case
  proof (cases m)
    case (Some d)
    show ?thesis
      using step by (cases d key rule: walk_cases) (auto simp: Some Put_walk GetValue_walk)
  qed (use step in simp)
qed

lemma Put_old:
  "snd (Put m key v) = Ok old \<Longrightarrow> old = (case GetValue m key of Ok x \<Rightarrow> x | _ \<Rightarrow> VNil)"
proof (induction key m rule: key_induct)
  case (step key m)
  show ?case
  proof (cases m)
    case (Some d)
    show ?thesis
      using step by (cases d key rule: walk_cases) (auto simp: Some Put_walk GetValue_walk)
  qed (use step in simp)
qed

text \<open>A failed store or delete leaves the map as it was.\<close>

lemma Put_fail_unchanged: "snd (Put m key v) = Err e \<Longrightarrow> fst (Put m key v) = m"
proof (induction key m rule: key_induct)
  case (step key m)
  show ?case
  proof (cases m)
    case (Some d)
    show ?thesis
      using step by (cases d key rule: walk_cases) (auto simp: Some Put_walk map_put_id)
  qed (use step in simp)
qed

lemma Delete_fail_unchanged: "snd (Delete m key) = Err e \<Longrightarrow> fst (Delete m key) = m"
proof (induction key m rule: key_induct)
  case (step key m)
  show ?case
  proof (cases m)
    case (Some d)
    show ?thesis
      using step by (cases d key rule: walk_cases) (auto simp: Some Delete_walk map_put_id)
  qed (use step in simp)
qed

lemma Put_error_iff: "snd (Put m key v) = Err e \<Longrightarrow> e = ErrExpectedMap \<and> GetValue m key = Err ErrExpectedMap"
proof (induction key m rule: key_induct)
  case (step key m)
  show ?case
  proof (cases m)
    case (Some d)
    show ?thesis
      using step by (cases d key rule: walk_cases) (auto simp: Some Put_walk GetValue_walk)
  qed (use step in simp)
qed

lemma GetValue_not_Panic [simp]: "GetValue m key \<noteq> Panic"
proof (induction key m rule: key_induct)
  case (step key m)
  show ?case
  proof (cases m)
    case (Some d)
    show ?thesis
      using step by (cases d key rule: walk_cases) (auto simp: Some GetValue_walk)
  qed simp
qed

lemma HasKey_GetValue: "fst (HasKey m key) \<longleftrightarrow> is_Ok (GetValue m key)"
  by (auto simp: HasKey_def GetValue_def split: outcome.splits prod.splits)

section \<open>Invariants that hold at every level\<close>

text \<open>\<open>deep P m\<close>: the map \<open>m\<close> and every map below it satisfies \<open>P\<close>.\<close>

function deep :: "(M \<Rightarrow> bool) \<Rightarrow> M \<Rightarrow> bool" where
  "deep P m =
     (P m \<and> (\<forall>kv \<in> set (entries m). case tryToMapStr (snd kv) of Some c \<Rightarrow> deep P c | None \<Rightarrow> True))"
  by pat_completeness auto
termination
  by (relation "measure (\<lambda>(_, m). kvs_size (entries m))")
    (auto dest!: kvs_size_mem tryToMapStr_size)

declare deep.simps [simp del]

definition plain_map :: "M \<Rightarrow> bool" where
  "plain_map = deep (\<lambda>m. wf_map (entries m) \<and> (\<forall>k \<in> fst ` set (entries m). dot \<notin> set k \<and> k \<noteq> []))"

definition wf_M :: "M \<Rightarrow> bool" where
  "wf_M = deep (\<lambda>m. wf_map (entries m))"

definition no_nil :: "M \<Rightarrow> bool" where
  "no_nil = deep (\<lambda>m. m \<noteq> None)"

lemma deep_top: "deep P m \<Longrightarrow> P m"
  by (simp add: deep.simps [of P m])

lemma deep_child: "deep P (Some d) \<Longrightarrow> map_of d k = Some x \<Longrightarrow> tryToMapStr x = Some c \<Longrightarrow> deep P c"
  by (fastforce simp: deep.simps [of P "Some d"] dest: map_of_SomeD)

lemma deep_child_set: "deep P m \<Longrightarrow> (k, x) \<in> set (entries m) \<Longrightarrow> tryToMapStr x = Some c \<Longrightarrow> deep P c"
  by (fastforce simp: deep.simps [of P m])

lemma deep_put:
  assumes "deep P (Some d)" and "P (Some (map_put k x d))"
    and "\<And>c. tryToMapStr x = Some c \<Longrightarrow> deep P c"
  shows "deep P (Some (map_put k x d))"
  using assms by (subst deep.simps)
    (fastforce dest!: set_map_put split: option.splits intro: deep_child_set [of P "Some d", simplified])

end
