(* ===== verification/Mapstr_Laws.thy ===== *)
theory Mapstr_Laws
  imports Mapstr
begin

text \<open>
  What the operations of \<open>Mapstr\<close> do, stated against an abstract view: a map without dotted keys
  is a tree, and a dotted key is the path of its segments. The abstract operation is
  \<open>lookup_path\<close>; \<open>GetValue\<close>, \<open>Put\<close>, \<open>Delete\<close>, \<open>Flatten\<close>, \<open>FlattenKeys\<close>, \<open>DeepUpdate\<close> and \<open>Clone\<close>
  are related to it.
\<close>

section \<open>Paths\<close>

fun lookup_path :: "string list \<Rightarrow> M \<Rightarrow> gval option" where
  "lookup_path [] m = None"
| "lookup_path [k] m = m_get m k"
| "lookup_path (k # k' # ks) m =
     (case m_get m k of
        Some x \<Rightarrow> (case tryToMapStr x of Some c \<Rightarrow> lookup_path (k' # ks) c | None \<Rightarrow> None)
      | None \<Rightarrow> None)"

lemma lookup_path_Cons:
  "ks \<noteq> [] \<Longrightarrow> lookup_path (k # ks) m =
     (case m_get m k of
        Some x \<Rightarrow> (case tryToMapStr x of Some c \<Rightarrow> lookup_path ks c | None \<Rightarrow> None)
      | None \<Rightarrow> None)"
  by (cases ks) auto

lemma lookup_path_nil [simp]: "lookup_path p None = None"
proof (cases p)
  case (Cons k ks)
  then show ?thesis by (cases ks) auto
qed simp

lemma lookup_path_empty [simp]: "lookup_path p (Some []) = None"
proof (cases p)
  case (Cons k ks)
  then show ?thesis by (cases ks) auto
qed simp

lemma m_get_entries [simp]: "m_get (Some (entries m)) = m_get m"
  by (cases m) (auto simp: fun_eq_iff)

lemma lookup_path_entries [simp]: "lookup_path p (Some (entries m)) = lookup_path p m"
  by (cases m) auto

lemma plain_keys: "plain_map (Some d) \<Longrightarrow> map_of d k = Some x \<Longrightarrow> dot \<notin> set k \<and> k \<noteq> []"
  unfolding plain_map_def by (drule deep_top) (force dest: map_of_SomeD)

lemma plain_child: "plain_map (Some d) \<Longrightarrow> map_of d k = Some x \<Longrightarrow> tryToMapStr x = Some c \<Longrightarrow> plain_map c"
  unfolding plain_map_def by (rule deep_child)

lemma plain_cut: "plain_map (Some d) \<Longrightarrow> cut_byte dot key = Some (k, rest) \<Longrightarrow> map_of d key = None"
  by (cases "map_of d key") (auto dest: plain_keys simp: cut_byte_Some)

lemma split_cut: "cut_byte dot key = Some (k, rest) \<Longrightarrow> split_byte dot key = k # split_byte dot rest"
  by (auto simp: cut_byte_Some split_byte_cut)

lemma split_nocut: "cut_byte dot key = None \<Longrightarrow> split_byte dot key = [key]"
  by (simp add: cut_byte_None split_byte_no_sep)

lemma GetValue_lookup_path:
  "plain_map m \<Longrightarrow> GetValue m key = Ok v \<longleftrightarrow> lookup_path (split_byte dot key) m = Some v"
proof (induction key m rule: key_induct)
  case (step key m)
  show ?case
  proof (cases m)
    case None
    then show ?thesis by simp
  next
    case (Some d)
    show ?thesis
    proof (cases "cut_byte dot key")
      case None
      then show ?thesis
        by (cases d key rule: walk_cases) (auto simp: Some GetValue_walk split_nocut)
    next
      case (Some kr)
      then obtain k rest where cut: "cut_byte dot key = Some (k, rest)" by (cases kr) auto
      show ?thesis
        using step cut plain_cut [of d key k rest]
        by (cases d key rule: walk_cases)
          (auto simp: \<open>m = Some d\<close> GetValue_walk split_cut lookup_path_Cons dest: plain_child)
    qed
  qed
qed

lemma plain_empty [simp]: "plain_map (Some [])"
  by (simp add: plain_map_def deep.simps)

section \<open>Store and delete, seen through paths\<close>

lemma Put_lookup_frame:
  assumes "plain_map m" and "is_Ok (snd (Put m key v))"
    and "\<not> prefix (split_byte dot key) q" and "\<not> prefix q (split_byte dot key)"
  shows "lookup_path q (fst (Put m key v)) = lookup_path q m"
  using assms
proof (induction key m arbitrary: q rule: key_induct)
  case (step key m)
  from step.prems obtain d where m: "m = Some d" by (cases m) auto
  from step.prems obtain h qs where q: "q = h # qs" by (cases q) auto
  show ?case
  proof (cases "cut_byte dot key")
    case None
    then show ?thesis
      using step.prems
      by (cases d key rule: walk_cases)
        (cases "qs = []"; auto simp: m q Put_walk split_nocut lookup_path_Cons)+
  next
    case (Some kr)
    then obtain k rest where cut: "cut_byte dot key = Some (k, rest)" by (cases kr) auto
    show ?thesis
    proof (cases "h = k")
      case True
      with step.prems cut have "qs \<noteq> []" by (auto simp: q split_cut)
      with True show ?thesis
        using step.prems cut plain_cut [of d key k rest] step.IH [OF cut, of "Some []" qs]
          step.IH [OF cut, of _ qs]
        by (cases d key rule: walk_cases)
          (auto simp: m q Put_walk split_cut lookup_path_Cons dest: plain_child)
    next
      case False
      then show ?thesis
        using step.prems cut plain_cut [of d key k rest]
        by (cases d key rule: walk_cases)
          (cases "qs = []"; auto simp: m q Put_walk split_cut lookup_path_Cons)+
    qed
  qed
qed

lemma plain_put:
  assumes "plain_map (Some d)" and "dot \<notin> set k" and "k \<noteq> []"
    and "\<And>c. tryToMapStr x = Some c \<Longrightarrow> plain_map c"
  shows "plain_map (Some (map_put k x d))"
  using assms unfolding plain_map_def
  by (intro deep_put) (auto dest!: deep_top set_map_put)

lemma Put_plain:
  assumes "plain_map m" and "[] \<notin> set (split_byte dot key)"
    and "\<And>c. tryToMapStr v = Some c \<Longrightarrow> plain_map c"
  shows "plain_map (fst (Put m key v))"
  using assms
proof (induction key m rule: key_induct)
  case (step key m)
  show ?case
  proof (cases m)
    case None
    with step.prems show ?thesis by simp
  next
    case (Some d)
    show ?thesis
    proof (cases "cut_byte dot key")
      case None
      with step.prems show ?thesis
        by (cases d key rule: walk_cases)
          (auto simp: Some Put_walk split_nocut cut_byte_None intro!: plain_put)
    next
      case (Some kr)
      then obtain k rest where cut: "cut_byte dot key = Some (k, rest)" by (cases kr) auto
      then have k: "dot \<notin> set k" "k \<noteq> []" "[] \<notin> set (split_byte dot rest)"
        using step.prems(2) by (auto simp: split_cut cut_byte_Some)
      from cut step.prems plain_cut [of d key k rest] have "map_of d key = None"
        by (simp add: \<open>m = Some d\<close>)
      then show ?thesis
      proof (cases d key rule: walk_cases)
        case (down k' rest' x c)
        with step.prems have "plain_map c"
          by (auto simp: \<open>m = Some d\<close> intro: plain_child)
        with down step cut k show ?thesis
          by (auto simp: \<open>m = Some d\<close> Put_walk intro!: plain_put)
      qed (use step cut k in \<open>auto simp: \<open>m = Some d\<close> Put_walk intro!: plain_put\<close>)
    qed
  qed
qed

lemma deep_del:
  assumes "deep P (Some d)" and "P (Some (map_del k d))"
  shows "deep P (Some (map_del k d))"
  using assms by (subst deep.simps)
    (force split: option.splits dest: set_map_del [THEN subsetD]
      intro: deep_child_set [of P "Some d", simplified])

lemma plain_del: "plain_map (Some d) \<Longrightarrow> plain_map (Some (map_del k d))"
  unfolding plain_map_def
  by (intro deep_del) (auto dest!: deep_top, (use set_map_del in fastforce)+)

lemma Delete_plain: "plain_map m \<Longrightarrow> plain_map (fst (Delete m key))"
proof (induction key m rule: key_induct)
  case (step key m)
  show ?case
  proof (cases m)
    case None
    with step.prems show ?thesis by simp
  next
    case (Some d)
    show ?thesis
    proof (cases d key rule: walk_cases)
      case (down k rest x c)
      with step.prems have "plain_map c"
        by (auto simp: Some intro: plain_child)
      with down step show ?thesis
        by (auto simp: Some Delete_walk intro!: plain_put dest: plain_keys)
    qed (use step.prems in \<open>auto simp: Some Delete_walk intro!: plain_del\<close>)
  qed
qed

lemma Delete_GetValue:
  assumes "plain_map m" and "is_Ok (snd (Delete m key))"
  shows "GetValue (fst (Delete m key)) key = Err ErrKeyNotFound"
  using assms
proof (induction key m rule: key_induct)
  case (step key m)
  from step.prems obtain d where m: "m = Some d" by (cases m) auto
  show ?case
  proof (cases d key rule: walk_cases)
    case (hit v)
    with step.prems have "cut_byte dot key = None"
      by (auto simp: m cut_byte_None dest: plain_keys)
    with hit show ?thesis by (simp add: m Delete_walk GetValue_walk)
  next
    case (down k rest x c)
    with step show ?thesis
      by (auto simp: m Delete_walk GetValue_walk dest: plain_child)
  qed (use step.prems in \<open>auto simp: m Delete_walk\<close>)
qed

lemma Delete_lookup_frame:
  assumes "plain_map m" and "is_Ok (snd (Delete m key))"
    and "\<not> prefix (split_byte dot key) q" and "\<not> prefix q (split_byte dot key)"
  shows "lookup_path q (fst (Delete m key)) = lookup_path q m"
  using assms
proof (induction key m arbitrary: q rule: key_induct)
  case (step key m)
  from step.prems obtain d where m: "m = Some d" by (cases m) auto
  from step.prems obtain h qs where q: "q = h # qs" by (cases q) auto
  show ?case
  proof (cases d key rule: walk_cases)
    case (hit v)
    with step.prems have "split_byte dot key = [key]"
      by (auto simp: m intro!: split_byte_no_sep dest: plain_keys)
    with hit step.prems show ?thesis
      by (cases "qs = []") (auto simp: m q Delete_walk lookup_path_Cons)
  next
    case (down k rest x c)
    with step.prems step.IH [OF down(2), of c qs] show ?thesis
      by (cases "qs = []") (auto simp: m q Delete_walk split_cut lookup_path_Cons dest: plain_child)
  qed (use step.prems in \<open>auto simp: m Delete_walk\<close>)
qed

section \<open>Flattening\<close>

text \<open>The leaves of a map with their paths, in iteration order.\<close>

function leaves :: "kvs \<Rightarrow> (string list \<times> gval) list" where
  "leaves [] = []"
| "leaves ((k, v) # r) =
     (case tryToMapStr v of
        Some m \<Rightarrow> map (\<lambda>(p, x). (k # p, x)) (leaves (entries m))
      | None \<Rightarrow> [([k], v)]) @ leaves r"
  by pat_completeness auto
termination
  by (relation "measure kvs_size") (auto dest: tryToMapStr_size)

text \<open>The positions of a map, inner maps included.\<close>

function positions :: "kvs \<Rightarrow> string list list" where
  "positions [] = []"
| "positions ((k, v) # r) =
     (case tryToMapStr v of
        Some m \<Rightarrow> map (\<lambda>p. k # p) (positions (entries m))
      | None \<Rightarrow> []) @ [k] # positions r"
  by pat_completeness auto
termination
  by (relation "measure kvs_size") (auto dest: tryToMapStr_size)

lemma leaves_not_Nil: "(p, x) \<in> set (leaves d) \<Longrightarrow> p \<noteq> []"
  by (induction d arbitrary: p rule: leaves.induct) (auto split: option.splits)

lemma positions_not_Nil: "p \<in> set (positions d) \<Longrightarrow> p \<noteq> []"
  by (induction d arbitrary: p rule: positions.induct) (auto split: option.splits)

abbreviation dotted :: "string list \<Rightarrow> string" where
  "dotted \<equiv> join_str [dot]"

definition nonempty_keys :: "M \<Rightarrow> bool" where
  "nonempty_keys = deep (\<lambda>m. [] \<notin> fst ` set (entries m))"

lemma nonempty_keys_Cons:
  "nonempty_keys (Some ((k, v) # r)) \<longleftrightarrow>
     k \<noteq> [] \<and> (\<forall>m. tryToMapStr v = Some m \<longrightarrow> nonempty_keys m) \<and> nonempty_keys (Some r)"
  unfolding nonempty_keys_def
  by (subst deep.simps, subst (2) deep.simps) (auto split: option.splits)

lemma map_put_all_append: "map_put_all m (a @ b) = map_put_all (map_put_all m a) b"
  by (induction m a rule: map_put_all.induct) auto

lemma nonempty_keys_entries [simp]: "nonempty_keys (Some (entries m)) = nonempty_keys m"
  unfolding nonempty_keys_def by (subst (1 2) deep.simps) simp

lemma fullKey_fullKey:
  "k \<noteq> [] \<Longrightarrow> p \<noteq> [] \<Longrightarrow> fullKey (fullKey prfx k) (dotted p) = fullKey prfx (dotted (k # p))"
  by (simp add: fullKey_def join_str_Cons)

lemma flatten_leaves:
  "nonempty_keys (Some d) \<Longrightarrow>
     flatten prfx d out = map_put_all out (map (\<lambda>(p, x). (fullKey prfx (dotted p), x)) (leaves d))"
proof (induction prfx d out rule: flatten.induct)
  case (2 prfx k v rest out)
  show ?case
  proof (cases "tryToMapStr v")
    case None
    with 2 show ?thesis by (simp add: nonempty_keys_Cons)
  next
    case (Some m)
    have eq: "map ((\<lambda>(p, x). (fullKey prfx (dotted p), x)) \<circ> (\<lambda>(p, x). (k # p, x))) (leaves (entries m)) =
        map (\<lambda>(p, x). (fullKey (fullKey prfx k) (dotted p), x)) (leaves (entries m))"
      using 2 by (auto simp: nonempty_keys_Cons fullKey_fullKey dest!: leaves_not_Nil)
    from Some 2 show ?thesis by (simp add: nonempty_keys_Cons map_put_all_append eq)
  qed
qed simp

lemma flattenKeys_positions:
  "nonempty_keys (Some d) \<Longrightarrow>
     flattenKeys prfx d out = out @ map (\<lambda>p. fullKey prfx (dotted p)) (positions d)"
proof (induction prfx d out rule: flattenKeys.induct)
  case (2 prfx k v rest out)
  show ?case
  proof (cases "tryToMapStr v")
    case None
    with 2 show ?thesis by (simp add: nonempty_keys_Cons)
  next
    case (Some m)
    have eq: "map ((\<lambda>p. fullKey prfx (dotted p)) \<circ> (\<lambda>p. k # p)) (positions (entries m)) =
        map (\<lambda>p. fullKey (fullKey prfx k) (dotted p)) (positions (entries m))"
      using 2 by (auto simp: nonempty_keys_Cons fullKey_fullKey dest!: positions_not_Nil)
    from Some 2 show ?thesis by (simp add: nonempty_keys_Cons eq)
  qed
qed simp

lemma plain_Cons:
  "plain_map (Some ((k, v) # r)) \<longleftrightarrow>
     k \<noteq> [] \<and> dot \<notin> set k \<and> k \<notin> fst ` set r \<and>
     (\<forall>m. tryToMapStr v = Some m \<longrightarrow> plain_map m) \<and> plain_map (Some r)"
  unfolding plain_map_def
  by (subst deep.simps, subst (2) deep.simps) (auto simp: wf_map_def split: option.splits)

lemma plain_entries [simp]: "plain_map (Some (entries m)) = plain_map m"
  unfolding plain_map_def by (subst (1 2) deep.simps) simp

lemma plain_nonempty: "plain_map (Some d) \<Longrightarrow> nonempty_keys (Some d)"
proof (induction d rule: leaves.induct)
  case 1
  show ?case by (simp add: nonempty_keys_def deep.simps)
next
  case (2 k v r)
  then show ?case
    by (cases "tryToMapStr v") (auto simp: plain_Cons nonempty_keys_Cons)
qed

lemma leaves_hd: "(p, x) \<in> set (leaves d) \<Longrightarrow> hd p \<in> fst ` set d"
  by (induction d rule: leaves.induct) (auto split: option.splits)

lemma positions_hd: "p \<in> set (positions d) \<Longrightarrow> hd p \<in> fst ` set d"
  by (induction d rule: positions.induct) (auto split: option.splits)

lemma lookup_path_other: "lookup_path p (Some d) = Some x \<Longrightarrow> hd p \<in> fst ` set d"
  by (cases p rule: list.exhaust; cases "tl p = []")
    (auto simp: lookup_path_Cons split: option.splits dest!: map_of_SomeD intro: rev_image_eqI)

lemma lookup_path_skip: "hd p \<noteq> k \<Longrightarrow> lookup_path p (Some ((k, v) # r)) = lookup_path p (Some r)"
  by (cases p rule: list.exhaust; cases "tl p = []") (auto simp: lookup_path_Cons)

lemma lookup_path_here:
  "lookup_path (k # p) (Some ((k, v) # r)) =
     (if p = [] then Some v
      else case tryToMapStr v of Some c \<Rightarrow> lookup_path p c | None \<Rightarrow> None)"
  by (auto simp: lookup_path_Cons)

lemma image_Cons_fst [simp]: "(k # q, x) \<in> (\<lambda>(p, x). (k # p, x)) ` S \<longleftrightarrow> (q, x) \<in> S"
  by force

lemma leaves_mem:
  "plain_map (Some d) \<Longrightarrow>
     (p, x) \<in> set (leaves d) \<longleftrightarrow> lookup_path p (Some d) = Some x \<and> tryToMapStr x = None"
proof (induction d arbitrary: p rule: leaves.induct)
  case (2 k v r)
  then have k: "k \<notin> fst ` set r" and pr: "plain_map (Some r)" by (auto simp: plain_Cons)
  show ?case
  proof (cases "p \<noteq> [] \<and> hd p = k")
    case True
    then obtain q where p: "p = k # q" by (cases p) auto
    have "(p, x) \<notin> set (leaves r)" using k leaves_hd [of p x r] p by auto
    with 2 p show ?thesis
      by (cases "tryToMapStr v"; cases q)
        (auto simp: plain_Cons lookup_path_here entries.simps split: if_splits dest: leaves_not_Nil)
  next
    case False
    with 2 pr show ?thesis
      by (cases "p = []") (auto simp: lookup_path_skip split: option.splits dest: leaves_not_Nil)
  qed
qed simp

lemma positions_mem:
  "plain_map (Some d) \<Longrightarrow> p \<in> set (positions d) \<longleftrightarrow> lookup_path p (Some d) \<noteq> None"
proof (induction d arbitrary: p rule: positions.induct)
  case (2 k v r)
  then have k: "k \<notin> fst ` set r" and pr: "plain_map (Some r)" by (auto simp: plain_Cons)
  show ?case
  proof (cases "p \<noteq> [] \<and> hd p = k")
    case True
    then obtain q where p: "p = k # q" by (cases p) auto
    have "p \<notin> set (positions r)" using k positions_hd [of p r] p by auto
    with 2 p show ?thesis
      by (cases "tryToMapStr v"; cases q)
        (auto simp: plain_Cons lookup_path_here simp del: lookup_path.simps dest: positions_not_Nil)
  next
    case False
    with 2 pr show ?thesis
      by (cases "p = []") (auto simp: lookup_path_skip split: option.splits dest: positions_not_Nil)
  qed
qed simp

lemma plain_segments: "plain_map (Some d) \<Longrightarrow> lookup_path p (Some d) = Some x \<Longrightarrow> s \<in> set p \<Longrightarrow> dot \<notin> set s"
proof (induction p "Some d" arbitrary: d rule: lookup_path.induct)
  case (3 k k' ks)
  then obtain y c where "map_of d k = Some y" "tryToMapStr y = Some c" "lookup_path (k' # ks) c = Some x"
    by (auto split: option.splits)
  with 3 plain_child [of d k y c] plain_keys [of d k y] show ?case
    by (cases c) auto
qed (auto dest: plain_keys)

lemma map_fst_Cons: "map fst (map (\<lambda>(p, x). (k # p, x)) L) = map (Cons k) (map fst L)"
  by (induction L) auto

lemma leaves_distinct: "plain_map (Some d) \<Longrightarrow> distinct (map fst (leaves d))"
proof (induction d rule: leaves.induct)
  case (2 k v r)
  then have "k \<notin> fst ` set r" by (simp add: plain_Cons)
  then have fresh: "k # q \<notin> fst ` set (leaves r)" for q
    by (force dest!: leaves_hd)
  show ?case
  proof (cases "tryToMapStr v")
    case None
    with 2 fresh [of "[]"] show ?thesis by (simp add: plain_Cons)
  next
    case (Some m)
    have "map fst (leaves ((k, v) # r)) = map (Cons k) (map fst (leaves (entries m))) @ map fst (leaves r)"
      using Some by (simp only: leaves.simps option.case map_append map_fst_Cons)
    moreover have "distinct (map (Cons k) (map fst (leaves (entries m))))"
      using 2 Some by (subst distinct_map) (simp add: plain_Cons)
    moreover have "set (map (Cons k) (map fst (leaves (entries m)))) \<inter> set (map fst (leaves r)) = {}"
      using fresh by auto
    ultimately show ?thesis
      using 2 Some by (simp add: plain_Cons del: map_map set_map)
  qed
qed simp

lemma Flatten_lookup:
  assumes "plain_map m"
  shows "map_of (entries (Flatten m)) key = Some v \<longleftrightarrow> GetValue m key = Ok v \<and> tryToMapStr v = None"
proof -
  let ?d = "entries m"
  let ?L = "map (\<lambda>(p, x). (dotted p, x)) (leaves ?d)"
  have pl: "plain_map (Some ?d)" using assms by simp
  have split: "split_byte dot (dotted p) = p" if "(p, x) \<in> set (leaves ?d)" for p x
    using that leaves_mem [OF pl] plain_segments [OF pl] leaves_not_Nil [OF that]
    by (intro split_join) auto
  have "inj_on dotted (fst ` set (leaves ?d))"
    by (rule inj_on_inverseI [where g = "split_byte dot"]) (use split in force)
  then have "distinct (map (dotted \<circ> fst) (leaves ?d))"
    using leaves_distinct [OF pl] by (metis distinct_map list.set_map map_map)
  then have "wf_map ?L"
    by (simp add: wf_map_def comp_def case_prod_beta)
  moreover have "entries (Flatten m) = map_put_all [] ?L"
    using flatten_leaves [OF plain_nonempty [OF pl]] by (simp add: Flatten_def fullKey_def)
  ultimately have "map_of (entries (Flatten m)) key = Some v \<longleftrightarrow> (key, v) \<in> set ?L"
    by (metis map_of_map_put_all_empty wf_map_mem)
  also have "\<dots> \<longleftrightarrow> (split_byte dot key, v) \<in> set (leaves ?d)"
    using split join_split [of dot key] by force
  also have "\<dots> \<longleftrightarrow> GetValue m key = Ok v \<and> tryToMapStr v = None"
    using leaves_mem [OF pl] GetValue_lookup_path [OF assms] by simp
  finally show ?thesis .
qed

lemma FlattenKeys_lookup:
  assumes "plain_map m"
  shows "key \<in> set (FlattenKeys m) \<longleftrightarrow> is_Ok (GetValue m key)"
proof -
  let ?d = "entries m"
  have pl: "plain_map (Some ?d)" using assms by simp
  have split: "split_byte dot (dotted p) = p" if "p \<in> set (positions ?d)" for p
    using that positions_mem [OF pl] plain_segments [OF pl] positions_not_Nil [OF that]
    by (intro split_join) auto
  have "set (FlattenKeys m) = dotted ` set (positions ?d)"
    using flattenKeys_positions [OF plain_nonempty [OF pl]] by (simp add: FlattenKeys_def fullKey_def)
  then have "key \<in> set (FlattenKeys m) \<longleftrightarrow> split_byte dot key \<in> set (positions ?d)"
    using split join_split [of dot key] by force
  then show ?thesis
    using positions_mem [OF pl] GetValue_lookup_path [OF assms] by (auto simp: is_Ok_iff)
qed

section \<open>Deep updates\<close>

lemma wf_map_ConsD: "wf_map ((k, v) # d) \<Longrightarrow> wf_map d \<and> map_of d k = None"
  by (auto simp: wf_map_def map_of_eq_None_iff)

lemma deepUpdateMap_get:
  "wf_map d \<Longrightarrow>
     map_of (deepUpdateMap m d ow) k =
       (case map_of d k of
          None \<Rightarrow> map_of m k
        | Some v \<Rightarrow>
            (case tryToMapStr v of
               Some val \<Rightarrow> Some (deepUpdateValue (map_of m k) val ow)
             | None \<Rightarrow> if ow \<or> map_of m k = None then Some v else map_of m k))"
proof (induction d arbitrary: m)
  case (Cons kv d)
  obtain k' v' where kv: "kv = (k', v')" by (cases kv)
  have "wf_map d" and "map_of d k' = None"
    using Cons.prems by (auto simp: kv dest: wf_map_ConsD)
  with Cons.IH show ?case
    by (cases "tryToMapStr v'") (auto simp: kv split: option.splits)
qed simp

lemma deepUpdateValue_map:
  "tryToMapStr (deepUpdateValue old val ow) =
     Some (case Option.bind old tryToMapStr of
             Some (Some sub) \<Rightarrow> Some (deepUpdateMap sub (entries val) ow)
           | _ \<Rightarrow> val)"
  by (induction old val ow rule: deepUpdateMap_deepUpdateValue.induct(2) [where P = "\<lambda>_ _ _. True"]) auto

lemma wf_M_child: "wf_M m \<Longrightarrow> m_get m k = Some x \<Longrightarrow> tryToMapStr x = Some c \<Longrightarrow> wf_M c"
  unfolding wf_M_def by (cases m) (auto intro: deep_child)

lemma wf_M_top: "wf_M m \<Longrightarrow> wf_map (entries m)"
  unfolding wf_M_def by (rule deep_top)

text \<open>After an overwriting update every leaf of the source is found at its path.\<close>

lemma deepUpdate_source:
  assumes "wf_M d" and "lookup_path p d = Some v" and "tryToMapStr v = None"
  shows "lookup_path p (Some (deepUpdateMap m (entries d) True)) = Some v"
  using assms
proof (induction p d arbitrary: m rule: lookup_path.induct)
  case (2 k d)
  then show ?case by (simp add: deepUpdateMap_get wf_M_top m_get_def)
next
  case (3 k k' ks d)
  then obtain x c where x: "m_get d k = Some x" "tryToMapStr x = Some c" "lookup_path (k' # ks) c = Some v"
    by (auto split: option.splits)
  have IH: "lookup_path (k' # ks) (Some (deepUpdateMap sub (entries c) True)) = Some v" for sub
    using 3 x wf_M_child by blast
  show ?case
    using x IH 3(2) by (auto simp: deepUpdateMap_get wf_M_top m_get_def [of d] deepUpdateValue_map
        split: option.splits)
qed simp

text \<open>An update that does not overwrite keeps every leaf at whose path the source has no map.\<close>

lemma deepUpdate_keeps:
  assumes "wf_M d" and "lookup_path p (Some m) = Some v" and "tryToMapStr v = None"
    and "\<And>x. lookup_path p d = Some x \<Longrightarrow> tryToMapStr x = None"
  shows "lookup_path p (Some (deepUpdateMap m (entries d) False)) = Some v"
  using assms
proof (induction p d arbitrary: m rule: lookup_path.induct)
  case (2 k d)
  then show ?case
    by (auto simp: deepUpdateMap_get wf_M_top m_get_def [of d] split: option.splits)
next
  case (3 k k' ks d)
  from "3.prems"(2) obtain x s where s: "map_of m k = Some x" "tryToMapStr x = Some s"
      "lookup_path (k' # ks) s = Some v"
    by (auto split: option.splits)
  then obtain sub where "s = Some sub" by (cases s) auto
  with s have x: "map_of m k = Some x" "tryToMapStr x = Some (Some sub)"
      "lookup_path (k' # ks) (Some sub) = Some v" by simp_all
  show ?case
  proof (cases "Option.bind (m_get d k) tryToMapStr")
    case None
    then have "map_of (deepUpdateMap m (entries d) False) k = Some x"
      using x(1) "3.prems"(1)
      by (cases "map_of (entries d) k") (auto simp: deepUpdateMap_get wf_M_top m_get_def)
    with x show ?thesis by simp
  next
    case (Some c)
    then obtain y where y: "m_get d k = Some y" "tryToMapStr y = Some c"
      by (cases "m_get d k") auto
    have "lookup_path (k' # ks) (Some (deepUpdateMap sub (entries c) False)) = Some v"
    proof (rule "3.IH" [OF y])
      show "wf_M c" using wf_M_child [OF "3.prems"(1) y] .
      show "tryToMapStr z = None" if "lookup_path (k' # ks) c = Some z" for z
        using that y "3.prems"(4) [of z] by simp
    qed (use x "3.prems"(3) in simp_all)
    with x y "3.prems"(1) show ?thesis
      by (simp add: deepUpdateMap_get wf_M_top m_get_def [of d] deepUpdateValue_map)
  qed
qed simp

section \<open>Clones\<close>

lemma cloneMap_map:
  "wf_map (dst @ src) \<Longrightarrow> cloneMap dst src = dst @ map (\<lambda>(k, v). (k, cloneValue v)) src"
proof (induction src arbitrary: dst)
  case (Cons kv src)
  obtain k v where kv: "kv = (k, v)" by (cases kv)
  have "k \<notin> fst ` set dst" using Cons.prems by (auto simp: kv wf_map_def)
  then have "map_put k (cloneValue v) dst = dst @ [(k, cloneValue v)]"
    by (induction dst) auto
  moreover have "wf_map ((dst @ [(k, cloneValue v)]) @ src)"
    using Cons.prems by (auto simp: kv wf_map_def)
  ultimately show ?case using Cons.IH [of "dst @ [(k, cloneValue v)]"] by (simp add: kv)
qed simp

lemma Clone_map: "wf_map (entries m) \<Longrightarrow> Clone m = Some (map (\<lambda>(k, v). (k, cloneValue v)) (entries m))"
  by (simp add: Clone_def cloneMap_map)

lemma m_get_Clone: "wf_map (entries m) \<Longrightarrow> m_get (Clone m) k = map_option cloneValue (m_get m k)"
  by (simp add: Clone_map m_get_def map_of_map)

lemma tryToMapStr_clone: "tryToMapStr (cloneValue v) = map_option Clone (tryToMapStr v)"
  by (cases v) (auto simp: Clone_def)

lemma Clone_not_nil: "Clone m = Some (entries (Clone m))"
  by (simp add: Clone_def)

lemma Clone_GetValue:
  "wf_M m \<Longrightarrow>
     GetValue (Clone m) key = (case GetValue m key of Ok v \<Rightarrow> Ok (cloneValue v) | r \<Rightarrow> r)"
proof (induction key m rule: key_induct)
  case (step key m)
  note wf = wf_M_top [OF step.prems]
  show ?case
    using step.prems step.IH wf_M_child [OF step.prems]
    by (auto simp: GetValue_unfold [of _ key] m_get_Clone [OF wf] tryToMapStr_clone split: option.splits)
qed

section \<open>Traversal\<close>

lemma find_matchKey_Some:
  assumes "find (matchKey eqFold mode segment) (map fst level) = Some k"
  obtains x where "map_of level k = Some x" and "matchKey eqFold mode segment k"
proof -
  from assms have "k \<in> fst ` set level" and m: "matchKey eqFold mode segment k"
    by (auto simp: find_Some_iff)
  then obtain x where "map_of level k = Some x"
    by (metis map_of_eq_None_iff option.exhaust)
  with m that show ?thesis by blast
qed

lemma matchKey_insensitive: "matchKey eqFold CaseInsensitiveMode s = eqFold s"
  by (rule ext) simp

lemma alterVisitor_Ok:
  assumes "alterVisitor f u level k = (u', level', Ok k')" and "map_of level k = Some x"
  shows "f k = Some k' \<and> k' \<noteq> [] \<and> map_of level' k' = Some x"
  using assms by (auto simp: alterVisitor_def split: option.splits if_splits)

lemma traverse_alter:
  assumes "traverse eqFold late CaseSensitiveMode (alterVisitor f) segs m u = (m', u', Ok ())"
    and "segs \<noteq> []"
  shows "lookup_path (map (the \<circ> f) segs) m' = lookup_path segs m \<and> lookup_path segs m \<noteq> None"
  using assms
proof (induction segs arbitrary: m m' u u')
  case (Cons seg segs)
  let ?level = "entries m"
  from Cons.prems obtain k where fk: "find (matchKey eqFold CaseSensitiveMode seg) (map fst ?level) = Some k"
    by (auto simp: Let_def split: option.splits)
  obtain x where x: "map_of ?level k = Some x" and "matchKey eqFold CaseSensitiveMode seg k"
    by (rule find_matchKey_Some [OF fk])
  then have seg: "k = seg" by simp
  obtain u1 level1 r where vis0: "alterVisitor f u ?level k = (u1, level1, r)"
    by (rule prod_cases3)
  with Cons.prems(1) fk obtain k1 where "r = Ok k1"
    by (cases r) (simp_all add: Let_def)
  with vis0 have vis: "alterVisitor f u ?level k = (u1, level1, Ok k1)" by simp
  note k1 = alterVisitor_Ok [OF vis x]
  show ?case
  proof (cases "segs = []")
    case True
    with Cons.prems fk vis x k1 seg show ?thesis
      by (auto simp: Let_def m_get_def [of m] split: if_splits)
  next
    case False
    with Cons.prems fk vis x obtain c c' u2 where c: "tryToMapStr x = Some c"
      and rec: "traverse eqFold late CaseSensitiveMode (alterVisitor f) segs c u1 = (c', u2, Ok ())"
      and m': "m' = Some (map_put k1 (as_map (is_plain x) c') level1)"
      by (auto simp: Let_def split: option.splits prod.splits if_splits)
    from Cons.IH [OF rec False] c x k1 seg m' False show ?thesis
      by (simp add: lookup_path_Cons m_get_def [of m])
  qed
qed simp

lemma findFoldVisitor_eq:
  "findFoldVisitor (Suc n, mk, v) level k =
     (if n \<noteq> 0 then ((n, mk @ k @ [dot], v), level, Ok k)
      else ((0, mk @ k, case map_of level k of Some x \<Rightarrow> x | None \<Rightarrow> VNil), level, Ok k))"
  by (simp add: findFoldVisitor_def)

lemma traverse_findFold:
  assumes "traverse eqFold late CaseInsensitiveMode findFoldVisitor segs m (length segs, mk, v0)
             = (m', (n, mk', v), Ok ())"
    and "segs \<noteq> []"
  shows "\<exists>ks. mk' = mk @ dotted ks \<and> list_all2 eqFold segs ks \<and> lookup_path ks m = Some v"
  using assms
proof (induction segs arbitrary: m m' mk v0)
  case (Cons seg segs)
  let ?level = "entries m"
  from Cons.prems obtain k where fk: "find (matchKey eqFold CaseInsensitiveMode seg) (map fst ?level) = Some k"
    by (auto simp: Let_def split: option.splits)
  obtain x where x: "map_of ?level k = Some x" and "matchKey eqFold CaseInsensitiveMode seg k"
    by (rule find_matchKey_Some [OF fk])
  then have seg: "eqFold seg k" by simp
  show ?case
  proof (cases "segs = []")
    case True
    with Cons.prems fk x seg show ?thesis
      by (intro exI [of _ "[k]"])
        (auto simp: Let_def m_get_def [of m] findFoldVisitor_eq split: if_splits)
  next
    case False
    with Cons.prems fk x obtain c c' where c: "tryToMapStr x = Some c"
      and rec: "traverse eqFold late CaseInsensitiveMode findFoldVisitor segs c
            (length segs, mk @ k @ [dot], v0) = (c', (n, mk', v), Ok ())"
      by (auto simp: Let_def findFoldVisitor_eq split: option.splits prod.splits if_splits)
    from Cons.IH [OF rec False] obtain ks
      where ks: "mk' = (mk @ k @ [dot]) @ dotted ks" "list_all2 eqFold segs ks" "lookup_path ks c = Some v"
      by blast
    with False have "ks \<noteq> []" by (cases ks) auto
    with ks seg c x show ?thesis
      by (intro exI [of _ "k # ks"]) (simp add: lookup_path_Cons join_str_Cons m_get_def [of m])
  qed
qed simp

section \<open>The map as a store with independent keys\<close>

definition get_opt :: "M \<Rightarrow> string \<Rightarrow> gval option" where
  "get_opt m key = (case GetValue m key of Ok v \<Rightarrow> Some v | _ \<Rightarrow> None)"

definition put_opt :: "M \<Rightarrow> string \<Rightarrow> gval \<Rightarrow> M option" where
  "put_opt m key v = (case Put m key v of (m', Ok _) \<Rightarrow> Some m' | _ \<Rightarrow> None)"

text \<open>Neither key is a segment-wise prefix of the other.\<close>

definition indep_keys :: "string \<Rightarrow> string \<Rightarrow> bool" where
  "indep_keys k k' \<longleftrightarrow>
     \<not> prefix (split_byte dot k) (split_byte dot k') \<and> \<not> prefix (split_byte dot k') (split_byte dot k)"

definition storable_plain :: "string \<Rightarrow> gval \<Rightarrow> bool" where
  "storable_plain key v \<longleftrightarrow>
     [] \<notin> set (split_byte dot key) \<and> (case tryToMapStr v of Some c \<Rightarrow> plain_map c | None \<Rightarrow> True)"

lemma put_opt_Some: "put_opt m key v = Some m' \<longleftrightarrow> fst (Put m key v) = m' \<and> is_Ok (snd (Put m key v))"
  by (cases "Put m key v") (auto simp: put_opt_def is_Ok_iff split: outcome.splits)

lemma get_opt_Some: "get_opt m key = Some v \<longleftrightarrow> GetValue m key = Ok v"
  by (auto simp: get_opt_def split: outcome.splits)

lemma get_opt_lookup: "plain_map m \<Longrightarrow> get_opt m key = lookup_path (split_byte dot key) m"
  by (metis GetValue_lookup_path get_opt_Some option.exhaust option.distinct(1))

lemma put_opt_plain: "plain_map m \<Longrightarrow> storable_plain key v \<Longrightarrow> put_opt m key v = Some m' \<Longrightarrow> plain_map m'"
  using Put_plain [of m key v] by (auto simp: put_opt_Some storable_plain_def split: option.splits)

interpretation mapstr_store: keyed_store get_opt put_opt indep_keys storable_plain plain_map
proof
  show "plain_map m'" if "plain_map m" "storable_plain k v" "put_opt m k v = Some m'" for m k v m'
    using that by (rule put_opt_plain)
  show "get_opt m' k = Some v" if "plain_map m" "storable_plain k v" "put_opt m k v = Some m'" for m k v m'
    using that(3) Put_GetValue [of m k v] by (auto simp: put_opt_Some get_opt_Some)
  show "get_opt m' k' = get_opt m k'"
    if "plain_map m" "storable_plain k v" "put_opt m k v = Some m'" "indep_keys k k'" for m k v m' k'
    using that Put_lookup_frame [of m k v "split_byte dot k'"] put_opt_plain [OF that(1-3)]
    by (auto simp: get_opt_lookup put_opt_Some indep_keys_def)
qed

section \<open>Properties\<close>

text \<open>C1. A successful \<open>Put\<close> under a dotted key stores the value there, returns what \<open>GetValue\<close> found
  there before (nil if nothing), keeps the map well formed, and changes no key that is neither
  above nor below the stored one.\<close>

theorem Put_spec:
  assumes "plain_map m" and "storable_plain key v" and "Put m key v = (m', Ok old)"
  shows "plain_map m' \<and> GetValue m' key = Ok v \<and>
    old = (case GetValue m key of Ok x \<Rightarrow> x | _ \<Rightarrow> VNil) \<and>
    (\<forall>key' x. indep_keys key key' \<longrightarrow> (GetValue m' key' = Ok x \<longleftrightarrow> GetValue m key' = Ok x))"
proof -
  have p: "put_opt m key v = Some m'" using assms(3) by (simp add: put_opt_def)
  note inv = mapstr_store.inv_put [OF assms(1,2) p]
  show ?thesis
    using inv mapstr_store.get_put [OF assms(1,2) p] mapstr_store.get_put_indep [OF assms(1,2) p]
      Put_old [of m key v old] assms(3)
    by (simp add: get_opt_Some) (metis get_opt_Some)
qed

theorem Put_spec_witness:
  "GetValue (fst (Put (Some [(''a'', VM (Some [(''b'', VInt 1)]))]) ''a.c'' (VInt 2))) ''a.c'' = Ok (VInt 2)"
proof -
  have 1: "plain_map (Some [(''a'', VM (Some [(''b'', VInt 1)]))])" by code_simp
  have 2: "storable_plain ''a.c'' (VInt 2)" by code_simp
  have 3: "Put (Some [(''a'', VM (Some [(''b'', VInt 1)]))]) ''a.c'' (VInt 2) =
      (Some [(''a'', VM (Some [(''b'', VInt 1), (''c'', VInt 2)]))], Ok VNil)" by code_simp
  show ?thesis using Put_spec [OF 1 2 3] 3 by simp
qed

text \<open>C2. A \<open>Put\<close> or \<open>Delete\<close> that returns an error has changed nothing; the only error of \<open>Put\<close> is a
  value on the path that is not a map, which is also the error a read of the key reports.\<close>

theorem failed_write_is_atomic:
  "(\<forall>m' e. Put m key v = (m', Err e) \<longrightarrow>
      m' = m \<and> e = ErrExpectedMap \<and> GetValue m key = Err ErrExpectedMap) \<and>
   (\<forall>m' e. Delete m key = (m', Err e) \<longrightarrow> m' = m)"
  using Put_fail_unchanged [of m key v] Put_error_iff [of m key v] Delete_fail_unchanged [of m key]
  by auto

theorem failed_write_is_atomic_witness:
  "Put (Some [(''a'', VInt 1)]) ''a.b'' (VInt 2) = (Some [(''a'', VInt 1)], Err ErrExpectedMap) \<and>
   GetValue (Some [(''a'', VInt 1)]) ''a.b'' = Err ErrExpectedMap"
proof -
  have 1: "Put (Some [(''a'', VInt 1)]) ''a.b'' (VInt 2) =
      (Some [(''a'', VInt 1)], Err ErrExpectedMap)" by code_simp
  show ?thesis
    using 1 failed_write_is_atomic [of "Some [(''a'', VInt 1)]" "''a.b''" "VInt 2"] by simp
qed

text \<open>After a successful \<open>Delete\<close> the key is not found any more, the map is still well formed, and
  the keys that are neither above nor below it read as before.\<close>

theorem Delete_spec:
  assumes "plain_map m" and "Delete m key = (m', Ok ())"
  shows "plain_map m' \<and> GetValue m' key = Err ErrKeyNotFound \<and>
    (\<forall>key' x. indep_keys key key' \<longrightarrow> (GetValue m' key' = Ok x \<longleftrightarrow> GetValue m key' = Ok x))"
proof -
  have pm: "plain_map m'" using Delete_plain [OF assms(1), of key] assms(2) by simp
  then show ?thesis
    using Delete_GetValue [OF assms(1), of key] Delete_lookup_frame [OF assms(1), of key] assms(2)
    by (auto simp: indep_keys_def GetValue_lookup_path [OF pm] GetValue_lookup_path [OF assms(1)])
qed

theorem Delete_spec_witness:
  "GetValue (fst (Delete (Some [(''a'', VM (Some [(''b'', VInt 1), (''c'', VInt 2)]))]) ''a.b'')) ''a.b''
     = Err ErrKeyNotFound"
proof -
  have 1: "plain_map (Some [(''a'', VM (Some [(''b'', VInt 1), (''c'', VInt 2)]))])" by code_simp
  have 2: "Delete (Some [(''a'', VM (Some [(''b'', VInt 1), (''c'', VInt 2)]))]) ''a.b'' =
      (Some [(''a'', VM (Some [(''c'', VInt 2)]))], Ok ())" by code_simp
  show ?thesis using Delete_spec [OF 1 2] 2 by simp
qed

text \<open>\<open>Flatten\<close> and \<open>GetValue\<close> agree: the entries of the flat map are exactly the dotted keys that
  lead to a value that is not a map, with that value; \<open>FlattenKeys\<close> lists exactly the dotted keys
  \<open>GetValue\<close> finds, inner maps included.\<close>

theorem Flatten_spec:
  assumes "plain_map m"
  shows "(map_of (entries (Flatten m)) key = Some v \<longleftrightarrow> GetValue m key = Ok v \<and> tryToMapStr v = None) \<and>
    (key \<in> set (FlattenKeys m) \<longleftrightarrow> fst (HasKey m key))"
  using Flatten_lookup [OF assms] FlattenKeys_lookup [OF assms] by (simp add: HasKey_GetValue)

theorem Flatten_spec_witness:
  "map_of (entries (Flatten (Some [(''a'', VMap (Some [(''b'', VInt 1)]))]))) ''a.b'' = Some (VInt 1) \<and>
   ''a'' \<in> set (FlattenKeys (Some [(''a'', VMap (Some [(''b'', VInt 1)]))]))"
proof -
  have 1: "plain_map (Some [(''a'', VMap (Some [(''b'', VInt 1)]))])" by code_simp
  have 2: "GetValue (Some [(''a'', VMap (Some [(''b'', VInt 1)]))]) ''a.b'' = Ok (VInt 1)" by code_simp
  have 3: "fst (HasKey (Some [(''a'', VMap (Some [(''b'', VInt 1)]))]) ''a'')" by code_simp
  show ?thesis
    using Flatten_spec [OF 1, of "''a.b''" "VInt 1"] Flatten_spec [OF 1, of "''a''"] 2 3 by simp
qed

text \<open>\<open>DeepUpdate\<close> puts every leaf of the source at its path in the target, whatever was there, and
  keeps what the target has under keys the source does not have.\<close>

theorem DeepUpdate_spec:
  assumes "wf_M d" and "DeepUpdate (Some m) d = Ok m'"
  shows "(\<forall>p v. lookup_path p d = Some v \<and> tryToMapStr v = None \<longrightarrow> lookup_path p m' = Some v) \<and>
    (\<forall>k. m_get d k = None \<longrightarrow> m_get m' k = map_of m k)"
  using assms deepUpdate_source [OF assms(1)]
  by (auto simp: DeepUpdate_def deepUpdateMap_get wf_M_top m_get_def)

theorem DeepUpdate_spec_witness:
  "lookup_path [''a'', ''b''] (Some [(''a'', VM (Some [(''c'', VInt 3), (''b'', VInt 1)])), (''x'', VInt 9)])
     = Some (VInt 1)"
proof -
  have 1: "wf_M (Some [(''a'', VM (Some [(''b'', VInt 1)]))])" by code_simp
  have 2: "DeepUpdate (Some [(''a'', VMap (Some [(''c'', VInt 3)])), (''x'', VInt 9)])
      (Some [(''a'', VM (Some [(''b'', VInt 1)]))]) =
      Ok (Some [(''a'', VM (Some [(''c'', VInt 3), (''b'', VInt 1)])), (''x'', VInt 9)])" by code_simp
  have 3: "lookup_path [''a'', ''b''] (Some [(''a'', VM (Some [(''b'', VInt 1)]))]) = Some (VInt 1)"
    by code_simp
  show ?thesis using DeepUpdate_spec [OF 1 2] 3 by (metis tryToMapStr.simps(5))
qed

text \<open>\<open>DeepUpdateNoOverwrite\<close> keeps every leaf of the target at whose path the source has no map,
  but a leaf at a key where the source has a map is replaced by that map.\<close>

theorem DeepUpdateNoOverwrite_spec:
  assumes "wf_M d" and "DeepUpdateNoOverwrite (Some m) d = Ok m'"
  shows "(\<forall>p v. lookup_path p (Some m) = Some v \<and> tryToMapStr v = None \<and>
       (\<forall>x. lookup_path p d = Some x \<longrightarrow> tryToMapStr x = None) \<longrightarrow> lookup_path p m' = Some v) \<and>
    (\<forall>k v x c. map_of m k = Some v \<and> tryToMapStr v = None \<and>
       m_get d k = Some x \<and> tryToMapStr x = Some c \<longrightarrow> m_get m' k = Some (VM c))"
proof -
  have "deepUpdateValue (Some v) c False = VM c" if "tryToMapStr v = None" for v c
    using that by (cases v) auto
  then show ?thesis
    using assms deepUpdate_keeps [OF assms(1)]
    by (auto simp: DeepUpdateNoOverwrite_def deepUpdateMap_get wf_M_top m_get_def)
qed

theorem DeepUpdateNoOverwrite_spec_witness:
  "m_get (Some [(''a'', VM (Some [(''b'', VInt 1)])), (''x'', VInt 9)]) ''a'' = Some (VM (Some [(''b'', VInt 1)]))"
proof -
  have 1: "wf_M (Some [(''a'', VM (Some [(''b'', VInt 1)]))])" by code_simp
  have 2: "DeepUpdateNoOverwrite (Some [(''a'', VInt 3), (''x'', VInt 9)])
      (Some [(''a'', VM (Some [(''b'', VInt 1)]))]) =
      Ok (Some [(''a'', VM (Some [(''b'', VInt 1)])), (''x'', VInt 9)])" by code_simp
  have 3: "map_of [(''a'', VInt 3), (''x'', VInt 9)] ''a'' = Some (VInt 3)" by simp
  have 4: "m_get (Some [(''a'', VM (Some [(''b'', VInt 1)]))]) ''a'' = Some (VM (Some [(''b'', VInt 1)]))" by simp
  show ?thesis
    using DeepUpdateNoOverwrite_spec [OF 1 2] 3 4 by (metis tryToMapStr.simps(1,5))
qed

text \<open>A clone reads like the original: under every dotted key it has the clone of the value found
  there and the same errors; it has the same keys and is never nil.\<close>

theorem Clone_spec:
  assumes "wf_M m"
  shows "GetValue (Clone m) key = (case GetValue m key of Ok v \<Rightarrow> Ok (cloneValue v) | r \<Rightarrow> r) \<and>
    m_get (Clone m) k = map_option cloneValue (m_get m k) \<and>
    map fst (entries (Clone m)) = map fst (entries m) \<and> Clone m \<noteq> None"
  using Clone_GetValue [OF assms] m_get_Clone [OF wf_M_top [OF assms]] Clone_map [OF wf_M_top [OF assms]]
  by (simp add: case_prod_beta comp_def)

theorem Clone_spec_witness:
  "GetValue (Clone (Some [(''a'', VMap (Some [(''b'', VInt 1)]))])) ''a'' = Ok (VM (Some [(''b'', VInt 1)]))"
proof -
  have 1: "wf_M (Some [(''a'', VMap (Some [(''b'', VInt 1)]))])" by code_simp
  have 2: "GetValue (Some [(''a'', VMap (Some [(''b'', VInt 1)]))]) ''a'' =
      Ok (VMap (Some [(''b'', VInt 1)]))" by code_simp
  show ?thesis using Clone_spec [OF 1, of "''a''"] 2 by simp
qed

text \<open>When a case-sensitive \<open>AlterPath\<close> succeeds, the value that was at the path is at the path of
  the replaced keys.\<close>

theorem AlterPath_spec:
  assumes "AlterPath eqFold late m path CaseSensitiveMode alterFunc = (m', Ok ())"
  shows "lookup_path (map (the \<circ> alterFunc) (split_byte dot path)) m' =
      lookup_path (split_byte dot path) m \<and> lookup_path (split_byte dot path) m \<noteq> None"
proof -
  obtain u where "traverse eqFold late CaseSensitiveMode (alterVisitor alterFunc) (split_byte dot path) m ()
      = (m', u, Ok ())"
    using assms by (auto simp: AlterPath_def Traverse_def split: prod.splits)
  from traverse_alter [OF this] show ?thesis by simp
qed

theorem AlterPath_spec_witness:
  "lookup_path [''A'', ''B''] (Some [(''A'', VM (Some [(''B'', VInt 1)]))]) = Some (VInt 1)"
proof -
  let ?f = "\<lambda>s. if s = ''a'' then Some ''A'' else if s = ''b'' then Some ''B'' else None"
  have 1: "AlterPath (=) False (Some [(''a'', VM (Some [(''b'', VInt 1)]))]) ''a.b'' CaseSensitiveMode ?f =
      (Some [(''A'', VM (Some [(''B'', VInt 1)]))], Ok ())" by code_simp
  have 2: "lookup_path (split_byte dot ''a.b'') (Some [(''a'', VM (Some [(''b'', VInt 1)]))]) = Some (VInt 1)"
    by code_simp
  have 3: "map (the \<circ> ?f) (split_byte dot ''a.b'') = [''A'', ''B'']" by code_simp
  show ?thesis using AlterPath_spec [OF 1] by (simp only: 2 3)
qed

text \<open>A case-insensitive \<open>AlterPath\<close> that replaces the only matching key by one that folds to the
  same segment (the usual lower-casing) reports a key collision or succeeds depending on whether
  the range over the map produces the entry the call itself has just created, which Go leaves
  open. The map is changed in both cases.\<close>

theorem AlterPath_fold_collision:
  assumes "map_of d k = Some x" and "\<forall>k2 \<in> fst ` set d. eqFold segment k2 \<longleftrightarrow> k2 = k"
    and "dot \<notin> set segment" and "wf_map d"
    and "alterFunc k = Some k'" and "k' \<noteq> k" and "k' \<noteq> []" and "map_of d k' = None"
    and "eqFold segment k'"
  shows "AlterPath eqFold True (Some d) segment CaseInsensitiveMode alterFunc =
      (Some (map_put k' x (map_del k d)), Err ErrKeyCollision) \<and>
    AlterPath eqFold False (Some d) segment CaseInsensitiveMode alterFunc =
      (Some (map_put k' x (map_del k d)), Ok ())"
proof -
  have k: "k \<in> set (map fst d)" using assms(1) by (force dest: map_of_SomeD)
  have fk: "find (eqFold segment) (map fst d) = Some k"
  proof (cases "find (eqFold segment) (map fst d)")
    case None
    then show ?thesis using k assms(2) by (auto simp: find_None_iff)
  next
    case (Some k2)
    then have "k2 \<in> set (map fst d)" "eqFold segment k2" by (auto simp: find_Some_iff)
    then show ?thesis using Some assms(2) by auto
  qed
  have vis: "alterVisitor alterFunc () d k = ((), map_put k' x (map_del k d), Ok k')"
    using assms by (simp add: alterVisitor_def)
  have seg: "split_byte dot segment = [segment]" using assms(3) by (rule split_byte_no_sep)
  let ?rest = "filter (\<lambda>y. y \<in> fst ` set (map_put k' x (map_del k d))) (tl (dropWhile (\<lambda>y. y \<noteq> k) (map fst d)))"
  have "distinct (map fst d)" using assms(4) by (simp add: wf_map_def)
  then have "k \<notin> set (tl (dropWhile (\<lambda>y. y \<noteq> k) (map fst d)))"
    using k by (induction d) (auto split: if_splits)
  moreover have "set (tl (dropWhile (\<lambda>y. y \<noteq> k) (map fst d))) \<subseteq> set (map fst d)"
    by (metis list.set_sel(2) set_dropWhileD subsetI tl_Nil)
  ultimately have none: "\<not> eqFold segment y" if "y \<in> set ?rest" for y
  proof -
    have "y \<in> set (tl (dropWhile (\<lambda>y. y \<noteq> k) (map fst d)))" using that by simp
    then have "y \<noteq> k" "y \<in> fst ` set d"
      using \<open>k \<notin> _\<close> \<open>_ \<subseteq> set (map fst d)\<close> by (blast, auto)
    then show ?thesis using assms(2) by blast
  qed
  have "map_of (map_put k' x (map_del k d)) k' = Some x" by simp
  then have k'in: "k' \<in> fst ` set (map_put k' x (map_del k d))"
    by (metis map_of_SomeD fst_conv image_eqI)
  have k'out: "k' \<notin> fst ` set d" using assms(8) by (simp add: map_of_eq_None_iff)
  have T: "\<exists>y \<in> set (remaining True d (map_put k' x (map_del k d)) k). eqFold segment y"
    using k'in k'out assms(9) by (auto simp: remaining_def)
  have F: "\<not> (\<exists>y \<in> set (remaining False d (map_put k' x (map_del k d)) k). eqFold segment y)"
    using none by (simp add: remaining_def)
  show ?thesis
    using T F by (simp add: AlterPath_def Traverse_def seg fk vis assms(1) Let_def matchKey_insensitive)
qed

theorem AlterPath_fold_collision_witness:
  "snd (AlterPath (\<lambda>a b. map lower_byte a = map lower_byte b) True (Some [(''KEY'', VInt 1)]) ''key''
      CaseInsensitiveMode (\<lambda>k. Some (map lower_byte k))) = Err ErrKeyCollision"
proof -
  let ?eq = "\<lambda>a b. map lower_byte a = map lower_byte b"
  let ?f = "\<lambda>k. Some (map lower_byte k)"
  have h: "map_of [(''KEY'', VInt 1)] ''KEY'' = Some (VInt 1)"
    "\<forall>k2 \<in> fst ` set [(''KEY'', VInt 1)]. ?eq ''key'' k2 \<longleftrightarrow> k2 = ''KEY''"
    "dot \<notin> set ''key''" "wf_map [(''KEY'', VInt 1)]" "?f ''KEY'' = Some ''key''" "''key'' \<noteq> ''KEY''"
    "''key'' \<noteq> []" "map_of [(''KEY'', VInt 1)] ''key'' = None" "?eq ''key'' ''key''"
    by code_simp+
  show ?thesis
    using AlterPath_fold_collision [where eqFold = ?eq and alterFunc = ?f and segment = "''key''", OF h]
    by simp
qed

text \<open>What \<open>FindFold\<close> returns is in the map: the matched key is a path of keys, one per segment of
  the searched path and equal to it up to letter case, and the returned value is the one stored
  there.\<close>

theorem FindFold_sound:
  assumes "FindFold eqFold late m path = Ok (matchedKey, v)"
  shows "\<exists>ks. matchedKey = dotted ks \<and> list_all2 eqFold (split_byte dot path) ks \<and>
    lookup_path ks m = Some v"
proof -
  obtain m' n where "traverse eqFold late CaseInsensitiveMode findFoldVisitor (split_byte dot path) m
      (length (split_byte dot path), [], VNil) = (m', (n, matchedKey, v), Ok ())"
    using assms by (auto simp: FindFold_def Traverse_def length_split_byte split: prod.splits outcome.splits)
  from traverse_findFold [OF this] show ?thesis by simp
qed

theorem FindFold_sound_witness:
  "\<exists>ks. ''A.B'' = dotted ks \<and>
     list_all2 (\<lambda>a b. map lower_byte a = map lower_byte b) (split_byte dot ''a.b'') ks \<and>
     lookup_path ks (Some [(''A'', VM (Some [(''B'', VInt 7)]))]) = Some (VInt 7)"
proof -
  have "FindFold (\<lambda>a b. map lower_byte a = map lower_byte b) False
      (Some [(''A'', VM (Some [(''B'', VInt 7)]))]) ''a.b'' = Ok (''A.B'', VInt 7)" by code_simp
  then show ?thesis by (rule FindFold_sound)
qed

text \<open>Building an event field by field: after a sequence of successful stores under pairwise
  independent keys every stored value is found under its key, and every key independent of all of
  them has kept its value.\<close>

theorem Put_batch:
  assumes "plain_map m" and "\<And>k v. (k, v) \<in> set kvs \<Longrightarrow> storable_plain k v"
    and "put_seq put_opt m kvs = Some m'" and "pairwise_indep indep_keys (map fst kvs)"
  shows "plain_map m' \<and> (\<forall>(k, v) \<in> set kvs. GetValue m' k = Ok v) \<and>
    (\<forall>k'. (\<forall>k \<in> fst ` set kvs. indep_keys k k') \<longrightarrow> get_opt m' k' = get_opt m k')"
  using mapstr_store.put_seq_inv [OF assms(1,2,3)] mapstr_store.put_seq_get [OF assms(1,2,3,4)]
    mapstr_store.put_seq_other [OF assms(1,2,3)]
  by (auto simp: get_opt_Some)

theorem Put_batch_witness:
  "GetValue (Some [(''a'', VM (Some [(''b'', VInt 1), (''c'', VInt 2)]))]) ''a.b'' = Ok (VInt 1)"
proof -
  let ?kvs = "[(''a.b'', VInt 1), (''a.c'', VInt 2)]"
  have 1: "plain_map (Some [])" by code_simp
  have 2: "storable_plain k v" if "(k, v) \<in> set ?kvs" for k v
  proof -
    have "\<forall>(k, v) \<in> set ?kvs. storable_plain k v" by code_simp
    then show ?thesis using that by blast
  qed
  have 3: "put_seq put_opt (Some []) ?kvs = Some (Some [(''a'', VM (Some [(''b'', VInt 1), (''c'', VInt 2)]))])"
    by code_simp
  have 4: "pairwise_indep indep_keys (map fst ?kvs)" by code_simp
  show ?thesis using Put_batch [OF 1 2 3 4] by simp
qed

end
