(* ===== verification/Safemapstr.thy ===== *)
theory Safemapstr
  imports Mapstr_Laws
begin

text \<open>
  Package \<open>safemapstr\<close> (src/safemapstr/safemapstr.go): storing dotted keys so that a key and a
  longer key below it do not overwrite each other. A value in the way of a longer key moves to
  the entry \<open>value\<close> of a new map at its place.
\<close>

section \<open>Operations\<close>

definition alternativeKey :: string where "alternativeKey = ''value''"

text \<open>
  The walk of \<open>safemapstr.mapFind\<close>: the position of the map to write, the map, and the key to
  write; the frames hold the maps already changed on the way. A write to a nil map panics.
\<close>

function safeFind :: "M \<Rightarrow> string \<Rightarrow> string \<Rightarrow> frame list \<Rightarrow> (unit, frame list \<times> M \<times> string) outcome" where
  "safeFind data key alt fs =
     (case m_get data key of
        Some oldValue \<Rightarrow>
          (case tryToMapStr oldValue of
             Some oldMap \<Rightarrow> Ok ((entries data, key, is_plain oldValue) # fs, oldMap, alt)
           | None \<Rightarrow> Ok (fs, data, key))
      | None \<Rightarrow>
          (case cut_byte dot key of
             None \<Rightarrow> Ok (fs, data, key)
           | Some (k, rest) \<Rightarrow>
               (case m_get data k of
                  None \<Rightarrow>
                    (case data of
                       None \<Rightarrow> Panic
                     | Some dd \<Rightarrow>
                         safeFind (Some []) rest alt ((map_put k (VM (Some [])) dd, k, False) # fs))
                | Some d \<Rightarrow>
                    (case tryToMapStr d of
                       Some v \<Rightarrow> safeFind v rest alt ((entries data, k, is_plain d) # fs)
                     | None \<Rightarrow>
                         (let v = [(alt, d)] in
                          safeFind (Some v) rest alt
                            ((map_put k (VM (Some v)) (entries data), k, False) # fs))))))"
  by pat_completeness auto
termination
  by (relation "measure (\<lambda>(_, key, _). length key)") (auto dest: cut_byte_length)

declare safeFind.simps [simp del]

definition storeSafe :: "gval \<Rightarrow> (unit, frame list \<times> M \<times> string) outcome \<Rightarrow> (unit, M) outcome" where
  "storeSafe v r =
     (case r of
        Ok (fs, Some d, k) \<Rightarrow> Ok (plug fs (Some (map_put k v d)))
      | _ \<Rightarrow> Panic)"

definition safePut :: "M \<Rightarrow> string \<Rightarrow> gval \<Rightarrow> (unit, M) outcome" where
  "safePut data key v = storeSafe v (safeFind data key alternativeKey [])"

section \<open>The recursive form\<close>

fun map_pos :: "(frame list \<Rightarrow> frame list) \<Rightarrow> (unit, frame list \<times> M \<times> string) outcome \<Rightarrow>
    (unit, frame list \<times> M \<times> string) outcome" where
  "map_pos f (Ok (fs, m, k)) = Ok (f fs, m, k)"
| "map_pos f (Err e) = Err e"
| "map_pos f Panic = Panic"

lemma map_pos_id [simp]: "map_pos (\<lambda>fs. fs) r = r"
  by (cases r) auto

lemma map_pos_comp [simp]: "map_pos f (map_pos g r) = map_pos (\<lambda>fs. f (g fs)) r"
  by (cases r) auto

lemma safeFind_frames:
  "safeFind data key alt fs = map_pos (\<lambda>gs. gs @ fs) (safeFind data key alt [])"
proof (induction key arbitrary: data fs rule: length_induct)
  case (1 key)
  have IH: "safeFind d k' alt gs = map_pos (\<lambda>hs. hs @ gs) (safeFind d k' alt [])"
    if "cut_byte dot key = Some (k, k')" and "gs \<noteq> []" for k k' d gs
    using 1 cut_byte_length [OF that(1)] by blast
  show ?case
    by (auto simp: safeFind.simps [of data key alt fs] safeFind.simps [of data key alt "[]"] IH Let_def
        split: option.splits)
qed

lemma storeSafe_frames:
  "storeSafe v (map_pos (\<lambda>gs. gs @ fs) r) = bind_outcome (storeSafe v r) (\<lambda>m. Ok (plug fs m))"
  by (cases r) (auto simp: storeSafe_def plug_append split: option.splits)

lemma safePut_frames:
  "storeSafe v (safeFind d k alternativeKey fs) = bind_outcome (safePut d k v) (\<lambda>m. Ok (plug fs m))"
  by (subst safeFind_frames) (simp only: storeSafe_frames safePut_def)

lemma safePut_nil [simp]: "safePut None key v = Panic"
  by (simp add: safePut_def safeFind.simps [of None] storeSafe_def split: option.splits)

text \<open>The store in each of the five ways a walk can meet a map.\<close>

lemma safePut_walk:
  "map_of d key = Some x \<Longrightarrow> tryToMapStr x = None \<Longrightarrow> safePut (Some d) key v = Ok (Some (map_put key v d))"
  "map_of d key = Some x \<Longrightarrow> tryToMapStr x = Some None \<Longrightarrow> safePut (Some d) key v = Panic"
  "map_of d key = Some x \<Longrightarrow> tryToMapStr x = Some (Some e) \<Longrightarrow>
     safePut (Some d) key v =
       Ok (Some (map_put key (as_map (is_plain x) (Some (map_put alternativeKey v e))) d))"
  "map_of d key = None \<Longrightarrow> cut_byte dot key = None \<Longrightarrow> safePut (Some d) key v = Ok (Some (map_put key v d))"
  "map_of d key = None \<Longrightarrow> cut_byte dot key = Some (k, rest) \<Longrightarrow> map_of d k = None \<Longrightarrow>
     safePut (Some d) key v =
       bind_outcome (safePut (Some []) rest v) (\<lambda>sub. Ok (Some (map_put k (VM sub) d)))"
  "map_of d key = None \<Longrightarrow> cut_byte dot key = Some (k, rest) \<Longrightarrow> map_of d k = Some x \<Longrightarrow>
     tryToMapStr x = None \<Longrightarrow>
     safePut (Some d) key v =
       bind_outcome (safePut (Some [(alternativeKey, x)]) rest v)
         (\<lambda>sub. Ok (Some (map_put k (VM sub) d)))"
  "map_of d key = None \<Longrightarrow> cut_byte dot key = Some (k, rest) \<Longrightarrow> map_of d k = Some x \<Longrightarrow>
     tryToMapStr x = Some c \<Longrightarrow>
     safePut (Some d) key v =
       bind_outcome (safePut c rest v) (\<lambda>sub. Ok (Some (map_put k (as_map (is_plain x) sub) d)))"
  unfolding safePut_def [of "Some d"]
  by (simp_all add: safeFind.simps [of "Some d" key] safePut_frames Let_def as_map_def [of False])
    (simp_all add: storeSafe_def)

section \<open>What a store keeps\<close>

lemma no_nil_child: "no_nil (Some d) \<Longrightarrow> map_of d k = Some x \<Longrightarrow> tryToMapStr x = Some c \<Longrightarrow> no_nil c \<and> c \<noteq> None"
  unfolding no_nil_def by (drule (2) deep_child) (auto dest: deep_top)

lemma no_nil_single: "tryToMapStr x = None \<Longrightarrow> no_nil (Some [(k, x)])"
  by (simp add: no_nil_def deep.simps)

lemma no_nil_empty [simp]: "no_nil (Some [])"
  by (simp add: no_nil_def deep.simps)

lemma safePut_total:
  "no_nil m \<Longrightarrow> m \<noteq> None \<Longrightarrow> \<exists>m'. safePut m key v = Ok (Some m')"
proof (induction key m rule: key_induct)
  case (step key m)
  then obtain d where m: "m = Some d" by auto
  show ?case
  proof (cases d key rule: walk_cases)
    case (hit x)
    with step.prems show ?thesis
      by (cases "tryToMapStr x") (auto simp: m safePut_walk dest: no_nil_child)
  next
    case leaf
    then show ?thesis by (simp add: m safePut_walk)
  next
    case (gap k rest)
    with step.IH [OF gap(2), of "Some []"] show ?thesis by (auto simp: m safePut_walk)
  next
    case (blocked k rest x)
    with step.IH [OF blocked(2), of "Some [(alternativeKey, x)]"] show ?thesis
      by (auto simp: m safePut_walk no_nil_single)
  next
    case (down k rest x c)
    with step.IH [OF down(2), of c] step.prems show ?thesis
      by (auto simp: m safePut_walk dest: no_nil_child)
  qed
qed

lemma plain_single: "tryToMapStr x = None \<Longrightarrow> plain_map (Some [(alternativeKey, x)])"
  by (simp add: plain_map_def deep.simps wf_map_def alternativeKey_def)

lemma plain_hit_split: "plain_map (Some d) \<Longrightarrow> map_of d key = Some x \<Longrightarrow> split_byte dot key = [key]"
  by (auto intro!: split_byte_no_sep dest: plain_keys)

text \<open>
  No leaf is lost: unless the stored key is the leaf's own path (or its path with the alternative
  key appended), or the leaf is below the alternative key of the stored one, the leaf is still
  there, at its path or below it under the alternative key.
\<close>

lemma safePut_keeps:
  assumes "plain_map m" and "safePut m key v = Ok m'"
    and "lookup_path q m = Some x" and "tryToMapStr x = None"
    and "\<And>n. split_byte dot key \<noteq> q @ replicate n alternativeKey"
    and "\<not> prefix (split_byte dot key @ [alternativeKey]) q"
  shows "\<exists>n. lookup_path (q @ replicate n alternativeKey) m' = Some x"
  using assms
proof (induction key m arbitrary: q m' rule: key_induct)
  case (step key m)
  obtain d where m: "m = Some d" using step.prems(2) by (cases m) auto
  obtain h qs where q: "q = h # qs" using step.prems(3) by (cases q) auto
  have neq: "split_byte dot key \<noteq> q" using step.prems(5) [of 0] by simp
  have keep: "\<exists>n. lookup_path (q @ replicate n alternativeKey) m' = Some x"
    if "lookup_path q m' = Some x"
    using that by (intro exI [of _ 0]) simp
  show ?case
  proof (cases d key rule: walk_cases)
    case (hit y)
    note sp = plain_hit_split [OF step.prems(1) [unfolded m] hit]
    show ?thesis
    proof (rule keep, cases "tryToMapStr y")
      case None
      with hit sp neq step.prems show "lookup_path q m' = Some x"
        by (cases "qs = []") (auto simp: m q safePut_walk lookup_path_Cons split: if_splits option.splits)
    next
      case (Some c)
      with hit step.prems obtain e where e: "c = Some e" by (cases c) (auto simp: m safePut_walk)
      show "lookup_path q m' = Some x"
      proof (cases "h = key")
        case True
        with Some hit step.prems sp neq have "qs \<noteq> []" by (auto simp: m q)
        moreover from True step.prems(6) sp have "hd qs \<noteq> alternativeKey" if "qs \<noteq> []"
          using that by (cases qs) (auto simp: q)
        ultimately show ?thesis
          using True Some hit e step.prems
          by (cases qs; cases "tl qs = []") (auto simp: m q safePut_walk lookup_path_Cons)
      next
        case False
        with Some hit e step.prems show ?thesis
          by (cases "qs = []") (auto simp: m q safePut_walk lookup_path_Cons)
      qed
    qed
  next
    case leaf
    with neq step.prems show ?thesis
      by (intro keep, cases "qs = []") (auto simp: m q safePut_walk lookup_path_Cons split_nocut split: if_splits option.splits)
  next
    case (gap k rest)
    with step.prems have "h \<noteq> k" by (cases "qs = []") (auto simp: m q lookup_path_Cons)
    with gap step.prems show ?thesis
      by (intro keep, cases "qs = []") (auto simp: m q safePut_walk lookup_path_Cons)
  next
    case (blocked k rest y)
    show ?thesis
    proof (cases "h = k")
      case True
      with blocked step.prems(3) have qs: "qs = []" and xy: "x = y"
        by (cases "qs = []"; auto simp: m q lookup_path_Cons)+
      obtain sub where sub: "safePut (Some [(alternativeKey, y)]) rest v = Ok sub"
          and m': "m' = Some (map_put k (VM sub) d)"
        using blocked step.prems(2) by (auto simp: m safePut_walk)
      have "\<exists>n. lookup_path ([alternativeKey] @ replicate n alternativeKey) sub = Some x"
      proof (rule step.IH [OF blocked(2) plain_single [OF blocked(4)] sub])
        show "split_byte dot rest \<noteq> [alternativeKey] @ replicate n alternativeKey" for n
          using step.prems(5) [of "Suc n"] blocked(2) True by (simp add: q qs split_cut)
      qed (use blocked xy in \<open>auto simp: prefix_def Cons_eq_append_conv\<close>)
      then obtain n where "lookup_path (replicate (Suc n) alternativeKey) sub = Some x" by auto
      then show ?thesis
        using True by (intro exI [of _ "Suc n"]) (simp add: q qs m' lookup_path_Cons)
    next
      case False
      with blocked step.prems show ?thesis
        by (intro keep, cases "qs = []") (auto simp: m q safePut_walk lookup_path_Cons)
    qed
  next
    case (down k rest y c)
    obtain sub where sub: "safePut c rest v = Ok sub"
        and m': "m' = Some (map_put k (as_map (is_plain y) sub) d)"
      using down step.prems(2) by (auto simp: m safePut_walk)
    show ?thesis
    proof (cases "h = k")
      case True
      with down step.prems(3,4) have qs: "qs \<noteq> []" and lk: "lookup_path qs c = Some x"
        by (cases "qs = []"; auto simp: m q lookup_path_Cons)+
      have "\<exists>n. lookup_path (qs @ replicate n alternativeKey) sub = Some x"
      proof (rule step.IH [OF down(2) _ sub lk step.prems(4)])
        show "plain_map c" using plain_child [OF step.prems(1) [unfolded m] down(3,4)] .
        show "split_byte dot rest \<noteq> qs @ replicate n alternativeKey" for n
          using step.prems(5) [of n] down(2) True by (simp add: q split_cut)
        show "\<not> prefix (split_byte dot rest @ [alternativeKey]) qs"
          using step.prems(6) down(2) True by (simp add: q split_cut)
      qed
      then show ?thesis
        using True qs by (auto simp: q m' lookup_path_Cons)
    next
      case False
      with step.prems show ?thesis
        by (intro keep, cases "qs = []") (auto simp: m q m' lookup_path_Cons)
    qed
  qed
qed

text \<open>The stored value is found under its key, or under the alternative key of the map there.\<close>

lemma safePut_stores:
  assumes "plain_map m" and "safePut m key v = Ok m'"
  shows "lookup_path (split_byte dot key) m' = Some v \<or>
         lookup_path (split_byte dot key @ [alternativeKey]) m' = Some v"
  using assms
proof (induction key m arbitrary: m' rule: key_induct)
  case (step key m)
  obtain d where m: "m = Some d" using step.prems(2) by (cases m) auto
  show ?case
  proof (cases d key rule: walk_cases)
    case (hit y)
    note sp = plain_hit_split [OF step.prems(1) [unfolded m] hit]
    show ?thesis
    proof (cases "tryToMapStr y")
      case (Some c)
      with hit sp step.prems show ?thesis by (cases c) (auto simp: m safePut_walk)
    qed (use hit sp step.prems in \<open>auto simp: m safePut_walk\<close>)
  next
    case leaf
    with step.prems show ?thesis by (auto simp: m safePut_walk split_nocut)
  next
    case (gap k rest)
    with step.prems step.IH [OF gap(2), of "Some []"] show ?thesis
      by (auto simp: m safePut_walk split_cut lookup_path_Cons)
  next
    case (blocked k rest y)
    with step.prems step.IH [OF blocked(2) plain_single [OF blocked(4)]] show ?thesis
      by (auto simp: m safePut_walk split_cut lookup_path_Cons)
  next
    case (down k rest y c)
    with step.prems step.IH [OF down(2), of c] plain_child [of d k y c] show ?thesis
      by (auto simp: m safePut_walk split_cut lookup_path_Cons)
  qed
qed

section \<open>Properties\<close>

text \<open>\<open>safemapstr.Put\<close> never fails on a map without nil maps in it: it stores the value under its
  key, or under the alternative key of the map that is there, and no other value is lost: a leaf
  at another path is still at its path, or below it under the alternative key.\<close>

theorem safePut_spec:
  assumes "plain_map m" and "no_nil m" and "m \<noteq> None"
  shows "\<exists>m'. safePut m key v = Ok m' \<and>
    (lookup_path (split_byte dot key) m' = Some v \<or>
     lookup_path (split_byte dot key @ [alternativeKey]) m' = Some v) \<and>
    (\<forall>q x. lookup_path q m = Some x \<and> tryToMapStr x = None \<and>
       (\<forall>n. split_byte dot key \<noteq> q @ replicate n alternativeKey) \<and>
       \<not> prefix (split_byte dot key @ [alternativeKey]) q \<longrightarrow>
       (\<exists>n. lookup_path (q @ replicate n alternativeKey) m' = Some x))"
proof -
  obtain m' where m': "safePut m key v = Ok (Some m')" using safePut_total [OF assms(2,3)] by blast
  show ?thesis
    using m' safePut_stores [OF assms(1) m'] safePut_keeps [OF assms(1) m'] by blast
qed

theorem safePut_spec_witness:
  "lookup_path [''a'', ''b''] (Some [(''a'', VM (Some [(''value'', VInt 1), (''b'', VInt 2)]))]) = Some (VInt 2) \<or>
   lookup_path [''a'', ''b'', ''value''] (Some [(''a'', VM (Some [(''value'', VInt 1), (''b'', VInt 2)]))]) = Some (VInt 2)"
proof -
  have 1: "plain_map (Some [(''a'', VInt 1)])" "no_nil (Some [(''a'', VInt 1)])" "Some [(''a'', VInt 1)] \<noteq> None"
    by code_simp+
  have 2: "safePut (Some [(''a'', VInt 1)]) ''a.b'' (VInt 2) =
      Ok (Some [(''a'', VM (Some [(''value'', VInt 1), (''b'', VInt 2)]))])" by code_simp
  have 3: "split_byte dot ''a.b'' = [''a'', ''b'']" by code_simp
  show ?thesis
    using safePut_spec [OF 1, of "''a.b''" "VInt 2"] by (auto simp: 2 3 alternativeKey_def)
qed

end
