(* ===== verification/Version.thy ===== *)
theory Version
  imports Go_Prelude "HOL-Library.List_Lexorder" "HOL-Library.Char_ord" "HOL-Library.Product_Lexorder"
begin

text \<open>
  Package \<open>version\<close> (src/version/version.go): version strings \<open>major.minor.bugfix(-meta)\<close>, their parsing
  and their order. The strings are compared byte by byte, as Go compares strings. The JSON decoder
  of \<open>UnmarshalJSON\<close> is an argument.
\<close>

section \<open>Data and operations\<close>

record V =
  version :: string
  Major :: int
  Minor :: int
  Bugfix :: int
  Meta :: string

datatype version_error = ErrNotSemver | ErrMajor | ErrMinor | ErrBugfix | ErrUnmarshal

definition New :: "string \<Rightarrow> (version_error, V) outcome" where
  "New s =
     (let tmp = split_byte CHR ''-'' s;
          (vers, meta) = (if CHR ''-'' \<in> set s then (tmp ! 0, tmp ! 1) else (s, []));
          versions = split_byte CHR ''.'' vers
      in if length versions \<noteq> 3 then Err ErrNotSemver
         else (case go_atoi (versions ! 0) of
                 None \<Rightarrow> Err ErrMajor
               | Some major \<Rightarrow>
                   (case go_atoi (versions ! 1) of
                      None \<Rightarrow> Err ErrMinor
                    | Some minor \<Rightarrow>
                        (case go_atoi (versions ! 2) of
                           None \<Rightarrow> Err ErrBugfix
                         | Some bugfix \<Rightarrow>
                             Ok \<lparr>version = s, Major = major, Minor = minor, Bugfix = bugfix,
                                 Meta = meta\<rparr>))))"

definition MustNew :: "string \<Rightarrow> (version_error, V) outcome" where
  "MustNew s = (case New s of Ok v \<Rightarrow> Ok v | _ \<Rightarrow> Panic)"

definition IsValid :: "V \<Rightarrow> bool" where
  "IsValid v \<longleftrightarrow> version v \<noteq> []"

definition IsMajor :: "V \<Rightarrow> int \<Rightarrow> bool" where
  "IsMajor v major \<longleftrightarrow> major = Major v"

definition metaIsLessThanOrEqual :: "V \<Rightarrow> V \<Rightarrow> bool" where
  "metaIsLessThanOrEqual v v1 =
     (if Meta v = [] \<and> Meta v1 = [] then True
      else if Meta v = [] then False
      else if Meta v1 = [] then True
      else Meta v \<le> Meta v1)"

definition LessThanOrEqual :: "V \<Rightarrow> bool \<Rightarrow> V \<Rightarrow> bool" where
  "LessThanOrEqual v withMeta v1 =
     (if withMeta \<and> version v = version v1 then True
      else if Major v < Major v1 then True
      else if Major v = Major v1 then
        (if Minor v < Minor v1 then True
         else if Minor v = Minor v1 then
           (if Bugfix v < Bugfix v1 then True
            else if Bugfix v = Bugfix v1 then
              (if withMeta then metaIsLessThanOrEqual v v1 else True)
            else False)
         else False)
      else False)"

definition LessThanMajorMinor :: "V \<Rightarrow> V \<Rightarrow> bool" where
  "LessThanMajorMinor v v1 =
     (if Major v < Major v1 then True
      else if Major v = Major v1 then (if Minor v < Minor v1 then True else False)
      else False)"

definition LessThan :: "V \<Rightarrow> V \<Rightarrow> bool" where
  "LessThan v v1 =
     (if LessThanMajorMinor v v1 then True
      else if Minor v = Minor v1 then (if Bugfix v < Bugfix v1 then True else False)
      else False)"

definition String :: "V \<Rightarrow> string" where
  "String v = version v"

definition UnmarshalJSON :: "(string \<Rightarrow> string option) \<Rightarrow> V \<Rightarrow> string \<Rightarrow> V \<times> (version_error, unit) outcome" where
  "UnmarshalJSON unmarshal v data =
     (case unmarshal data of
        None \<Rightarrow> (v, Err ErrUnmarshal)
      | Some s \<Rightarrow>
          (case New s of
             Ok ver \<Rightarrow> (ver, Ok ())
           | Err e \<Rightarrow> (v, Err e)
           | Panic \<Rightarrow> (v, Panic)))"

section \<open>Parsing\<close>

lemma New_version: "New s = Ok v \<Longrightarrow> version v = s"
  by (auto simp: New_def Let_def split: if_splits option.splits prod.splits)

lemma New_not_Panic [simp]: "New s \<noteq> Panic"
  by (auto simp: New_def Let_def split: option.splits prod.splits)

lemma New_inj: "New s = Ok v \<Longrightarrow> New s' = Ok v' \<Longrightarrow> version v = version v' \<Longrightarrow> v = v'"
  by (metis New_version outcome.inject(1))

definition dotted3 :: "nat \<Rightarrow> nat \<Rightarrow> nat \<Rightarrow> string" where
  "dotted3 a b c = go_itoa a @ CHR ''.'' # go_itoa b @ CHR ''.'' # go_itoa c"

lemma itoa_no_sep [simp]: "CHR ''.'' \<notin> set (go_itoa n)" "CHR ''-'' \<notin> set (go_itoa n)"
  by (auto dest!: go_itoa_digits simp: is_digit_def)

lemma split_dotted3: "split_byte CHR ''.'' (dotted3 a b c) = [go_itoa a, go_itoa b, go_itoa c]"
  by (simp add: dotted3_def split_byte_cut split_byte_no_sep)

lemma dotted3_no_dash [simp]: "CHR ''-'' \<notin> set (dotted3 a b c)"
  by (simp add: dotted3_def)

text \<open>The string of a version with an optional meta part, as releases are named.\<close>

definition render :: "nat \<Rightarrow> nat \<Rightarrow> nat \<Rightarrow> string \<Rightarrow> string" where
  "render a b c meta = dotted3 a b c @ (if meta = [] then [] else CHR ''-'' # meta)"

lemma New_render:
  assumes "int a \<le> max_int64" "int b \<le> max_int64" "int c \<le> max_int64" and "CHR ''-'' \<notin> set meta"
  shows "New (render a b c meta) = Ok \<lparr>version = render a b c meta, Major = int a, Minor = int b,
    Bugfix = int c, Meta = meta\<rparr>"
  using assms
  by (cases "meta = []")
    (simp_all add: New_def Let_def render_def split_dotted3 go_atoi_itoa split_byte_cut split_byte_no_sep)

section \<open>Order\<close>

text \<open>The release numbers in order; a release without meta part comes after its pre-releases.\<close>

definition release :: "V \<Rightarrow> int \<times> int \<times> int" where
  "release v = (Major v, Minor v, Bugfix v)"

definition full_key :: "V \<Rightarrow> (int \<times> int \<times> int) \<times> bool \<times> string" where
  "full_key v = (release v, Meta v = [], Meta v)"

lemma LessThanOrEqual_release: "LessThanOrEqual v False w \<longleftrightarrow> release v \<le> release w"
  by (auto simp: LessThanOrEqual_def release_def)

lemma meta_order: "metaIsLessThanOrEqual v w \<longleftrightarrow> (Meta v = [], Meta v) \<le> (Meta w = [], Meta w)"
  by (auto simp: metaIsLessThanOrEqual_def)

lemma LessThanOrEqual_full:
  "(version v = version w \<Longrightarrow> v = w) \<Longrightarrow> LessThanOrEqual v True w \<longleftrightarrow> full_key v \<le> full_key w"
  by (auto simp: LessThanOrEqual_def full_key_def release_def meta_order)

lemma LessThanMajorMinor_order: "LessThanMajorMinor v w \<longleftrightarrow> (Major v, Minor v) < (Major w, Minor w)"
  by (auto simp: LessThanMajorMinor_def)

section \<open>Properties\<close>

text \<open>Parsing the string of a version gives back its numbers and its meta part, and \<open>String\<close> returns
  the parsed string.\<close>

theorem New_roundtrip:
  assumes "int a \<le> max_int64" "int b \<le> max_int64" "int c \<le> max_int64" and "CHR ''-'' \<notin> set meta"
  shows "\<exists>v. New (render a b c meta) = Ok v \<and> String v = render a b c meta \<and>
    Major v = int a \<and> Minor v = int b \<and> Bugfix v = int c \<and> Meta v = meta"
  by (simp add: New_render [OF assms] String_def)

theorem New_roundtrip_witness: "\<exists>v. New (render 8 17 0 ''SNAPSHOT'') = Ok v \<and> Major v = 8"
proof -
  have "int 8 \<le> max_int64" "int 17 \<le> max_int64" "int 0 \<le> max_int64" "CHR ''-'' \<notin> set ''SNAPSHOT''"
    by code_simp+
  from New_roundtrip [OF this] show ?thesis by auto
qed

text \<open>On parsed versions \<open>LessThanOrEqual\<close> is a total order in which the release numbers are
  compared first and a pre-release comes before its release; without meta part it is the order of
  the release numbers.\<close>

theorem LessThanOrEqual_order:
  assumes "New s = Ok v" and "New s' = Ok w"
  shows "(LessThanOrEqual v True w \<longleftrightarrow> full_key v \<le> full_key w) \<and>
    (LessThanOrEqual v False w \<longleftrightarrow> release v \<le> release w) \<and>
    (LessThanOrEqual v wm w \<or> LessThanOrEqual w wm v)"
proof -
  have inj: "version v = version w \<Longrightarrow> v = w" "version w = version v \<Longrightarrow> w = v"
    using New_inj [OF assms] by auto
  show ?thesis
    using LessThanOrEqual_full [OF inj(1)] LessThanOrEqual_full [OF inj(2)]
      LessThanOrEqual_release [of v w] LessThanOrEqual_release [of w v]
    by (cases wm) (auto simp: linear)
qed

theorem LessThanOrEqual_order_witness:
  "\<exists>v w. New ''8.0.0-rc1'' = Ok v \<and> New ''8.0.0'' = Ok w \<and> LessThanOrEqual v True w"
proof -
  let ?v = "\<lparr>version = ''8.0.0-rc1'', Major = 8, Minor = 0, Bugfix = 0, Meta = ''rc1''\<rparr>"
  let ?w = "\<lparr>version = ''8.0.0'', Major = 8, Minor = 0, Bugfix = 0, Meta = []\<rparr>"
  have vw: "New ''8.0.0-rc1'' = Ok ?v" "New ''8.0.0'' = Ok ?w" by code_simp+
  have "full_key ?v \<le> full_key ?w" by (simp add: full_key_def release_def)
  then show ?thesis using LessThanOrEqual_order [OF vw, of True] vw by blast
qed

text \<open>\<open>LessThan\<close> is the strict order of the release numbers only when the major numbers are in
  order: with a larger major number, an equal minor number and a smaller bugfix number it still
  answers true, against its comment.\<close>

theorem LessThan_char:
  "LessThan v w \<longleftrightarrow> release v < release w \<or> (Major v > Major w \<and> Minor v = Minor w \<and> Bugfix v < Bugfix w)"
  by (auto simp: LessThan_def LessThanMajorMinor_def release_def)

end
