(* ===== verification/Opt.thy ===== *)
theory Opt
  imports Go_Prelude
begin

text \<open>
  Package \<open>opt\<close> (src/opt/opt.go, src/opt/format_types.go): optional numbers for metrics. A \<open>uint64\<close> is a
  64-bit word, so the arithmetic wraps as Go's does. A \<open>float64\<close> is only stored and returned, so the
  type of the value of \<open>Float\<close> is left open. \<open>Fold\<close> is modelled by the call it makes on the visitor,
  whose error it drops.
\<close>

section \<open>Data\<close>

record 'a opt =
  exists :: bool
  val :: 'a

type_synonym OptInt = "int opt"
type_synonym OptUint = "64 word opt"

datatype 'f visit = OnNil | OnInt int | OnUint64 "64 word" | OnFloat64 'f

section \<open>Int\<close>

definition NewIntNone :: OptInt where
  "NewIntNone = \<lparr>exists = False, val = 0\<rparr>"

definition IntWith :: "int \<Rightarrow> OptInt" where
  "IntWith i = \<lparr>exists = True, val = i\<rparr>"

definition IsZero :: "'a opt \<Rightarrow> bool" where
  "IsZero o1 \<longleftrightarrow> \<not> exists o1"

definition Exists :: "'a opt \<Rightarrow> bool" where
  "Exists o1 \<longleftrightarrow> exists o1"

definition ValueOr :: "'a opt \<Rightarrow> 'a \<Rightarrow> 'a" where
  "ValueOr o1 i = (if exists o1 then val o1 else i)"

definition FoldInt :: "OptInt \<Rightarrow> 'f visit" where
  "FoldInt o1 = (if exists o1 then OnInt (val o1) else OnNil)"

section \<open>Uint\<close>

definition NewUintNone :: OptUint where
  "NewUintNone = \<lparr>exists = False, val = 0\<rparr>"

definition UintWith :: "64 word \<Rightarrow> OptUint" where
  "UintWith i = \<lparr>exists = True, val = i\<rparr>"

definition MultUint64OrNone :: "OptUint \<Rightarrow> 64 word \<Rightarrow> OptUint" where
  "MultUint64OrNone o1 i =
     (if \<not> exists o1 then o1
      else if i = 0 then \<lparr>exists = False, val = 0\<rparr>
      else \<lparr>exists = True, val = val o1 * i\<rparr>)"

definition SubtractOrNone :: "OptUint \<Rightarrow> OptUint \<Rightarrow> OptUint" where
  "SubtractOrNone o1 i =
     (if \<not> exists o1 \<or> \<not> Exists i then o1
      else if ValueOr i 0 > val o1 then \<lparr>exists = False, val = 0\<rparr>
      else \<lparr>exists = True, val = val o1 - ValueOr i 0\<rparr>)"

fun sumFrom :: "64 word \<Rightarrow> OptUint list \<Rightarrow> 64 word" where
  "sumFrom acc [] = acc"
| "sumFrom acc (o1 # opts) = sumFrom (acc + ValueOr o1 0) opts"

definition SumOptUint :: "OptUint list \<Rightarrow> 64 word" where
  "SumOptUint opts = sumFrom 0 opts"

definition FoldUint :: "OptUint \<Rightarrow> 'f visit" where
  "FoldUint o1 = (if exists o1 then OnUint64 (val o1) else OnNil)"

section \<open>Float\<close>

definition NewFloatNone :: "'f \<Rightarrow> 'f opt" where
  "NewFloatNone zero_f = \<lparr>exists = False, val = zero_f\<rparr>"

definition FloatWith :: "'f \<Rightarrow> 'f opt" where
  "FloatWith f = \<lparr>exists = True, val = f\<rparr>"

definition FoldFloat :: "'f opt \<Rightarrow> 'f visit" where
  "FoldFloat o1 = (if exists o1 then OnFloat64 (val o1) else OnNil)"

section \<open>Lemmas\<close>

text \<open>What a wrapper means, as a HOL option of a natural number.\<close>

definition uopt :: "OptUint \<Rightarrow> nat option" where
  "uopt o1 = (if exists o1 then Some (unat (val o1)) else None)"

lemma sumFrom_add: "sumFrom acc opts = acc + sum_list (map (\<lambda>o1. ValueOr o1 0) opts)"
  by (induction opts arbitrary: acc) (auto simp: add.assoc)

lemma unat_sum_list: "unat (sum_list ws :: 64 word) = sum_list (map unat ws) mod 2 ^ 64"
  by (induction ws) (simp_all add: unat_word_ariths mod_simps)

lemma unat_ValueOr: "unat (ValueOr o1 0) = (case uopt o1 of Some n \<Rightarrow> n | None \<Rightarrow> 0)"
  by (simp add: ValueOr_def uopt_def)

lemma SumOptUint_nat:
  "unat (SumOptUint opts) = sum_list (map (\<lambda>o1. case uopt o1 of Some n \<Rightarrow> n | None \<Rightarrow> 0) opts) mod 2 ^ 64"
  by (simp add: SumOptUint_def sumFrom_add unat_sum_list comp_def unat_ValueOr)

lemma SubtractOrNone_uopt:
  "uopt (SubtractOrNone o1 i) =
     (case (uopt o1, uopt i) of
        (Some a, Some b) \<Rightarrow> if b \<le> a then Some (a - b) else None
      | (r, _) \<Rightarrow> r)"
  by (auto simp: SubtractOrNone_def uopt_def Exists_def ValueOr_def word_le_nat_alt unat_sub not_less
      word_less_nat_alt)

lemma MultUint64OrNone_uopt:
  "uopt (MultUint64OrNone o1 i) =
     (case uopt o1 of
        Some a \<Rightarrow> if i = 0 then None else Some (a * unat i mod 2 ^ 64)
      | None \<Rightarrow> None)"
  by (auto simp: MultUint64OrNone_def uopt_def unat_word_ariths)

section \<open>Properties\<close>

text \<open>The arithmetic of optional counters: a subtraction never wraps (it gives none instead of a
  negative number, and an absent subtrahend changes nothing), a product with zero is none and any
  other product wraps at 64 bits, and the sum is the sum of the present values modulo 2^64.\<close>

theorem opt_arithmetic:
  "uopt (SubtractOrNone o1 i) =
     (case (uopt o1, uopt i) of
        (Some a, Some b) \<Rightarrow> if b \<le> a then Some (a - b) else None
      | (r, _) \<Rightarrow> r) \<and>
   uopt (MultUint64OrNone o1 w) =
     (case uopt o1 of
        Some a \<Rightarrow> if w = 0 then None else Some (a * unat w mod 2 ^ 64)
      | None \<Rightarrow> None) \<and>
   unat (SumOptUint opts) = sum_list (map (\<lambda>o1. case uopt o1 of Some n \<Rightarrow> n | None \<Rightarrow> 0) opts) mod 2 ^ 64"
  using SubtractOrNone_uopt MultUint64OrNone_uopt SumOptUint_nat by blast

end
