(* ===== verification/Stringset.thy ===== *)
theory Stringset
  imports Go_Prelude "HOL-Library.List_Lexorder" "HOL-Library.Char_ord"
begin

text \<open>
  Package \<open>str\<close> (src/str/stringset.go): sets of strings as Go maps with empty values. A nil set is
  \<open>None\<close>; adding to it panics, every read of it sees an empty set.
\<close>

section \<open>Operations\<close>

type_synonym Set = "(string, unit) gomap option"

fun items :: "Set \<Rightarrow> (string, unit) gomap" where
  "items None = []"
| "items (Some d) = d"

definition MakeSet :: "string list \<Rightarrow> Set" where
  "MakeSet strs =
     (if length strs = 0 then None
      else Some (fold (\<lambda>s d. map_put s () d) strs []))"

definition Add :: "Set \<Rightarrow> string \<Rightarrow> (unit, Set) outcome" where
  "Add set1 s = (case set1 of None \<Rightarrow> Panic | Some d \<Rightarrow> Ok (Some (map_put s () d)))"

definition Del :: "Set \<Rightarrow> string \<Rightarrow> Set" where
  "Del set1 s = map_option (map_del s) set1"

definition Count :: "Set \<Rightarrow> nat" where
  "Count set1 = length (items set1)"

definition Has :: "Set \<Rightarrow> string \<Rightarrow> bool" where
  "Has set1 s = (case set1 of None \<Rightarrow> False | Some d \<Rightarrow> map_of d s \<noteq> None)"

definition Equals :: "Set \<Rightarrow> Set \<Rightarrow> bool" where
  "Equals set1 anotherSet =
     (if Count set1 \<noteq> Count anotherSet then False
      else list_all (\<lambda>(k, _). Has anotherSet k) (items set1))"

definition ToSlice :: "Set \<Rightarrow> string list" where
  "ToSlice set1 = sort (map fst (items set1))"

section \<open>The set a value stands for\<close>

definition elems :: "Set \<Rightarrow> string set" where
  "elems set1 = {s. Has set1 s}"

definition wf_set :: "Set \<Rightarrow> bool" where
  "wf_set set1 \<longleftrightarrow> wf_map (items set1)"

lemma Has_items: "Has set1 s \<longleftrightarrow> s \<in> fst ` set (items set1)"
  by (cases set1) (auto simp: Has_def map_of_eq_None_iff)

lemma elems_items: "elems set1 = fst ` set (items set1)"
  by (auto simp: elems_def Has_items)

lemma elems_Some: "elems (Some d) = {s. map_of d s \<noteq> None}"
  by (auto simp: elems_def Has_def)

lemma Count_card: "wf_set set1 \<Longrightarrow> Count set1 = card (elems set1)"
  unfolding wf_set_def wf_map_def Count_def elems_items
  by (metis distinct_card length_map list.set_map)

lemma fold_put_keys:
  "map_of (fold (\<lambda>s d. map_put s () d) strs d) s \<noteq> None \<longleftrightarrow> s \<in> set strs \<or> map_of d s \<noteq> None"
  by (induction strs arbitrary: d) (auto split: if_splits)

lemma fold_put_wf: "wf_map d \<Longrightarrow> wf_map (fold (\<lambda>s d. map_put s () d) strs d)"
  by (induction strs arbitrary: d) auto

lemma MakeSet_elems: "elems (MakeSet strs) = set strs \<and> wf_set (MakeSet strs)"
proof (cases strs)
  case Nil
  then show ?thesis by (simp add: MakeSet_def elems_def Has_def wf_set_def)
next
  case (Cons s ss)
  then have "MakeSet strs = Some (fold (\<lambda>s d. map_put s () d) strs [])" by (simp add: MakeSet_def)
  then show ?thesis
    using fold_put_keys [of strs "[]"] fold_put_wf [of "[]" strs] by (auto simp: elems_Some wf_set_def)
qed

lemma Equals_elems:
  assumes "wf_set a" and "wf_set b"
  shows "Equals a b \<longleftrightarrow> elems a = elems b"
proof -
  have fin: "finite (elems a)" "finite (elems b)" by (simp_all add: elems_items)
  have "Equals a b \<longleftrightarrow> card (elems a) = card (elems b) \<and> elems a \<subseteq> elems b"
    by (auto simp: Equals_def Count_card assms list_all_iff elems_items Has_items image_subset_iff case_prod_beta)
  then show ?thesis using fin by (metis card_subset_eq order_refl)
qed

section \<open>Properties\<close>

text \<open>The operations on string sets are the set operations: membership, insertion, removal,
  cardinality, equality, and the sorted list of the elements without duplicates.\<close>

theorem stringset_spec:
  assumes "wf_set a" and "wf_set b"
  shows "elems (MakeSet strs) = set strs \<and> wf_set (MakeSet strs) \<and>
    (\<forall>a'. Add a s = Ok a' \<longrightarrow> wf_set a' \<and> elems a' = insert s (elems a)) \<and> (Add a s = Panic \<longleftrightarrow> a = None) \<and>
    wf_set (Del a s) \<and> elems (Del a s) = elems a - {s} \<and>
    (Has a s \<longleftrightarrow> s \<in> elems a) \<and> Count a = card (elems a) \<and>
    (Equals a b \<longleftrightarrow> elems a = elems b) \<and>
    sorted (ToSlice a) \<and> distinct (ToSlice a) \<and> set (ToSlice a) = elems a"
proof -
  have "wf_set a' \<and> elems a' = insert s (elems a)" if "Add a s = Ok a'" for a'
    using that assms(1) by (cases a) (auto simp: Add_def wf_set_def elems_Some)
  moreover have "Add a s = Panic \<longleftrightarrow> a = None" by (cases a) (simp_all add: Add_def)
  moreover have "wf_set (Del a s) \<and> elems (Del a s) = elems a - {s}"
  proof (cases a)
    case (Some d)
    then show ?thesis using assms(1) by (auto simp: Del_def wf_set_def elems_Some)
  qed (simp add: Del_def wf_set_def elems_items)
  moreover have "sorted (ToSlice a) \<and> distinct (ToSlice a) \<and> set (ToSlice a) = elems a"
    using assms(1) by (simp add: ToSlice_def wf_set_def wf_map_def elems_items)
  ultimately show ?thesis
    using MakeSet_elems [of strs] Count_card [OF assms(1)] Equals_elems [OF assms]
    by (simp add: elems_def)
qed

theorem stringset_spec_witness:
  "Equals (Some [(''a'', ()), (''b'', ())]) (Some [(''b'', ()), (''a'', ())])"
proof -
  let ?a = "Some [(''a'', ()), (''b'', ())]" and ?b = "Some [(''b'', ()), (''a'', ())]"
  have "wf_set ?a" "wf_set ?b" by code_simp+
  then have "Equals ?a ?b \<longleftrightarrow> elems ?a = elems ?b" using stringset_spec by blast
  then show ?thesis by (auto simp: elems_items)
qed

end
