(* ===== verification/Ringbuffer.thy ===== *)
theory Ringbuffer
  imports Go_Prelude
begin

text \<open>
  The ring buffer of the buffer reporter (src/monitoring/report/buffer/buffer.go): a fixed number of
  slots that keeps the most recent entries. A slot holds an \<open>interface{}\<close>, \<open>None\<close> being nil.

  \<open>getAll\<close> returns a slice; it is a view of the buffer's own array, or an array of its own when
  \<open>append\<close> had to allocate one. A view is the pair of its bounds, read against the buffer at the
  time of the read.
\<close>

section \<open>Data and operations\<close>

record 'a ringBuffer =
  slots :: "'a option list"
  i :: nat
  full :: bool

datatype 'a slice = View nat nat | Fresh "'a option list"

definition newBuffer :: "nat \<Rightarrow> 'a ringBuffer" where
  "newBuffer size1 = \<lparr>slots = replicate size1 None, i = 0, full = False\<rparr>"

text \<open>Indexing an empty array panics.\<close>

definition add :: "'a ringBuffer \<Rightarrow> 'a option \<Rightarrow> (unit, 'a ringBuffer) outcome" where
  "add r entry =
     (if i r < length (slots r) then
        (let r1 = r\<lparr>slots := (slots r)[i r := entry]\<rparr>;
             r2 = r1\<lparr>i := (i r1 + 1) mod length (slots r1)\<rparr>
         in Ok (if i r2 = 0 then r2\<lparr>full := True\<rparr> else r2))
      else Panic)"

definition getAll :: "'a ringBuffer \<Rightarrow> 'a slice" where
  "getAll r =
     (if i r = 0 \<and> \<not> full r then Fresh []
      else if \<not> full r then View 0 (i r)
      else if full r \<and> i r = 0 then View 0 (length (slots r))
      else Fresh (drop (i r) (slots r) @ take (i r) (slots r)))"

definition read_slice :: "'a ringBuffer \<Rightarrow> 'a slice \<Rightarrow> 'a option list" where
  "read_slice r s = (case s of View lo hi \<Rightarrow> take (hi - lo) (drop lo (slots r)) | Fresh xs \<Rightarrow> xs)"

fun addAll :: "'a ringBuffer \<Rightarrow> 'a option list \<Rightarrow> (unit, 'a ringBuffer) outcome" where
  "addAll r [] = Ok r"
| "addAll r (x # xs) = bind_outcome (add r x) (\<lambda>r'. addAll r' xs)"

section \<open>Refinement of a bounded history\<close>

text \<open>The last \<open>n\<close> elements of a list.\<close>

definition last_n :: "nat \<Rightarrow> 'b list \<Rightarrow> 'b list" where
  "last_n n xs = drop (length xs - n) xs"

text \<open>The entries in order of arrival, and the invariant.\<close>

definition contents :: "'a ringBuffer \<Rightarrow> 'a option list" where
  "contents r = (if full r then drop (i r) (slots r) @ take (i r) (slots r) else take (i r) (slots r))"

definition wf_ring :: "'a ringBuffer \<Rightarrow> bool" where
  "wf_ring r \<longleftrightarrow> i r < length (slots r)"

lemma last_n_snoc: "0 < n \<Longrightarrow> last_n n (last_n n xs @ [x]) = last_n n (xs @ [x])"
  by (cases "length xs < n") (auto simp: last_n_def Suc_diff_le not_less)

lemma read_getAll: "read_slice r (getAll r) = contents r"
  by (auto simp: read_slice_def getAll_def contents_def)

lemma add_ok:
  assumes "wf_ring r"
  shows "\<exists>r'. add r x = Ok r' \<and> wf_ring r' \<and> length (slots r') = length (slots r) \<and>
    contents r' = last_n (length (slots r)) (contents r @ [x])"
proof -
  let ?n = "length (slots r)"
  have i: "i r < ?n" using assms by (simp add: wf_ring_def)
  have upd: "take (Suc (i r)) ((slots r)[i r := x]) = take (i r) (slots r) @ [x]"
    using i by (simp add: take_Suc_conv_app_nth)
  show ?thesis
  proof (cases "Suc (i r) = ?n")
    case True
    then have "(slots r)[i r := x] = take (i r) (slots r) @ [x]" using upd by simp
    with True i show ?thesis
      by (cases "full r")
        (auto simp: add_def Let_def wf_ring_def contents_def last_n_def drop_Cons' simp flip: Suc_diff_le
          intro!: nth_equalityI)
  next
    case False
    then have lt: "Suc (i r) < ?n" using i by simp
    then show ?thesis
      using upd i
      by (cases "full r")
        (auto simp: add_def Let_def wf_ring_def contents_def last_n_def drop_Suc_Cons)
  qed
qed

lemma addAll_ok:
  assumes "wf_ring r" and "length (contents r) \<le> length (slots r)"
  shows "\<exists>r'. addAll r xs = Ok r' \<and> wf_ring r' \<and> length (slots r') = length (slots r) \<and>
    contents r' = last_n (length (slots r)) (contents r @ xs)"
  using assms
proof (induction xs arbitrary: r)
  case Nil
  then show ?case by (simp add: last_n_def)
next
  case (Cons x xs)
  obtain r1 where r1: "add r x = Ok r1" "wf_ring r1" "length (slots r1) = length (slots r)"
    "contents r1 = last_n (length (slots r)) (contents r @ [x])"
    using add_ok [OF Cons.prems(1)] by blast
  have "length (contents r1) \<le> length (slots r1)" using r1 by (simp add: last_n_def)
  from Cons.IH [OF r1(2) this] obtain r' where r': "addAll r1 xs = Ok r'" "wf_ring r'"
    "length (slots r') = length (slots r)"
    "contents r' = last_n (length (slots r)) (last_n (length (slots r)) (contents r @ [x]) @ xs)"
    using r1 by auto
  have "last_n n (last_n n ys @ xs) = last_n n (ys @ xs)" for n and ys :: "'a option list"
    by (cases "n \<le> length ys") (auto simp: last_n_def add.commute)
  then show ?case using r1(1) r' by simp
qed

lemma contents_new [simp]: "contents (newBuffer n) = []"
  by (simp add: contents_def newBuffer_def)

lemma slots_new [simp]: "length (slots (newBuffer n)) = n"
  by (simp add: newBuffer_def)

lemma wf_new: "0 < n \<Longrightarrow> wf_ring (newBuffer n)"
  by (simp add: wf_ring_def newBuffer_def)

section \<open>Properties\<close>

text \<open>C21. A buffer with at least one slot accepts every entry, and \<open>getAll\<close> returns the most recent
  entries, at most one per slot, in the order in which they were added.\<close>

theorem ring_history:
  assumes "0 < n"
  shows "\<exists>r. addAll (newBuffer n) xs = Ok r \<and> read_slice r (getAll r) = last_n n xs"
  using addAll_ok [OF wf_new [OF assms], of xs] by (auto simp: read_getAll)

theorem ring_history_witness:
  "\<exists>r. addAll (newBuffer 2) [Some 1, Some 2, Some (3::nat)] = Ok r \<and>
     read_slice r (getAll r) = [Some 2, Some 3]"
  using ring_history [of 2 "[Some 1, Some 2, Some (3::nat)]"] by (simp add: last_n_def)

text \<open>A list returned by \<open>getAll\<close> while the buffer is full and about to start over is the
  buffer's own array: the next entry appears in place of its oldest element. In every other state
  the list the caller holds is not changed by the next entry.\<close>

theorem getAll_aliasing:
  assumes "wf_ring r" and "add r x = Ok r'"
  shows "read_slice r' (getAll r) =
    (if full r \<and> i r = 0 then x # tl (contents r) else contents r)"
proof -
  have s: "slots r' = (slots r)[i r := x]" and lt: "i r < length (slots r)"
    using assms by (auto simp: add_def Let_def split: if_splits)
  show ?thesis
  proof (cases "full r \<and> i r = 0")
    case True
    then show ?thesis using s lt by (cases "slots r") (auto simp: read_slice_def getAll_def contents_def)
  next
    case False
    then show ?thesis using s by (auto simp: read_slice_def getAll_def contents_def)
  qed
qed

theorem getAll_aliasing_witness:
  "read_slice \<lparr>slots = [Some 3, Some (2::nat)], i = 1, full = True\<rparr>
      (getAll \<lparr>slots = [Some 1, Some 2], i = 0, full = True\<rparr>) = [Some 3, Some 2]"
proof -
  let ?r = "\<lparr>slots = [Some 1, Some (2::nat)], i = 0, full = True\<rparr>"
  have "wf_ring ?r" "add ?r (Some 3) = Ok \<lparr>slots = [Some 3, Some 2], i = 1, full = True\<rparr>" by code_simp+
  from getAll_aliasing [OF this] show ?thesis by (simp add: contents_def)
qed

end
