(* ===== verification/Dissect.thy ===== *)
theory Dissect
  imports Go_Prelude
begin

text \<open>
  Package \<open>dissect\<close> (src/processors/dissect): a tokenizer such as \<open>%{ip} [%{time}] %{+rest/2}\<close> cuts a
  string at fixed delimiters into named values. This theory holds the delimiters (delimiter.go), the
  fields (field.go), the tokenizer parser (parser.go, const.go), the check of references
  (validate.go) and the dissector itself (dissect.go).

  The two regular expressions of const.go are translated into functions: each of them has exactly
  one way to match, described at its definition. \<open>sort.Slice\<close> is an argument of the parser, since it
  does not promise the order of fields with equal ordinals. A slice expression out of bounds is a
  \<open>Panic\<close>; the greedy loop of \<open>extract\<close> may run forever, so \<open>extract\<close> has an option as result, \<open>None\<close>
  when it does not return.
\<close>

section \<open>Delimiters\<close>

datatype delimiter = zeroByte (needle: string) (greedy: bool) | multiByte (needle: string) (greedy: bool)

text \<open>\<open>IndexOf\<close>: \<open>Ok None\<close> is -1; slicing the haystack beyond its end panics.\<close>

definition zeroByte_IndexOf :: "string \<Rightarrow> nat \<Rightarrow> (unit, nat option) outcome" where
  [simp]: "zeroByte_IndexOf haystack offset = Ok (Some offset)"

definition multiByte_IndexOf :: "string \<Rightarrow> string \<Rightarrow> nat \<Rightarrow> (unit, nat option) outcome" where
  [simp]: "multiByte_IndexOf n haystack offset =
     (if offset \<le> length haystack
      then Ok (map_option (\<lambda>i. i + offset) (go_index (drop offset haystack) n))
      else Panic)"

text \<open>The call through the interface.\<close>

fun IndexOf :: "delimiter \<Rightarrow> string \<Rightarrow> nat \<Rightarrow> (unit, nat option) outcome" where
  "IndexOf (zeroByte _ _) haystack offset = zeroByte_IndexOf haystack offset"
| "IndexOf (multiByte n _) haystack offset = multiByte_IndexOf n haystack offset"

fun Len :: "delimiter \<Rightarrow> nat" where
  "Len (zeroByte _ _) = 0"
| "Len (multiByte n _) = length n"

definition Delimiter :: "delimiter \<Rightarrow> string" where
  "Delimiter d = needle d"

definition IsGreedy :: "delimiter \<Rightarrow> bool" where
  "IsGreedy d = greedy d"

fun MarkGreedy :: "delimiter \<Rightarrow> delimiter" where
  "MarkGreedy (zeroByte n _) = zeroByte n True"
| "MarkGreedy (multiByte n _) = multiByte n True"

definition newDelimiter :: "string \<Rightarrow> delimiter" where
  "newDelimiter n = (if length n = 0 then zeroByte [] False else multiByte n False)"

section \<open>Fields\<close>

record baseField =
  fid :: nat
  fkey :: string
  ordinal :: nat
  flength :: nat
  fgreedy :: bool
  dataType :: string

datatype field =
    normalField (base: baseField)
  | skipField (base: baseField)
  | namedSkipField (base: baseField)
  | pointerField (base: baseField)
  | indirectField (base: baseField)
  | appendField (base: baseField) (previous: delimiter)

datatype dissect_error =
    ErrParsingFailure | ErrInvalidTokenizer | ErrEmpty | ErrMixedPrefixIndirectAppend
  | ErrMixedPrefixAppendIndirect | ErrInvalidDatatype | ErrMissingDatatype
  | ErrMissingReference string
  | ErrBeginningDelimiter | ErrFieldLength | ErrDelimiterNotFound | ErrLastFixedLength

datatype dataTypeT = Integer | Long | Float | Double | StringT | Boolean | IP

definition dataTypeNames :: "(string, dataTypeT) gomap" where
  "dataTypeNames = [(''integer'', Integer), (''long'', Long), (''float'', Float), (''double'', Double),
     (''string'', StringT), (''boolean'', Boolean), (''ip'', IP)]"

abbreviation fieldID :: "field \<Rightarrow> nat" where "fieldID f \<equiv> fid (base f)"
abbreviation fieldKey :: "field \<Rightarrow> string" where "fieldKey f \<equiv> fkey (base f)"

definition IsFixedLength :: "field \<Rightarrow> bool" where
  "IsFixedLength f \<longleftrightarrow> flength (base f) > 0"

fun IsSaveable :: "field \<Rightarrow> bool" where
  "IsSaveable (skipField _) = False"
| "IsSaveable (namedSkipField _) = False"
| "IsSaveable (pointerField _) = False"
| "IsSaveable _ = True"

definition JoinString :: "delimiter \<Rightarrow> string" where
  "JoinString prev = (if Len prev = 0 then '' '' else Delimiter prev)"

type_synonym Map = "(string, string) gomap"

definition normalField_Apply :: "baseField \<Rightarrow> string \<Rightarrow> Map \<Rightarrow> Map" where
  [simp]: "normalField_Apply f b m = map_put (fkey f) b m"

definition skipField_Apply :: "baseField \<Rightarrow> string \<Rightarrow> Map \<Rightarrow> Map" where
  [simp]: "skipField_Apply f b m = m"

definition namedSkipField_Apply :: "baseField \<Rightarrow> string \<Rightarrow> Map \<Rightarrow> Map" where
  [simp]: "namedSkipField_Apply f b m = map_put (fkey f) b m"

definition pointerField_Apply :: "baseField \<Rightarrow> string \<Rightarrow> Map \<Rightarrow> Map" where
  [simp]: "pointerField_Apply f b m = map_put (fkey f) b m"

definition indirectField_Apply :: "baseField \<Rightarrow> string \<Rightarrow> Map \<Rightarrow> Map" where
  [simp]: "indirectField_Apply f b m =
     (case map_of m (fkey f) of Some v \<Rightarrow> map_put v b m | None \<Rightarrow> m)"

definition appendField_Apply :: "baseField \<Rightarrow> delimiter \<Rightarrow> string \<Rightarrow> Map \<Rightarrow> Map" where
  [simp]: "appendField_Apply f prev b m =
     (case map_of m (fkey f) of
        Some v \<Rightarrow> map_put (fkey f) (v @ JoinString prev @ b) m
      | None \<Rightarrow> map_put (fkey f) b m)"

text \<open>The call through the interface.\<close>

fun Apply :: "field \<Rightarrow> string \<Rightarrow> Map \<Rightarrow> Map" where
  "Apply (normalField f) b m = normalField_Apply f b m"
| "Apply (skipField f) b m = skipField_Apply f b m"
| "Apply (namedSkipField f) b m = namedSkipField_Apply f b m"
| "Apply (pointerField f) b m = pointerField_Apply f b m"
| "Apply (indirectField f) b m = indirectField_Apply f b m"
| "Apply (appendField f prev) b m = appendField_Apply f prev b m"

subsection \<open>Key syntax\<close>

text \<open>
  \<open>suffixRE\<close> is a shortest non-empty key followed by the optional parts \<open>/dd\<close>, \<open>#dd\<close>, \<open>->\<close> and \<open>|alpha\<close>
  up to the end of the text. The parts start with four different bytes, so the text behind the
  key is split into them in at most one way.
\<close>

definition is_alpha :: "char \<Rightarrow> bool" where
  "is_alpha c \<longleftrightarrow> is_upper_ascii c \<or> (97 \<le> (of_char c :: nat) \<and> (of_char c :: nat) \<le> 122)"

text \<open>An optional indicator with one or two digits: the number (0 when absent) and the text behind.\<close>

fun optNumber :: "char \<Rightarrow> string \<Rightarrow> (nat \<times> string) option" where
  "optNumber c (x # d1 # d2 # r) =
     (if x \<noteq> c then Some (0, x # d1 # d2 # r)
      else if \<not> is_digit d1 then None
      else if is_digit d2 then Some (10 * digit_val d1 + digit_val d2, r)
      else Some (digit_val d1, d2 # r))"
| "optNumber c [x, d1] =
     (if x \<noteq> c then Some (0, [x, d1])
      else if is_digit d1 then Some (digit_val d1, []) else None)"
| "optNumber c [x] = (if x \<noteq> c then Some (0, [x]) else None)"
| "optNumber c [] = Some (0, [])"

fun optGreedy :: "string \<Rightarrow> bool \<times> string" where
  "optGreedy (a # b # r) =
     (if a = CHR ''-'' \<and> b = CHR ''>'' then (True, r) else (False, a # b # r))"
| "optGreedy r = (False, r)"

fun optDataType :: "string \<Rightarrow> string option" where
  "optDataType [] = Some []"
| "optDataType (x # r) = (if x = CHR ''|'' \<and> list_all is_alpha r then Some r else None)"

text \<open>The text behind the key: ordinal, length, greedy flag and data type.\<close>

definition suffixParts :: "string \<Rightarrow> (nat \<times> nat \<times> bool \<times> string) option" where
  "suffixParts r =
     (case optNumber CHR ''/'' r of
        None \<Rightarrow> None
      | Some (ord1, r1) \<Rightarrow>
          (case optNumber CHR ''#'' r1 of
             None \<Rightarrow> None
           | Some (len1, r2) \<Rightarrow>
               (case optGreedy r2 of
                  (g, r3) \<Rightarrow> map_option (\<lambda>dt. (ord1, len1, g, dt)) (optDataType r3))))"

text \<open>The shortest key \<open>k @ k'\<close> for which the rest has the form of the suffix.\<close>

fun shortestKey :: "string \<Rightarrow> string \<Rightarrow> string \<times> nat \<times> nat \<times> bool \<times> string" where
  "shortestKey k r =
     (case suffixParts r of
        Some (ord1, len1, g, dt) \<Rightarrow> (k, ord1, len1, g, dt)
      | None \<Rightarrow> (case r of [] \<Rightarrow> (k, 0, 0, False, []) | c # cs \<Rightarrow> shortestKey (k @ [c]) cs))"

text \<open>
  The dot of \<open>(.+?)\<close> does not match a newline and the expression is not anchored on the left, so the
  match starts behind the last newline; without a byte there is no match, and \<open>m[0]\<close> panics.
\<close>

definition extractKeyParts :: "string \<Rightarrow> (dissect_error, string \<times> nat \<times> nat \<times> bool \<times> string) outcome" where
  "extractKeyParts rawKey =
     (case last (split_byte CHR 0x0A rawKey) of
        [] \<Rightarrow> Panic
      | c # cs \<Rightarrow> Ok (shortestKey [c] cs))"

definition newSkipField :: "nat \<Rightarrow> field" where
  [simp]: "newSkipField id1 =
     skipField \<lparr>fid = id1, fkey = [], ordinal = 0, flength = 0, fgreedy = False, dataType = []\<rparr>"

definition newNamedSkipField :: "nat \<Rightarrow> string \<Rightarrow> nat \<Rightarrow> field" where
  [simp]: "newNamedSkipField id1 key len1 =
     namedSkipField \<lparr>fid = id1, fkey = key, ordinal = 0, flength = len1, fgreedy = False, dataType = []\<rparr>"

definition newPointerField :: "nat \<Rightarrow> string \<Rightarrow> nat \<Rightarrow> field" where
  [simp]: "newPointerField id1 key len1 =
     pointerField \<lparr>fid = id1, fkey = key, ordinal = 0, flength = len1, fgreedy = False, dataType = []\<rparr>"

definition newAppendField :: "nat \<Rightarrow> string \<Rightarrow> nat \<Rightarrow> nat \<Rightarrow> bool \<Rightarrow> delimiter \<Rightarrow> field" where
  [simp]: "newAppendField id1 key ord1 len1 g prev =
     appendField \<lparr>fid = id1, fkey = key, ordinal = ord1, flength = len1, fgreedy = g, dataType = []\<rparr> prev"

definition newIndirectField :: "nat \<Rightarrow> string \<Rightarrow> string \<Rightarrow> nat \<Rightarrow> field" where
  [simp]: "newIndirectField id1 key dt len1 =
     indirectField \<lparr>fid = id1, fkey = key, ordinal = 0, flength = len1, fgreedy = False, dataType = dt\<rparr>"

definition newNormalField :: "nat \<Rightarrow> string \<Rightarrow> string \<Rightarrow> nat \<Rightarrow> nat \<Rightarrow> bool \<Rightarrow> field" where
  [simp]: "newNormalField id1 key dt ord1 len1 g =
     normalField \<lparr>fid = id1, fkey = key, ordinal = ord1, flength = len1, fgreedy = g, dataType = dt\<rparr>"

definition newField :: "nat \<Rightarrow> string \<Rightarrow> delimiter \<Rightarrow> (dissect_error, field) outcome" where
  "newField id1 rawKey prev =
     (if length rawKey = 0 then Ok (newSkipField id1)
      else bind_outcome (extractKeyParts rawKey) (\<lambda>(key, ord1, len1, g, dt).
        if suffix ''|'' rawKey then Err ErrMissingDatatype
        else if length dt > 0 \<and> map_of dataTypeNames dt = None then Err ErrInvalidDatatype
        else if prefix ''+&'' key then Err ErrMixedPrefixIndirectAppend
        else if prefix ''&+'' key then Err ErrMixedPrefixAppendIndirect
        else if prefix ''?'' key then
          Ok (newNamedSkipField id1 (drop 1 key) len1)
        else if prefix ''*'' key then
          Ok (newPointerField id1 (drop 1 key) len1)
        else if prefix ''+'' key then
          Ok (newAppendField id1 (drop 1 key) ord1 len1 g prev)
        else if prefix ''&'' key then
          Ok (newIndirectField id1 (drop 1 key) dt len1)
        else
          Ok (newNormalField id1 key dt ord1 len1 g)))"

section \<open>The parser of tokenizers\<close>

record parser =
  delimiters :: "delimiter list"
  pfields :: "field list"
  fieldsIDMap :: "(nat, nat) gomap"
  referenceFields :: "field list"

text \<open>
  One match of \<open>delimiterRE\<close>: the text before the first \<open>%{\<close>, the key up to the next \<open>}\<close>, and the text
  behind it. When that \<open>%{\<close> has no \<open>}\<close> behind it, a later one has none either.
\<close>

definition nextToken :: "string \<Rightarrow> (string \<times> string \<times> string) option" where
  "nextToken t =
     (case go_index t ''%{'' of
        None \<Rightarrow> None
      | Some n \<Rightarrow>
          (case cut_byte CHR ''}'' (drop (n + 2) t) of
             None \<Rightarrow> None
           | Some (key, rest) \<Rightarrow> Some (take n t, key, rest)))"

lemma nextToken_length: "nextToken t = Some (d, key, rest) \<Longrightarrow> length rest < length t"
  by (auto simp: nextToken_def split: option.splits dest!: cut_byte_length)

text \<open>All matches, and the text behind the last one.\<close>

function tokens :: "string \<Rightarrow> (string \<times> string) list \<times> string" where
  "tokens t =
     (case nextToken t of
        None \<Rightarrow> ([], t)
      | Some (d, key, rest) \<Rightarrow> (case tokens rest of (ts, r) \<Rightarrow> ((d, key) # ts, r)))"
  by pat_completeness auto
termination
  by (relation "measure length") (auto dest: nextToken_length)

declare tokens.simps [simp del]

text \<open>The loop over the matches.\<close>

fun parseTokens :: "nat \<Rightarrow> (string \<times> string) list \<Rightarrow> (dissect_error, (delimiter \<times> field) list) outcome" where
  "parseTokens id1 [] = Ok []"
| "parseTokens id1 ((dtext, key) # ts) =
     (let d = newDelimiter dtext in
      bind_outcome (newField id1 key d) (\<lambda>f.
      bind_outcome (parseTokens (id1 + 1) ts) (\<lambda>dfs.
      Ok ((if fgreedy (base f) then MarkGreedy d else d, f) # dfs))))"

fun indexIDs :: "nat \<Rightarrow> field list \<Rightarrow> (nat, nat) gomap \<Rightarrow> (nat, nat) gomap" where
  "indexIDs i [] m = m"
| "indexIDs i (f # fs) m = indexIDs (i + 1) fs (map_put (fieldID f) i m)"

definition newParser :: "(field list \<Rightarrow> field list) \<Rightarrow> string \<Rightarrow> (dissect_error, parser) outcome" where
  "newParser sortFields tokenizer =
     (case tokens tokenizer of
        ([], _) \<Rightarrow> Err ErrInvalidTokenizer
      | (ts, rest) \<Rightarrow>
          bind_outcome (parseTokens 0 ts) (\<lambda>dfs.
            let ds = map fst dfs @ (if rest \<noteq> [] then [newDelimiter rest] else []);
                fs = sortFields (map snd dfs)
            in Ok \<lparr>delimiters = ds, pfields = fs, fieldsIDMap = indexIDs 0 fs [],
                   referenceFields = filter (\<lambda>f. \<not> IsSaveable f) fs\<rparr>))"

fun isIndirectField :: "field \<Rightarrow> bool" where
  "isIndirectField (indirectField _) = True"
| "isIndirectField _ = False"

fun firstMissing :: "field list \<Rightarrow> field list \<Rightarrow> string option" where
  "firstMissing [] refs = None"
| "firstMissing (f # fs) refs =
     (if \<exists>r \<in> set refs. fieldKey r = fieldKey f then firstMissing fs refs else Some (fieldKey f))"

definition validate :: "parser \<Rightarrow> (dissect_error, unit) outcome" where
  "validate p =
     (case firstMissing (filter isIndirectField (pfields p)) (referenceFields p) of
        Some k \<Rightarrow> Err (ErrMissingReference k)
      | None \<Rightarrow> Ok ())"

record Dissector =
  raw :: string
  dparser :: parser

definition New :: "(field list \<Rightarrow> field list) \<Rightarrow> string \<Rightarrow> (dissect_error, Dissector) outcome" where
  "New sortFields tokenizer =
     bind_outcome (newParser sortFields tokenizer) (\<lambda>p.
     bind_outcome (validate p) (\<lambda>_. Ok \<lparr>raw = tokenizer, dparser = p\<rparr>))"

section \<open>Extraction\<close>

type_synonym position = "nat \<times> nat"

text \<open>The field whose turn it is; a missing entry of a Go map reads as 0.\<close>

definition fieldAt :: "parser \<Rightarrow> nat \<Rightarrow> field" where
  "fieldAt p i = pfields p ! (case map_of (fieldsIDMap p) i of Some j \<Rightarrow> j | None \<Rightarrow> 0)"

partial_function (option) greedyLoop :: "delimiter \<Rightarrow> string \<Rightarrow> nat \<Rightarrow> (unit, nat) outcome option" where
  "greedyLoop nx s offset =
     (case IndexOf nx s (offset + 1) of
        Ok (Some lookahead) \<Rightarrow>
          if lookahead \<noteq> offset + 1 then Some (Ok offset) else greedyLoop nx s lookahead
      | Ok None \<Rightarrow> Some (Ok offset)
      | _ \<Rightarrow> Some Panic)"

text \<open>Where the value of the current field ends.\<close>

definition fieldEnd :: "field \<Rightarrow> delimiter \<Rightarrow> string \<Rightarrow> nat \<Rightarrow> (dissect_error, nat) outcome" where
  "fieldEnd f nx s offset =
     (if IsFixedLength f then
        (if offset + flength (base f) > length s
         then (if offset \<le> length s then Err ErrFieldLength else Panic)
         else Ok (offset + flength (base f)))
      else (case IndexOf nx s offset of
              Ok (Some e) \<Rightarrow> Ok e
            | Ok None \<Rightarrow> Err ErrDelimiterNotFound
            | _ \<Rightarrow> Panic))"

text \<open>The loop over the delimiters: \<open>d # nx # ds\<close> is the rest of the chain.\<close>

fun extractFrom :: "parser \<Rightarrow> string \<Rightarrow> delimiter list \<Rightarrow> nat \<Rightarrow> nat \<Rightarrow> position list \<Rightarrow>
    (dissect_error, nat \<times> nat \<times> position list) outcome option" where
  "extractFrom p s (d # nx # ds) i offset ps =
     (case fieldEnd (fieldAt p i) nx s offset of
        Err e \<Rightarrow> Some (Err e)
      | Panic \<Rightarrow> Some Panic
      | Ok e \<Rightarrow>
          (case (if IsGreedy d then greedyLoop nx s e else Some (Ok e)) of
             None \<Rightarrow> None
           | Some (Ok offset') \<Rightarrow>
               if i < length ps
               then extractFrom p s (nx # ds) (i + 1) (offset' + Len nx) (ps[i := (offset, e)])
               else Some Panic
           | Some _ \<Rightarrow> Some Panic))"
| "extractFrom p s ds i offset ps = Some (Ok (i, offset, ps))"

definition extractPositions :: "parser \<Rightarrow> string \<Rightarrow> (dissect_error, position list) outcome option" where
  "extractPositions p s =
     (let dl = hd (delimiters p) in
      case IndexOf dl s 0 of
        Ok (Some 0) \<Rightarrow>
          (case extractFrom p s (delimiters p) 0 (Len dl) (replicate (length (pfields p)) (0, 0)) of
             None \<Rightarrow> None
           | Some (Ok (i, offset, ps)) \<Rightarrow>
               (let f = fieldAt p i in
                if IsFixedLength f \<and> offset + flength (base f) \<noteq> length s then Some (Err ErrLastFixedLength)
                else if offset < length s \<and> i < length (pfields p)
                then Some (Ok (ps[i := (offset, length s)]))
                else Some (Ok ps))
           | Some (Err e) \<Rightarrow> Some (Err e)
           | Some Panic \<Rightarrow> Some Panic)
      | Ok _ \<Rightarrow> Some (Err ErrBeginningDelimiter)
      | _ \<Rightarrow> Some Panic)"

section \<open>Resolution\<close>

text \<open>\<open>s[start:end]\<close>, \<open>None\<close> out of bounds.\<close>

definition slice :: "string \<Rightarrow> position \<Rightarrow> string option" where
  "slice s pos =
     (case pos of (a, b) \<Rightarrow> if a \<le> b \<and> b \<le> length s then Some (take (b - a) (drop a s)) else None)"

fun applyFields :: "string \<Rightarrow> position list \<Rightarrow> field list \<Rightarrow> Map \<Rightarrow> (dissect_error, Map) outcome" where
  "applyFields s ps [] m = Ok m"
| "applyFields s ps (f # fs) m =
     (if fieldID f < length ps then
        (case slice s (ps ! fieldID f) of
           None \<Rightarrow> Panic
         | Some b \<Rightarrow> applyFields s ps fs (Apply f b m))
      else Panic)"

definition resolve :: "parser \<Rightarrow> string \<Rightarrow> position list \<Rightarrow> (dissect_error, Map) outcome" where
  "resolve p s ps =
     bind_outcome (applyFields s ps (pfields p) [])
       (\<lambda>m. Ok (fold (\<lambda>f m. map_del (fieldKey f) m) (referenceFields p) m))"

type_synonym trimmer = "string \<Rightarrow> nat \<Rightarrow> nat \<Rightarrow> nat \<times> nat"

definition trimAll :: "trimmer option \<Rightarrow> string \<Rightarrow> position list \<Rightarrow> position list" where
  "trimAll t s ps = (case t of None \<Rightarrow> ps | Some trim \<Rightarrow> map (\<lambda>(a, b). trim s a b) ps)"

definition Dissect :: "trimmer option \<Rightarrow> Dissector \<Rightarrow> string \<Rightarrow> (dissect_error, Map) outcome option" where
  "Dissect t d s =
     (if length s = 0 then Some (Err ErrEmpty)
      else (case extractPositions (dparser d) s of
              None \<Rightarrow> None
            | Some (Err e) \<Rightarrow> Some (Err e)
            | Some Panic \<Rightarrow> Some Panic
            | Some (Ok ps) \<Rightarrow>
                if length ps = 0 then Some (Err ErrParsingFailure)
                else Some (resolve (dparser d) s (trimAll t s ps))))"

section \<open>Conversion to the data type of a field\<close>

text \<open>
  The values of the converted map. \<open>strconv.ParseFloat\<close> and \<open>net.ParseIP\<close> are arguments: the first by
  its bit size, the second as a test.
\<close>

datatype 'f dval = DStr string | DLong int | DInt int | DFloat 'f | DBool bool

text \<open>A number in base 16: digits with single underscores between them, as \<open>ParseInt\<close> with base 0 takes.\<close>

definition hex_val :: "char \<Rightarrow> nat option" where
  "hex_val c =
     (let n = of_char (lower_byte c) :: nat in
      if is_digit c then Some (digit_val c)
      else if 97 \<le> n \<and> n \<le> 102 then Some (n - 87) else None)"

text \<open>The flag tells that an underscore may come next, that is, that the last byte was a digit or the prefix.\<close>

fun hexDigits :: "bool \<Rightarrow> nat \<Rightarrow> string \<Rightarrow> nat option" where
  "hexDigits sep acc [] = (if sep then Some acc else None)"
| "hexDigits sep acc (c # cs) =
     (if c = CHR ''_'' then (if sep then hexDigits False acc cs else None)
      else (case hex_val c of Some d \<Rightarrow> hexDigits True (16 * acc + d) cs | None \<Rightarrow> None))"

definition parseHex :: "string \<Rightarrow> nat option" where
  "parseHex s = (if s = [] then None else hexDigits True 0 s)"

definition fits_bits :: "nat \<Rightarrow> int \<Rightarrow> bool" where
  "fits_bits bitSize n \<longleftrightarrow> - (2 ^ (bitSize - 1)) \<le> n \<and> n < 2 ^ (bitSize - 1)"

definition parseDec :: "string \<Rightarrow> int option" where
  "parseDec s =
     (case s of
        [] \<Rightarrow> None
      | c # cs \<Rightarrow>
          if c = CHR ''-'' then map_option (\<lambda>n. - int n) (parse_nat cs)
          else map_option int (parse_nat (if c = CHR ''+'' then cs else s)))"

definition strToInt :: "string \<Rightarrow> nat \<Rightarrow> int option" where
  "strToInt s bitSize =
     (let n = (if prefix ''0x'' s \<or> prefix ''0X'' s then map_option int (parseHex (drop 2 s)) else parseDec s)
      in case n of Some i \<Rightarrow> if fits_bits bitSize i then Some i else None | None \<Rightarrow> None)"

definition parseBool :: "string \<Rightarrow> bool option" where
  "parseBool s =
     (if s \<in> set [''1'', ''t'', ''T'', ''TRUE'', ''true'', ''True''] then Some True
      else if s \<in> set [''0'', ''f'', ''F'', ''FALSE'', ''false'', ''False''] then Some False
      else None)"

definition transformType :: "(string \<Rightarrow> nat \<Rightarrow> 'f option) \<Rightarrow> (string \<Rightarrow> bool) \<Rightarrow> dataTypeT \<Rightarrow> string \<Rightarrow> 'f dval option" where
  "transformType parseFloat isIP typ value0 =
     (let value = trim_right_byte CHR '' '' value0 in
      case typ of
        StringT \<Rightarrow> Some (DStr value)
      | Long \<Rightarrow> map_option DLong (strToInt value 64)
      | Integer \<Rightarrow> map_option DInt (strToInt value 32)
      | Float \<Rightarrow> map_option DFloat (parseFloat value 32)
      | Double \<Rightarrow> map_option DFloat (parseFloat value 64)
      | Boolean \<Rightarrow> map_option DBool (parseBool value)
      | IP \<Rightarrow> if isIP value then Some (DStr value) else None)"

definition convertData :: "(string \<Rightarrow> nat \<Rightarrow> 'f option) \<Rightarrow> (string \<Rightarrow> bool) \<Rightarrow> string \<Rightarrow> string \<Rightarrow> 'f dval" where
  "convertData parseFloat isIP typ b =
     (case map_of dataTypeNames typ of
        Some dt \<Rightarrow> (case transformType parseFloat isIP dt b of Some v \<Rightarrow> v | None \<Rightarrow> DStr b)
      | None \<Rightarrow> DStr b)"

text \<open>
  The loop of \<open>resolveConvert\<close>: the lookup of the reference fields, the map of strings and the map of
  converted values.
\<close>

fun convertFields :: "(string \<Rightarrow> string \<Rightarrow> 'f dval) \<Rightarrow> string \<Rightarrow> position list \<Rightarrow> field list \<Rightarrow>
    Map \<Rightarrow> Map \<Rightarrow> (string, 'f dval) gomap \<Rightarrow> (dissect_error, (string, 'f dval) gomap) outcome" where
  "convertFields conv s ps [] look m mc = Ok mc"
| "convertFields conv s ps (f # fs) look m mc =
     (if fieldID f < length ps then
        (case slice s (ps ! fieldID f) of
           None \<Rightarrow> Panic
         | Some b \<Rightarrow>
             (let m' = Apply f b m in
              if \<not> IsSaveable f then convertFields conv s ps fs (map_put (fieldKey f) b look) m' mc
              else
                (let key = (case map_of look (fieldKey f) of Some k \<Rightarrow> k | None \<Rightarrow> fieldKey f);
                     v = (case map_of m' key of Some v \<Rightarrow> v | None \<Rightarrow> []);
                     cv = (if dataType (base f) \<noteq> [] then conv (dataType (base f)) v else DStr v)
                 in convertFields conv s ps fs look m' (map_put key cv mc))))
      else Panic)"

definition resolveConvert :: "(string \<Rightarrow> string \<Rightarrow> 'f dval) \<Rightarrow> parser \<Rightarrow> string \<Rightarrow> position list \<Rightarrow>
    (dissect_error, (string, 'f dval) gomap) outcome" where
  "resolveConvert conv p s ps =
     bind_outcome (convertFields conv s ps (pfields p) [] [] [])
       (\<lambda>mc. Ok (fold (\<lambda>f mc. map_del (fieldKey f) mc) (referenceFields p) mc))"

definition DissectConvert :: "(string \<Rightarrow> string \<Rightarrow> 'f dval) \<Rightarrow> Dissector \<Rightarrow> string \<Rightarrow>
    (dissect_error, (string, 'f dval) gomap) outcome option" where
  "DissectConvert conv d s =
     (if length s = 0 then Some (Err ErrEmpty)
      else (case extractPositions (dparser d) s of
              None \<Rightarrow> None
            | Some (Err e) \<Rightarrow> Some (Err e)
            | Some Panic \<Rightarrow> Some Panic
            | Some (Ok ps) \<Rightarrow>
                if length ps = 0 then Some (Err ErrParsingFailure)
                else Some (resolveConvert conv (dparser d) s ps)))"

end
