(* ===== verification/Dissect_Laws.thy ===== *)
theory Dissect_Laws
  imports Dissect
begin

text \<open>
  What the dissector extracts, stated against a reference that cuts the string itself instead of
  keeping offsets, and when it does not return or panics.
\<close>

section \<open>The interface of a delimiter\<close>

text \<open>
  What the dissector relies on: a search from an offset inside the string finds the first place
  where the text of the delimiter stands.
\<close>

locale needle_search =
  fixes idx :: "'d \<Rightarrow> string \<Rightarrow> nat \<Rightarrow> nat option"
    and nlen :: "'d \<Rightarrow> nat"
    and ntext :: "'d \<Rightarrow> string"
  assumes nlen_ntext: "nlen d = length (ntext d)"
    and idx_spec: "off \<le> length s \<Longrightarrow> idx d s off = map_option (\<lambda>n. n + off) (go_index (drop off s) (ntext d))"
begin

lemma idx_bounds: "off \<le> length s \<Longrightarrow> idx d s off = Some e \<Longrightarrow> off \<le> e \<and> e + nlen d \<le> length s"
  using go_index_Some [of "drop off s" "ntext d"] by (auto simp: idx_spec nlen_ntext)

lemma idx_at: "off \<le> length s \<Longrightarrow> idx d s off = Some off \<longleftrightarrow> prefix (ntext d) (drop off s)"
  by (cases "drop off s") (auto simp: idx_spec)

lemma idx_value:
  "off \<le> length s \<Longrightarrow> idx d s off = Some e \<Longrightarrow>
     \<not> sublist (ntext d) (take (e - off) (drop off s)) \<or> ntext d = []"
proof (rule ccontr)
  assume off: "off \<le> length s" and e: "idx d s off = Some e"
    and "\<not> (\<not> sublist (ntext d) (take (e - off) (drop off s)) \<or> ntext d = [])"
  then obtain a b where ab: "take (e - off) (drop off s) = a @ ntext d @ b" and ne: "ntext d \<noteq> []"
    by (auto simp: sublist_def)
  have go: "go_index (drop off s) (ntext d) = Some (e - off)" using off e by (auto simp: idx_spec)
  have "length a < e - off"
    using arg_cong [OF ab, of length] ne by (cases "ntext d") auto
  moreover have "drop off s = (a @ ntext d @ b) @ drop (e - off) (drop off s)"
    using ab by (metis append_take_drop_id)
  then have "prefix (ntext d) (drop (length a) (drop off s))"
    by (metis append.assoc append_eq_conv_conj prefixI)
  ultimately show False using go_index_least [OF go] by blast
qed

end

text \<open>The text a delimiter stands for, and its search without the panic.\<close>

fun dtext :: "delimiter \<Rightarrow> string" where
  "dtext (zeroByte _ _) = []"
| "dtext (multiByte n _) = n"

definition findFrom :: "delimiter \<Rightarrow> string \<Rightarrow> nat \<Rightarrow> nat option" where
  "findFrom d s off = (case IndexOf d s off of Ok r \<Rightarrow> r | _ \<Rightarrow> None)"

lemma go_index_empty [simp]: "go_index s [] = Some 0"
  by (cases s) auto

lemma IndexOf_findFrom: "off \<le> length s \<Longrightarrow> IndexOf d s off = Ok (findFrom d s off)"
  by (cases d) (auto simp: findFrom_def)

interpretation delim: needle_search findFrom Len dtext
proof
  show "Len d = length (dtext d)" for d by (cases d) auto
  show "off \<le> length s \<Longrightarrow> findFrom d s off = map_option (\<lambda>n. n + off) (go_index (drop off s) (dtext d))"
    for off s d by (cases d) (auto simp: findFrom_def)
qed

section \<open>The greedy loop\<close>

text \<open>How often the needle stands again one byte further.\<close>

fun runLen :: "string \<Rightarrow> string \<Rightarrow> nat" where
  "runLen n [] = 0"
| "runLen n (x # xs) = (if n \<noteq> [] \<and> prefix n xs then Suc (runLen n xs) else 0)"

lemma runLen_bound: "n \<noteq> [] \<Longrightarrow> prefix n s \<Longrightarrow> runLen n s + length n \<le> length s"
  by (induction n s rule: runLen.induct) (auto dest: prefix_length_le)

lemma findFrom_Suc:
  "off < length s \<Longrightarrow> findFrom nx s (Suc off) = Some (Suc off) \<longleftrightarrow> prefix (dtext nx) (drop (Suc off) s)"
  by (simp add: delim.idx_at)

lemma greedyLoop_multi:
  "dtext nx \<noteq> [] \<Longrightarrow> off < length s \<Longrightarrow>
     greedyLoop nx s off = Some (Ok (off + runLen (dtext nx) (drop off s)))"
proof (induction "length s - off" arbitrary: off rule: less_induct)
  case less
  have d: "drop off s = s ! off # drop (Suc off) s" using less.prems by (simp add: Cons_nth_drop_Suc)
  have ix: "IndexOf nx s (Suc off) = Ok (findFrom nx s (Suc off))"
    using less.prems by (simp add: IndexOf_findFrom)
  show ?case
  proof (cases "prefix (dtext nx) (drop (Suc off) s)")
    case True
    then have lt: "Suc off < length s" using less.prems prefix_length_le [OF True]
      by (cases "dtext nx") auto
    have "greedyLoop nx s off = greedyLoop nx s (Suc off)"
      using True findFrom_Suc [of off s nx] less.prems by (subst greedyLoop.simps) (simp add: ix)
    also have "\<dots> = Some (Ok (Suc off + runLen (dtext nx) (drop (Suc off) s)))"
      using less lt by simp
    finally show ?thesis using True less.prems by (simp add: d)
  next
    case False
    then have "findFrom nx s (Suc off) \<noteq> Some (Suc off)" using findFrom_Suc [of off s nx] less.prems by simp
    then show ?thesis
      using False by (subst greedyLoop.simps) (auto simp: ix d split: option.splits)
  qed
qed

text \<open>A zero-byte delimiter is found everywhere: the loop does not end.\<close>

lemma greedyLoop_zero: "greedyLoop (zeroByte n g) s off = None"
proof (cases "greedyLoop (zeroByte n g) s off")
  case (Some y)
  have "d = zeroByte n g \<longrightarrow> False" if "greedyLoop d s off = Some y" for d
    by (rule greedyLoop.raw_induct [OF _ that])
      (force split: outcome.splits option.splits if_splits)
  with Some show ?thesis by blast
qed simp

section \<open>Extraction against a reference\<close>

text \<open>
  The reference: cut off the text up to the next delimiter, drop the delimiter (with its
  repetitions after a greedy field), go on with the rest. The result is the list of values and the
  text behind the last delimiter.
\<close>

fun cutRef :: "delimiter list \<Rightarrow> string \<Rightarrow> (string list \<times> string) option" where
  "cutRef (d # nx # ds) s =
     (case go_index s (dtext nx) of
        None \<Rightarrow> None
      | Some n \<Rightarrow>
          (let k = (if IsGreedy d then runLen (dtext nx) (drop n s) else 0) in
           map_option (\<lambda>(vs, rest). (take n s # vs, rest)) (cutRef (nx # ds) (drop (n + k + Len nx) s))))"
| "cutRef ds s = Some ([], s)"

text \<open>No greedy field is directly followed by another field.\<close>

fun chain_ok :: "delimiter list \<Rightarrow> bool" where
  "chain_ok (d # nx # ds) \<longleftrightarrow> (IsGreedy d \<longrightarrow> dtext nx \<noteq> []) \<and> chain_ok (nx # ds)"
| "chain_ok ds \<longleftrightarrow> True"

lemma cutRef_length: "cutRef ds s = Some (vs, rest) \<Longrightarrow> length vs = length ds - 1"
  by (induction ds s arbitrary: vs rest rule: cutRef.induct)
    (auto split: option.splits if_splits simp: Let_def)

lemma slice_take: "off + n \<le> length s \<Longrightarrow> slice s (off, off + n) = Some (take n (drop off s))"
  by (simp add: slice_def)

text \<open>
  The result \<open>r\<close> of the loop started at field \<open>i\<close> agrees with the result of the reference: the
  positions from \<open>i\<close> on are those of the values, the others are as before.
\<close>

definition agrees :: "string \<Rightarrow> position list \<Rightarrow> nat \<Rightarrow> (string list \<times> string) option \<Rightarrow>
    (dissect_error, nat \<times> nat \<times> position list) outcome option \<Rightarrow> bool" where
  "agrees s ps i ref r \<longleftrightarrow>
     (case ref of
        None \<Rightarrow> r = Some (Err ErrDelimiterNotFound)
      | Some (vs, rest) \<Rightarrow> (\<exists>off' ps'. r = Some (Ok (i + length vs, off', ps')) \<and>
          off' \<le> length s \<and> rest = drop off' s \<and> length ps' = length ps \<and>
          (\<forall>j < length vs. slice s (ps' ! (i + j)) = Some (vs ! j)) \<and>
          (\<forall>j. j < i \<or> i + length vs \<le> j \<longrightarrow> ps' ! j = ps ! j)))"

lemma agrees_Cons:
  assumes "agrees s (ps[i := pos]) (i + 1) ref r" and "slice s pos = Some v" and "i < length ps"
  shows "agrees s ps i (map_option (\<lambda>(vs, rest). (v # vs, rest)) ref) r"
proof (cases ref)
  case None
  then show ?thesis using assms(1) by (simp add: agrees_def)
next
  case (Some vr)
  obtain vs rest where vr: "vr = (vs, rest)" by (cases vr)
  obtain off' ps' where o': "r = Some (Ok (i + 1 + length vs, off', ps'))"
      "off' \<le> length s" "rest = drop off' s" "length ps' = length (ps[i := pos])"
      "\<forall>j < length vs. slice s (ps' ! (i + 1 + j)) = Some (vs ! j)"
      "\<forall>j. j < i + 1 \<or> i + 1 + length vs \<le> j \<longrightarrow> ps' ! j = ps[i := pos] ! j"
    using assms(1) unfolding agrees_def Some vr option.case prod.case by blast
  have "slice s (ps' ! (i + j)) = Some ((v # vs) ! j)" if "j < Suc (length vs)" for j
    using that o'(5,6) assms(2,3) by (cases j) auto
  moreover have "ps' ! j = ps ! j" if "j < i \<or> i + Suc (length vs) \<le> j" for j
    using that o'(6) by auto
  ultimately show ?thesis using o' by (auto simp: agrees_def Some vr)
qed

text \<open>One turn of the loop.\<close>

lemma extractFrom_step:
  assumes "\<not> IsFixedLength (fieldAt p i)" and "IsGreedy d \<Longrightarrow> dtext nx \<noteq> []" and "off \<le> length s"
    and "go_index (drop off s) (dtext nx) = Some n" and "i < length ps"
    and "k = (if IsGreedy d then runLen (dtext nx) (drop n (drop off s)) else 0)"
  shows "off + n + k + Len nx \<le> length s \<and>
    extractFrom p s (d # nx # ds) i off ps =
      extractFrom p s (nx # ds) (i + 1) (off + n + k + Len nx) (ps[i := (off, n + off)])"
proof -
  have pre: "prefix (dtext nx) (drop n (drop off s))" and nb: "n + length (dtext nx) \<le> length (drop off s)"
    using go_index_Some [OF assms(4)] by auto
  have kb: "off + n + k + Len nx \<le> length s"
    using runLen_bound [OF assms(2) pre] nb assms(3,6) by (auto simp: delim.nlen_ntext)
  have end1: "fieldEnd (fieldAt p i) nx s off = Ok (n + off)"
    using assms(1,3,4) by (simp add: fieldEnd_def IndexOf_findFrom delim.idx_spec)
  have "(if IsGreedy d then greedyLoop nx s (n + off) else Some (Ok (n + off))) = Some (Ok (off + n + k))"
  proof (cases "IsGreedy d")
    case True
    then have "n + off < length s" using assms(2,3) nb by (cases "dtext nx") auto
    then show ?thesis
      using True greedyLoop_multi [OF assms(2) [OF True], of "n + off" s] by (simp add: assms(6) ac_simps)
  qed (simp add: assms(6) ac_simps)
  then show ?thesis using kb assms(5) by (simp add: end1)
qed

lemma extractFrom_ref:
  assumes "\<And>j. \<not> IsFixedLength (fieldAt p j)" and "chain_ok ds" and "off \<le> length s"
    and "i + length ds \<le> Suc (length ps)" and "ds \<noteq> []"
  shows "agrees s ps i (cutRef ds (drop off s)) (extractFrom p s ds i off ps)"
  using assms
proof (induction ds arbitrary: i off ps)
  case (Cons d ds)
  show ?case
  proof (cases ds)
    case Nil
    then show ?thesis using Cons.prems by (simp add: agrees_def)
  next
    case ds: (Cons nx ds')
    show ?thesis
    proof (cases "go_index (drop off s) (dtext nx)")
      case None
      then have "fieldEnd (fieldAt p i) nx s off = Err ErrDelimiterNotFound"
        using Cons.prems(1,3) by (simp add: fieldEnd_def IndexOf_findFrom delim.idx_spec)
      then show ?thesis using None by (simp add: ds agrees_def)
    next
      case (Some n)
      define k where "k = (if IsGreedy d then runLen (dtext nx) (drop n (drop off s)) else 0)"
      have step: "off + n + k + Len nx \<le> length s \<and>
          extractFrom p s (d # nx # ds') i off ps =
            extractFrom p s (nx # ds') (i + 1) (off + n + k + Len nx) (ps[i := (off, n + off)])"
        by (rule extractFrom_step [OF _ _ _ Some _ k_def]) (use Cons.prems ds in auto)
      have ref: "cutRef (d # ds) (drop off s) = map_option (\<lambda>(vs, rest). (take n (drop off s) # vs, rest))
          (cutRef ds (drop (off + n + k + Len nx) s))"
        by (simp add: ds Some Let_def k_def ac_simps)
      have "slice s (off, n + off) = Some (take n (drop off s))"
        using slice_take [of off n s] step by (simp add: ac_simps)
      moreover have "agrees s (ps[i := (off, n + off)]) (i + 1) (cutRef ds (drop (off + n + k + Len nx) s))
          (extractFrom p s ds (i + 1) (off + n + k + Len nx) (ps[i := (off, n + off)]))"
        by (rule Cons.IH) (use Cons.prems ds step in auto)
      ultimately show ?thesis
        using Cons.prems(4) ds step unfolding ref by (intro agrees_Cons) auto
    qed
  qed
qed simp

section \<open>Parsers built by newParser\<close>

text \<open>
  The fields carry the numbers from 0, one per delimiter in front of a field, the map finds them,
  and at most one delimiter is left behind the last field.
\<close>

definition wf_parser :: "parser \<Rightarrow> bool" where
  "wf_parser p \<longleftrightarrow>
     pfields p \<noteq> [] \<and> delimiters p \<noteq> [] \<and>
     (length (delimiters p) = length (pfields p) \<or> length (delimiters p) = Suc (length (pfields p))) \<and>
     mset (map fieldID (pfields p)) = mset [0..<length (pfields p)] \<and>
     (\<forall>j < length (pfields p). map_of (fieldsIDMap p) (fieldID (pfields p ! j)) = Some j) \<and>
     (\<forall>k \<ge> length (pfields p). map_of (fieldsIDMap p) k = None) \<and>
     referenceFields p = filter (\<lambda>f. \<not> IsSaveable f) (pfields p)"

lemma newField_id: "newField n key d = Ok f \<Longrightarrow> fieldID f = n"
  by (auto simp: newField_def split: if_splits)

lemma parseTokens_ids: "parseTokens n ts = Ok dfs \<Longrightarrow>
    length dfs = length ts \<and> map (fieldID \<circ> snd) dfs = [n..<n + length ts]"
proof (induction n ts arbitrary: dfs rule: parseTokens.induct)
  case (2 n dtext key ts)
  then obtain f dfs' d where f: "newField n key (newDelimiter dtext) = Ok f"
    and dfs': "parseTokens (n + 1) ts = Ok dfs'" and dfs: "dfs = (d, f) # dfs'"
    by (auto simp: Let_def)
  have "[n..<n + length ((dtext, key) # ts)] = n # [n + 1..<n + 1 + length ts]"
    by (simp add: upt_conv_Cons del: upt_Suc)
  with 2(1) [OF refl f dfs'] newField_id [OF f] show ?case by (simp add: dfs del: upt_Suc)
qed simp

lemma indexIDs_other: "k \<notin> fieldID ` set fs \<Longrightarrow> map_of (indexIDs i fs m) k = map_of m k"
  by (induction i fs m rule: indexIDs.induct) auto

lemma indexIDs_nth:
  "distinct (map fieldID fs) \<Longrightarrow> j < length fs \<Longrightarrow> map_of (indexIDs i fs m) (fieldID (fs ! j)) = Some (i + j)"
proof (induction i fs m arbitrary: j rule: indexIDs.induct)
  case (2 i f fs m)
  then show ?case using indexIDs_other [of "fieldID f" fs] by (cases j) auto
qed simp

lemma newParser_wf:
  assumes "slice_sorter sortFields (ordinal \<circ> base)" and "newParser sortFields tokenizer = Ok p"
  shows "wf_parser p"
proof -
  obtain ts rest where ts: "tokens tokenizer = (ts, rest)" "ts \<noteq> []"
    using assms(2) by (cases "tokens tokenizer"; cases "fst (tokens tokenizer)") (auto simp: newParser_def)
  obtain dfs where dfs: "parseTokens 0 ts = Ok dfs"
    and p: "p = \<lparr>delimiters = map fst dfs @ (if rest \<noteq> [] then [newDelimiter rest] else []),
      pfields = sortFields (map snd dfs), fieldsIDMap = indexIDs 0 (sortFields (map snd dfs)) [],
      referenceFields = filter (\<lambda>f. \<not> IsSaveable f) (sortFields (map snd dfs))\<rparr>"
    using assms(2) ts by (cases ts) (auto simp: newParser_def Let_def)
  let ?fs = "sortFields (map snd dfs)"
  have ms: "mset ?fs = mset (map snd dfs)" using assms(1) by (rule slice_sorter.srt_mset)
  have len: "length ?fs = length ts" using arg_cong [OF ms, of size] parseTokens_ids [OF dfs] by simp
  have ids: "mset (map fieldID ?fs) = mset [0..<length ts]"
    using parseTokens_ids [OF dfs] ms by (metis add_0 map_map mset_map)
  then have dist: "distinct (map fieldID ?fs)" using mset_eq_imp_distinct_iff by (metis distinct_upt)
  have idset: "fieldID ` set ?fs = {0..<length ts}"
    using arg_cong [OF ids, of set_mset] by auto
  show ?thesis
    using ts len ids indexIDs_nth [OF dist] indexIDs_other [of _ ?fs 0 "[]"] parseTokens_ids [OF dfs] idset
    by (auto simp: wf_parser_def p)
qed

text \<open>The field whose turn it is, is the one with that number.\<close>

lemma fieldAt_id:
  assumes "wf_parser p" and "k < length (pfields p)"
  shows "fieldAt p k \<in> set (pfields p) \<and> fieldID (fieldAt p k) = k"
proof -
  have "k \<in> set (map fieldID (pfields p))"
    using assms by (metis atLeastLessThan_iff mset_eq_setD set_upt wf_parser_def zero_le)
  then obtain j where j: "j < length (pfields p)" "fieldID (pfields p ! j) = k"
    by (auto simp: in_set_conv_nth)
  then show ?thesis using assms(1) by (auto simp: wf_parser_def fieldAt_def)
qed

lemma fieldAt_mem: "wf_parser p \<Longrightarrow> fieldAt p k \<in> set (pfields p)"
proof (cases "k < length (pfields p)")
  case False
  assume "wf_parser p"
  with False show ?thesis by (simp add: wf_parser_def fieldAt_def)
qed (simp add: fieldAt_id)

section \<open>The functional specification\<close>

definition no_fixed :: "parser \<Rightarrow> bool" where
  "no_fixed p \<longleftrightarrow> (\<forall>f \<in> set (pfields p). \<not> IsFixedLength f)"

text \<open>The values of the fields by number.\<close>

definition valuesRef :: "parser \<Rightarrow> string \<Rightarrow> (dissect_error, string list) outcome" where
  "valuesRef p s =
     (let d = hd (delimiters p) in
      if \<not> prefix (dtext d) s then Err ErrBeginningDelimiter
      else (case cutRef (delimiters p) (drop (Len d) s) of
              None \<Rightarrow> Err ErrDelimiterNotFound
            | Some (vs, rest) \<Rightarrow> Ok (if length vs < length (pfields p) then vs @ [rest] else vs)))"

lemma extract_ref:
  assumes "wf_parser p" and "no_fixed p" and "chain_ok (delimiters p)"
  shows "case valuesRef p s of
      Ok vs \<Rightarrow> \<exists>ps. extractPositions p s = Some (Ok ps) \<and> map (slice s) ps = map Some vs \<and> length vs = length (pfields p)
    | Err e \<Rightarrow> extractPositions p s = Some (Err e)
    | Panic \<Rightarrow> False"
proof (cases "prefix (dtext (hd (delimiters p))) s")
  case False
  then have "findFrom (hd (delimiters p)) s 0 \<noteq> Some 0" using delim.idx_at [of 0 s] by simp
  then show ?thesis
    using False by (auto simp: valuesRef_def Let_def extractPositions_def IndexOf_findFrom split: option.splits nat.splits)
next
  case True
  let ?d = "hd (delimiters p)" and ?ps0 = "replicate (length (pfields p)) (0, 0)"
  have i0: "IndexOf ?d s 0 = Ok (Some 0)" using True delim.idx_at [of 0 s ?d] by (simp add: IndexOf_findFrom)
  have nf: "\<not> IsFixedLength (fieldAt p j)" for j
    using assms(1,2) fieldAt_mem by (simp add: no_fixed_def)
  have off: "Len ?d \<le> length s" using prefix_length_le [OF True] by (simp add: delim.nlen_ntext)
  have ag: "agrees s ?ps0 0 (cutRef (delimiters p) (drop (Len ?d) s))
      (extractFrom p s (delimiters p) 0 (Len ?d) ?ps0)"
    by (rule extractFrom_ref [OF nf assms(3) off]) (use assms(1) in \<open>auto simp: wf_parser_def\<close>)
  show ?thesis
  proof (cases "cutRef (delimiters p) (drop (Len ?d) s)")
    case None
    then show ?thesis using ag True i0 by (simp add: valuesRef_def Let_def extractPositions_def agrees_def)
  next
    case (Some vr)
    obtain vs rest where vr: "vr = (vs, rest)" by (cases vr)
    obtain off' ps' where o': "extractFrom p s (delimiters p) 0 (Len ?d) ?ps0 = Some (Ok (length vs, off', ps'))"
        "off' \<le> length s" "rest = drop off' s" "length ps' = length (pfields p)"
        "\<forall>j < length vs. slice s (ps' ! j) = Some (vs ! j)" "\<forall>j. length vs \<le> j \<longrightarrow> ps' ! j = ?ps0 ! j"
      using ag by (auto simp: agrees_def Some vr)
    have len: "length vs = length (delimiters p) - 1" using cutRef_length Some vr by blast
    then have lv: "length vs = length (pfields p) \<or> Suc (length vs) = length (pfields p)"
      using assms(1) by (auto simp: wf_parser_def)
    let ?ps = "if off' < length s \<and> length vs < length (pfields p) then ps'[length vs := (off', length s)] else ps'"
    have ex: "extractPositions p s = Some (Ok ?ps)" using i0 o'(1) nf by (simp add: extractPositions_def)
    have "map (slice s) ?ps = map Some (if length vs < length (pfields p) then vs @ [rest] else vs)"
      using lv o' by (intro nth_equalityI) (auto simp: nth_append slice_def nth_list_update less_Suc_eq)
    then show ?thesis
      using ex True Some vr lv by (auto simp: valuesRef_def Let_def)
  qed
qed

section \<open>Resolution of the fields\<close>

text \<open>The fields applied to their values in order of their ordinals, then the references removed.\<close>

definition resolveRef :: "parser \<Rightarrow> string list \<Rightarrow> Map" where
  "resolveRef p vs =
     fold (\<lambda>f m. map_del (fieldKey f) m) (referenceFields p)
       (foldl (\<lambda>m f. Apply f (vs ! fieldID f) m) [] (pfields p))"

lemma applyFields_ref:
  assumes "map (slice s) ps = map Some vs" and "\<And>f. f \<in> set fs \<Longrightarrow> fieldID f < length vs"
  shows "applyFields s ps fs m = Ok (foldl (\<lambda>m f. Apply f (vs ! fieldID f) m) m fs)"
  using assms(2)
proof (induction fs arbitrary: m)
  case (Cons f fs)
  have len: "length ps = length vs" using assms(1) by (metis length_map)
  with Cons.prems have lt: "fieldID f < length ps" by simp
  have "slice s (ps ! fieldID f) = Some (vs ! fieldID f)"
    using assms(1) lt len by (metis nth_map)
  with Cons lt show ?case by simp
qed simp

lemma ids_less: "wf_parser p \<Longrightarrow> f \<in> set (pfields p) \<Longrightarrow> fieldID f < length (pfields p)"
proof -
  assume wf: "wf_parser p" and f: "f \<in> set (pfields p)"
  have "set_mset (mset (map fieldID (pfields p))) = set_mset (mset [0..<length (pfields p)])"
    using wf by (simp only: wf_parser_def)
  then show ?thesis using f by auto
qed

lemma Dissect_ref:
  assumes "wf_parser (dparser d)" and "no_fixed (dparser d)" and "chain_ok (delimiters (dparser d))"
  shows "Dissect None d s = Some (if s = [] then Err ErrEmpty
    else (case valuesRef (dparser d) s of
            Ok vs \<Rightarrow> Ok (resolveRef (dparser d) vs) | Err e \<Rightarrow> Err e | Panic \<Rightarrow> Panic))"
proof (cases "valuesRef (dparser d) s")
  case (Ok vs)
  then obtain ps where ps: "extractPositions (dparser d) s = Some (Ok ps)" "map (slice s) ps = map Some vs"
      "length vs = length (pfields (dparser d))"
    using extract_ref [OF assms, of s] by auto
  have "length ps = length vs" using ps(2) by (metis length_map)
  then have "ps \<noteq> []" using ps(3) assms(1) by (auto simp: wf_parser_def)
  moreover have "resolve (dparser d) s ps = Ok (resolveRef (dparser d) vs)"
    using applyFields_ref [OF ps(2), of "pfields (dparser d)"] ids_less [OF assms(1)] ps(3)
    by (simp add: resolve_def resolveRef_def)
  ultimately show ?thesis using ps(1) Ok by (simp add: Dissect_def trimAll_def)
next
  case (Err e)
  then show ?thesis using extract_ref [OF assms, of s] by (simp add: Dissect_def)
next
  case Panic
  then show ?thesis using extract_ref [OF assms, of s] by simp
qed

lemma New_wf:
  "slice_sorter sortFields (ordinal \<circ> base) \<Longrightarrow> New sortFields tokenizer = Ok d \<Longrightarrow>
     wf_parser (dparser d) \<and> raw d = tokenizer \<and>
     (\<forall>f \<in> set (pfields (dparser d)). isIndirectField f \<longrightarrow>
        (\<exists>r \<in> set (pfields (dparser d)). \<not> IsSaveable r \<and> fieldKey r = fieldKey f))"
proof -
  have miss: "firstMissing fs refs = None \<Longrightarrow> f \<in> set fs \<Longrightarrow> \<exists>r \<in> set refs. fieldKey r = fieldKey f" for fs refs f
    by (induction fs refs rule: firstMissing.induct) (auto split: if_splits)
  assume srt: "slice_sorter sortFields (ordinal \<circ> base)" and new: "New sortFields tokenizer = Ok d"
  obtain p where p: "newParser sortFields tokenizer = Ok p" "validate p = Ok ()" "d = \<lparr>raw = tokenizer, dparser = p\<rparr>"
    using new by (auto simp: New_def)
  note wf = newParser_wf [OF srt p(1)]
  have "firstMissing (filter isIndirectField (pfields p)) (referenceFields p) = None"
    using p(2) by (simp add: validate_def split: option.splits)
  from miss [OF this] have "\<exists>r \<in> set (referenceFields p). fieldKey r = fieldKey f"
    if "f \<in> set (pfields p)" "isIndirectField f" for f
    using that by simp
  then show ?thesis using wf p(3) by (force simp: wf_parser_def)
qed

text \<open>Only normal fields: each key gets the value of its field.\<close>

fun isNormal :: "field \<Rightarrow> bool" where
  "isNormal (normalField _) = True"
| "isNormal _ = False"

lemma foldl_normal_other:
  "list_all isNormal fs \<Longrightarrow> k \<notin> fieldKey ` set fs \<Longrightarrow>
     map_of (foldl (\<lambda>m f. Apply f (vs ! fieldID f) m) m fs) k = map_of m k"
proof (induction fs arbitrary: m)
  case (Cons f fs)
  then show ?case by (cases f) auto
qed simp

lemma foldl_normal:
  "list_all isNormal fs \<Longrightarrow> distinct (map fieldKey fs) \<Longrightarrow> f \<in> set fs \<Longrightarrow>
     map_of (foldl (\<lambda>m f. Apply f (vs ! fieldID f) m) m fs) (fieldKey f) = Some (vs ! fieldID f)"
proof (induction fs arbitrary: m)
  case (Cons g fs)
  show ?case
  proof (cases "f = g")
    case True
    then show ?thesis using Cons.prems foldl_normal_other [of fs "fieldKey g"] by (cases g) auto
  next
    case False
    then show ?thesis using Cons by auto
  qed
qed simp

lemma normal_references:
  assumes "wf_parser p" and "list_all isNormal (pfields p)"
  shows "referenceFields p = []"
proof -
  have "IsSaveable f" if "isNormal f" for f using that by (cases f) auto
  then show ?thesis using assms by (auto simp: wf_parser_def list_all_iff filter_empty_conv)
qed

lemma resolveRef_normal:
  assumes "wf_parser p" and "list_all isNormal (pfields p)" and "distinct (map fieldKey (pfields p))"
    and "f \<in> set (pfields p)"
  shows "map_of (resolveRef p vs) (fieldKey f) = Some (vs ! fieldID f)"
  using normal_references [OF assms(1,2)] foldl_normal [OF assms(2-4)] by (simp add: resolveRef_def)

lemma resolveRef_normal_other:
  assumes "wf_parser p" and "list_all isNormal (pfields p)" and "k \<notin> fieldKey ` set (pfields p)"
  shows "map_of (resolveRef p vs) k = None"
  using normal_references [OF assms(1,2)] foldl_normal_other [OF assms(2,3)] by (simp add: resolveRef_def)

text \<open>A key of a reference is not in the result.\<close>

lemma fold_del_None: "k \<in> fieldKey ` set fs \<or> map_of m k = None \<Longrightarrow> map_of (fold (\<lambda>f m. map_del (fieldKey f) m) fs m) k = None"
  by (induction fs arbitrary: m) auto

lemma resolveRef_reference: "f \<in> set (referenceFields p) \<Longrightarrow> map_of (resolveRef p vs) (fieldKey f) = None"
  by (simp add: resolveRef_def fold_del_None)

section \<open>Composing a string\<close>

fun glue :: "delimiter list \<Rightarrow> string list \<Rightarrow> string" where
  "glue (d # ds) (v # vs) = dtext d @ v @ glue ds vs"
| "glue _ _ = []"

text \<open>No value contains the first byte of the delimiter behind it, and no delimiter is greedy.\<close>

fun separated :: "delimiter list \<Rightarrow> string list \<Rightarrow> bool" where
  "separated (d # nx # ds) (v # vs) \<longleftrightarrow>
     dtext nx \<noteq> [] \<and> hd (dtext nx) \<notin> set v \<and> \<not> IsGreedy d \<and> separated (nx # ds) vs"
| "separated _ _ \<longleftrightarrow> True"

lemma go_index_first: "n \<noteq> [] \<Longrightarrow> hd n \<notin> set v \<Longrightarrow> go_index (v @ n @ r) n = Some (length v)"
proof (induction v)
  case Nil
  then show ?case by (cases n) auto
next
  case (Cons x v)
  then show ?case by (cases n) auto
qed

lemma cutRef_glue:
  "length vs = length ds \<Longrightarrow> separated ds vs \<Longrightarrow> ds \<noteq> [] \<Longrightarrow>
     cutRef ds (drop (Len (hd ds)) (glue ds vs)) = Some (butlast vs, last vs)"
proof (induction ds arbitrary: vs)
  case (Cons d ds)
  then obtain v vs' where vs: "vs = v # vs'" by (cases vs) auto
  show ?case
  proof (cases ds)
    case Nil
    then show ?thesis using Cons.prems vs by (simp add: delim.nlen_ntext)
  next
    case ds: (Cons nx ds')
    then obtain w ws where ws: "vs' = w # ws" using Cons.prems vs by (cases vs') auto
    have "cutRef ds (drop (Len nx) (glue ds vs')) = Some (butlast vs', last vs')"
      using Cons.IH [of vs'] Cons.prems vs ds by simp
    moreover have "go_index (v @ glue ds vs') (dtext nx) = Some (length v)"
      using Cons.prems go_index_first [of "dtext nx" v] by (simp add: vs ws ds)
    ultimately show ?thesis
      using Cons.prems by (simp add: vs ds ws delim.nlen_ntext Let_def)
  qed
qed simp

lemma separated_chain: "separated ds vs \<Longrightarrow> length vs = length ds \<Longrightarrow> chain_ok ds"
  by (induction ds vs rule: separated.induct) auto

lemma valuesRef_glue:
  assumes "wf_parser p" and "length (delimiters p) = length (pfields p)" and "length vs = length (pfields p)"
    and "separated (delimiters p) vs"
  shows "valuesRef p (glue (delimiters p) vs) = Ok vs"
proof -
  have ne: "delimiters p \<noteq> []" "vs \<noteq> []" using assms(1-3) by (auto simp: wf_parser_def)
  then have "prefix (dtext (hd (delimiters p))) (glue (delimiters p) vs)"
    by (cases "delimiters p"; cases vs) auto
  then show ?thesis
    using cutRef_glue [OF _ assms(4) ne(1)] assms(2,3) ne
    by (cases "length (pfields p)") (auto simp: valuesRef_def)
qed

section \<open>The tokenizer\<close>

lemma nextToken_Some:
  "nextToken t = Some (d, key, rest) \<Longrightarrow>
     t = d @ ''%{'' @ key @ ''}'' @ rest \<and> \<not> sublist ''%{'' d \<and> CHR ''}'' \<notin> set key"
proof -
  assume "nextToken t = Some (d, key, rest)"
  then obtain n where n: "go_index t ''%{'' = Some n" and d: "d = take n t"
    and kr: "drop (n + 2) t = key @ CHR ''}'' # rest" "CHR ''}'' \<notin> set key"
    by (auto simp: nextToken_def cut_byte_Some split: option.splits)
  obtain r where r: "drop n t = ''%{'' @ r" using go_index_Some [OF n] by (auto simp: prefix_def)
  then have "r = drop (n + 2) t" by (metis add.commute append_eq_conv_conj drop_drop length_Cons list.size(3) numeral_2_eq_2)
  then have t: "t = d @ ''%{'' @ key @ ''}'' @ rest" using r kr d by (metis append_Cons append_Nil append_take_drop_id)
  have "\<not> sublist ''%{'' d"
  proof
    assume "sublist ''%{'' d"
    then obtain a b where ab: "d = a @ ''%{'' @ b" by (auto simp: sublist_def)
    have "length d \<le> n" by (simp add: d)
    then have "length a < n" using arg_cong [OF ab, of length] by simp
    moreover have "prefix ''%{'' (drop (length a) t)" using t ab by simp
    ultimately show False using go_index_least [OF n] by blast
  qed
  with t kr(2) show ?thesis by blast
qed

lemma nextToken_None: "nextToken t = None \<Longrightarrow> t = a @ ''%{'' @ b \<Longrightarrow> CHR ''}'' \<notin> set b"
proof
  assume none: "nextToken t = None" and t: "t = a @ ''%{'' @ b" and b: "CHR ''}'' \<in> set b"
  have "sublist ''%{'' t" unfolding t sublist_def by blast
  then have "go_index t ''%{'' \<noteq> None" by (simp add: go_index_None)
  then obtain n where n: "go_index t ''%{'' = Some n" by auto
  have "n \<le> length a" using go_index_least [OF n, of "length a"] t by (force simp: not_less)
  then have "drop (n + 2) ((a @ ''%{'') @ b) = drop (n + 2) (a @ ''%{'') @ b"
    unfolding drop_append [of _ "a @ ''%{''" b] by simp
  then have "CHR ''}'' \<in> set (drop (n + 2) t)" using t b by simp
  then show False using none n by (auto simp: nextToken_def cut_byte_None split: option.splits)
qed

lemma tokens_spec:
  "tokens t = (ts, rest) \<Longrightarrow>
     t = concat (map (\<lambda>(d, k). d @ ''%{'' @ k @ ''}'') ts) @ rest \<and>
     (\<forall>(d, k) \<in> set ts. \<not> sublist ''%{'' d \<and> CHR ''}'' \<notin> set k) \<and> nextToken rest = None"
proof (induction t arbitrary: ts rest rule: tokens.induct)
  case (1 t)
  show ?case
  proof (cases "nextToken t")
    case None
    then show ?thesis using 1(2) by (auto simp: tokens.simps [of t])
  next
    case (Some x)
    obtain d k r where x: "x = (d, k, r)" by (cases x)
    obtain ts' rest' where ts': "tokens r = (ts', rest')" by (cases "tokens r")
    have "ts = (d, k) # ts'" "rest = rest'" using 1(2) by (auto simp: tokens.simps [of t] Some x ts')
    with 1(1) [OF Some [unfolded x] refl refl ts'] nextToken_Some [OF Some [unfolded x]] show ?thesis by auto
  qed
qed

lemma split_last_newline: "last (split_byte c s) = [] \<longleftrightarrow> s = [] \<or> last s = c"
proof (induction s)
  case (Cons x s)
  obtain p ps where p: "split_byte c s = p # ps" by (cases "split_byte c s") auto
  have "c \<notin> set s" if "ps = []" using that length_split_byte [of c s] p by (simp add: count_list_0_iff)
  then have "s = [] \<or> last s \<noteq> c" if "ps = []" using that last_in_set by blast
  moreover have "s \<noteq> []" if "ps \<noteq> []" using that p by auto
  ultimately show ?case using Cons.IH p by (cases "ps = []"; cases "x = c") auto
qed simp

lemma newField_Panic: "newField n key d = Panic \<longleftrightarrow> key \<noteq> [] \<and> last key = CHR 0x0A"
proof (cases "key = []")
  case False
  show ?thesis
  proof (cases "last (split_byte CHR 0x0A key)")
    case Nil
    then show ?thesis using False split_last_newline [of "CHR 0x0A" key] by (simp add: newField_def extractKeyParts_def)
  next
    case (Cons c cs)
    then show ?thesis
      using False split_last_newline [of "CHR 0x0A" key]
      by (auto simp: newField_def extractKeyParts_def split: prod.splits)
  qed
qed (simp add: newField_def)

section \<open>Properties\<close>

text \<open>C3. A dissector without trimming made by \<open>New\<close> from a tokenizer without fixed-length fields, in which
  no greedy field is directly followed by another field without a delimiter between them, always returns and never panics: it gives the error
  of the reference, or the fields applied in order to the values the reference cuts out, whatever
  order \<open>sort.Slice\<close> chooses for equal ordinals.\<close>

theorem Dissect_spec:
  assumes "slice_sorter sortFields (ordinal \<circ> base)" and "New sortFields tokenizer = Ok d"
    and "no_fixed (dparser d)" and "chain_ok (delimiters (dparser d))"
  shows "Dissect None d s = Some (if s = [] then Err ErrEmpty
    else (case valuesRef (dparser d) s of
            Ok vs \<Rightarrow> Ok (resolveRef (dparser d) vs) | Err e \<Rightarrow> Err e | Panic \<Rightarrow> Panic)) \<and>
    Dissect None d s \<noteq> Some Panic"
proof -
  have wf: "wf_parser (dparser d)" using New_wf [OF assms(1,2)] by blast
  show ?thesis
    using Dissect_ref [OF wf assms(3,4), of s] extract_ref [OF wf assms(3,4), of s]
    by (cases "valuesRef (dparser d) s") auto
qed

abbreviation sortOrdinal :: "field list \<Rightarrow> field list" where
  "sortOrdinal \<equiv> sort_key (ordinal \<circ> base)"

theorem Dissect_spec_witness:
  "\<exists>d. New sortOrdinal ''%{a} - %{b}'' = Ok d \<and> Dissect None d ''x - y'' \<noteq> Some Panic"
proof -
  have ok: "is_Ok (New sortOrdinal ''%{a} - %{b}'')" by code_simp
  have nf: "(case New sortOrdinal ''%{a} - %{b}'' of Ok d \<Rightarrow> no_fixed (dparser d) \<and> chain_ok (delimiters (dparser d)) | _ \<Rightarrow> False)"
    by code_simp
  obtain d where d: "New sortOrdinal ''%{a} - %{b}'' = Ok d" using ok by (auto simp: is_Ok_iff)
  with nf have "no_fixed (dparser d)" "chain_ok (delimiters (dparser d))" by auto
  from Dissect_spec [OF stable_sort.slice_sorter_axioms d this] d show ?thesis by blast
qed

text \<open>C14. A round trip for tokenizers in which all fields are normal, with distinct keys, none of fixed length and none greedy
  except the last, with a delimiter between any two fields and none behind the last: a string that is not empty, composed
  of the delimiters and of one value per field, no value containing the first byte of the delimiter behind it, is dissected
  into a map that has for the key of every field its value and no other key.\<close>

theorem Dissect_roundtrip:
  assumes "slice_sorter sortFields (ordinal \<circ> base)" and "New sortFields tokenizer = Ok d"
    and "no_fixed (dparser d)" and "list_all isNormal (pfields (dparser d))"
    and "distinct (map fieldKey (pfields (dparser d)))"
    and "length (delimiters (dparser d)) = length (pfields (dparser d))"
    and "length vs = length (pfields (dparser d))" and "separated (delimiters (dparser d)) vs"
    and "glue (delimiters (dparser d)) vs \<noteq> []"
  shows "\<exists>m. Dissect None d (glue (delimiters (dparser d)) vs) = Some (Ok m) \<and>
    (\<forall>f \<in> set (pfields (dparser d)). map_of m (fieldKey f) = Some (vs ! fieldID f)) \<and>
    (\<forall>k. map_of m k \<noteq> None \<longrightarrow> k \<in> fieldKey ` set (pfields (dparser d)))"
proof -
  have wf: "wf_parser (dparser d)" using New_wf [OF assms(1,2)] by blast
  have "chain_ok (delimiters (dparser d))" using separated_chain [OF assms(8)] assms(6,7) by simp
  from Dissect_ref [OF wf assms(3) this, of "glue (delimiters (dparser d)) vs"]
  have "Dissect None d (glue (delimiters (dparser d)) vs) = Some (Ok (resolveRef (dparser d) vs))"
    using valuesRef_glue [OF wf assms(6-8)] assms(9) by simp
  then show ?thesis using resolveRef_normal [OF wf assms(4,5)] resolveRef_normal_other [OF wf assms(4), of _ vs] by fastforce
qed

theorem Dissect_roundtrip_witness:
  "\<exists>d m. New sortOrdinal ''%{a} - %{b}'' = Ok d \<and>
     Dissect None d (glue (delimiters (dparser d)) [''x'', ''y z'']) = Some (Ok m)"
proof -
  have h: "(case New sortOrdinal ''%{a} - %{b}'' of
      Ok d \<Rightarrow> no_fixed (dparser d) \<and> list_all isNormal (pfields (dparser d)) \<and>
        distinct (map fieldKey (pfields (dparser d))) \<and>
        length (delimiters (dparser d)) = length (pfields (dparser d)) \<and>
        length [''x'', ''y z''] = length (pfields (dparser d)) \<and>
        separated (delimiters (dparser d)) [''x'', ''y z''] \<and>
        glue (delimiters (dparser d)) [''x'', ''y z''] \<noteq> []
    | _ \<Rightarrow> False)" by code_simp
  then obtain d where d: "New sortOrdinal ''%{a} - %{b}'' = Ok d" by (auto split: outcome.splits)
  note h' = h [unfolded d outcome.case]
  show ?thesis
    using Dissect_roundtrip [OF stable_sort.slice_sorter_axioms d, of "[''x'', ''y z'']"] h' d by blast
qed

text \<open>The tokenizer is cut without loss: putting the delimiters and keys together again, with the text
  behind the last key, gives the tokenizer back; no delimiter contains the start of a key, no key
  its end, and the text behind the last key contains no complete key.\<close>

theorem tokenizer_roundtrip:
  assumes "tokens t = (ts, rest)"
  shows "t = concat (map (\<lambda>(d, k). d @ ''%{'' @ k @ ''}'') ts) @ rest \<and>
    (\<forall>(d, k) \<in> set ts. \<not> sublist ''%{'' d \<and> CHR ''}'' \<notin> set k) \<and>
    (\<forall>a b. rest = a @ ''%{'' @ b \<longrightarrow> CHR ''}'' \<notin> set b)"
  using tokens_spec [OF assms] nextToken_None by blast

theorem tokenizer_roundtrip_witness:
  "''%{a},%{b}'' = concat (map (\<lambda>(d, k). d @ ''%{'' @ k @ ''}'') [([], ''a''), ('','', ''b'')]) @ []"
proof -
  have "tokens ''%{a},%{b}'' = ([([], ''a''), ('','', ''b'')], [])" by code_simp
  from tokenizer_roundtrip [OF this] show ?thesis by blast
qed

text \<open>A greedy field directly followed by another field makes \<open>Dissect\<close> run forever on every string
  that starts with the first delimiter: the delimiter between them is the empty one, which the
  greedy loop finds at every offset.\<close>

theorem Dissect_greedy_hangs:
  assumes "delimiters (dparser d) = d0 # zeroByte n g # ds" and "IsGreedy d0"
    and "\<not> IsFixedLength (fieldAt (dparser d) 0)" and "s \<noteq> []" and "prefix (dtext d0) s"
  shows "Dissect t d s = None"
proof -
  let ?p = "dparser d"
  have i0: "IndexOf d0 s 0 = Ok (Some 0)" using assms(5) delim.idx_at [of 0 s d0] by (simp add: IndexOf_findFrom)
  have "extractFrom ?p s (delimiters ?p) 0 (Len d0) (replicate (length (pfields ?p)) (0, 0)) = None"
    using assms(2,3) by (simp add: assms(1) fieldEnd_def greedyLoop_zero)
  then have "extractPositions ?p s = None" using i0 assms(1) by (simp add: extractPositions_def)
  then show ?thesis using assms(4) by (simp add: Dissect_def)
qed

theorem Dissect_greedy_hangs_witness:
  "\<exists>d. New sortOrdinal ''%{a->}%{b}'' = Ok d \<and> Dissect None d ''x'' = None"
proof -
  have h: "(case New sortOrdinal ''%{a->}%{b}'' of
      Ok d \<Rightarrow> delimiters (dparser d) = [zeroByte [] True, zeroByte [] False] \<and>
        \<not> IsFixedLength (fieldAt (dparser d) 0)
    | _ \<Rightarrow> False)" by code_simp
  then obtain d where d: "New sortOrdinal ''%{a->}%{b}'' = Ok d" by (auto split: outcome.splits)
  note h' = h [unfolded d outcome.case]
  have "IsGreedy (zeroByte [] True)" "prefix (dtext (zeroByte [] True)) ''x''" by (simp_all add: IsGreedy_def)
  then show ?thesis
    using Dissect_greedy_hangs [of d "zeroByte [] True" "[]" False "[]" "''x''" None] h' d by simp
qed

text \<open>A fixed-length field that ends exactly at the end of the string, followed by two more
  delimiters, makes \<open>Dissect\<close> panic: the delimiter behind it is skipped without a look at the
  string, and the next search starts beyond its end.\<close>

theorem Dissect_fixed_panics:
  assumes "delimiters (dparser d) = d0 # d1 # d2 # ds" and "\<not> IsGreedy d0" and "0 < Len d1" and "0 < Len d2"
    and "IsFixedLength (fieldAt (dparser d) 0)" and "\<not> IsFixedLength (fieldAt (dparser d) 1)"
    and "pfields (dparser d) \<noteq> []" and "prefix (dtext d0) s"
    and "length s = Len d0 + flength (base (fieldAt (dparser d) 0))"
  shows "Dissect t d s = Some Panic"
proof -
  let ?p = "dparser d"
  have i0: "IndexOf d0 s 0 = Ok (Some 0)" using assms(8) delim.idx_at [of 0 s d0] by (simp add: IndexOf_findFrom)
  have s: "s \<noteq> []" using assms(5,9) by (auto simp: IsFixedLength_def)
  have e0: "fieldEnd (fieldAt ?p 0) d1 s (Len d0) = Ok (length s)"
    using assms(5,9) by (simp add: fieldEnd_def)
  have e1: "fieldEnd (fieldAt ?p (Suc 0)) d2 s (length s + Len d1) = Panic"
    using assms(3,4,6) by (cases d2) (auto simp: fieldEnd_def)
  have "extractFrom ?p s (delimiters ?p) 0 (Len d0) (replicate (length (pfields ?p)) (0, 0)) = Some Panic"
    using assms(2,7) by (simp add: assms(1) e0 e1)
  then have "extractPositions ?p s = Some Panic" using i0 assms(1) by (simp add: extractPositions_def)
  then show ?thesis using s by (simp add: Dissect_def)
qed

theorem Dissect_fixed_panics_witness:
  "\<exists>d. New sortOrdinal ''%{a#3},%{b},%{c}'' = Ok d \<and> Dissect None d ''abc'' = Some Panic"
proof -
  let ?d0 = "zeroByte [] False" and ?d1 = "multiByte '','' False"
  have h: "(case New sortOrdinal ''%{a#3},%{b},%{c}'' of
      Ok d \<Rightarrow> delimiters (dparser d) = [?d0, ?d1, ?d1] \<and> \<not> IsGreedy ?d0 \<and> 0 < Len ?d1 \<and> 0 < Len ?d1 \<and>
        IsFixedLength (fieldAt (dparser d) 0) \<and> \<not> IsFixedLength (fieldAt (dparser d) 1) \<and>
        pfields (dparser d) \<noteq> [] \<and> prefix (dtext ?d0) ''abc'' \<and>
        length ''abc'' = Len ?d0 + flength (base (fieldAt (dparser d) 0))
    | _ \<Rightarrow> False)" by code_simp
  then obtain d where d: "New sortOrdinal ''%{a#3},%{b},%{c}'' = Ok d" by (auto split: outcome.splits)
  note h' = h [unfolded d outcome.case]
  have "Dissect None d ''abc'' = Some Panic"
    by (rule Dissect_fixed_panics [of d ?d0 ?d1 ?d1 "[]"]) (use h' in blast)+
  with d show ?thesis by blast
qed

text \<open>When the tokenizer ends with a delimiter, the check of the last field reads the map of field
  numbers beyond its end and gets the first field: if that field has a fixed length, a string
  that the tokenizer matches up to its end is rejected.\<close>

theorem Dissect_trailing_fixed:
  assumes "wf_parser p" and "length (delimiters p) = Suc (length (pfields p))"
    and "IsFixedLength (pfields p ! 0)" and "prefix (dtext (hd (delimiters p))) s"
    and "extractFrom p s (delimiters p) 0 (Len (hd (delimiters p))) (replicate (length (pfields p)) (0, 0)) =
      Some (Ok (length (pfields p), length s, ps))"
  shows "extractPositions p s = Some (Err ErrLastFixedLength)"
proof -
  have i0: "IndexOf (hd (delimiters p)) s 0 = Ok (Some 0)"
    using assms(4) delim.idx_at [of 0 s] by (simp add: IndexOf_findFrom)
  have "fieldAt p (length (pfields p)) = pfields p ! 0" using assms(1) by (simp add: wf_parser_def fieldAt_def)
  then show ?thesis
    using i0 assms(3,5) by (simp add: extractPositions_def IsFixedLength_def)
qed

theorem Dissect_trailing_fixed_witness:
  "\<exists>d. New sortOrdinal ''%{a#2} %{b}!'' = Ok d \<and>
     extractPositions (dparser d) ''ab cd!'' = Some (Err ErrLastFixedLength)"
proof -
  have h: "(case New sortOrdinal ''%{a#2} %{b}!'' of
      Ok d \<Rightarrow> length (delimiters (dparser d)) = Suc (length (pfields (dparser d))) \<and>
        IsFixedLength (pfields (dparser d) ! 0) \<and> prefix (dtext (hd (delimiters (dparser d)))) ''ab cd!'' \<and>
        extractFrom (dparser d) ''ab cd!'' (delimiters (dparser d)) 0 (Len (hd (delimiters (dparser d))))
          (replicate (length (pfields (dparser d))) (0, 0)) =
        Some (Ok (length (pfields (dparser d)), length ''ab cd!'', [(0, 2), (3, 5)]))
    | _ \<Rightarrow> False)" by code_simp
  then obtain d where d: "New sortOrdinal ''%{a#2} %{b}!'' = Ok d" by (auto split: outcome.splits)
  note h' = h [unfolded d outcome.case]
  have "wf_parser (dparser d)" using New_wf [OF stable_sort.slice_sorter_axioms d] by blast
  from Dissect_trailing_fixed [OF this] h' d show ?thesis by blast
qed

text \<open>Making a field panics exactly for a non-empty key whose last byte is a newline: the expression
  for the key does not match it, and the code reads the first match without a check.\<close>

theorem newField_panics: "newField n key d = Panic \<longleftrightarrow> key \<noteq> [] \<and> last key = CHR 0x0A"
  by (rule newField_Panic)

section \<open>Conversion\<close>

lemma trim_right_id: "s \<noteq> [] \<Longrightarrow> last s \<noteq> c \<Longrightarrow> trim_right_byte c s = s"
  by (cases s rule: rev_cases) (auto simp: trim_right_byte_def)

lemma trim_itoa [simp]: "trim_right_byte CHR '' '' (go_itoa n) = go_itoa n"
proof (rule trim_right_id)
  have "last (go_itoa n) \<in> set (go_itoa n)" by simp
  from go_itoa_digits [OF this] show "last (go_itoa n) \<noteq> CHR '' ''" by (auto simp: is_digit_def)
qed simp

lemma itoa_no_hex: "\<not> prefix ''0x'' (go_itoa n)" "\<not> prefix ''0X'' (go_itoa n)"
  using go_itoa_digits [of "CHR ''x''" n] go_itoa_digits [of "CHR ''X''" n]
  by (auto simp: prefix_def is_digit_def)

lemma parseDec_itoa: "parseDec (go_itoa n) = Some (int n)"
proof -
  obtain c cs where s: "go_itoa n = c # cs" by (cases "go_itoa n") auto
  then have "c \<noteq> CHR ''-''" "c \<noteq> CHR ''+''"
    using go_itoa_digits [of c n] is_digit_not_sign [of c] by auto
  moreover have "parse_nat (c # cs) = Some n"
    using parse_digits_itoa [of n] by (simp add: parse_nat_def s)
  ultimately show ?thesis by (simp add: parseDec_def s)
qed

lemma strToInt_itoa: "strToInt (go_itoa n) bits = (if fits_bits bits (int n) then Some (int n) else None)"
  by (simp add: strToInt_def itoa_no_hex parseDec_itoa)

text \<open>Converting the decimal digits of a number gives that number when it fits the width of the
  field's type, and leaves the text as it is when it does not.\<close>

theorem convert_decimal:
  "convertData pf ip ''integer'' (go_itoa n) =
     (if n < 2 ^ 31 then DInt (int n) else DStr (go_itoa n)) \<and>
   convertData pf ip ''long'' (go_itoa n) =
     (if n < 2 ^ 63 then DLong (int n) else DStr (go_itoa n)) \<and>
   convertData pf ip ''string'' (go_itoa n) = DStr (go_itoa n)"
proof -
  have "fits_bits 32 (int n) \<longleftrightarrow> n < 2 ^ 31" "fits_bits 64 (int n) \<longleftrightarrow> n < 2 ^ 63"
    by (auto simp: fits_bits_def)
  then show ?thesis
    by (simp add: convertData_def dataTypeNames_def transformType_def strToInt_itoa)
qed

end
