(* ===== verification/Go_Utf8.thy ===== *)
theory Go_Utf8
  imports Go_Prelude
begin

text \<open>
  What the packages use of \<open>unicode/utf8\<close>: decoding the first character of a byte string, invalid
  sequences included, and the last one, the characters a range loop over a string produces,
  searching for a character, and trimming of white space.
\<close>

section \<open>Decoding UTF-8\<close>

abbreviation byte :: "char \<Rightarrow> nat" where "byte \<equiv> of_char"

definition RuneError :: nat where "RuneError = 65533"

text \<open>The range of the second byte for each first byte, and the length; \<open>None\<close> for an invalid first byte.\<close>

definition leadInfo :: "nat \<Rightarrow> (nat \<times> nat \<times> nat) option" where
  "leadInfo b =
     (if 0xC2 \<le> b \<and> b \<le> 0xDF then Some (2, 0x80, 0xBF)
      else if b = 0xE0 then Some (3, 0xA0, 0xBF)
      else if b = 0xED then Some (3, 0x80, 0x9F)
      else if 0xE1 \<le> b \<and> b \<le> 0xEF then Some (3, 0x80, 0xBF)
      else if b = 0xF0 then Some (4, 0x90, 0xBF)
      else if 0xF1 \<le> b \<and> b \<le> 0xF3 then Some (4, 0x80, 0xBF)
      else if b = 0xF4 then Some (4, 0x80, 0x8F)
      else None)"

definition isCont :: "nat \<Rightarrow> bool" where
  "isCont b \<longleftrightarrow> 0x80 \<le> b \<and> b \<le> 0xBF"

text \<open>\<open>utf8.DecodeRuneInString\<close>: the character and its width.\<close>

definition decodeRune :: "string \<Rightarrow> nat \<times> nat" where
  "decodeRune s =
     (case s of
        [] \<Rightarrow> (RuneError, 0)
      | c # cs \<Rightarrow>
          if byte c < 0x80 then (byte c, 1)
          else
            (case leadInfo (byte c) of
               None \<Rightarrow> (RuneError, 1)
             | Some (n, lo, hi) \<Rightarrow>
                 (if length s < n then (RuneError, 1)
                  else
                    (let b1 = byte (s ! 1); b2 = byte (s ! 2); b3 = byte (s ! 3) in
                     if b1 < lo \<or> hi < b1 then (RuneError, 1)
                     else if n = 2 then ((byte c mod 32) * 64 + b1 mod 64, 2)
                     else if \<not> isCont b2 then (RuneError, 1)
                     else if n = 3 then ((byte c mod 16) * 4096 + (b1 mod 64) * 64 + b2 mod 64, 3)
                     else if \<not> isCont b3 then (RuneError, 1)
                     else ((byte c mod 8) * 262144 + (b1 mod 64) * 4096 + (b2 mod 64) * 64 + b3 mod 64, 4)))))"

lemma leadInfo_length: "leadInfo b = Some (n, lo, hi) \<Longrightarrow> n = 2 \<or> n = 3 \<or> n = 4"
  by (auto simp: leadInfo_def split: if_splits)

lemma decodeRune_cases:
  "s \<noteq> [] \<Longrightarrow> snd (decodeRune s) = 1 \<or> (\<exists>n lo hi. leadInfo (byte (hd s)) = Some (n, lo, hi) \<and>
     n \<le> length s \<and> snd (decodeRune s) = n)"
proof (cases s)
  case (Cons c cs)
  show ?thesis
  proof (cases "leadInfo (byte c)")
    case None
    then show ?thesis using Cons by (simp add: decodeRune_def)
  next
    case (Some x)
    obtain n lo hi where x: "x = (n, lo, hi)" by (cases x)
    then show ?thesis
      using Cons Some leadInfo_length [of "byte c" n lo hi] by (auto simp: decodeRune_def Let_def)
  qed
qed simp

lemma decodeRune_width:
  shows "snd (decodeRune s) \<le> length s" and "s \<noteq> [] \<Longrightarrow> 0 < snd (decodeRune s)"
proof -
  show "s \<noteq> [] \<Longrightarrow> 0 < snd (decodeRune s)"
    using decodeRune_cases [of s] leadInfo_length [of "byte (hd s)"] by fastforce
  show "snd (decodeRune s) \<le> length s"
    using decodeRune_cases [of s] by (cases s) (auto simp: decodeRune_def [of "[]"])
qed

text \<open>The characters of a string, as a range loop produces them.\<close>

function runes :: "string \<Rightarrow> nat list" where
  "runes s = (if s = [] then [] else fst (decodeRune s) # runes (drop (snd (decodeRune s)) s))"
  by pat_completeness auto
termination
  by (relation "measure length") (use decodeRune_width in \<open>auto simp: diff_less\<close>)

declare runes.simps [simp del]

text \<open>A sequence of several bytes contains no ASCII byte.\<close>

lemma runes_ascii: "list_all (\<lambda>c. byte c < 128) s \<Longrightarrow> runes s = map byte s"
  by (induction s) (simp_all add: runes.simps decodeRune_def)

lemma decodeRune_wide:
  assumes "1 < snd (decodeRune s)" and "c \<in> set (take (snd (decodeRune s)) s)"
  shows "128 \<le> byte c"
proof -
  obtain a cs where s: "s = a # cs" using assms by (cases s) (auto simp: decodeRune_def)
  have a: "128 \<le> byte a" using assms(1) s by (auto simp: decodeRune_def split: if_splits)
  obtain n lo hi where n: "leadInfo (byte a) = Some (n, lo, hi)"
    using assms(1) s a by (auto simp: decodeRune_def split: if_splits option.splits)
  have lo: "128 \<le> lo" using n by (auto simp: leadInfo_def split: if_splits)
  let ?w = "snd (decodeRune s)"
  have "\<forall>i < ?w. 128 \<le> byte (s ! i)"
  proof (intro allI impI)
    fix i assume "i < ?w"
    then have "i = 0 \<or> i = 1 \<or> i = 2 \<or> i = 3" and b: "1 \<le> i \<longrightarrow> lo \<le> byte (s ! 1)"
      "2 \<le> i \<longrightarrow> isCont (byte (s ! 2))" "3 \<le> i \<longrightarrow> isCont (byte (s ! 3))"
      using assms(1) s a n leadInfo_length [OF n] by (auto simp: decodeRune_def Let_def split: if_splits)
    then show "128 \<le> byte (s ! i)" using a s lo by (auto simp: isCont_def)
  qed
  then show ?thesis using assms(2) by (auto simp: in_set_conv_nth)
qed

lemma ascii_byte_rune:
  "c \<in> set s \<Longrightarrow> byte c < 128 \<Longrightarrow> byte c \<in> set (runes s)"
proof (induction s rule: runes.induct)
  case (1 s)
  let ?w = "snd (decodeRune s)"
  have s: "s \<noteq> []" using 1(2) by auto
  show ?case
  proof (cases "c \<in> set (drop ?w s)")
    case True
    then show ?thesis using 1 s by (simp add: runes.simps [of s])
  next
    case False
    then have c: "c \<in> set (take ?w s)" using 1(2) by (metis Un_iff append_take_drop_id set_append)
    then have "\<not> 1 < ?w" using decodeRune_wide [of s c] 1(3) by auto
    then have "?w = 1" using decodeRune_width(2) [OF s] by simp
    then have "c = hd s" using c s by (cases s) auto
    then have "fst (decodeRune s) = byte c" using 1(3) s by (cases s) (auto simp: decodeRune_def)
    then show ?thesis using s by (simp add: runes.simps [of s])
  qed
qed

section \<open>Decoding from the end, searching\<close>

text \<open>\<open>utf8.DecodeLastRuneInString\<close>: go back over at most three bytes to a first byte.\<close>

definition backStart :: "string \<Rightarrow> nat" where
  "backStart s =
     (let n = length s;
          isStart = (\<lambda>k. \<not> isCont (byte (s ! (n - k)))) in
      if n \<ge> 2 \<and> isStart 2 then n - 2
      else if n \<ge> 3 \<and> isStart 3 then n - 3
      else if n \<ge> 4 \<and> isStart 4 then n - 4
      else n - 5)"

definition decodeLastRune :: "string \<Rightarrow> nat \<times> nat" where
  "decodeLastRune s =
     (if s = [] then (RuneError, 0)
      else if byte (last s) < 0x80 then (byte (last s), 1)
      else
        (let start = backStart s; (r, w) = decodeRune (drop start s) in
         if start + w \<noteq> length s then (RuneError, 1) else (r, w)))"

text \<open>\<open>strings.IndexFunc\<close> and \<open>strings.LastIndexFunc\<close>.\<close>

function indexFunc :: "string \<Rightarrow> (nat \<Rightarrow> bool) \<Rightarrow> nat option" where
  "indexFunc s f =
     (if s = [] then None
      else if f (fst (decodeRune s)) then Some 0
      else map_option (\<lambda>i. i + snd (decodeRune s)) (indexFunc (drop (snd (decodeRune s)) s) f))"
  by pat_completeness auto
termination
  by (relation "measure (\<lambda>(s, _). length s)") (use decodeRune_width in \<open>auto simp: diff_less\<close>)

declare indexFunc.simps [simp del]

lemma decodeLastRune_width: "s \<noteq> [] \<Longrightarrow> 0 < snd (decodeLastRune s) \<and> snd (decodeLastRune s) \<le> length s"
proof -
  assume s: "s \<noteq> []"
  then have "backStart s < length s" by (auto simp: backStart_def Let_def)
  then have "0 < snd (decodeRune (drop (backStart s) s))" by (intro decodeRune_width(2)) simp
  then show ?thesis using s by (auto simp: decodeLastRune_def Let_def Suc_le_eq split: prod.splits)
qed

function lastIndexFunc :: "string \<Rightarrow> (nat \<Rightarrow> bool) \<Rightarrow> nat option" where
  "lastIndexFunc s f =
     (if s = [] then None
      else (let i = length s - snd (decodeLastRune s) in
            if f (fst (decodeLastRune s)) then Some i else lastIndexFunc (take i s) f))"
  by pat_completeness auto
termination
  by (relation "measure (\<lambda>(s, _). length s)") (use decodeLastRune_width in \<open>auto simp: Let_def\<close>)

declare lastIndexFunc.simps [simp del]

lemma indexFunc_less: "indexFunc s f = Some k \<Longrightarrow> k < length s"
proof (induction s f arbitrary: k rule: indexFunc.induct)
  case (1 s f)
  show ?case
  proof (cases "s = [] \<or> f (fst (decodeRune s))")
    case True
    then show ?thesis using 1(2) by (auto simp: indexFunc.simps [of s] split: if_splits)
  next
    case False
    then obtain j where "indexFunc (drop (snd (decodeRune s)) s) f = Some j" "k = j + snd (decodeRune s)"
      using 1(2) by (auto simp: indexFunc.simps [of s])
    with 1(1) False show ?thesis by fastforce
  qed
qed

lemma lastIndexFunc_less: "lastIndexFunc s f = Some k \<Longrightarrow> k < length s"
proof (induction s f arbitrary: k rule: lastIndexFunc.induct)
  case (1 s f)
  have w: "s \<noteq> [] \<Longrightarrow> length s - snd (decodeLastRune s) < length s" using decodeLastRune_width [of s] by auto
  have "s \<noteq> []" using 1(2) by (auto simp: lastIndexFunc.simps)
  show ?case
  proof (cases "f (fst (decodeLastRune s))")
    case True
    then show ?thesis using 1(2) w \<open>s \<noteq> []\<close> by (auto simp: lastIndexFunc.simps [of s] Let_def)
  next
    case False
    then have "lastIndexFunc (take (length s - snd (decodeLastRune s)) s) f = Some k"
      using 1(2) \<open>s \<noteq> []\<close> by (simp add: lastIndexFunc.simps [of s] Let_def)
    from 1(1) [OF \<open>s \<noteq> []\<close> refl False this] show ?thesis by simp
  qed
qed

section \<open>White space\<close>

text \<open>White space as \<open>unicode.IsSpace\<close> has it.\<close>

definition isSpaceRune :: "nat \<Rightarrow> bool" where
  "isSpaceRune r \<longleftrightarrow> r \<in> {9, 10, 11, 12, 13, 32, 0x85, 0xA0, 0x1680, 0x2028, 0x2029, 0x202f, 0x205f, 0x3000} \<or>
     0x2000 \<le> r \<and> r \<le> 0x200a"

text \<open>\<open>strings.TrimSpace\<close>: white space is cut at both ends.\<close>

definition TrimSpace :: "string \<Rightarrow> string" where
  "TrimSpace s =
     (case indexFunc s (\<lambda>r. \<not> isSpaceRune r) of
        None \<Rightarrow> []
      | Some i \<Rightarrow>
          (let s' = drop i s in
           case lastIndexFunc s' (\<lambda>r. \<not> isSpaceRune r) of
             None \<Rightarrow> []
           | Some j \<Rightarrow> take (j + (if byte (s' ! j) < 0x80 then 1 else snd (decodeRune (drop j s')))) s'))"

end
