(* ===== verification/Dissect_Trim.thy ===== *)
theory Dissect_Trim
  imports Dissect_Laws Go_Utf8
begin

text \<open>
  Trimming of extracted values (src/processors/dissect/trim.go): a fast trimmer for sets of ASCII
  characters and a general one for sets of Unicode characters, over \<open>Go_Utf8\<close>.
\<close>

section \<open>The trimmers\<close>

record asciiTrimmer =
  chars :: "nat set"
  aleft :: bool
  aright :: bool

record utf8trimmer =
  cutset :: string
  uleft :: bool
  uright :: bool

datatype trimmerT = Ascii asciiTrimmer | Utf8 utf8trimmer

definition asciiLimit :: nat where "asciiLimit = 128"

definition newASCIITrimmer :: "string \<Rightarrow> bool \<Rightarrow> bool \<Rightarrow> asciiTrimmer option" where
  "newASCIITrimmer trimChars trimLeft trimRight =
     (if list_all (\<lambda>c. byte c < asciiLimit) trimChars
      then Some \<lparr>chars = byte ` set trimChars, aleft = trimLeft, aright = trimRight\<rparr>
      else None)"

definition newUTF8Trimmer :: "string \<Rightarrow> bool \<Rightarrow> bool \<Rightarrow> utf8trimmer" where
  "newUTF8Trimmer trimChars trimLeft trimRight = \<lparr>cutset = trimChars, uleft = trimLeft, uright = trimRight\<rparr>"

definition newTrimmer :: "string \<Rightarrow> bool \<Rightarrow> bool \<Rightarrow> trimmerT" where
  "newTrimmer trimChars trimLeft trimRight =
     (case newASCIITrimmer trimChars trimLeft trimRight of
        Some t \<Rightarrow> Ascii t
      | None \<Rightarrow> Utf8 (newUTF8Trimmer trimChars trimLeft trimRight))"

text \<open>The two loops of the ASCII trimmer, for \<open>start \<le> end \<le> len(s)\<close>.\<close>

definition trimHit :: "asciiTrimmer \<Rightarrow> string \<Rightarrow> nat \<Rightarrow> bool" where
  "trimHit t s k \<longleftrightarrow> byte (s ! k) < asciiLimit \<and> byte (s ! k) \<in> chars t"

function skipLeft :: "asciiTrimmer \<Rightarrow> string \<Rightarrow> nat \<Rightarrow> nat \<Rightarrow> nat" where
  "skipLeft t s start end1 = (if start < end1 \<and> trimHit t s start then skipLeft t s (start + 1) end1 else start)"
  by pat_completeness auto
termination by (relation "measure (\<lambda>(_, _, start, end1). end1 - start)") auto

function skipRight :: "asciiTrimmer \<Rightarrow> string \<Rightarrow> nat \<Rightarrow> nat \<Rightarrow> nat" where
  "skipRight t s start end1 = (if start < end1 \<and> trimHit t s (end1 - 1) then skipRight t s start (end1 - 1) else end1)"
  by pat_completeness auto
termination by (relation "measure (\<lambda>(_, _, start, end1). end1 - start)") auto

declare skipLeft.simps [simp del] skipRight.simps [simp del]

definition asciiTrim :: "asciiTrimmer \<Rightarrow> trimmer" where
  "asciiTrim t s start end1 =
     (let start' = (if aleft t then skipLeft t s start end1 else start);
          end' = (if aright t then skipRight t s start' end1 else end1)
      in (start', end'))"

definition utf8Trim :: "utf8trimmer \<Rightarrow> trimmer" where
  "utf8Trim t s start end1 =
     (let f = (\<lambda>r. r \<notin> set (runes (cutset t)));
          part = (\<lambda>a b. take (b - a) (drop a s)) in
      case (if uleft t then indexFunc (part start end1) f else Some 0) of
        None \<Rightarrow> (end1, end1)
      | Some pos \<Rightarrow>
          (let start' = start + pos in
           if uright t then
             (case lastIndexFunc (part start' end1) f of
                None \<Rightarrow> (start', start')
              | Some pos' \<Rightarrow> (start', start' + pos' + snd (decodeRune (drop (start' + pos') s))))
           else (start', end1)))"

fun Trim :: "trimmerT \<Rightarrow> trimmer" where
  "Trim (Ascii t) = asciiTrim t"
| "Trim (Utf8 t) = utf8Trim t"

section \<open>The contract of a trimmer\<close>

text \<open>
  What the dissector relies on: a trimmer given a range inside the string returns a range inside
  the string.
\<close>

locale range_trimmer =
  fixes trim :: trimmer
  assumes trim_range: "start \<le> end1 \<Longrightarrow> end1 \<le> length s \<Longrightarrow> trim s start end1 = (a, b) \<Longrightarrow>
      start \<le> a \<and> a \<le> b \<and> b \<le> length s"
begin

lemma trim_slice: "slice s pos \<noteq> None \<Longrightarrow> slice s (case pos of (a, b) \<Rightarrow> trim s a b) \<noteq> None"
proof (cases pos)
  case (Pair a b)
  obtain a' b' where t: "trim s a b = (a', b')" by (cases "trim s a b")
  assume "slice s pos \<noteq> None"
  then have "a \<le> b" "b \<le> length s" by (auto simp: Pair slice_def split: if_splits)
  from trim_range [OF this t] show ?thesis by (simp add: Pair t slice_def)
qed

lemma trimAll_slices:
  "(\<forall>pos \<in> set ps. slice s pos \<noteq> None) \<Longrightarrow> (\<forall>pos \<in> set (trimAll (Some trim) s ps). slice s pos \<noteq> None)"
  using trim_slice by (fastforce simp: trimAll_def)

end

lemma skipLeft_takeWhile:
  "start \<le> end1 \<Longrightarrow> end1 \<le> length s \<Longrightarrow>
     skipLeft t s start end1 =
       start + length (takeWhile (\<lambda>c. byte c < asciiLimit \<and> byte c \<in> chars t) (take (end1 - start) (drop start s)))"
proof (induction t s start end1 rule: skipLeft.induct)
  case (1 t s start end1)
  show ?case
  proof (cases "start < end1")
    case True
    then have "take (end1 - start) (drop start s) = s ! start # take (end1 - (start + 1)) (drop (start + 1) s)"
      using 1(3) by (simp add: take_Cons' flip: Cons_nth_drop_Suc)
    then show ?thesis
      using 1 True by (simp add: skipLeft.simps [of t s start] trimHit_def)
  qed (use 1 in \<open>simp add: skipLeft.simps\<close>)
qed

lemma skipRight_takeWhile:
  "start \<le> end1 \<Longrightarrow> end1 \<le> length s \<Longrightarrow>
     skipRight t s start end1 =
       end1 - length (takeWhile (\<lambda>c. byte c < asciiLimit \<and> byte c \<in> chars t) (rev (take (end1 - start) (drop start s))))"
proof (induction t s start end1 rule: skipRight.induct)
  case (1 t s start end1)
  show ?case
  proof (cases "start < end1")
    case True
    then obtain e where e: "end1 = Suc e" "start \<le> e" by (cases end1) auto
    then have "take (end1 - start) (drop start s) = take (e - start) (drop start s) @ [s ! e]"
      using 1(3) by (simp add: Suc_diff_le take_Suc_conv_app_nth)
    moreover have "skipRight t s start end1 = (if trimHit t s e then skipRight t s start e else end1)"
      unfolding e(1) using e(2) by (subst skipRight.simps) simp
    ultimately show ?thesis using 1 True e by (simp add: trimHit_def)
  qed (use 1 in \<open>simp add: skipRight.simps\<close>)
qed

lemma length_takeWhile_take: "length (takeWhile P (take n xs)) \<le> n"
  by (metis length_take length_takeWhile_le min.bounded_iff)

lemma length_takeWhile_rev_take: "length (takeWhile P (rev (take n xs))) \<le> n"
  by (metis length_rev length_take length_takeWhile_le min.bounded_iff)

lemma asciiTrim_range:
  assumes "start \<le> end1" and "end1 \<le> length s" and "asciiTrim t s start end1 = (a, b)"
  shows "start \<le> a \<and> a \<le> b \<and> b \<le> end1"
proof -
  let ?P = "\<lambda>c. byte c < asciiLimit \<and> byte c \<in> chars t"
  have L: "start \<le> skipLeft t s start end1 \<and> skipLeft t s start end1 \<le> end1"
    unfolding skipLeft_takeWhile [OF assms(1,2)]
    using length_takeWhile_take [of ?P "end1 - start" "drop start s"] assms(1) by linarith
  have R: "x \<le> skipRight t s x end1 \<and> skipRight t s x end1 \<le> end1" if "x \<le> end1" for x
  proof -
    have "length (takeWhile ?P (rev (take (end1 - x) (drop x s)))) \<le> end1 - x"
      by (rule length_takeWhile_rev_take)
    then show ?thesis unfolding skipRight_takeWhile [OF that assms(2)] using that by linarith
  qed
  have a: "a = (if aleft t then skipLeft t s start end1 else start)"
    and b: "b = (if aright t then skipRight t s a end1 else end1)"
    using assms(3) by (auto simp: asciiTrim_def Let_def)
  have "start \<le> a \<and> a \<le> end1" using a L assms(1) by presburger
  with R [of a] b show ?thesis by presburger
qed

lemma utf8Trim_range:
  assumes "start \<le> end1" and "end1 \<le> length s" and "utf8Trim t s start end1 = (a, b)"
  shows "start \<le> a \<and> a \<le> b \<and> b \<le> length s"
proof -
  have w: "k + snd (decodeRune (drop k s)) \<le> length s" if "k \<le> length s" for k
    using decodeRune_width(1) [of "drop k s"] that by simp
  have L: "k < end1 - start" if "indexFunc (take (end1 - start) (drop start s)) f = Some k" for k f
    using indexFunc_less [OF that] by simp
  have R: "x + k < length s" if "lastIndexFunc (take (end1 - x) (drop x s)) f = Some k" for x k f
    using lastIndexFunc_less [OF that] assms(2) by simp
  let ?f = "\<lambda>r. r \<notin> set (runes (cutset t))"
  show ?thesis
  proof (cases "if uleft t then indexFunc (take (end1 - start) (drop start s)) ?f else Some 0")
    case None
    then show ?thesis using assms by (simp add: utf8Trim_def)
  next
    case (Some pos)
    then have pos: "start + pos \<le> end1" using L [of ?f pos] assms(1) by (auto split: if_splits)
    show ?thesis
    proof (cases "uright t")
      case True
      show ?thesis
      proof (cases "lastIndexFunc (take (end1 - (start + pos)) (drop (start + pos) s)) ?f")
        case None
        then show ?thesis using assms Some True pos by (simp add: utf8Trim_def Let_def)
      next
        case last: (Some k)
        then show ?thesis
          using assms Some True R [OF last] w [of "start + pos + k"] by (auto simp: utf8Trim_def Let_def)
      qed
    next
      case False
      then show ?thesis using assms Some pos by (simp add: utf8Trim_def Let_def)
    qed
  qed
qed

interpretation ascii: range_trimmer "asciiTrim t" for t
proof
  fix start end1 s a b
  assume "start \<le> end1" "end1 \<le> length s" "asciiTrim t s start end1 = (a, b)"
  from asciiTrim_range [OF this] this(2) show "start \<le> a \<and> a \<le> b \<and> b \<le> length s" by simp
qed

interpretation utf8: range_trimmer "utf8Trim t" for t
  by unfold_locales (rule utf8Trim_range)

interpretation anyTrim: range_trimmer "Trim t" for t
  by (cases t) (simp_all add: ascii.range_trimmer_axioms utf8.range_trimmer_axioms)

section \<open>Dissection with a trimmer\<close>

lemma applyFields_no_Panic:
  "(\<forall>pos \<in> set ps. slice s pos \<noteq> None) \<Longrightarrow> (\<And>f. f \<in> set fs \<Longrightarrow> fieldID f < length ps) \<Longrightarrow>
     \<exists>m'. applyFields s ps fs m = Ok m'"
proof (induction fs arbitrary: m)
  case (Cons f fs)
  have lt: "fieldID f < length ps" using Cons.prems(2) by simp
  then obtain b where b: "slice s (ps ! fieldID f) = Some b" using Cons.prems(1) nth_mem by blast
  with Cons.IH [OF Cons.prems(1)] Cons.prems(2) lt show ?case by simp
qed simp

lemma Dissect_trim_total:
  assumes "wf_parser (dparser d)" and "no_fixed (dparser d)" and "chain_ok (delimiters (dparser d))"
  shows "\<exists>r. Dissect (Some (Trim t)) d s = Some r \<and> r \<noteq> Panic \<and>
    ((\<exists>m. r = Ok m) \<longleftrightarrow> (\<exists>m. Dissect None d s = Some (Ok m)))"
proof (cases "s = [] \<or> (\<exists>e. valuesRef (dparser d) s = Err e)")
  case True
  then show ?thesis using extract_ref [OF assms, of s] by (auto simp: Dissect_def)
next
  case False
  then obtain vs where vs: "valuesRef (dparser d) s = Ok vs"
    using extract_ref [OF assms, of s] by (cases "valuesRef (dparser d) s") auto
  then obtain ps where ps: "extractPositions (dparser d) s = Some (Ok ps)" "map (slice s) ps = map Some vs"
      "length vs = length (pfields (dparser d))"
    using extract_ref [OF assms, of s] by auto
  have len: "length ps = length vs" using ps(2) by (metis length_map)
  have "\<forall>pos \<in> set ps. slice s pos \<noteq> None"
    using ps(2) by (metis in_set_conv_nth len nth_map option.distinct(1))
  from anyTrim.trimAll_slices [OF this, of t] have sl: "\<forall>pos \<in> set (trimAll (Some (Trim t)) s ps). slice s pos \<noteq> None" .
  have len': "length (trimAll (Some (Trim t)) s ps) = length (pfields (dparser d))"
    using len ps(3) by (simp add: trimAll_def)
  obtain m where "applyFields s (trimAll (Some (Trim t)) s ps) (pfields (dparser d)) [] = Ok m"
    using applyFields_no_Panic [OF sl, of "pfields (dparser d)"] ids_less [OF assms(1)] len' by auto
  then have "\<exists>m. resolve (dparser d) s (trimAll (Some (Trim t)) s ps) = Ok m" by (simp add: resolve_def)
  moreover have "ps \<noteq> []" using len ps(3) assms(1) by (auto simp: wf_parser_def)
  moreover have "\<exists>m. Dissect None d s = Some (Ok m)"
    using Dissect_ref [OF assms, of s] vs False by auto
  ultimately show ?thesis using ps(1) False by (auto simp: Dissect_def)
qed

section \<open>The fast trimmer against the general one\<close>

lemma indexFunc_ascii:
  "list_all (\<lambda>c. byte c < 128) s \<Longrightarrow>
     indexFunc s f = (let k = length (takeWhile (\<lambda>c. \<not> f (byte c)) s) in if k = length s then None else Some k)"
proof (induction s)
  case (Cons c s)
  then show ?case by (simp add: indexFunc.simps [of "c # s"] decodeRune_def Let_def)
qed (simp add: indexFunc.simps)

lemma lastIndexFunc_ascii:
  "list_all (\<lambda>c. byte c < 128) s \<Longrightarrow>
     lastIndexFunc s f = (let k = length (takeWhile (\<lambda>c. \<not> f (byte c)) (rev s)) in
       if k = length s then None else Some (length s - 1 - k))"
proof (induction s rule: rev_induct)
  case (snoc c s)
  then show ?case
    by (simp add: lastIndexFunc.simps [of "s @ [c]"] decodeLastRune_def Let_def)
qed (simp add: lastIndexFunc.simps)

text \<open>The two halves of a trim on a part of the string that is ASCII.\<close>

lemma ascii_tests:
  assumes "newASCIITrimmer trimChars l r = Some t"
  shows "t = \<lparr>chars = byte ` set trimChars, aleft = l, aright = r\<rparr>"
    and "set (runes trimChars) = byte ` set trimChars"
    and "list_all (\<lambda>c. byte c < 128) xs \<Longrightarrow>
      takeWhile (\<lambda>c. byte c < asciiLimit \<and> byte c \<in> chars t) xs = takeWhile (\<lambda>c. byte c \<in> byte ` set trimChars) xs"
proof -
  show t: "t = \<lparr>chars = byte ` set trimChars, aleft = l, aright = r\<rparr>"
    using assms by (auto simp: newASCIITrimmer_def split: if_splits)
  have "list_all (\<lambda>c. byte c < 128) trimChars"
    using assms by (auto simp: newASCIITrimmer_def asciiLimit_def split: if_splits)
  then show "set (runes trimChars) = byte ` set trimChars" by (simp add: runes_ascii)
  show "list_all (\<lambda>c. byte c < 128) xs \<Longrightarrow>
      takeWhile (\<lambda>c. byte c < asciiLimit \<and> byte c \<in> chars t) xs = takeWhile (\<lambda>c. byte c \<in> byte ` set trimChars) xs"
    by (intro takeWhile_cong) (auto simp: t asciiLimit_def list_all_iff)
qed

lemma left_half:
  assumes "newASCIITrimmer trimChars l r = Some t" and "start \<le> end1" and "end1 \<le> length s"
    and "list_all (\<lambda>c. byte c < 128) (take (end1 - start) (drop start s))"
  shows "(case indexFunc (take (end1 - start) (drop start s)) (\<lambda>ru. ru \<notin> byte ` set trimChars) of
      None \<Rightarrow> skipLeft t s start end1 = end1 | Some pos \<Rightarrow> skipLeft t s start end1 = start + pos)"
proof -
  let ?part = "take (end1 - start) (drop start s)"
  have len: "length ?part = end1 - start" using assms(2,3) by simp
  show ?thesis
    unfolding skipLeft_takeWhile [OF assms(2,3)] ascii_tests(3) [OF assms(1,4)]
      indexFunc_ascii [OF assms(4)] Let_def not_not len
    using assms(2) by (simp split: option.splits)
qed

lemma right_half:
  assumes "newASCIITrimmer trimChars l r = Some t" and "a \<le> end1" and "end1 \<le> length s"
    and "list_all (\<lambda>c. byte c < 128) (take (end1 - a) (drop a s))"
  shows "(case lastIndexFunc (take (end1 - a) (drop a s)) (\<lambda>ru. ru \<notin> byte ` set trimChars) of
      None \<Rightarrow> a | Some pos \<Rightarrow> a + pos + snd (decodeRune (drop (a + pos) s))) = skipRight t s a end1"
proof -
  let ?part = "take (end1 - a) (drop a s)"
  let ?k = "length (takeWhile (\<lambda>c. byte c \<in> byte ` set trimChars) (rev ?part))"
  have len: "length ?part = end1 - a" using assms(2,3) by simp
  have rasc: "list_all (\<lambda>c. byte c < 128) (rev ?part)" using assms(4) by (simp add: list_all_iff)
  have R: "skipRight t s a end1 = end1 - ?k"
    unfolding skipRight_takeWhile [OF assms(2,3)] ascii_tests(3) [OF assms(1) rasc] ..
  have I: "lastIndexFunc ?part (\<lambda>ru. ru \<notin> byte ` set trimChars) =
      (if ?k = end1 - a then None else Some (end1 - a - 1 - ?k))"
    unfolding lastIndexFunc_ascii [OF assms(4)] Let_def not_not len ..
  have kb: "?k \<le> end1 - a" by (rule length_takeWhile_rev_take)
  show ?thesis
  proof (cases "?k = end1 - a")
    case False
    let ?p = "end1 - a - 1 - ?k"
    have p: "?p < end1 - a" "a + ?p < length s" using kb False assms(2,3) by linarith+
    then have "drop (a + ?p) s = ?part ! ?p # drop (Suc (a + ?p)) s"
      using Cons_nth_drop_Suc [of "a + ?p" s] by (simp add: add.commute)
    moreover have "byte (?part ! ?p) < 128"
      using assms(4) p(1) len by (simp only: list_all_length)
    ultimately have "snd (decodeRune (drop (a + ?p) s)) = 1" by (simp add: decodeRune_def)
    moreover have "a + ?p + 1 = end1 - ?k" using kb False assms(2) by linarith
    ultimately show ?thesis unfolding I R if_not_P [OF False] option.case by (simp only:)
  qed (unfold I R, use assms(2) in simp)
qed

lemma asciiTrim_utf8Trim:
  assumes t: "newASCIITrimmer trimChars l r = Some t" and "start \<le> end1" and "end1 \<le> length s"
    and asc: "list_all (\<lambda>c. byte c < 128) (take (end1 - start) (drop start s))"
  shows "utf8Trim (newUTF8Trimmer trimChars l r) s start end1 = asciiTrim t s start end1"
proof -
  have sub: "list_all (\<lambda>c. byte c < 128) (take (end1 - a) (drop a s))" if "start \<le> a" "a \<le> end1" for a
  proof -
    have "take (end1 - a) (drop a s) = drop (a - start) (take (end1 - start) (drop start s))"
      using that by (simp add: drop_take)
    then show ?thesis using asc by (metis in_set_dropD list_all_iff)
  qed
  define f where "f = (\<lambda>ru. ru \<notin> byte ` set trimChars)"
  have u: "utf8Trim (newUTF8Trimmer trimChars l r) s start end1 =
      (case (if l then indexFunc (take (end1 - start) (drop start s)) f else Some 0) of
         None \<Rightarrow> (end1, end1)
       | Some pos \<Rightarrow> (start + pos, if r then (case lastIndexFunc (take (end1 - (start + pos)) (drop (start + pos) s)) f of
           None \<Rightarrow> start + pos | Some p \<Rightarrow> start + pos + p + snd (decodeRune (drop (start + pos + p) s))) else end1))"
    by (simp add: utf8Trim_def newUTF8Trimmer_def Let_def ascii_tests(2) [OF t] f_def split: option.splits)
  have L: "case indexFunc (take (end1 - start) (drop start s)) f of
      None \<Rightarrow> skipLeft t s start end1 = end1 | Some pos \<Rightarrow> skipLeft t s start end1 = start + pos"
    unfolding f_def by (rule left_half [OF assms])
  have R: "(case lastIndexFunc (take (end1 - a) (drop a s)) f of
      None \<Rightarrow> a | Some pos \<Rightarrow> a + pos + snd (decodeRune (drop (a + pos) s))) = skipRight t s a end1"
    if "start \<le> a" "a \<le> end1" for a
    unfolding f_def by (rule right_half [OF t that(2) assms(3) sub [OF that]])
  have z: "skipRight t s end1 end1 = end1" by (simp add: skipRight.simps)
  have tl: "aleft t = l" "aright t = r" using ascii_tests(1) [OF t] by simp_all
  show ?thesis
  proof (cases "if l then indexFunc (take (end1 - start) (drop start s)) f else Some 0")
    case None
    then have "l" "skipLeft t s start end1 = end1" using L by (auto split: if_splits)
    then show ?thesis unfolding u None option.case asciiTrim_def Let_def tl by (simp add: z)
  next
    case (Some pos)
    then have a: "(if l then skipLeft t s start end1 else start) = start + pos" using L by (auto split: if_splits)
    have "start + pos \<le> end1"
      using Some indexFunc_less [of "take (end1 - start) (drop start s)" f pos] assms(2) by (auto split: if_splits)
    from R [OF le_add1 this] show ?thesis unfolding u Some option.case asciiTrim_def Let_def tl a by simp
  qed
qed

section \<open>Properties\<close>

text \<open>On a part of the string that is ASCII the fast trimmer, which \<open>newTrimmer\<close> chooses for a set of
  ASCII characters, returns the same range as the general trimmer.\<close>

theorem trimmers_agree:
  assumes "newTrimmer trimChars l r = Ascii t" and "start \<le> end1" and "end1 \<le> length s"
    and "list_all (\<lambda>c. byte c < 128) (take (end1 - start) (drop start s))"
  shows "Trim (newTrimmer trimChars l r) s start end1 =
    utf8Trim (newUTF8Trimmer trimChars l r) s start end1"
proof -
  have "newASCIITrimmer trimChars l r = Some t"
    using assms(1) by (auto simp: newTrimmer_def split: option.splits)
  from asciiTrim_utf8Trim [OF this assms(2-4)] show ?thesis by (simp add: assms(1))
qed

theorem trimmers_agree_witness:
  "Trim (newTrimmer '' '' True True) '' ab '' 0 4 = utf8Trim (newUTF8Trimmer '' '' True True) '' ab '' 0 4"
proof -
  have "newTrimmer '' '' True True = Ascii \<lparr>chars = {32}, aleft = True, aright = True\<rparr>"
    by (simp add: newTrimmer_def newASCIITrimmer_def asciiLimit_def)
  moreover have "list_all (\<lambda>c. byte c < 128) (take (4 - 0) (drop 0 '' ab ''))" by simp
  ultimately show ?thesis by (intro trimmers_agree) simp_all
qed

text \<open>A dissector with any trimmer, for a tokenizer without fixed-length fields in which a greedy
  field is not directly followed by another field, always returns and never panics, and succeeds
  on the same strings as without the trimmer.\<close>

theorem Dissect_trim:
  assumes "slice_sorter sortFields (ordinal \<circ> base)" and "New sortFields tokenizer = Ok d"
    and "no_fixed (dparser d)" and "chain_ok (delimiters (dparser d))"
  shows "\<exists>res. Dissect (Some (Trim (newTrimmer trimChars l r))) d s = Some res \<and> res \<noteq> Panic \<and>
    ((\<exists>m. res = Ok m) \<longleftrightarrow> (\<exists>m. Dissect None d s = Some (Ok m)))"
  using New_wf [OF assms(1,2)] by (intro Dissect_trim_total assms) blast

theorem Dissect_trim_witness:
  "\<exists>d res. New sortOrdinal ''%{a} - %{b}'' = Ok d \<and>
     Dissect (Some (Trim (newTrimmer '' '' True True))) d ''x - y'' = Some res \<and> res \<noteq> Panic"
proof -
  have ok: "is_Ok (New sortOrdinal ''%{a} - %{b}'')" by code_simp
  have nf: "(case New sortOrdinal ''%{a} - %{b}'' of Ok d \<Rightarrow> no_fixed (dparser d) \<and> chain_ok (delimiters (dparser d)) | _ \<Rightarrow> False)"
    by code_simp
  obtain d where d: "New sortOrdinal ''%{a} - %{b}'' = Ok d" using ok by (auto simp: is_Ok_iff)
  with nf have "no_fixed (dparser d)" "chain_ok (delimiters (dparser d))" by auto
  from Dissect_trim [OF stable_sort.slice_sorter_axioms d this] d show ?thesis by blast
qed

end
