(* ===== verification/Monitoring.thy ===== *)
theory Monitoring
  imports Go_Prelude
begin

unbundle bit_operations_syntax

text \<open>
  Package \<open>monitoring\<close> (src/monitoring): a tree of registries with metrics at its leaves, addressed by
  dotted names, and the visitors that report it. This theory holds the options (opts.go), the
  registry (registry.go), the metrics (metrics.go), the reporting functions (visitor.go), the
  unique list (list.go) and the namespaces (namespace.go).

  A metric is shared between its registry and the client that created it, so it is a cell of a
  heap and the registry holds its address. A registry is a tree of its entries: an operation on a
  sub-registry is the operation on the tree at its place. \<open>Visit\<close> is modelled by the sequence of calls
  it makes on the visitor. The bits of a float are stored, as in the code.
\<close>

section \<open>Modes and options\<close>

datatype Mode = Reported | Full

instantiation Mode :: linorder
begin

definition less_eq_Mode :: "Mode \<Rightarrow> Mode \<Rightarrow> bool" where
  "less_eq_Mode a b \<longleftrightarrow> a = Reported \<or> b = Full"

definition less_Mode :: "Mode \<Rightarrow> Mode \<Rightarrow> bool" where
  "less_Mode a b \<longleftrightarrow> a = Reported \<and> b = Full"

instance
proof
  show "x < y \<longleftrightarrow> x \<le> y \<and> \<not> y \<le> x" for x y :: Mode
    by (cases x; cases y) (auto simp: less_Mode_def less_eq_Mode_def)
  show "x \<le> x" for x :: Mode by (cases x) (auto simp: less_eq_Mode_def)
  show "x \<le> y \<Longrightarrow> y \<le> z \<Longrightarrow> x \<le> z" for x y z :: Mode
    by (cases x; cases z) (auto simp: less_eq_Mode_def)
  show "x \<le> y \<Longrightarrow> y \<le> x \<Longrightarrow> x = y" for x y :: Mode
    by (cases x; cases y) (auto simp: less_eq_Mode_def)
  show "x \<le> y \<or> y \<le> x" for x y :: Mode by (cases x) (auto simp: less_eq_Mode_def)
qed

end

record options =
  publishExpvar :: bool
  omode :: Mode

definition defaultOptions :: options where
  "defaultOptions = \<lparr>publishExpvar = False, omode = Full\<rparr>"

definition PublishExpvar :: "options \<Rightarrow> options" where
  "PublishExpvar opt1 = opt1\<lparr>publishExpvar := True\<rparr>"

definition IgnorePublishExpvar :: "options \<Rightarrow> options" where
  "IgnorePublishExpvar opt1 = opt1\<lparr>publishExpvar := False\<rparr>"

definition Report :: "options \<Rightarrow> options" where
  "Report opt1 = opt1\<lparr>omode := Reported\<rparr>"

definition DoNotReport :: "options \<Rightarrow> options" where
  "DoNotReport opt1 = opt1\<lparr>omode := Full\<rparr>"

definition ensureOptions :: "options option \<Rightarrow> options" where
  "ensureOptions inp = (case inp of Some opt1 \<Rightarrow> opt1 | None \<Rightarrow> defaultOptions)"

definition varOpts :: "options option \<Rightarrow> (options \<Rightarrow> options) list \<Rightarrow> options" where
  "varOpts regOpts opts =
     (case regOpts of
        Some ro \<Rightarrow> if opts = [] then ro else foldl (\<lambda>acc opt1. opt1 acc) ro opts
      | None \<Rightarrow> foldl (\<lambda>acc opt1. opt1 acc) defaultOptions opts)"

definition applyOpts :: "options option \<Rightarrow> (options \<Rightarrow> options) list \<Rightarrow> options" where
  "applyOpts inp opts =
     (if opts = [] then ensureOptions inp
      else foldl (\<lambda>acc opt1. opt1 acc) (ensureOptions inp) opts)"

section \<open>Metrics\<close>

datatype event =
    OnRegistryStart | OnRegistryFinished | OnKey string
  | OnString string | OnBool bool | OnInt int | OnFloat "64 word" | OnStringSlice "string list"

text \<open>A time is a number, the zero time \<open>None\<close>; \<open>cached\<close> is the formatted time or empty.\<close>

record Timestamp =
  ts :: "int option"
  cached :: string

datatype metric =
    MInt "64 word"
  | MUint "64 word"
  | MFloat "64 word"
  | MBool bool
  | MString string
  | MTimestamp Timestamp
  | MFunc "Mode \<Rightarrow> event list"

definition Int_Add :: "64 word \<Rightarrow> 64 word \<Rightarrow> 64 word" where "Int_Add v delta = v + delta"
definition Int_Sub :: "64 word \<Rightarrow> 64 word \<Rightarrow> 64 word" where "Int_Sub v delta = v + (- delta)"
definition Int_Inc :: "64 word \<Rightarrow> 64 word" where "Int_Inc v = v + 1"
definition Int_Dec :: "64 word \<Rightarrow> 64 word" where "Int_Dec v = v + (- 1)"
definition Int_Visit :: "64 word \<Rightarrow> event list" where "Int_Visit v = [OnInt (sint v)]"

definition Uint_Add :: "64 word \<Rightarrow> 64 word \<Rightarrow> 64 word" where "Uint_Add v delta = v + delta"
definition Uint_Sub :: "64 word \<Rightarrow> 64 word \<Rightarrow> 64 word" where "Uint_Sub v delta = v + (- delta)"
definition Uint_Inc :: "64 word \<Rightarrow> 64 word" where "Uint_Inc v = v + 1"
definition Uint_Dec :: "64 word \<Rightarrow> 64 word" where "Uint_Dec v = v + NOT 0"

definition Uint_Visit :: "64 word \<Rightarrow> event list" where
  "Uint_Visit v = (let value1 = v AND NOT (push_bit 63 1) in [OnInt (sint value1)])"

text \<open>\<open>time.Format\<close> with the layout of the package is an argument.\<close>

definition Timestamp_Set :: "Timestamp \<Rightarrow> int option \<Rightarrow> Timestamp" where
  "Timestamp_Set v t = v\<lparr>ts := t, cached := []\<rparr>"

definition Timestamp_toString :: "(int \<Rightarrow> string) \<Rightarrow> Timestamp \<Rightarrow> string \<times> Timestamp" where
  "Timestamp_toString format v =
     (case ts v of
        None \<Rightarrow> ([], v)
      | Some t \<Rightarrow>
          if cached v = [] then (format t, v\<lparr>cached := format t\<rparr>) else (cached v, v))"

fun visitMetric :: "(int \<Rightarrow> string) \<Rightarrow> Mode \<Rightarrow> metric \<Rightarrow> event list" where
  "visitMetric format mode (MInt v) = Int_Visit v"
| "visitMetric format mode (MUint v) = Uint_Visit v"
| "visitMetric format mode (MFloat v) = [OnFloat v]"
| "visitMetric format mode (MBool v) = [OnBool v]"
| "visitMetric format mode (MString v) = [OnString v]"
| "visitMetric format mode (MTimestamp v) = [OnString (fst (Timestamp_toString format v))]"
| "visitMetric format mode (MFunc f) = f mode"

section \<open>The registry\<close>

datatype var = VReg registry | VMet nat
and registry = Registry (rname: string) (ropts: options) (rentries: "(string \<times> (var \<times> Mode)) list")

datatype reg_error = ErrNotFound | ErrInvalidName | ErrNameUsed | ErrExpvar

type_synonym rentry = "var \<times> Mode"

abbreviation set_entries :: "(string \<times> rentry) list \<Rightarrow> registry \<Rightarrow> registry" where
  "set_entries es r \<equiv> Registry (rname r) (ropts r) es"

definition NewRegistry0 :: "(options \<Rightarrow> options) list \<Rightarrow> registry" where
  "NewRegistry0 opts = Registry [] (applyOpts None opts) []"

definition fullName :: "registry \<Rightarrow> string \<Rightarrow> string" where
  "fullName r name = (if rname r = [] then name else rname r @ ''.'' @ name)"

fun findNames :: "string list \<Rightarrow> registry \<Rightarrow> (reg_error, rentry option) outcome" where
  "findNames [] r = Ok (Some (VReg r, omode (ropts r)))"
| "findNames [n] r = Ok (map_of (rentries r) n)"
| "findNames (n # n2 # ns) r =
     (case map_of (rentries r) n of
        None \<Rightarrow> Err ErrNotFound
      | Some (VReg reg, _) \<Rightarrow> findNames (n2 # ns) reg
      | Some (VMet _, _) \<Rightarrow> Err ErrInvalidName)"

definition find1 :: "registry \<Rightarrow> string \<Rightarrow> (reg_error, rentry option) outcome" where
  "find1 r name = findNames (split_byte CHR ''.'' name) r"

definition Get :: "registry \<Rightarrow> string \<Rightarrow> var option" where
  "Get r name = (case find1 r name of Ok e \<Rightarrow> map_option fst e | _ \<Rightarrow> None)"

definition GetRegistry :: "registry \<Rightarrow> string \<Rightarrow> registry option" where
  "GetRegistry r name = (case Get r name of Some (VReg reg) \<Rightarrow> Some reg | _ \<Rightarrow> None)"

fun addNames :: "string list \<Rightarrow> var \<Rightarrow> options \<Rightarrow> registry \<Rightarrow> (reg_error, registry) outcome" where
  "addNames [] v opts r = Panic"
| "addNames [n] v opts r =
     (case map_of (rentries r) n of
        Some _ \<Rightarrow> Err ErrNameUsed
      | None \<Rightarrow> Ok (set_entries (map_put n (v, omode opts) (rentries r)) r))"
| "addNames (n # n2 # ns) v opts r =
     (case map_of (rentries r) n of
        Some (VReg reg, m) \<Rightarrow>
          bind_outcome (addNames (n2 # ns) v opts reg)
            (\<lambda>reg'. Ok (set_entries (map_put n (VReg reg', m) (rentries r)) r))
      | Some (VMet _, _) \<Rightarrow> Err ErrNameUsed
      | None \<Rightarrow>
          bind_outcome (addNames (n2 # ns) v opts (Registry [] opts []))
            (\<lambda>sub. Ok (set_entries (map_put n (VReg sub, omode opts) (rentries r)) r)))"

text \<open>\<open>Add\<close> and \<open>doAdd\<close> panic on an error.\<close>

definition panicErr :: "(reg_error, 'a) outcome \<Rightarrow> (reg_error, 'a) outcome" where
  "panicErr x = (case x of Ok y \<Rightarrow> Ok y | _ \<Rightarrow> Panic)"

definition Add :: "registry \<Rightarrow> string \<Rightarrow> var \<Rightarrow> Mode \<Rightarrow> (reg_error, registry) outcome" where
  "Add r name v m =
     (let opts = (if m \<noteq> omode (ropts r) then (ropts r)\<lparr>omode := m\<rparr> else ropts r) in
      panicErr (addNames (split_byte CHR ''.'' name) v opts r))"

definition doAdd :: "registry \<Rightarrow> string \<Rightarrow> var \<Rightarrow> options \<Rightarrow> (reg_error, registry) outcome" where
  "doAdd r name v opts = panicErr (addNames (split_byte CHR ''.'' name) v opts r)"

definition NewRegistry :: "registry \<Rightarrow> string \<Rightarrow> (options \<Rightarrow> options) list \<Rightarrow> (reg_error, registry) outcome" where
  "NewRegistry r name opts =
     (let v = Registry (fullName r name) (applyOpts (Some (ropts r)) opts) []
      in Add r name (VReg v) (omode (ropts v)))"

text \<open>The new chain below \<open>cur\<close>, and its last registry.\<close>

fun newRegistryChainWithLock :: "registry \<Rightarrow> string list \<Rightarrow> options \<Rightarrow> registry \<times> registry" where
  "newRegistryChainWithLock cur [] opts = (cur, cur)"
| "newRegistryChainWithLock cur (n # ns) opts =
     (case newRegistryChainWithLock (Registry (fullName cur n) opts []) ns opts of
        (sub, leaf) \<Rightarrow> (set_entries (map_put n (VReg sub, omode opts) (rentries cur)) cur, leaf))"

text \<open>The registry after the call, and the result, \<open>None\<close> for nil.\<close>

fun getOrCreateNames :: "string list \<Rightarrow> (options \<Rightarrow> options) list \<Rightarrow> registry \<Rightarrow> registry \<times> registry option" where
  "getOrCreateNames [] opts r = (r, Some r)"
| "getOrCreateNames (n # ns) opts r =
     (case map_of (rentries r) n of
        Some (VReg reg, m) \<Rightarrow>
          (case getOrCreateNames ns opts reg of
             (reg', res) \<Rightarrow> (set_entries (map_put n (VReg reg', m) (rentries r)) r, res))
      | Some (VMet _, _) \<Rightarrow> (r, None)
      | None \<Rightarrow>
          (case newRegistryChainWithLock r (n # ns) (applyOpts (Some (ropts r)) opts) of
             (r', leaf) \<Rightarrow> (r', Some leaf)))"

definition GetOrCreateRegistry :: "registry \<Rightarrow> string \<Rightarrow> (options \<Rightarrow> options) list \<Rightarrow> registry \<times> registry option" where
  "GetOrCreateRegistry r name opts = getOrCreateNames (split_byte CHR ''.'' name) opts r"

fun removeNames :: "string list \<Rightarrow> registry \<Rightarrow> registry" where
  "removeNames [] r = r"
| "removeNames [n] r = set_entries (map_del n (rentries r)) r"
| "removeNames (n # n2 # ns) r =
     (case map_of (rentries r) n of
        Some (VReg sub, m) \<Rightarrow>
          (let sub' = removeNames (n2 # ns) sub in
           if rentries sub' = [] then set_entries (map_del n (rentries r)) r
           else set_entries (map_put n (VReg sub', m) (rentries r)) r)
      | _ \<Rightarrow> r)"

definition Remove :: "registry \<Rightarrow> string \<Rightarrow> registry" where
  "Remove r name = removeNames (split_byte CHR ''.'' name) r"

definition Clear :: "registry \<Rightarrow> registry \<times> (reg_error, unit) outcome" where
  "Clear r = (if publishExpvar (ropts r) then (r, Err ErrExpvar) else (set_entries [] r, Ok ()))"

text \<open>The calls \<open>doVisit\<close> makes on the visitor, for the iteration order of the entries.\<close>

fun visitVar :: "(int \<Rightarrow> string) \<Rightarrow> metric list \<Rightarrow> Mode \<Rightarrow> var \<Rightarrow> event list"
and doVisit :: "(int \<Rightarrow> string) \<Rightarrow> metric list \<Rightarrow> Mode \<Rightarrow> registry \<Rightarrow> event list"
and visitEntries :: "(int \<Rightarrow> string) \<Rightarrow> metric list \<Rightarrow> Mode \<Rightarrow> (string \<times> rentry) list \<Rightarrow> event list" where
  "visitVar format h mode (VReg r) = doVisit format h mode r"
| "visitVar format h mode (VMet a) = visitMetric format mode (h ! a)"
| "doVisit format h mode (Registry n opts es) =
     [OnRegistryStart] @ visitEntries format h mode es @ [OnRegistryFinished]"
| "visitEntries format h mode [] = []"
| "visitEntries format h mode ((key, v, m) # es) =
     (case v of
        VReg _ \<Rightarrow> [OnKey key] @ visitVar format h mode v @ visitEntries format h mode es
      | VMet _ \<Rightarrow>
          if m > mode then visitEntries format h mode es
          else [OnKey key] @ visitVar format h mode v @ visitEntries format h mode es)"

section \<open>Creating metrics\<close>

text \<open>
  The registry, the heap of metrics and the names published to \<open>expvar\<close>, which are never removed;
  publishing a name twice panics.
\<close>

record mon =
  mreg :: registry
  mheap :: "metric list"
  expvars :: "string list"

definition setupMetric :: "mon \<Rightarrow> bool \<Rightarrow> string \<Rightarrow> (options \<Rightarrow> options) list \<Rightarrow> (reg_error, var option) outcome" where
  "setupMetric st isNil name opts =
     (if isNil then Ok None
      else (case Get (mreg st) name of
              None \<Rightarrow> Ok None
            | Some v \<Rightarrow> if opts \<noteq> [] then Panic else Ok (Some v)))"

definition addVar :: "mon \<Rightarrow> string \<Rightarrow> (options \<Rightarrow> options) list \<Rightarrow> var \<Rightarrow> bool \<Rightarrow> (reg_error, mon) outcome" where
  "addVar st name opts v hasExpvar =
     (let opt1 = varOpts (Some (ropts (mreg st))) opts in
      bind_outcome (doAdd (mreg st) name v opt1) (\<lambda>r'.
        if publishExpvar opt1 \<and> hasExpvar then
          (let full = fullName (mreg st) name in
           if full \<in> set (expvars st) then Panic
           else Ok (st\<lparr>mreg := r', expvars := expvars st @ [full]\<rparr>))
        else Ok (st\<lparr>mreg := r'\<rparr>)))"

text \<open>
  The common body of the constructors: the type test on an existing variable and the new metric
  are arguments. The registry of the state is the receiver, or the default registry when the
  receiver is nil; the result is the address of the metric.
\<close>

definition newMetric :: "(metric \<Rightarrow> bool) \<Rightarrow> metric \<Rightarrow> bool \<Rightarrow> mon \<Rightarrow> bool \<Rightarrow> string \<Rightarrow>
    (options \<Rightarrow> options) list \<Rightarrow> (reg_error, mon \<times> nat) outcome" where
  "newMetric isKind fresh hasExpvar st isNil name opts =
     bind_outcome (setupMetric st isNil name opts) (\<lambda>existingVar.
       case existingVar of
         Some (VMet a) \<Rightarrow> if isKind (mheap st ! a) then Ok (st, a) else Panic
       | Some (VReg _) \<Rightarrow> Panic
       | None \<Rightarrow>
           (let a = length (mheap st) in
            bind_outcome (addVar (st\<lparr>mheap := mheap st @ [fresh]\<rparr>) name opts (VMet a) hasExpvar)
              (\<lambda>st'. Ok (st', a))))"

fun is_MInt :: "metric \<Rightarrow> bool" where "is_MInt (MInt _) = True" | "is_MInt _ = False"
fun is_MUint :: "metric \<Rightarrow> bool" where "is_MUint (MUint _) = True" | "is_MUint _ = False"
fun is_MFloat :: "metric \<Rightarrow> bool" where "is_MFloat (MFloat _) = True" | "is_MFloat _ = False"
fun is_MBool :: "metric \<Rightarrow> bool" where "is_MBool (MBool _) = True" | "is_MBool _ = False"
fun is_MString :: "metric \<Rightarrow> bool" where "is_MString (MString _) = True" | "is_MString _ = False"
fun is_MTimestamp :: "metric \<Rightarrow> bool" where "is_MTimestamp (MTimestamp _) = True" | "is_MTimestamp _ = False"
fun is_MFunc :: "metric \<Rightarrow> bool" where "is_MFunc (MFunc _) = True" | "is_MFunc _ = False"

definition NewInt where "NewInt = newMetric is_MInt (MInt 0) True"
definition NewUint where "NewUint = newMetric is_MUint (MUint 0) True"
definition NewFloat where "NewFloat = newMetric is_MFloat (MFloat 0) True"
definition NewBool where "NewBool = newMetric is_MBool (MBool False) True"
definition NewString where "NewString = newMetric is_MString (MString []) True"
definition NewTimestamp where "NewTimestamp = newMetric is_MTimestamp (MTimestamp \<lparr>ts = None, cached = []\<rparr>) True"
definition NewFunc where "NewFunc f = newMetric is_MFunc (MFunc f) False"

section \<open>Unique lists and namespaces\<close>

type_synonym UniqueList = "(string, int) gomap"

definition UniqueList_count :: "UniqueList \<Rightarrow> string \<Rightarrow> int" where
  "UniqueList_count l item = (case map_of l item of Some n \<Rightarrow> n | None \<Rightarrow> 0)"

definition UniqueList_Add :: "UniqueList \<Rightarrow> string \<Rightarrow> UniqueList" where
  "UniqueList_Add l item = map_put item (UniqueList_count l item + 1) l"

definition UniqueList_Remove :: "UniqueList \<Rightarrow> string \<Rightarrow> UniqueList" where
  "UniqueList_Remove l item = map_put item (UniqueList_count l item - 1) l"

definition UniqueList_Report :: "UniqueList \<Rightarrow> event list" where
  "UniqueList_Report l =
     [OnRegistryStart, OnKey ''count'', OnInt (sum_list (map snd l)),
      OnKey ''names'', OnStringSlice (map fst (filter (\<lambda>(_, n). n > 0) l)), OnRegistryFinished]"

text \<open>A namespace is its registry, created at the first use; the namespaces are created at the first use too.\<close>

record Namespace =
  nname :: string
  nregistry :: "registry option"

definition newNamespace :: "string \<Rightarrow> Namespace" where
  "newNamespace name = \<lparr>nname = name, nregistry = None\<rparr>"

definition Namespace_GetRegistry :: "Namespace \<Rightarrow> Namespace \<times> registry" where
  "Namespace_GetRegistry n =
     (case nregistry n of
        Some r \<Rightarrow> (n, r)
      | None \<Rightarrow> (n\<lparr>nregistry := Some (NewRegistry0 [])\<rparr>, NewRegistry0 []))"

definition Namespace_SetRegistry :: "Namespace \<Rightarrow> registry \<Rightarrow> Namespace" where
  "Namespace_SetRegistry n r = n\<lparr>nregistry := Some r\<rparr>"

definition Namespaces_Get :: "(string, Namespace) gomap \<Rightarrow> string \<Rightarrow> (string, Namespace) gomap \<times> Namespace" where
  "Namespaces_Get ns key =
     (case map_of ns key of
        Some n \<Rightarrow> (ns, n)
      | None \<Rightarrow> (map_put key (newNamespace key) ns, newNamespace key))"

end
