(* ===== verification/Monitoring_Visitors.thy ===== *)
theory Monitoring_Visitors
  imports Monitoring
begin

text \<open>
  The visitors of package \<open>monitoring\<close>: the key-value visitor (src/monitoring/visitor_kv.go) and the flat
  and the structured snapshot (src/monitoring/snapshot.go). A visitor is a step function on its state;
  popping an empty stack panics. The calls a variable makes on a visitor are the calls for a tree
  of named values, and the lemmas say what each visitor collects from such a tree.
\<close>

section \<open>Trees of named values\<close>

fun is_value :: "event \<Rightarrow> bool" where
  "is_value (OnString _) = True"
| "is_value (OnBool _) = True"
| "is_value (OnInt _) = True"
| "is_value (OnFloat _) = True"
| "is_value (OnStringSlice _) = True"
| "is_value _ = False"

datatype vtree = Leaf event | Node "(string \<times> vtree) list"

fun events_of :: "vtree \<Rightarrow> event list"
and events_of_list :: "(string \<times> vtree) list \<Rightarrow> event list" where
  "events_of (Leaf e) = [e]"
| "events_of (Node kts) = OnRegistryStart # events_of_list kts @ [OnRegistryFinished]"
| "events_of_list [] = []"
| "events_of_list ((k, t) # kts) = OnKey k # events_of t @ events_of_list kts"

fun wf_tree :: "vtree \<Rightarrow> bool"
and wf_trees :: "(string \<times> vtree) list \<Rightarrow> bool" where
  "wf_tree (Leaf e) = is_value e"
| "wf_tree (Node kts) = wf_trees kts"
| "wf_trees [] = True"
| "wf_trees ((k, t) # kts) = (wf_tree t \<and> wf_trees kts)"

text \<open>The values of a tree with their names, from the name of the root.\<close>

fun leaves_of :: "string list \<Rightarrow> vtree \<Rightarrow> (string list \<times> event) list"
and leaves_of_list :: "string list \<Rightarrow> (string \<times> vtree) list \<Rightarrow> (string list \<times> event) list" where
  "leaves_of p (Leaf e) = [(p, e)]"
| "leaves_of p (Node kts) = leaves_of_list p kts"
| "leaves_of_list p [] = []"
| "leaves_of_list p ((k, t) # kts) = leaves_of (p @ [k]) t @ leaves_of_list p kts"

section \<open>Running a visitor\<close>

fun run :: "(event \<Rightarrow> 's \<Rightarrow> (unit, 's) outcome) \<Rightarrow> event list \<Rightarrow> 's \<Rightarrow> (unit, 's) outcome" where
  "run step [] s = Ok s"
| "run step (e # es) s = bind_outcome (step e s) (run step es)"

lemma run_append: "run step (xs @ ys) s = bind_outcome (run step xs s) (run step ys)"
proof (induction xs arbitrary: s)
  case (Cons e xs)
  then show ?case by (cases "step e s") auto
qed simp

section \<open>The key-value visitor\<close>

text \<open>The calls of the callback, in order, and the level.\<close>

record KeyValueVisitor =
  calls :: "(string \<times> event) list"
  klevel :: "string list"

definition kv_dropName :: "KeyValueVisitor \<Rightarrow> (unit, KeyValueVisitor) outcome" where
  "kv_dropName vs = (if klevel vs = [] then Panic else Ok (vs\<lparr>klevel := butlast (klevel vs)\<rparr>))"

definition kv_getName :: "KeyValueVisitor \<Rightarrow> string" where
  "kv_getName vs = (if length (klevel vs) = 1 then klevel vs ! 0 else join_str ''.'' (klevel vs))"

fun kv_step :: "event \<Rightarrow> KeyValueVisitor \<Rightarrow> (unit, KeyValueVisitor) outcome" where
  "kv_step OnRegistryStart vs = Ok vs"
| "kv_step OnRegistryFinished vs = (if length (klevel vs) > 0 then kv_dropName vs else Ok vs)"
| "kv_step (OnKey name) vs = Ok (vs\<lparr>klevel := klevel vs @ [name]\<rparr>)"
| "kv_step e vs =
     bind_outcome (kv_dropName vs) (\<lambda>vs'. Ok (vs'\<lparr>calls := calls vs' @ [(kv_getName vs, e)]\<rparr>))"

section \<open>The flat snapshot\<close>

record FlatSnapshot =
  Bools :: "(string, bool) gomap"
  Ints :: "(string, int) gomap"
  Floats :: "(string, 64 word) gomap"
  Strings :: "(string, string) gomap"
  StringSlices :: "(string, string list) gomap"

definition MakeFlatSnapshot :: FlatSnapshot where
  "MakeFlatSnapshot = \<lparr>Bools = [], Ints = [], Floats = [], Strings = [], StringSlices = []\<rparr>"

record flatSnapshotVisitor =
  snapshot :: FlatSnapshot
  flevel :: "string list"

definition newFlatSnapshotVisitor :: flatSnapshotVisitor where
  "newFlatSnapshotVisitor = \<lparr>snapshot = MakeFlatSnapshot, flevel = []\<rparr>"

definition flat_dropName :: "flatSnapshotVisitor \<Rightarrow> (unit, flatSnapshotVisitor) outcome" where
  "flat_dropName vs = (if flevel vs = [] then Panic else Ok (vs\<lparr>flevel := butlast (flevel vs)\<rparr>))"

definition flat_getName :: "flatSnapshotVisitor \<Rightarrow> string" where
  "flat_getName vs = (if length (flevel vs) = 1 then flevel vs ! 0 else join_str ''.'' (flevel vs))"

fun flat_store :: "string \<Rightarrow> event \<Rightarrow> FlatSnapshot \<Rightarrow> FlatSnapshot" where
  "flat_store name (OnString s) sn = sn\<lparr>Strings := map_put name s (Strings sn)\<rparr>"
| "flat_store name (OnBool b) sn = sn\<lparr>Bools := map_put name b (Bools sn)\<rparr>"
| "flat_store name (OnInt n) sn = sn\<lparr>Ints := map_put name n (Ints sn)\<rparr>"
| "flat_store name (OnFloat f) sn = sn\<lparr>Floats := map_put name f (Floats sn)\<rparr>"
| "flat_store name (OnStringSlice f) sn = sn\<lparr>StringSlices := map_put name f (StringSlices sn)\<rparr>"
| "flat_store name _ sn = sn"

fun flat_step :: "event \<Rightarrow> flatSnapshotVisitor \<Rightarrow> (unit, flatSnapshotVisitor) outcome" where
  "flat_step OnRegistryStart vs = Ok vs"
| "flat_step OnRegistryFinished vs = (if length (flevel vs) > 0 then flat_dropName vs else Ok vs)"
| "flat_step (OnKey name) vs = Ok (vs\<lparr>flevel := flevel vs @ [name]\<rparr>)"
| "flat_step e vs =
     bind_outcome (flat_dropName vs) (\<lambda>vs'. Ok (vs'\<lparr>snapshot := flat_store (flat_getName vs) e (snapshot vs')\<rparr>))"

section \<open>Visitors that name values by their level\<close>

text \<open>All values of a list stored in order, each under its joined name.\<close>

definition collect :: "(string \<Rightarrow> event \<Rightarrow> 's \<Rightarrow> 's) \<Rightarrow> (string list \<times> event) list \<Rightarrow> 's \<Rightarrow> 's" where
  "collect emit ls s = foldl (\<lambda>s (p, e). emit (join_str ''.'' p) e s) s ls"

text \<open>
  What the two visitors share: a level that keys extend, and values stored under the joined level.
  The client lemma says what such a visitor does with a tree.
\<close>

locale level_visitor =
  fixes step :: "event \<Rightarrow> 's \<Rightarrow> (unit, 's) outcome"
    and lvl :: "'s \<Rightarrow> string list"
    and set_lvl :: "string list \<Rightarrow> 's \<Rightarrow> 's"
    and emit :: "string \<Rightarrow> event \<Rightarrow> 's \<Rightarrow> 's"
  assumes step_start: "step OnRegistryStart s = Ok s"
    and step_finished: "step OnRegistryFinished s = Ok (set_lvl (butlast (lvl s)) s)"
    and step_key: "step (OnKey k) s = Ok (set_lvl (lvl s @ [k]) s)"
    and step_value: "is_value e \<Longrightarrow> lvl s \<noteq> [] \<Longrightarrow>
      step e s = Ok (emit (join_str ''.'' (lvl s)) e (set_lvl (butlast (lvl s)) s))"
    and lvl_set: "lvl (set_lvl l s) = l"
    and set_set: "set_lvl l (set_lvl l' s) = set_lvl l s"
    and set_lvl_id: "set_lvl (lvl s) s = s"
    and set_emit: "set_lvl l (emit n e s) = emit n e (set_lvl l s)"
begin

lemma lvl_emit: "lvl (emit n e s) = lvl s"
  using lvl_set [of "lvl s" "emit n e s"] by (simp add: set_emit set_lvl_id)

lemma collect_append: "collect emit (xs @ ys) s = collect emit ys (collect emit xs s)"
  by (simp add: collect_def)

lemma set_collect: "set_lvl l (collect emit ls s) = collect emit ls (set_lvl l s)"
  by (induction ls arbitrary: s) (auto simp: collect_def set_emit)

lemma lvl_collect: "lvl (collect emit ls s) = lvl s"
  by (induction ls arbitrary: s) (auto simp: collect_def lvl_emit)

lemma run_tree:
  "wf_tree t \<Longrightarrow> lvl s \<noteq> [] \<Longrightarrow>
     run step (events_of t) s = Ok (set_lvl (butlast (lvl s)) (collect emit (leaves_of (lvl s) t) s))"
  "wf_trees kts \<Longrightarrow>
     run step (events_of_list kts) s = Ok (collect emit (leaves_of_list (lvl s) kts) s)"
proof (induction t and kts arbitrary: s and s rule: events_of_events_of_list.induct)
  case (1 e)
  then show ?case by (simp add: step_value collect_def set_emit)
next
  case (2 kts)
  then show ?case by (simp add: step_start run_append step_finished lvl_collect)
next
  case 3
  then show ?case by (simp add: collect_def)
next
  case (4 k t kts)
  let ?s = "set_lvl (lvl s @ [k]) s"
  have "run step (events_of t) ?s = Ok (set_lvl (lvl s) (collect emit (leaves_of (lvl s @ [k]) t) ?s))"
    using 4 by (simp add: lvl_set)
  also have "\<dots> = Ok (collect emit (leaves_of (lvl s @ [k]) t) s)"
    by (simp add: set_collect set_set set_lvl_id)
  finally show ?case
    using 4 by (simp add: step_key run_append collect_append lvl_collect)
qed

lemma run_root:
  "wf_tree (Node kts) \<Longrightarrow> lvl s = [] \<Longrightarrow> run step (events_of (Node kts)) s = Ok (collect emit (leaves_of [] (Node kts)) s)"
  using run_tree(2) [of kts s] set_lvl_id [of "collect emit (leaves_of_list [] kts) s"]
  by (simp add: step_start run_append step_finished lvl_collect)

end

lemma join_level: "l \<noteq> [] \<Longrightarrow> (if length l = 1 then l ! 0 else join_str ''.'' l) = join_str ''.'' l"
  by (cases l; cases "tl l") auto

lemma kv_name: "klevel vs \<noteq> [] \<Longrightarrow> kv_getName vs = join_str ''.'' (klevel vs)"
  unfolding kv_getName_def by (rule join_level)

lemma flat_name: "flevel vs \<noteq> [] \<Longrightarrow> flat_getName vs = join_str ''.'' (flevel vs)"
  unfolding flat_getName_def by (rule join_level)

interpretation kv: level_visitor kv_step klevel "\<lambda>l vs. vs\<lparr>klevel := l\<rparr>"
  "\<lambda>name e vs. vs\<lparr>calls := calls vs @ [(name, e)]\<rparr>"
proof
  show "kv_step e s = Ok (s\<lparr>klevel := butlast (klevel s), calls := calls (s\<lparr>klevel := butlast (klevel s)\<rparr>) @ [(join_str ''.'' (klevel s), e)]\<rparr>)"
    if "is_value e" "klevel s \<noteq> []" for e s
    using that by (cases e) (simp_all add: kv_dropName_def kv_name)
qed (auto simp: kv_dropName_def)

interpretation flat: level_visitor flat_step flevel "\<lambda>l vs. vs\<lparr>flevel := l\<rparr>"
  "\<lambda>name e vs. vs\<lparr>snapshot := flat_store name e (snapshot vs)\<rparr>"
proof
  show "flat_step e s = Ok (s\<lparr>flevel := butlast (flevel s),
      snapshot := flat_store (join_str ''.'' (flevel s)) e (snapshot (s\<lparr>flevel := butlast (flevel s)\<rparr>))\<rparr>)"
    if "is_value e" "flevel s \<noteq> []" for e s
    using that by (cases e) (simp_all add: flat_dropName_def flat_name)
qed (auto simp: flat_dropName_def)

section \<open>The structured snapshot\<close>

datatype sval = SVal event | STime int | SMap "(string \<times> sval) list"

type_synonym smap = "(string, sval) gomap option"

text \<open>The key stack, the event stack (\<open>None\<close> is a nil map) and the depth.\<close>

record structSnapshotVisitor =
  kcurrent :: string
  kstack :: "string list"
  ecurrent :: smap
  estack :: "smap list"
  depth :: nat

definition newStructSnapshotVisitor :: structSnapshotVisitor where
  "newStructSnapshotVisitor = \<lparr>kcurrent = [], kstack = [], ecurrent = None, estack = [], depth = 0\<rparr>"

definition key_push :: "string \<Rightarrow> structSnapshotVisitor \<Rightarrow> structSnapshotVisitor" where
  "key_push key s = s\<lparr>kstack := kstack s @ [kcurrent s], kcurrent := key\<rparr>"

definition key_pop :: "structSnapshotVisitor \<Rightarrow> (unit, structSnapshotVisitor) outcome" where
  "key_pop s =
     (if kstack s = [] then Panic
      else Ok (s\<lparr>kcurrent := last (kstack s), kstack := butlast (kstack s)\<rparr>))"

definition event_push :: "structSnapshotVisitor \<Rightarrow> structSnapshotVisitor" where
  "event_push s = s\<lparr>estack := estack s @ [ecurrent s], ecurrent := None\<rparr>"

definition event_pop :: "structSnapshotVisitor \<Rightarrow> (unit, smap \<times> structSnapshotVisitor) outcome" where
  "event_pop s =
     (if estack s = [] then Panic
      else Ok (ecurrent s, s\<lparr>ecurrent := last (estack s), estack := butlast (estack s)\<rparr>))"

definition setValue :: "sval \<Rightarrow> structSnapshotVisitor \<Rightarrow> (unit, structSnapshotVisitor) outcome" where
  "setValue v s =
     (let cur = (case ecurrent s of None \<Rightarrow> [] | Some m \<Rightarrow> m)
      in key_pop (s\<lparr>ecurrent := Some (map_put (kcurrent s) v cur)\<rparr>))"

fun struct_step :: "event \<Rightarrow> structSnapshotVisitor \<Rightarrow> (unit, structSnapshotVisitor) outcome" where
  "struct_step OnRegistryStart s =
     (let s' = (if depth s > 0 then event_push s else s) in Ok (s'\<lparr>depth := depth s' + 1\<rparr>))"
| "struct_step OnRegistryFinished s =
     (let s' = s\<lparr>depth := depth s - 1\<rparr> in
      if depth s' = 0 then Ok s'
      else bind_outcome (event_pop s') (\<lambda>(event, s'').
             case event of None \<Rightarrow> key_pop s'' | Some m \<Rightarrow> setValue (SMap m) s''))"
| "struct_step (OnKey key) s = Ok (key_push key s)"
| "struct_step e s = setValue (SVal e) s"

text \<open>What is collected from a tree: nothing from a node without values.\<close>

fun structRef :: "vtree \<Rightarrow> sval option"
and nodeRef :: "(string \<times> vtree) list \<Rightarrow> smap \<Rightarrow> smap" where
  "structRef (Leaf e) = Some (SVal e)"
| "structRef (Node kts) = map_option SMap (nodeRef kts None)"
| "nodeRef [] m = m"
| "nodeRef ((k, t) # kts) m =
     nodeRef kts (case structRef t of
                    None \<Rightarrow> m
                  | Some v \<Rightarrow> Some (map_put k v (case m of None \<Rightarrow> [] | Some d \<Rightarrow> d)))"

definition put_opt_val :: "string \<Rightarrow> sval option \<Rightarrow> smap \<Rightarrow> smap" where
  "put_opt_val k v m =
     (case v of None \<Rightarrow> m | Some x \<Rightarrow> Some (map_put k x (case m of None \<Rightarrow> [] | Some d \<Rightarrow> d)))"

lemma struct_value: "is_value e \<Longrightarrow> struct_step e s = setValue (SVal e) s"
  by (cases e) auto

text \<open>With a pushed key the visit of a tree stores its value and pops the key.\<close>

lemma struct_run:
  "wf_tree t \<Longrightarrow> 0 < depth s \<Longrightarrow> kstack s \<noteq> [] \<Longrightarrow>
     run struct_step (events_of t) s =
       Ok (s\<lparr>ecurrent := put_opt_val (kcurrent s) (structRef t) (ecurrent s),
            kcurrent := last (kstack s), kstack := butlast (kstack s)\<rparr>)"
  "wf_trees kts \<Longrightarrow> 0 < depth s \<Longrightarrow>
     run struct_step (events_of_list kts) s = Ok (s\<lparr>ecurrent := nodeRef kts (ecurrent s)\<rparr>)"
proof (induction t and kts arbitrary: s and s rule: events_of_events_of_list.induct)
  case (1 e)
  then show ?case by (simp add: struct_value setValue_def key_pop_def put_opt_val_def)
next
  case (2 kts)
  let ?s = "s\<lparr>estack := estack s @ [ecurrent s], ecurrent := None, depth := depth s + 1\<rparr>"
  have 1: "struct_step OnRegistryStart s = Ok ?s" using 2 by (simp add: event_push_def)
  have 3: "run struct_step (events_of_list kts) ?s = Ok (?s\<lparr>ecurrent := nodeRef kts None\<rparr>)"
    using 2 by simp
  have "run struct_step (events_of (Node kts)) s = struct_step OnRegistryFinished (?s\<lparr>ecurrent := nodeRef kts None\<rparr>)"
    by (cases "struct_step OnRegistryFinished (?s\<lparr>ecurrent := nodeRef kts None\<rparr>)")
      (simp_all only: events_of.simps run.simps run_append 1 3 bind_outcome.simps)
  also have "\<dots> = Ok (s\<lparr>ecurrent := put_opt_val (kcurrent s) (structRef (Node kts)) (ecurrent s),
      kcurrent := last (kstack s), kstack := butlast (kstack s)\<rparr>)"
    using 2(3,4) by (cases "nodeRef kts None")
      (simp_all add: event_pop_def key_pop_def setValue_def put_opt_val_def Let_def)
  finally show ?case .
next
  case 3
  then show ?case by simp
next
  case (4 k t kts)
  let ?s = "key_push k s"
  have "run struct_step (events_of t) ?s = Ok (s\<lparr>ecurrent := put_opt_val k (structRef t) (ecurrent s)\<rparr>)"
    using 4(1) [of ?s] 4(3,4) by (simp add: key_push_def)
  then show ?case
    using 4(2) [of "s\<lparr>ecurrent := put_opt_val k (structRef t) (ecurrent s)\<rparr>"] 4(3,4)
    by (simp add: run_append put_opt_val_def)
qed

lemma struct_root:
  "wf_tree (Node kts) \<Longrightarrow>
     run struct_step (events_of (Node kts)) newStructSnapshotVisitor =
       Ok (newStructSnapshotVisitor\<lparr>ecurrent := nodeRef kts None\<rparr>)"
  using struct_run(2) [of kts "newStructSnapshotVisitor\<lparr>depth := 1\<rparr>"]
  by (simp add: run_append newStructSnapshotVisitor_def)

section \<open>The tree of a registry\<close>

text \<open>
  The visible part of a registry. The tree of a metric is an argument, so that functions are
  covered: \<open>mtree\<close> gives a tree for the calls of each metric.
\<close>

fun varTree :: "(metric \<Rightarrow> vtree) \<Rightarrow> metric list \<Rightarrow> Mode \<Rightarrow> var \<Rightarrow> vtree"
and regTree :: "(metric \<Rightarrow> vtree) \<Rightarrow> metric list \<Rightarrow> Mode \<Rightarrow> registry \<Rightarrow> vtree"
and entryTrees :: "(metric \<Rightarrow> vtree) \<Rightarrow> metric list \<Rightarrow> Mode \<Rightarrow> (string \<times> rentry) list \<Rightarrow> (string \<times> vtree) list" where
  "varTree mtree h mode (VReg r) = regTree mtree h mode r"
| "varTree mtree h mode (VMet a) = mtree (h ! a)"
| "regTree mtree h mode (Registry n opts es) = Node (entryTrees mtree h mode es)"
| "entryTrees mtree h mode [] = []"
| "entryTrees mtree h mode ((key, v, m) # es) =
     (case v of
        VReg _ \<Rightarrow> (key, varTree mtree h mode v) # entryTrees mtree h mode es
      | VMet _ \<Rightarrow>
          if m > mode then entryTrees mtree h mode es
          else (key, varTree mtree h mode v) # entryTrees mtree h mode es)"

text \<open>The addresses of the metrics in a registry.\<close>

fun varAddrs :: "var \<Rightarrow> nat set"
and regAddrs :: "registry \<Rightarrow> nat set"
and entryAddrs :: "(string \<times> rentry) list \<Rightarrow> nat set" where
  "varAddrs (VReg r) = regAddrs r"
| "varAddrs (VMet a) = {a}"
| "regAddrs (Registry n opts es) = entryAddrs es"
| "entryAddrs [] = {}"
| "entryAddrs ((key, v, m) # es) = varAddrs v \<union> entryAddrs es"

text \<open>\<open>mtree\<close> describes the calls of the metrics at these addresses.\<close>

definition describes :: "(int \<Rightarrow> string) \<Rightarrow> metric list \<Rightarrow> Mode \<Rightarrow> (metric \<Rightarrow> vtree) \<Rightarrow> nat set \<Rightarrow> bool" where
  "describes format h mode mtree as \<longleftrightarrow>
     (\<forall>a \<in> as. wf_tree (mtree (h ! a)) \<and> events_of (mtree (h ! a)) = visitMetric format mode (h ! a))"

lemma describes_Un [simp]:
  "describes format h mode mtree (as \<union> bs) \<longleftrightarrow>
     describes format h mode mtree as \<and> describes format h mode mtree bs"
  by (auto simp: describes_def)

lemma visit_tree:
  "describes format h mode mtree (varAddrs v) \<Longrightarrow>
     events_of (varTree mtree h mode v) = visitVar format h mode v \<and> wf_tree (varTree mtree h mode v)"
  "describes format h mode mtree (regAddrs r) \<Longrightarrow>
     events_of (regTree mtree h mode r) = doVisit format h mode r \<and> wf_tree (regTree mtree h mode r)"
  "describes format h mode mtree (entryAddrs es) \<Longrightarrow>
     events_of_list (entryTrees mtree h mode es) = visitEntries format h mode es \<and>
     wf_trees (entryTrees mtree h mode es)"
proof (induction mtree h mode v and mtree h mode r and mtree h mode es rule: varTree_regTree_entryTrees.induct)
  case (5 mtree h mode key v m es)
  then show ?case by (cases v) (auto simp: not_less describes_def)
qed (auto simp: describes_def)

text \<open>A metric that is not a function makes one call.\<close>

definition leafTree :: "(int \<Rightarrow> string) \<Rightarrow> Mode \<Rightarrow> metric \<Rightarrow> vtree" where
  "leafTree format mode x = Leaf (hd (visitMetric format mode x))"

lemma describes_leaf:
  "\<forall>a \<in> as. \<not> is_MFunc (h ! a) \<Longrightarrow> describes format h mode (leafTree format mode) as"
proof -
  have "wf_tree (leafTree format mode x) \<and> events_of (leafTree format mode x) = visitMetric format mode x"
    if "\<not> is_MFunc x" for x
    using that by (cases x) (auto simp: leafTree_def Int_Visit_def Uint_Visit_def Let_def)
  then show "\<forall>a \<in> as. \<not> is_MFunc (h ! a) \<Longrightarrow> describes format h mode (leafTree format mode) as"
    by (simp add: describes_def)
qed

section \<open>The values of a registry\<close>

definition Do :: "(int \<Rightarrow> string) \<Rightarrow> metric list \<Rightarrow> registry \<Rightarrow> Mode \<Rightarrow> (unit, (string \<times> event) list) outcome" where
  "Do format h r mode =
     bind_outcome (run kv_step (doVisit format h mode r) \<lparr>calls = [], klevel = []\<rparr>) (\<lambda>vs. Ok (calls vs))"

lemma collect_calls:
  "calls (collect (\<lambda>name e vs. vs\<lparr>calls := calls vs @ [(name, e)]\<rparr>) ls vs) =
     calls vs @ map (\<lambda>(p, e). (join_str ''.'' p, e)) ls"
  by (induction ls arbitrary: vs) (auto simp: collect_def)

lemma collect_snapshot:
  "snapshot (collect (\<lambda>name e vs. vs\<lparr>snapshot := flat_store name e (snapshot vs)\<rparr>) ls vs) =
     foldl (\<lambda>sn (p, e). flat_store (join_str ''.'' p) e sn) (snapshot vs) ls"
  by (induction ls arbitrary: vs) (auto simp: collect_def)

lemma regTree_Node: "regTree mtree h mode r = Node (entryTrees mtree h mode (rentries r))"
  by (cases r) simp

lemma Do_leaves:
  assumes "describes format h mode mtree (regAddrs r)"
  shows "Do format h r mode = Ok (map (\<lambda>(p, e). (join_str ''.'' p, e)) (leaves_of [] (regTree mtree h mode r)))"
proof -
  have ev: "doVisit format h mode r = events_of (regTree mtree h mode r)"
    and wf: "wf_tree (regTree mtree h mode r)" using visit_tree(2) [OF assms] by simp_all
  show ?thesis
    using kv.run_root [of "entryTrees mtree h mode (rentries r)" "\<lparr>calls = [], klevel = []\<rparr>"] wf
    unfolding Do_def ev regTree_Node by (simp add: collect_calls)
qed

end
