(* ===== verification/Expvar.thy ===== *)
theory Expvar
  imports Monitoring_Visitors
begin

text \<open>
  The helpers that report to a visitor (src/monitoring/visitor.go) and the visit of the variables of the standard package \<open>expvar\<close>
  (src/monitoring/visitor_expvar.go). What a function tells a visitor is a list of events. \<open>ParseInt\<close>, \<open>ParseFloat\<close> with their
  errors dropped, and the decoding of a JSON string are arguments.
\<close>

section \<open>Reporting\<close>

definition ReportNamespace :: "string \<Rightarrow> event list \<Rightarrow> event list" where
  "ReportNamespace name f = [OnKey name, OnRegistryStart] @ f @ [OnRegistryFinished]"

definition ReportVar :: "string \<Rightarrow> event list \<Rightarrow> event list" where
  "ReportVar name visit = OnKey name # visit"

definition ReportString :: "string \<Rightarrow> string \<Rightarrow> event list" where
  "ReportString name v = [OnKey name, OnString v]"

definition ReportBool :: "string \<Rightarrow> bool \<Rightarrow> event list" where
  "ReportBool name v = [OnKey name, OnBool v]"

definition ReportInt :: "string \<Rightarrow> int \<Rightarrow> event list" where
  "ReportInt name v = [OnKey name, OnInt v]"

definition ReportFloat :: "string \<Rightarrow> 64 word \<Rightarrow> event list" where
  "ReportFloat name v = [OnKey name, OnFloat v]"

definition ReportStringSlice :: "string \<Rightarrow> string list \<Rightarrow> event list" where
  "ReportStringSlice name v = [OnKey name, OnStringSlice v]"

text \<open>Whatever is reported in a namespace is a tree below its name.\<close>

lemma ReportNamespace_tree: "ReportNamespace name (events_of_list kts) = events_of_list [(name, Node kts)]"
  by (simp add: ReportNamespace_def)

lemma Report_leaf:
  "ReportString n s = events_of_list [(n, Leaf (OnString s))]" "ReportBool n b = events_of_list [(n, Leaf (OnBool b))]"
  "ReportInt n i = events_of_list [(n, Leaf (OnInt i))]" "ReportFloat n f = events_of_list [(n, Leaf (OnFloat f))]"
  "ReportStringSlice n l = events_of_list [(n, Leaf (OnStringSlice l))]"
  by (simp_all add: ReportString_def ReportBool_def ReportInt_def ReportFloat_def ReportStringSlice_def)

section \<open>Variables of expvar\<close>

text \<open>A variable is one of the monitoring package, an integer, a float or a map of \<open>expvar\<close>, or another; its text is what \<open>String\<close> returns.\<close>

datatype expval = VMonitoring | VInt string | VFloat string | VMap "(string \<times> expval) list" | VOther string

fun ignoreExpvar :: "nat \<Rightarrow> string \<Rightarrow> expval \<Rightarrow> bool" where
  "ignoreExpvar level key VMonitoring = True"
| "ignoreExpvar level key _ = (level = 0 \<and> (key = ''memstats'' \<or> key = ''cmdline''))"

record expEnv =
  parseIntText :: "string \<Rightarrow> int"
  parseFloatText :: "string \<Rightarrow> 64 word"
  jsonText :: "string \<Rightarrow> string option"

definition unquoteText :: "expEnv \<Rightarrow> string \<Rightarrow> string" where
  "unquoteText E s =
     (if length s \<ge> 2 \<and> s ! 0 = CHR 0x22 \<and> s ! (length s - 1) = CHR 0x22
      then (case jsonText E s of Some tmp \<Rightarrow> tmp | None \<Rightarrow> s) else s)"

fun visitKeyValue :: "expEnv \<Rightarrow> nat \<Rightarrow> string \<Rightarrow> expval \<Rightarrow> event list"
and visitKeyValues :: "expEnv \<Rightarrow> nat \<Rightarrow> (string \<times> expval) list \<Rightarrow> event list" where
  "visitKeyValue E level name VMonitoring = []"
| "visitKeyValue E level name (VInt t) = (if ignoreExpvar level name (VInt t) then [] else [OnKey name, OnInt (parseIntText E t)])"
| "visitKeyValue E level name (VFloat t) = (if ignoreExpvar level name (VFloat t) then [] else [OnKey name, OnFloat (parseFloatText E t)])"
| "visitKeyValue E level name (VMap kvs) =
     (if ignoreExpvar level name (VMap kvs) then []
      else [OnKey name, OnRegistryStart] @ visitKeyValues E (level + 1) kvs @ [OnRegistryFinished])"
| "visitKeyValue E level name (VOther t) = (if ignoreExpvar level name (VOther t) then [] else [OnKey name, OnString (unquoteText E t)])"
| "visitKeyValues E level [] = []"
| "visitKeyValues E level ((k, v) # kvs) = visitKeyValue E level k v @ visitKeyValues E level kvs"

definition VisitExpvars :: "expEnv \<Rightarrow> (string \<times> expval) list \<Rightarrow> event list" where
  "VisitExpvars E vars = [OnRegistryStart] @ visitKeyValues E 0 vars @ [OnRegistryFinished]"

definition DoExpvars :: "expEnv \<Rightarrow> (string \<times> expval) list \<Rightarrow> (unit, (string \<times> event) list) outcome" where
  "DoExpvars E vars = bind_outcome (run kv_step (VisitExpvars E vars) \<lparr>calls = [], klevel = []\<rparr>) (\<lambda>vs. Ok (calls vs))"

section \<open>Laws\<close>

text \<open>The tree of the variables that are not ignored.\<close>

fun expTree :: "expEnv \<Rightarrow> nat \<Rightarrow> string \<Rightarrow> expval \<Rightarrow> (string \<times> vtree) list"
and expTrees :: "expEnv \<Rightarrow> nat \<Rightarrow> (string \<times> expval) list \<Rightarrow> (string \<times> vtree) list" where
  "expTree E level name VMonitoring = []"
| "expTree E level name (VInt t) = (if level = 0 \<and> name \<in> {''memstats'', ''cmdline''} then [] else [(name, Leaf (OnInt (parseIntText E t)))])"
| "expTree E level name (VFloat t) = (if level = 0 \<and> name \<in> {''memstats'', ''cmdline''} then [] else [(name, Leaf (OnFloat (parseFloatText E t)))])"
| "expTree E level name (VMap kvs) = (if level = 0 \<and> name \<in> {''memstats'', ''cmdline''} then [] else [(name, Node (expTrees E (level + 1) kvs))])"
| "expTree E level name (VOther t) = (if level = 0 \<and> name \<in> {''memstats'', ''cmdline''} then [] else [(name, Leaf (OnString (unquoteText E t)))])"
| "expTrees E level [] = []"
| "expTrees E level ((k, v) # kvs) = expTree E level k v @ expTrees E level kvs"

lemma events_of_list_append: "events_of_list (xs @ ys) = events_of_list xs @ events_of_list ys"
  by (induction xs) auto

lemma wf_trees_append: "wf_trees (xs @ ys) \<longleftrightarrow> wf_trees xs \<and> wf_trees ys"
  by (induction xs) auto

lemma visit_expTrees:
  "visitKeyValue E level name v = events_of_list (expTree E level name v) \<and> wf_trees (expTree E level name v)"
  "visitKeyValues E level kvs = events_of_list (expTrees E level kvs) \<and> wf_trees (expTrees E level kvs)"
  by (induction E level name v and E level kvs rule: visitKeyValue_visitKeyValues.induct)
    (auto simp: events_of_list_append wf_trees_append)

text \<open>
  The function given to \<open>DoExpvars\<close> is called for every variable that is not ignored, in their order, with its name from the
  root; the visit is well nested and never panics.
\<close>

theorem DoExpvars_leaves:
  "DoExpvars E vars = Ok (map (\<lambda>(p, e). (join_str ''.'' p, e)) (leaves_of [] (Node (expTrees E 0 vars))))"
  using kv.run_root [of "expTrees E 0 vars" "\<lparr>calls = [], klevel = []\<rparr>"] visit_expTrees(2) [of E 0 vars]
  by (simp add: DoExpvars_def VisitExpvars_def collect_calls)

end
