(* ===== verification/Monitoring_Snapshots.thy ===== *)
theory Monitoring_Snapshots
  imports Expvar
begin

text \<open>
  The snapshots of a registry (src/monitoring/snapshot.go): flat or as a tree, of a given registry or of the default
  one, with the variables of \<open>expvar\<close> when these are asked for.
\<close>

section \<open>Collecting\<close>

text \<open>The state of the process that a snapshot may read: the default registry and the published variables.\<close>

record globals =
  Default :: registry
  expenv :: expEnv
  published :: "(string \<times> expval) list"

definition orDefault :: "globals \<Rightarrow> registry option \<Rightarrow> registry" where
  "orDefault G r = (case r of None \<Rightarrow> Default G | Some r \<Rightarrow> r)"

definition CollectFlatSnapshot ::
  "globals \<Rightarrow> (int \<Rightarrow> string) \<Rightarrow> metric list \<Rightarrow> registry option \<Rightarrow> Mode \<Rightarrow> bool \<Rightarrow> (unit, FlatSnapshot) outcome" where
  "CollectFlatSnapshot G format h r mode expvar =
     (let r = orDefault G r in
      bind_outcome (run flat_step (doVisit format h mode r) newFlatSnapshotVisitor) (\<lambda>vs.
      bind_outcome (if expvar then run flat_step (VisitExpvars (expenv G) (published G)) vs else Ok vs) (\<lambda>vs.
      Ok (snapshot vs))))"

text \<open>The loop that copies the values of the second snapshot; a write to a nil map panics.\<close>

fun copyInto :: "smap \<Rightarrow> (string \<times> sval) list \<Rightarrow> (unit, smap) outcome" where
  "copyInto m [] = Ok m"
| "copyInto None (kv # kvs) = Panic"
| "copyInto (Some m) ((k, v) # kvs) = copyInto (Some (map_put k v m)) kvs"

definition CollectStructSnapshot ::
  "globals \<Rightarrow> (int \<Rightarrow> string) \<Rightarrow> metric list \<Rightarrow> registry option \<Rightarrow> Mode \<Rightarrow> bool \<Rightarrow> (unit, smap) outcome" where
  "CollectStructSnapshot G format h r mode expvar =
     (let r = orDefault G r in
      bind_outcome (run struct_step (doVisit format h mode r) newStructSnapshotVisitor) (\<lambda>vs.
      let snapshot = ecurrent vs in
      if expvar
      then bind_outcome (run struct_step (VisitExpvars (expenv G) (published G)) newStructSnapshotVisitor) (\<lambda>vs.
             copyInto snapshot (case ecurrent vs of None \<Rightarrow> [] | Some m \<Rightarrow> m))
      else Ok snapshot))"

text \<open>A process with an empty default registry that has published one number.\<close>

definition sampleGlobals :: globals where
  "sampleGlobals = \<lparr>Default = NewRegistry0 [], expenv = \<lparr>parseIntText = (\<lambda>s. int (length s)), parseFloatText = (\<lambda>_. 0), jsonText = Some\<rparr>,
     published = [(''requests'', VInt ''12'')]\<rparr>"

section \<open>Laws\<close>

text \<open>The tree of the published variables.\<close>

definition expRoot :: "globals \<Rightarrow> vtree" where
  "expRoot G = Node (expTrees (expenv G) 0 (published G))"

lemma expRoot_events: "VisitExpvars (expenv G) (published G) = events_of (expRoot G)" "wf_tree (expRoot G)"
  using visit_expTrees(2) [of "expenv G" 0 "published G"] by (simp_all add: VisitExpvars_def expRoot_def)

lemma flat_level_collect:
  "flevel (collect (\<lambda>name e vs. vs\<lparr>snapshot := flat_store name e (snapshot vs)\<rparr>) ls (vs :: flatSnapshotVisitor)) = flevel vs"
  by (rule flat.lvl_collect)

lemma CollectFlatSnapshot_leaves:
  assumes "describes format h mode mtree (regAddrs (orDefault G r))"
  shows "CollectFlatSnapshot G format h r mode expvar =
    Ok (foldl (\<lambda>sn (p, e). flat_store (join_str ''.'' p) e sn) MakeFlatSnapshot
      (leaves_of [] (regTree mtree h mode (orDefault G r)) @ (if expvar then leaves_of [] (expRoot G) else [])))"
proof -
  have ev: "doVisit format h mode (orDefault G r) = events_of (regTree mtree h mode (orDefault G r))"
    and wf: "wf_tree (regTree mtree h mode (orDefault G r))" using visit_tree(2) [OF assms] by simp_all
  let ?emit = "\<lambda>name e vs. vs\<lparr>snapshot := flat_store name e (snapshot vs)\<rparr>"
  have root: "run flat_step (events_of (Node kts)) vs = Ok (collect ?emit (leaves_of [] (Node kts)) vs)"
    if "wf_tree (Node kts)" "flevel vs = []" for kts vs
    using that by (rule flat.run_root)
  show ?thesis
    using wf expRoot_events [of G]
    by (cases expvar)
       (simp_all add: CollectFlatSnapshot_def ev regTree_Node expRoot_def root newFlatSnapshotVisitor_def collect_snapshot
          flat_level_collect del: events_of.simps leaves_of.simps wf_tree.simps)
qed

lemma struct_visit:
  "describes format h mode mtree (regAddrs r) \<Longrightarrow>
     run struct_step (doVisit format h mode r) newStructSnapshotVisitor =
       Ok (newStructSnapshotVisitor\<lparr>ecurrent := nodeRef (entryTrees mtree h mode (rentries r)) None\<rparr>)"
  using visit_tree(2) [of format h mode mtree r] struct_root [of "entryTrees mtree h mode (rentries r)"] by (simp add: regTree_Node)

lemma copyInto_put: "copyInto (Some m) kvs = Ok (Some (foldl (\<lambda>m (k, v). map_put k v m) m kvs))"
  by (induction kvs arbitrary: m) auto

text \<open>Nothing is collected from a tree exactly when it has no value.\<close>

fun tree_size :: "vtree \<Rightarrow> nat" and trees_size :: "(string \<times> vtree) list \<Rightarrow> nat" where
  "tree_size (Leaf e) = 1"
| "tree_size (Node kts) = trees_size kts"
| "trees_size [] = 0"
| "trees_size ((k, t) # kts) = tree_size t + trees_size kts"

lemma leaves_size: "length (leaves_of p t) = tree_size t" "length (leaves_of_list p kts) = trees_size kts"
  by (induction t and kts arbitrary: p and p rule: tree_size_trees_size.induct) auto

lemma structRef_None:
  "structRef t = None \<longleftrightarrow> tree_size t = 0"
  "nodeRef kts m = None \<longleftrightarrow> m = None \<and> trees_size kts = 0"
  by (induction t and kts m rule: structRef_nodeRef.induct) (auto split: option.splits)

lemma nodeRef_None: "nodeRef kts None = None \<longleftrightarrow> leaves_of [] (Node kts) = []"
  using leaves_size(2) [of "[]" kts] by (simp add: structRef_None) (metis length_0_conv)

text \<open>The structured snapshot is the tree of the values, with the trees of the published variables put over it.\<close>

lemma CollectStructSnapshot_tree:
  assumes "describes format h mode mtree (regAddrs (orDefault G r))"
  shows "CollectStructSnapshot G format h r mode False = Ok (nodeRef (entryTrees mtree h mode (rentries (orDefault G r))) None)"
  using struct_visit [OF assms] by (simp add: CollectStructSnapshot_def)

lemma CollectStructSnapshot_expvar:
  assumes "describes format h mode mtree (regAddrs (orDefault G r))"
  shows "CollectStructSnapshot G format h r mode True =
    (case nodeRef (expTrees (expenv G) 0 (published G)) None of
       None \<Rightarrow> CollectStructSnapshot G format h r mode False
     | Some vars \<Rightarrow> copyInto (nodeRef (entryTrees mtree h mode (rentries (orDefault G r))) None) vars)"
  using struct_visit [OF assms] struct_root [of "expTrees (expenv G) 0 (published G)"] expRoot_events [of G]
  by (auto simp: CollectStructSnapshot_def expRoot_def split: option.splits)

lemma nodeRef_Some_ne: "nodeRef kts m = Some d \<Longrightarrow> m \<noteq> Some [] \<Longrightarrow> d \<noteq> []"
proof (induction kts arbitrary: m)
  case (Cons x kts)
  obtain k t where x: "x = (k, t)" by (cases x)
  have "map_put k v d' \<noteq> []" for v and d' :: "(string, sval) gomap" by (cases d') (auto split: prod.split)
  then show ?case using Cons.IH Cons.prems by (cases "structRef t") (auto simp: x)
qed simp

end
