(* ===== verification/Monitoring_Laws.thy ===== *)
theory Monitoring_Laws
  imports Monitoring_Snapshots
begin

text \<open>
  The laws of the registry: it is a store of entries under dotted names, creating a registry or a
  metric twice gives the same one, and a snapshot holds exactly the visible metrics.
\<close>

section \<open>Entries by name\<close>

definition entry_of :: "string list \<Rightarrow> registry \<Rightarrow> rentry option" where
  "entry_of ns r = (case findNames ns r of Ok e \<Rightarrow> e | _ \<Rightarrow> None)"

lemma entry_of_Cons:
  "ns \<noteq> [] \<Longrightarrow> entry_of (n # ns) r =
     (case map_of (rentries r) n of Some (VReg reg, _) \<Rightarrow> entry_of ns reg | _ \<Rightarrow> None)"
  by (cases ns) (auto simp: entry_of_def split: option.splits var.splits prod.splits)

lemma entry_of_single [simp]: "entry_of [n] r = map_of (rentries r) n"
  by (simp add: entry_of_def)

lemma entry_of_empty [simp]: "ns \<noteq> [] \<Longrightarrow> entry_of ns (Registry nm opts []) = None"
  by (cases ns; cases "tl ns") (auto simp: entry_of_def)

lemmas entry_cases = option.exhaust prod.exhaust var.exhaust

text \<open>The name meets a metric on its way.\<close>

definition blocked :: "string list \<Rightarrow> registry \<Rightarrow> bool" where
  "blocked ns r \<longleftrightarrow> (\<exists>p a m. p \<noteq> [] \<and> strict_prefix p ns \<and> entry_of p r = Some (VMet a, m))"

lemma blocked_single [simp]: "\<not> blocked [n] r"
  by (auto simp: blocked_def strict_prefix_def prefix_Cons)

lemma blocked_Cons:
  assumes "ns \<noteq> []"
  shows "blocked (n # ns) r \<longleftrightarrow>
    (case map_of (rentries r) n of Some (VMet _, _) \<Rightarrow> True | Some (VReg reg, _) \<Rightarrow> blocked ns reg | None \<Rightarrow> False)"
    (is "?L \<longleftrightarrow> ?R")
proof
  assume ?L
  then obtain p a m where p: "p \<noteq> []" "strict_prefix p (n # ns)" "entry_of p r = Some (VMet a, m)"
    by (auto simp: blocked_def)
  obtain q where q: "p = n # q" "strict_prefix q ns" using p(1,2) by (cases p) auto
  then show ?R
    using p(3) by (cases "q = []") (auto simp: entry_of_Cons blocked_def split: option.splits var.splits)
next
  assume R: ?R
  show ?L
  proof (cases "map_of (rentries r) n")
    case (Some e)
    obtain v m where e: "e = (v, m)" by (cases e)
    show ?thesis
    proof (cases v)
      case (VReg reg)
      then obtain p a m' where "p \<noteq> []" "strict_prefix p ns" "entry_of p reg = Some (VMet a, m')"
        using R Some e by (auto simp: blocked_def)
      then show ?thesis
        using Some e VReg by (auto simp: blocked_def entry_of_Cons intro!: exI [of _ "n # p"])
    next
      case (VMet a)
      then have "entry_of [n] r = Some (VMet a, m)" "strict_prefix [n] (n # ns)"
        using Some e assms by (auto simp: strict_prefix_def)
      then show ?thesis unfolding blocked_def by blast
    qed
  qed (use R in simp)
qed

section \<open>Adding\<close>

lemma addNames_ok_iff:
  "ns \<noteq> [] \<Longrightarrow> (\<exists>r'. addNames ns v opts r = Ok r') \<longleftrightarrow> entry_of ns r = None \<and> \<not> blocked ns r"
proof (induction ns v opts r rule: addNames.induct)
  case (3 n n2 ns v opts r)
  have fresh: "\<exists>r'. addNames (n2 # ns) v opts (Registry [] opts []) = Ok r'" if "map_of (rentries r) n = None"
    using 3(1) [OF that] by (auto simp: blocked_def strict_prefix_def dest: entry_of_empty)
  show ?case
    using 3 fresh
    by (auto simp: blocked_Cons entry_of_Cons split: option.splits var.splits prod.splits)
qed (auto split: option.splits)

lemma addNames_stores: "addNames ns v opts r = Ok r' \<Longrightarrow> entry_of ns r' = Some (v, omode opts)"
proof (induction ns v opts r arbitrary: r' rule: addNames.induct)
  case (3 n n2 ns v opts r)
  then show ?case
    by (auto simp: entry_of_Cons split: option.splits var.splits prod.splits)
qed (auto split: option.splits)

lemma addNames_keeps:
  "addNames ns v opts r = Ok r' \<Longrightarrow> \<not> prefix ns ns' \<Longrightarrow> \<not> prefix ns' ns \<Longrightarrow> entry_of ns' r' = entry_of ns' r"
proof (induction ns v opts r arbitrary: r' ns' rule: addNames.induct)
  case (2 n v opts r)
  then show ?case
    by (cases ns'; cases "tl ns'") (auto simp: entry_of_Cons split: option.splits var.splits prod.splits)
next
  case (3 n n2 ns v opts r)
  obtain h t where ns': "ns' = h # t" using 3(5) by (cases ns') auto
  show ?case
  proof (cases "h = n")
    case True
    then have t: "t \<noteq> []" "\<not> prefix (n2 # ns) t" "\<not> prefix t (n2 # ns)" using 3(4,5) ns' by auto
    then show ?thesis
      using 3(1,2,3) True ns'
      by (auto simp: entry_of_Cons split: option.splits var.splits prod.splits)
  next
    case False
    then show ?thesis
      using 3(3) ns'
      by (cases "t = []") (auto simp: entry_of_Cons split: option.splits var.splits prod.splits)
  qed
qed simp

section \<open>Removing\<close>

lemma removeNames_gone: "ns \<noteq> [] \<Longrightarrow> entry_of ns (removeNames ns r) = None"
proof (induction ns r rule: removeNames.induct)
  case (3 n n2 ns r)
  then show ?case
    by (auto simp: entry_of_Cons Let_def split: option.splits var.splits prod.splits)
qed auto

lemma removeNames_keeps:
  "\<not> prefix ns ns' \<Longrightarrow> \<not> prefix ns' ns \<Longrightarrow> entry_of ns' (removeNames ns r) = entry_of ns' r"
proof (induction ns r arbitrary: ns' rule: removeNames.induct)
  case (2 n r)
  then show ?case
    by (cases ns'; cases "tl ns'") (auto simp: entry_of_Cons split: option.splits var.splits prod.splits)
next
  case (3 n n2 ns r)
  obtain h t where ns': "ns' = h # t" using 3(3) by (cases ns') auto
  show ?case
  proof (cases "map_of (rentries r) n")
    case (Some e)
    obtain v m where e: "e = (v, m)" by (cases e)
    show ?thesis
    proof (cases v)
      case (VReg sub)
      let ?sub = "removeNames (n2 # ns) sub"
      show ?thesis
      proof (cases "h = n")
        case True
        then have t: "t \<noteq> []" "\<not> prefix (n2 # ns) t" "\<not> prefix t (n2 # ns)" using 3(2,3) ns' by auto
        have IH: "entry_of t ?sub = entry_of t sub" using 3(1) [OF Some] e VReg t(2,3) by simp
        have "entry_of t ?sub = None" if "rentries ?sub = []"
          using that t(1) entry_of_empty [of t "rname ?sub" "ropts ?sub"] by (metis registry.collapse)
        then show ?thesis
          using IH t(1) True ns' Some e VReg by (auto simp: entry_of_Cons Let_def)
      next
        case False
        then show ?thesis
          using ns' Some e VReg by (cases "t = []") (auto simp: entry_of_Cons Let_def)
      qed
    qed (use Some e in simp)
  qed simp
qed simp

section \<open>The registry as a store\<close>

definition reg_get :: "registry \<Rightarrow> string \<Rightarrow> rentry option" where
  "reg_get r name = (case find1 r name of Ok e \<Rightarrow> e | _ \<Rightarrow> None)"

definition reg_put :: "registry \<Rightarrow> string \<Rightarrow> rentry \<Rightarrow> registry option" where
  "reg_put r name e = (case Add r name (fst e) (snd e) of Ok r' \<Rightarrow> Some r' | _ \<Rightarrow> None)"

definition names_indep :: "string \<Rightarrow> string \<Rightarrow> bool" where
  "names_indep a b \<longleftrightarrow>
     \<not> prefix (split_byte CHR ''.'' a) (split_byte CHR ''.'' b) \<and>
     \<not> prefix (split_byte CHR ''.'' b) (split_byte CHR ''.'' a)"

lemma reg_get_entry: "reg_get r name = entry_of (split_byte CHR ''.'' name) r"
  by (simp add: reg_get_def find1_def entry_of_def)

lemma Get_entry: "Get r name = map_option fst (entry_of (split_byte CHR ''.'' name) r)"
  by (auto simp: Get_def find1_def entry_of_def split: outcome.splits)

lemma reg_put_Some:
  "reg_put r name (v, m) = Some r' \<longleftrightarrow>
     addNames (split_byte CHR ''.'' name) v (if m \<noteq> omode (ropts r) then (ropts r)\<lparr>omode := m\<rparr> else ropts r) r = Ok r'"
  by (auto simp: reg_put_def Add_def panicErr_def Let_def split: outcome.splits)

interpretation registry_store: keyed_store reg_get reg_put names_indep "\<lambda>_ _. True" "\<lambda>_. True"
proof
  show "reg_get r' k = Some e" if "reg_put r k e = Some r'" for r k e r'
    using that by (cases e) (auto simp: reg_put_Some reg_get_entry dest: addNames_stores split: if_splits)
  show "reg_get r' k' = reg_get r k'" if "reg_put r k e = Some r'" "names_indep k k'" for r k e r' k'
    using that by (cases e) (auto simp: reg_put_Some reg_get_entry names_indep_def dest: addNames_keeps)
qed simp

section \<open>Creating registries\<close>

lemma newChain_leaf:
  "getOrCreateNames ns os (fst (newRegistryChainWithLock cur ns opts)) =
     (fst (newRegistryChainWithLock cur ns opts), Some (snd (newRegistryChainWithLock cur ns opts)))"
  by (induction cur ns opts rule: newRegistryChainWithLock.induct) (auto simp: case_prod_beta)

lemma getOrCreate_idem:
  "getOrCreateNames ns os r = (r', Some leaf) \<Longrightarrow> getOrCreateNames ns os' r' = (r', Some leaf)"
proof (induction ns os r arbitrary: r' rule: getOrCreateNames.induct)
  case (2 n ns os r)
  show ?case
  proof (cases "map_of (rentries r) n")
    case None
    then have "r' = fst (newRegistryChainWithLock r (n # ns) (applyOpts (Some (ropts r)) os))"
      "leaf = snd (newRegistryChainWithLock r (n # ns) (applyOpts (Some (ropts r)) os))"
      using 2(2) by (auto simp: case_prod_beta)
    then show ?thesis using newChain_leaf [of "n # ns" os' r] by simp
  next
    case (Some e)
    then show ?thesis
      using 2 by (cases e; cases "fst e") (auto split: prod.splits)
  qed
qed simp

lemma getOrCreate_nil:
  "ns \<noteq> [] \<Longrightarrow> snd (getOrCreateNames ns os r) = None \<longleftrightarrow>
     blocked ns r \<or> (\<exists>a m. entry_of ns r = Some (VMet a, m))"
proof (induction ns os r rule: getOrCreateNames.induct)
  case (2 n ns os r)
  show ?case
  proof (cases "map_of (rentries r) n")
    case None
    then show ?thesis
      by (cases "ns = []") (auto simp: blocked_Cons entry_of_Cons case_prod_beta)
  next
    case (Some e)
    then show ?thesis
      using 2 by (cases e; cases "fst e"; cases "ns = []")
        (auto simp: blocked_Cons entry_of_Cons case_prod_beta)
  qed
qed simp

text \<open>No entry for a metric is changed.\<close>

lemma newChain_keeps:
  "map_of (rentries cur) n = None \<Longrightarrow> entry_of p cur = Some (VMet a, m) \<Longrightarrow> p \<noteq> [] \<Longrightarrow>
     entry_of p (fst (newRegistryChainWithLock cur (n # ns) opts)) = Some (VMet a, m)"
  by (cases p; cases "tl p = []")
    (auto simp: entry_of_Cons case_prod_beta split: if_splits option.splits prod.splits var.splits)

lemma getOrCreate_keeps:
  "entry_of p r = Some (VMet a, m) \<Longrightarrow> p \<noteq> [] \<Longrightarrow> entry_of p (fst (getOrCreateNames ns os r)) = Some (VMet a, m)"
proof (induction ns os r arbitrary: p rule: getOrCreateNames.induct)
  case (2 n ns os r)
  show ?case
  proof (cases "map_of (rentries r) n")
    case None
    then show ?thesis using newChain_keeps [OF None 2(2,3)] by (auto simp: case_prod_beta)
  next
    case (Some e)
    obtain v m' where e: "e = (v, m')" by (cases e)
    obtain h t where p: "p = h # t" using 2(3) by (cases p) auto
    show ?thesis
    proof (cases v)
      case (VReg reg)
      have "entry_of t (fst (getOrCreateNames ns os reg)) = Some (VMet a, m)"
        if "t \<noteq> []" "entry_of t reg = Some (VMet a, m)"
        using 2(1) [OF Some _ _ that(2,1)] e VReg by simp
      then show ?thesis
        using 2(2) Some e VReg p
        by (cases "t = []") (auto simp: entry_of_Cons case_prod_beta split: option.splits prod.splits var.splits)
    qed (use Some e 2(2) in simp)
  qed
qed simp

section \<open>Creating metrics\<close>

lemma addVar_stores:
  assumes "addVar st name opts v ev = Ok st'"
  shows "Get (mreg st') name = Some v \<and> mheap st' = mheap st"
proof -
  obtain r' where r': "doAdd (mreg st) name v (varOpts (Some (ropts (mreg st))) opts) = Ok r'" "mreg st' = r'"
      "mheap st' = mheap st"
    using assms by (auto simp: addVar_def Let_def split: if_splits)
  have "entry_of (split_byte CHR ''.'' name) r' = Some (v, omode (varOpts (Some (ropts (mreg st))) opts))"
    using r'(1) by (intro addNames_stores) (auto simp: doAdd_def panicErr_def split: outcome.splits)
  then show ?thesis using r' by (simp add: Get_entry)
qed

lemma newMetric_Get:
  assumes "newMetric isKind fresh ev st isNil name opts = Ok (st', a)" and "isKind fresh"
  shows "Get (mreg st') name = Some (VMet a) \<and> isKind (mheap st' ! a)"
proof -
  obtain ex where ex: "setupMetric st isNil name opts = Ok ex" using assms(1) by (auto simp: newMetric_def)
  show ?thesis
  proof (cases ex)
    case None
    then have "addVar (st\<lparr>mheap := mheap st @ [fresh]\<rparr>) name opts (VMet (length (mheap st))) ev = Ok st'"
      "a = length (mheap st)"
      using assms(1) ex by (auto simp: newMetric_def Let_def)
    with addVar_stores assms(2) show ?thesis by fastforce
  next
    case (Some v)
    then have g: "Get (mreg st) name = Some v"
      using ex by (simp add: setupMetric_def split: if_splits option.splits)
    show ?thesis
    proof (cases v)
      case (VMet b)
      then show ?thesis using assms(1) ex Some g by (simp add: newMetric_def split: if_splits)
    next
      case (VReg r)
      then show ?thesis using assms(1) ex Some by (simp add: newMetric_def)
    qed
  qed
qed

lemma newMetric_existing:
  assumes "Get (mreg st) name = Some (VMet a)"
  shows "newMetric isKind fresh ev st False name [] = (if isKind (mheap st ! a) then Ok (st, a) else Panic)"
  using assms by (simp add: newMetric_def setupMetric_def)

section \<open>The top bit of an unsigned counter\<close>

lemma clear_top_bit: "v AND NOT (push_bit 63 1) = take_bit 63 (v :: 64 word)"
  by (rule bit_word_eqI)
    (simp only: bit_and_iff bit_not_iff_eq bit_push_bit_iff bit_1_iff bit_take_bit_iff, auto)

lemma sint_clear_top: "sint (take_bit 63 v :: 64 word) = int (unat v mod 2 ^ 63)"
proof -
  have u: "uint (take_bit 63 v) = uint v mod 2 ^ 63" 
    by (simp only: unsigned_take_bit_eq) (simp only: take_bit_eq_mod)
  have "sint (take_bit 63 v) = uint (take_bit 63 v)"
  proof -
    have b: "0 \<le> uint v mod 2 ^ 63" "uint v mod 2 ^ 63 < 2 ^ 63" by simp_all
    have "- (2 ^ 63) \<le> uint v mod 2 ^ 63" using b(1) by (rule order_trans [rotated]) simp
    from signed_take_bit_int_eq_self [OF this b(2)] show ?thesis by (simp only: sint_uint u) simp
  qed
  then show ?thesis using u by (simp add: zmod_int)
qed

section \<open>Properties\<close>

text \<open>C16. \<open>Add\<close> succeeds exactly when the name is free and does not lead through a metric, and panics
  otherwise; after it the entry is found under the name with its mode, and every name that is
  neither above nor below it has kept its entry.\<close>

theorem Registry_Add_spec:
  "(is_Ok (Add r name v m) \<longleftrightarrow>
      reg_get r name = None \<and> \<not> blocked (split_byte CHR ''.'' name) r) \<and>
   (\<not> is_Ok (Add r name v m) \<longrightarrow> Add r name v m = Panic) \<and>
   (\<forall>r'. Add r name v m = Ok r' \<longrightarrow> reg_get r' name = Some (v, m) \<and>
      (\<forall>other. names_indep name other \<longrightarrow> reg_get r' other = reg_get r other))"
proof (intro conjI allI impI)
  let ?o = "if m \<noteq> omode (ropts r) then (ropts r)\<lparr>omode := m\<rparr> else ropts r"
  let ?ns = "split_byte CHR ''.'' name"
  have A: "Add r name v m = panicErr (addNames ?ns v ?o r)" by (simp only: Add_def Let_def)
  have "is_Ok (Add r name v m) \<longleftrightarrow> (\<exists>r'. addNames ?ns v ?o r = Ok r')"
    unfolding A by (cases "addNames ?ns v ?o r") (simp_all only: panicErr_def outcome.case is_Ok.simps, auto)
  then show "is_Ok (Add r name v m) \<longleftrightarrow> reg_get r name = None \<and> \<not> blocked ?ns r"
    by (simp only: addNames_ok_iff [OF split_byte_not_Nil] reg_get_entry)
  show "Add r name v m = Panic" if "\<not> is_Ok (Add r name v m)"
    using that unfolding A by (cases "addNames ?ns v ?o r") (simp_all only: panicErr_def outcome.case is_Ok.simps, auto)
  fix r' assume "Add r name v m = Ok r'"
  then have put: "reg_put r name (v, m) = Some r'" by (simp add: reg_put_def)
  show "reg_get r' name = Some (v, m)" using registry_store.get_put [OF _ _ put] by simp
  show "reg_get r' other = reg_get r other" if "names_indep name other" for other
    using registry_store.get_put_indep [OF _ _ put that] by simp
qed

theorem Registry_Add_spec_witness:
  "\<exists>r'. Add (NewRegistry0 []) ''a.b'' (VMet 0) Full = Ok r' \<and> reg_get r' ''a.b'' = Some (VMet 0, Full)"
proof -
  have "is_Ok (Add (NewRegistry0 []) ''a.b'' (VMet 0) Full)" by code_simp
  then show ?thesis
    using Registry_Add_spec [of "NewRegistry0 []" "''a.b''" "VMet 0" Full] by (auto simp: is_Ok_iff)
qed

text \<open>\<open>Remove\<close> removes the name, keeps the entry of every name that is neither above nor below it,
  and \<open>GetOrCreateRegistry\<close> called twice returns the same registry and changes nothing the second
  time; it returns nil exactly when a metric is in the way, and never changes a metric's entry.\<close>

theorem Registry_Remove_Create_spec:
  "reg_get (Remove r name) name = None \<and>
   (\<forall>other. names_indep name other \<longrightarrow> reg_get (Remove r name) other = reg_get r other) \<and>
   (\<forall>r' reg. GetOrCreateRegistry r name opts = (r', Some reg) \<longrightarrow>
      GetOrCreateRegistry r' name opts' = (r', Some reg)) \<and>
   (snd (GetOrCreateRegistry r name opts) = None \<longleftrightarrow>
      blocked (split_byte CHR ''.'' name) r \<or> (\<exists>a m. reg_get r name = Some (VMet a, m))) \<and>
   (\<forall>other a m. reg_get r other = Some (VMet a, m) \<longrightarrow>
      reg_get (fst (GetOrCreateRegistry r name opts)) other = Some (VMet a, m))"
proof (intro conjI allI impI)
  let ?ns = "split_byte CHR ''.'' name"
  show "reg_get (Remove r name) name = None" by (simp add: reg_get_entry Remove_def removeNames_gone)
  show "reg_get (Remove r name) other = reg_get r other" if "names_indep name other" for other
    using that by (simp add: reg_get_entry Remove_def names_indep_def removeNames_keeps)
  show "GetOrCreateRegistry r' name opts' = (r', Some reg)" if "GetOrCreateRegistry r name opts = (r', Some reg)" for r' reg
    using that unfolding GetOrCreateRegistry_def by (rule getOrCreate_idem)
  show "snd (GetOrCreateRegistry r name opts) = None \<longleftrightarrow>
      blocked ?ns r \<or> (\<exists>a m. reg_get r name = Some (VMet a, m))"
    unfolding GetOrCreateRegistry_def reg_get_entry by (rule getOrCreate_nil) simp
  show "reg_get (fst (GetOrCreateRegistry r name opts)) other = Some (VMet a, m)"
    if "reg_get r other = Some (VMet a, m)" for other a m
    using that unfolding GetOrCreateRegistry_def reg_get_entry by (rule getOrCreate_keeps) simp
qed

theorem Registry_Remove_Create_spec_witness:
  "reg_get (Remove (fst (GetOrCreateRegistry (NewRegistry0 []) ''a.b'' [])) ''a.b'') ''a.b'' = None"
  using Registry_Remove_Create_spec [of "fst (GetOrCreateRegistry (NewRegistry0 []) ''a.b'' [])" "''a.b''"] by blast

text \<open>Registering an integer metric twice gives the same cell, so both clients count into it; a name
  that holds a metric of another type makes the registration panic.\<close>

theorem NewInt_shared:
  assumes "NewInt st isNil name opts = Ok (st', a)"
  shows "NewInt st' False name [] = Ok (st', a) \<and> NewUint st' False name [] = Panic \<and>
    NewString st' False name [] = Panic \<and> is_MInt (mheap st' ! a)"
proof -
  note g = newMetric_Get [OF assms [unfolded NewInt_def]]
  have k: "is_MInt (mheap st' ! a)" and get: "Get (mreg st') name = Some (VMet a)" using g by simp_all
  have "\<not> is_MUint (mheap st' ! a)" "\<not> is_MString (mheap st' ! a)"
    using k by (cases "mheap st' ! a"; simp)+
  then show ?thesis
    using k by (simp add: NewInt_def NewUint_def NewString_def newMetric_existing [OF get])
qed

theorem NewInt_shared_witness:
  "\<exists>st a. NewInt \<lparr>mreg = NewRegistry0 [], mheap = [], expvars = []\<rparr> False ''n'' [] = Ok (st, a) \<and>
     NewInt st False ''n'' [] = Ok (st, a)"
proof -
  have "is_Ok (NewInt \<lparr>mreg = NewRegistry0 [], mheap = [], expvars = []\<rparr> False ''n'' [])" by code_simp
  then obtain st a where st: "NewInt \<lparr>mreg = NewRegistry0 [], mheap = [], expvars = []\<rparr> False ''n'' [] = Ok (st, a)"
    by (auto simp: is_Ok_iff)
  with NewInt_shared [OF this] show ?thesis by blast
qed

text \<open>
  C8. The snapshots of a registry, or of the default one when none is given. \<open>Do\<close> calls the callback once for every visible
  value, under its dotted name. The flat snapshot stores the same values, and then those of the published variables of \<open>expvar\<close> when
  these are asked for. The structured snapshot is the tree of the visible values, nil exactly when there is
  none; with the published variables it is that tree with each of their trees under its key, but it panics
  exactly when there is no visible value and there is a published one.
\<close>

theorem snapshots_spec:
  assumes "describes format h mode mtree (regAddrs (orDefault G ro))"
  shows "Do format h (orDefault G ro) mode =
      Ok (map (\<lambda>(p, e). (join_str ''.'' p, e)) (leaves_of [] (regTree mtree h mode (orDefault G ro)))) \<and>
    CollectFlatSnapshot G format h ro mode expvar =
      Ok (foldl (\<lambda>sn (p, e). flat_store (join_str ''.'' p) e sn) MakeFlatSnapshot
        (leaves_of [] (regTree mtree h mode (orDefault G ro)) @ (if expvar then leaves_of [] (expRoot G) else []))) \<and>
    CollectStructSnapshot G format h ro mode False = Ok (nodeRef (entryTrees mtree h mode (rentries (orDefault G ro))) None) \<and>
    (CollectStructSnapshot G format h ro mode False = Ok None \<longleftrightarrow> leaves_of [] (regTree mtree h mode (orDefault G ro)) = []) \<and>
    (CollectStructSnapshot G format h ro mode True = Panic \<longleftrightarrow>
       leaves_of [] (regTree mtree h mode (orDefault G ro)) = [] \<and> leaves_of [] (expRoot G) \<noteq> []) \<and>
    (\<forall>vals vars. nodeRef (entryTrees mtree h mode (rentries (orDefault G ro))) None = Some vals \<and>
       nodeRef (expTrees (expenv G) 0 (published G)) None = Some vars \<longrightarrow>
       CollectStructSnapshot G format h ro mode True = Ok (Some (foldl (\<lambda>m (k, v). map_put k v m) vals vars)))"
proof (intro conjI)
  let ?vals = "nodeRef (entryTrees mtree h mode (rentries (orDefault G ro))) None" and ?vars = "nodeRef (expTrees (expenv G) 0 (published G)) None"
  note st = CollectStructSnapshot_tree [OF assms] CollectStructSnapshot_expvar [OF assms]
  have n: "?vals = None \<longleftrightarrow> leaves_of [] (regTree mtree h mode (orDefault G ro)) = []" "?vars = None \<longleftrightarrow> leaves_of [] (expRoot G) = []"
    using nodeRef_None [of "entryTrees mtree h mode (rentries (orDefault G ro))"] nodeRef_None [of "expTrees (expenv G) 0 (published G)"]
    by (simp_all add: regTree_Node expRoot_def)
  show "CollectStructSnapshot G format h ro mode False = Ok ?vals" by (rule st(1))
  show "CollectStructSnapshot G format h ro mode False = Ok None \<longleftrightarrow> leaves_of [] (regTree mtree h mode (orDefault G ro)) = []"
    by (simp add: st(1) n del: leaves_of.simps)
  have "copyInto None vars = Panic" if "?vars = Some vars" for vars
    using nodeRef_Some_ne [OF that] by (cases vars) auto
  then show "CollectStructSnapshot G format h ro mode True = Panic \<longleftrightarrow>
      leaves_of [] (regTree mtree h mode (orDefault G ro)) = [] \<and> leaves_of [] (expRoot G) \<noteq> []"
    unfolding n [symmetric] st(2) by (cases ?vars; cases ?vals) (simp_all add: st(1) copyInto_put)
qed (use Do_leaves [OF assms] CollectFlatSnapshot_leaves [OF assms] CollectStructSnapshot_expvar [OF assms] in \<open>auto simp: copyInto_put\<close>)

theorem snapshots_spec_witness:
  "CollectStructSnapshot sampleGlobals (\<lambda>_. []) [MBool True] (Some (Registry [] defaultOptions [(''up'', (VMet 0, Full))])) Full False \<noteq> Ok None \<and>
   CollectStructSnapshot sampleGlobals (\<lambda>_. []) [] None Full True = Panic"
proof -
  let ?r = "Registry [] defaultOptions [(''up'', (VMet 0, Full))]"
  have "describes (\<lambda>_. []) [MBool True] Full (leafTree (\<lambda>_. []) Full) (regAddrs (orDefault sampleGlobals (Some ?r)))"
    by (simp add: describes_def leafTree_def orDefault_def)
  moreover have "describes (\<lambda>_. []) [] Full (leafTree (\<lambda>_. []) Full) (regAddrs (orDefault sampleGlobals None))"
    by (simp add: describes_def orDefault_def sampleGlobals_def NewRegistry0_def)
  ultimately show ?thesis
    using snapshots_spec [of _ _ _ _ sampleGlobals "Some ?r"] snapshots_spec [of _ _ _ _ sampleGlobals None]
    by (simp add: leafTree_def orDefault_def expRoot_def sampleGlobals_def NewRegistry0_def)
qed

text \<open>Counters: an unsigned counter is reported as its value without the top bit, so it is reported as
  it is below 2^63 and never as a negative number; \<open>Sub\<close> undoes \<open>Add\<close> and \<open>Dec\<close> undoes \<open>Inc\<close> even when the
  counter wraps.\<close>

theorem counters_spec:
  "Uint_Visit v = [OnInt (int (unat v mod 2 ^ 63))] \<and>
   Uint_Sub (Uint_Add v d) d = v \<and> Uint_Dec (Uint_Inc v) = v \<and>
   unat (Uint_Add v d) = (unat v + unat d) mod 2 ^ 64 \<and>
   Int_Sub (Int_Add v d) d = v \<and> Int_Dec (Int_Inc v) = v"
  unfolding Uint_Visit_def Let_def clear_top_bit sint_clear_top
  by (simp add: Uint_Sub_def Uint_Add_def Uint_Dec_def Uint_Inc_def
      Int_Sub_def Int_Add_def Int_Dec_def Int_Inc_def unat_word_ariths)

end
