(* ===== verification/Reporter.thy ===== *)
theory Reporter
  imports Monitoring_Laws Ringbuffer
begin

text \<open>
  The buffer reporter (src/monitoring/report/buffer/reporter.go): on every tick it adds a structured
  snapshot of each monitored registry to that registry's ring buffer. A tick is one turn of
  \<open>snapshotLoop\<close>; the ticker, the goroutine and the JSON encoding of the response are not modelled.
\<close>

section \<open>Operations\<close>

type_synonym snapshotEntry = "(string \<times> sval) list"

record reporter =
  registries :: "(string, registry) gomap"
  buffers :: "(string, snapshotEntry ringBuffer) gomap"

text \<open>The configuration is the size and the namespaces; \<open>regOf\<close> gives the registry of a namespace.\<close>

definition MakeReporter :: "nat \<Rightarrow> (string \<Rightarrow> registry) \<Rightarrow> string list \<Rightarrow> reporter" where
  "MakeReporter size1 regOf namespaces =
     foldl (\<lambda>r ns. r\<lparr>registries := map_put ns (regOf ns) (registries r),
                     buffers := map_put ns (newBuffer size1) (buffers r)\<rparr>)
       \<lparr>registries = [], buffers = []\<rparr> namespaces"

text \<open>A write to a nil map panics.\<close>

definition addTimestamp :: "int \<Rightarrow> smap \<Rightarrow> (unit, snapshotEntry) outcome" where
  "addTimestamp now snap =
     (case snap of
        None \<Rightarrow> Panic
      | Some m \<Rightarrow> (case map_of m ''@timestamp'' of
                      Some _ \<Rightarrow> Ok m
                    | None \<Rightarrow> Ok (map_put ''@timestamp'' (STime now) m)))"

fun tickRegs :: "globals \<Rightarrow> (int \<Rightarrow> string) \<Rightarrow> metric list \<Rightarrow> int \<Rightarrow> (string \<times> registry) list \<Rightarrow>
    (string, snapshotEntry ringBuffer) gomap \<Rightarrow> (unit, (string, snapshotEntry ringBuffer) gomap) outcome" where
  "tickRegs G format h now [] bufs = Ok bufs"
| "tickRegs G format h now ((name, r) # rs) bufs =
     bind_outcome (CollectStructSnapshot G format h (Some r) Full False) (\<lambda>snap.
     bind_outcome (addTimestamp now snap) (\<lambda>entry1.
     (case map_of bufs name of
        None \<Rightarrow> Panic
      | Some b \<Rightarrow>
          bind_outcome (add b (Some entry1)) (\<lambda>b'. tickRegs G format h now rs (map_put name b' bufs)))))"

definition snapshotTick :: "globals \<Rightarrow> (int \<Rightarrow> string) \<Rightarrow> metric list \<Rightarrow> int \<Rightarrow> reporter \<Rightarrow> (unit, reporter) outcome" where
  "snapshotTick G format h now rep =
     bind_outcome (tickRegs G format h now (registries rep) (buffers rep)) (\<lambda>bs. Ok (rep\<lparr>buffers := bs\<rparr>))"

text \<open>What the response of \<open>ServeHTTP\<close> holds for each namespace, before it is encoded.\<close>

definition response :: "reporter \<Rightarrow> (string \<times> snapshotEntry option list) list" where
  "response rep = map (\<lambda>(name, b). (name, read_slice b (getAll b))) (buffers rep)"

section \<open>Lemmas\<close>

text \<open>The snapshot of a registry with its time, when the registry has a visible value.\<close>

definition stamped :: "(metric \<Rightarrow> vtree) \<Rightarrow> metric list \<Rightarrow> int \<Rightarrow> registry \<Rightarrow> snapshotEntry option" where
  "stamped mtree h now r =
     (case nodeRef (entryTrees mtree h Full (rentries r)) None of
        None \<Rightarrow> None
      | Some m \<Rightarrow> Some (if map_of m ''@timestamp'' = None then map_put ''@timestamp'' (STime now) m else m))"

lemma addTimestamp_stamped:
  assumes "describes format h Full mtree (regAddrs r)"
  shows "bind_outcome (CollectStructSnapshot G format h (Some r) Full False) (addTimestamp now) =
    (case stamped mtree h now r of None \<Rightarrow> Panic | Some e \<Rightarrow> Ok e)"
  using CollectStructSnapshot_tree [of format h Full mtree G "Some r"] assms
  by (simp add: orDefault_def addTimestamp_def stamped_def split: option.splits)

lemma tickRegs_empty_panics:
  assumes "describes format h Full mtree (regAddrs r)" and "leaves_of [] (regTree mtree h Full r) = []"
  shows "tickRegs G format h now ((name, r) # rs) bufs = Panic"
proof -
  have "nodeRef (entryTrees mtree h Full (rentries r)) None = None"
    using assms(2) leaves_size(2) [of "[]" "entryTrees mtree h Full (rentries r)"]
    by (simp add: structRef_None regTree_Node)
  then show ?thesis
    using CollectStructSnapshot_tree [of format h Full mtree G "Some r"] assms(1) by (simp add: orDefault_def addTimestamp_def)
qed

lemma tickRegs_ok:
  assumes "\<And>name r. (name, r) \<in> set rs \<Longrightarrow> describes format h Full mtree (regAddrs r) \<and> stamped mtree h now r \<noteq> None"
    and "distinct (map fst rs)"
    and "\<And>name r. (name, r) \<in> set rs \<Longrightarrow> \<exists>b. map_of bufs name = Some b \<and> wf_ring b"
  shows "\<exists>bufs'. tickRegs G format h now rs bufs = Ok bufs' \<and>
    (\<forall>name r b. (name, r) \<in> set rs \<and> map_of bufs name = Some b \<longrightarrow>
      (\<exists>b'. map_of bufs' name = Some b' \<and> wf_ring b' \<and> length (slots b') = length (slots b) \<and>
        contents b' = last_n (length (slots b)) (contents b @ [stamped mtree h now r]))) \<and>
    (\<forall>name. name \<notin> fst ` set rs \<longrightarrow> map_of bufs' name = map_of bufs name)"
  using assms
proof (induction rs arbitrary: bufs)
  case (Cons x rs)
  obtain nm r where x: "x = (nm, r)" by (cases x)
  have d: "describes format h Full mtree (regAddrs r)" and st: "stamped mtree h now r \<noteq> None"
    using Cons.prems(1) [of nm r] x by auto
  obtain e where e: "stamped mtree h now r = Some e" using st by auto
  obtain snap where snap: "CollectStructSnapshot G format h (Some r) Full False = Ok snap" "addTimestamp now snap = Ok e"
    using addTimestamp_stamped [OF d, of G now] e by auto
  obtain b where b: "map_of bufs nm = Some b" "wf_ring b" using Cons.prems(3) [of nm r] x by auto
  obtain b1 where b1: "add b (Some e) = Ok b1" "wf_ring b1" "length (slots b1) = length (slots b)"
      "contents b1 = last_n (length (slots b)) (contents b @ [Some e])"
    using add_ok [OF b(2)] by blast
  have nm: "nm \<notin> fst ` set rs" using Cons.prems(2) x by simp
  then have neq: "nm' \<noteq> nm" if "(nm', r') \<in> set rs" for nm' r' using that by force
  obtain bufs' where bufs': "tickRegs G format h now rs (map_put nm b1 bufs) = Ok bufs'"
    "\<forall>name r b. (name, r) \<in> set rs \<and> map_of (map_put nm b1 bufs) name = Some b \<longrightarrow>
      (\<exists>b'. map_of bufs' name = Some b' \<and> wf_ring b' \<and> length (slots b') = length (slots b) \<and>
        contents b' = last_n (length (slots b)) (contents b @ [stamped mtree h now r]))"
    "\<forall>name. name \<notin> fst ` set rs \<longrightarrow> map_of bufs' name = map_of (map_put nm b1 bufs) name"
    using Cons.IH [of "map_put nm b1 bufs"] Cons.prems neq by (fastforce simp: x)
  have run: "tickRegs G format h now (x # rs) bufs = Ok bufs'" by (simp add: x snap b(1) b1(1) bufs'(1))
  have "map_of bufs' nm = Some b1" using bufs'(3) nm by simp
  with run bufs'(2,3) b b1 e neq show ?case by (auto simp: x)
qed simp

section \<open>Properties\<close>

text \<open>One tick of the reporter adds, for every monitored registry, one snapshot with its time to
  that registry's ring buffer, provided every registry has a visible value.\<close>

theorem snapshotTick_spec:
  assumes "\<forall>(name, r) \<in> set (registries rep).
      describes format h Full mtree (regAddrs r) \<and> stamped mtree h now r \<noteq> None"
    and "wf_map (registries rep)"
    and "\<forall>(name, r) \<in> set (registries rep). \<exists>b. map_of (buffers rep) name = Some b \<and> wf_ring b"
  shows "\<exists>rep'. snapshotTick G format h now rep = Ok rep' \<and> registries rep' = registries rep \<and>
    (\<forall>name r b. (name, r) \<in> set (registries rep) \<and> map_of (buffers rep) name = Some b \<longrightarrow>
      (\<exists>b'. map_of (buffers rep') name = Some b' \<and> wf_ring b' \<and>
        contents b' = last_n (length (slots b)) (contents b @ [stamped mtree h now r])))"
proof -
  obtain bufs' where bufs': "tickRegs G format h now (registries rep) (buffers rep) = Ok bufs'"
    "\<forall>name r b. (name, r) \<in> set (registries rep) \<and> map_of (buffers rep) name = Some b \<longrightarrow>
      (\<exists>b'. map_of bufs' name = Some b' \<and> wf_ring b' \<and> length (slots b') = length (slots b) \<and>
        contents b' = last_n (length (slots b)) (contents b @ [stamped mtree h now r]))"
    using tickRegs_ok [of "registries rep" format h mtree now "buffers rep" G] assms by (fastforce simp: wf_map_def)
  then have "snapshotTick G format h now rep = Ok (rep\<lparr>buffers := bufs'\<rparr>)" by (simp add: snapshotTick_def)
  then show ?thesis using bufs'(2) by (fastforce simp: wf_map_def)
qed

theorem snapshotTick_spec_witness:
  "\<exists>rep'. snapshotTick sampleGlobals (\<lambda>_. []) [MBool True] 7
     \<lparr>registries = [(''s'', Registry [] defaultOptions [(''up'', (VMet 0, Full))])],
      buffers = [(''s'', newBuffer 2)]\<rparr> = Ok rep'"
proof -
  let ?r = "Registry [] defaultOptions [(''up'', (VMet 0, Full))]"
  let ?rep = "\<lparr>registries = [(''s'', ?r)], buffers = [(''s'', newBuffer 2)]\<rparr>"
  let ?mt = "leafTree (\<lambda>_. []) Full"
  have d: "describes (\<lambda>_. []) [MBool True] Full ?mt (regAddrs ?r)"
    by (rule describes_leaf) simp
  have "stamped ?mt [MBool True] 7 ?r \<noteq> None" by code_simp
  with d have h1: "\<forall>(name, r) \<in> set (registries ?rep).
      describes (\<lambda>_. []) [MBool True] Full ?mt (regAddrs r) \<and> stamped ?mt [MBool True] 7 r \<noteq> None" by simp
  have h2: "wf_map (registries ?rep)" by (simp add: wf_map_def)
  have h3: "\<forall>(name, r) \<in> set (registries ?rep). \<exists>b. map_of (buffers ?rep) name = Some b \<and> wf_ring b"
    using wf_new [of 2] by simp
  show ?thesis using snapshotTick_spec [OF h1 h2 h3] by blast
qed

text \<open>The reporter panics on the first tick when a monitored registry has no visible value: its
  structured snapshot is a nil map, and the time is written into it.\<close>

theorem snapshotTick_empty_panics:
  assumes "registries rep = [(name, r)]" and "describes format h Full mtree (regAddrs r)"
    and "leaves_of [] (regTree mtree h Full r) = []"
  shows "snapshotTick G format h now rep = Panic"
  using tickRegs_empty_panics [OF assms(2,3)] by (simp add: snapshotTick_def assms(1))

theorem snapshotTick_empty_panics_witness:
  "snapshotTick sampleGlobals (\<lambda>_. []) [] 7 (MakeReporter 60 (\<lambda>_. NewRegistry0 []) [''stats'']) = Panic"
proof -
  have 1: "registries (MakeReporter 60 (\<lambda>_. NewRegistry0 []) [''stats'']) = [(''stats'', NewRegistry0 [])]"
    by (simp add: MakeReporter_def)
  have 2: "describes (\<lambda>_. []) [] Full (leafTree (\<lambda>_. []) Full) (regAddrs (NewRegistry0 []))"
    by (simp add: describes_def NewRegistry0_def)
  have 3: "leaves_of [] (regTree (leafTree (\<lambda>_. []) Full) [] Full (NewRegistry0 [])) = []"
    by (simp add: NewRegistry0_def)
  show ?thesis by (rule snapshotTick_empty_panics [OF 1 2 3])
qed

end
