(* ===== verification/Rotator.thy ===== *)
theory Rotator
  imports Go_Prelude "HOL-Library.Product_Lexorder"
begin

text \<open>
  The file rotator of package \<open>file\<close> (src/file/rotator.go, src/file/trigger.go): a writer that starts a
  new file when a trigger fires and deletes the oldest files beyond a maximum number.

  The directory is a map from file names to files; a file is its content, or a symbolic link of
  which only matters whether its target exists. The errors modelled are those that follow from the
  directory (a missing file, a file that must not exist); a system call does not fail otherwise.
  An operation gets the time of the clock, which does not change while it runs. \<open>sort.Slice\<close> is an
  argument. Logging, permissions and the redirection of the standard error are left out.
\<close>

section \<open>Triggers\<close>

datatype rotateReason =
  rotateReasonNoRotate | rotateReasonInitializing | rotateReasonFileSize
  | rotateReasonManualTrigger | rotateReasonTimeInterval

text \<open>The parts of a time the triggers read; \<open>unix\<close> is the number of seconds since 1970.\<close>

record tm =
  year :: nat
  month :: nat
  day :: nat
  hour :: nat
  minute :: nat
  second :: nat
  isoWeek :: "nat \<times> nat"
  unix :: nat

definition newYear :: "tm \<Rightarrow> tm \<Rightarrow> bool" where
  "newYear lastTime currentTime \<longleftrightarrow> year lastTime \<noteq> year currentTime"

definition newMonth :: "tm \<Rightarrow> tm \<Rightarrow> bool" where
  "newMonth lastTime currentTime \<longleftrightarrow> month lastTime \<noteq> month currentTime \<or> newYear lastTime currentTime"

definition newWeek :: "tm \<Rightarrow> tm \<Rightarrow> bool" where
  "newWeek lastTime currentTime \<longleftrightarrow>
     (case (isoWeek lastTime, isoWeek currentTime) of
        ((lastYear, lastWeek), (currentYear, currentWeek)) \<Rightarrow>
          lastWeek \<noteq> currentWeek \<or> lastYear \<noteq> currentYear)"

definition newDay :: "tm \<Rightarrow> tm \<Rightarrow> bool" where
  "newDay lastTime currentTime \<longleftrightarrow> day lastTime \<noteq> day currentTime \<or> newMonth lastTime currentTime"

definition newHour :: "tm \<Rightarrow> tm \<Rightarrow> bool" where
  "newHour lastTime currentTime \<longleftrightarrow> hour lastTime \<noteq> hour currentTime \<or> newDay lastTime currentTime"

definition newMinute :: "tm \<Rightarrow> tm \<Rightarrow> bool" where
  "newMinute lastTime currentTime \<longleftrightarrow> minute lastTime \<noteq> minute currentTime \<or> newHour lastTime currentTime"

definition newSecond :: "tm \<Rightarrow> tm \<Rightarrow> bool" where
  "newSecond lastTime currentTime \<longleftrightarrow> second lastTime \<noteq> second currentTime \<or> newMinute lastTime currentTime"

text \<open>
  Durations are signed and in nanoseconds. The last case is used with intervals of at least a
  second only, where the divisor is positive.
\<close>

definition Second :: int where "Second = 1000000000"

definition newInterval :: "int \<Rightarrow> tm \<Rightarrow> tm \<Rightarrow> bool" where
  "newInterval interval =
     (if interval = Second then newSecond
      else if interval = 60 * Second then newMinute
      else if interval = 60 * 60 * Second then newHour
      else if interval = 24 * 60 * 60 * Second then newDay
      else if interval = 7 * 24 * 60 * 60 * Second then newWeek
      else if interval = 30 * 24 * 60 * 60 * Second then newMonth
      else if interval = 365 * 24 * 60 * 60 * Second then newYear
      else (\<lambda>lastTime currentTime.
              int (unix lastTime) div (interval div Second) \<noteq> int (unix currentTime) div (interval div Second)))"

datatype trigger =
    initTrigger (triggered: bool)
  | sizeTrigger (tmax: nat) (tsize: nat)
  | intervalTrigger (tinterval: int) (lastRotate: tm)

definition newTriggers :: "bool \<Rightarrow> int \<Rightarrow> nat \<Rightarrow> tm \<Rightarrow> trigger list" where
  "newTriggers rotateOnStartup interval maxSizeBytes now =
     (if rotateOnStartup then [initTrigger False] else []) @
     (if interval > 0 then [intervalTrigger interval now] else []) @
     (if maxSizeBytes > 0 then [sizeTrigger maxSizeBytes 0] else [])"

text \<open>Sizes are 64-bit unsigned integers.\<close>

fun TriggerRotation :: "tm \<Rightarrow> nat \<Rightarrow> trigger \<Rightarrow> trigger \<times> rotateReason" where
  "TriggerRotation now dataLen (initTrigger tr) =
     (if \<not> tr then (initTrigger True, rotateReasonInitializing) else (initTrigger tr, rotateReasonNoRotate))"
| "TriggerRotation now dataLen (sizeTrigger mx sz) =
     (if (sz + dataLen) mod 2 ^ 64 > mx then (sizeTrigger mx 0, rotateReasonFileSize)
      else (sizeTrigger mx ((sz + dataLen) mod 2 ^ 64), rotateReasonNoRotate))"
| "TriggerRotation now dataLen (intervalTrigger interval lastR) =
     (if newInterval interval lastR now then (intervalTrigger interval now, rotateReasonTimeInterval)
      else (intervalTrigger interval lastR, rotateReasonNoRotate))"

text \<open>The triggers are asked in order until one fires.\<close>

fun isRotationTriggered :: "tm \<Rightarrow> nat \<Rightarrow> trigger list \<Rightarrow> trigger list \<times> rotateReason" where
  "isRotationTriggered now dataLen [] = ([], rotateReasonNoRotate)"
| "isRotationTriggered now dataLen (t # ts) =
     (case TriggerRotation now dataLen t of
        (t', reason) \<Rightarrow>
          if reason \<noteq> rotateReasonNoRotate then (t' # ts, reason)
          else (case isRotationTriggered now dataLen ts of (ts', r) \<Rightarrow> (t' # ts', r)))"

section \<open>File names\<close>

text \<open>\<open>time.Format\<close> and \<open>time.Parse\<close> with the layout \<open>20060102\<close>, for years of four digits.\<close>

definition pad2 :: "nat \<Rightarrow> string" where
  "pad2 n = [digit_char (n div 10 mod 10), digit_char (n mod 10)]"

definition formatDate :: "tm \<Rightarrow> string" where
  "formatDate t = pad2 (year t div 100) @ pad2 (year t mod 100) @ pad2 (month t) @ pad2 (day t)"

definition daysIn :: "nat \<Rightarrow> nat \<Rightarrow> nat" where
  "daysIn y m =
     (if m = 2 then (if y mod 4 = 0 \<and> (y mod 100 \<noteq> 0 \<or> y mod 400 = 0) then 29 else 28)
      else if m \<in> {4, 6, 9, 11} then 30 else 31)"

definition dateKey :: "nat \<Rightarrow> nat \<Rightarrow> nat \<Rightarrow> nat" where
  "dateKey y m d = y * 10000 + m * 100 + d"

definition parseDate :: "string \<Rightarrow> nat option" where
  "parseDate s =
     (if length s = 8 \<and> list_all is_digit s then
        (let v = (\<lambda>k. digit_val (s ! k));
             y = v 0 * 1000 + v 1 * 100 + v 2 * 10 + v 3; m = v 4 * 10 + v 5; d = v 6 * 10 + v 7
         in if 1 \<le> m \<and> m \<le> 12 \<and> 1 \<le> d \<and> d \<le> daysIn y m then Some (dateKey y m d) else None)
      else None)"

text \<open>The zero time, which is what a failed parse leaves.\<close>

definition zeroDate :: nat where "zeroDate = dateKey 1 1 1"

record dateRotator =
  filenamePrefix :: string
  extension :: string
  currentFilename :: string

abbreviation prefixLen :: "dateRotator \<Rightarrow> nat" where "prefixLen d \<equiv> length (filenamePrefix d)"
abbreviation filenameLen :: "dateRotator \<Rightarrow> nat" where "filenameLen d \<equiv> prefixLen d + 8"
abbreviation extensionLen :: "dateRotator \<Rightarrow> nat" where "extensionLen d \<equiv> length (extension d)"

definition isFilenameWithIndex :: "dateRotator \<Rightarrow> string \<Rightarrow> bool" where
  "isFilenameWithIndex d filename \<longleftrightarrow> filenameLen d + extensionLen d < length filename"

text \<open>
  What \<open>strconv.Atoi\<close> returns beside its error: 0 for a malformed number, the nearest bound for one out
  of range. The code keeps that value when there is an error.
\<close>

definition atoiVal :: "string \<Rightarrow> int" where
  "atoiVal s =
     (case go_atoi s of
        Some n \<Rightarrow> n
      | None \<Rightarrow>
          (case s of
             [] \<Rightarrow> 0
           | c # cs \<Rightarrow>
               if parse_nat (if c = CHR ''-'' \<or> c = CHR ''+'' then cs else s) = None then 0
               else if c = CHR ''-'' then - max_int64 - 1 else max_int64))"

definition filenameIndex :: "dateRotator \<Rightarrow> string \<Rightarrow> int" where
  "filenameIndex d filename =
     (let indexStr = take (length filename - extensionLen d - (filenameLen d + 1)) (drop (filenameLen d + 1) filename)
      in if length indexStr > 0 then atoiVal indexStr else 0)"

text \<open>
  The order of a file: its date and its index. The cache of the code holds values of this function
  only. A name shorter than the prefix and a date panics.
\<close>

definition OrderLog :: "dateRotator \<Rightarrow> string \<Rightarrow> (unit, nat \<times> int) outcome" where
  "OrderLog d filename =
     (if length filename < filenameLen d then Panic
      else (case parseDate (take 8 (drop (prefixLen d) filename)) of
              None \<Rightarrow> Ok (zeroDate, 0)
            | Some dt \<Rightarrow>
                if isFilenameWithIndex d filename then Ok (dt, filenameIndex d filename)
                else Ok (dt, 0)))"

text \<open>\<open>After\<close> is the order in which the logs are sorted, newest last.\<close>

definition logAfter :: "nat \<times> int \<Rightarrow> nat \<times> int \<Rightarrow> bool" where
  "logAfter a b = (if fst a = fst b then snd b > snd a else \<not> fst a > fst b)"

definition logKey :: "dateRotator \<Rightarrow> string \<Rightarrow> nat \<times> int" where
  "logKey d f = (case OrderLog d f of Ok k \<Rightarrow> k | _ \<Rightarrow> (zeroDate, 0))"

section \<open>The directory\<close>

datatype inode = RegFile string | SymLink bool

type_synonym dir = "(string, inode) gomap"

text \<open>\<open>os.Stat\<close> follows a link, \<open>os.Lstat\<close> does not.\<close>

definition statExists :: "dir \<Rightarrow> string \<Rightarrow> bool" where
  "statExists fs n = (case map_of fs n of Some (RegFile _) \<Rightarrow> True | Some (SymLink ok) \<Rightarrow> ok | None \<Rightarrow> False)"

text \<open>\<open>filepath.Glob(p + "*" + s)\<close> for a prefix and suffix without metacharacters.\<close>

definition globFiles :: "dir \<Rightarrow> string \<Rightarrow> string \<Rightarrow> string list" where
  "globFiles fs p s =
     filter (\<lambda>n. length p + length s \<le> length n \<and> prefix p n \<and> suffix s n \<and>
                 CHR ''/'' \<notin> set (take (length n - length p - length s) (drop (length p) n)))
       (map fst fs)"

section \<open>The date rotator\<close>

type_synonym sorter = "(string \<Rightarrow> nat \<times> int) \<Rightarrow> string list \<Rightarrow> string list"

text \<open>\<open>SortModTimeLogs\<close>: every one of two or more names is compared, a single one is not.\<close>

definition sortLogs :: "sorter \<Rightarrow> dateRotator \<Rightarrow> string list \<Rightarrow> (unit, string list) outcome" where
  "sortLogs srt d files =
     (if 2 \<le> length files \<and> (\<exists>f \<in> set files. OrderLog d f = Panic) then Panic else Ok (srt (logKey d) files))"

definition newDateRotater :: "sorter \<Rightarrow> dir \<Rightarrow> string \<Rightarrow> string \<Rightarrow> tm \<Rightarrow> (unit, dateRotator) outcome" where
  "newDateRotater srt fs filename ext now =
     (let d = \<lparr>filenamePrefix = filename @ ''-'', extension = ''.'' @ ext, currentFilename = []\<rparr>;
          d1 = d\<lparr>currentFilename := filenamePrefix d @ formatDate now @ extension d\<rparr>;
          files = globFiles fs (filenamePrefix d) (extension d)
      in case files of
           [] \<Rightarrow> Ok d1
         | [f] \<Rightarrow> Ok (d1\<lparr>currentFilename := f\<rparr>)
         | _ \<Rightarrow> bind_outcome (sortLogs srt d1 files) (\<lambda>fs'. Ok (d1\<lparr>currentFilename := last fs'\<rparr>)))"

definition ActiveFile :: "dateRotator \<Rightarrow> string" where
  "ActiveFile d = currentFilename d"

text \<open>The next index, which wraps at 64 bits.\<close>

definition nextIndex :: "int \<Rightarrow> int" where
  "nextIndex n = (if n = max_int64 then - max_int64 - 1 else n + 1)"

definition dateRotate :: "sorter \<Rightarrow> dir \<Rightarrow> tm \<Rightarrow> dateRotator \<Rightarrow> (unit, dateRotator) outcome" where
  "dateRotate srt fs rotateTime d =
     (let newFileNamePrefix = filenamePrefix d @ formatDate rotateTime;
          files = globFiles fs newFileNamePrefix (extension d)
      in if files = [] then Ok (d\<lparr>currentFilename := newFileNamePrefix @ extension d\<rparr>)
         else bind_outcome (sortLogs srt d files) (\<lambda>fs'.
              bind_outcome (OrderLog d (last fs')) (\<lambda>order.
              Ok (d\<lparr>currentFilename := newFileNamePrefix @ ''-'' @ itoaInt (nextIndex (snd order)) @ extension d\<rparr>))))"

definition RotatedFiles :: "sorter \<Rightarrow> dir \<Rightarrow> dateRotator \<Rightarrow> (unit, string list) outcome" where
  "RotatedFiles srt fs d =
     sortLogs srt d (remove1 (ActiveFile d) (globFiles fs (filenamePrefix d) (extension d)))"

section \<open>The rotator\<close>

record Rotator =
  rot :: dateRotator
  triggers :: "trigger list"
  maxSizeBytes :: nat
  maxBackups :: nat
  openFile1 :: "string option"
  files :: dir

datatype rot_error = ErrMaxSize | ErrMaxBackups | ErrPermissions | ErrInterval | ErrDataSize | ErrOpen | ErrNoFile

definition MaxBackupsLimit :: nat where "MaxBackupsLimit = 1024"

text \<open>The settings an option of \<open>NewFileRotator\<close> changes.\<close>

record settings =
  extensionS :: string
  maxSizeBytesS :: nat
  maxBackupsS :: nat
  permissionsS :: nat
  intervalS :: int
  rotateOnStartupS :: bool
  redirectStderrS :: bool

type_synonym RotatorOption = "settings \<Rightarrow> settings"

definition MaxSizeBytes :: "nat \<Rightarrow> RotatorOption" where
  "MaxSizeBytes n r = r\<lparr>maxSizeBytesS := n\<rparr>"

definition Extension :: "string \<Rightarrow> RotatorOption" where
  "Extension ext r = r\<lparr>extensionS := ext\<rparr>"

definition MaxBackups :: "nat \<Rightarrow> RotatorOption" where
  "MaxBackups n r = r\<lparr>maxBackupsS := n\<rparr>"

definition Permissions :: "nat \<Rightarrow> RotatorOption" where
  "Permissions m r = r\<lparr>permissionsS := m\<rparr>"

definition Interval :: "int \<Rightarrow> RotatorOption" where
  "Interval d r = r\<lparr>intervalS := d\<rparr>"

definition RotateOnStartup :: "bool \<Rightarrow> RotatorOption" where
  "RotateOnStartup b r = r\<lparr>rotateOnStartupS := b\<rparr>"

definition RedirectStderr :: "bool \<Rightarrow> RotatorOption" where
  "RedirectStderr redirect r = r\<lparr>redirectStderrS := redirect\<rparr>"

definition defaultSettings :: settings where
  "defaultSettings = \<lparr>extensionS = ''ndjson'', maxSizeBytesS = 10 * 1024 * 1024, maxBackupsS = 7, permissionsS = 384,
     intervalS = 0, rotateOnStartupS = True, redirectStderrS = False\<rparr>"

text \<open>\<open>os.ModePerm\<close> is octal 777.\<close>

definition ModePerm :: nat where "ModePerm = 511"

definition NewFileRotator :: "sorter \<Rightarrow> dir \<Rightarrow> tm \<Rightarrow> string \<Rightarrow> RotatorOption list \<Rightarrow> (rot_error, Rotator) outcome" where
  "NewFileRotator srt fs now filename opts =
     (let r = fold (\<lambda>opt r. opt r) opts defaultSettings in
      if maxSizeBytesS r = 0 then Err ErrMaxSize
      else if maxBackupsS r > MaxBackupsLimit then Err ErrMaxBackups
      else if permissionsS r > ModePerm then Err ErrPermissions
      else if intervalS r \<noteq> 0 \<and> intervalS r < Second then Err ErrInterval
      else (case newDateRotater srt fs filename (extensionS r) now of
              Ok d \<Rightarrow>
                Ok \<lparr>rot = d,
                    triggers = newTriggers (rotateOnStartupS r \<and> statExists fs (ActiveFile d)) (intervalS r) (maxSizeBytesS r) now,
                    maxSizeBytes = maxSizeBytesS r, maxBackups = maxBackupsS r, openFile1 = None, files = fs\<rparr>
            | _ \<Rightarrow> Panic))"

text \<open>An operation returns the rotator after it and its result; a later step is skipped after an error.\<close>

type_synonym rresult = "Rotator \<times> (rot_error, unit) outcome"

fun and_then :: "rresult \<Rightarrow> (Rotator \<Rightarrow> rresult) \<Rightarrow> rresult" where
  "and_then (r, Ok u) f = f r"
| "and_then (r, Err e) f = (r, Err e)"
| "and_then (r, Panic) f = (r, Panic)"

definition closeFile :: "Rotator \<Rightarrow> Rotator" where
  "closeFile r = r\<lparr>openFile1 := None\<rparr>"

text \<open>The file must not exist: it is opened with \<open>O_EXCL\<close>.\<close>

definition openFile :: "Rotator \<Rightarrow> rresult" where
  "openFile r =
     (let n = ActiveFile (rot r) in
      if map_of (files r) n \<noteq> None then (r\<lparr>openFile1 := None\<rparr>, Err ErrOpen)
      else (r\<lparr>openFile1 := Some n, files := map_put n (RegFile []) (files r)\<rparr>, Ok ()))"

definition appendToFile :: "Rotator \<Rightarrow> rresult" where
  "appendToFile r =
     (let n = ActiveFile (rot r) in
      if statExists (files r) n then (r\<lparr>openFile1 := Some n\<rparr>, Ok ())
      else (r\<lparr>openFile1 := None\<rparr>, Err ErrOpen))"

text \<open>Deleting stops at a file that \<open>os.Stat\<close> does not find.\<close>

fun purgeFiles :: "string list \<Rightarrow> dir \<Rightarrow> dir" where
  "purgeFiles [] fs = fs"
| "purgeFiles (n # ns) fs = (if statExists fs n then purgeFiles ns (map_del n fs) else fs)"

definition purge :: "sorter \<Rightarrow> Rotator \<Rightarrow> rresult" where
  "purge srt r =
     (case RotatedFiles srt (files r) (rot r) of
        Ok rotatedFiles \<Rightarrow>
          if length rotatedFiles \<le> maxBackups r then (r, Ok ())
          else (r\<lparr>files := purgeFiles (take (length rotatedFiles - maxBackups r) rotatedFiles) (files r)\<rparr>, Ok ())
      | _ \<Rightarrow> (r, Panic))"

definition doRotate :: "sorter \<Rightarrow> tm \<Rightarrow> Rotator \<Rightarrow> rresult" where
  "doRotate srt now r =
     (case dateRotate srt (files r) now (rot r) of
        Ok d \<Rightarrow> (r\<lparr>rot := d\<rparr>, Ok ())
      | _ \<Rightarrow> (r, Panic))"

definition rotateWithTime :: "sorter \<Rightarrow> tm \<Rightarrow> Rotator \<Rightarrow> rresult" where
  "rotateWithTime srt now r = and_then (doRotate srt now (closeFile r)) (purge srt)"

definition Rotate :: "sorter \<Rightarrow> tm \<Rightarrow> Rotator \<Rightarrow> rresult" where
  "Rotate srt now r = rotateWithTime srt now r"

definition openNew :: "sorter \<Rightarrow> tm \<Rightarrow> Rotator \<Rightarrow> rresult" where
  "openNew srt now r =
     (case map_of (files r) (ActiveFile (rot r)) of
        None \<Rightarrow> openFile r
      | Some node \<Rightarrow>
          (case isRotationTriggered now 0 (triggers r) of
             (ts, reason) \<Rightarrow>
               let r1 = r\<lparr>triggers := ts\<rparr> in
               if reason = rotateReasonNoRotate \<and> node \<noteq> SymLink True \<and> node \<noteq> SymLink False
               then appendToFile r1
               else and_then (and_then (doRotate srt now r1) (purge srt)) openFile))"

text \<open>Writing to the open file; the data goes to the file under its name.\<close>

definition writeOpen :: "string \<Rightarrow> Rotator \<Rightarrow> rresult" where
  "writeOpen data r =
     (case openFile1 r of
        None \<Rightarrow> (r, Err ErrNoFile)
      | Some n \<Rightarrow>
          (case map_of (files r) n of
             Some (RegFile c) \<Rightarrow> (r\<lparr>files := map_put n (RegFile (c @ data)) (files r)\<rparr>, Ok ())
           | _ \<Rightarrow> (r, Err ErrNoFile)))"

definition Write :: "sorter \<Rightarrow> tm \<Rightarrow> string \<Rightarrow> Rotator \<Rightarrow> rresult" where
  "Write srt now data r =
     (if length data > maxSizeBytes r then (r, Err ErrDataSize)
      else and_then
        (case openFile1 r of
           None \<Rightarrow> openNew srt now r
         | Some _ \<Rightarrow>
             (case isRotationTriggered now (length data) (triggers r) of
                (ts, reason) \<Rightarrow>
                  let r1 = r\<lparr>triggers := ts\<rparr> in
                  if reason \<noteq> rotateReasonNoRotate
                  then and_then (rotateWithTime srt now r1) openFile
                  else (r1, Ok ())))
        (writeOpen data))"

definition Close :: "Rotator \<Rightarrow> Rotator" where
  "Close r = closeFile r"

end
