(* ===== verification/Rotator_Laws.thy ===== *)
theory Rotator_Laws
  imports Rotator
begin

text \<open>
  The laws of the file rotator: the name of a new file is not in use, the oldest files beyond the
  maximum number are deleted and no others, and how large a file can become.
\<close>

section \<open>The interface of a rotater\<close>

text \<open>
  What the rotator relies on when it purges: the rotated files are files of the directory other
  than the active one, each listed once, and deleting some of them leaves the others listed.
\<close>

locale rotater =
  fixes active :: "'d \<Rightarrow> string"
    and rotated :: "dir \<Rightarrow> 'd \<Rightarrow> string list"
    and ok :: "dir \<Rightarrow> 'd \<Rightarrow> bool"
  assumes rotated_distinct: "ok fs d \<Longrightarrow> distinct (rotated fs d)"
    and rotated_files: "ok fs d \<Longrightarrow> n \<in> set (rotated fs d) \<Longrightarrow> statExists fs n \<and> n \<noteq> active d"
    and rotated_del: "ok fs d \<Longrightarrow> set (rotated (map_del n fs) d) = set (rotated fs d) - {n}"
    and ok_del: "ok fs d \<Longrightarrow> ok (map_del n fs) d"
begin

lemma purgeFiles_all:
  "ok fs d \<Longrightarrow> set ns \<subseteq> set (rotated fs d) \<Longrightarrow> distinct ns \<Longrightarrow>
     ok (purgeFiles ns fs) d \<and> set (rotated (purgeFiles ns fs) d) = set (rotated fs d) - set ns \<and>
     (\<forall>n. n \<notin> set ns \<longrightarrow> map_of (purgeFiles ns fs) n = map_of fs n) \<and>
     (\<forall>n \<in> set ns. map_of (purgeFiles ns fs) n = None)"
proof (induction ns arbitrary: fs)
  case (Cons n ns)
  have ex: "statExists fs n" using Cons.prems rotated_files by auto
  have sub: "set ns \<subseteq> set (rotated (map_del n fs) d)" using Cons.prems rotated_del by auto
  note IH = Cons.IH [OF ok_del [OF Cons.prems(1)] sub]
  show ?case using Cons.prems IH ex rotated_del [OF Cons.prems(1)] by auto
qed simp

lemma purge_bound:
  assumes "ok fs d" and "mx \<le> length (rotated fs d)"
  shows "length (rotated (purgeFiles (take (length (rotated fs d) - mx) (rotated fs d)) fs) d) = mx"
proof -
  let ?R = "rotated fs d" and ?ns = "take (length (rotated fs d) - mx) (rotated fs d)"
  note dist = rotated_distinct [OF assms(1)]
  have p: "ok (purgeFiles ?ns fs) d" "set (rotated (purgeFiles ?ns fs) d) = set ?R - set ?ns"
    using purgeFiles_all [OF assms(1), of ?ns] dist by (auto dest: in_set_takeD)
  have "set ?R - set ?ns = set (drop (length ?R - mx) ?R)"
    using dist by (metis append_take_drop_id distinct_append Diff_disjoint Diff_triv Un_Diff set_append Diff_cancel sup_bot.left_neutral inf_commute)
  then have "card (set (rotated (purgeFiles ?ns fs) d)) = mx"
    using p(2) dist assms(2) by (simp add: distinct_card)
  then show ?thesis using distinct_card [OF rotated_distinct [OF p(1)]] by simp
qed

end

section \<open>The date rotator as a rotater\<close>

definition rotatedNames :: "sorter \<Rightarrow> dir \<Rightarrow> dateRotator \<Rightarrow> string list" where
  "rotatedNames srt fs d = (case RotatedFiles srt fs d of Ok ns \<Rightarrow> ns | _ \<Rightarrow> [])"

text \<open>Every file with the rotator's prefix and extension has room for a date and can be read.\<close>

definition ok_dir :: "dir \<Rightarrow> dateRotator \<Rightarrow> bool" where
  "ok_dir fs d \<longleftrightarrow> wf_map fs \<and>
     (\<forall>n \<in> set (globFiles fs (filenamePrefix d) (extension d)). filenameLen d \<le> length n \<and> statExists fs n)"

definition good_sorter :: "sorter \<Rightarrow> bool" where
  "good_sorter srt \<longleftrightarrow> (\<forall>key. slice_sorter (srt key) key)"

text \<open>The order the logs are sorted by is the one of their keys.\<close>

lemma logAfter_less: "logAfter a b \<longleftrightarrow> a < b"
  by (cases a; cases b) (auto simp: logAfter_def)

lemma good_sorter_set: "good_sorter srt \<Longrightarrow> set (srt key xs) = set xs"
  using slice_sorter.srt_set [of "srt key" key xs] by (simp add: good_sorter_def)

lemma good_sorter_distinct: "good_sorter srt \<Longrightarrow> distinct (srt key xs) \<longleftrightarrow> distinct xs"
  using slice_sorter.srt_distinct [of "srt key" key id] by (simp add: good_sorter_def)

lemma globFiles_distinct: "wf_map fs \<Longrightarrow> distinct (globFiles fs p s)"
  by (simp add: globFiles_def wf_map_def)

lemma OrderLog_Panic: "OrderLog d f = Panic \<longleftrightarrow> length f < filenameLen d"
  by (auto simp: OrderLog_def split: option.splits)

lemma rotatedNames_sort:
  assumes "ok_dir fs d"
  shows "RotatedFiles srt fs d = Ok (rotatedNames srt fs d) \<and>
    rotatedNames srt fs d = srt (logKey d) (remove1 (ActiveFile d) (globFiles fs (filenamePrefix d) (extension d)))"
proof -
  have "\<not> (\<exists>f \<in> set (remove1 (ActiveFile d) (globFiles fs (filenamePrefix d) (extension d))). OrderLog d f = Panic)"
    using assms set_remove1_subset by (fastforce simp: ok_dir_def OrderLog_Panic)
  then show ?thesis by (simp add: rotatedNames_def RotatedFiles_def sortLogs_def)
qed

lemma rotatedNames_set:
  assumes "good_sorter srt" and "ok_dir fs d"
  shows "set (rotatedNames srt fs d) = set (globFiles fs (filenamePrefix d) (extension d)) - {ActiveFile d}"
  using rotatedNames_sort [OF assms(2), of srt] globFiles_distinct [of fs] assms
  by (simp add: good_sorter_set ok_dir_def)

lemma globFiles_del: "set (globFiles (map_del n fs) p s) = set (globFiles fs p s) - {n}"
  by (auto simp: globFiles_def delete_keys)

lemma statExists_del: "n' \<noteq> n \<Longrightarrow> statExists (map_del n fs) n' = statExists fs n'"
  by (simp add: statExists_def)

lemma ok_dir_del: "ok_dir fs d \<Longrightarrow> ok_dir (map_del n fs) d"
  by (auto simp: ok_dir_def globFiles_del statExists_del)

lemma date_rotater:
  assumes "good_sorter srt"
  shows "rotater ActiveFile (rotatedNames srt) ok_dir"
proof
  show "distinct (rotatedNames srt fs d)" if "ok_dir fs d" for fs d
    using rotatedNames_sort [OF that, of srt] good_sorter_distinct [OF assms] globFiles_distinct that
    by (simp add: ok_dir_def distinct_remove1)
  show "statExists fs n \<and> n \<noteq> ActiveFile d" if "ok_dir fs d" "n \<in> set (rotatedNames srt fs d)" for fs d n
    using that rotatedNames_set [OF assms that(1)] by (simp add: ok_dir_def)
  show "set (rotatedNames srt (map_del n fs) d) = set (rotatedNames srt fs d) - {n}" if "ok_dir fs d" for fs d n
    using rotatedNames_set [OF assms that] rotatedNames_set [OF assms ok_dir_del [OF that]]
    by (auto simp: globFiles_del)
qed (rule ok_dir_del)

text \<open>The library's stable sort is one of the sorts this holds for.\<close>

lemma good_stable: "good_sorter sort_key"
  by (simp add: good_sorter_def stable_sort.slice_sorter_axioms)

interpretation stable_rotater: rotater ActiveFile "rotatedNames sort_key" ok_dir
  by (rule date_rotater [OF good_stable])

section \<open>Dates and indices in file names\<close>

definition valid_date :: "tm \<Rightarrow> bool" where
  "valid_date t \<longleftrightarrow> year t \<le> 9999 \<and> 1 \<le> month t \<and> month t \<le> 12 \<and> 1 \<le> day t \<and> day t \<le> daysIn (year t) (month t)"

lemma pad2_length [simp]: "length (pad2 n) = 2"
  by (simp add: pad2_def)

lemma formatDate_length [simp]: "length (formatDate t) = 8"
  by (simp add: formatDate_def)

lemma daysIn_le: "daysIn y m \<le> 31"
  by (simp add: daysIn_def)

lemma two_digits:
  assumes "n < 100"
  shows "n div 10 mod 10 * 10 + n mod 10 = (n :: nat)"
proof -
  have "n div 10 < 10" using assms by simp
  then have "n div 10 mod 10 = n div 10" by simp
  then show ?thesis using div_mult_mod_eq [of n 10] by simp
qed

lemma parseDate_digits:
  assumes "a0 < 10" "a1 < 10" "a2 < 10" "a3 < 10" "a4 < 10" "a5 < 10" "a6 < 10" "a7 < 10"
    and "y = a0 * 1000 + a1 * 100 + a2 * 10 + a3" "m = a4 * 10 + a5" "dd = a6 * 10 + a7"
  shows "parseDate (map digit_char [a0, a1, a2, a3, a4, a5, a6, a7]) =
    (if 1 \<le> m \<and> m \<le> 12 \<and> 1 \<le> dd \<and> dd \<le> daysIn y m then Some (dateKey y m dd) else None)"
proof -
  have "digit_val (map digit_char [a0, a1, a2, a3, a4, a5, a6, a7] ! k) = [a0, a1, a2, a3, a4, a5, a6, a7] ! k"
    if "k < 8" for k
  proof -
    have "\<forall>x \<in> set [a0, a1, a2, a3, a4, a5, a6, a7]. x < 10" using assms(1-8) by simp
    moreover have len: "k < length [a0, a1, a2, a3, a4, a5, a6, a7]" using that by simp
    ultimately have "[a0, a1, a2, a3, a4, a5, a6, a7] ! k < 10" using nth_mem by blast
    then show ?thesis unfolding nth_map [OF len] by (rule digit_val_digit_char)
  qed
  note v = this [of 0] this [of 1] this [of 2] this [of 3] this [of 4] this [of 5] this [of 6] this [of 7]
  have dig: "list_all is_digit (map digit_char [a0, a1, a2, a3, a4, a5, a6, a7])" using assms(1-8) by simp
  have len: "length (map digit_char [a0, a1, a2, a3, a4, a5, a6, a7]) = 8" by simp
  show ?thesis
    unfolding parseDate_def Let_def using dig len v assms(9-11) by (simp only: if_True simp_thms) simp
qed

lemma parse_formatDate:
  assumes "valid_date t"
  shows "parseDate (formatDate t) = Some (dateKey (year t) (month t) (day t))"
proof -
  have y: "year t div 100 < 100" "year t mod 100 < 100" and md: "month t < 100" "day t < 100"
    using assms daysIn_le [of "year t" "month t"] by (auto simp: valid_date_def)
  have fmt: "formatDate t = map digit_char [year t div 100 div 10 mod 10, year t div 100 mod 10,
      year t mod 100 div 10 mod 10, year t mod 100 mod 10, month t div 10 mod 10, month t mod 10,
      day t div 10 mod 10, day t mod 10]"
    by (simp only: formatDate_def pad2_def list.map append.simps)
  have yy: "year t = year t div 100 div 10 mod 10 * 1000 + year t div 100 mod 10 * 100 +
      year t mod 100 div 10 mod 10 * 10 + year t mod 100 mod 10"
    using two_digits [OF y(1)] two_digits [OF y(2)] div_mult_mod_eq [of "year t" 100] by linarith
  have lt: "x mod 10 < 10" for x :: nat by simp
  show ?thesis
    unfolding fmt
    by (subst parseDate_digits [OF lt lt lt lt lt lt lt lt yy two_digits [OF md(1), symmetric] two_digits [OF md(2), symmetric]])
      (use assms in \<open>simp add: valid_date_def\<close>)
qed

lemma atoiVal_itoaInt:
  assumes "- max_int64 \<le> n" and "n \<le> max_int64"
  shows "atoiVal (itoaInt n) = n"
proof (cases "n < 0")
  case True
  have "parse_nat (go_itoa (nat (- n))) = Some (nat (- n))"
    using parse_digits_itoa by (simp add: parse_nat_def)
  then show ?thesis using True assms by (simp add: atoiVal_def itoaInt_def go_atoi_def)
next
  case False
  then show ?thesis using assms go_atoi_itoa [of "nat n"] by (simp add: atoiVal_def itoaInt_def)
qed

lemma itoaInt_no_slash: "CHR ''/'' \<notin> set (itoaInt n)" and itoaInt_not_Nil: "itoaInt n \<noteq> []"
  by (auto simp: itoaInt_def is_digit_def dest!: go_itoa_digits)

text \<open>The order of a name with a date and an index.\<close>

lemma logKey_indexed:
  assumes "parseDate dt = Some k" and "length dt = 8" and "ix \<noteq> []"
  shows "logKey d (filenamePrefix d @ dt @ ''-'' @ ix @ extension d) = (k, atoiVal ix)"
  using assms by (simp add: logKey_def OrderLog_def isFilenameWithIndex_def filenameIndex_def Let_def)

lemma logKey_dated:
  assumes "prefix (filenamePrefix d @ dt) n" and "length dt = 8" and "parseDate dt = Some k"
  shows "fst (logKey d n) = k \<and> OrderLog d n = Ok (logKey d n)"
proof -
  obtain r where "n = filenamePrefix d @ dt @ r" using assms(1) by (auto simp: prefix_def)
  then show ?thesis using assms(2,3) by (simp add: logKey_def OrderLog_def)
qed

lemma glob_mem:
  "n \<in> set (globFiles fs p s) \<longleftrightarrow> n \<in> fst ` set fs \<and> (\<exists>m. n = p @ m @ s \<and> CHR ''/'' \<notin> set m)"
proof
  assume n: "n \<in> set (globFiles fs p s)"
  let ?m = "take (length n - length p - length s) (drop (length p) n)"
  have le: "length p + length s \<le> length n" and p: "prefix p n" and s: "suffix s n" and ns: "CHR ''/'' \<notin> set ?m"
    and mem: "n \<in> fst ` set fs" using n by (auto simp: globFiles_def)
  obtain r where r: "n = p @ r" using p by (auto simp: prefix_def)
  have "suffix s r"
  proof (rule suffix_length_suffix [OF s])
    show "suffix r n" using r by (simp add: suffix_def)
    show "length s \<le> length r" using le r by simp
  qed
  then obtain m where "r = m @ s" by (auto simp: suffix_def)
  with r ns mem show "n \<in> fst ` set fs \<and> (\<exists>m. n = p @ m @ s \<and> CHR ''/'' \<notin> set m)" by auto
qed (auto simp: globFiles_def suffix_def)

section \<open>The name of a new file\<close>

lemma sorted_last: "sorted xs \<Longrightarrow> y \<in> set xs \<Longrightarrow> y \<le> last xs"
  by (induction xs) auto

lemma sorted_last_max:
  assumes "good_sorter srt" and "x \<in> set xs"
  shows "key x \<le> key (last (srt key xs)) \<and> last (srt key xs) \<in> set xs"
proof -
  note st = good_sorter_set [OF assms(1), of key xs]
  have ne: "srt key xs \<noteq> []" using st assms(2) by (metis empty_iff set_empty)
  have "sorted (map key (srt key xs))"
    using assms(1) slice_sorter.srt_sorted [of "srt key" key xs] by (simp add: good_sorter_def)
  from sorted_last [OF this, of "key x"] have "key x \<le> last (map key (srt key xs))" using st assms(2) by simp
  then show ?thesis using ne st last_in_set [OF ne] by (simp add: last_map)
qed

text \<open>The indices of the files of a day are not negative and have a successor.\<close>

definition indices_ok :: "dir \<Rightarrow> tm \<Rightarrow> dateRotator \<Rightarrow> bool" where
  "indices_ok fs now d \<longleftrightarrow>
     (\<forall>n \<in> set (globFiles fs (filenamePrefix d @ formatDate now) (extension d)).
        0 \<le> snd (logKey d n) \<and> snd (logKey d n) < max_int64)"

lemma dateRotate_fresh:
  assumes "good_sorter srt" and "valid_date now" and "indices_ok fs now d"
  shows "\<exists>nm. dateRotate srt fs now d = Ok (d\<lparr>currentFilename := nm\<rparr>) \<and> nm \<notin> fst ` set fs"
proof -
  let ?P = "filenamePrefix d @ formatDate now"
  let ?fl = "globFiles fs ?P (extension d)"
  note dt = parse_formatDate [OF assms(2)]
  show ?thesis
  proof (cases "?fl = []")
    case True
    have "?P @ extension d \<notin> fst ` set fs"
    proof
      assume "?P @ extension d \<in> fst ` set fs"
      then have "?P @ [] @ extension d \<in> set ?fl" unfolding glob_mem by force
      then show False using True by simp
    qed
    then show ?thesis
      using True by (intro exI [of _ "?P @ extension d"]) (simp add: dateRotate_def Let_def)
  next
    case False
    then obtain x where x: "x \<in> set ?fl" by (cases ?fl) auto
    let ?l = "last (srt (logKey d) ?fl)"
    have ordered: "OrderLog d n = Ok (logKey d n) \<and> fst (logKey d n) = dateKey (year now) (month now) (day now)"
      if "n \<in> set ?fl" for n
    proof -
      have "prefix ?P n" using that by (auto simp: glob_mem)
      from logKey_dated [OF this _ dt] show ?thesis by simp
    qed
    have l: "?l \<in> set ?fl" using sorted_last_max [OF assms(1) x] by blast
    let ?k = "snd (logKey d ?l)"
    have kb: "0 \<le> ?k" "?k < max_int64" using assms(3) l by (auto simp: indices_ok_def)
    let ?nm = "?P @ ''-'' @ itoaInt (?k + 1) @ extension d"
    have "dateRotate srt fs now d = Ok (d\<lparr>currentFilename := ?nm\<rparr>)"
      using False ordered l kb by (auto simp: dateRotate_def Let_def sortLogs_def nextIndex_def)
    moreover have "?nm \<notin> fst ` set fs"
    proof
      assume "?nm \<in> fst ` set fs"
      then have "?P @ (''-'' @ itoaInt (?k + 1)) @ extension d \<in> set ?fl"
        unfolding glob_mem using itoaInt_no_slash [of "?k + 1"] by force
      from sorted_last_max [OF assms(1) this, of "logKey d"]
      have le: "logKey d ?nm \<le> logKey d ?l" by simp
      have "logKey d ?nm = (dateKey (year now) (month now) (day now), ?k + 1)"
        using logKey_indexed [OF dt _ itoaInt_not_Nil [of "?k + 1"]] kb atoiVal_itoaInt [of "?k + 1"] by simp
      moreover obtain a k where ak: "logKey d ?l = (a, k)" by (cases "logKey d ?l")
      moreover have "a = dateKey (year now) (month now) (day now)"
        using ordered [OF l] ak by simp
      ultimately show False using le by (simp only: less_eq_prod_simp) simp
    qed
    ultimately show ?thesis by blast
  qed
qed

section \<open>Rotation\<close>

lemma rotateWithTime_ok:
  assumes "good_sorter srt" and "ok_dir (files r) (rot r)" and "valid_date now" and "indices_ok (files r) now (rot r)"
  shows "\<exists>nm fs'. rotateWithTime srt now r =
      (r\<lparr>openFile1 := None, rot := (rot r)\<lparr>currentFilename := nm\<rparr>, files := fs'\<rparr>, Ok ()) \<and>
    nm \<notin> fst ` set (files r) \<and>
    (let d' = (rot r)\<lparr>currentFilename := nm\<rparr>; old = rotatedNames srt (files r) d' in
      ok_dir fs' d' \<and> length (rotatedNames srt fs' d') = min (length old) (maxBackups r) \<and>
      (\<forall>n. map_of fs' n = (if n \<in> set (take (length old - maxBackups r) old) then None else map_of (files r) n)))"
proof -
  obtain nm where nm: "dateRotate srt (files r) now (rot r) = Ok ((rot r)\<lparr>currentFilename := nm\<rparr>)"
      "nm \<notin> fst ` set (files r)"
    using dateRotate_fresh [OF assms(1,3,4)] by blast
  let ?d = "(rot r)\<lparr>currentFilename := nm\<rparr>"
  have ok: "ok_dir (files r) ?d" using assms(2) by (simp add: ok_dir_def)
  let ?old = "rotatedNames srt (files r) ?d"
  let ?ns = "take (length ?old - maxBackups r) ?old"
  let ?fs = "if length ?old \<le> maxBackups r then files r else purgeFiles ?ns (files r)"
  have rf: "RotatedFiles srt (files r) ?d = Ok ?old" using rotatedNames_sort [OF ok, of srt] by simp
  have run: "rotateWithTime srt now r =
      (r\<lparr>openFile1 := None, rot := ?d, files := ?fs\<rparr>, Ok ())"
    using nm(1) rf by (auto simp: rotateWithTime_def doRotate_def closeFile_def purge_def)
  note L = date_rotater [OF assms(1)]
  have sub: "set ?ns \<subseteq> set ?old" "distinct ?ns"
    using rotater.rotated_distinct [OF L ok] by (auto dest: in_set_takeD)
  note pf = rotater.purgeFiles_all [OF L ok sub]
  have "ok_dir ?fs ?d" using ok pf by simp
  moreover have "length (rotatedNames srt ?fs ?d) = min (length ?old) (maxBackups r)"
    using rotater.purge_bound [OF L ok, of "maxBackups r"] by simp
  moreover have "map_of ?fs n = (if n \<in> set ?ns then None else map_of (files r) n)" for n
    using pf by simp
  ultimately show ?thesis
    using run nm(2) by (intro exI [of _ nm] exI [of _ ?fs]) (simp only: Let_def simp_thms)
qed

section \<open>The size of the open file\<close>

fun is_size :: "trigger \<Rightarrow> bool" where
  "is_size (sizeTrigger _ _) = True"
| "is_size _ = False"

text \<open>Triggers as \<open>newTriggers\<close> builds them: the size trigger is the last one.\<close>

definition triggers_ok :: "nat \<Rightarrow> nat \<Rightarrow> trigger list \<Rightarrow> bool" where
  "triggers_ok mx sz ts \<longleftrightarrow> (\<exists>ts0. ts = ts0 @ [sizeTrigger mx sz] \<and> list_all (\<lambda>t. \<not> is_size t) ts0) \<and> sz \<le> mx"

lemma newTriggers_ok: "0 < mx \<Longrightarrow> triggers_ok mx 0 (newTriggers b interval mx now)"
  by (auto simp: triggers_ok_def newTriggers_def)

lemma TriggerRotation_other: "\<not> is_size t \<Longrightarrow> \<not> is_size (fst (TriggerRotation now n t))"
  by (cases t) auto

lemma isRotationTriggered_cases:
  assumes "list_all (\<lambda>t. \<not> is_size t) ts0" and "sz + n < 2 ^ 64"
  shows "\<exists>ts0' sz'. fst (isRotationTriggered now n (ts0 @ [sizeTrigger mx sz])) = ts0' @ [sizeTrigger mx sz'] \<and>
    list_all (\<lambda>t. \<not> is_size t) ts0' \<and>
    (if snd (isRotationTriggered now n (ts0 @ [sizeTrigger mx sz])) = rotateReasonNoRotate
     then sz' = sz + n \<and> sz + n \<le> mx else sz' = sz \<or> sz' = 0)"
  using assms(1)
proof (induction ts0)
  case Nil
  then show ?case using assms(2) by simp
next
  case (Cons t ts0)
  obtain t' rs where t': "TriggerRotation now n t = (t', rs)" by (cases "TriggerRotation now n t")
  have ns: "\<not> is_size t'" using TriggerRotation_other [of t now n] Cons.prems t' by simp
  show ?case
  proof (cases "rs = rotateReasonNoRotate")
    case True
    obtain ts0' sz' where IH: "fst (isRotationTriggered now n (ts0 @ [sizeTrigger mx sz])) = ts0' @ [sizeTrigger mx sz']"
        "list_all (\<lambda>t. \<not> is_size t) ts0'"
        "if snd (isRotationTriggered now n (ts0 @ [sizeTrigger mx sz])) = rotateReasonNoRotate
         then sz' = sz + n \<and> sz + n \<le> mx else sz' = sz \<or> sz' = 0"
      using Cons by auto
    then show ?thesis
      using True t' ns
      by (intro exI [of _ "t' # ts0'"] exI [of _ sz']) (auto simp: case_prod_beta)
  next
    case False
    then show ?thesis
      using t' ns Cons.prems by (intro exI [of _ "t' # ts0"] exI [of _ sz]) simp
  qed
qed

lemma triggers_step:
  assumes "triggers_ok mx sz ts" and "mx < 2 ^ 63" and "n \<le> mx" and "isRotationTriggered now n ts = (ts', reason)"
  shows "\<exists>sz'. triggers_ok mx sz' ts' \<and> (reason = rotateReasonNoRotate \<longrightarrow> sz' = sz + n)"
proof -
  obtain ts0 where ts0: "ts = ts0 @ [sizeTrigger mx sz]" "list_all (\<lambda>t. \<not> is_size t) ts0" and le: "sz \<le> mx"
    using assms(1) by (auto simp: triggers_ok_def)
  have "sz + n < 2 ^ 64" using le assms(2,3) by simp
  from isRotationTriggered_cases [OF ts0(2) this, of now mx] assms(4) le ts0(1) show ?thesis
    by (auto simp: triggers_ok_def split: if_splits)
qed

text \<open>
  The invariant of a sequence of writes: a file that is not open does not exist yet, and an open
  file holds at most one uncounted write more than the trigger has counted.
\<close>

definition size_inv :: "Rotator \<Rightarrow> bool" where
  "size_inv r \<longleftrightarrow>
     (\<exists>sz. triggers_ok (maxSizeBytes r) sz (triggers r) \<and>
       (case openFile1 r of
          None \<Rightarrow> map_of (files r) (ActiveFile (rot r)) = None
        | Some n \<Rightarrow> (\<exists>c. map_of (files r) n = Some (RegFile c) \<and> length c \<le> maxSizeBytes r + sz)))"

lemma and_then_Ok: "and_then x f = (r, Ok u) \<longleftrightarrow> (\<exists>r1. x = (r1, Ok ()) \<and> f r1 = (r, Ok u))"
  by (cases "(x, f)" rule: and_then.cases) auto

lemma purge_frame:
  "purge srt r = (r', Ok u) \<Longrightarrow> triggers r' = triggers r \<and> maxSizeBytes r' = maxSizeBytes r \<and> rot r' = rot r"
  by (auto simp: purge_def split: outcome.splits if_splits)

lemma doRotate_frame:
  "doRotate srt now r = (r', Ok u) \<Longrightarrow> triggers r' = triggers r \<and> maxSizeBytes r' = maxSizeBytes r"
  by (auto simp: doRotate_def split: outcome.splits)

lemma rotateWithTime_frame:
  "rotateWithTime srt now r = (r', Ok u) \<Longrightarrow> triggers r' = triggers r \<and> maxSizeBytes r' = maxSizeBytes r"
  by (auto simp: rotateWithTime_def and_then_Ok closeFile_def dest!: purge_frame doRotate_frame)

lemma openFile_write:
  assumes "openFile r = (r1, Ok u)" and "writeOpen data r1 = (r', Ok u')"
  shows "triggers r' = triggers r \<and> maxSizeBytes r' = maxSizeBytes r \<and>
    openFile1 r' = Some (ActiveFile (rot r)) \<and> map_of (files r') (ActiveFile (rot r)) = Some (RegFile data)"
  using assms by (auto simp: openFile_def writeOpen_def Let_def split: if_splits)

lemma Write_size_inv:
  assumes "size_inv r" and "maxSizeBytes r < 2 ^ 63" and "Write srt now data r = (r', Ok ())"
  shows "size_inv r' \<and> maxSizeBytes r' = maxSizeBytes r"
proof -
  let ?mx = "maxSizeBytes r"
  obtain sz where sz: "triggers_ok ?mx sz (triggers r)" using assms(1) by (auto simp: size_inv_def)
  have le: "length data \<le> ?mx" using assms(3) by (auto simp: Write_def split: if_splits)
  show ?thesis
  proof (cases "openFile1 r")
    case None
    then have "map_of (files r) (ActiveFile (rot r)) = None" using assms(1) by (auto simp: size_inv_def)
    then obtain r1 where "openFile r = (r1, Ok ())" "writeOpen data r1 = (r', Ok ())"
      using assms(3) None le by (auto simp: Write_def and_then_Ok openNew_def)
    from openFile_write [OF this] sz le show ?thesis by (auto simp: size_inv_def)
  next
    case (Some n)
    obtain c sz0 where c: "map_of (files r) n = Some (RegFile c)" "length c \<le> ?mx + sz0" "triggers_ok ?mx sz0 (triggers r)"
      using assms(1) Some by (auto simp: size_inv_def)
    obtain ts reason where ts: "isRotationTriggered now (length data) (triggers r) = (ts, reason)"
      by (cases "isRotationTriggered now (length data) (triggers r)")
    obtain sz' where sz': "triggers_ok ?mx sz' ts" "reason = rotateReasonNoRotate \<longrightarrow> sz' = sz0 + length data"
      using triggers_step [OF c(3) assms(2) le ts] by blast
    show ?thesis
    proof (cases "reason = rotateReasonNoRotate")
      case True
      then have "writeOpen data (r\<lparr>triggers := ts\<rparr>) = (r', Ok ())"
        using assms(3) Some le ts by (simp add: Write_def)
      then have "r' = r\<lparr>triggers := ts, files := map_put n (RegFile (c @ data)) (files r)\<rparr>"
        using Some c(1) by (auto simp: writeOpen_def)
      then show ?thesis using Some sz' True c(2) by (auto simp: size_inv_def intro!: exI [of _ sz'])
    next
      case False
      then obtain r1 r2 where r1: "rotateWithTime srt now (r\<lparr>triggers := ts\<rparr>) = (r1, Ok ())"
          "openFile r1 = (r2, Ok ())" "writeOpen data r2 = (r', Ok ())"
        using assms(3) Some le ts by (auto simp: Write_def and_then_Ok)
      have f: "triggers r1 = ts" "maxSizeBytes r1 = ?mx" using rotateWithTime_frame [OF r1(1)] by simp_all
      from openFile_write [OF r1(2,3)] f sz' le show ?thesis by (auto simp: size_inv_def)
    qed
  qed
qed

text \<open>States reached by successful writes.\<close>

inductive writes :: "sorter \<Rightarrow> Rotator \<Rightarrow> Rotator \<Rightarrow> bool" for srt where
  writes_refl: "writes srt r r"
| writes_step: "writes srt r r' \<Longrightarrow> Write srt now data r' = (r'', Ok ()) \<Longrightarrow> writes srt r r''"

lemma writes_size_inv:
  "writes srt r r' \<Longrightarrow> size_inv r \<Longrightarrow> maxSizeBytes r < 2 ^ 63 \<Longrightarrow> size_inv r' \<and> maxSizeBytes r' = maxSizeBytes r"
proof (induction rule: writes.induct)
  case (writes_step r r' now data r'')
  then show ?case using Write_size_inv [of r' srt now data r''] by simp
qed simp

section \<open>Properties\<close>

lemma take_drop_sorted:
  assumes "sorted (map key xs)" and "x \<in> set (take k xs)" and "y \<in> set (drop k xs)"
  shows "(key x :: 'a :: linorder) \<le> key y"
proof -
  have "sorted (map key (take k xs) @ map key (drop k xs))"
    using assms(1) by (simp flip: map_append)
  then show ?thesis using assms(2,3) unfolding sorted_append by simp
qed

lemma rotated_oldest:
  assumes "good_sorter srt" and "ok_dir fs d" and "x \<in> set (take k (rotatedNames srt fs d))"
    and "y \<in> set (rotatedNames srt fs d) - set (take k (rotatedNames srt fs d))"
  shows "logKey d x \<le> logKey d y"
proof -
  have "sorted (map (logKey d) (rotatedNames srt fs d))"
    using rotatedNames_sort [OF assms(2), of srt] assms(1) slice_sorter.srt_sorted [of "srt (logKey d)" "logKey d"]
    by (simp add: good_sorter_def)
  moreover have "y \<in> set (drop k (rotatedNames srt fs d))"
    using assms(4) by (metis DiffE Un_iff append_take_drop_id set_append)
  ultimately show ?thesis using take_drop_sorted [OF _ assms(3)] by blast
qed

lemma rotatedNames_key [simp]: "logKey (d\<lparr>currentFilename := nm\<rparr>) = logKey d"
  by (rule ext) (auto simp: logKey_def OrderLog_def isFilenameWithIndex_def filenameIndex_def Let_def split: option.split)

text \<open>
  C7. A rotation succeeds when the names in the directory can be read and the indices of the day
  are not exhausted. It closes the file, chooses a name that no file has, and leaves exactly the
  newest rotated files, at most the configured number of them: a deleted file is not newer than a
  rotated file that is kept, and every other file of the directory is as it was.
\<close>

theorem Rotate_spec:
  assumes "good_sorter srt" and "ok_dir (files r) (rot r)" and "valid_date now" and "indices_ok (files r) now (rot r)"
  shows "\<exists>r'. Rotate srt now r = (r', Ok ()) \<and> openFile1 r' = None \<and>
    ActiveFile (rot r') \<notin> fst ` set (files r) \<and>
    (let old = rotatedNames srt (files r) (rot r'); kept = rotatedNames srt (files r') (rot r') in
      length kept = min (length old) (maxBackups r) \<and>
      (\<forall>n. map_of (files r') n = map_of (files r) n \<or>
           n \<in> set old \<and> map_of (files r') n = None \<and> (\<forall>m \<in> set kept. logKey (rot r) n \<le> logKey (rot r) m)))"
proof -
  obtain nm fs' where run: "rotateWithTime srt now r =
      (r\<lparr>openFile1 := None, rot := (rot r)\<lparr>currentFilename := nm\<rparr>, files := fs'\<rparr>, Ok ())"
    and fresh: "nm \<notin> fst ` set (files r)"
    and post: "let d' = (rot r)\<lparr>currentFilename := nm\<rparr>; old = rotatedNames srt (files r) d' in
      ok_dir fs' d' \<and> length (rotatedNames srt fs' d') = min (length old) (maxBackups r) \<and>
      (\<forall>n. map_of fs' n = (if n \<in> set (take (length old - maxBackups r) old) then None else map_of (files r) n))"
    using rotateWithTime_ok [OF assms] by blast
  let ?d = "(rot r)\<lparr>currentFilename := nm\<rparr>"
  let ?old = "rotatedNames srt (files r) ?d" and ?kept = "rotatedNames srt fs' ?d"
  let ?ns = "take (length ?old - maxBackups r) ?old"
  have ok: "ok_dir (files r) ?d" using assms(2) by (simp add: ok_dir_def)
  have ok': "ok_dir fs' ?d" and mo: "\<And>n. map_of fs' n = (if n \<in> set ?ns then None else map_of (files r) n)"
    using post by (simp_all only: Let_def)
  have kept: "m \<in> set ?old - set ?ns" if "m \<in> set ?kept" for m
  proof -
    have "map_of fs' m \<noteq> None" using that rotatedNames_set [OF assms(1) ok'] by (auto simp: globFiles_def map_of_eq_None_iff)
    then have ns: "m \<notin> set ?ns" and "map_of (files r) m \<noteq> None" using mo [of m] by (simp_all split: if_splits)
    then have "m \<in> fst ` set (files r)" by (simp add: map_of_eq_None_iff)
    then show ?thesis
      using that ns rotatedNames_set [OF assms(1) ok'] rotatedNames_set [OF assms(1) ok] by (auto simp: globFiles_def)
  qed
  have "n \<in> set ?old \<and> map_of fs' n = None \<and> (\<forall>m \<in> set ?kept. logKey (rot r) n \<le> logKey (rot r) m)"
    if "map_of fs' n \<noteq> map_of (files r) n" for n
  proof -
    have n: "n \<in> set ?ns" "map_of fs' n = None" using mo that by (auto split: if_splits)
    have "logKey (rot r) n \<le> logKey (rot r) m" if "m \<in> set ?kept" for m
      using rotated_oldest [OF assms(1) ok n(1) kept [OF that]] by simp
    then show ?thesis using n by (auto dest: in_set_takeD)
  qed
  then show ?thesis
    using run fresh post
    by (intro exI [of _ "r\<lparr>openFile1 := None, rot := ?d, files := fs'\<rparr>"]) (auto simp: Rotate_def ActiveFile_def Let_def)
qed


definition may_2 :: tm where
  "may_2 = \<lparr>year = 2024, month = 5, day = 2, hour = 0, minute = 0, second = 0, isoWeek = (2024, 18), unix = 1714608000\<rparr>"

definition app_rotator :: Rotator where
  "app_rotator = \<lparr>rot = \<lparr>filenamePrefix = ''app-'', extension = ''.log'', currentFilename = ''app-20240502.log''\<rparr>,
     triggers = [sizeTrigger 3 0], maxSizeBytes = 3, maxBackups = 1, openFile1 = Some ''app-20240502.log'',
     files = [(''app-20240430.log'', RegFile ''a''), (''app-20240501.log'', RegFile ''b''), (''app-20240502.log'', RegFile ''cd'')]\<rparr>"

lemma app_rotator_ok:
  "ok_dir (files app_rotator) (rot app_rotator)" "indices_ok (files app_rotator) may_2 (rot app_rotator)" "valid_date may_2"
  by (simp_all add: ok_dir_def indices_ok_def valid_date_def daysIn_def app_rotator_def may_2_def globFiles_def statExists_def
      wf_map_def formatDate_def pad2_def digit_char_def logKey_def OrderLog_def parseDate_def is_digit_def digit_val_def
      isFilenameWithIndex_def suffix_def max_int64_def)

theorem Rotate_spec_witness:
  "\<exists>r'. Rotate sort_key may_2 app_rotator = (r', Ok ()) \<and> openFile1 r' = None \<and>
    ActiveFile (rot r') \<notin> fst ` set (files app_rotator) \<and>
    length (rotatedNames sort_key (files r') (rot r')) = min (length (rotatedNames sort_key (files app_rotator) (rot r'))) 1"
  using Rotate_spec [OF good_stable app_rotator_ok(1) app_rotator_ok(3) app_rotator_ok(2)]
  by (auto simp: Let_def app_rotator_def)


text \<open>
  C17. A write of more than the maximal size is refused with an error and changes nothing; a write of at most the
  maximal size to an open file succeeds, in a directory whose backups have valid names and free indices. Without a rotation the data is
  appended to the open file and every other file stays; with a rotation the data is the whole
  content of a new file, and a file that was there is as it was or was purged with at least the
  configured number of backups kept.
\<close>

theorem Write_spec:
  assumes "good_sorter srt" and "ok_dir (files r) (rot r)" and "valid_date now" and "indices_ok (files r) now (rot r)"
    and "openFile1 r = Some n" and "map_of (files r) n = Some (RegFile c)"
  shows "if maxSizeBytes r < length data then Write srt now data r = (r, Err ErrDataSize)
    else \<exists>r'. Write srt now data r = (r', Ok ()) \<and>
    (if snd (isRotationTriggered now (length data) (triggers r)) = rotateReasonNoRotate
     then openFile1 r' = Some n \<and> map_of (files r') = (map_of (files r))(n \<mapsto> RegFile (c @ data))
     else openFile1 r' = Some (ActiveFile (rot r')) \<and> ActiveFile (rot r') \<notin> fst ` set (files r) \<and>
       map_of (files r') (ActiveFile (rot r')) = Some (RegFile data) \<and>
       (\<forall>m \<in> fst ` set (files r). map_of (files r') m = map_of (files r) m \<or>
          map_of (files r') m = None \<and> maxBackups r < length (rotatedNames srt (files r) (rot r'))))"
proof (cases "maxSizeBytes r < length data")
  case True
  then show ?thesis by (simp add: Write_def)
next
  case len: False
  obtain ts reason where ts: "isRotationTriggered now (length data) (triggers r) = (ts, reason)"
    by (cases "isRotationTriggered now (length data) (triggers r)")
  show ?thesis
  proof (cases "reason = rotateReasonNoRotate")
    case True
    have "map_of (map_put n (RegFile (c @ data)) (files r)) = (map_of (files r))(n \<mapsto> RegFile (c @ data))"
      by (rule ext) simp
    then show ?thesis using True len assms(5,6) ts by (simp add: Write_def writeOpen_def)
  next
    case False
    let ?r = "r\<lparr>triggers := ts\<rparr>"
    obtain nm fs' where run: "rotateWithTime srt now ?r =
        (?r\<lparr>openFile1 := None, rot := (rot r)\<lparr>currentFilename := nm\<rparr>, files := fs'\<rparr>, Ok ())"
      and fresh: "nm \<notin> fst ` set (files r)"
      and mo: "\<And>m. map_of fs' m = (let old = rotatedNames srt (files r) ((rot r)\<lparr>currentFilename := nm\<rparr>) in
        if m \<in> set (take (length old - maxBackups r) old) then None else map_of (files r) m)"
      using rotateWithTime_ok [of srt ?r now] assms(1-4) by (auto simp: Let_def)
    have "map_of (files r) nm = None" using fresh by (simp add: map_of_eq_None_iff)
    then have "map_of fs' nm = None" using mo by (simp add: Let_def)
    then have "Write srt now data r = (?r\<lparr>openFile1 := Some nm, rot := (rot r)\<lparr>currentFilename := nm\<rparr>,
        files := map_put nm (RegFile data) (map_put nm (RegFile []) fs')\<rparr>, Ok ())"
      using run False ts len assms(5) by (simp add: Write_def openFile_def writeOpen_def ActiveFile_def)
    moreover have "map_of fs' m = map_of (files r) m \<or> map_of fs' m = None \<and>
        maxBackups r < length (rotatedNames srt (files r) ((rot r)\<lparr>currentFilename := nm\<rparr>))" for m
      using mo [of m] by (auto simp: Let_def split: if_splits)
    ultimately show ?thesis using False len fresh ts by (auto simp: ActiveFile_def)
  qed
qed

theorem Write_spec_witness:
  "\<exists>r'. Write sort_key may_2 ''xy'' app_rotator = (r', Ok ()) \<and> openFile1 r' = Some ''app-20240502.log'' \<and>
    map_of (files r') ''app-20240502.log'' = Some (RegFile ''cdxy'')"
proof -
  have "openFile1 app_rotator = Some ''app-20240502.log''" "map_of (files app_rotator) ''app-20240502.log'' = Some (RegFile ''cd'')"
    by (simp_all add: app_rotator_def)
  note spec = Write_spec [OF good_stable app_rotator_ok(1) app_rotator_ok(3) app_rotator_ok(2) this, of "''xy''"]
  have "\<not> maxSizeBytes app_rotator < length ''xy''" by (simp add: app_rotator_def)
  then obtain r' where w: "Write sort_key may_2 ''xy'' app_rotator = (r', Ok ())"
    and p: "snd (isRotationTriggered may_2 (length ''xy'') (triggers app_rotator)) = rotateReasonNoRotate \<longrightarrow>
      openFile1 r' = Some ''app-20240502.log'' \<and>
      map_of (files r') = (map_of (files app_rotator))(''app-20240502.log'' \<mapsto> RegFile (''cd'' @ ''xy''))"
    using spec by (auto split: if_splits)
  have "snd (isRotationTriggered may_2 (length ''xy'') (triggers app_rotator)) = rotateReasonNoRotate"
    by (simp add: app_rotator_def)
  with p have "openFile1 r' = Some ''app-20240502.log''" "map_of (files r') ''app-20240502.log'' = Some (RegFile ''cdxy'')"
    by simp_all
  with w show ?thesis by blast
qed

text \<open>
  C15. Starting from a new rotator whose active file does not exist yet and whose maximum is below 2^63, no sequence of
  successful writes makes the open file larger than twice the configured maximum. (The maximum itself is not a
  bound: \<open>writes_exceed_max\<close>.)
\<close>

theorem writes_size_bound:
  assumes "NewFileRotator srt fs now filename opts = Ok r" and "maxSizeBytes r < 2 ^ 63"
    and "map_of fs (ActiveFile (rot r)) = None" and "writes srt r r'" and "openFile1 r' = Some n"
  shows "\<exists>c. map_of (files r') n = Some (RegFile c) \<and> length c \<le> 2 * maxSizeBytes r"
proof -
  let ?mx = "maxSizeBytes r"
  have r: "files r = fs" "openFile1 r = None" "triggers_ok ?mx 0 (triggers r)"
    using assms(1) by (auto simp: NewFileRotator_def newTriggers_ok Let_def split: if_splits outcome.splits)
  have "size_inv r" using r assms(3) by (auto simp: size_inv_def)
  from writes_size_inv [OF assms(4) this] assms(2) have "size_inv r' \<and> maxSizeBytes r' = ?mx" by simp
  then show ?thesis using assms(5) by (auto simp: size_inv_def triggers_ok_def)
qed

text \<open>
  The configured maximum itself is not a bound: the write that opens a file is not counted by
  the size trigger, so two writes of the maximal size go to the same file.
\<close>

theorem writes_exceed_max:
  assumes "NewFileRotator srt fs now filename [MaxSizeBytes mx] = Ok r" and "mx < 2 ^ 63"
    and "map_of fs (ActiveFile (rot r)) = None" and "length data = mx" and "length data' = mx"
  shows "\<exists>r1 r2. Write srt t1 data r = (r1, Ok ()) \<and> Write srt t2 data' r1 = (r2, Ok ()) \<and>
    openFile1 r2 = Some (ActiveFile (rot r)) \<and> map_of (files r2) (ActiveFile (rot r)) = Some (RegFile (data @ data'))"
proof -
  have r: "0 < mx" "files r = fs" "maxSizeBytes r = mx" "openFile1 r = None" "triggers r = [sizeTrigger mx 0]"
    using assms(1,3)
    by (auto simp: NewFileRotator_def newTriggers_def MaxSizeBytes_def defaultSettings_def statExists_def Let_def
        split: if_splits outcome.splits)
  let ?n = "ActiveFile (rot r)"
  have "Write srt t1 data r =
      (r\<lparr>openFile1 := Some ?n, files := map_put ?n (RegFile data) (map_put ?n (RegFile []) fs)\<rparr>, Ok ())"
    using r assms(3,4) by (simp add: Write_def openNew_def openFile_def writeOpen_def Let_def)
  then show ?thesis using r assms(2,4,5) by (simp add: Write_def writeOpen_def)
qed


definition new_rotator :: Rotator where
  "new_rotator = \<lparr>rot = \<lparr>filenamePrefix = ''app-'', extension = ''.ndjson'', currentFilename = ''app-20240502.ndjson''\<rparr>,
     triggers = [sizeTrigger 3 0], maxSizeBytes = 3, maxBackups = 7, openFile1 = None, files = []\<rparr>"

lemma new_rotator:
  "NewFileRotator sort_key [] may_2 ''app'' [MaxSizeBytes 3] = Ok new_rotator"
  by (simp add: NewFileRotator_def newDateRotater_def new_rotator_def may_2_def globFiles_def formatDate_def pad2_def
      digit_char_def newTriggers_def MaxBackupsLimit_def Let_def char_of_def bit_Suc_0_iff MaxSizeBytes_def
      defaultSettings_def ModePerm_def statExists_def ActiveFile_def)

lemma new_rotator_write:
  "Write sort_key may_2 ''abc'' new_rotator =
     (new_rotator\<lparr>openFile1 := Some ''app-20240502.ndjson'', files := [(''app-20240502.ndjson'', RegFile ''abc'')]\<rparr>, Ok ())"
  by (simp add: Write_def openNew_def openFile_def writeOpen_def new_rotator_def ActiveFile_def Let_def)

theorem writes_size_bound_witness:
  "\<exists>r' c. writes sort_key new_rotator r' \<and> map_of (files r') ''app-20240502.ndjson'' = Some (RegFile c) \<and> length c \<le> 2 * 3"
proof -
  let ?r = "new_rotator\<lparr>openFile1 := Some ''app-20240502.ndjson'', files := [(''app-20240502.ndjson'', RegFile ''abc'')]\<rparr>"
  have "writes sort_key new_rotator ?r" by (rule writes_step [OF writes_refl new_rotator_write])
  moreover have "\<exists>c. map_of (files ?r) ''app-20240502.ndjson'' = Some (RegFile c) \<and> length c \<le> 2 * 3"
    using writes_size_bound [OF new_rotator _ _ calculation] by (simp add: new_rotator_def)
  ultimately show ?thesis by blast
qed

theorem writes_exceed_max_witness:
  "\<exists>r1 r2. Write sort_key may_2 ''abc'' new_rotator = (r1, Ok ()) \<and> Write sort_key may_2 ''def'' r1 = (r2, Ok ()) \<and>
    openFile1 r2 = Some (ActiveFile (rot new_rotator)) \<and>
    map_of (files r2) (ActiveFile (rot new_rotator)) = Some (RegFile (''abc'' @ ''def''))"
  by (rule writes_exceed_max [OF new_rotator]) simp_all

end
