(* ===== verification/Match.thy ===== *)
theory Match
  imports Go_Prelude
begin

text \<open>
  String matchers of package \<open>match\<close> (src/match): a parsed regular expression is recognised by its
  shape (cmp.go), rewritten (optimize.go) and compiled to a specialised matcher (compile.go,
  matchers.go).

  A node of the syntax tree of \<open>regexp/syntax\<close> is a value that carries the address of the node, since
  the code compares pointers. A rewriting step gets the address of the node it allocates. Patterns
  and strings are ASCII, so that a rune is a byte. The matcher of the standard library is an
  argument. The steps that merge repetitions and the loop around the steps are in \<open>Match_Optimize\<close>.
\<close>

section \<open>The syntax tree\<close>

datatype rop =
    OpNoMatch | OpEmptyMatch | OpLiteral | OpCharClass | OpAnyCharNotNL | OpAnyChar
  | OpBeginLine | OpEndLine | OpBeginText | OpEndText | OpWordBoundary | OpNoWordBoundary
  | OpCapture | OpStar | OpPlus | OpQuest | OpRepeat | OpConcat | OpAlternate

datatype regexp =
  Regexp (addr: nat) (op: rop) (flags: nat) (sub: "regexp list") (runes: "nat list") (rmin: int) (rmax: int)

text \<open>The flags of the parser's mode \<open>Perl\<close>, and the flag of an end of text written as a dollar sign.\<close>

definition Perl :: nat where "Perl = 212"
definition WasDollar :: nat where "WasDollar = 256"

text \<open>The bytes of a literal.\<close>

definition lit :: "regexp \<Rightarrow> string" where
  "lit r = map char_of (runes r)"

section \<open>Predefined patterns\<close>

text \<open>Each use of the parser allocates its own nodes.\<close>

definition beginText :: "nat \<Rightarrow> regexp" where "beginText p = Regexp p OpBeginText Perl [] [] 0 0"
definition endText :: "nat \<Rightarrow> regexp" where "endText p = Regexp p OpEndText (Perl + WasDollar) [] [] 0 0"
definition dotStar :: "nat \<Rightarrow> regexp" where
  "dotStar p = Regexp p OpStar Perl [Regexp (p + 1) OpAnyCharNotNL Perl [] [] 0 0] [] 0 0"
abbreviation parsedConcat :: "nat \<Rightarrow> regexp list \<Rightarrow> regexp" where
  "parsedConcat p rs \<equiv> Regexp p OpConcat 0 rs [] 0 0"

definition patDotStar :: regexp where "patDotStar = dotStar 0"
definition patNullBeginDotStar :: regexp where "patNullBeginDotStar = parsedConcat 2 [beginText 3, dotStar 4]"
definition patNullEndDotStar :: regexp where "patNullEndDotStar = parsedConcat 6 [dotStar 7, endText 9]"
definition patEmptyText :: regexp where "patEmptyText = parsedConcat 10 [beginText 11, endText 12]"

text \<open>The class of white space: tab and newline, form feed and carriage return, blank.\<close>

definition patEmptyWhiteText :: regexp where
  "patEmptyWhiteText =
     parsedConcat 13 [beginText 14,
       Regexp 15 OpStar Perl [Regexp 16 OpCharClass Perl [] [9, 10, 12, 13, 32, 32] 0 0] [] 0 0, endText 17]"

definition patAny2 :: regexp where "patAny2 = parsedConcat 18 [beginText 19, dotStar 20]"
definition patAny3 :: regexp where "patAny3 = parsedConcat 22 [beginText 23, dotStar 24, endText 26]"
definition patAny4 :: regexp where "patAny4 = parsedConcat 27 [dotStar 28, endText 30]"
definition patBeginText :: regexp where "patBeginText = beginText 31"
definition patEndText :: regexp where "patEndText = endText 32"
definition patDigits :: regexp where "patDigits = Regexp 33 OpCharClass Perl [] [48, 57] 0 0"

section \<open>Shapes\<close>

definition isRegular :: "regexp \<Rightarrow> bool" where
  "isRegular r \<longleftrightarrow> \<not> bit (flags r) 0"

definition isRegularLiteral :: "regexp \<Rightarrow> bool" where
  "isRegularLiteral r \<longleftrightarrow> op r = OpLiteral \<and> isRegular r"

definition isSubstringLiteral :: "regexp \<Rightarrow> bool" where
  "isSubstringLiteral r = isRegularLiteral r"

definition isPrefixLiteral :: "regexp \<Rightarrow> bool" where
  "isPrefixLiteral r \<longleftrightarrow>
     op r = OpConcat \<and> length (sub r) = 2 \<and> op (sub r ! 0) = OpBeginText \<and> isRegularLiteral (sub r ! 1) \<and> isRegular r"

definition isAltLiterals :: "regexp \<Rightarrow> bool" where
  "isAltLiterals r \<longleftrightarrow> op r = OpAlternate \<and> list_all isRegularLiteral (sub r)"

definition isExactLiteral :: "regexp \<Rightarrow> bool" where
  "isExactLiteral r \<longleftrightarrow>
     op r = OpConcat \<and> length (sub r) = 3 \<and> op (sub r ! 0) = OpBeginText \<and> isRegularLiteral (sub r ! 1) \<and>
     op (sub r ! 2) = OpEndText \<and> isRegular r"

definition isOneOfLiterals :: "regexp \<Rightarrow> bool" where
  "isOneOfLiterals r \<longleftrightarrow>
     op r = OpConcat \<and> length (sub r) = 3 \<and> op (sub r ! 0) = OpBeginText \<and> isAltLiterals (sub r ! 1) \<and>
     op (sub r ! 2) = OpEndText"

definition isPrefixAltLiterals :: "regexp \<Rightarrow> bool" where
  "isPrefixAltLiterals r \<longleftrightarrow>
     op r = OpConcat \<and> length (sub r) = 2 \<and> op (sub r ! 0) = OpBeginText \<and> op (sub r ! 1) = OpAlternate \<and>
     list_all isRegularLiteral (sub (sub r ! 1))"

function eqRegex :: "regexp \<Rightarrow> regexp \<Rightarrow> bool" where
  "eqRegex r proto \<longleftrightarrow>
     op r = op proto \<and> flags r = flags proto \<and> rmin r = rmin proto \<and> rmax r = rmax proto \<and>
     length (sub r) = length (sub proto) \<and> length (runes r) = length (runes proto) \<and>
     list_all (\<lambda>(a, b). eqRegex a b) (zip (sub r) (sub proto)) \<and> runes r = runes proto"
  by pat_completeness auto
termination
proof (relation "measure (size \<circ> fst)")
  fix r proto :: regexp and z a b
  assume "z \<in> set (zip (sub r) (sub proto))" and "(a, b) = z"
  then have "a \<in> set (sub r)" by (auto dest: set_zip_leftD)
  then show "((a, b), (r, proto)) \<in> measure (size \<circ> fst)"
    by (cases r) (auto simp: less_Suc_eq_le dest!: size_list_estimation' [OF _ order_refl])
qed simp

declare eqRegex.simps [simp del]

text \<open>All parts of a concatenation are one node; the first part must exist.\<close>

definition isConcatRepetition :: "regexp \<Rightarrow> (unit, bool) outcome" where
  "isConcatRepetition r =
     (if op r \<noteq> OpConcat then Ok False
      else (case sub r of
              [] \<Rightarrow> Panic
            | first # _ \<Rightarrow> Ok (list_all (\<lambda>other. addr other = addr first) (sub r))))"

definition isDigitMatch :: "regexp \<Rightarrow> bool" where
  "isDigitMatch r = eqRegex r patDigits"

definition isMultiDigits :: "regexp \<Rightarrow> (unit, bool) outcome" where
  "isMultiDigits r = bind_outcome (isConcatRepetition r) (\<lambda>b. Ok (b \<and> isDigitMatch (hd (sub r))))"

text \<open>The rest of the parts: separator and digits in turn, the last separator may end the pattern.\<close>

fun numDateRest :: "regexp list \<Rightarrow> (unit, bool) outcome" where
  "numDateRest [] = Ok True"
| "numDateRest [sep] = Ok (isRegularLiteral sep)"
| "numDateRest (sep # d # rest) =
     (if \<not> isRegularLiteral sep then Ok False
      else bind_outcome (isMultiDigits d) (\<lambda>b. if b then numDateRest rest else Ok False))"

definition isPrefixNumDate :: "regexp \<Rightarrow> (unit, bool) outcome" where
  "isPrefixNumDate r =
     (if op r \<noteq> OpConcat then Ok False
      else (case sub r of
              [] \<Rightarrow> Panic
            | first # parts \<Rightarrow>
                if op first \<noteq> OpBeginText then Ok False
                else (case parts of
                        [] \<Rightarrow> Panic
                      | p # ps \<Rightarrow>
                          (case (if isRegularLiteral p then ps else parts) of
                             [] \<Rightarrow> Panic
                           | d # rest \<Rightarrow>
                               bind_outcome (isMultiDigits d) (\<lambda>b. if b then numDateRest rest else Ok False)))))"

definition isEmptyText :: "regexp \<Rightarrow> bool" where
  "isEmptyText r = eqRegex r patEmptyText"

definition isEmptyTextWithWhitespace :: "regexp \<Rightarrow> bool" where
  "isEmptyTextWithWhitespace r = eqRegex r patEmptyWhiteText"

definition isAnyMatch :: "regexp \<Rightarrow> bool" where
  "isAnyMatch r \<longleftrightarrow>
     eqRegex r patDotStar \<or> eqRegex r patAny2 \<or> eqRegex r patAny3 \<or> eqRegex r patAny4"

definition eqPrefixRegex :: "regexp \<Rightarrow> regexp \<Rightarrow> bool" where
  "eqPrefixRegex r proto \<longleftrightarrow>
     op r = OpConcat \<and>
     (if op proto \<noteq> OpConcat then sub r \<noteq> [] \<and> eqRegex (hd (sub r)) proto
      else length (sub proto) \<le> length (sub r) \<and> list_all2 eqRegex (take (length (sub proto)) (sub r)) (sub proto))"

definition eqPrefixAnyRegex :: "regexp \<Rightarrow> regexp list \<Rightarrow> bool" where
  "eqPrefixAnyRegex r protos = list_ex (eqPrefixRegex r) protos"

definition eqSuffixRegex :: "regexp \<Rightarrow> regexp \<Rightarrow> bool" where
  "eqSuffixRegex r proto \<longleftrightarrow>
     op r = OpConcat \<and>
     (if op proto \<noteq> OpConcat then sub r \<noteq> [] \<and> eqRegex (last (sub r)) proto
      else length (sub proto) \<le> length (sub r) \<and>
        list_all2 eqRegex (drop (length (sub r) - length (sub proto)) (sub r)) (sub proto))"

definition eqSuffixAnyRegex :: "regexp \<Rightarrow> regexp list \<Rightarrow> bool" where
  "eqSuffixAnyRegex r protos = list_ex (eqSuffixRegex r) protos"


section \<open>Rewriting steps\<close>

text \<open>Each step returns whether it changed the expression; \<open>p\<close> is the next free address.\<close>

fun uncapture :: "regexp \<Rightarrow> nat \<Rightarrow> bool \<times> regexp \<times> nat"
and uncaptures :: "regexp list \<Rightarrow> nat \<Rightarrow> bool \<times> regexp list \<times> nat" where
  "uncapture (Regexp a k fl ss rs mn mx) p =
     (if k = OpCapture \<and> length ss = 1 then
        (case uncaptures ss p of (_, ss', p') \<Rightarrow> (True, hd ss', p'))
      else
        (case (if k = OpCapture then (Regexp p OpConcat fl ss rs mn mx, p + 1) else (Regexp a k fl ss rs mn mx, p)) of
           (r, p1) \<Rightarrow>
             (case uncaptures ss p1 of
                (modified, ss', p') \<Rightarrow>
                  if \<not> modified then (False, r, p')
                  else (True, Regexp p' (op r) fl ss' rs mn mx, p' + 1))))"
| "uncaptures [] p = (False, [], p)"
| "uncaptures (r # rs) p =
     (case uncapture r p of
        (m, r', p') \<Rightarrow> (case uncaptures rs p' of (ms, rs', p'') \<Rightarrow> (m \<or> ms, r' # rs', p'')))"

abbreviation with_sub :: "nat \<Rightarrow> regexp list \<Rightarrow> regexp \<Rightarrow> regexp" where
  "with_sub p ss r \<equiv> Regexp p (op r) (flags r) ss (runes r) (rmin r) (rmax r)"

definition trimLeft :: "nat \<Rightarrow> regexp \<Rightarrow> bool \<times> regexp" where
  "trimLeft p r =
     (if eqPrefixAnyRegex r [patDotStar, patNullBeginDotStar] then (True, with_sub p (tl (sub r)) r) else (False, r))"

definition trimRight :: "nat \<Rightarrow> regexp \<Rightarrow> bool \<times> regexp" where
  "trimRight p r =
     (if eqSuffixAnyRegex r [patDotStar, patNullEndDotStar] then (True, with_sub p (butlast (sub r)) r) else (False, r))"

definition unconcat :: "nat \<Rightarrow> regexp \<Rightarrow> bool \<times> regexp" where
  "unconcat p r =
     (if op r = OpConcat \<and> length (sub r) \<le> 1 then
        (if length (sub r) = 1 then (True, sub r ! 0)
         else (True, Regexp p OpEmptyMatch (flags r) [] [] 0 0))
      else if op r = OpRepeat \<and> rmin r = rmax r \<and> rmin r = 1 then (True, sub r ! 0)
      else (False, r))"

section \<open>Matchers\<close>

record prefixNumDate =
  minLen :: nat
  nprefix :: "string option"
  digits :: "nat list"
  seps :: "string list"
  nsuffix :: string

text \<open>
  \<open>stdMatcher\<close> is a compiled expression of the standard library. The first two matchers keep their
  literal as a string and as a slice of bytes.
\<close>

datatype stringMatcher =
    equalsMatcher string string | substringMatcher string string | altSubstringMatcher "string list"
  | oneOfMatcher "string list" | prefixMatcher string | altPrefixMatcher "string list"
  | prefixNumDateMatcher prefixNumDate | emptyStringMatcher | emptyWhiteStringMatcher | matchAny
  | stdMatcher "string \<Rightarrow> bool"

text \<open>A loop over \<open>cnt\<close> digits: the position after them, None at another byte, a panic beyond the end.\<close>

fun skipDigits :: "string \<Rightarrow> nat \<Rightarrow> nat \<Rightarrow> (unit, nat option) outcome" where
  "skipDigits inp 0 pos = Ok (Some pos)"
| "skipDigits inp (Suc cnt) pos =
     (if pos < length inp then
        (if is_digit (inp ! pos) then skipDigits inp cnt (pos + 1) else Ok None)
      else Panic)"

definition sliceEqual :: "string \<Rightarrow> nat \<Rightarrow> string \<Rightarrow> (unit, bool) outcome" where
  "sliceEqual inp pos s =
     (if pos + length s \<le> length inp then Ok (take (length s) (drop pos inp) = s) else Panic)"

fun matchGroups :: "string \<Rightarrow> nat list \<Rightarrow> string list \<Rightarrow> nat \<Rightarrow> (unit, nat option) outcome" where
  "matchGroups inp [] ss pos = Ok (Some pos)"
| "matchGroups inp (d # ds) [] pos = Panic"
| "matchGroups inp (d # ds) (sep # ss) pos =
     bind_outcome (sliceEqual inp pos sep) (\<lambda>eq.
       if \<not> eq then Ok None
       else bind_outcome (skipDigits inp d (pos + length sep)) (\<lambda>r.
              case r of None \<Rightarrow> Ok None | Some pos' \<Rightarrow> matchGroups inp ds ss pos'))"

text \<open>After the prefix: the digits, the groups, and the suffix.\<close>

definition matchFrom :: "prefixNumDate \<Rightarrow> string \<Rightarrow> nat \<Rightarrow> (unit, bool) outcome" where
  "matchFrom m inp pos =
     (case digits m of
        [] \<Rightarrow> Panic
      | d # ds \<Rightarrow>
          bind_outcome (skipDigits inp d pos) (\<lambda>r.
            case r of
              None \<Rightarrow> Ok False
            | Some pos1 \<Rightarrow>
                bind_outcome (matchGroups inp ds (seps m) pos1) (\<lambda>r.
                  case r of
                    None \<Rightarrow> Ok False
                  | Some pos2 \<Rightarrow> if nsuffix m = [] then Ok True else if pos2 \<le> length inp then Ok (prefix (nsuffix m) (drop pos2 inp)) else Panic)))"

definition prefixNumDate_Match :: "prefixNumDate \<Rightarrow> string \<Rightarrow> (unit, bool) outcome" where
  "prefixNumDate_Match m inp =
     (if length inp < minLen m then Ok False
      else (case nprefix m of
              None \<Rightarrow> matchFrom m inp 0
            | Some p \<Rightarrow>
                bind_outcome (sliceEqual inp 0 p) (\<lambda>eq. if \<not> eq then Ok False else matchFrom m inp (length p))))"

definition is_white :: "char \<Rightarrow> bool" where
  "is_white c \<longleftrightarrow> (of_char c :: nat) \<in> {9, 10, 12, 13, 32}"

text \<open>The methods \<open>MatchString\<close> and \<open>Match\<close> of each matcher; a slice of bytes is a string here.\<close>

definition equals_MatchString :: "string \<Rightarrow> string \<Rightarrow> bool" where
  "equals_MatchString ms s \<longleftrightarrow> ms = s"

definition equals_Match :: "string \<Rightarrow> string \<Rightarrow> bool" where
  "equals_Match mbs bs \<longleftrightarrow> bs = mbs"

definition substring_MatchString :: "string \<Rightarrow> string \<Rightarrow> bool" where
  "substring_MatchString ms s \<longleftrightarrow> go_contains s ms"

definition substring_Match :: "string \<Rightarrow> string \<Rightarrow> bool" where
  "substring_Match mbs bs \<longleftrightarrow> go_contains bs mbs"

fun altSubstring_Match :: "string list \<Rightarrow> string \<Rightarrow> bool" where
  "altSubstring_Match [] inp \<longleftrightarrow> False"
| "altSubstring_Match (literal # ls) inp \<longleftrightarrow> (if go_contains inp literal then True else altSubstring_Match ls inp)"

fun oneOf_Match :: "string list \<Rightarrow> string \<Rightarrow> bool" where
  "oneOf_Match [] inp \<longleftrightarrow> False"
| "oneOf_Match (literal # ls) inp \<longleftrightarrow> (if inp = literal then True else oneOf_Match ls inp)"

definition prefix_MatchString :: "string \<Rightarrow> string \<Rightarrow> bool" where
  "prefix_MatchString ms s \<longleftrightarrow> length s \<ge> length ms \<and> take (length ms) s = ms"

fun altPrefix_MatchString :: "string list \<Rightarrow> string \<Rightarrow> bool" where
  "altPrefix_MatchString [] inp \<longleftrightarrow> False"
| "altPrefix_MatchString (s # ls) inp \<longleftrightarrow>
     (if length inp \<ge> length s \<and> take (length s) inp = s then True else altPrefix_MatchString ls inp)"

definition emptyString_MatchString :: "string \<Rightarrow> bool" where
  "emptyString_MatchString s \<longleftrightarrow> length s = 0"

fun emptyWhite_MatchString :: "string \<Rightarrow> bool" where
  "emptyWhite_MatchString [] \<longleftrightarrow> True"
| "emptyWhite_MatchString (r # s) \<longleftrightarrow> (if \<not> is_white r then False else emptyWhite_MatchString s)"

fun MatchString :: "stringMatcher \<Rightarrow> string \<Rightarrow> (unit, bool) outcome" where
  "MatchString (equalsMatcher ms mbs) s = Ok (equals_MatchString ms s)"
| "MatchString (substringMatcher ms mbs) s = Ok (substring_MatchString ms s)"
| "MatchString (altSubstringMatcher ls) s = Ok (altSubstring_Match ls s)"
| "MatchString (oneOfMatcher ls) s = Ok (oneOf_Match ls s)"
| "MatchString (prefixMatcher ms) s = Ok (prefix_MatchString ms s)"
| "MatchString (altPrefixMatcher ls) s = Ok (altPrefix_MatchString ls s)"
| "MatchString (prefixNumDateMatcher m) s = prefixNumDate_Match m s"
| "MatchString emptyStringMatcher s = Ok (emptyString_MatchString s)"
| "MatchString emptyWhiteStringMatcher s = Ok (emptyWhite_MatchString s)"
| "MatchString matchAny s = Ok True"
| "MatchString (stdMatcher f) s = Ok (f s)"

fun Match :: "stringMatcher \<Rightarrow> string \<Rightarrow> (unit, bool) outcome" where
  "Match (equalsMatcher ms mbs) bs = Ok (equals_Match mbs bs)"
| "Match (substringMatcher ms mbs) bs = Ok (substring_Match mbs bs)"
| "Match (altSubstringMatcher ls) bs = Ok (altSubstring_Match ls bs)"
| "Match (oneOfMatcher ls) bs = Ok (oneOf_Match ls bs)"
| "Match (prefixMatcher ms) bs = Ok (length bs \<ge> length ms \<and> take (length ms) bs = ms)"
| "Match (altPrefixMatcher ls) bs = Ok (list_ex (\<lambda>s. length bs \<ge> length s \<and> take (length s) bs = s) ls)"
| "Match (prefixNumDateMatcher m) bs = prefixNumDate_Match m bs"
| "Match emptyStringMatcher bs = Ok (length bs = 0)"
| "Match emptyWhiteStringMatcher bs = Ok (list_all is_white bs)"
| "Match matchAny bs = Ok True"
| "Match (stdMatcher f) bs = Ok (f bs)"

section \<open>Compilation\<close>

definition digitLen :: "regexp \<Rightarrow> nat" where
  "digitLen r = (if op r = OpConcat then length (sub r) else 1)"

fun numDateParts :: "regexp list \<Rightarrow> nat list \<Rightarrow> string list \<Rightarrow> nat list \<times> string list \<times> string" where
  "numDateParts [] ds ss = (ds, ss, [])"
| "numDateParts [l] ds ss = (ds, ss, lit l)"
| "numDateParts (l # d # rest) ds ss = numDateParts rest (ds @ [digitLen d]) (ss @ [lit l])"

definition compilePrefixNumDate :: "regexp \<Rightarrow> (unit, stringMatcher) outcome" where
  "compilePrefixNumDate r =
     (case tl (sub r) of
        [] \<Rightarrow> Panic
      | x # xs \<Rightarrow>
          (case (if op x = OpLiteral then (Some (lit x), xs) else (None, x # xs)) of
             (_, []) \<Rightarrow> Panic
           | (pre, d # rest) \<Rightarrow>
               (case numDateParts rest [digitLen d] [] of
                  (ds, ss, suf) \<Rightarrow>
                    Ok (prefixNumDateMatcher
                      \<lparr>minLen = length (case pre of None \<Rightarrow> [] | Some p \<Rightarrow> p) + length suf + sum_list ds + sum_list (map length ss),
                       nprefix = pre, digits = ds, seps = ss, nsuffix = suf\<rparr>))))"

definition compile :: "(regexp \<Rightarrow> (string \<Rightarrow> bool) option) \<Rightarrow> regexp \<Rightarrow> (unit, stringMatcher) outcome" where
  "compile std r =
     (if isSubstringLiteral r then Ok (substringMatcher (lit r) (lit r))
      else if isExactLiteral r then Ok (equalsMatcher (lit (sub r ! 1)) (lit (sub r ! 1)))
      else if isAltLiterals r then Ok (altSubstringMatcher (map lit (sub r)))
      else if isOneOfLiterals r then Ok (oneOfMatcher (map lit (sub (sub r ! 1))))
      else if isPrefixLiteral r then Ok (prefixMatcher (lit (sub r ! 1)))
      else if isPrefixAltLiterals r then Ok (altPrefixMatcher (map lit (sub (sub r ! 1))))
      else bind_outcome (isPrefixNumDate r) (\<lambda>b.
        if b then compilePrefixNumDate r
        else if isEmptyText r then Ok emptyStringMatcher
        else if isEmptyTextWithWhitespace r then Ok emptyWhiteStringMatcher
        else if isAnyMatch r then Ok matchAny
        else (case std r of None \<Rightarrow> Err () | Some f \<Rightarrow> Ok (stdMatcher f))))"

definition CompileString :: "string \<Rightarrow> stringMatcher" where
  "CompileString inp = (if inp = [] then emptyStringMatcher else substringMatcher inp inp)"

text \<open>How \<open>CompileExact\<close> anchors a simplified expression; \<open>p\<close> is the address of the new node.\<close>

definition anchor :: "nat \<Rightarrow> regexp \<Rightarrow> regexp" where
  "anchor p r =
     (if op r \<noteq> OpConcat then Regexp p OpConcat (flags r) [patBeginText, r, patEndText] [] 0 0
      else (let r1 = (if \<not> eqPrefixRegex r patBeginText then with_sub (addr r) (patBeginText # sub r) r else r)
            in if \<not> eqSuffixRegex r1 patEndText then with_sub (addr r) (sub r1 @ [patEndText]) r1 else r1))"

text \<open>
  A value of the empty interface: a slice of values, of which None is one that is no string, a slice
  of strings, or another value.
\<close>

datatype anyval = AnySlice "string option list" | StrSlice "string list" | AOther

fun anyLoop :: "stringMatcher \<Rightarrow> string option list \<Rightarrow> (unit, bool) outcome" where
  "anyLoop m [] = Ok False"
| "anyLoop m (None # vs) = anyLoop m vs"
| "anyLoop m (Some s # vs) = bind_outcome (MatchString m s) (\<lambda>b. if b then Ok True else anyLoop m vs)"

fun allLoop :: "stringMatcher \<Rightarrow> string option list \<Rightarrow> (unit, bool) outcome" where
  "allLoop m [] = Ok True"
| "allLoop m (None # vs) = allLoop m vs"
| "allLoop m (Some s # vs) = bind_outcome (MatchString m s) (\<lambda>b. if \<not> b then Ok False else allLoop m vs)"

fun matchAnyStrings :: "stringMatcher \<Rightarrow> anyval \<Rightarrow> (unit, bool) outcome" where
  "matchAnyStrings m (AnySlice vs) = anyLoop m vs"
| "matchAnyStrings m (StrSlice ss) = anyLoop m (map Some ss)"
| "matchAnyStrings m AOther = Ok False"

fun matchAllStrings :: "stringMatcher \<Rightarrow> anyval \<Rightarrow> (unit, bool) outcome" where
  "matchAllStrings m (AnySlice vs) = allLoop m vs"
| "matchAllStrings m (StrSlice ss) = allLoop m (map Some ss)"
| "matchAllStrings m AOther = Ok True"

end
