(* ===== verification/Match_Laws.thy ===== *)
theory Match_Laws
  imports Match
begin

text \<open>
  The meaning of a regular expression on a string, as the pairs of positions between which it
  matches, and the correctness of the package \<open>match\<close> with respect to it: the compiled matcher finds
  a match exactly when the expression has one, the rewriting steps keep this, and anchoring makes an
  expression match the whole string.
\<close>

section \<open>The meaning of an expression\<close>

fun inClass :: "nat list \<Rightarrow> nat \<Rightarrow> bool" where
  "inClass (lo # hi # rs) c \<longleftrightarrow> lo \<le> c \<and> c \<le> hi \<or> inClass rs c"
| "inClass _ c \<longleftrightarrow> False"

definition lowerRune :: "nat \<Rightarrow> nat" where
  "lowerRune n = (if 65 \<le> n \<and> n \<le> 90 then n + 32 else n)"

definition runeEq :: "bool \<Rightarrow> nat \<Rightarrow> nat \<Rightarrow> bool" where
  "runeEq foldCase a b \<longleftrightarrow> (if foldCase then lowerRune a = lowerRune b else a = b)"

definition isWord :: "char \<Rightarrow> bool" where
  "isWord c \<longleftrightarrow> inClass [48, 57, 65, 90, 95, 95, 97, 122] (of_char c)"

definition boundary :: "string \<Rightarrow> nat \<Rightarrow> bool" where
  "boundary s i \<longleftrightarrow> (0 < i \<and> isWord (s ! (i - 1))) \<noteq> (i < length s \<and> isWord (s ! i))"

abbreviation newline :: char where "newline \<equiv> CHR 0x0A"

definition stepBy :: "string \<Rightarrow> (char \<Rightarrow> bool) \<Rightarrow> (nat \<times> nat) set" where
  "stepBy s P = {(i, Suc i) | i. i < length s \<and> P (s ! i)}"

abbreviation inside :: "string \<Rightarrow> (nat \<times> nat) set \<Rightarrow> (nat \<times> nat) set" where
  "inside s R \<equiv> R \<inter> {..length s} \<times> {..length s}"

definition first :: "(nat \<times> nat) set list \<Rightarrow> (nat \<times> nat) set" where
  "first ms = (case ms of [] \<Rightarrow> {} | m # _ \<Rightarrow> m)"

fun sem :: "string \<Rightarrow> regexp \<Rightarrow> (nat \<times> nat) set" where
  "sem s (Regexp a k fl ss rs mn mx) =
     (let ms = map (sem s) ss in
      case k of
        OpNoMatch \<Rightarrow> {}
      | OpEmptyMatch \<Rightarrow> inside s Id
      | OpLiteral \<Rightarrow>
          inside s {(i, i + length rs) | i. list_all2 (runeEq (bit fl 0)) rs (map of_char (take (length rs) (drop i s)))}
      | OpCharClass \<Rightarrow> stepBy s (\<lambda>c. inClass rs (of_char c))
      | OpAnyCharNotNL \<Rightarrow> stepBy s (\<lambda>c. c \<noteq> newline)
      | OpAnyChar \<Rightarrow> stepBy s (\<lambda>c. True)
      | OpBeginLine \<Rightarrow> inside s {(i, i) | i. i = 0 \<or> s ! (i - 1) = newline}
      | OpEndLine \<Rightarrow> inside s {(i, i) | i. i = length s \<or> s ! i = newline}
      | OpBeginText \<Rightarrow> {(0, 0)}
      | OpEndText \<Rightarrow> {(length s, length s)}
      | OpWordBoundary \<Rightarrow> inside s {(i, i) | i. boundary s i}
      | OpNoWordBoundary \<Rightarrow> inside s {(i, i) | i. \<not> boundary s i}
      | OpCapture \<Rightarrow> first ms
      | OpStar \<Rightarrow> inside s ((first ms)\<^sup>*)
      | OpPlus \<Rightarrow> inside s ((first ms)\<^sup>+)
      | OpQuest \<Rightarrow> inside s ((first ms)\<^sup>=)
      | OpRepeat \<Rightarrow> inside s (\<Union>n \<in> {n. mn \<le> int n \<and> (mx = -1 \<or> int n \<le> mx)}. first ms ^^ n)
      | OpConcat \<Rightarrow> foldr (O) ms (inside s Id)
      | OpAlternate \<Rightarrow> \<Union> (set ms))"

declare sem.simps [simp del]

text \<open>A match anywhere in the string.\<close>

definition search :: "string \<Rightarrow> regexp \<Rightarrow> bool" where
  "search s r \<longleftrightarrow> sem s r \<noteq> {}"

lemma search_iff: "search s r \<longleftrightarrow> (\<exists>i j. (i, j) \<in> sem s r)"
  by (auto simp: search_def)

definition chain :: "string \<Rightarrow> regexp list \<Rightarrow> (nat \<times> nat) set" where
  "chain s rs = foldr (O) (map (sem s) rs) (inside s Id)"

lemma chain_Nil [simp]: "chain s [] = inside s Id"
  by (simp add: chain_def)

lemma chain_Cons [simp]: "chain s (r # rs) = sem s r O chain s rs"
  by (simp add: chain_def)

lemma sem_concat: "op r = OpConcat \<Longrightarrow> sem s r = chain s (sub r)"
  by (cases r) (simp add: sem.simps chain_def Let_def)

lemma sem_alternate: "op r = OpAlternate \<Longrightarrow> sem s r = (\<Union>x \<in> set (sub r). sem s x)"
  by (cases r) (simp add: sem.simps Let_def)

lemma sem_begin: "op r = OpBeginText \<Longrightarrow> sem s r = {(0, 0)}"
  by (cases r) (simp add: sem.simps)

lemma sem_end: "op r = OpEndText \<Longrightarrow> sem s r = {(length s, length s)}"
  by (cases r) (simp add: sem.simps)

lemma sem_class: "op r = OpCharClass \<Longrightarrow> sem s r = stepBy s (\<lambda>c. inClass (runes r) (of_char c))"
  by (cases r) (simp add: sem.simps)

lemma sem_star: "op r = OpStar \<Longrightarrow> sub r = [x] \<Longrightarrow> sem s r = inside s ((sem s x)\<^sup>*)"
  by (cases r) (simp add: sem.simps first_def)

lemma stepBy_inside: "stepBy s P \<subseteq> {..length s} \<times> {..length s}"
  by (auto simp: stepBy_def)

lemma foldr_inside:
  "(\<And>x. x \<in> set ss \<Longrightarrow> sem s x \<subseteq> {..length s} \<times> {..length s}) \<Longrightarrow>
     foldr (O) (map (sem s) ss) (inside s Id) \<subseteq> {..length s} \<times> {..length s}"
proof (induction ss)
  case (Cons x ss)
  then have "sem s x \<subseteq> {..length s} \<times> {..length s}"
    "foldr (O) (map (sem s) ss) (inside s Id) \<subseteq> {..length s} \<times> {..length s}" by simp_all
  then show ?case by (simp only: list.map foldr.simps o_apply) blast
qed simp

lemma sem_inside: "sem s r \<subseteq> {..length s} \<times> {..length s}"
proof (induction s r rule: sem.induct)
  case (1 s a k fl ss rs mn mx)
  have f: "first (map (sem s) ss) \<subseteq> {..length s} \<times> {..length s}"
    using 1 by (cases ss) (auto simp: first_def)
  have c: "foldr (O) (map (sem s) ss) (inside s Id) \<subseteq> {..length s} \<times> {..length s}"
    by (rule foldr_inside) (use 1 in simp)
  have u: "\<Union> (set (map (sem s) ss)) \<subseteq> {..length s} \<times> {..length s}" using 1 by auto
  have b: "{(0, 0)} \<subseteq> {..length s} \<times> {..length s}" "{(length s, length s)} \<subseteq> {..length s} \<times> {..length s}" by auto
  show ?case
    by (cases k) (simp_all only: sem.simps Let_def rop.case f c u b stepBy_inside Int_lower2 empty_subsetI)
qed

lemma chain_inside: "chain s rs \<subseteq> {..length s} \<times> {..length s}"
  using sem_inside by (induction rs) auto

lemma chain_append: "chain s (xs @ ys) = chain s xs O chain s ys"
proof (induction xs)
  case Nil
  then show ?case using chain_inside [of s ys] by auto
qed (simp add: O_assoc)

lemma chain_single: "chain s [r] = sem s r"
  using sem_inside [of s r] by auto

lemma eqRegex_sem: "eqRegex r proto \<Longrightarrow> sem s r = sem s proto"
proof (induction r proto rule: eqRegex.induct)
  case (1 r proto)
  note eq = 1(2) [unfolded eqRegex.simps [of r proto]]
  have "map (sem s) (sub r) = map (sem s) (sub proto)"
  proof (rule nth_equalityI)
    show "length (map (sem s) (sub r)) = length (map (sem s) (sub proto))" using eq by simp
    fix i assume "i < length (map (sem s) (sub r))"
    then have i: "i < length (sub r)" "i < length (sub proto)" using eq by simp_all
    then have m: "(sub r ! i, sub proto ! i) \<in> set (zip (sub r) (sub proto))" by (auto simp: set_zip)
    moreover from this have "eqRegex (sub r ! i) (sub proto ! i)" using eq by (auto simp: list_all_iff)
    ultimately show "map (sem s) (sub r) ! i = map (sem s) (sub proto) ! i" using 1(1) i by auto
  qed
  then show ?case using eq by (cases r; cases proto) (simp add: sem.simps)
qed


section \<open>Well-formed trees\<close>

fun nodes :: "regexp \<Rightarrow> regexp list" where
  "nodes (Regexp a k fl ss rs mn mx) = Regexp a k fl ss rs mn mx # concat (map nodes ss)"

lemma self_node: "r \<in> set (nodes r)"
  by (cases r) simp

lemma sub_node: "x \<in> set (sub r) \<Longrightarrow> y \<in> set (nodes x) \<Longrightarrow> y \<in> set (nodes r)"
  by (cases r) auto

text \<open>Trees of the parser: literals are ASCII, concatenations have parts, and an address is of one node.\<close>

definition wf_re :: "regexp \<Rightarrow> bool" where
  "wf_re r \<longleftrightarrow>
     (\<forall>x \<in> set (nodes r). (op x = OpConcat \<longrightarrow> sub x \<noteq> []) \<and> (op x = OpLiteral \<longrightarrow> list_all (\<lambda>n. n < 128) (runes x))) \<and>
     (\<forall>x \<in> set (nodes r). \<forall>y \<in> set (nodes r). addr x = addr y \<longrightarrow> x = y)"

lemma wf_sub: "wf_re r \<Longrightarrow> x \<in> set (sub r) \<Longrightarrow> wf_re x"
  by (auto simp: wf_re_def dest: sub_node)

section \<open>Literals and digits\<close>

definition litAt :: "string \<Rightarrow> nat \<Rightarrow> string \<Rightarrow> bool" where
  "litAt s i w \<longleftrightarrow> i + length w \<le> length s \<and> take (length w) (drop i s) = w"

definition digitsAt :: "string \<Rightarrow> nat \<Rightarrow> nat \<Rightarrow> bool" where
  "digitsAt s i k \<longleftrightarrow> i + k \<le> length s \<and> list_all is_digit (take k (drop i s))"

lemma litAt_0: "litAt s 0 w \<longleftrightarrow> prefix w s"
  by (auto simp: litAt_def prefix_def) (metis append_take_drop_id)

lemma litAt_ex: "(\<exists>i. litAt s i w) \<longleftrightarrow> sublist w s"
proof
  assume "\<exists>i. litAt s i w"
  then obtain i where "take (length w) (drop i s) = w" by (auto simp: litAt_def)
  then have "s = take i s @ w @ drop (length w) (drop i s)" by (metis append_take_drop_id)
  then show "sublist w s" unfolding sublist_def by blast
next
  assume "sublist w s"
  then obtain xs ys where "s = xs @ w @ ys" by (auto simp: sublist_def)
  then have "litAt s (length xs) w" by (simp add: litAt_def)
  then show "\<exists>i. litAt s i w" ..
qed

lemma runes_eq_lit:
  assumes "list_all (\<lambda>n. n < (128 :: nat)) rs"
  shows "list_all2 (=) rs (map of_char w) \<longleftrightarrow> w = map char_of rs"
proof
  assume "list_all2 (=) rs (map of_char w)"
  then have "rs = map of_char w" by (simp add: list_all2_eq)
  then show "w = map char_of rs" by (simp add: comp_def)
next
  assume w: "w = map char_of rs"
  have "map of_char w = map (\<lambda>n. n mod 256) rs" by (simp add: w)
  also have "\<dots> = rs" using assms by (induction rs) auto
  finally show "list_all2 (=) rs (map of_char w)" by (metis list_all2_eq)
qed

lemma sem_lit:
  assumes "isRegularLiteral r" and "wf_re r"
  shows "sem s r = {(i, i + length (lit r)) | i. litAt s i (lit r)}"
proof -
  obtain a fl ss rs mn mx where r: "r = Regexp a OpLiteral fl ss rs mn mx" and fl: "\<not> bit fl 0"
    using assms(1) by (cases r) (auto simp: isRegularLiteral_def isRegular_def)
  have a: "list_all (\<lambda>n. n < 128) rs" using assms(2) self_node [of r] r by (auto simp: wf_re_def)
  have "runeEq (bit fl 0) = (=)" using fl by (intro ext) (simp add: runeEq_def)
  then show ?thesis
    unfolding r sem.simps Let_def rop.case
    using runes_eq_lit [OF a] by (auto simp: litAt_def lit_def)
qed

lemma inClass_digit: "inClass [48, 57] (of_char c) \<longleftrightarrow> is_digit c"
  by (simp add: is_digit_def)

lemma sem_digit: "isDigitMatch r \<Longrightarrow> sem s r = stepBy s is_digit"
  using eqRegex_sem [of r patDigits s] unfolding isDigitMatch_def patDigits_def sem.simps Let_def rop.case inClass_digit .

lemma chain_digits:
  "chain s (replicate k x) = {(i, i + k) | i. digitsAt s i k}" if "sem s x = stepBy s is_digit"
proof (induction k)
  case 0
  then show ?case by (auto simp: digitsAt_def)
next
  case (Suc k)
  have "digitsAt s i (Suc k) \<longleftrightarrow> i < length s \<and> is_digit (s ! i) \<and> digitsAt s (Suc i) k" for i
    by (cases "i < length s") (auto simp: digitsAt_def Cons_nth_drop_Suc [symmetric])
  then show ?case using Suc by (auto simp: that stepBy_def)
qed

lemma sem_multiDigits:
  assumes "isMultiDigits d = Ok True" and "wf_re d"
  shows "sem s d = {(i, i + digitLen d) | i. digitsAt s i (digitLen d)}"
proof -
  have k: "op d = OpConcat" and rep: "isConcatRepetition d = Ok True" and dig: "isDigitMatch (hd (sub d))"
    using assms(1) by (auto simp: isMultiDigits_def isConcatRepetition_def split: if_splits)
  obtain x xs where x: "sub d = x # xs" using rep k by (cases "sub d") (auto simp: isConcatRepetition_def)
  have "y = x" if "y \<in> set (sub d)" for y
  proof -
    have "addr y = addr x" using rep k x that by (auto simp: isConcatRepetition_def list_all_iff)
    moreover have "y \<in> set (nodes d)" by (rule sub_node [OF that self_node])
    moreover have "x \<in> set (nodes d)" by (rule sub_node [OF _ self_node]) (simp add: x)
    ultimately show ?thesis using assms(2) by (auto simp: wf_re_def)
  qed
  then have "sub d = replicate (length (sub d)) x" by (metis replicate_eqI)
  then show ?thesis
    using chain_digits [of s x "length (sub d)"] sem_digit [of x s] dig k x by (simp add: sem_concat digitLen_def)
qed

lemma isConcatRepetition_no_panic: "wf_re r \<Longrightarrow> \<exists>b. isConcatRepetition r = Ok b"
  using self_node [of r] by (cases "sub r") (auto simp: isConcatRepetition_def wf_re_def)

lemma isMultiDigits_no_panic: "wf_re r \<Longrightarrow> \<exists>b. isMultiDigits r = Ok b"
  using isConcatRepetition_no_panic [of r] by (auto simp: isMultiDigits_def)


section \<open>The matcher for dates\<close>

lemma skipDigits_spec:
  "pos + cnt \<le> length inp \<Longrightarrow>
     skipDigits inp cnt pos = Ok (if digitsAt inp pos cnt then Some (pos + cnt) else None)"
proof (induction cnt arbitrary: pos)
  case (Suc cnt)
  have "digitsAt inp pos (Suc cnt) \<longleftrightarrow> is_digit (inp ! pos) \<and> digitsAt inp (pos + 1) cnt"
    using Suc.prems by (auto simp: digitsAt_def Cons_nth_drop_Suc [symmetric])
  then show ?case using Suc by simp
qed (simp add: digitsAt_def)

text \<open>What the parts after the first digits match at a position.\<close>

fun restAt :: "string \<Rightarrow> regexp list \<Rightarrow> nat \<Rightarrow> bool" where
  "restAt s [] pos \<longleftrightarrow> pos \<le> length s"
| "restAt s [l] pos \<longleftrightarrow> litAt s pos (lit l)"
| "restAt s (l # d # rest) pos \<longleftrightarrow>
     litAt s pos (lit l) \<and> digitsAt s (pos + length (lit l)) (digitLen d) \<and>
     restAt s rest (pos + length (lit l) + digitLen d)"

fun restLen :: "regexp list \<Rightarrow> nat" where
  "restLen [] = 0"
| "restLen [l] = length (lit l)"
| "restLen (l # d # rest) = length (lit l) + digitLen d + restLen rest"

lemma restAt_len: "restAt s rest pos \<Longrightarrow> pos + restLen rest \<le> length s"
  by (induction s rest pos rule: restAt.induct) (auto simp: litAt_def)

lemma chain_rest:
  "numDateRest rest = Ok True \<Longrightarrow> \<forall>x \<in> set rest. wf_re x \<Longrightarrow> (\<exists>j. (pos, j) \<in> chain s rest) \<longleftrightarrow> restAt s rest pos"
proof (induction s rest pos rule: restAt.induct)
  case (2 s l pos)
  then show ?case by (auto simp: sem_lit litAt_def)
next
  case (3 s l d rest pos)
  then have l: "isRegularLiteral l" "wf_re l" and d: "isMultiDigits d = Ok True" "wf_re d"
    and rest: "numDateRest rest = Ok True" "\<forall>x \<in> set rest. wf_re x"
    by (auto split: if_splits)
  show ?case using 3(1) [OF rest] by (auto simp: sem_lit [OF l] sem_multiDigits [OF d])
qed auto

fun restDigits :: "regexp list \<Rightarrow> nat list" where
  "restDigits (l # d # rest) = digitLen d # restDigits rest"
| "restDigits _ = []"

fun restSeps :: "regexp list \<Rightarrow> string list" where
  "restSeps (l # d # rest) = lit l # restSeps rest"
| "restSeps _ = []"

fun restSuffix :: "regexp list \<Rightarrow> string" where
  "restSuffix (l # d # rest) = restSuffix rest"
| "restSuffix [l] = lit l"
| "restSuffix [] = []"

lemma numDateParts_rest: "numDateParts rest ds ss = (ds @ restDigits rest, ss @ restSeps rest, restSuffix rest)"
  by (induction rest ds ss rule: numDateParts.induct) simp_all

lemma restLen_parts: "restLen rest = length (restSuffix rest) + sum_list (restDigits rest) + sum_list (map length (restSeps rest))"
  by (induction rest rule: restLen.induct) simp_all

lemma matchGroups_spec:
  "pos + restLen rest \<le> length inp \<Longrightarrow>
     bind_outcome (matchGroups inp (restDigits rest) (restSeps rest) pos) (\<lambda>r.
       case r of
         None \<Rightarrow> Ok False
       | Some pos2 \<Rightarrow> if restSuffix rest = [] then Ok True
           else if pos2 \<le> length inp then Ok (prefix (restSuffix rest) (drop pos2 inp)) else Panic)
     = Ok (restAt inp rest pos)"
proof (induction inp rest pos rule: restAt.induct)
  case (2 s l pos)
  then show ?case by (auto simp: litAt_def prefix_def) (metis append_take_drop_id)+
next
  case (3 s l d rest pos)
  have "sliceEqual s pos (lit l) = Ok (litAt s pos (lit l))"
    using 3(2) by (simp add: sliceEqual_def litAt_def)
  moreover have "skipDigits s (digitLen d) (pos + length (lit l)) =
      Ok (if digitsAt s (pos + length (lit l)) (digitLen d) then Some (pos + length (lit l) + digitLen d) else None)"
    using 3(2) by (intro skipDigits_spec) simp
  ultimately show ?case
    using 3 unfolding restSuffix.simps restDigits.simps restSeps.simps by (simp add: add.assoc)
qed simp


lemma matchFrom_spec:
  assumes "digits m = k # restDigits rest" and "seps m = restSeps rest" and "nsuffix m = restSuffix rest"
    and "pos + k + restLen rest \<le> length inp"
  shows "matchFrom m inp pos = Ok (digitsAt inp pos k \<and> restAt inp rest (pos + k))"
proof -
  have "skipDigits inp k pos = Ok (if digitsAt inp pos k then Some (pos + k) else None)"
    using assms(4) by (intro skipDigits_spec) simp
  then show ?thesis
    unfolding matchFrom_def assms(1-3) using matchGroups_spec [of "pos + k" rest inp] assms(4) by simp
qed

text \<open>What the matcher of \<open>compilePrefixNumDate\<close> finds, for the parts after the begin of the text.\<close>

lemma prefixNumDate_spec:
  assumes "m = \<lparr>minLen = length (case pre of None \<Rightarrow> [] | Some p \<Rightarrow> p) + length (restSuffix rest) +
      sum_list (k # restDigits rest) + sum_list (map length (restSeps rest)),
      nprefix = pre, digits = k # restDigits rest, seps = restSeps rest, nsuffix = restSuffix rest\<rparr>"
    and "w = (case pre of None \<Rightarrow> [] | Some p \<Rightarrow> p)"
  shows "prefixNumDate_Match m inp =
    Ok (litAt inp 0 w \<and> digitsAt inp (length w) k \<and> restAt inp rest (length w + k))"
proof (cases "length inp < minLen m")
  case True
  have "\<not> (restAt inp rest (length w + k))"
    using True assms restAt_len [of inp rest "length w + k"] restLen_parts [of rest] by auto
  then show ?thesis using True by (simp add: prefixNumDate_Match_def)
next
  case False
  then have le: "length w + k + restLen rest \<le> length inp" using assms restLen_parts [of rest] by simp
  have "matchFrom m inp (length w) = Ok (digitsAt inp (length w) k \<and> restAt inp rest (length w + k))"
    by (rule matchFrom_spec) (use assms(1) le in simp_all)
  then show ?thesis
    using False assms(1,2) le
    by (cases pre) (auto simp: prefixNumDate_Match_def sliceEqual_def litAt_def)
qed

section \<open>Compilation\<close>

text \<open>A fixpoint of the rewriting steps has no concatenation of one part at the top.\<close>

definition wf_top :: "regexp \<Rightarrow> bool" where
  "wf_top r \<longleftrightarrow> wf_re r \<and> (op r = OpConcat \<longrightarrow> 2 \<le> length (sub r) \<and> isRegular r)"

lemma digitsThen_eq:
  assumes "wf_re d" and "\<exists>b. numDateRest rest = Ok b"
  shows "bind_outcome (isMultiDigits d) (\<lambda>b. if b then numDateRest rest else Ok False) =
    Ok (isMultiDigits d = Ok True \<and> numDateRest rest = Ok True)"
proof -
  obtain b c where "isMultiDigits d = Ok b" "numDateRest rest = Ok c"
    using isMultiDigits_no_panic [OF assms(1)] assms(2) by blast
  then show ?thesis by (cases b) simp_all
qed

lemma numDateRest_no_panic: "\<forall>x \<in> set rest. wf_re x \<Longrightarrow> \<exists>b. numDateRest rest = Ok b"
proof (induction rest rule: numDateRest.induct)
  case (3 sep d rest)
  show ?case
  proof (cases "isRegularLiteral sep \<and> isMultiDigits d = Ok True")
    case True
    then show ?thesis using 3 by simp
  next
    case False
    obtain b where "isMultiDigits d = Ok b" using isMultiDigits_no_panic [of d] 3(2) by auto
    then show ?thesis using False by auto
  qed
qed auto

text \<open>A date pattern: the begin of the text, a literal or nothing, digits, and the rest.\<close>

definition dateParts :: "regexp \<Rightarrow> regexp \<Rightarrow> regexp list \<Rightarrow> regexp \<Rightarrow> regexp list \<Rightarrow> bool" where
  "dateParts r b pre d rest \<longleftrightarrow>
     sub r = b # pre @ d # rest \<and> op r = OpConcat \<and> op b = OpBeginText \<and>
     (pre = [] \<and> op d \<noteq> OpLiteral \<or> (\<exists>l. pre = [l] \<and> isRegularLiteral l)) \<and>
     isMultiDigits d = Ok True \<and> numDateRest rest = Ok True"

lemma isPrefixNumDate_cases:
  assumes "wf_top r" and "\<not> isPrefixLiteral r"
  shows "isPrefixNumDate r = Ok False \<or>
    isPrefixNumDate r = Ok True \<and> (\<exists>b pre d rest. dateParts r b pre d rest)"
proof (cases "op r = OpConcat \<and> op (hd (sub r)) = OpBeginText")
  case False
  then show ?thesis using assms(1) by (cases "sub r") (auto simp: isPrefixNumDate_def wf_top_def)
next
  case True
  obtain b p ps where sub: "sub r = b # p # ps"
    using assms(1) True by (cases "sub r"; cases "tl (sub r)") (auto simp: wf_top_def)
  have wf: "wf_re x" if "x \<in> set (b # p # ps)" for x
    using assms(1) wf_sub [of r x] that sub by (simp add: wf_top_def)
  have digits_lit: "op d \<noteq> OpLiteral" if "isMultiDigits d = Ok True" for d
    using that by (auto simp: isMultiDigits_def isConcatRepetition_def split: if_splits)
  have k: "op r = OpConcat" "op b = OpBeginText" using True sub by simp_all
  have eq: "isPrefixNumDate r =
      (case (if isRegularLiteral p then ps else p # ps) of
         [] \<Rightarrow> Panic
       | d # rest \<Rightarrow> bind_outcome (isMultiDigits d) (\<lambda>b. if b then numDateRest rest else Ok False))"
    using True sub by (simp add: isPrefixNumDate_def)
  show ?thesis
  proof (cases "isRegularLiteral p")
    case lit: True
    then obtain d rest where ps: "ps = d # rest"
      using assms True sub by (cases ps) (auto simp: isPrefixLiteral_def wf_top_def)
    have "isPrefixNumDate r = Ok (isMultiDigits d = Ok True \<and> numDateRest rest = Ok True)"
      using eq lit ps digitsThen_eq [of d rest] numDateRest_no_panic [of rest] wf by simp
    moreover have "dateParts r b [p] d rest" if "isMultiDigits d = Ok True \<and> numDateRest rest = Ok True"
      using that sub ps k lit by (simp add: dateParts_def)
    ultimately show ?thesis by auto
  next
    case lit: False
    have "isPrefixNumDate r = Ok (isMultiDigits p = Ok True \<and> numDateRest ps = Ok True)"
      using eq lit digitsThen_eq [of p ps] numDateRest_no_panic [of ps] wf by simp
    moreover have "dateParts r b [] p ps" if "isMultiDigits p = Ok True \<and> numDateRest ps = Ok True"
      using that sub k digits_lit [of p] by (simp add: dateParts_def)
    ultimately show ?thesis by auto
  qed
qed


lemma stepBy_star:
  "(i, j) \<in> (stepBy s P)\<^sup>* \<longleftrightarrow> i \<le> j \<and> (\<forall>k. i \<le> k \<and> k < j \<longrightarrow> k < length s \<and> P (s ! k))"
proof
  assume "(i, j) \<in> (stepBy s P)\<^sup>*"
  then show "i \<le> j \<and> (\<forall>k. i \<le> k \<and> k < j \<longrightarrow> k < length s \<and> P (s ! k))"
    by (induction rule: rtrancl_induct) (auto simp: stepBy_def less_Suc_eq)
next
  assume "i \<le> j \<and> (\<forall>k. i \<le> k \<and> k < j \<longrightarrow> k < length s \<and> P (s ! k))"
  then have "i \<le> j" and "\<forall>k. i \<le> k \<and> k < j \<longrightarrow> k < length s \<and> P (s ! k)" by simp_all
  then show "(i, j) \<in> (stepBy s P)\<^sup>*"
  proof (induction rule: dec_induct)
    case (step n)
    then have "(n, Suc n) \<in> stepBy s P" by (auto simp: stepBy_def)
    with step show ?case by (auto intro: rtrancl_into_rtrancl)
  qed simp
qed

text \<open>ASCII text without a newline.\<close>

definition one_line :: "string \<Rightarrow> bool" where
  "one_line s \<longleftrightarrow> list_all (\<lambda>c. (of_char c :: nat) < 128 \<and> c \<noteq> newline) s"

lemma sem_dotStar:
  "sem s (dotStar p) = {(i, j). i \<le> j \<and> j \<le> length s \<and> (\<forall>k. i \<le> k \<and> k < j \<longrightarrow> s ! k \<noteq> newline)}"
  unfolding dotStar_def sem.simps Let_def rop.case list.map first_def list.case
  by (auto simp: stepBy_star)

lemma sem_dotStar_one_line: "one_line s \<Longrightarrow> sem s (dotStar p) = {(i, j). i \<le> j \<and> j \<le> length s}"
  unfolding sem_dotStar one_line_def list_all_length by auto

lemma sem_parsedConcat: "sem s (parsedConcat p rs) = chain s rs"
  by (simp add: sem_concat)

lemma sem_beginText [simp]: "sem s (beginText p) = {(0, 0)}"
  by (simp add: sem_begin beginText_def)

lemma sem_endText [simp]: "sem s (endText p) = {(length s, length s)}"
  by (simp add: sem_end endText_def)

lemmas pattern_defs = patDotStar_def patNullBeginDotStar_def patNullEndDotStar_def patEmptyText_def
  patEmptyWhiteText_def patAny2_def patAny3_def patAny4_def

lemma isAnyMatch_search:
  assumes "isAnyMatch r" and "one_line s"
  shows "search s r"
proof -
  obtain P where P: "P \<in> {patDotStar, patAny2, patAny3, patAny4}" and eq: "sem s r = sem s P"
    using assms(1) eqRegex_sem [of r _ s] by (auto simp: isAnyMatch_def)
  have "(0, length s) \<in> sem s P"
    using P assms(2)
    by (auto simp: pattern_defs sem_parsedConcat sem_dotStar_one_line relcomp_unfold)
  then show ?thesis using eq by (auto simp: search_iff)
qed

lemma isEmptyText_search: "isEmptyText r \<Longrightarrow> search s r \<longleftrightarrow> length s = 0"
  by (auto simp: isEmptyText_def search_iff pattern_defs sem_parsedConcat relcomp_unfold dest!: eqRegex_sem [of r _ s])

lemma inClass_white: "inClass [9, 10, 12, 13, 32, 32] (of_char c) \<longleftrightarrow> is_white c"
  by (auto simp: is_white_def)

lemma isEmptyWhite_search:
  assumes "isEmptyTextWithWhitespace r"
  shows "search s r \<longleftrightarrow> list_all is_white s"
proof -
  let ?c = "Regexp 16 OpCharClass Perl [] [9, 10, 12, 13, 32, 32] 0 0"
  have "sem s ?c = stepBy s is_white" unfolding sem.simps Let_def rop.case inClass_white ..
  then have "sem s (Regexp 15 OpStar Perl [?c] [] 0 0) = inside s ((stepBy s is_white)\<^sup>*)"
    by (simp add: sem_star)
  moreover have "sem s r = sem s patEmptyWhiteText"
    using assms eqRegex_sem by (simp add: isEmptyTextWithWhitespace_def)
  ultimately have "sem s r = {(0, 0)} O (inside s ((stepBy s is_white)\<^sup>*) O ({(length s, length s)} O inside s Id))"
    by (simp add: patEmptyWhiteText_def sem_parsedConcat)
  then have "search s r \<longleftrightarrow> (0, length s) \<in> (stepBy s is_white)\<^sup>*" by (auto simp: search_iff relcomp_unfold)
  then show ?thesis by (simp add: stepBy_star list_all_length)
qed

section \<open>Correctness of each shape\<close>

lemma altSubstring_ex: "altSubstring_Match ls s \<longleftrightarrow> list_ex (\<lambda>l. go_contains s l) ls"
  by (induction ls) auto

lemma oneOf_ex: "oneOf_Match ls s \<longleftrightarrow> list_ex (\<lambda>l. s = l) ls"
  by (induction ls) auto

lemma altPrefix_ex: "altPrefix_MatchString ls s \<longleftrightarrow> list_ex (\<lambda>l. length l \<le> length s \<and> take (length l) s = l) ls"
  by (induction ls) auto

lemma emptyWhite_all: "emptyWhite_MatchString s \<longleftrightarrow> list_all is_white s"
  by (induction s) auto

lemmas matcher_defs = equals_MatchString_def equals_Match_def substring_MatchString_def substring_Match_def altSubstring_ex
  oneOf_ex prefix_MatchString_def altPrefix_ex emptyString_MatchString_def emptyWhite_all

text \<open>A matcher made by the package keeps one literal in both forms; then both methods agree.\<close>

fun same_bytes :: "stringMatcher \<Rightarrow> bool" where
  "same_bytes (equalsMatcher ms mbs) \<longleftrightarrow> ms = mbs"
| "same_bytes (substringMatcher ms mbs) \<longleftrightarrow> ms = mbs"
| "same_bytes _ \<longleftrightarrow> True"

lemma Match_MatchString: "same_bytes m \<Longrightarrow> Match m s = MatchString m s"
  by (cases m) (auto simp: matcher_defs)

lemma compile_same_bytes: "compile std r = Ok m \<Longrightarrow> same_bytes m"
  by (auto simp: compile_def compilePrefixNumDate_def split: if_splits list.splits prod.splits option.splits)

lemma length_2: "length xs = 2 \<Longrightarrow> xs = [xs ! 0, xs ! 1]" and length_3: "length xs = 3 \<Longrightarrow> xs = [xs ! 0, xs ! 1, xs ! 2]"
  by (auto simp: length_Suc_conv numeral_2_eq_2 numeral_3_eq_3)

lemma substring_search: "isSubstringLiteral r \<Longrightarrow> wf_re r \<Longrightarrow> search s r \<longleftrightarrow> go_contains s (lit r)"
  using litAt_ex [of s "lit r"] by (auto simp: search_def isSubstringLiteral_def sem_lit)

lemma alt_search: "isAltLiterals r \<Longrightarrow> wf_re r \<Longrightarrow> search s r \<longleftrightarrow> list_ex (\<lambda>l. go_contains s l) (map lit (sub r))"
  using substring_search [unfolded isSubstringLiteral_def search_def] wf_sub [of r]
  by (auto simp: search_def isAltLiterals_def sem_alternate list_all_iff list_ex_iff)

lemma begin_search:
  assumes "op r = OpConcat" and "sub r = [b, x]" and "op b = OpBeginText"
  shows "search s r \<longleftrightarrow> (\<exists>j. (0, j) \<in> sem s x)"
  using assms sem_inside [of s x] by (auto simp: search_iff sem_concat sem_begin relcomp_unfold)

lemma begin_end_search:
  assumes "op r = OpConcat" and "sub r = [b, x, e]" and "op b = OpBeginText" and "op e = OpEndText"
  shows "search s r \<longleftrightarrow> (0, length s) \<in> sem s x"
  using assms sem_inside [of s x] by (auto simp: search_iff sem_concat sem_begin sem_end relcomp_unfold)

lemma lit_whole: "isRegularLiteral r \<Longrightarrow> wf_re r \<Longrightarrow> (0, length s) \<in> sem s r \<longleftrightarrow> s = lit r"
  by (auto simp: sem_lit litAt_def)

lemma lit_start: "isRegularLiteral r \<Longrightarrow> wf_re r \<Longrightarrow>
    (\<exists>j. (0, j) \<in> sem s r) \<longleftrightarrow> length (lit r) \<le> length s \<and> take (length (lit r)) s = lit r"
  by (auto simp: sem_lit litAt_def)


lemma exact_search:
  assumes "isExactLiteral r" and "wf_re r"
  shows "search s r \<longleftrightarrow> lit (sub r ! 1) = s"
proof -
  note e = assms(1) [unfolded isExactLiteral_def]
  have sub: "sub r = [sub r ! 0, sub r ! 1, sub r ! 2]" using e length_3 by blast
  have "sub r ! 1 \<in> set (sub r)" using e by simp
  then have "wf_re (sub r ! 1)" using wf_sub [OF assms(2)] by blast
  then show ?thesis using begin_end_search [OF _ sub, of s] lit_whole [of "sub r ! 1" s] e by auto
qed

lemma oneOf_search:
  assumes "isOneOfLiterals r" and "wf_re r"
  shows "search s r \<longleftrightarrow> list_ex (\<lambda>l. s = l) (map lit (sub (sub r ! 1)))"
proof -
  note e = assms(1) [unfolded isOneOfLiterals_def]
  have sub: "sub r = [sub r ! 0, sub r ! 1, sub r ! 2]" using e length_3 by blast
  have "sub r ! 1 \<in> set (sub r)" using e by simp
  then have "wf_re (sub r ! 1)" using wf_sub [OF assms(2)] by blast
  then show ?thesis
    using begin_end_search [OF _ sub, of s] lit_whole wf_sub [of "sub r ! 1"] e
    by (auto simp: isAltLiterals_def sem_alternate list_all_iff list_ex_iff)
qed

lemma prefix_search:
  assumes "isPrefixLiteral r" and "wf_re r"
  shows "search s r \<longleftrightarrow> length (lit (sub r ! 1)) \<le> length s \<and> take (length (lit (sub r ! 1))) s = lit (sub r ! 1)"
proof -
  note e = assms(1) [unfolded isPrefixLiteral_def]
  have sub: "sub r = [sub r ! 0, sub r ! 1]" using e length_2 by blast
  have "sub r ! 1 \<in> set (sub r)" using e by simp
  then have "wf_re (sub r ! 1)" using wf_sub [OF assms(2)] by blast
  then show ?thesis using begin_search [OF _ sub, of s] lit_start [of "sub r ! 1" s] e by auto
qed

lemma prefixAlt_search:
  assumes "isPrefixAltLiterals r" and "wf_re r"
  shows "search s r \<longleftrightarrow>
    list_ex (\<lambda>l. length l \<le> length s \<and> take (length l) s = l) (map lit (sub (sub r ! 1)))"
proof -
  note e = assms(1) [unfolded isPrefixAltLiterals_def]
  have sub: "sub r = [sub r ! 0, sub r ! 1]" using e length_2 by blast
  have "sub r ! 1 \<in> set (sub r)" using e by simp
  then have "wf_re (sub r ! 1)" using wf_sub [OF assms(2)] by blast
  then have lits: "(\<exists>j. (0, j) \<in> sem s x) \<longleftrightarrow> length (lit x) \<le> length s \<and> take (length (lit x)) s = lit x"
    if "x \<in> set (sub (sub r ! 1))" for x
    using that e lit_start [of x s] wf_sub [of "sub r ! 1" x] by (auto simp: list_all_iff)
  have "search s r \<longleftrightarrow> (\<exists>x \<in> set (sub (sub r ! 1)). \<exists>j. (0, j) \<in> sem s x)"
    using begin_search [OF _ sub, of s] e by (auto simp: sem_alternate)
  then show ?thesis using lits by (simp add: list_ex_iff)
qed

lemma date_search:
  assumes "dateParts r b pre d rest" and "wf_re r"
  shows "\<exists>m. compilePrefixNumDate r = Ok (prefixNumDateMatcher m) \<and> prefixNumDate_Match m s = Ok (search s r)"
proof -
  note p = assms(1) [unfolded dateParts_def]
  define pre' where "pre' = (case pre of [] \<Rightarrow> None | l # _ \<Rightarrow> Some (lit l))"
  define w where "w = (case pre' of None \<Rightarrow> [] | Some v \<Rightarrow> v)"
  let ?m = "\<lparr>minLen = length (case pre' of None \<Rightarrow> [] | Some p \<Rightarrow> p) + length (restSuffix rest) +
      sum_list (digitLen d # restDigits rest) + sum_list (map length (restSeps rest)),
      nprefix = pre', digits = digitLen d # restDigits rest, seps = restSeps rest, nsuffix = restSuffix rest\<rparr>"
  have comp: "compilePrefixNumDate r = Ok (prefixNumDateMatcher ?m)"
    using p by (auto simp: compilePrefixNumDate_def numDateParts_rest pre'_def isRegularLiteral_def)
  have wf: "wf_re x" if "x \<in> set (pre @ d # rest)" for x
    using wf_sub [OF assms(2), of x] p that by simp
  have pre_chain: "(0, k) \<in> chain s pre \<longleftrightarrow> k = length w \<and> litAt s 0 w" for k
    using p wf by (auto simp: w_def pre'_def sem_lit litAt_def relcomp_unfold)
  have "search s r \<longleftrightarrow> (\<exists>k j. (0, k) \<in> chain s pre \<and> (k, j) \<in> chain s (d # rest))"
    using p by (auto simp: search_iff sem_concat chain_append sem_begin relcomp_unfold)
  also have "\<dots> \<longleftrightarrow> litAt s 0 w \<and> (\<exists>j. (length w, j) \<in> chain s (d # rest))"
    unfolding pre_chain by blast
  also have "\<dots> \<longleftrightarrow> litAt s 0 w \<and> digitsAt s (length w) (digitLen d) \<and> restAt s rest (length w + digitLen d)"
    using p wf chain_rest [of rest "length w + digitLen d" s]
    by (auto simp: sem_multiDigits relcomp_unfold)
  finally have "prefixNumDate_Match ?m s = Ok (search s r)"
    using prefixNumDate_spec [OF refl w_def, of rest "digitLen d" s] by simp
  with comp show ?thesis by blast
qed


section \<open>Properties\<close>

lemma compile_ok:
  assumes "\<forall>f. std r = Some f \<longrightarrow> f s = search s r" and "wf_top r" and "one_line s"
  shows "compile std r = Err () \<and> std r = None \<or> (\<exists>m. compile std r = Ok m \<and> MatchString m s = Ok (search s r) \<and> Match m s = Ok (search s r))"
proof (cases "isSubstringLiteral r \<or> isExactLiteral r \<or> isAltLiterals r \<or> isOneOfLiterals r \<or> isPrefixLiteral r \<or> isPrefixAltLiterals r")
  case True
  have wf: "wf_re r" using assms(2) by (simp add: wf_top_def)
  obtain X where "compile std r =
      (if isSubstringLiteral r then Ok (substringMatcher (lit r) (lit r))
       else if isExactLiteral r then Ok (equalsMatcher (lit (sub r ! 1)) (lit (sub r ! 1)))
       else if isAltLiterals r then Ok (altSubstringMatcher (map lit (sub r)))
       else if isOneOfLiterals r then Ok (oneOfMatcher (map lit (sub (sub r ! 1))))
       else if isPrefixLiteral r then Ok (prefixMatcher (lit (sub r ! 1)))
       else if isPrefixAltLiterals r then Ok (altPrefixMatcher (map lit (sub (sub r ! 1))))
       else X)"
    unfolding compile_def by blast
  then show ?thesis
    using True substring_search [OF _ wf, of s] exact_search [OF _ wf, of s] alt_search [OF _ wf, of s]
      oneOf_search [OF _ wf, of s] prefix_search [OF _ wf, of s] prefixAlt_search [OF _ wf, of s]
    by (auto simp: matcher_defs)
next
  case False
  then have comp: "compile std r = bind_outcome (isPrefixNumDate r) (\<lambda>b.
      if b then compilePrefixNumDate r else if isEmptyText r then Ok emptyStringMatcher
      else if isEmptyTextWithWhitespace r then Ok emptyWhiteStringMatcher
      else if isAnyMatch r then Ok matchAny
      else (case std r of None \<Rightarrow> Err () | Some f \<Rightarrow> Ok (stdMatcher f)))"
    by (simp add: compile_def)
  have wf: "wf_re r" using assms(2) by (simp add: wf_top_def)
  consider "isPrefixNumDate r = Ok False" | b pre d rest where "isPrefixNumDate r = Ok True" "dateParts r b pre d rest"
    using isPrefixNumDate_cases [OF assms(2)] False by blast
  then show ?thesis
  proof cases
    case 1
    then show ?thesis
      using comp assms(1) isEmptyText_search [of r s] isEmptyWhite_search [of r s] isAnyMatch_search [OF _ assms(3), of r]
      by (auto simp: matcher_defs split: option.split)
  next
    case 2
    then show ?thesis using comp date_search [OF 2(2) wf, of s] by fastforce
  qed
qed

text \<open>
  C4. Compilation is correct on ASCII text without a newline: for a tree of the parser with ASCII literals, whose
  concatenations have parts and whose top is not a concatenation of one part or one that folds case (\<open>wf_top\<close>), compiling never panics and fails only
  when the standard library refuses the expression, and the matcher it returns finds a match in such a text, given as a
  string or as bytes, exactly when the expression has one. If the standard library compiles this expression, its
  matcher is assumed to decide on this text whether the expression has a match.
\<close>

theorem compile_correct:
  assumes "\<forall>f. std r = Some f \<longrightarrow> f s = search s r" and "wf_top r" and "one_line s"
  shows "compile std r = Err () \<and> std r = None \<or> (\<exists>m. compile std r = Ok m \<and> MatchString m s = Ok (search s r) \<and> Match m s = Ok (search s r))"
  using assms by (rule compile_ok)

definition dateRegex :: regexp where
  "dateRegex =
     (let d = Regexp 42 OpCharClass Perl [] [48, 57] 0 0 in
      Regexp 40 OpConcat 0 [beginText 41, Regexp 43 OpConcat 0 [d, d] [] 0 0, Regexp 44 OpLiteral Perl [] [45] 0 0] [] 0 0)"

lemma dateRegex_wf: "wf_top dateRegex"
  by code_simp

theorem compile_correct_witness:
  "\<exists>m. compile (\<lambda>r. Some (\<lambda>s. search s r)) dateRegex = Ok m \<and> MatchString m ''24-x'' = Ok (search ''24-x'' dateRegex)"
proof -
  have "one_line ''24-x''" by code_simp
  with compile_correct [of "\<lambda>r. Some (\<lambda>s. search s r)" dateRegex, OF _ dateRegex_wf] show ?thesis by auto
qed


section \<open>Rewriting steps\<close>

definition parts_ok :: "regexp \<Rightarrow> bool" where
  "parts_ok r \<longleftrightarrow> (\<forall>x \<in> set (nodes r). (op x = OpCapture \<longrightarrow> length (sub x) = 1) \<and> (op x = OpRepeat \<longrightarrow> sub x \<noteq> []))"

lemma parts_sub: "parts_ok r \<Longrightarrow> x \<in> set (sub r) \<Longrightarrow> parts_ok x"
  by (auto simp: parts_ok_def dest: sub_node)

lemma parts_self: "parts_ok r \<Longrightarrow> (op r = OpCapture \<longrightarrow> length (sub r) = 1) \<and> (op r = OpRepeat \<longrightarrow> sub r \<noteq> [])"
  using self_node [of r] by (simp add: parts_ok_def)

lemma uncapture_sem:
  "parts_ok r \<Longrightarrow> sem s (fst (snd (uncapture r p))) = sem s r"
  "\<forall>r \<in> set rs. parts_ok r \<Longrightarrow> map (sem s) (fst (snd (uncaptures rs p))) = map (sem s) rs"
proof (induction r p and rs p rule: uncapture_uncaptures.induct)
  case (1 a k fl ss rs mn mx p)
  let ?r = "Regexp a k fl ss rs mn mx"
  have ss: "\<forall>r \<in> set ss. parts_ok r" using parts_sub [OF 1(3)] by simp
  show ?case
  proof (cases "k = OpCapture")
    case True
    then have len: "length ss = 1" using parts_self [OF 1(3)] by simp
    obtain m ss' p' where u: "uncaptures ss p = (m, ss', p')" by (cases "uncaptures ss p")
    have "map (sem s) ss' = map (sem s) ss" using 1(1) True len ss u by simp
    then show ?thesis using True len u by (cases ss; cases ss') (auto simp: sem.simps first_def)
  next
    case False
    obtain m ss' p' where u: "uncaptures ss p = (m, ss', p')" by (cases "uncaptures ss p")
    have "map (sem s) ss' = map (sem s) ss" using 1(2) False ss u by simp
    then show ?thesis using False u by (simp add: sem.simps)
  qed
next
  case (3 r rs p)
  then show ?case by (auto split: prod.splits)
qed simp

text \<open>Dropping a part that matches the empty string everywhere, at the begin or the end.\<close>

lemma drop_first:
  assumes "\<And>k. k \<le> length s \<Longrightarrow> (k, k) \<in> A" and "B \<subseteq> {..length s} \<times> {..length s}"
  shows "(\<exists>i j. (i, j) \<in> A O B) \<longleftrightarrow> (\<exists>i j. (i, j) \<in> B)"
proof
  assume "\<exists>i j. (i, j) \<in> B"
  then obtain i j where "(i, j) \<in> B" by blast
  moreover from this have "(i, i) \<in> A" using assms by auto
  ultimately show "\<exists>i j. (i, j) \<in> A O B" by blast
qed auto

lemma drop_last:
  assumes "\<And>k. k \<le> length s \<Longrightarrow> (k, k) \<in> B" and "A \<subseteq> {..length s} \<times> {..length s}"
  shows "(\<exists>i j. (i, j) \<in> A O B) \<longleftrightarrow> (\<exists>i j. (i, j) \<in> A)"
proof
  assume "\<exists>i j. (i, j) \<in> A"
  then obtain i j where "(i, j) \<in> A" by blast
  moreover from this have "(j, j) \<in> B" using assms by auto
  ultimately show "\<exists>i j. (i, j) \<in> A O B" by blast
qed auto

lemma dotStar_empty: "eqRegex x patDotStar \<Longrightarrow> k \<le> length s \<Longrightarrow> (k, k) \<in> sem s x"
  using eqRegex_sem [of x patDotStar s] by (auto simp: patDotStar_def sem_dotStar)

lemma search_with_sub: "op r = OpConcat \<Longrightarrow> search s (with_sub p ss r) \<longleftrightarrow> (\<exists>i j. (i, j) \<in> chain s ss)"
  by (simp add: search_iff sem_concat)

lemma begin_dotStar_search:
  assumes "one_line s" and "sem s b = {(0, 0)}" and "sem s x = sem s (dotStar q)"
  shows "(\<exists>i j. (i, j) \<in> chain s (b # x # rest)) \<longleftrightarrow> (\<exists>i j. (i, j) \<in> chain s (x # rest))"
  using chain_inside [of s rest] assms(2,3)
  by (auto simp: sem_dotStar_one_line [OF assms(1)] relcomp_unfold)

lemma dotStar_end_search:
  assumes "one_line s" and "sem s e = {(length s, length s)}" and "sem s x = sem s (dotStar q)"
  shows "(\<exists>i j. (i, j) \<in> chain s (rest @ [x, e])) \<longleftrightarrow> (\<exists>i j. (i, j) \<in> chain s (rest @ [x]))"
  using chain_inside [of s rest] assms(2,3)
  by (auto simp: chain_append sem_dotStar_one_line [OF assms(1)] relcomp_unfold)

lemma trimLeft_search:
  assumes "one_line s"
  shows "search s (snd (trimLeft p r)) \<longleftrightarrow> search s r"
proof (cases "eqPrefixAnyRegex r [patDotStar, patNullBeginDotStar]")
  case True
  then have k: "op r = OpConcat" by (auto simp: eqPrefixAnyRegex_def eqPrefixRegex_def)
  have "(\<exists>i j. (i, j) \<in> chain s (tl (sub r))) \<longleftrightarrow> (\<exists>i j. (i, j) \<in> chain s (sub r))"
  proof (cases "eqPrefixRegex r patDotStar")
    case True
    then obtain x rest where "sub r = x # rest" "eqRegex x patDotStar"
      by (cases "sub r") (auto simp: eqPrefixRegex_def patDotStar_def dotStar_def)
    then show ?thesis
      using drop_first [of s "sem s x" "chain s rest"] dotStar_empty chain_inside by simp
  next
    case False
    then have "eqPrefixRegex r patNullBeginDotStar" using True by (simp add: eqPrefixAnyRegex_def)
    then obtain b x rest where sub: "sub r = b # x # rest" "eqRegex b (beginText 3)" "eqRegex x (dotStar 4)"
      by (cases "sub r"; cases "tl (sub r)") (auto simp: eqPrefixRegex_def patNullBeginDotStar_def)
    then show ?thesis
      using begin_dotStar_search [OF assms, of b x 4 rest] eqRegex_sem [of b _ s] eqRegex_sem [of x _ s] by simp
  qed
  then show ?thesis using True k search_with_sub [OF k, of s p] by (simp add: trimLeft_def search_iff [of s r] sem_concat)
qed (simp add: trimLeft_def)


lemma trimRight_search:
  assumes "one_line s"
  shows "search s (snd (trimRight p r)) \<longleftrightarrow> search s r"
proof (cases "eqSuffixAnyRegex r [patDotStar, patNullEndDotStar]")
  case True
  then have k: "op r = OpConcat" by (auto simp: eqSuffixAnyRegex_def eqSuffixRegex_def)
  have "(\<exists>i j. (i, j) \<in> chain s (butlast (sub r))) \<longleftrightarrow> (\<exists>i j. (i, j) \<in> chain s (sub r))"
  proof (cases "eqSuffixRegex r patDotStar")
    case True
    then obtain x rest where "sub r = rest @ [x]" "eqRegex x patDotStar"
      by (cases "sub r" rule: rev_cases) (auto simp: eqSuffixRegex_def patDotStar_def dotStar_def)
    then show ?thesis
      using drop_last [of s "chain s [x]" "chain s rest"] dotStar_empty chain_inside
      by (simp add: chain_append chain_single del: chain_Cons)
  next
    case False
    then have "eqSuffixRegex r patNullEndDotStar" using True by (simp add: eqSuffixAnyRegex_def)
    then have "2 \<le> length (sub r)" "list_all2 eqRegex (drop (length (sub r) - 2) (sub r)) [dotStar 7, endText 9]"
      by (auto simp: eqSuffixRegex_def patNullEndDotStar_def numeral_2_eq_2)
    then obtain x e where "drop (length (sub r) - 2) (sub r) = [x, e]" and eq: "eqRegex x (dotStar 7)" "eqRegex e (endText 9)"
      by (auto simp: list_all2_Cons2)
    then obtain rest where sub: "sub r = rest @ [x, e]" by (metis append_take_drop_id)
    have "butlast (sub r) = rest @ [x]" by (simp add: sub butlast_append)
    then show ?thesis
      using dotStar_end_search [OF assms, of e x 7 rest] eqRegex_sem [OF eq(1), of s] eqRegex_sem [OF eq(2), of s] sub
      by (simp del: chain_Cons)
  qed
  then show ?thesis using True k search_with_sub [OF k, of s p] by (simp add: trimRight_def search_iff [of s r] sem_concat)
qed (simp add: trimRight_def)

lemma unconcat_sem:
  assumes "parts_ok r"
  shows "sem s (snd (unconcat p r)) = sem s r"
proof -
  consider x where "op r = OpConcat" "sub r = [x]" | "op r = OpConcat" "sub r = []"
    | "op r = OpRepeat" "rmin r = 1" "rmax r = 1" | "unconcat p r = (False, r)"
  proof (cases "op r = OpConcat \<and> length (sub r) \<le> 1")
    case True
    then show ?thesis using that(1,2) by (cases "sub r"; cases "tl (sub r)") auto
  next
    case False
    then show ?thesis
      using that(3,4) by (cases "op r = OpRepeat \<and> rmin r = rmax r \<and> rmin r = 1") (auto simp: unconcat_def)
  qed
  then show ?thesis
  proof cases
    case 1
    then show ?thesis using chain_single [of s x] by (simp add: unconcat_def sem_concat del: chain_Cons)
  next
    case 2
    then show ?thesis by (simp add: unconcat_def sem_concat sem.simps)
  next
    case 3
    then obtain x xs where x: "sub r = x # xs" using parts_self [OF assms] by (cases "sub r") auto
    have "{n. (1::int) \<le> int n \<and> int n \<le> 1} = {1}" by auto
    then have "sem s r = inside s (sem s x)"
      using 3 x by (cases r) (simp add: sem.simps first_def)
    also have "\<dots> = sem s x" using sem_inside [of s x] by blast
    finally show ?thesis using 3 x by (simp add: unconcat_def)
  qed simp
qed

text \<open>
  The rewriting steps of the optimizer keep what an expression finds in a line of text: removing
  captures and needless concatenations keeps its meaning, and trimming leading and trailing \<open>.*\<close>
  keeps whether it matches.
\<close>

theorem rewriting_sound:
  assumes "parts_ok r" and "one_line s"
  shows "search s (fst (snd (uncapture r p))) = search s r \<and> search s (snd (trimLeft p r)) = search s r \<and>
    search s (snd (trimRight p r)) = search s r \<and> search s (snd (unconcat p r)) = search s r"
  using uncapture_sem(1) [OF assms(1), of s p] trimLeft_search [OF assms(2), of p r] trimRight_search [OF assms(2), of p r]
    unconcat_sem [OF assms(1), of s p] by (simp add: search_def)

theorem rewriting_sound_witness:
  "search ''ab'' (snd (trimLeft 9 patNullBeginDotStar)) = search ''ab'' patNullBeginDotStar"
proof -
  have "parts_ok patNullBeginDotStar" "one_line ''ab''" by code_simp+
  from rewriting_sound [OF this] show ?thesis by blast
qed

section \<open>Whole-line matching and newlines\<close>

lemma sem_patBegin: "eqRegex b patBeginText \<Longrightarrow> sem s b = {(0, 0)}"
  using eqRegex_sem [of b patBeginText s] by (simp add: patBeginText_def)

lemma sem_patEnd: "eqRegex e patEndText \<Longrightarrow> sem s e = {(length s, length s)}"
  using eqRegex_sem [of e patEndText s] by (simp add: patEndText_def)

lemma eqPrefix_begin:
  assumes "eqPrefixRegex r patBeginText"
  shows "\<exists>b rest. sub r = b # rest \<and> sem s b = {(0, 0)}"
proof -
  have "op patBeginText \<noteq> OpConcat" by (simp add: patBeginText_def beginText_def)
  then show ?thesis using assms sem_patBegin [of _ s] by (cases "sub r") (auto simp: eqPrefixRegex_def)
qed

lemma eqSuffix_end:
  assumes "eqSuffixRegex r patEndText"
  shows "\<exists>e rest. sub r = rest @ [e] \<and> sem s e = {(length s, length s)}"
proof -
  have "op patEndText \<noteq> OpConcat" by (simp add: patEndText_def endText_def)
  then show ?thesis using assms sem_patEnd [of _ s] by (cases "sub r" rule: rev_cases) (auto simp: eqSuffixRegex_def)
qed

text \<open>Adding the begin and the end of the text to parts that lack them.\<close>

lemma anchor_begin:
  assumes "op r = OpConcat"
  shows "\<exists>ss. op (if \<not> eqPrefixRegex r patBeginText then with_sub q (patBeginText # sub r) r else r) = OpConcat \<and>
    sub (if \<not> eqPrefixRegex r patBeginText then with_sub q (patBeginText # sub r) r else r) = ss \<and>
    (\<forall>i j. (i, j) \<in> chain s ss \<longleftrightarrow> i = 0 \<and> (0, j) \<in> sem s r)"
proof (cases "eqPrefixRegex r patBeginText")
  case True
  obtain b rest where "sub r = b # rest" "sem s b = {(0, 0)}" using eqPrefix_begin [OF True] by blast
  then show ?thesis using True assms by (auto simp: sem_concat relcomp_unfold)
next
  case False
  then show ?thesis using assms by (auto simp: sem_concat relcomp_unfold patBeginText_def)
qed

lemma anchor_search: "search s (anchor p r) \<longleftrightarrow> (0, length s) \<in> sem s r"
proof (cases "op r = OpConcat")
  case False
  then show ?thesis
    using begin_end_search [of "anchor p r" patBeginText r patEndText s]
    by (simp add: anchor_def patBeginText_def patEndText_def beginText_def endText_def)
next
  case True
  define r1 where "r1 = (if \<not> eqPrefixRegex r patBeginText then with_sub (addr r) (patBeginText # sub r) r else r)"
  have k: "op r1 = OpConcat" and c: "\<And>i j. (i, j) \<in> chain s (sub r1) \<longleftrightarrow> i = 0 \<and> (0, j) \<in> sem s r"
    using anchor_begin [OF True, of "addr r" s] unfolding r1_def by blast+
  have a: "anchor p r = (if \<not> eqSuffixRegex r1 patEndText then with_sub (addr r) (sub r1 @ [patEndText]) r1 else r1)"
    using True by (simp add: anchor_def r1_def Let_def)
  show ?thesis
  proof (cases "eqSuffixRegex r1 patEndText")
    case suf: True
    obtain e rest where sub: "sub r1 = rest @ [e]" "sem s e = {(length s, length s)}" using eqSuffix_end [OF suf] by blast
    have "(i, j) \<in> chain s (sub r1) \<Longrightarrow> j = length s" for i j by (auto simp: sub chain_append)
    then show ?thesis using a suf k c by (auto simp: search_iff sem_concat)
  next
    case suf: False
    have "search s (anchor p r) \<longleftrightarrow> (\<exists>i j. (i, j) \<in> chain s (sub r1) O {(length s, length s)})"
      using a suf search_with_sub [OF k, of s "addr r"] chain_single [of s patEndText]
      by (simp add: chain_append patEndText_def del: chain_Cons)
    then show ?thesis using c by (auto simp: relcomp_unfold)
  qed
qed


text \<open>
  \<open>CompileExact\<close> anchors an expression so that it is found exactly when the expression matches the
  whole string, whatever the parts of the expression already anchor.
\<close>

theorem anchor_exact: "search s (anchor p r) \<longleftrightarrow> (0, length s) \<in> sem s r"
  by (rule anchor_search)

text \<open>
  On text with a newline the package differs from the expressions: \<open>^.*$\<close> matches exactly the texts
  without a newline, but its matcher accepts every text, and trimming \<open>^.*\<close> from the front of an
  expression makes it match in any line instead of the first.
\<close>

theorem newline_divergence:
  "compile std patAny3 = Ok matchAny \<and> MatchString matchAny s = Ok True \<and>
   (search s patAny3 \<longleftrightarrow> newline \<notin> set s) \<and>
   trimLeft p (parsedConcat q [beginText a, dotStar b, x]) = (True, parsedConcat p [dotStar b, x]) \<and>
   (search s (parsedConcat p [dotStar b, x]) \<longleftrightarrow> (\<exists>i j. (i, j) \<in> sem s x)) \<and>
   (search s (parsedConcat q [beginText a, dotStar b, x]) \<longleftrightarrow>
      (\<exists>i j. (i, j) \<in> sem s x \<and> newline \<notin> set (take i s)))"
proof (intro conjI)
  have star: "(0, k) \<in> sem s (dotStar b) \<longleftrightarrow> k \<le> length s \<and> newline \<notin> set (take k s)" for k b
    by (auto simp: sem_dotStar in_set_conv_nth)
  show "compile std patAny3 = Ok matchAny"
    by (simp add: compile_def isSubstringLiteral_def isExactLiteral_def isAltLiterals_def isOneOfLiterals_def isPrefixLiteral_def
        isPrefixAltLiterals_def isRegularLiteral_def isPrefixNumDate_def isMultiDigits_def isConcatRepetition_def isEmptyText_def
        isEmptyTextWithWhitespace_def isAnyMatch_def pattern_defs beginText_def endText_def dotStar_def eqRegex.simps)
  show "search s patAny3 \<longleftrightarrow> newline \<notin> set s"
    unfolding patAny3_def using begin_end_search [of "parsedConcat 22 [beginText 23, dotStar 24, endText 26]" _ "dotStar 24" _ s] star [of "length s" 24]
    by (simp add: beginText_def endText_def)
  show "trimLeft p (parsedConcat q [beginText a, dotStar b, x]) = (True, parsedConcat p [dotStar b, x])"
    by (simp add: trimLeft_def eqPrefixAnyRegex_def eqPrefixRegex_def patNullBeginDotStar_def eqRegex.simps
        beginText_def dotStar_def)
  have empty: "(k, k) \<in> sem s (dotStar b)" if "k \<le> length s" for k using that by (auto simp: sem_dotStar)
  have "chain s [dotStar b, x] = sem s (dotStar b) O sem s x" using chain_single [of s x] by simp
  then show "search s (parsedConcat p [dotStar b, x]) \<longleftrightarrow> (\<exists>i j. (i, j) \<in> sem s x)"
    using drop_first [OF empty sem_inside [of s x]] by (simp only: search_iff sem_parsedConcat)
  show "search s (parsedConcat q [beginText a, dotStar b, x]) \<longleftrightarrow>
      (\<exists>i j. (i, j) \<in> sem s x \<and> newline \<notin> set (take i s))"
    using sem_inside [of s x] star [of _ b]
    by (auto simp: search_iff sem_concat relcomp_unfold)
qed simp

section \<open>The interface of a matcher\<close>

text \<open>What \<open>matchAnyStrings\<close> and \<open>matchAllStrings\<close> rely on: \<open>MatchString\<close> answers on every string.\<close>

locale string_matcher =
  fixes m :: stringMatcher and finds :: "string \<Rightarrow> bool"
  assumes answers: "MatchString m s = Ok (finds s)"
begin

lemma anyLoop_spec: "anyLoop m vs = Ok (\<exists>s. Some s \<in> set vs \<and> finds s)"
proof (induction vs)
  case (Cons v vs)
  then show ?case by (cases v) (auto simp: answers)
qed simp

lemma allLoop_spec: "allLoop m vs = Ok (\<forall>s. Some s \<in> set vs \<longrightarrow> finds s)"
proof (induction vs)
  case (Cons v vs)
  then show ?case by (cases v) (auto simp: answers)
qed simp

end

interpretation equals_matcher: string_matcher "equalsMatcher l l" "\<lambda>s. l = s" for l
  by unfold_locales (simp add: matcher_defs)

interpretation substring_matcher: string_matcher "substringMatcher l l" "\<lambda>s. go_contains s l" for l
  by unfold_locales (simp add: matcher_defs)

interpretation empty_matcher: string_matcher emptyStringMatcher "\<lambda>s. s = []"
  by unfold_locales (simp add: matcher_defs)

text \<open>The strings of a value, as far as the functions look at them.\<close>

fun strings_of :: "anyval \<Rightarrow> string set" where
  "strings_of (AnySlice vs) = {s. Some s \<in> set vs}"
| "strings_of (StrSlice ss) = set ss"
| "strings_of AOther = {}"

text \<open>
  A matcher of a plain string finds it in one, or in all, of the strings of a slice, ignoring the
  elements that are no strings; an empty string is found in empty strings only.
\<close>

theorem CompileString_slices:
  "matchAnyStrings (CompileString inp) v = Ok (\<exists>s \<in> strings_of v. if inp = [] then s = [] else go_contains s inp) \<and>
   matchAllStrings (CompileString inp) v = Ok (\<not> (\<exists>s \<in> strings_of v. \<not> (if inp = [] then s = [] else go_contains s inp)))"
  by (cases v) (auto simp: CompileString_def empty_matcher.anyLoop_spec empty_matcher.allLoop_spec
      substring_matcher.anyLoop_spec substring_matcher.allLoop_spec)

end
