(* ===== verification/Match_Optimize.thy ===== *)
theory Match_Optimize
  imports Match_Laws
begin

unbundle bit_operations_syntax

text \<open>
  The rest of the optimizer (src/match/optimize.go): merging of repeated parts, flattening of nested repetitions,
  and the loop over all transformations, with the functions that compile a pattern (src/match/matcher.go).

  \<open>flattenRepetition\<close> writes into the arrays of the nodes it visits, and nodes are shared, since a
  repetition holds the same node several times. It is modelled on a store of nodes and arrays: two nodes may
  have slices of one array. The other steps only allocate nodes and are functions on trees whose nodes carry
  their addresses, and an append there makes a new array. When a step begins each node has an array of its own. Simplification and parsing are
  those of \<open>regexp/syntax\<close> and are arguments.
\<close>

section \<open>Merging repeated parts\<close>

text \<open>
  The loop over neighbours \<open>subs[i]\<close> and \<open>subs[j]\<close>; a merged pair is stepped over, and the last part is kept if it has not been
  merged. \<open>p\<close> is the next free address.
\<close>

fun mergeParts :: "regexp list \<Rightarrow> nat \<Rightarrow> (unit, bool \<times> regexp list \<times> nat) outcome" where
  "mergeParts [] p = Ok (False, [], p)"
| "mergeParts [x] p = Ok (False, [x], p)"
| "mergeParts (x # y # rest) p =
     (if op x = OpRepeat \<and> sub x = [] then Panic
      else if op x = OpRepeat \<and> eqRegex (hd (sub x)) y then
        bind_outcome (mergeParts rest (p + 1)) (\<lambda>(_, ms, p').
          Ok (True, Regexp p OpRepeat (flags x) (sub x) [] (rmin x + 1) (rmax x + 1) # ms, p'))
      else
        bind_outcome (isConcatRepetition x) (\<lambda>rep.
          if rep \<and> eqRegex (hd (sub x)) y then
            bind_outcome (mergeParts rest (p + 1)) (\<lambda>(_, ms, p').
              Ok (True, Regexp p OpConcat (flags x) (sub x @ [hd (sub x)]) [] 0 0 # ms, p'))
          else if eqRegex x y then
            bind_outcome (mergeParts rest (p + 1)) (\<lambda>(_, ms, p').
              Ok (True, Regexp p OpRepeat (flags x) [x] [] 2 2 # ms, p'))
          else
            bind_outcome (mergeParts (y # rest) p) (\<lambda>(c, ms, p'). Ok (c, x # ms, p'))))"

fun concatRepetition :: "regexp \<Rightarrow> nat \<Rightarrow> (unit, bool \<times> regexp \<times> nat) outcome"
and concatRepetitions :: "regexp list \<Rightarrow> nat \<Rightarrow> (unit, bool \<times> regexp list \<times> nat) outcome" where
  "concatRepetition (Regexp a k fl ss rs mn mx) p =
     (if k \<noteq> OpConcat then Ok (False, Regexp a k fl ss rs mn mx, p)
      else
        bind_outcome (isConcatRepetition (Regexp a k fl ss rs mn mx)) (\<lambda>rep.
          if rep then Ok (False, Regexp a k fl ss rs mn mx, p)
          else
            bind_outcome (concatRepetitions ss p) (\<lambda>(changed, subs, p1).
              bind_outcome (mergeParts subs p1) (\<lambda>(merged, ms, p2).
                Ok (changed \<or> merged, Regexp p2 OpConcat fl ms [] 0 0, p2 + 1)))))"
| "concatRepetitions [] p = Ok (False, [], p)"
| "concatRepetitions (r # rs) p =
     bind_outcome (concatRepetition r p) (\<lambda>(c, r', p').
       bind_outcome (concatRepetitions rs p') (\<lambda>(cs, rs', p''). Ok (c \<or> cs, r' # rs', p'')))"

section \<open>Flattening nested repetitions\<close>

text \<open>
  The store: a node has the first \<open>hlen\<close> elements of an array as its parts. An array is named by the
  address of the node it was made for.
\<close>

record hnode =
  hop :: rop
  hflags :: nat
  harr :: nat
  hlen :: nat
  hrunes :: "nat list"
  hmin :: int
  hmax :: int

record store =
  hnodes :: "nat \<Rightarrow> hnode option"
  harrays :: "nat \<Rightarrow> nat list"
  hnext :: nat

definition nodeOf :: "regexp \<Rightarrow> hnode" where
  "nodeOf x = \<lparr>hop = op x, hflags = flags x, harr = addr x, hlen = length (sub x), hrunes = runes x, hmin = rmin x, hmax = rmax x\<rparr>"

definition storeOf :: "regexp \<Rightarrow> nat \<Rightarrow> store" where
  "storeOf r p =
     \<lparr>hnodes = map_of (map (\<lambda>x. (addr x, nodeOf x)) (nodes r)),
      harrays = (\<lambda>a. case map_of (map (\<lambda>x. (addr x, map addr (sub x))) (nodes r)) a of Some as \<Rightarrow> as | None \<Rightarrow> []),
      hnext = p\<rparr>"

definition parts :: "store \<Rightarrow> hnode \<Rightarrow> nat list" where
  "parts h x = take (hlen x) (harrays h (harr x))"

definition allocNode :: "hnode \<Rightarrow> store \<Rightarrow> store" where
  "allocNode x h = h\<lparr>hnodes := (hnodes h)(hnext h \<mapsto> x), hnext := hnext h + 1\<rparr>"

definition writePart :: "hnode \<Rightarrow> nat \<Rightarrow> nat \<Rightarrow> store \<Rightarrow> store" where
  "writePart x i b h = h\<lparr>harrays := (harrays h)(harr x := (harrays h (harr x))[i := b])\<rparr>"

text \<open>The tree below a node, up to a depth.\<close>

fun readTree :: "nat \<Rightarrow> store \<Rightarrow> nat \<Rightarrow> regexp" where
  "readTree 0 h a = Regexp a OpNoMatch 0 [] [] 0 0"
| "readTree (Suc n) h a =
     (case hnodes h a of
        None \<Rightarrow> Regexp a OpNoMatch 0 [] [] 0 0
      | Some x \<Rightarrow> Regexp a (hop x) (hflags x) (map (readTree n h) (parts h x)) (hrunes x) (hmin x) (hmax x))"

text \<open>The result of a step on the store, None when the depth is used up.\<close>

type_synonym hresult = "(unit, bool \<times> nat \<times> store) outcome option"

text \<open>\<open>isConcatRepetition\<close> on the store.\<close>

definition repeats :: "store \<Rightarrow> hnode \<Rightarrow> (unit, bool) outcome" where
  "repeats h x =
     (if hop x \<noteq> OpConcat then Ok False
      else (case parts h x of [] \<Rightarrow> Panic | b # bs \<Rightarrow> Ok (list_all (\<lambda>other. other = b) (b # bs))))"

text \<open>The loop over the parts with the given indices, \<open>flatten\<close> being the recursive call.\<close>

fun flattenParts :: "(nat \<Rightarrow> store \<Rightarrow> hresult) \<Rightarrow> hnode \<Rightarrow> nat list \<Rightarrow> bool \<Rightarrow> store \<Rightarrow> (unit, bool \<times> store) outcome option" where
  "flattenParts flatten x [] changed h = Some (Ok (changed, h))"
| "flattenParts flatten x (i # is) changed h =
     (case flatten (harrays h (harr x) ! i) h of
        None \<Rightarrow> None
      | Some (Ok (upd, tmp, h')) \<Rightarrow> flattenParts flatten x is (changed \<or> upd) (writePart x i tmp h')
      | Some (Err e) \<Rightarrow> Some (Err e)
      | Some Panic \<Rightarrow> Some Panic)"

text \<open>What follows the loop: the copy of the node shares its array, and in a repetition every part becomes the first.\<close>

definition fixParts :: "nat \<Rightarrow> hnode \<Rightarrow> bool \<Rightarrow> bool \<times> store \<Rightarrow> bool \<times> nat \<times> store" where
  "fixParts a x inRepetition res =
     (case res of (changed, h) \<Rightarrow>
        if \<not> changed then (False, a, h)
        else
          (let h' = (if inRepetition then fold (\<lambda>i h. writePart x i (harrays h (harr x) ! 0) h) [0..<hlen x] h else h)
           in (True, hnext h', allocNode x h')))"

fun flattenNode :: "nat \<Rightarrow> nat \<Rightarrow> store \<Rightarrow> hresult" where
  "flattenNode 0 a h = None"
| "flattenNode (Suc n) a h =
     (case hnodes h a of
        None \<Rightarrow> Some Panic
      | Some x \<Rightarrow>
          if hop x \<noteq> OpConcat then Some (Ok (False, a, h))
          else
            (case repeats h x of
               Ok inRepetition \<Rightarrow>
                 (let s = hd (parts h x) in
                  case (if inRepetition then (case hnodes h s of None \<Rightarrow> Panic | Some y \<Rightarrow> bind_outcome (repeats h y) (\<lambda>b. Ok (b, y))) else Ok (False, x)) of
                    Ok (True, y) \<Rightarrow>
                      (let count = int (hlen y * hlen x) in
                       Some (Ok (True, hnext h,
                         allocNode \<lparr>hop = OpRepeat, hflags = hflags x OR hflags y, harr = harr y, hlen = 1, hrunes = [],
                                    hmin = count, hmax = count\<rparr> h)))
                  | Ok (False, _) \<Rightarrow>
                      (case flattenParts (flattenNode n) x [0..<if inRepetition then 1 else hlen x] False h of
                         None \<Rightarrow> None
                       | Some (Ok res) \<Rightarrow> Some (Ok (fixParts a x inRepetition res))
                       | Some (Err e) \<Rightarrow> Some (Err e)
                       | Some Panic \<Rightarrow> Some Panic)
                  | Err e \<Rightarrow> Some (Err e)
                  | Panic \<Rightarrow> Some Panic)
             | Err e \<Rightarrow> Some (Err e)
             | Panic \<Rightarrow> Some Panic))"

text \<open>
  On trees; the size of the expression is depth enough, so that the depth is never used up.
\<close>

definition flattenRepetition :: "regexp \<Rightarrow> nat \<Rightarrow> (unit, bool \<times> regexp \<times> nat) outcome" where
  "flattenRepetition r p =
     (case flattenNode (Suc (size r)) (addr r) (storeOf r p) of
        Some (Ok (upd, a, h)) \<Rightarrow> Ok (upd, readTree (Suc (size r)) h a, hnext h)
      | _ \<Rightarrow> Panic)"

section \<open>All transformations\<close>

type_synonym trans = "regexp \<Rightarrow> nat \<Rightarrow> (unit, bool \<times> regexp \<times> nat) outcome"

text \<open>A step that allocates at most one node.\<close>

abbreviation step1 :: "(nat \<Rightarrow> regexp \<Rightarrow> bool \<times> regexp) \<Rightarrow> trans" where
  "step1 f r p \<equiv> (case f p r of (upd, r') \<Rightarrow> Ok (upd, r', p + 1))"

definition simplify :: "(regexp \<Rightarrow> nat \<Rightarrow> regexp \<times> nat) \<Rightarrow> trans" where
  "simplify Simplify r p = (case Simplify r p of (r', p') \<Rightarrow> Ok (False, r', p'))"

definition transformations :: "(regexp \<Rightarrow> nat \<Rightarrow> regexp \<times> nat) \<Rightarrow> trans list" where
  "transformations Simplify =
     [simplify Simplify, \<lambda>r p. Ok (uncapture r p), step1 trimLeft, step1 trimRight, step1 unconcat, concatRepetition,
      flattenRepetition]"

text \<open>One round of the loop of \<open>optimize\<close>.\<close>

fun applyAll :: "trans list \<Rightarrow> bool \<Rightarrow> regexp \<Rightarrow> nat \<Rightarrow> (unit, bool \<times> regexp \<times> nat) outcome" where
  "applyAll [] changed r p = Ok (changed, r, p)"
| "applyAll (t # ts) changed r p = bind_outcome (t r p) (\<lambda>(upd, r', p'). applyAll ts (changed \<or> upd) r' p')"

partial_function (option) optimize :: "(regexp \<Rightarrow> nat \<Rightarrow> regexp \<times> nat) \<Rightarrow> regexp \<Rightarrow> nat \<Rightarrow> (unit, regexp \<times> nat) outcome option" where
  "optimize Simplify r p =
     (case applyAll (transformations Simplify) False r p of
        Ok (changed, r', p') \<Rightarrow> if changed then optimize Simplify r' p' else Some (Ok (r', p'))
      | Err e \<Rightarrow> Some (Err e)
      | Panic \<Rightarrow> Some Panic)"

section \<open>Compiling a pattern\<close>

text \<open>
  What is used of the standard library: the parser with the next free address, simplification, and its own
  matcher. The result is None when the loop of \<open>optimize\<close> does not end.
\<close>

record regexpLib =
  Parse :: "string \<Rightarrow> (regexp \<times> nat) option"
  SimplifyR :: "regexp \<Rightarrow> nat \<Rightarrow> regexp \<times> nat"
  stdCompile :: "regexp \<Rightarrow> (string \<Rightarrow> bool) option"

definition compileOptimized :: "regexpLib \<Rightarrow> regexp \<Rightarrow> nat \<Rightarrow> (unit, stringMatcher) outcome option" where
  "compileOptimized L r p =
     (case optimize (SimplifyR L) r p of
        None \<Rightarrow> None
      | Some (Ok (r', p')) \<Rightarrow> Some (compile (stdCompile L) (fst (SimplifyR L r' p')))
      | Some (Err e) \<Rightarrow> Some (Err e)
      | Some Panic \<Rightarrow> Some Panic)"

definition Compile :: "regexpLib \<Rightarrow> string \<Rightarrow> (unit, stringMatcher) outcome option" where
  "Compile L pattern =
     (case Parse L pattern of None \<Rightarrow> Some (Err ()) | Some (r, p) \<Rightarrow> compileOptimized L r p)"

definition CompileExact :: "regexpLib \<Rightarrow> string \<Rightarrow> (unit, stringMatcher) outcome option" where
  "CompileExact L pattern =
     (case Parse L pattern of
        None \<Rightarrow> Some (Err ())
      | Some (r, p) \<Rightarrow> (case SimplifyR L r p of (r1, p1) \<Rightarrow> compileOptimized L (anchor p1 r1) (p1 + 1)))"

text \<open>An error becomes a panic; so does it in \<open>MustCompileExact\<close>.\<close>

definition mustCompile :: "(unit, stringMatcher) outcome option \<Rightarrow> (unit, stringMatcher) outcome option" where
  "mustCompile res = (case res of Some (Err _) \<Rightarrow> Some Panic | _ \<Rightarrow> res)"

definition MustCompile :: "regexpLib \<Rightarrow> string \<Rightarrow> (unit, stringMatcher) outcome option" where
  "MustCompile L pattern = mustCompile (Compile L pattern)"

definition MustCompileExact :: "regexpLib \<Rightarrow> string \<Rightarrow> (unit, stringMatcher) outcome option" where
  "MustCompileExact L pattern = mustCompile (CompileExact L pattern)"

text \<open>\<open>Unpack\<close> replaces the matcher only when the pattern compiles; None is the zero matcher.\<close>

definition unpackWith ::
  "(unit, stringMatcher) outcome option \<Rightarrow> stringMatcher option \<Rightarrow> (stringMatcher option \<times> (unit, unit) outcome) option" where
  "unpackWith res m =
     (case res of
        None \<Rightarrow> None
      | Some (Ok tmp) \<Rightarrow> Some (Some tmp, Ok ())
      | Some (Err e) \<Rightarrow> Some (m, Err e)
      | Some Panic \<Rightarrow> Some (m, Panic))"

definition Matcher_Unpack ::
  "regexpLib \<Rightarrow> string \<Rightarrow> stringMatcher option \<Rightarrow> (stringMatcher option \<times> (unit, unit) outcome) option" where
  "Matcher_Unpack L s m = unpackWith (Compile L s) m"

definition ExactMatcher_Unpack ::
  "regexpLib \<Rightarrow> string \<Rightarrow> stringMatcher option \<Rightarrow> (stringMatcher option \<times> (unit, unit) outcome) option" where
  "ExactMatcher_Unpack L s m = unpackWith (CompileExact L s) m"

end
