(* ===== verification/Match_Optimize_Laws.thy ===== *)
theory Match_Optimize_Laws
  imports Match_Optimize
begin

text \<open>
  One round of the optimizer keeps what an expression finds, and what is known of its nodes: an address
  is of one node, and nodes have the parts their kind needs.
\<close>

section \<open>Nodes that a step keeps and makes\<close>

definition nodesOf :: "regexp list \<Rightarrow> regexp set" where
  "nodesOf xs = (\<Union>x \<in> set xs. set (nodes x))"

lemma nodesOf_simps [simp]:
  "nodesOf [] = {}" "nodesOf (x # xs) = set (nodes x) \<union> nodesOf xs" "nodesOf (xs @ ys) = nodesOf xs \<union> nodesOf ys"
  by (auto simp: nodesOf_def)

lemma nodesOf_mono: "set xs \<subseteq> set ys \<Longrightarrow> nodesOf xs \<subseteq> nodesOf ys"
  by (auto simp: nodesOf_def)

lemma nodes_unfold: "set (nodes (Regexp a k fl ss rs mn mx)) = insert (Regexp a k fl ss rs mn mx) (nodesOf ss)"
  by (auto simp: nodesOf_def)

declare nodes.simps [simp del]

definition okNode :: "regexp \<Rightarrow> bool" where
  "okNode x \<longleftrightarrow>
     (op x = OpConcat \<longrightarrow> sub x \<noteq> []) \<and> (op x = OpLiteral \<longrightarrow> list_all (\<lambda>n. n < 128) (runes x)) \<and>
     (op x = OpCapture \<longrightarrow> length (sub x) = 1) \<and> (op x = OpRepeat \<longrightarrow> sub x \<noteq> [])"

text \<open>Well-formed trees with nodes below an address that satisfy a predicate.\<close>

definition okTrees :: "(regexp \<Rightarrow> bool) \<Rightarrow> regexp list \<Rightarrow> nat \<Rightarrow> bool" where
  "okTrees Q xs p \<longleftrightarrow>
     (\<forall>x \<in> nodesOf xs. Q x \<and> addr x < p) \<and> (\<forall>x \<in> nodesOf xs. \<forall>y \<in> nodesOf xs. addr x = addr y \<longrightarrow> x = y)"

text \<open>The nodes of \<open>ys\<close> are nodes of \<open>xs\<close>, or new ones with addresses from \<open>p\<close> up to \<open>p'\<close>.\<close>

definition derived :: "(regexp \<Rightarrow> bool) \<Rightarrow> regexp list \<Rightarrow> nat \<Rightarrow> regexp list \<Rightarrow> nat \<Rightarrow> bool" where
  "derived Q xs p ys p' \<longleftrightarrow>
     p \<le> p' \<and> (\<forall>y \<in> nodesOf ys. y \<in> nodesOf xs \<or> p \<le> addr y \<and> addr y < p' \<and> Q y) \<and>
     (\<forall>x \<in> nodesOf ys. \<forall>y \<in> nodesOf ys. p \<le> addr x \<and> addr x = addr y \<longrightarrow> x = y)"

definition below :: "regexp list \<Rightarrow> nat \<Rightarrow> bool" where
  "below xs p \<longleftrightarrow> (\<forall>x \<in> nodesOf xs. addr x < p)"

lemma okTrees_below: "okTrees Q xs p \<Longrightarrow> below xs p"
  by (simp add: okTrees_def below_def)

lemma below_mono: "below xs p \<Longrightarrow> p \<le> p' \<Longrightarrow> below xs p'"
  by (force simp: below_def)

lemma derived_ok:
  assumes "okTrees Q xs p" and "derived Q xs p ys p'"
  shows "okTrees Q ys p'"
proof -
  have b: "p \<le> p'" and old: "y \<in> nodesOf xs \<or> p \<le> addr y \<and> addr y < p' \<and> Q y" if "y \<in> nodesOf ys" for y
    using assms(2) that unfolding derived_def by blast+
  have "x = y" if "x \<in> nodesOf ys" "y \<in> nodesOf ys" "addr x = addr y" for x y
  proof (cases "p \<le> addr x")
    case True
    then show ?thesis using assms(2) that unfolding derived_def by blast
  next
    case False
    then have "x \<in> nodesOf xs" "y \<in> nodesOf xs" using old [OF that(1)] old [OF that(2)] that(3) by auto
    then show ?thesis using assms(1) that(3) unfolding okTrees_def by blast
  qed
  moreover have "Q y \<and> addr y < p'" if "y \<in> nodesOf ys" for y
    using old [OF that] b [OF that] assms(1) unfolding okTrees_def by fastforce
  ultimately show ?thesis unfolding okTrees_def by blast
qed

lemma derived_weaken: "derived Q xs p ys p' \<Longrightarrow> (\<And>x. Q x \<Longrightarrow> Q' x) \<Longrightarrow> nodesOf xs \<subseteq> nodesOf xs' \<Longrightarrow> derived Q' xs' p ys p'"
  unfolding derived_def by blast

lemma derived_below: "below xs p \<Longrightarrow> derived Q xs p ys p' \<Longrightarrow> below ys p'"
  unfolding derived_def below_def by fastforce

lemma derived_refl: "below xs p \<Longrightarrow> derived Q xs p xs p"
  unfolding derived_def below_def by fastforce

lemma derived_part: "below xs p \<Longrightarrow> nodesOf ys \<subseteq> nodesOf xs \<Longrightarrow> p \<le> p' \<Longrightarrow> derived Q xs p ys p'"
  unfolding derived_def below_def by fastforce

lemma derived_trans:
  assumes "derived Q xs p ys p1" and "derived Q ys p1 zs p2" and "below xs p"
  shows "derived Q xs p zs p2"
proof -
  have p: "p \<le> p1" "p1 \<le> p2" using assms unfolding derived_def by blast+
  have zs: "z \<in> nodesOf ys \<or> p1 \<le> addr z \<and> addr z < p2 \<and> Q z" if "z \<in> nodesOf zs" for z
    using assms(2) that unfolding derived_def by blast
  have ys: "y \<in> nodesOf xs \<or> p \<le> addr y \<and> addr y < p1 \<and> Q y" if "y \<in> nodesOf ys" for y
    using assms(1) that unfolding derived_def by blast
  have "x = y" if "x \<in> nodesOf zs" "y \<in> nodesOf zs" "p \<le> addr x" "addr x = addr y" for x y
  proof (cases "p1 \<le> addr x")
    case True
    then show ?thesis using assms(2) that unfolding derived_def by blast
  next
    case False
    then have "x \<in> nodesOf ys" "y \<in> nodesOf ys" using zs [OF that(1)] zs [OF that(2)] that(4) by auto
    then show ?thesis using assms(1) that(3,4) unfolding derived_def by blast
  qed
  moreover have "z \<in> nodesOf xs \<or> p \<le> addr z \<and> addr z < p2 \<and> Q z" if "z \<in> nodesOf zs" for z
    using zs [OF that] ys [of z] p by fastforce
  ultimately show ?thesis using p unfolding derived_def by auto
qed

lemma derived_append:
  assumes "derived Q xs p ys p1" and "derived Q xs' p1 ys' p2" and "below xs p" and "below xs' p"
  shows "derived Q (xs @ xs') p (ys @ ys') p2"
proof -
  have p: "p \<le> p1" "p1 \<le> p2" using assms unfolding derived_def by blast+
  have one: "y \<in> nodesOf xs \<or> p \<le> addr y \<and> addr y < p1 \<and> Q y" if "y \<in> nodesOf ys" for y
    using assms(1) that unfolding derived_def by blast
  have two: "y \<in> nodesOf xs' \<or> p1 \<le> addr y \<and> addr y < p2 \<and> Q y" if "y \<in> nodesOf ys'" for y
    using assms(2) that unfolding derived_def by blast
  have apart: False if "x \<in> nodesOf ys" "y \<in> nodesOf ys'" "p \<le> addr x" "addr x = addr y" for x y
    using one [OF that(1)] two [OF that(2)] that(3,4) assms(3,4) unfolding below_def by force
  have first: "x = y" if "x \<in> nodesOf ys" "y \<in> nodesOf ys" "p \<le> addr x" "addr x = addr y" for x y
    using assms(1) that unfolding derived_def by blast
  have second: "x = y" if "x \<in> nodesOf ys'" "y \<in> nodesOf ys'" "p \<le> addr x" "addr x = addr y" for x y
  proof (cases "p1 \<le> addr x")
    case True
    then show ?thesis using assms(2) that unfolding derived_def by blast
  next
    case False
    then show ?thesis using two [OF that(1)] that(3) assms(4) unfolding below_def by force
  qed
  have "x = y" if xy: "x \<in> nodesOf (ys @ ys')" "y \<in> nodesOf (ys @ ys')" "p \<le> addr x" "addr x = addr y" for x y
  proof -
    consider "x \<in> nodesOf ys" "y \<in> nodesOf ys" | "x \<in> nodesOf ys'" "y \<in> nodesOf ys'"
      | "x \<in> nodesOf ys" "y \<in> nodesOf ys'" | "x \<in> nodesOf ys'" "y \<in> nodesOf ys"
      using xy(1,2) by auto
    then show ?thesis
    proof cases
      case 1
      then show ?thesis using first [OF _ _ xy(3,4)] by blast
    next
      case 2
      then show ?thesis using second [OF _ _ xy(3,4)] by blast
    next
      case 3
      then show ?thesis using apart [OF _ _ xy(3,4)] by blast
    next
      case 4
      then show ?thesis using apart [OF 4(2,1)] xy(3,4) by metis
    qed
  qed
  moreover have "y \<in> nodesOf (xs @ xs') \<or> p \<le> addr y \<and> addr y < p2 \<and> Q y" if "y \<in> nodesOf (ys @ ys')" for y
    using that one [of y] two [of y] p by fastforce
  ultimately show ?thesis using p unfolding derived_def by auto
qed


lemma derived_node:
  assumes "derived Q xs p ys p1" and "below xs p" and "Q (Regexp p1 k fl ys rs mn mx)"
  shows "derived Q xs p [Regexp p1 k fl ys rs mn mx] (p1 + 1)"
proof -
  have p: "p \<le> p1" using assms(1) by (simp add: derived_def)
  have lt: "addr y < p1" if "y \<in> nodesOf ys" for y
    using derived_below [OF assms(2,1)] that by (simp add: below_def)
  show ?thesis
    unfolding derived_def nodesOf_simps nodes_unfold Un_empty_right
  proof (intro conjI ballI impI)
    fix y
    assume "y \<in> insert (Regexp p1 k fl ys rs mn mx) (nodesOf ys)"
    then show "y \<in> nodesOf xs \<or> p \<le> addr y \<and> addr y < p1 + 1 \<and> Q y"
      using assms(1,3) p lt unfolding derived_def by fastforce
  next
    fix x y
    assume "x \<in> insert (Regexp p1 k fl ys rs mn mx) (nodesOf ys)" "y \<in> insert (Regexp p1 k fl ys rs mn mx) (nodesOf ys)"
      "p \<le> addr x \<and> addr x = addr y"
    then show "x = y" using assms(1) lt unfolding derived_def by fastforce
  qed (use p in simp)
qed


section \<open>Merging\<close>

lemma okTrees_self: "okTrees Q (x # xs) p \<Longrightarrow> Q x"
  using self_node [of x] by (auto simp: okTrees_def)

lemma okTrees_sub: "okTrees Q xs p \<Longrightarrow> nodesOf ys \<subseteq> nodesOf xs \<Longrightarrow> okTrees Q ys p"
  unfolding okTrees_def by blast

lemma sub_nodesOf: "nodesOf (sub x) \<subseteq> set (nodes x)"
  by (cases x) (auto simp: nodes_unfold)

lemma okTrees_mono: "okTrees Q xs p \<Longrightarrow> p \<le> p' \<Longrightarrow> okTrees Q xs p'"
  unfolding okTrees_def by fastforce

lemma isConcatRepetition_ok: "okNode x \<Longrightarrow> \<exists>b. isConcatRepetition x = Ok b \<and> (b \<longrightarrow> op x = OpConcat \<and> sub x \<noteq> [])"
  by (cases "sub x") (auto simp: isConcatRepetition_def okNode_def)

lemma sem_repeat2: "sem s (Regexp a OpRepeat fl [x] rs 2 2) = sem s x O sem s x"
proof -
  have "{n. (2::int) \<le> int n \<and> int n \<le> 2} = {2}" by auto
  then have "sem s (Regexp a OpRepeat fl [x] rs 2 2) = inside s (sem s x O sem s x)"
    by (simp add: sem.simps first_def numeral_2_eq_2)
  also have "\<dots> = sem s x O sem s x" using sem_inside [of s x] by blast
  finally show ?thesis .
qed

lemma sem_concatNode: "sem s (Regexp a OpConcat fl ss rs mn mx) = chain s ss"
  using sem_concat [of "Regexp a OpConcat fl ss rs mn mx" s] by simp

lemma chain_inside_Id: "sem s x O inside s Id = sem s x"
  using sem_inside [of s x] by auto

text \<open>A merged pair is one new node, made of parts of the first.\<close>

lemma merged_node:
  assumes "okTrees okNode (x # y # rest) p" and "set ss \<subseteq> insert x (set (sub x))" and "okNode (Regexp p k fl ss rs mn mx)"
  shows "derived okNode [x, y] p [Regexp p k fl ss rs mn mx] (p + 1)"
proof -
  have b: "below [x, y] p" using okTrees_below [OF assms(1)] by (auto simp: below_def)
  have "nodesOf ss \<subseteq> nodesOf [x, y]" using nodesOf_mono [OF assms(2) [folded list.set(2)]] sub_nodesOf [of x] by auto
  then have "derived okNode [x, y] p ss p" using b by (intro derived_part) simp_all
  from derived_node [OF this b assms(3)] show ?thesis .
qed

lemma mergeParts_ok:
  assumes "okTrees okNode xs p" and "\<forall>x \<in> set xs. op x \<noteq> OpRepeat"
  shows "\<exists>c ys p'. mergeParts xs p = Ok (c, ys, p') \<and> derived okNode xs p ys p' \<and> (xs \<noteq> [] \<longrightarrow> ys \<noteq> []) \<and>
    (\<forall>s. chain s ys = chain s xs)"
  using assms
proof (induction xs p rule: mergeParts.induct)
  case (3 x y rest p)
  have ok: "okNode x" using okTrees_self [OF 3(5)] .
  have nr: "op x \<noteq> OpRepeat" using 3(6) by simp
  obtain b where rep: "isConcatRepetition x = Ok b" "b \<Longrightarrow> op x = OpConcat \<and> sub x \<noteq> []"
    using isConcatRepetition_ok [OF ok] by blast
  have merge: "\<exists>c ys p'. bind_outcome (mergeParts rest (p + 1)) (\<lambda>(_, ms, p'). Ok (True, nw # ms, p')) = Ok (c, ys, p') \<and>
      derived okNode (x # y # rest) p ys p' \<and> ys \<noteq> [] \<and> (\<forall>s. chain s ys = chain s (x # y # rest))"
    if nw: "derived okNode [x, y] p [nw] (p + 1)" "\<And>s. sem s nw = sem s x O sem s y"
      and IH: "\<exists>c ys p'. mergeParts rest (p + 1) = Ok (c, ys, p') \<and> derived okNode rest (p + 1) ys p' \<and> (\<forall>s. chain s ys = chain s rest)" for nw
  proof -
    obtain c ys p' where m: "mergeParts rest (p + 1) = Ok (c, ys, p')" "derived okNode rest (p + 1) ys p'" "\<And>s. chain s ys = chain s rest"
      using IH by blast
    have "below [x, y] p" "below rest p" using okTrees_below [OF 3(5)] by (auto simp: below_def)
    from derived_append [OF nw(1) m(2) this] have "derived okNode (x # y # rest) p (nw # ys) p'" by simp
    then show ?thesis using m nw(2) by (auto simp: O_assoc)
  qed
  have rest: "okTrees okNode rest (p + 1)" by (rule okTrees_mono [OF okTrees_sub [OF 3(5)]]) auto
  show ?case
  proof (cases "b \<and> eqRegex (hd (sub x)) y")
    case True
    then have x: "op x = OpConcat" "sub x \<noteq> []" using rep(2) by simp_all
    let ?nw = "Regexp p OpConcat (flags x) (sub x @ [hd (sub x)]) [] 0 0"
    have "derived okNode [x, y] p [?nw] (p + 1)" using x by (intro merged_node [OF 3(5)]) (auto simp: okNode_def)
    moreover have "sem s ?nw = sem s x O sem s y" for s
      using True eqRegex_sem [of "hd (sub x)" y s] sem_concat [OF x(1), of s]
      by (simp add: sem_concatNode chain_append chain_inside_Id del: chain_Cons add: chain_single)
    moreover have "mergeParts (x # y # rest) p = bind_outcome (mergeParts rest (p + 1)) (\<lambda>(_, ms, p'). Ok (True, ?nw # ms, p'))"
      using True nr rep(1) by simp
    moreover have "\<exists>c ys p'. mergeParts rest (p + 1) = Ok (c, ys, p') \<and> derived okNode rest (p + 1) ys p' \<and> (\<forall>s. chain s ys = chain s rest)"
      using 3(2) [OF _ _ rep(1) True rest] nr 3(6) by auto
    ultimately show ?thesis using merge [of ?nw] by (simp only: simp_thms list.distinct)
  next
    case False
    show ?thesis
    proof (cases "eqRegex x y")
      case True
      let ?nw = "Regexp p OpRepeat (flags x) [x] [] 2 2"
      have "derived okNode [x, y] p [?nw] (p + 1)" by (intro merged_node [OF 3(5)]) (auto simp: okNode_def)
      moreover have "sem s ?nw = sem s x O sem s y" for s
        using eqRegex_sem [OF True, of s] by (simp add: sem_repeat2)
      moreover have "mergeParts (x # y # rest) p = bind_outcome (mergeParts rest (p + 1)) (\<lambda>(_, ms, p'). Ok (True, ?nw # ms, p'))"
        using True False nr rep(1) by auto
      moreover have "\<exists>c ys p'. mergeParts rest (p + 1) = Ok (c, ys, p') \<and> derived okNode rest (p + 1) ys p' \<and> (\<forall>s. chain s ys = chain s rest)"
        using 3(3) [OF _ _ rep(1) False True rest] nr 3(6) by auto
      ultimately show ?thesis using merge [of ?nw] by (simp only: simp_thms list.distinct)
    next
      case ne: False
      have "okTrees okNode (y # rest) p" by (rule okTrees_sub [OF 3(5)]) auto
      then obtain c ys p' where m: "mergeParts (y # rest) p = Ok (c, ys, p')" "derived okNode (y # rest) p ys p'"
          "\<And>s. chain s ys = chain s (y # rest)"
        using 3(4) [OF _ _ rep(1) False ne] nr 3(6) by auto
      have "below [x] p" "below (y # rest) p" using okTrees_below [OF 3(5)] by (auto simp: below_def)
      from derived_append [OF derived_refl [OF this(1)] m(2) this] have "derived okNode (x # y # rest) p (x # ys) p'" by simp
      then show ?thesis using m nr rep(1) False ne by auto
    qed
  qed
qed (auto intro: derived_refl okTrees_below)


text \<open>Nodes without counted repetitions, as simplification leaves them.\<close>

definition plainNode :: "regexp \<Rightarrow> bool" where
  "plainNode x \<longleftrightarrow> okNode x \<and> op x \<noteq> OpRepeat"

lemma plain_ok: "okTrees plainNode xs p \<Longrightarrow> okTrees okNode xs p"
  by (auto simp: okTrees_def plainNode_def)

lemma concatRepetition_ok:
  "okTrees plainNode [r] p \<Longrightarrow> \<exists>c r' p'. concatRepetition r p = Ok (c, r', p') \<and> derived okNode [r] p [r'] p' \<and>
     op r' \<noteq> OpRepeat \<and> (\<forall>s. sem s r' = sem s r)"
  "okTrees plainNode rs p \<Longrightarrow> \<exists>c rs' p'. concatRepetitions rs p = Ok (c, rs', p') \<and> derived okNode rs p rs' p' \<and>
     (\<forall>x \<in> set rs'. op x \<noteq> OpRepeat) \<and> (\<forall>s. map (sem s) rs' = map (sem s) rs)"
proof (induction r p and rs p rule: concatRepetition_concatRepetitions.induct)
  case (1 a k fl ss rs mn mx p)
  let ?r = "Regexp a k fl ss rs mn mx"
  have b: "below [?r] p" using okTrees_below [OF 1(2)] .
  have ok: "okNode ?r" "k \<noteq> OpRepeat" using okTrees_self [OF 1(2)] by (simp_all add: plainNode_def)
  show ?case
  proof (cases "k \<noteq> OpConcat \<or> isConcatRepetition ?r = Ok True")
    case True
    then show ?thesis using derived_refl [OF b] ok by auto
  next
    case False
    then have k: "k = OpConcat" and rep: "isConcatRepetition ?r = Ok False" and ss: "ss \<noteq> []"
      using isConcatRepetition_ok [OF ok(1)] ok(1) by (auto simp: okNode_def)
    have "okTrees plainNode ss p" by (rule okTrees_sub [OF 1(2)]) (auto simp: nodes_unfold)
    then obtain c subs p1 where c: "concatRepetitions ss p = Ok (c, subs, p1)" "derived okNode ss p subs p1"
        "\<forall>x \<in> set subs. op x \<noteq> OpRepeat" "\<And>s. map (sem s) subs = map (sem s) ss"
      using 1(1) [of False] k rep by auto
    have okss: "okTrees okNode ss p" using plain_ok \<open>okTrees plainNode ss p\<close> .
    obtain m ms p2 where m: "mergeParts subs p1 = Ok (m, ms, p2)" "derived okNode subs p1 ms p2" "subs \<noteq> [] \<longrightarrow> ms \<noteq> []"
        "\<And>s. chain s ms = chain s subs"
      using mergeParts_ok [OF derived_ok [OF okss c(2)] c(3)] by blast
    have ne: "ms \<noteq> []" using m(3) c(4) [of "[]"] ss by auto
    have "derived okNode ss p ms p2" using derived_trans [OF c(2) m(2) okTrees_below [OF okss]] .
    then have "derived okNode ss p [Regexp p2 OpConcat fl ms [] 0 0] (p2 + 1)"
      using derived_node okTrees_below [OF okss] ne by (simp add: okNode_def)
    then have "derived okNode [?r] p [Regexp p2 OpConcat fl ms [] 0 0] (p2 + 1)"
      by (rule derived_weaken) (auto simp: nodes_unfold)
    moreover have "sem s (Regexp p2 OpConcat fl ms [] 0 0) = sem s ?r" for s
    proof -
      have "chain s subs = chain s ss" using c(4) [of s] by (simp add: chain_def)
      then show ?thesis using m(4) [of s] by (simp add: k sem_concatNode)
    qed
    ultimately show ?thesis using c(1) m(1) k rep by auto
  qed
next
  case (2 p)
  then show ?case by (auto intro: derived_refl okTrees_below)
next
  case (3 r rs p)
  have r: "okTrees plainNode [r] p" and rs: "okTrees plainNode rs p" by (auto intro!: okTrees_sub [OF 3(3)])
  obtain c r' p1 where c: "concatRepetition r p = Ok (c, r', p1)" "derived okNode [r] p [r'] p1" "op r' \<noteq> OpRepeat"
      "\<And>s. sem s r' = sem s r"
    using 3(1) [OF r] by blast
  have "p \<le> p1" using c(2) by (simp add: derived_def)
  then obtain cs rs' p2 where cs: "concatRepetitions rs p1 = Ok (cs, rs', p2)" "derived okNode rs p1 rs' p2"
      "\<forall>x \<in> set rs'. op x \<noteq> OpRepeat" "\<And>s. map (sem s) rs' = map (sem s) rs"
    using 3(2) [of "(c, r', p1)" c "(r', p1)" r' p1] c(1) okTrees_mono [OF rs] by blast
  have "derived okNode (r # rs) p (r' # rs') p2"
    using derived_append [OF c(2) cs(2) okTrees_below [OF r] okTrees_below [OF rs]] by simp
  moreover have "concatRepetitions (r # rs) p = Ok (c \<or> cs, r' # rs', p2)" using c(1) cs(1) by simp
  moreover have "\<forall>x \<in> set (r' # rs'). op x \<noteq> OpRepeat" using c(3) cs(3) by simp
  moreover have "\<forall>s. map (sem s) (r' # rs') = map (sem s) (r # rs)" using c(4) cs(4) by simp
  ultimately show ?case by blast
qed

section \<open>Removing captures, and trimming\<close>

lemma okNode_length:
  "okNode (Regexp a k fl ss rs mn mx) \<Longrightarrow> length ss' = length ss \<Longrightarrow> okNode (Regexp a' k fl ss' rs mn mx)"
  by (auto simp: okNode_def)

lemma uncapture_derived:
  "okTrees plainNode [r] p \<Longrightarrow> uncapture r p = (m, r', p') \<Longrightarrow> derived plainNode [r] p [r'] p'"
  "okTrees plainNode rs p \<Longrightarrow> uncaptures rs p = (ms, rs', p') \<Longrightarrow> derived plainNode rs p rs' p' \<and> length rs' = length rs"
proof (induction r p and rs p arbitrary: m r' p' and ms rs' p' rule: uncapture_uncaptures.induct)
  case (1 a k fl ss rs mn mx p)
  let ?r = "Regexp a k fl ss rs mn mx"
  have ok: "plainNode ?r" using okTrees_self [OF 1(3)] .
  have sub: "nodesOf ss \<subseteq> nodesOf [?r]" by (auto simp: nodes_unfold)
  have ss: "okTrees plainNode ss p" by (rule okTrees_sub [OF 1(3) sub])
  obtain ms ss' p1 where u: "uncaptures ss p = (ms, ss', p1)" by (cases "uncaptures ss p")
  show ?case
  proof (cases "k = OpCapture")
    case True
    then have len: "length ss = 1" using ok by (simp add: plainNode_def okNode_def)
    then have d: "derived plainNode ss p ss' p1" "length ss' = 1" using 1(1) [OF _ ss u] True by auto
    then have "ss' = [hd ss']" by (cases ss') auto
    moreover have "r' = hd ss'" "p' = p1" using 1(4) True len u by auto
    ultimately show ?thesis using derived_weaken [OF d(1) _ sub] by metis
  next
    case False
    then have d: "derived plainNode ss p ss' p1" "length ss' = length ss" using 1(2) [OF _ _ ss u] by auto
    show ?thesis
    proof (cases ms)
      case True
      then have r': "r' = Regexp p1 k fl ss' rs mn mx" "p' = p1 + 1" using 1(4) False u by auto
      have "plainNode r'" using ok d(2) okNode_length [of a k fl ss rs mn mx ss' p1] by (simp add: plainNode_def r')
      then show ?thesis
        unfolding r' using derived_weaken [OF derived_node [OF d(1) okTrees_below [OF ss]] _ sub] by blast
    next
      case nm: False
      then have "r' = ?r" "p' = p1" using 1(4) False u by auto
      moreover have "p \<le> p1" using d(1) by (simp add: derived_def)
      ultimately show ?thesis using derived_part [OF okTrees_below [OF 1(3)] order_refl] by simp
    qed
  qed
next
  case (3 r rs p)
  have r: "okTrees plainNode [r] p" and rs: "okTrees plainNode rs p" by (auto intro!: okTrees_sub [OF 3(3)])
  obtain m r1 p1 where u: "uncapture r p = (m, r1, p1)" by (cases "uncapture r p")
  obtain ms' rs1 p2 where us: "uncaptures rs p1 = (ms', rs1, p2)" by (cases "uncaptures rs p1")
  note d = 3(1) [OF r u]
  then have "p \<le> p1" by (simp add: derived_def)
  then have ds: "derived plainNode rs p1 rs1 p2 \<and> length rs1 = length rs"
    using 3(2) [OF u [symmetric] refl _ us] okTrees_mono [OF rs] by blast
  then show ?case
    using 3(4) u us derived_append [OF d _ okTrees_below [OF r] okTrees_below [OF rs], of rs1 p2] by auto
qed (auto intro: derived_refl okTrees_below)


section \<open>The store of \<open>flattenRepetition\<close>\<close>

definition okEntry :: "hnode \<Rightarrow> bool" where
  "okEntry x \<longleftrightarrow>
     (hop x = OpConcat \<longrightarrow> hlen x \<noteq> 0) \<and> (hop x = OpLiteral \<longrightarrow> list_all (\<lambda>n. n < 128) (hrunes x)) \<and>
     (hop x = OpCapture \<longrightarrow> hlen x = 1) \<and> (hop x = OpRepeat \<longrightarrow> hlen x \<noteq> 0)"

text \<open>A store without cycles: the parts of a node have lower ranks.\<close>

definition okStore :: "(nat \<Rightarrow> nat) \<Rightarrow> store \<Rightarrow> bool" where
  "okStore rk h \<longleftrightarrow>
     (\<forall>a x. hnodes h a = Some x \<longrightarrow>
        a < hnext h \<and> okEntry x \<and> hlen x \<le> length (harrays h (harr x)) \<and> (\<forall>b \<in> set (parts h x). rk b < rk a)) \<and>
     (\<forall>A. \<forall>b \<in> set (harrays h A). hnodes h b \<noteq> None)"

lemma okStore_node:
  assumes "okStore rk h" and "hnodes h a = Some x"
  shows "a < hnext h" "okEntry x" "hlen x \<le> length (harrays h (harr x))" "\<And>b. b \<in> set (parts h x) \<Longrightarrow> rk b < rk a"
    "\<And>b. b \<in> set (parts h x) \<Longrightarrow> \<exists>y. hnodes h b = Some y" "length (parts h x) = hlen x"
  using assms by (auto simp: okStore_def parts_def dest: in_set_takeD)

text \<open>The tree of a node.\<close>

definition expr :: "(nat \<Rightarrow> nat) \<Rightarrow> store \<Rightarrow> nat \<Rightarrow> regexp" where
  "expr rk h a = readTree (Suc (rk a)) h a"

lemma readTree_enough:
  assumes "okStore rk h" and "hnodes h a \<noteq> None" and "rk a < n" and "rk a < m"
  shows "readTree n h a = readTree m h a"
  using assms(2-)
proof (induction n arbitrary: a m)
  case (Suc n)
  obtain m' x where m: "m = Suc m'" and x: "hnodes h a = Some x" using Suc.prems by (cases m) auto
  have "readTree n h b = readTree m' h b" if "b \<in> set (parts h x)" for b
    using Suc.IH [of b m'] okStore_node(4,5) [OF assms(1) x that] Suc.prems m by auto
  then show ?case by (simp add: m x)
qed simp

lemma expr_unfold:
  assumes "okStore rk h" and "hnodes h a = Some x"
  shows "expr rk h a = Regexp a (hop x) (hflags x) (map (expr rk h) (parts h x)) (hrunes x) (hmin x) (hmax x)"
proof -
  have "readTree (rk a) h b = expr rk h b" if "b \<in> set (parts h x)" for b
    unfolding expr_def using okStore_node(4,5) [OF assms that] by (intro readTree_enough [OF assms(1)]) auto
  then show ?thesis unfolding expr_def [of rk h a] by (simp add: assms(2))
qed

definition den :: "(nat \<Rightarrow> nat) \<Rightarrow> store \<Rightarrow> nat \<Rightarrow> string \<Rightarrow> (nat \<times> nat) set" where
  "den rk h a = (\<lambda>s. sem s (expr rk h a))"

lemma sem_cong:
  "map (sem s) ss = map (sem s) ss' \<Longrightarrow> sem s (Regexp a k fl ss rs mn mx) = sem s (Regexp a' k fl ss' rs mn mx)"
  by (simp add: sem.simps)

text \<open>What a node denotes depends on what its parts denote.\<close>

lemma den_cong:
  assumes "okStore rk h" and "hnodes h a = Some x" and "okStore rk' h'" and "hnodes h' a' = Some x"
    and "map (den rk h) (parts h x) = map (den rk' h') (parts h' x)"
  shows "den rk h a = den rk' h' a'"
proof
  fix s
  have "map (\<lambda>f. f s) (map (den rk h) (parts h x)) = map (\<lambda>f. f s) (map (den rk' h') (parts h' x))" using assms(5) by simp
  then show "den rk h a s = den rk' h' a' s"
    unfolding den_def expr_unfold [OF assms(1,2)] expr_unfold [OF assms(3,4)]
    by (intro sem_cong) (simp add: den_def comp_def)
qed

text \<open>How a store changes: nodes stay, and what a place of an array holds keeps its rank and meaning.\<close>

definition evolves :: "(nat \<Rightarrow> nat) \<Rightarrow> store \<Rightarrow> (nat \<Rightarrow> nat) \<Rightarrow> store \<Rightarrow> bool" where
  "evolves rk h rk' h' \<longleftrightarrow>
     okStore rk' h' \<and> hnext h \<le> hnext h' \<and>
     (\<forall>a x. hnodes h a = Some x \<longrightarrow> hnodes h' a = Some x \<and> rk' a = rk a \<and> den rk' h' a = den rk h a) \<and>
     (\<forall>A. map rk' (harrays h' A) = map rk (harrays h A) \<and> map (den rk' h') (harrays h' A) = map (den rk h) (harrays h A))"

lemma evolves_refl: "okStore rk h \<Longrightarrow> evolves rk h rk h"
  by (simp add: evolves_def)

lemma evolves_trans: "evolves rk h rk1 h1 \<Longrightarrow> evolves rk1 h1 rk2 h2 \<Longrightarrow> evolves rk h rk2 h2"
  unfolding evolves_def by fastforce

lemma evolves_node: "evolves rk h rk' h' \<Longrightarrow> hnodes h a = Some x \<Longrightarrow> hnodes h' a = Some x \<and> rk' a = rk a \<and> den rk' h' a = den rk h a"
  by (simp add: evolves_def)

lemma evolves_place:
  assumes "evolves rk h rk' h'" and "i < length (harrays h A)"
  shows "rk' (harrays h' A ! i) = rk (harrays h A ! i)" "den rk' h' (harrays h' A ! i) = den rk h (harrays h A ! i)"
    "length (harrays h' A) = length (harrays h A)"
proof -
  have m: "map rk' (harrays h' A) = map rk (harrays h A)" "map (den rk' h') (harrays h' A) = map (den rk h) (harrays h A)"
    using assms(1) by (simp_all add: evolves_def)
  show l: "length (harrays h' A) = length (harrays h A)" using arg_cong [OF m(1), of length] by simp
  show "rk' (harrays h' A ! i) = rk (harrays h A ! i)" using arg_cong [OF m(1), of "\<lambda>l. l ! i"] assms(2) l by simp
  show "den rk' h' (harrays h' A ! i) = den rk h (harrays h A ! i)"
    using arg_cong [OF m(2), of "\<lambda>l. l ! i"] assms(2) l by simp
qed


lemma map_parts: "map f (parts h x) = take (hlen x) (map f (harrays h (harr x)))"
  by (simp add: parts_def take_map)

lemma okStore_ranks:
  "okStore rk h \<longleftrightarrow>
     (\<forall>a x. hnodes h a = Some x \<longrightarrow>
        a < hnext h \<and> okEntry x \<and> hlen x \<le> length (map rk (harrays h (harr x))) \<and>
        (\<forall>n \<in> set (take (hlen x) (map rk (harrays h (harr x)))). n < rk a)) \<and>
     (\<forall>A. \<forall>b \<in> set (harrays h A). hnodes h b \<noteq> None)"
  unfolding okStore_def map_parts [of rk, symmetric] by simp

text \<open>Writing a part of the same rank and meaning.\<close>

lemma evolves_write:
  assumes ok: "okStore rk h" and "i < length (harrays h (harr x))" and b: "hnodes h b \<noteq> None"
    and "rk b = rk (harrays h (harr x) ! i)" and "den rk h b = den rk h (harrays h (harr x) ! i)"
  shows "evolves rk h rk (writePart x i b h)"
proof -
  let ?h = "writePart x i b h"
  have n: "hnodes ?h = hnodes h" "hnext ?h = hnext h" by (simp_all add: writePart_def)
  have same: "map f (harrays ?h A) = map f (harrays h A)" if "f b = f (harrays h (harr x) ! i)" for f :: "nat \<Rightarrow> 'z" and A
    using that assms(2) by (simp add: writePart_def map_update) (metis list_update_id map_update nth_map)
  have rks: "map rk (harrays ?h A) = map rk (harrays h A)" and dens: "map (den rk h) (harrays ?h A) = map (den rk h) (harrays h A)" for A
    using same [of rk] same [of "den rk h"] assms(4,5) by simp_all
  have ex: "hnodes h c \<noteq> None" if "c \<in> set (harrays ?h A)" for c A
    using that ok b by (auto simp: okStore_def writePart_def dest: set_update_subset_insert [THEN subsetD] split: if_splits)
  have ok2: "okStore rk ?h" unfolding okStore_ranks n rks using ok ex unfolding okStore_ranks by blast
  have claim: "den rk ?h a = den rk h a" if "hnodes h a = Some y" for a y
    using that
  proof (induction "rk a" arbitrary: a y rule: less_induct)
    case less
    have "den rk ?h c = den rk h c" if "c \<in> set (parts ?h y)" for c
      using less(1) [of c] okStore_node(4,5) [OF ok2 _ that, of a] less(2) n(1) by auto
    then have "map (den rk ?h) (parts ?h y) = map (den rk h) (parts ?h y)" by simp
    also have "\<dots> = map (den rk h) (parts h y)" by (simp only: map_parts dens)
    finally show ?case using less(2) n(1) by (intro den_cong [OF ok2 _ ok]) simp_all
  qed
  have "map (den rk ?h) (harrays ?h A) = map (den rk h) (harrays ?h A)" for A using claim ex [of _ A] by (intro map_cong refl) blast
  then show ?thesis using ok2 claim n rks dens by (simp add: evolves_def)
qed

text \<open>Adding a node.\<close>

lemma readTree_alloc:
  assumes "okStore rk h" and "hnodes h a \<noteq> None"
  shows "readTree n (allocNode x h) a = readTree n h a"
  using assms(2)
proof (induction n arbitrary: a)
  case (Suc n)
  then obtain y where y: "hnodes h a = Some y" by auto
  then have "hnodes (allocNode x h) a = Some y" using okStore_node(1) [OF assms(1) y] by (simp add: allocNode_def)
  moreover have "parts (allocNode x h) y = parts h y" by (simp add: allocNode_def parts_def)
  ultimately show ?case using Suc.IH okStore_node(5) [OF assms(1) y] by (simp add: y)
qed simp

lemma evolves_alloc:
  assumes ok: "okStore rk h" and "okEntry x" and "hlen x \<le> length (harrays h (harr x))"
    and "\<And>b. b \<in> set (parts h x) \<Longrightarrow> rk b < k"
  shows "evolves rk h (rk(hnext h := k)) (allocNode x h)" "hnodes (allocNode x h) (hnext h) = Some x"
proof -
  let ?h = "allocNode x h" and ?rk = "rk(hnext h := k)"
  show "hnodes ?h (hnext h) = Some x" by (simp add: allocNode_def)
  have lt: "a < hnext h" if "hnodes h a \<noteq> None" for a using that okStore_node(1) [OF ok] by auto
  have a: "harrays ?h = harrays h" "hnext ?h = hnext h + 1" "hnodes ?h = (hnodes h)(hnext h \<mapsto> x)"
    by (simp_all add: allocNode_def)
  have ex: "hnodes h c \<noteq> None" if "c \<in> set (harrays h A)" for c A using that ok by (auto simp: okStore_def)
  have rks: "map ?rk (harrays h A) = map rk (harrays h A)" for A using lt ex by (auto dest!: ex)
  have "okStore ?rk ?h"
    unfolding okStore_ranks a rks using ok assms(2-) lt unfolding okStore_ranks map_parts [of rk, symmetric]
    by (auto simp: less_Suc_eq map_parts [of rk, symmetric])
  moreover have "den ?rk ?h a = den rk h a" if "hnodes h a \<noteq> None" for a
    using readTree_alloc [OF ok that] lt [OF that] by (simp add: den_def expr_def fun_eq_iff)
  moreover have "hnodes h (hnext h) = None" using lt [of "hnext h"] by blast
  ultimately show "evolves rk h ?rk ?h" using a rks ex by (auto simp: evolves_def)
qed

lemma den_copy:
  assumes "okStore rk h" and "hnodes h a = Some x" and "hnodes h a' = Some x"
  shows "den rk h a' = den rk h a"
  using den_cong [OF assms(1,3,1,2)] by simp


section \<open>Flattening\<close>

text \<open>
  What a call on a node of a store returns: it does not panic, keeps the meaning of all nodes, and gives a node of the
  rank and meaning of its argument.
\<close>

definition flattens :: "(nat \<Rightarrow> store \<Rightarrow> hresult) \<Rightarrow> nat \<Rightarrow> bool" where
  "flattens f n \<longleftrightarrow>
     (\<forall>rk h a. okStore rk h \<and> hnodes h a \<noteq> None \<and> rk a < n \<longrightarrow>
        (\<exists>u a' h' rk'. f a h = Some (Ok (u, a', h')) \<and> evolves rk h rk' h' \<and> hnodes h' a' \<noteq> None \<and> rk' a' = rk a \<and>
           den rk' h' a' = den rk h a))"

lemma flattenParts_ok:
  assumes "flattens f n" and "okStore rk h" and "hnodes h a = Some x" and "rk a \<le> n" and "\<forall>i \<in> set is. i < hlen x"
  shows "\<exists>c h' rk'. flattenParts f x is c0 h = Some (Ok (c, h')) \<and> evolves rk h rk' h'"
  using assms(2-)
proof (induction "is" arbitrary: c0 h rk)
  case Nil
  then show ?case using evolves_refl by auto
next
  case (Cons i "is")
  let ?s = "harrays h (harr x) ! i"
  have i: "i < length (harrays h (harr x))" using Cons.prems(4) okStore_node(3) [OF Cons.prems(1,2)] by auto
  have "?s \<in> set (parts h x)" using i Cons.prems(4) in_set_conv_nth [of ?s "parts h x"] by (auto simp: parts_def)
  from okStore_node(4,5) [OF Cons.prems(1,2) this] have s: "rk ?s < n" "hnodes h ?s \<noteq> None" using Cons.prems(3) by auto
  obtain u tmp h1 rk1 where f: "f ?s h = Some (Ok (u, tmp, h1))" "evolves rk h rk1 h1" "hnodes h1 tmp \<noteq> None"
      "rk1 tmp = rk ?s" "den rk1 h1 tmp = den rk h ?s"
    using assms(1) Cons.prems(1) s unfolding flattens_def by blast
  note place = evolves_place [OF f(2) i]
  have ok1: "okStore rk1 h1" using f(2) by (simp add: evolves_def)
  have w: "evolves rk1 h1 rk1 (writePart x i tmp h1)"
    using i place f(3-5) by (intro evolves_write [OF ok1]) simp_all
  have e: "evolves rk h rk1 (writePart x i tmp h1)" using evolves_trans [OF f(2) w] .
  then have "okStore rk1 (writePart x i tmp h1)" "hnodes (writePart x i tmp h1) a = Some x" "rk1 a \<le> n"
    using evolves_node [OF e Cons.prems(2)] Cons.prems(3) by (simp_all add: evolves_def)
  then obtain c h' rk' where "flattenParts f x is (c0 \<or> u) (writePart x i tmp h1) = Some (Ok (c, h'))"
      "evolves rk1 (writePart x i tmp h1) rk' h'"
    using Cons.IH [of rk1 "writePart x i tmp h1" "c0 \<or> u"] Cons.prems(4) by auto
  then show ?case using f(1) evolves_trans [OF e] by auto
qed

text \<open>Copying the first part over parts of the same rank and meaning.\<close>

definition uniform :: "(nat \<Rightarrow> nat) \<Rightarrow> store \<Rightarrow> hnode \<Rightarrow> bool" where
  "uniform rk h x \<longleftrightarrow>
     (\<forall>i < hlen x. i < length (harrays h (harr x)) \<and> rk (harrays h (harr x) ! i) = rk (harrays h (harr x) ! 0) \<and>
        den rk h (harrays h (harr x) ! i) = den rk h (harrays h (harr x) ! 0))"

lemma uniform_replicate:
  assumes "hlen x \<le> length (harrays h (harr x))" and "parts h x = replicate (hlen x) b"
  shows "uniform rk h x"
proof -
  have "harrays h (harr x) ! i = b" if "i < hlen x" for i
    using that assms nth_take [of i "hlen x" "harrays h (harr x)"] nth_replicate [of i "hlen x" b] by (simp add: parts_def)
  then show ?thesis using assms(1) unfolding uniform_def by (metis gr0I less_le_trans not_less_zero)
qed

lemma uniform_evolves: "uniform rk h x \<Longrightarrow> evolves rk h rk' h' \<Longrightarrow> uniform rk' h' x"
  unfolding uniform_def
proof (intro allI impI)
  fix i
  assume u: "\<forall>i < hlen x. i < length (harrays h (harr x)) \<and> rk (harrays h (harr x) ! i) = rk (harrays h (harr x) ! 0) \<and>
      den rk h (harrays h (harr x) ! i) = den rk h (harrays h (harr x) ! 0)" and e: "evolves rk h rk' h'" and "i < hlen x"
  from u \<open>i < hlen x\<close> have i: "i < length (harrays h (harr x))" "rk (harrays h (harr x) ! i) = rk (harrays h (harr x) ! 0)"
    "den rk h (harrays h (harr x) ! i) = den rk h (harrays h (harr x) ! 0)" by blast+
  then have "0 < length (harrays h (harr x))" by linarith
  note p0 = evolves_place [OF e this] and pi = evolves_place [OF e i(1)]
  show "i < length (harrays h' (harr x)) \<and> rk' (harrays h' (harr x) ! i) = rk' (harrays h' (harr x) ! 0) \<and>
      den rk' h' (harrays h' (harr x) ! i) = den rk' h' (harrays h' (harr x) ! 0)"
    unfolding pi p0 using i by simp
qed

lemma fold_first:
  assumes "okStore rk h" and "uniform rk h x" and "\<forall>i \<in> set is. i < hlen x"
  shows "evolves rk h rk (fold (\<lambda>i h. writePart x i (harrays h (harr x) ! 0) h) is h)"
  using assms
proof (induction "is" arbitrary: h)
  case (Cons i "is")
  let ?w = "writePart x i (harrays h (harr x) ! 0) h"
  have "i < hlen x" using Cons.prems(3) by simp
  then have i: "i < length (harrays h (harr x))" "rk (harrays h (harr x) ! 0) = rk (harrays h (harr x) ! i)"
      "den rk h (harrays h (harr x) ! 0) = den rk h (harrays h (harr x) ! i)"
    using Cons.prems(2) unfolding uniform_def by metis+
  then have "harrays h (harr x) ! 0 \<in> set (harrays h (harr x))" by (intro nth_mem) linarith
  then have "hnodes h (harrays h (harr x) ! 0) \<noteq> None" using Cons.prems(1) by (simp add: okStore_def)
  then have w: "evolves rk h rk ?w"
    using i by (intro evolves_write [OF Cons.prems(1)])
  then have "evolves rk ?w rk (fold (\<lambda>i h. writePart x i (harrays h (harr x) ! 0) h) is ?w)"
    using Cons.IH [of ?w] uniform_evolves [OF Cons.prems(2) w] Cons.prems(3) by (simp add: evolves_def)
  then show ?case using evolves_trans [OF w] by simp
qed (simp add: evolves_refl)

lemma fixParts_ok:
  assumes "okStore rk h" and x: "hnodes h a = Some x" and "inRep \<Longrightarrow> uniform rk h x"
  shows "\<exists>u a' h' rk'. fixParts a x inRep (c, h) = (u, a', h') \<and> evolves rk h rk' h' \<and> hnodes h' a' \<noteq> None \<and> rk' a' = rk a \<and>
    den rk' h' a' = den rk h a"
proof (cases c)
  case False
  then show ?thesis using assms evolves_refl by (auto simp: fixParts_def)
next
  case True
  define g where "g = (if inRep then fold (\<lambda>i h. writePart x i (harrays h (harr x) ! 0) h) [0..<hlen x] h else h)"
  have e: "evolves rk h rk g" using assms fold_first [OF assms(1), of x "[0..<hlen x]"] evolves_refl by (auto simp: g_def)
  then have ok: "okStore rk g" and x1: "hnodes g a = Some x" and d: "den rk g a = den rk h a"
    using evolves_node [OF e x] by (simp_all add: evolves_def)
  note al = evolves_alloc [OF ok okStore_node(2,3,4) [OF ok x1]]
  let ?rk = "rk(hnext g := rk a)" and ?h = "allocNode x g"
  have a2: "hnodes ?h a = Some x" "den ?rk ?h a = den rk g a" using evolves_node [OF al(1) x1] by simp_all
  have "okStore ?rk ?h" using al(1) by (simp add: evolves_def)
  from den_copy [OF this a2(1) al(2)] have "den ?rk ?h (hnext g) = den rk h a" using a2(2) d by simp
  moreover have "fixParts a x inRep (c, h) = (True, hnext g, ?h)" using True by (simp add: fixParts_def Let_def g_def)
  ultimately show ?thesis
    using evolves_trans [OF e al(1)] al(2) by (intro exI [of _ True] exI [of _ "hnext g"] exI [of _ ?h] exI [of _ ?rk]) simp
qed


text \<open>A repetition of a repetition is one repetition of their lengths multiplied.\<close>

lemma chain_replicate: "chain s (replicate n t) = inside s (sem s t ^^ n)"
proof (induction n)
  case (Suc n)
  have "chain s (replicate (Suc n) t) = sem s t O inside s (sem s t ^^ n)" using Suc by simp
  also have "\<dots> = inside s (sem s t O (sem s t ^^ n))" using sem_inside [of s t] by auto
  finally show ?case by (simp add: relpow_commute)
qed (simp add: chain_def)

lemma chain_nested:
  assumes "sem s x = chain s (replicate m t)"
  shows "chain s (replicate n x) = chain s (replicate (m * n) t)"
proof (induction n)
  case (Suc n)
  then show ?case using assms by (simp add: replicate_add chain_append)
qed simp

lemma sem_repeat: "sem s (Regexp a OpRepeat fl [t] rs (int n) (int n)) = chain s (replicate n t)"
proof -
  have "{k. int n \<le> int k \<and> int k \<le> int n} = {n}" by auto
  then show ?thesis by (simp add: sem.simps first_def chain_replicate)
qed


lemma repeats_ok:
  assumes "okStore rk h" and "hnodes h a = Some x"
  shows "\<exists>b. repeats h x = Ok b \<and> (b \<longrightarrow> hop x = OpConcat \<and> parts h x \<noteq> [] \<and> parts h x = replicate (hlen x) (hd (parts h x)))"
proof (cases "hop x = OpConcat")
  case True
  then have "hlen x \<noteq> 0" using okStore_node(2) [OF assms] by (simp add: okEntry_def)
  then obtain b bs where p: "parts h x = b # bs" using okStore_node(6) [OF assms] by (cases "parts h x") auto
  have "list_all (\<lambda>c. c = b) bs \<Longrightarrow> bs = replicate (length bs) b" by (induction bs) auto
  then have "list_all (\<lambda>c. c = b) bs \<Longrightarrow> b # bs = replicate (hlen x) b"
    using p okStore_node(6) [OF assms] by (metis length_Cons replicate_Suc)
  then show ?thesis using True p by (auto simp: repeats_def)
qed (auto simp: repeats_def)

lemma flatten_nested:
  assumes ok: "okStore rk h" and x: "hnodes h a = Some x" "hop x = OpConcat" "parts h x = replicate (hlen x) b" "parts h x \<noteq> []"
    and y: "hnodes h b = Some y" "hop y = OpConcat" "parts h y = replicate (hlen y) t" "parts h y \<noteq> []"
    and z: "z = \<lparr>hop = OpRepeat, hflags = fl, harr = harr y, hlen = 1, hrunes = [], hmin = int (hlen y * hlen x), hmax = int (hlen y * hlen x)\<rparr>"
  shows "evolves rk h (rk(hnext h := rk a)) (allocNode z h)" "hnodes (allocNode z h) (hnext h) = Some z"
    "den (rk(hnext h := rk a)) (allocNode z h) (hnext h) = den rk h a"
proof -
  let ?h = "allocNode z h" and ?rk = "rk(hnext h := rk a)"
  have b: "b \<in> set (parts h x)" using x(3,4) by (cases "hlen x") auto
  have t: "t \<in> set (parts h y)" using y(3,4) by (cases "hlen y") auto
  have pz: "parts h z = [t]" using y(3,4) by (cases "harrays h (harr y)"; cases "hlen y") (auto simp: parts_def z)
  have "rk t < rk a" using okStore_node(4) [OF ok y(1) t] okStore_node(4) [OF ok x(1) b] by simp
  then have al: "evolves rk h ?rk ?h" "hnodes ?h (hnext h) = Some z"
    using okStore_node(3) [OF ok y(1)] y(4) pz by (intro evolves_alloc [OF ok]; force simp: z okEntry_def parts_def)+
  show "evolves rk h ?rk ?h" "hnodes ?h (hnext h) = Some z" using al .
  have ok2: "okStore ?rk ?h" using al(1) by (simp add: evolves_def)
  have p: "parts ?h = parts h" by (simp add: allocNode_def parts_def fun_eq_iff)
  note x2 = evolves_node [OF al(1) x(1)] and y2 = evolves_node [OF al(1) y(1)]
  have "sem s (expr ?rk ?h (hnext h)) = sem s (expr ?rk ?h a)" for s
  proof -
    have "sem s (expr ?rk ?h b) = chain s (replicate (hlen y) (expr ?rk ?h t))"
      using expr_unfold [OF ok2, of b y] y2 y(2,3) by (simp add: p sem_concatNode map_replicate_const)
    from chain_nested [OF this] have "sem s (expr ?rk ?h a) = chain s (replicate (hlen y * hlen x) (expr ?rk ?h t))"
      using expr_unfold [OF ok2, of a x] x2 x(2,3) by (simp add: p sem_concatNode map_replicate_const)
    moreover have "expr ?rk ?h (hnext h) =
        Regexp (hnext h) OpRepeat fl [expr ?rk ?h t] [] (int (hlen y * hlen x)) (int (hlen y * hlen x))"
      unfolding expr_unfold [OF ok2 al(2)] p pz by (simp add: z)
    ultimately show ?thesis by (simp only: sem_repeat)
  qed
  then show "den ?rk ?h (hnext h) = den rk h a" using x2 by (simp add: den_def)
qed

lemma flattenNode_ok: "flattens (flattenNode n) n"
proof (induction n)
  case (Suc n)
  show ?case
    unfolding flattens_def
  proof (intro allI impI, elim conjE)
    fix rk h a
    assume ok: "okStore rk h" and "hnodes h a \<noteq> None" and lt: "rk a < Suc n"
    then obtain x where x: "hnodes h a = Some x" by auto
    obtain b where b: "repeats h x = Ok b"
        "b \<Longrightarrow> hop x = OpConcat \<and> parts h x \<noteq> [] \<and> parts h x = replicate (hlen x) (hd (parts h x))"
      using repeats_ok [OF ok x] by blast
    have loop: "\<exists>u a' h' rk'. (case flattenParts (flattenNode n) x is False h of
          None \<Rightarrow> None | Some (Ok res) \<Rightarrow> Some (Ok (fixParts a x b res)) | Some (Err e) \<Rightarrow> Some (Err e) | Some Panic \<Rightarrow> Some Panic) =
          Some (Ok (u, a', h')) \<and> evolves rk h rk' h' \<and> hnodes h' a' \<noteq> None \<and> rk' a' = rk a \<and> den rk' h' a' = den rk h a"
      if bound: "\<forall>i \<in> set is. i < hlen x" for "is"
    proof -
      obtain c h1 rk1 where l: "flattenParts (flattenNode n) x is False h = Some (Ok (c, h1))" "evolves rk h rk1 h1"
        using flattenParts_ok [OF Suc ok x _ bound, of False] lt by auto
      have "uniform rk h x" if b
        using uniform_replicate [OF okStore_node(3) [OF ok x]] b(2) [OF that] by blast
      then have u: "b \<Longrightarrow> uniform rk1 h1 x" using uniform_evolves l(2) by blast
      have "okStore rk1 h1" using l(2) by (simp add: evolves_def)
      note x1 = evolves_node [OF l(2) x]
      from fixParts_ok [OF \<open>okStore rk1 h1\<close> conjunct1 [OF x1], of b c] u obtain u' a' h' rk' where
        "fixParts a x b (c, h1) = (u', a', h')" "evolves rk1 h1 rk' h'" "hnodes h' a' \<noteq> None" "rk' a' = rk1 a" "den rk' h' a' = den rk1 h1 a"
        by auto
      then show ?thesis using l x1 evolves_trans [OF l(2)] by auto
    qed
    show "\<exists>u a' h' rk'. flattenNode (Suc n) a h = Some (Ok (u, a', h')) \<and> evolves rk h rk' h' \<and> hnodes h' a' \<noteq> None \<and>
        rk' a' = rk a \<and> den rk' h' a' = den rk h a"
    proof (cases b)
      case False
      show ?thesis
      proof (cases "hop x = OpConcat")
        case True
        have bF: "b = False" using False by simp
        show ?thesis using loop [of "[0..<hlen x]", unfolded bF] x b(1) bF True by simp
      next
        case nc: False
        then show ?thesis using x evolves_refl [OF ok] by auto
      qed
    next
      case True
      note px = b(2) [OF True]
      let ?s = "hd (parts h x)"
      have "?s \<in> set (parts h x)" using px by simp
      then obtain y where y: "hnodes h ?s = Some y" using okStore_node(5) [OF ok x] by blast
      obtain b2 where b2: "repeats h y = Ok b2"
          "b2 \<Longrightarrow> hop y = OpConcat \<and> parts h y \<noteq> [] \<and> parts h y = replicate (hlen y) (hd (parts h y))"
        using repeats_ok [OF ok y] by blast
      show ?thesis
      proof (cases b2)
        case True
        define z where "z = \<lparr>hop = OpRepeat, hflags = hflags x OR hflags y, harr = harr y, hlen = 1, hrunes = [],
            hmin = int (hlen y * hlen x), hmax = int (hlen y * hlen x)\<rparr>"
        note py = b2(2) [OF True]
        have "evolves rk h (rk(hnext h := rk a)) (allocNode z h)" "hnodes (allocNode z h) (hnext h) = Some z"
          "den (rk(hnext h := rk a)) (allocNode z h) (hnext h) = den rk h a"
          using flatten_nested [OF ok x _ _ _ y _ _ _ z_def] px py by blast+
        moreover have "flattenNode (Suc n) a h = Some (Ok (True, hnext h, allocNode z h))"
          using x y px b(1) b2(1) \<open>b\<close> True by (simp add: Let_def z_def)
        ultimately show ?thesis
          by (intro exI [of _ True] exI [of _ "hnext h"] exI [of _ "allocNode z h"] exI [of _ "rk(hnext h := rk a)"]) simp
      next
        case False
        have "hlen x \<noteq> 0" using px okStore_node(6) [OF ok x] by (metis length_0_conv)
        moreover have bT: "b = True" "b2 = False" using True False by simp_all
        ultimately show ?thesis using loop [of "[0..<1]", unfolded bT] x y px b(1) b2(1) bT by (simp add: Let_def)
      qed
    qed
  qed
qed (simp add: flattens_def)


text \<open>The store of a tree: the rank of a node is its size.\<close>

definition rankOf :: "regexp \<Rightarrow> nat \<Rightarrow> nat" where
  "rankOf r a = (case map_of (map (\<lambda>x. (addr x, size x)) (nodes r)) a of Some n \<Rightarrow> n | None \<Rightarrow> 0)"

lemma sub_size: "y \<in> set (sub x) \<Longrightarrow> size y < size x"
  by (cases x) (auto simp: less_Suc_eq_le dest!: size_list_estimation' [OF _ order_refl])

lemma map_of_nodes:
  assumes "\<forall>x \<in> set xs. \<forall>y \<in> set xs. addr x = addr y \<longrightarrow> x = y" and "x \<in> set xs"
  shows "map_of (map (\<lambda>x. (addr x, f x)) xs) (addr x) = Some (f x)"
  using assms
proof (induction xs)
  case (Cons y xs)
  then show ?case by (cases "addr y = addr x") auto
qed simp

lemma nodes_trans: "y \<in> set (nodes x) \<Longrightarrow> z \<in> set (sub y) \<Longrightarrow> z \<in> set (nodes x)"
proof (induction x rule: nodes.induct)
  case (1 a k fl ss rs mn mx)
  show ?case
  proof (cases "y = Regexp a k fl ss rs mn mx")
    case True
    then show ?thesis using 1(3) self_node [of z] by (auto simp: nodes_unfold nodesOf_def)
  next
    case False
    then obtain x where "x \<in> set ss" "y \<in> set (nodes x)" using 1(2) by (auto simp: nodes_unfold nodesOf_def)
    then show ?thesis using 1(1,3) by (auto simp: nodes_unfold nodesOf_def)
  qed
qed

lemma storeOf_simps:
  assumes "okTrees okNode [r] p" and "x \<in> set (nodes r)"
  shows "hnodes (storeOf r p) (addr x) = Some (nodeOf x)" "harrays (storeOf r p) (addr x) = map addr (sub x)"
    "rankOf r (addr x) = size x" "parts (storeOf r p) (nodeOf x) = map addr (sub x)"
proof -
  have c: "\<forall>x \<in> set (nodes r). \<forall>y \<in> set (nodes r). addr x = addr y \<longrightarrow> x = y" using assms(1) by (simp add: okTrees_def)
  show "hnodes (storeOf r p) (addr x) = Some (nodeOf x)" "rankOf r (addr x) = size x"
    using map_of_nodes [OF c assms(2), of nodeOf] map_of_nodes [OF c assms(2), of size] by (simp_all add: storeOf_def rankOf_def)
  show a: "harrays (storeOf r p) (addr x) = map addr (sub x)"
    using map_of_nodes [OF c assms(2), of "\<lambda>x. map addr (sub x)"] by (simp add: storeOf_def)
  show "parts (storeOf r p) (nodeOf x) = map addr (sub x)" using a by (simp add: parts_def nodeOf_def)
qed

lemma storeOf_node: "hnodes (storeOf r p) a = Some n \<Longrightarrow> \<exists>x \<in> set (nodes r). a = addr x"
  using map_of_SomeD [of "map (\<lambda>x. (addr x, nodeOf x)) (nodes r)" a n] by (auto simp: storeOf_def)

lemma storeOf_array:
  assumes "b \<in> set (harrays (storeOf r p) A)"
  shows "\<exists>x \<in> set (nodes r). b = addr x"
proof -
  obtain as where "map_of (map (\<lambda>x. (addr x, map addr (sub x))) (nodes r)) A = Some as" "b \<in> set as"
    using assms by (cases "map_of (map (\<lambda>x. (addr x, map addr (sub x))) (nodes r)) A") (simp_all add: storeOf_def)
  with map_of_SomeD [OF this(1)] show ?thesis using nodes_trans by fastforce
qed

lemma storeOf_ok:
  assumes "okTrees okNode [r] p"
  shows "okStore (rankOf r) (storeOf r p)"
proof -
  have "a < hnext (storeOf r p) \<and> okEntry n \<and> hlen n \<le> length (harrays (storeOf r p) (harr n)) \<and>
      (\<forall>b \<in> set (parts (storeOf r p) n). rankOf r b < rankOf r a)" if n: "hnodes (storeOf r p) a = Some n" for a n
  proof -
    obtain x where x: "x \<in> set (nodes r)" "a = addr x" using storeOf_node [OF n] by blast
    then have nx: "n = nodeOf x" using n storeOf_simps(1) [OF assms x(1)] by simp
    have "okNode x" "addr x < p" using assms x(1) by (simp_all add: okTrees_def)
    moreover have "rankOf r (addr y) < rankOf r (addr x)" if "y \<in> set (sub x)" for y
      using storeOf_simps(3) [OF assms] x(1) nodes_trans [OF x(1) that] sub_size [OF that] by simp
    moreover have "hnext (storeOf r p) = p" by (simp add: storeOf_def)
    ultimately show ?thesis
      using storeOf_simps(2,4) [OF assms x(1)] by (simp add: nx x(2)) (simp add: nodeOf_def okEntry_def okNode_def)
  qed
  moreover have "hnodes (storeOf r p) b \<noteq> None" if "b \<in> set (harrays (storeOf r p) A)" for b A
    using storeOf_array [OF that] storeOf_simps(1) [OF assms] by auto
  ultimately show ?thesis unfolding okStore_def by blast
qed

lemma expr_storeOf:
  assumes "okTrees okNode [r] p"
  shows "x \<in> set (nodes r) \<Longrightarrow> expr (rankOf r) (storeOf r p) (addr x) = x"
proof (induction x)
  case (Regexp a k fl ss rs mn mx)
  let ?x = "Regexp a k fl ss rs mn mx"
  have "map (expr (rankOf r) (storeOf r p)) (map addr ss) = ss"
    using Regexp(1) nodes_trans [OF Regexp(2)] by (auto intro!: map_idI)
  then show ?case
    using expr_unfold [OF storeOf_ok [OF assms] storeOf_simps(1) [OF assms Regexp(2)]] storeOf_simps(4) [OF assms Regexp(2)]
    by (simp add: nodeOf_def)
qed

text \<open>A tree read from a store is well formed.\<close>

lemma expr_nodes:
  assumes "okStore rk h"
  shows "hnodes h a \<noteq> None \<Longrightarrow> y \<in> set (nodes (expr rk h a)) \<Longrightarrow> \<exists>b n. hnodes h b = Some n \<and> y = expr rk h b \<and> addr y = b \<and> okNode y"
proof (induction "rk a" arbitrary: a rule: less_induct)
  case less
  then obtain x where x: "hnodes h a = Some x" by auto
  note n = okStore_node [OF assms x]
  show ?case
  proof (cases "y = expr rk h a")
    case True
    then show ?thesis using x n(2,6) by (auto simp: expr_unfold [OF assms x] okNode_def okEntry_def)
  next
    case False
    then obtain b where "b \<in> set (parts h x)" "y \<in> set (nodes (expr rk h b))"
      using less(3) by (auto simp: expr_unfold [OF assms x] nodes_unfold nodesOf_def)
    then show ?thesis using less(1) [of b] n(4,5) by auto
  qed
qed

lemma expr_ok:
  assumes "okStore rk h" and "hnodes h a \<noteq> None"
  shows "okTrees okNode [expr rk h a] (hnext h)"
  using expr_nodes [OF assms] okStore_node(1) [OF assms(1)] by (auto simp: okTrees_def) metis

lemma flattenRepetition_ok:
  assumes "okTrees okNode [r] p"
  shows "\<exists>u r' p'. flattenRepetition r p = Ok (u, r', p') \<and> okTrees okNode [r'] p' \<and> (\<forall>s. sem s r' = sem s r)"
proof -
  note s = storeOf_simps [OF assms self_node [of r]]
  have "\<exists>u a' h' rk'. flattenNode (Suc (size r)) (addr r) (storeOf r p) = Some (Ok (u, a', h')) \<and>
      evolves (rankOf r) (storeOf r p) rk' h' \<and> hnodes h' a' \<noteq> None \<and> rk' a' = rankOf r (addr r) \<and>
      den rk' h' a' = den (rankOf r) (storeOf r p) (addr r)"
    using flattenNode_ok [of "Suc (size r)"] storeOf_ok [OF assms] s(1,3) unfolding flattens_def by (metis lessI option.distinct(1))
  then obtain u a' h' rk' where f: "flattenNode (Suc (size r)) (addr r) (storeOf r p) = Some (Ok (u, a', h'))"
      "evolves (rankOf r) (storeOf r p) rk' h'" "hnodes h' a' \<noteq> None" "rk' a' = rankOf r (addr r)"
      "den rk' h' a' = den (rankOf r) (storeOf r p) (addr r)" by blast
  have ok: "okStore rk' h'" using f(2) by (simp add: evolves_def)
  have "readTree (Suc (size r)) h' a' = expr rk' h' a'" using f(4) s(3) by (simp add: expr_def)
  moreover have "sem s (expr rk' h' a') = sem s r" for s
    using fun_cong [OF f(5), of s] expr_storeOf [OF assms self_node [of r]] by (simp add: den_def)
  ultimately show ?thesis using f(1) expr_ok [OF ok f(3)] by (simp add: flattenRepetition_def)
qed


section \<open>A round of the optimizer\<close>

lemma okTrees_wf: "okTrees okNode [r] p \<Longrightarrow> wf_re r \<and> parts_ok r"
  by (auto simp: okTrees_def okNode_def wf_re_def parts_ok_def)

text \<open>Trimming makes a concatenation of some of the parts.\<close>

definition trimmed :: "regexp \<Rightarrow> nat \<Rightarrow> regexp \<Rightarrow> nat \<Rightarrow> bool" where
  "trimmed r p r' p' \<longleftrightarrow>
     p \<le> p' \<and> (r' = r \<or> op r = OpConcat \<and> (\<exists>q ss. p \<le> q \<and> q < p' \<and> set ss \<subseteq> set (sub r) \<and> r' = with_sub q ss r))"

lemma trimmed_step:
  assumes "trimmed r p r1 p1" and "r2 = r1 \<or> op r1 = OpConcat \<and> (\<exists>ss. set ss \<subseteq> set (sub r1) \<and> r2 = with_sub p1 ss r1)"
  shows "trimmed r p r2 (p1 + 1)"
  using assms by (auto simp: trimmed_def)

lemma set_tl: "set (tl xs) \<subseteq> set xs" and set_butlast: "set (butlast xs) \<subseteq> set xs"
  by (cases xs) (auto dest: in_set_butlastD)

lemma trimLeft_form: "snd (trimLeft p r) = r \<or> op r = OpConcat \<and> (\<exists>ss. set ss \<subseteq> set (sub r) \<and> snd (trimLeft p r) = with_sub p ss r)"
  using set_tl [of "sub r"] by (auto simp: trimLeft_def eqPrefixAnyRegex_def eqPrefixRegex_def)

lemma trimRight_form: "snd (trimRight p r) = r \<or> op r = OpConcat \<and> (\<exists>ss. set ss \<subseteq> set (sub r) \<and> snd (trimRight p r) = with_sub p ss r)"
  using set_butlast [of "sub r"] by (auto simp: trimRight_def eqSuffixAnyRegex_def eqSuffixRegex_def)

lemma unconcat_derived:
  assumes ok: "okTrees plainNode [r] p" and t: "trimmed r p r2 p2"
  shows "derived plainNode [r] p [snd (unconcat p2 r2)] (p2 + 1)" and "parts_ok r2"
proof -
  have p: "p \<le> p2" using t by (simp add: trimmed_def)
  have b: "below [r] p" using okTrees_below [OF ok] .
  have r: "plainNode r" using okTrees_self [OF ok] .
  have subs: "set ss \<subseteq> set (sub r) \<Longrightarrow> nodesOf ss \<subseteq> nodesOf [r]" for ss
    using nodesOf_mono [of ss "sub r"] sub_nodesOf [of r] by auto
  have fresh: "derived plainNode [r] p [Regexp p2 OpEmptyMatch fl [] [] 0 0] (p2 + 1)" for fl
    using derived_node [OF derived_part [OF b, of "[]"] b, of p2 plainNode OpEmptyMatch fl "[]" 0 0] p by (simp add: plainNode_def okNode_def)
  have keep: "derived plainNode [r] p [x] (p2 + 1)" if "nodesOf [x] \<subseteq> nodesOf [r]" for x
    using derived_part [OF b that] p by simp
  have part: "derived plainNode [r] p [x] (p2 + 1)" if "x \<in> set (sub r)" for x
    using keep [of x] subs [of "[x]"] that by simp
  consider "r2 = r" | q ss where "op r = OpConcat" "p \<le> q" "q < p2" "set ss \<subseteq> set (sub r)" "r2 = with_sub q ss r"
    using t by (auto simp: trimmed_def)
  then have "derived plainNode [r] p [snd (unconcat p2 r2)] (p2 + 1) \<and> parts_ok r2"
  proof cases
    case 1
    have "parts_ok r" using okTrees_wf [OF plain_ok [OF ok]] by simp
    moreover have "snd (unconcat p2 r) \<in> insert r (set (sub r)) \<or> (\<exists>fl. snd (unconcat p2 r) = Regexp p2 OpEmptyMatch fl [] [] 0 0)"
      using r by (auto simp: unconcat_def plainNode_def)
    ultimately show ?thesis using 1 keep [of r] part fresh by auto
  next
    case 2
    have np: "parts_ok x" if "x \<in> set ss" for x
      using okTrees_wf [OF plain_ok [OF okTrees_sub [OF ok subs, of "[x]"]]] that 2(4) by auto
    then have ok2: "parts_ok r2" using 2(1) by (auto simp: 2(5) parts_ok_def nodes_unfold nodesOf_def)
    have c2: "op r2 = OpConcat" "sub r2 = ss" using 2(1,5) by simp_all
    show ?thesis
    proof (cases "length ss \<le> 1")
      case True
      then have "snd (unconcat p2 r2) \<in> set ss \<or> (\<exists>fl. snd (unconcat p2 r2) = Regexp p2 OpEmptyMatch fl [] [] 0 0)"
        using c2 by (auto simp: unconcat_def)
      then show ?thesis using 2(4) part fresh ok2 by auto
    next
      case False
      then have "snd (unconcat p2 r2) = r2" using c2 by (simp add: unconcat_def)
      moreover have "derived plainNode [r] p [r2] (q + 1)"
      proof -
        have "plainNode (with_sub q ss r)" using 2(1) False by (auto simp: plainNode_def okNode_def)
        from derived_node [where Q = plainNode, OF derived_part [OF b subs [OF 2(4)] 2(2)] b this] show ?thesis by (simp add: 2(5))
      qed
      then have "derived plainNode [r] p [r2] (p2 + 1)" using 2(3) by (auto simp: derived_def)
      ultimately show ?thesis using ok2 by simp
    qed
  qed
  then show "derived plainNode [r] p [snd (unconcat p2 r2)] (p2 + 1)" "parts_ok r2" by simp_all
qed


text \<open>
  What simplification promises for an expression: an expression with ASCII literals and without counted repetitions,
  whose new nodes have new addresses, and which has the same meaning on ASCII text without a newline.
\<close>

definition simplifies :: "(regexp \<Rightarrow> nat \<Rightarrow> regexp \<times> nat) \<Rightarrow> regexp \<Rightarrow> nat \<Rightarrow> bool" where
  "simplifies Simplify r p \<longleftrightarrow> (case Simplify r p of (r', p') \<Rightarrow> okTrees plainNode [r'] p' \<and> (\<forall>s. one_line s \<longrightarrow> sem s r' = sem s r))"

lemma round_ok:
  assumes "simplifies Simplify r p"
  shows "\<exists>c r' p'. applyAll (transformations Simplify) False r p = Ok (c, r', p') \<and> okTrees okNode [r'] p' \<and>
    (\<forall>s. one_line s \<longrightarrow> search s r' = search s r)"
proof -
  obtain r1 p1 where s: "Simplify r p = (r1, p1)" by (cases "Simplify r p")
  then have ok1: "okTrees plainNode [r1] p1" and sem1: "\<And>t. one_line t \<Longrightarrow> sem t r1 = sem t r" using assms by (simp_all add: simplifies_def)
  obtain m r2 p2 where u: "uncapture r1 p1 = (m, r2, p2)" by (cases "uncapture r1 p1")
  have ok2: "okTrees plainNode [r2] p2" using derived_ok [OF ok1 uncapture_derived(1) [OF ok1 u]] .
  have sem2: "sem t r2 = sem t r1" for t
    using uncapture_sem(1) [of r1 t p1] okTrees_wf [OF plain_ok [OF ok1]] u by simp
  obtain m3 r3 where l: "trimLeft p2 r2 = (m3, r3)" by (cases "trimLeft p2 r2")
  obtain m4 r4 where t: "trimRight (p2 + 1) r3 = (m4, r4)" by (cases "trimRight (p2 + 1) r3")
  obtain m5 r5 where c: "unconcat (p2 + 2) r4 = (m5, r5)" by (cases "unconcat (p2 + 2) r4")
  have "trimmed r2 p2 r2 p2" by (simp add: trimmed_def)
  from trimmed_step [OF this] trimLeft_form [of p2 r2] l have t3: "trimmed r2 p2 r3 (p2 + 1)" by simp
  from trimmed_step [OF this] trimRight_form [of "p2 + 1" r3] t have t4: "trimmed r2 p2 r4 (p2 + 2)" by simp
  have ok5: "okTrees plainNode [r5] (p2 + 3)"
    using derived_ok [OF ok2 unconcat_derived(1) [OF ok2 t4]] c by (simp add: numeral_3_eq_3)
  have search5: "search x r5 = search x r2" if "one_line x" for x
    using trimLeft_search [OF that, of p2 r2] trimRight_search [OF that, of "p2 + 1" r3] unconcat_sem [OF unconcat_derived(2) [OF ok2 t4], of x "p2 + 2"]
      l t c by (simp add: search_def)
  obtain m6 r6 p6 where r6: "concatRepetition r5 (p2 + 3) = Ok (m6, r6, p6)" "derived okNode [r5] (p2 + 3) [r6] p6" "\<And>t. sem t r6 = sem t r5"
    using concatRepetition_ok(1) [OF ok5] by blast
  obtain m7 r7 p7 where r7: "flattenRepetition r6 p6 = Ok (m7, r7, p7)" "okTrees okNode [r7] p7" "\<And>t. sem t r7 = sem t r6"
    using flattenRepetition_ok [OF derived_ok [OF plain_ok [OF ok5] r6(2)]] by blast
  have "applyAll (transformations Simplify) False r p = Ok (m \<or> m3 \<or> m4 \<or> m5 \<or> m6 \<or> m7, r7, p7)"
    using s u l t c r6(1) r7(1) by (simp add: transformations_def simplify_def numeral_3_eq_3)
  moreover have "search x r7 = search x r" if "one_line x" for x
    using search5 [OF that] sem1 [OF that] sem2 [of x] r6(3) [of x] r7(3) [of x] by (simp add: search_def)
  ultimately show ?thesis using r7(2) by blast
qed


text \<open>
  C5. A round of the optimizer over all its transformations is sound on ASCII text without a newline. If simplification
  returns an expression with ASCII literals, without counted repetitions and with the same meaning on such text, the round does
  not panic, the result is a well-formed tree and finds a match in a text of this kind exactly when the expression did
  before, although parts of the tree are shared and changed in place; the loop goes on exactly when a transformation has
  changed the expression, and returns the result otherwise. (With newlines two of the transformations do change
  what is found: \<open>newline_divergence\<close>.)
\<close>

theorem optimizer_round:
  assumes "simplifies Simplify r p"
  shows "\<exists>changed r' p'. applyAll (transformations Simplify) False r p = Ok (changed, r', p') \<and> wf_re r' \<and> parts_ok r' \<and>
    (\<forall>s. one_line s \<longrightarrow> search s r' = search s r) \<and>
    optimize Simplify r p = (if changed then optimize Simplify r' p' else Some (Ok (r', p')))"
proof -
  obtain c r' p' where r: "applyAll (transformations Simplify) False r p = Ok (c, r', p')" "okTrees okNode [r'] p'"
      "\<forall>s. one_line s \<longrightarrow> search s r' = search s r"
    using round_ok [OF assms] by blast
  have "optimize Simplify r p = (if c then optimize Simplify r' p' else Some (Ok (r', p')))"
    by (subst optimize.simps) (simp add: r(1))
  then show ?thesis using r okTrees_wf [OF r(2)] by blast
qed

definition twoDigits :: regexp where
  "twoDigits = Regexp 40 OpConcat Perl [Regexp 41 OpCharClass Perl [] [48, 57] 0 0, Regexp 42 OpCharClass Perl [] [48, 57] 0 0] [] 0 0"

theorem optimizer_round_witness:
  "\<exists>r' p'. applyAll (transformations (\<lambda>r p. (r, p))) False twoDigits 43 = Ok (True, r', p') \<and>
     search ''42'' r' = search ''42'' twoDigits"
proof -
  have "okTrees plainNode [twoDigits] 43"
    by (simp add: okTrees_def twoDigits_def nodes_unfold plainNode_def okNode_def)
  then have "simplifies (\<lambda>r p. (r, p)) twoDigits 43" by (simp add: simplifies_def)
  from optimizer_round [OF this] obtain c r' p' where
    r: "applyAll (transformations (\<lambda>r p. (r, p))) False twoDigits 43 = Ok (c, r', p')"
       "one_line ''42'' \<longrightarrow> search ''42'' r' = search ''42'' twoDigits" by blast
  have "(case applyAll (transformations (\<lambda>r p. (r, p))) False twoDigits 43 of Ok (c, _) \<Rightarrow> c | _ \<Rightarrow> False)" by code_simp
  moreover have "one_line ''42''" by code_simp
  ultimately show ?thesis using r by auto
qed

text \<open>What the whole loop returns, and the matchers compiled of it.\<close>

lemma optimize_sound:
  assumes "optimize Simplify r p = Some res" and "\<forall>r p. okTrees okNode [r] p \<longrightarrow> simplifies Simplify r p" and "okTrees okNode [r] p"
  shows "\<exists>r' p'. res = Ok (r', p') \<and> okTrees okNode [r'] p' \<and> (\<forall>s. one_line s \<longrightarrow> search s r' = search s r)"
proof -
  have "(\<forall>r p. okTrees okNode [r] p \<longrightarrow> simplifies Simplify r p) \<longrightarrow> okTrees okNode [r] p \<longrightarrow>
      (\<exists>r' p'. res = Ok (r', p') \<and> okTrees okNode [r'] p' \<and> (\<forall>s. one_line s \<longrightarrow> search s r' = search s r))"
  proof (rule optimize.raw_induct [OF _ assms(1), where P = "\<lambda>Simplify r p res.
      (\<forall>r p. okTrees okNode [r] p \<longrightarrow> simplifies Simplify r p) \<longrightarrow> okTrees okNode [r] p \<longrightarrow>
      (\<exists>r' p'. res = Ok (r', p') \<and> okTrees okNode [r'] p' \<and> (\<forall>s. one_line s \<longrightarrow> search s r' = search s r))"], intro impI, goal_cases)
    case (1 loop Simplify r p res)
    then obtain c r1 p1 where r1: "applyAll (transformations Simplify) False r p = Ok (c, r1, p1)" "okTrees okNode [r1] p1"
        "\<forall>s. one_line s \<longrightarrow> search s r1 = search s r"
      using round_ok [of Simplify r p] by blast
    show ?case
    proof (cases c)
      case True
      then have "loop Simplify r1 p1 = Some res" using 1(2) r1(1) by simp
      from 1(1) [OF this] show ?thesis using 1(3) r1(2,3) by blast
    next
      case False
      then show ?thesis using 1(2) r1 by auto
    qed
  qed
  then show ?thesis using assms(2,3) by blast
qed

text \<open>
  A compiled pattern decides whether the parsed expression has a match, whenever the loop of the optimizer ends and leaves no
  concatenation of one part.
\<close>

lemma compileOptimized_sound:
  assumes "\<forall>r p. okTrees okNode [r] p \<longrightarrow> simplifies (SimplifyR L) r p" and "\<forall>r f. stdCompile L r = Some f \<longrightarrow> f s = search s r"
    and "okTrees okNode [r] p" and opt: "optimize (SimplifyR L) r p = Some (Ok (r', p'))" and "wf_top (fst (SimplifyR L r' p'))"
    and "one_line s" and m: "compileOptimized L r p = Some (Ok m)"
  shows "MatchString m s = Ok (search s r)"
proof -
  have r': "okTrees okNode [r'] p'" "search s r' = search s r"
    using optimize_sound [OF opt assms(1,3)] assms(6) by auto
  have "search s (fst (SimplifyR L r' p')) = search s r'"
    using assms(1,6) r'(1) by (cases "SimplifyR L r' p'") (force simp: simplifies_def search_def)
  moreover have "compile (stdCompile L) (fst (SimplifyR L r' p')) = Ok m" using m opt by (simp add: compileOptimized_def)
  ultimately show ?thesis using compile_ok [of "stdCompile L", OF _ assms(5,6)] assms(2) r'(2) by auto
qed

end
