(* ===== verification/Tls.thy ===== *)
theory Tls
  imports Go_Utf8 "HOL-Library.Char_ord"
begin

text \<open>
  Package \<open>tlscommon\<close> (src/transport/tlscommon): TLS settings and what a connection is checked for. The
  settings of versions, cipher suites, curves and modes (types.go, versions.go, versions_default.go,
  versions_nofips.go, types_nofips.go), matching of host names (validhostname.go), pins of
  certificates (ca_pinning.go) and the verification of a connection (tls_config.go).

  The cryptography of the standard library is a record of functions: verifying a certificate against
  roots and intermediates, hashing, decoding, reading an IP address. An IP address is a number, so
  that two forms of one address are equal. A pool of certificates is a list. The build without the
  FIPS restriction is modelled; logging is left out.
\<close>

section \<open>Settings\<close>

text \<open>A value of a configuration: nil, a string, a signed or an unsigned number, or another value.\<close>

datatype cfgval = CNil | CStr string | CInt64 "64 word" | CUint64 "64 word" | COther

datatype tls_error =
    ErrInvalidVersion | ErrUnsupportedVersion | ErrVerificationMode | ErrUnsupportedMode | ErrClientAuthMode
  | ErrCipherSuite | ErrUnsupportedCipherSuite | ErrCurveType | ErrUnsupportedCurveType | ErrRenegotiation
  | ErrUnknownType | ErrMarshal | ErrKeyUnspecified | ErrCertificateUnspecified
  | ErrMissingPeerCertificate | ErrCAPinMissmatch | ErrFingerprint | ErrVerify | ErrHostname | ErrInvalidHostname

type_synonym TLSVersion = "16 word"

definition TLSVersion10 :: TLSVersion where "TLSVersion10 = 0x0301"
definition TLSVersion11 :: TLSVersion where "TLSVersion11 = 0x0302"
definition TLSVersion12 :: TLSVersion where "TLSVersion12 = 0x0303"
definition TLSVersion13 :: TLSVersion where "TLSVersion13 = 0x0304"

text \<open>The variables of the package that \<open>SetInsecureDefaults\<close> changes.\<close>

record defaults =
  TLSVersionMin :: TLSVersion
  TLSVersionDefaultMin :: TLSVersion
  TLSDefaultVersions :: "TLSVersion list"

definition TLSVersionMax :: TLSVersion where "TLSVersionMax = TLSVersion13"

definition initialDefaults :: defaults where
  "initialDefaults = \<lparr>TLSVersionMin = TLSVersion11, TLSVersionDefaultMin = TLSVersion12,
     TLSDefaultVersions = [TLSVersion12, TLSVersion13]\<rparr>"

definition SetInsecureDefaults :: "defaults \<Rightarrow> defaults" where
  "SetInsecureDefaults _ = \<lparr>TLSVersionMin = TLSVersion10, TLSVersionDefaultMin = TLSVersion11,
     TLSDefaultVersions = [TLSVersion11, TLSVersion12, TLSVersion13]\<rparr>"

definition tlsProtocolVersions :: "(string, TLSVersion) gomap" where
  "tlsProtocolVersions = [(''TLSv1'', TLSVersion10), (''TLSv1.0'', TLSVersion10), (''TLSv1.1'', TLSVersion11),
     (''TLSv1.2'', TLSVersion12), (''TLSv1.3'', TLSVersion13)]"

record TLSVersionDetails =
  Version :: string
  Protocol :: string
  Combined :: string

definition tlsInverseLookup :: "(TLSVersion, TLSVersionDetails) gomap" where
  "tlsInverseLookup =
     [(TLSVersion10, \<lparr>Version = ''1.0'', Protocol = ''tls'', Combined = ''TLSv1.0''\<rparr>),
      (TLSVersion11, \<lparr>Version = ''1.1'', Protocol = ''tls'', Combined = ''TLSv1.1''\<rparr>),
      (TLSVersion12, \<lparr>Version = ''1.2'', Protocol = ''tls'', Combined = ''TLSv1.2''\<rparr>),
      (TLSVersion13, \<lparr>Version = ''1.3'', Protocol = ''tls'', Combined = ''TLSv1.3''\<rparr>)]"

definition TLSVersion_Details :: "TLSVersion \<Rightarrow> TLSVersionDetails option" where
  "TLSVersion_Details v = map_of tlsInverseLookup v"

definition TLSVersion_String :: "TLSVersion \<Rightarrow> string" where
  "TLSVersion_String v = (case TLSVersion_Details v of Some details \<Rightarrow> Combined details | None \<Rightarrow> ''unknown'')"

text \<open>A number of 64 bits is cut to the width of the type.\<close>

fun TLSVersion_Unpack :: "cfgval \<Rightarrow> (tls_error, TLSVersion) outcome" where
  "TLSVersion_Unpack (CStr o1) =
     (case map_of tlsProtocolVersions o1 of None \<Rightarrow> Err ErrInvalidVersion | Some version \<Rightarrow> Ok version)"
| "TLSVersion_Unpack (CInt64 o1) = Ok (ucast o1)"
| "TLSVersion_Unpack (CUint64 o1) = Ok (ucast o1)"
| "TLSVersion_Unpack _ = Err ErrUnknownType"

definition TLSVersion_Validate :: "defaults \<Rightarrow> TLSVersion \<Rightarrow> (tls_error, unit) outcome" where
  "TLSVersion_Validate df v = (if v < TLSVersionMin df \<or> v > TLSVersionMax then Err ErrUnsupportedVersion else Ok ())"

fun minMaxLoop :: "TLSVersion list \<Rightarrow> TLSVersion \<Rightarrow> TLSVersion \<Rightarrow> TLSVersion \<times> TLSVersion" where
  "minMaxLoop [] minVersion maxVersion = (minVersion, maxVersion)"
| "minMaxLoop (v # vs) minVersion maxVersion =
     minMaxLoop vs (if v < minVersion then v else minVersion) (if v > maxVersion then v else maxVersion)"

definition extractMinMaxVersion :: "defaults \<Rightarrow> TLSVersion list \<Rightarrow> TLSVersion \<times> TLSVersion" where
  "extractMinMaxVersion df versions =
     minMaxLoop (if length versions = 0 then TLSDefaultVersions df else versions) 0xffff 0"

subsection \<open>Named values\<close>

text \<open>The inverse tables \<open>init\<close> builds: the last name of a value wins.\<close>

definition invertTable :: "(string, 'v) gomap \<Rightarrow> ('v, string) gomap" where
  "invertTable t = fold (\<lambda>(name, v) m. map_put v name m) t []"

type_synonym TLSVerificationMode = "8 word"

definition VerifyFull :: TLSVerificationMode where "VerifyFull = 0"
definition VerifyNone :: TLSVerificationMode where "VerifyNone = 1"
definition VerifyCertificate :: TLSVerificationMode where "VerifyCertificate = 2"
definition VerifyStrict :: TLSVerificationMode where "VerifyStrict = 3"

definition tlsVerificationModes :: "(string, TLSVerificationMode) gomap" where
  "tlsVerificationModes = [(''full'', VerifyFull), (''strict'', VerifyStrict), (''none'', VerifyNone),
     (''certificate'', VerifyCertificate)]"

definition nameOf :: "(string, 'v) gomap \<Rightarrow> string \<Rightarrow> 'v \<Rightarrow> string" where
  "nameOf t unknown m = (case map_of (invertTable t) m of Some s \<Rightarrow> s | None \<Rightarrow> unknown)"

definition marshalText :: "(string, 'v) gomap \<Rightarrow> 'v \<Rightarrow> (tls_error, string) outcome" where
  "marshalText t m = (case map_of (invertTable t) m of Some s \<Rightarrow> Ok s | None \<Rightarrow> Err ErrMarshal)"

definition VerificationMode_String :: "TLSVerificationMode \<Rightarrow> string" where
  "VerificationMode_String m = nameOf tlsVerificationModes ''unknown'' m"

definition VerificationMode_MarshalText :: "TLSVerificationMode \<Rightarrow> (tls_error, string) outcome" where
  "VerificationMode_MarshalText m = marshalText tlsVerificationModes m"

fun VerificationMode_Unpack :: "cfgval \<Rightarrow> (tls_error, TLSVerificationMode) outcome" where
  "VerificationMode_Unpack CNil = Ok VerifyFull"
| "VerificationMode_Unpack (CStr o1) =
     (if o1 = [] then Ok VerifyFull
      else (case map_of tlsVerificationModes o1 of None \<Rightarrow> Err ErrVerificationMode | Some mode \<Rightarrow> Ok mode))"
| "VerificationMode_Unpack (CInt64 o1) = Ok (ucast o1)"
| "VerificationMode_Unpack (CUint64 o1) = Ok (ucast o1)"
| "VerificationMode_Unpack COther = Err ErrUnknownType"

definition VerificationMode_Validate :: "TLSVerificationMode \<Rightarrow> (tls_error, unit) outcome" where
  "VerificationMode_Validate m = (if m > VerifyStrict then Err ErrUnsupportedMode else Ok ())"

text \<open>The modes of client authentication are integers of 64 bits.\<close>

type_synonym TLSClientAuth = "64 word"

definition TLSClientAuthNone :: TLSClientAuth where "TLSClientAuthNone = 0"
definition TLSClientAuthOptional :: TLSClientAuth where "TLSClientAuthOptional = 3"
definition TLSClientAuthRequired :: TLSClientAuth where "TLSClientAuthRequired = 4"

definition tlsClientAuthTypes :: "(string, TLSClientAuth) gomap" where
  "tlsClientAuthTypes = [(''none'', TLSClientAuthNone), (''optional'', TLSClientAuthOptional), (''required'', TLSClientAuthRequired)]"

definition ClientAuth_String :: "TLSClientAuth \<Rightarrow> string" where
  "ClientAuth_String m = nameOf tlsClientAuthTypes ''unknown'' m"

definition ClientAuth_MarshalText :: "TLSClientAuth \<Rightarrow> (tls_error, string) outcome" where
  "ClientAuth_MarshalText m = marshalText tlsClientAuthTypes m"

fun ClientAuth_Unpack :: "cfgval \<Rightarrow> (tls_error, TLSClientAuth) outcome" where
  "ClientAuth_Unpack CNil = Ok TLSClientAuthNone"
| "ClientAuth_Unpack (CStr o1) =
     (if o1 = [] then Ok TLSClientAuthNone
      else (case map_of tlsClientAuthTypes o1 of None \<Rightarrow> Err ErrClientAuthMode | Some mode \<Rightarrow> Ok mode))"
| "ClientAuth_Unpack (CUint64 o1) = Ok o1"
| "ClientAuth_Unpack (CInt64 o1) = Ok o1"
| "ClientAuth_Unpack COther = Err ErrUnknownType"


type_synonym CipherSuite = "16 word"

definition tlsCipherSuites :: "(string, CipherSuite) gomap" where
  "tlsCipherSuites =
    [(''ECDHE-ECDSA-AES-128-CBC-SHA'', 0xc009), (''ECDHE-ECDSA-AES-128-CBC-SHA256'', 0xc023),
     (''ECDHE-ECDSA-AES-128-GCM-SHA256'', 0xc02b), (''ECDHE-ECDSA-AES-256-CBC-SHA'', 0xc00a),
     (''ECDHE-ECDSA-AES-256-GCM-SHA384'', 0xc02c), (''ECDHE-ECDSA-CHACHA20-POLY1305'', 0xcca9),
     (''ECDHE-ECDSA-RC4-128-SHA'', 0xc007), (''ECDHE-RSA-3DES-CBC3-SHA'', 0xc012),
     (''ECDHE-RSA-AES-128-CBC-SHA'', 0xc013), (''ECDHE-RSA-AES-128-CBC-SHA256'', 0xc027),
     (''ECDHE-RSA-AES-128-GCM-SHA256'', 0xc02f), (''ECDHE-RSA-AES-256-CBC-SHA'', 0xc014),
     (''ECDHE-RSA-AES-256-GCM-SHA384'', 0xc030), (''ECDHE-RSA-CHACHA20-POLY1205'', 0xcca8),
     (''ECDHE-RSA-RC4-128-SHA'', 0xc011), (''RSA-RC4-128-SHA'', 0x0005), (''RSA-3DES-CBC3-SHA'', 0x000a),
     (''RSA-AES-128-CBC-SHA'', 0x002f), (''RSA-AES-128-CBC-SHA256'', 0x003c), (''RSA-AES-128-GCM-SHA256'', 0x009c),
     (''RSA-AES-256-CBC-SHA'', 0x0035), (''RSA-AES-256-GCM-SHA384'', 0x009d), (''TLS-AES-128-GCM-SHA256'', 0x1301),
     (''TLS-AES-256-GCM-SHA384'', 0x1302), (''TLS-CHACHA20-POLY1305-SHA256'', 0x1303)]"

fun CipherSuite_Unpack :: "cfgval \<Rightarrow> (tls_error, CipherSuite) outcome" where
  "CipherSuite_Unpack (CStr o1) =
     (case map_of tlsCipherSuites o1 of None \<Rightarrow> Err ErrCipherSuite | Some suite \<Rightarrow> Ok suite)"
| "CipherSuite_Unpack (CInt64 o1) = Ok (ucast o1)"
| "CipherSuite_Unpack (CUint64 o1) = Ok (ucast o1)"
| "CipherSuite_Unpack _ = Err ErrUnknownType"

text \<open>Without the FIPS restriction every suite of the table is supported.\<close>

definition CipherSuite_Validate :: "CipherSuite \<Rightarrow> (tls_error, unit) outcome" where
  "CipherSuite_Validate cs =
     (case map_of (invertTable tlsCipherSuites) cs of None \<Rightarrow> Err ErrUnsupportedCipherSuite | Some _ \<Rightarrow> Ok ())"

definition CipherSuite_String :: "CipherSuite \<Rightarrow> string" where
  "CipherSuite_String cs = nameOf tlsCipherSuites ''unknown'' cs"

definition tlsCurveTypes :: "(string, 16 word) gomap" where
  "tlsCurveTypes = [(''P-256'', 23), (''P-384'', 24), (''P-521'', 25), (''X25519'', 29)]"

fun curveType_Unpack :: "cfgval \<Rightarrow> (tls_error, 16 word) outcome" where
  "curveType_Unpack (CStr o1) =
     (case map_of tlsCurveTypes o1 of None \<Rightarrow> Err ErrCurveType | Some t \<Rightarrow> Ok t)"
| "curveType_Unpack (CInt64 o1) = Ok (ucast o1)"
| "curveType_Unpack (CUint64 o1) = Ok (ucast o1)"
| "curveType_Unpack _ = Err ErrUnknownType"

definition curveType_Validate :: "16 word \<Rightarrow> (tls_error, unit) outcome" where
  "curveType_Validate ct =
     (case map_of (invertTable tlsCurveTypes) ct of None \<Rightarrow> Err ErrUnsupportedCurveType | Some _ \<Rightarrow> Ok ())"

definition tlsRenegotiationSupportTypes :: "(string, 64 word) gomap" where
  "tlsRenegotiationSupportTypes = [(''never'', 0), (''once'', 1), (''freely'', 2)]"

definition Renegotiation_String :: "64 word \<Rightarrow> string" where
  "Renegotiation_String r = nameOf tlsRenegotiationSupportTypes ''<unknown>'' r"

fun Renegotiation_Unpack :: "cfgval \<Rightarrow> (tls_error, 64 word) outcome" where
  "Renegotiation_Unpack (CStr o1) =
     (case map_of tlsRenegotiationSupportTypes o1 of None \<Rightarrow> Err ErrRenegotiation | Some t \<Rightarrow> Ok t)"
| "Renegotiation_Unpack (CInt64 o1) = Ok o1"
| "Renegotiation_Unpack (CUint64 o1) = Ok o1"
| "Renegotiation_Unpack _ = Err ErrUnknownType"

definition Renegotiation_MarshalText :: "64 word \<Rightarrow> (tls_error, string) outcome" where
  "Renegotiation_MarshalText r = marshalText tlsRenegotiationSupportTypes r"

record CertificateConfig =
  Certificate :: string
  Key :: string
  Passphrase :: string
  PassphrasePath :: string

definition CertificateConfig_Validate :: "CertificateConfig \<Rightarrow> (tls_error, unit) outcome" where
  "CertificateConfig_Validate c =
     (let hasCertificate = Certificate c \<noteq> []; hasKey = Key c \<noteq> [] in
      if hasCertificate \<and> \<not> hasKey then Err ErrKeyUnspecified
      else if \<not> hasCertificate \<and> hasKey then Err ErrCertificateUnspecified
      else Ok ())"

text \<open>The settings a client and a server share, and each of the two.\<close>

record CommonConfig =
  Enabled :: "bool option"
  VerificationMode :: TLSVerificationMode
  Versions :: "TLSVersion list"
  CipherSuites :: "CipherSuite list"
  CAs :: "string list"
  CertConfig :: CertificateConfig
  CurveTypes :: "16 word list"
  cfgCASha256 :: "string list"

record Config = CommonConfig +
  cfgRenegotiation :: "64 word"
  cfgTrustedFingerprint :: string

record ServerConfig = CommonConfig +
  cfgClientAuth :: "TLSClientAuth option"

fun validateAll :: "('v \<Rightarrow> (tls_error, unit) outcome) \<Rightarrow> 'v list \<Rightarrow> (tls_error, unit) outcome" where
  "validateAll f [] = Ok ()"
| "validateAll f (v # vs) = bind_outcome (f v) (\<lambda>_. validateAll f vs)"

definition Config_Validate :: "defaults \<Rightarrow> 'c CommonConfig_scheme \<Rightarrow> (tls_error, unit) outcome" where
  "Config_Validate df c =
     bind_outcome (validateAll (TLSVersion_Validate df) (Versions c)) (\<lambda>_.
     bind_outcome (validateAll CipherSuite_Validate (CipherSuites c)) (\<lambda>_.
     bind_outcome (validateAll curveType_Validate (CurveTypes c)) (\<lambda>_.
     CertificateConfig_Validate (CertConfig c))))"

definition Config_IsEnabled :: "'c CommonConfig_scheme option \<Rightarrow> bool" where
  "Config_IsEnabled c = (case c of None \<Rightarrow> False | Some cfg \<Rightarrow> (case Enabled cfg of None \<Rightarrow> True | Some b \<Rightarrow> b))"

definition ServerConfig_Validate :: "defaults \<Rightarrow> ServerConfig \<Rightarrow> (tls_error, unit) outcome" where
  "ServerConfig_Validate df c =
     (if Config_IsEnabled (Some c) \<and> Certificate (CertConfig c) = [] then Err ErrCertificateUnspecified
      else Config_Validate df c)"

section \<open>Host names\<close>

text \<open>A range loop over the characters, which stops at an invalid sequence or an upper-case letter.\<close>

definition isAlreadyLowerCase :: "string \<Rightarrow> bool" where
  "isAlreadyLowerCase s = list_all (\<lambda>c. \<not> (c = RuneError) \<and> \<not> (65 \<le> c \<and> c \<le> 90)) (runes s)"

definition toLowerCaseASCII :: "string \<Rightarrow> string" where
  "toLowerCaseASCII s = (if isAlreadyLowerCase s then s else map lower_byte s)"

fun matchParts :: "bool \<Rightarrow> string list \<Rightarrow> string list \<Rightarrow> bool" where
  "matchParts isFirst [] hs = True"
| "matchParts isFirst (p # ps) (h # hs) =
     (if isFirst \<and> p = ''*'' then matchParts False ps hs
      else if p \<noteq> h then False else matchParts False ps hs)"
| "matchParts isFirst (p # ps) [] = False"

definition matchHostnames :: "string \<Rightarrow> string \<Rightarrow> bool" where
  "matchHostnames pattern host =
     (let pattern = toLowerCaseASCII pattern; host = toLowerCaseASCII (trim_suffix host ''.'') in
      if length pattern = 0 \<or> length host = 0 then False
      else (let patternParts = split_byte CHR ''.'' pattern; hostParts = split_byte CHR ''.'' host in
            if length patternParts \<noteq> length hostParts then False else matchParts True patternParts hostParts))"

text \<open>A character beyond ASCII is never valid, so the bytes of a label are looked at; \<open>j\<close> is the position.\<close>

fun validLabel :: "nat \<Rightarrow> string \<Rightarrow> bool" where
  "validLabel j [] = True"
| "validLabel j (c # cs) =
     (if CHR ''a'' \<le> c \<and> c \<le> CHR ''z'' \<or> CHR ''0'' \<le> c \<and> c \<le> CHR ''9'' \<or> CHR ''A'' \<le> c \<and> c \<le> CHR ''Z'' \<or>
         c = CHR ''-'' \<and> j \<noteq> 0 \<or> c = CHR ''_''
      then validLabel (j + 1) cs else False)"

fun validLabels :: "bool \<Rightarrow> string list \<Rightarrow> bool" where
  "validLabels wild [] = True"
| "validLabels wild (part # parts) =
     (if part = [] then False
      else if wild \<and> part = ''*'' then validLabels False parts
      else validLabel 0 part \<and> validLabels False parts)"

definition validHostname :: "string \<Rightarrow> bool \<Rightarrow> bool" where
  "validHostname host isPattern =
     (let host = (if \<not> isPattern then trim_suffix host ''.'' else host) in
      if length host = 0 then False else validLabels isPattern (split_byte CHR ''.'' host))"


section \<open>Verifying a connection\<close>

record certificate =
  Raw :: string
  RawSubjectPublicKeyInfo :: string
  IsCA :: bool
  DNSNames :: "string list"
  IPAddresses :: "nat list"
  CommonName :: string

text \<open>
  The standard library: verifying a certificate against roots (None: the system's) and intermediates,
  for any key usage or for servers only, with the chains found; SHA-256; base64; hex; IP addresses.
\<close>

record lib =
  verify :: "certificate \<Rightarrow> certificate list option \<Rightarrow> certificate list \<Rightarrow> bool \<Rightarrow> certificate list list option"
  sha256 :: "string \<Rightarrow> string"
  base64 :: "string \<Rightarrow> string"
  hexDecode :: "string \<Rightarrow> string option"
  parseIP :: "string \<Rightarrow> nat option"

record connectionState =
  PeerCertificates :: "certificate list"
  VerifiedChains :: "certificate list list"

text \<open>A pair of certificates and key a side presents.\<close>

record keypair =
  certDER :: "string list"
  privateKey :: string

record TLSConfig =
  versions :: "TLSVersion list"
  Verification :: TLSVerificationMode
  Certificates :: "keypair list"
  RootCAs :: "certificate list option"
  ClientCAs :: "certificate list option"
  cipherSuites :: "CipherSuite list"
  CurvePreferences :: "16 word list"
  Renegotiation :: "64 word"
  ClientAuth :: TLSClientAuth
  CASha256 :: "string list"
  CATrustedFingerprint :: string
  ServerName :: string

definition Fingerprint :: "lib \<Rightarrow> certificate \<Rightarrow> string" where
  "Fingerprint L c = base64 L (sha256 L (RawSubjectPublicKeyInfo c))"

fun matches :: "string list \<Rightarrow> string \<Rightarrow> bool" where
  "matches [] candidate = False"
| "matches (pin # pins) candidate = (if pin = candidate then True else matches pins candidate)"

fun pinInChain :: "lib \<Rightarrow> string list \<Rightarrow> certificate list \<Rightarrow> bool" where
  "pinInChain L hashes [] = False"
| "pinInChain L hashes (c # cs) = (if matches hashes (Fingerprint L c) then True else pinInChain L hashes cs)"

fun verifyCAPin :: "lib \<Rightarrow> string list \<Rightarrow> certificate list list \<Rightarrow> (tls_error, unit) outcome" where
  "verifyCAPin L hashes [] = Err ErrCAPinMissmatch"
| "verifyCAPin L hashes (ch # chs) = (if pinInChain L hashes ch then Ok () else verifyCAPin L hashes chs)"

text \<open>The first certificate must exist; the others are the intermediates.\<close>

definition verifyCertsWithOpts :: "lib \<Rightarrow> certificate list \<Rightarrow> string list \<Rightarrow> certificate list option \<Rightarrow> bool \<Rightarrow>
    (tls_error, unit) outcome" where
  "verifyCertsWithOpts L certs casha256 roots anyUsage =
     (case certs of
        [] \<Rightarrow> Panic
      | c # intermediates \<Rightarrow>
          (case verify L c roots intermediates anyUsage of
             None \<Rightarrow> Err ErrVerify
           | Some verifiedChains \<Rightarrow> if length casha256 > 0 then verifyCAPin L casha256 verifiedChains else Ok ()))"

fun dnsLoop :: "string list \<Rightarrow> string \<Rightarrow> (tls_error, unit) outcome" where
  "dnsLoop [] hostname = Err ErrHostname"
| "dnsLoop (name # names) hostname =
     (if matchHostnames name hostname then (if \<not> validHostname name True then Err ErrInvalidHostname else Ok ())
      else dnsLoop names hostname)"

definition verifyHostname :: "lib \<Rightarrow> certificate \<Rightarrow> string \<Rightarrow> (tls_error, unit) outcome" where
  "verifyHostname L cert hostname =
     (if hostname = [] then Ok ()
      else (let ip = (if length hostname \<ge> 3 \<and> hd hostname = CHR ''['' \<and> last hostname = CHR '']''
                      then butlast (tl hostname) else hostname) in
            case parseIP L ip of
              Some parsedIP \<Rightarrow>
                if list_ex (\<lambda>certIP. parsedIP = certIP) (IPAddresses cert) then Ok ()
                else if parseIP L (CommonName cert) = Some parsedIP then Ok ()
                else Err ErrHostname
            | None \<Rightarrow>
                let dnsnames = (if DNSNames cert = [] \<or> DNSNames cert = [[]]
                                then (if CommonName cert \<noteq> [] then [CommonName cert] else DNSNames cert)
                                else DNSNames cert)
                in dnsLoop dnsnames hostname))"

text \<open>
  Trusting the certificate authority of the peer that has the configured fingerprint. A pool takes a
  certificate once.
\<close>

definition AddCert :: "certificate list \<Rightarrow> certificate \<Rightarrow> certificate list" where
  "AddCert pool cert = (if cert \<in> set pool then pool else pool @ [cert])"

fun trustLoop :: "lib \<Rightarrow> string \<Rightarrow> certificate list \<Rightarrow> TLSConfig \<Rightarrow> TLSConfig" where
  "trustLoop L fingerprint [] cfg = cfg"
| "trustLoop L fingerprint (cert # certs) cfg =
     (if sha256 L (Raw cert) \<noteq> fingerprint then trustLoop L fingerprint certs cfg
      else if \<not> IsCA cert then trustLoop L fingerprint certs cfg
      else cfg\<lparr>RootCAs := Some (AddCert (case RootCAs cfg of None \<Rightarrow> [] | Some cas \<Rightarrow> cas) cert)\<rparr>)"

definition trustRootCA :: "lib \<Rightarrow> TLSConfig \<Rightarrow> certificate list \<Rightarrow> TLSConfig \<times> (tls_error, unit) outcome" where
  "trustRootCA L cfg peerCerts =
     (case hexDecode L (CATrustedFingerprint cfg) of
        None \<Rightarrow> (cfg, Err ErrFingerprint)
      | Some fingerprint \<Rightarrow> (trustLoop L fingerprint peerCerts cfg, Ok ()))"

text \<open>
  The functions a connection is verified with. A function gets the configuration as it is when it is
  called and returns it as it leaves it: earlier connections may have added a trusted authority.
\<close>

type_synonym verifier = "TLSConfig \<Rightarrow> connectionState \<Rightarrow> TLSConfig \<times> (tls_error, unit) outcome"

definition trustFirst :: "lib \<Rightarrow> verifier \<Rightarrow> verifier" where
  "trustFirst L f cfg cs =
     (if CATrustedFingerprint cfg \<noteq> [] then
        (case trustRootCA L cfg (PeerCertificates cs) of
           (cfg', Ok _) \<Rightarrow> f cfg' cs
         | (cfg', Err e) \<Rightarrow> (cfg', Err e)
         | (cfg', Panic) \<Rightarrow> (cfg', Panic))
      else f cfg cs)"

definition verifyFullConn :: "lib \<Rightarrow> string \<Rightarrow> verifier" where
  "verifyFullConn L serverName =
     trustFirst L (\<lambda>cfg cs.
       (cfg, case PeerCertificates cs of
               [] \<Rightarrow> Err ErrMissingPeerCertificate
             | c # _ \<Rightarrow> bind_outcome (verifyCertsWithOpts L (PeerCertificates cs) (CASha256 cfg) (RootCAs cfg) False)
                          (\<lambda>_. verifyHostname L c serverName)))"

definition verifyCertificateConn :: "lib \<Rightarrow> verifier" where
  "verifyCertificateConn L =
     trustFirst L (\<lambda>cfg cs.
       (cfg, case PeerCertificates cs of
               [] \<Rightarrow> Err ErrMissingPeerCertificate
             | _ # _ \<Rightarrow> verifyCertsWithOpts L (PeerCertificates cs) (CASha256 cfg) (RootCAs cfg) False))"

definition makeVerifyConnection :: "lib \<Rightarrow> TLSConfig \<Rightarrow> verifier option" where
  "makeVerifyConnection L cfg =
     (if Verification cfg = VerifyFull then Some (verifyFullConn L (ServerName cfg))
      else if Verification cfg = VerifyCertificate then Some (verifyCertificateConn L)
      else if Verification cfg = VerifyStrict \<and> length (CASha256 cfg) > 0
      then Some (trustFirst L (\<lambda>cfg cs. (cfg, verifyCAPin L (CASha256 cfg) (VerifiedChains cs))))
      else None)"

definition makeVerifyServerConnection :: "lib \<Rightarrow> TLSConfig \<Rightarrow> verifier option" where
  "makeVerifyServerConnection L cfg0 =
     (if Verification cfg0 = VerifyFull \<or> Verification cfg0 = VerifyCertificate
      then Some (\<lambda>cfg cs.
        (cfg, if PeerCertificates cs = []
              then (if ClientAuth cfg = TLSClientAuthRequired then Err ErrMissingPeerCertificate else Ok ())
              else verifyCertsWithOpts L (PeerCertificates cs) (CASha256 cfg) (ClientCAs cfg) True))
      else if Verification cfg0 = VerifyStrict \<and> length (CASha256 cfg0) > 0
      then Some (\<lambda>cfg cs. (cfg, verifyCAPin L (CASha256 cfg) (VerifiedChains cs)))
      else None)"

section \<open>Configurations of the standard library\<close>

text \<open>The fields of \<open>tls.Config\<close> the package sets; the clock is left out.\<close>

record tlsConfig =
  MinVersion :: TLSVersion
  MaxVersion :: TLSVersion
  InsecureSkipVerify :: bool
  VerifyConnection :: "verifier option"
  tlsServerName :: string
  tlsCertificates :: "keypair list"
  tlsRootCAs :: "certificate list option"
  tlsClientCAs :: "certificate list option"
  tlsCipherIds :: "CipherSuite list"
  tlsCurves :: "16 word list"
  tlsRenegotiation :: "64 word"
  tlsClientAuth :: TLSClientAuth

definition emptyTlsConfig :: tlsConfig where
  "emptyTlsConfig = \<lparr>MinVersion = 0, MaxVersion = 0, InsecureSkipVerify = False, VerifyConnection = None,
     tlsServerName = [], tlsCertificates = [], tlsRootCAs = None, tlsClientCAs = None, tlsCipherIds = [], tlsCurves = [],
     tlsRenegotiation = 0, tlsClientAuth = 0\<rparr>"

definition ToConfig :: "lib \<Rightarrow> defaults \<Rightarrow> TLSConfig option \<Rightarrow> tlsConfig" where
  "ToConfig L df c =
     (case c of
        None \<Rightarrow> emptyTlsConfig
      | Some cfg \<Rightarrow>
          (case extractMinMaxVersion df (versions cfg) of
             (minVersion, maxVersion) \<Rightarrow>
               \<lparr>MinVersion = minVersion, MaxVersion = maxVersion,
                InsecureSkipVerify = (Verification cfg \<noteq> VerifyStrict),
                VerifyConnection = makeVerifyConnection L cfg, tlsServerName = [],
                tlsCertificates = Certificates cfg, tlsRootCAs = RootCAs cfg, tlsClientCAs = ClientCAs cfg,
                tlsCipherIds = cipherSuites cfg, tlsCurves = CurvePreferences cfg,
                tlsRenegotiation = Renegotiation cfg, tlsClientAuth = ClientAuth cfg\<rparr>))"

definition defaultTLSConfig :: "TLSVerificationMode \<Rightarrow> string \<Rightarrow> TLSConfig" where
  "defaultTLSConfig mode host =
     \<lparr>versions = [], Verification = mode, Certificates = [], RootCAs = None, ClientCAs = None, cipherSuites = [],
      CurvePreferences = [], Renegotiation = 0, ClientAuth = TLSClientAuthNone, CASha256 = [], CATrustedFingerprint = [], ServerName = host\<rparr>"

definition BuildModuleClientConfig :: "lib \<Rightarrow> defaults \<Rightarrow> TLSConfig option \<Rightarrow> string \<Rightarrow> tlsConfig" where
  "BuildModuleClientConfig L df c host =
     (case c of
        None \<Rightarrow> emptyTlsConfig\<lparr>tlsServerName := host, InsecureSkipVerify := True,
                  VerifyConnection := makeVerifyConnection L (defaultTLSConfig VerifyFull host)\<rparr>
      | Some cfg \<Rightarrow> (ToConfig L df (Some (cfg\<lparr>ServerName := host\<rparr>)))\<lparr>tlsServerName := host\<rparr>)"

definition BuildServerConfig :: "lib \<Rightarrow> defaults \<Rightarrow> TLSConfig option \<Rightarrow> string \<Rightarrow> tlsConfig" where
  "BuildServerConfig L df c host =
     (case c of
        None \<Rightarrow> emptyTlsConfig\<lparr>tlsServerName := host, InsecureSkipVerify := True,
                  VerifyConnection := makeVerifyServerConnection L (defaultTLSConfig VerifyCertificate host)\<rparr>
      | Some cfg \<Rightarrow> (ToConfig L df (Some cfg))\<lparr>tlsServerName := host,
                  VerifyConnection := makeVerifyServerConnection L cfg\<rparr>)"

end
