(* ===== verification/Tls_Laws.thy ===== *)
theory Tls_Laws
  imports Tls
begin

text \<open>
  The laws of package \<open>tlscommon\<close>: names of settings and their values, the range of versions, what a
  host name pattern matches, and what a connection must satisfy to be accepted in each verification
  mode.
\<close>

section \<open>Named values\<close>

text \<open>
  What the tables of names rely on: no name and no value occurs twice, so that the inverse table is
  the inverse whatever order the table is read in.
\<close>

locale named_values =
  fixes table :: "(string, 'v) gomap"
  assumes names_distinct: "distinct (map fst table)"
    and values_distinct: "distinct (map snd table)"
begin

lemma invert_fold:
  "distinct (map snd t) \<Longrightarrow> snd ` set t \<inter> fst ` set m = {} \<Longrightarrow>
     map_of (fold (\<lambda>(name, v) m. map_put v name m) t m) w =
       (case map_of (map prod.swap t) w of Some n \<Rightarrow> Some n | None \<Rightarrow> map_of m w)"
proof (induction t arbitrary: m)
  case (Cons x t)
  obtain name v where x: "x = (name, v)" by (cases x)
  have "snd ` set t \<inter> fst ` set (map_put v name m) = {}" using Cons.prems x by (auto simp: dom_update)
  then show ?case
    using Cons x map_of_eq_None_iff [of "map prod.swap t" v] by (auto simp: image_comp split: option.splits)
qed simp

lemma invert_iff: "map_of (invertTable table) v = Some n \<longleftrightarrow> (n, v) \<in> set table"
proof -
  have "map_of (invertTable table) v = map_of (map prod.swap table) v"
    using invert_fold [of table "[]" v] values_distinct by (simp add: invertTable_def split: option.split)
  moreover have "distinct (map fst (map prod.swap table))" using values_distinct by (simp add: comp_def)
  ultimately show ?thesis by (auto simp: map_of_eq_Some_iff)
qed

lemma name_roundtrip:
  assumes "map_of table n = Some v"
  shows "nameOf table unknown v = n"
proof -
  have "map_of (invertTable table) v = Some n" unfolding invert_iff using assms by (rule map_of_SomeD)
  then show ?thesis by (simp add: nameOf_def)
qed

lemma marshal_iff: "marshalText table v = Ok n \<longleftrightarrow> map_of table n = Some v"
proof -
  have "marshalText table v = Ok n \<longleftrightarrow> map_of (invertTable table) v = Some n"
    by (auto simp: marshalText_def split: option.splits)
  then show ?thesis using invert_iff names_distinct by simp
qed

lemma unmarshal_none: "map_of (invertTable table) v = None \<longleftrightarrow> v \<notin> snd ` set table"
proof -
  have "map_of (invertTable table) v = None \<longleftrightarrow> (\<forall>n. (n, v) \<notin> set table)"
    unfolding invert_iff [symmetric] by (cases "map_of (invertTable table) v") simp_all
  then show ?thesis by force
qed

end

lemmas tls_tables = tlsVerificationModes_def tlsClientAuthTypes_def tlsRenegotiationSupportTypes_def tlsCipherSuites_def
  tlsCurveTypes_def VerifyFull_def VerifyNone_def VerifyCertificate_def VerifyStrict_def
  TLSClientAuthNone_def TLSClientAuthOptional_def TLSClientAuthRequired_def

interpretation modes: named_values tlsVerificationModes
  by unfold_locales (simp_all add: tls_tables)

interpretation client_auth: named_values tlsClientAuthTypes
  by unfold_locales (simp_all add: tls_tables)

interpretation renegotiation: named_values tlsRenegotiationSupportTypes
  by unfold_locales (simp_all add: tls_tables)

interpretation cipher_suites: named_values tlsCipherSuites
  by unfold_locales (simp_all add: tls_tables)

interpretation curves: named_values tlsCurveTypes
  by unfold_locales (simp_all add: tls_tables)


section \<open>Versions\<close>

lemma minMaxLoop_spec:
  "minMaxLoop vs a b = (foldr min vs a, foldr max vs b)"
proof (induction vs a b rule: minMaxLoop.induct)
  case (2 v vs mn mx)
  have "foldr min vs (min v mn) = min v (foldr min vs mn)" by (induction vs) (simp_all add: min.left_commute)
  moreover have "foldr max vs (max v mx) = max v (foldr max vs mx)" by (induction vs) (simp_all add: max.left_commute)
  moreover have "(if v < mn then v else mn) = min v mn" "(if v > mx then v else mx) = max v mx"
    by (auto simp: min_def max_def)
  ultimately show ?case using 2 by simp
qed simp

lemma fold_bounds:
  fixes vs :: "'a :: linorder list"
  shows "v \<in> set vs \<Longrightarrow> foldr min vs a \<le> v \<and> v \<le> foldr max vs b"
  by (induction vs) (auto simp: min_le_iff_disj le_max_iff_disj)

lemma fold_attained:
  fixes vs :: "'a :: linorder list"
  shows "vs \<noteq> [] \<Longrightarrow> (\<And>v. v \<in> set vs \<Longrightarrow> v \<le> a \<and> b \<le> v) \<Longrightarrow> foldr min vs a \<in> set vs \<and> foldr max vs b \<in> set vs"
proof (induction vs)
  case (Cons v vs)
  show ?case
  proof (cases "vs = []")
    case True
    then show ?thesis using Cons.prems(2) [of v] by (auto simp: min_def max_def)
  next
    case False
    then have "foldr min vs a \<in> set vs" "foldr max vs b \<in> set vs" using Cons by simp_all
    then show ?thesis by (simp add: min_def [of v] max_def [of v])
  qed
qed simp

section \<open>Host names\<close>

lemma toLowerCaseASCII_map: "toLowerCaseASCII s = map lower_byte s"
proof (cases "isAlreadyLowerCase s")
  case True
  have "lower_byte c = c" if "c \<in> set s" for c
  proof (rule ccontr)
    assume "lower_byte c \<noteq> c"
    then have up: "is_upper_ascii c" by (auto simp: lower_byte_def split: if_splits)
    then have "byte c \<in> set (runes s)" using ascii_byte_rune [OF that] by (simp add: is_upper_ascii_def)
    then show False using True up by (auto simp: isAlreadyLowerCase_def list_all_iff is_upper_ascii_def)
  qed
  then show ?thesis using True by (simp add: toLowerCaseASCII_def map_idI)
qed (simp add: toLowerCaseASCII_def)

text \<open>Labels of a name without regard to case.\<close>

definition labels :: "string \<Rightarrow> string list" where
  "labels s = split_byte CHR ''.'' (map lower_byte s)"

lemma matchParts_False: "length ps = length hs \<Longrightarrow> matchParts False ps hs \<longleftrightarrow> ps = hs"
  by (induction ps hs rule: list_induct2) auto

lemma matchParts_True:
  "length ps = length hs \<Longrightarrow> ps \<noteq> [] \<Longrightarrow> matchParts True ps hs \<longleftrightarrow> (hd ps = ''*'' \<or> hd ps = hd hs) \<and> tl ps = tl hs"
  by (cases ps; cases hs) (auto simp: matchParts_False)

lemma matchHostnames_labels:
  "matchHostnames pattern host \<longleftrightarrow>
     pattern \<noteq> [] \<and> trim_suffix host ''.'' \<noteq> [] \<and>
     (let ps = labels pattern; hs = labels (trim_suffix host ''.'') in
      (hd ps = ''*'' \<or> hd ps = hd hs) \<and> tl ps = tl hs)"
proof -
  let ?ps = "labels pattern" and ?hs = "labels (trim_suffix host ''.'')"
  have ne: "?ps \<noteq> []" "?hs \<noteq> []" by (simp_all add: labels_def)
  have "matchHostnames pattern host \<longleftrightarrow> pattern \<noteq> [] \<and> trim_suffix host ''.'' \<noteq> [] \<and>
      length ?ps = length ?hs \<and> matchParts True ?ps ?hs"
    by (auto simp: matchHostnames_def Let_def toLowerCaseASCII_map labels_def)
  moreover have "length ?ps = length ?hs" if "tl ?ps = tl ?hs"
    using that ne by (cases ?ps; cases ?hs) auto
  ultimately show ?thesis using matchParts_True [of ?ps ?hs] ne by (auto simp: Let_def)
qed

lemma dnsLoop_iff:
  "dnsLoop names host = Ok () \<longleftrightarrow>
     (\<exists>name. find (\<lambda>n. matchHostnames n host) names = Some name \<and> validHostname name True)"
  by (induction names) auto


section \<open>Connections\<close>

definition pinned :: "lib \<Rightarrow> string list \<Rightarrow> certificate list list \<Rightarrow> bool" where
  "pinned L pins chs \<longleftrightarrow> (\<exists>ch \<in> set chs. \<exists>c \<in> set ch. Fingerprint L c \<in> set pins)"

lemma matches_mem: "matches pins c \<longleftrightarrow> c \<in> set pins"
  by (induction pins) auto

lemma pinInChain_iff: "pinInChain L pins ch \<longleftrightarrow> (\<exists>c \<in> set ch. Fingerprint L c \<in> set pins)"
  by (induction ch) (auto simp: matches_mem)

lemma verifyCAPin_iff: "verifyCAPin L pins chs = Ok () \<longleftrightarrow> pinned L pins chs"
  by (induction chs) (auto simp: pinned_def pinInChain_iff)

text \<open>A certificate chain of the peer that leads to a root, with a pinned certificate if there are pins.\<close>

definition chain_ok :: "lib \<Rightarrow> certificate list option \<Rightarrow> string list \<Rightarrow> bool \<Rightarrow> certificate list \<Rightarrow> bool" where
  "chain_ok L roots pins anyUsage certs \<longleftrightarrow>
     certs \<noteq> [] \<and> (\<exists>chs. verify L (hd certs) roots (tl certs) anyUsage = Some chs \<and> (pins = [] \<or> pinned L pins chs))"

lemma verifyCerts_iff: "verifyCertsWithOpts L certs pins roots anyUsage = Ok () \<longleftrightarrow> chain_ok L roots pins anyUsage certs"
  by (cases certs) (auto simp: verifyCertsWithOpts_def chain_ok_def verifyCAPin_iff split: option.splits)

lemma verifyCerts_no_panic: "certs \<noteq> [] \<Longrightarrow> verifyCertsWithOpts L certs pins roots anyUsage \<noteq> Panic"
proof -
  have "verifyCAPin L pins chs \<noteq> Panic" for chs by (induction chs) auto
  then show "certs \<noteq> [] \<Longrightarrow> ?thesis" by (cases certs) (auto simp: verifyCertsWithOpts_def split: option.splits)
qed

text \<open>The configuration after the fingerprint of an authority was looked for; None is an unreadable fingerprint.\<close>

definition trusting :: "lib \<Rightarrow> TLSConfig \<Rightarrow> connectionState \<Rightarrow> TLSConfig option" where
  "trusting L cfg cs =
     (if CATrustedFingerprint cfg = [] then Some cfg
      else map_option (\<lambda>fp. trustLoop L fp (PeerCertificates cs) cfg) (hexDecode L (CATrustedFingerprint cfg)))"

lemma trustFirst_eq:
  "trustFirst L f cfg cs = (case trusting L cfg cs of None \<Rightarrow> (cfg, Err ErrFingerprint) | Some cfg' \<Rightarrow> f cfg' cs)"
  by (auto simp: trustFirst_def trusting_def trustRootCA_def split: option.splits)

lemma trustLoop_frame:
  "CASha256 (trustLoop L fp certs cfg) = CASha256 cfg"
  by (induction certs) auto

lemma trusting_pins: "trusting L cfg cs = Some cfg' \<Longrightarrow> CASha256 cfg' = CASha256 cfg"
  by (auto simp: trusting_def trustLoop_frame split: if_splits)

lemma trustLoop_roots:
  "RootCAs (trustLoop L fp certs cfg) = RootCAs cfg \<or>
     (\<exists>c \<in> set certs. IsCA c \<and> sha256 L (Raw c) = fp \<and>
        RootCAs (trustLoop L fp certs cfg) = Some (AddCert (case RootCAs cfg of None \<Rightarrow> [] | Some cas \<Rightarrow> cas) c))"
  by (induction certs) auto

text \<open>
  What a handshake of the standard library accepts. On both sides the function of the configuration
  returns no error; a client's own verification has succeeded before unless it is switched off. (A
  server's own verification follows its mode of client authentication and is never switched off.)
\<close>

definition passes :: "tlsConfig \<Rightarrow> TLSConfig \<Rightarrow> connectionState \<Rightarrow> bool" where
  "passes conf cfg cs \<longleftrightarrow> (case VerifyConnection conf of None \<Rightarrow> True | Some f \<Rightarrow> snd (f cfg cs) = Ok ())"

definition client_handshake :: "(connectionState \<Rightarrow> bool) \<Rightarrow> tlsConfig \<Rightarrow> TLSConfig \<Rightarrow> connectionState \<Rightarrow> bool" where
  "client_handshake std conf cfg cs \<longleftrightarrow> (InsecureSkipVerify conf \<or> std cs) \<and> passes conf cfg cs"

lemma verifyFull_iff:
  "snd (verifyFullConn L host cfg cs) = Ok () \<longleftrightarrow>
     (\<exists>cfg'. trusting L cfg cs = Some cfg' \<and> chain_ok L (RootCAs cfg') (CASha256 cfg) False (PeerCertificates cs) \<and>
        verifyHostname L (hd (PeerCertificates cs)) host = Ok ())"
proof (cases "trusting L cfg cs")
  case (Some cfg')
  note p = trusting_pins [OF Some]
  show ?thesis
  proof (cases "PeerCertificates cs")
    case Nil
    then show ?thesis using Some by (simp add: verifyFullConn_def trustFirst_eq chain_ok_def)
  next
    case (Cons c rest)
    then show ?thesis
      using Some p verifyCerts_iff [of L "c # rest" "CASha256 cfg" "RootCAs cfg'" False]
      by (simp add: verifyFullConn_def trustFirst_eq)
  qed
qed (simp add: verifyFullConn_def trustFirst_eq)

lemma verifyCertificate_iff:
  "snd (verifyCertificateConn L cfg cs) = Ok () \<longleftrightarrow>
     (\<exists>cfg'. trusting L cfg cs = Some cfg' \<and> chain_ok L (RootCAs cfg') (CASha256 cfg) False (PeerCertificates cs))"
proof (cases "trusting L cfg cs")
  case (Some cfg')
  note p = trusting_pins [OF Some]
  show ?thesis
    using Some p verifyCerts_iff [of L "PeerCertificates cs" "CASha256 cfg" "RootCAs cfg'" False]
    by (cases "PeerCertificates cs") (auto simp: verifyCertificateConn_def trustFirst_eq chain_ok_def)
qed (simp add: verifyCertificateConn_def trustFirst_eq)


section \<open>Properties\<close>

text \<open>
  C6. What a client accepts, by verification mode. In mode full: the peer's certificate leads to a root,
  to which the authority with the configured fingerprint was added, one certificate of the chain is
  pinned if there are pins, and the certificate is for the host. In mode certificate: the same
  without the host. In mode strict: what the standard library accepts, and the pins. Every other mode
  accepts every peer.
\<close>

theorem client_accepts:
  "client_handshake std (BuildModuleClientConfig L df (Some cfg) host) (cfg\<lparr>ServerName := host\<rparr>) cs \<longleftrightarrow>
     (if Verification cfg = VerifyFull \<or> Verification cfg = VerifyCertificate then
        (\<exists>cfg'. trusting L (cfg\<lparr>ServerName := host\<rparr>) cs = Some cfg' \<and>
           chain_ok L (RootCAs cfg') (CASha256 cfg) False (PeerCertificates cs) \<and>
           (Verification cfg = VerifyCertificate \<or> verifyHostname L (hd (PeerCertificates cs)) host = Ok ()))
      else if Verification cfg = VerifyStrict then
        std cs \<and> (CASha256 cfg = [] \<or>
          trusting L (cfg\<lparr>ServerName := host\<rparr>) cs \<noteq> None \<and> pinned L (CASha256 cfg) (VerifiedChains cs))
      else True)"
proof -
  let ?cfg = "cfg\<lparr>ServerName := host\<rparr>"
  have conf: "InsecureSkipVerify (BuildModuleClientConfig L df (Some cfg) host) \<longleftrightarrow> Verification cfg \<noteq> VerifyStrict"
    "VerifyConnection (BuildModuleClientConfig L df (Some cfg) host) = makeVerifyConnection L ?cfg"
    by (simp_all add: BuildModuleClientConfig_def ToConfig_def split: prod.split)
  have modes: "VerifyFull \<noteq> VerifyCertificate" "VerifyFull \<noteq> VerifyStrict" "VerifyCertificate \<noteq> VerifyStrict"
    by (simp_all add: VerifyFull_def VerifyCertificate_def VerifyStrict_def)
  have strict: "snd (trustFirst L (\<lambda>cfg cs. (cfg, verifyCAPin L (CASha256 cfg) (VerifiedChains cs))) ?cfg cs) = Ok () \<longleftrightarrow>
      trusting L ?cfg cs \<noteq> None \<and> pinned L (CASha256 cfg) (VerifiedChains cs)"
    using trusting_pins [of L ?cfg cs] by (auto simp: trustFirst_eq verifyCAPin_iff split: option.splits)
  show ?thesis
    using modes verifyFull_iff [of L host ?cfg cs] verifyCertificate_iff [of L ?cfg cs] strict
    by (simp add: client_handshake_def passes_def conf makeVerifyConnection_def)
qed

text \<open>
  Trusting an authority by its fingerprint never removes a root and adds at most one: a certificate
  the peer presented, that is an authority and has the configured fingerprint.
\<close>

theorem trusting_adds_one:
  assumes "trusting L cfg cs = Some cfg'"
  shows "RootCAs cfg' = RootCAs cfg \<or>
    (\<exists>c \<in> set (PeerCertificates cs). IsCA c \<and> hexDecode L (CATrustedFingerprint cfg) = Some (sha256 L (Raw c)) \<and>
       RootCAs cfg' = Some (AddCert (case RootCAs cfg of None \<Rightarrow> [] | Some cas \<Rightarrow> cas) c))"
  using assms trustLoop_roots [of L _ "PeerCertificates cs" cfg]
  by (auto simp: trusting_def split: if_splits)

definition toy_lib :: lib where
  "toy_lib = \<lparr>verify = (\<lambda>c roots ints u. case roots of None \<Rightarrow> None | Some rs \<Rightarrow> if set ints \<inter> set rs = {} then None else Some [c # ints]),
     sha256 = id, base64 = id, hexDecode = Some, parseIP = (\<lambda>_. None)\<rparr>"

definition toy_ca :: certificate where
  "toy_ca = \<lparr>Raw = ''ca'', RawSubjectPublicKeyInfo = ''key'', IsCA = True, DNSNames = [], IPAddresses = [], CommonName = []\<rparr>"

theorem trusting_adds_one_witness:
  "\<exists>cfg'. trusting toy_lib ((defaultTLSConfig VerifyFull ''h'')\<lparr>CATrustedFingerprint := ''ca''\<rparr>)
      \<lparr>PeerCertificates = [toy_ca], VerifiedChains = []\<rparr> = Some cfg' \<and> RootCAs cfg' = Some [toy_ca]"
proof -
  let ?cfg = "(defaultTLSConfig VerifyFull ''h'')\<lparr>CATrustedFingerprint := ''ca''\<rparr>"
  let ?cs = "\<lparr>PeerCertificates = [toy_ca], VerifiedChains = []\<rparr>"
  have t: "trusting toy_lib ?cfg ?cs = Some (?cfg\<lparr>RootCAs := Some [toy_ca]\<rparr>)"
    by (simp add: trusting_def toy_lib_def toy_ca_def defaultTLSConfig_def AddCert_def)
  from trusting_adds_one [OF this] have "RootCAs (?cfg\<lparr>RootCAs := Some [toy_ca]\<rparr>) = Some [toy_ca]"
    by (simp add: defaultTLSConfig_def AddCert_def)
  with t show ?thesis by blast
qed

text \<open>
  When a certificate is for a host: an address is one of the certificate's addresses or its common
  name, a name matches one of its names, or its common name when it has none; the name that decides
  is the first that matches, and it must be a valid pattern.
\<close>

theorem verifyHostname_spec:
  assumes "host \<noteq> []" and "\<not> (hd host = CHR ''['' \<and> last host = CHR '']'')"
  shows "verifyHostname L cert host = Ok () \<longleftrightarrow>
    (case parseIP L host of
       Some ip \<Rightarrow> ip \<in> set (IPAddresses cert) \<or> parseIP L (CommonName cert) = Some ip
     | None \<Rightarrow>
         (\<exists>name. find (\<lambda>n. matchHostnames n host)
             (if (DNSNames cert = [] \<or> DNSNames cert = [[]]) \<and> CommonName cert \<noteq> [] then [CommonName cert] else DNSNames cert)
             = Some name \<and> validHostname name True))"
proof (cases "parseIP L host")
  case None
  then show ?thesis
    using assms unfolding verifyHostname_def by (auto simp: dnsLoop_iff Let_def)
next
  case (Some ip)
  then show ?thesis using assms unfolding verifyHostname_def by (auto simp: list_ex_iff)
qed

theorem verifyHostname_spec_witness:
  "verifyHostname toy_lib (toy_ca\<lparr>CommonName := ''*.b''\<rparr>) ''A.b'' = Ok ()"
proof -
  have h: "''A.b'' \<noteq> []" "\<not> (hd ''A.b'' = CHR ''['' \<and> last ''A.b'' = CHR '']'')" by simp_all
  have "matchHostnames ''*.b'' ''A.b''"
    by (simp add: matchHostnames_labels labels_def trim_suffix_def lower_byte_def is_upper_ascii_def char_of_def
        suffix_to_prefix)
  moreover have "validHostname ''*.b'' True" by (simp add: validHostname_def less_eq_char_def)
  ultimately show ?thesis by (simp add: verifyHostname_spec [OF h] toy_lib_def toy_ca_def)
qed

text \<open>
  A pattern matches a host name, given with or without a final dot, with the same labels up to
  case and up to the first label of the pattern, which may be a star; so a star stands for exactly one
  label.
\<close>

theorem matchHostnames_spec:
  "matchHostnames pattern host \<longleftrightarrow>
     pattern \<noteq> [] \<and> trim_suffix host ''.'' \<noteq> [] \<and>
     (hd (labels pattern) = ''*'' \<or> hd (labels pattern) = hd (labels (trim_suffix host ''.''))) \<and>
     tl (labels pattern) = tl (labels (trim_suffix host ''.''))"
  by (simp add: matchHostnames_labels Let_def)

text \<open>
  What a server's function accepts in the modes full and certificate: a client without a certificate
  unless one is required, and otherwise a client whose certificate leads to a client authority, with a
  pinned certificate if there are pins.
\<close>

lemma server_passes:
  assumes "Verification cfg = VerifyFull \<or> Verification cfg = VerifyCertificate"
  shows "passes (BuildServerConfig L df (Some cfg) host) cfg cs \<longleftrightarrow>
      (if PeerCertificates cs = [] then ClientAuth cfg \<noteq> TLSClientAuthRequired
       else chain_ok L (ClientCAs cfg) (CASha256 cfg) True (PeerCertificates cs))"
proof -
  have conf: "VerifyConnection (BuildServerConfig L df (Some cfg) host) = makeVerifyServerConnection L cfg"
    by (simp add: BuildServerConfig_def)
  show ?thesis using assms by (simp add: passes_def conf makeVerifyServerConnection_def verifyCerts_iff)
qed

text \<open>
  Names of settings: a value read from its name is printed and marshalled as this name, and only
  values with a name are marshalled. A number is cut to the width of its type, so that 256 is read as
  mode full and 257 as mode none.
\<close>

theorem settings_roundtrip:
  "(VerificationMode_MarshalText m = Ok n \<longleftrightarrow> map_of tlsVerificationModes n = Some m) \<and>
   (ClientAuth_MarshalText a = Ok n \<longleftrightarrow> map_of tlsClientAuthTypes n = Some a) \<and>
   (Renegotiation_MarshalText r = Ok n \<longleftrightarrow> map_of tlsRenegotiationSupportTypes n = Some r) \<and>
   (\<forall>name \<in> fst ` set tlsCipherSuites. \<exists>cs. CipherSuite_Unpack (CStr name) = Ok cs \<and> CipherSuite_String cs = name) \<and>
   (CipherSuite_Validate cs = Ok () \<longleftrightarrow> cs \<in> snd ` set tlsCipherSuites) \<and>
   VerificationMode_Unpack (CInt64 256) = Ok VerifyFull \<and> VerificationMode_Unpack (CUint64 257) = Ok VerifyNone"
proof (intro conjI ballI)
  show "VerificationMode_MarshalText m = Ok n \<longleftrightarrow> map_of tlsVerificationModes n = Some m"
    unfolding VerificationMode_MarshalText_def by (rule modes.marshal_iff)
  show "ClientAuth_MarshalText a = Ok n \<longleftrightarrow> map_of tlsClientAuthTypes n = Some a"
    unfolding ClientAuth_MarshalText_def by (rule client_auth.marshal_iff)
  show "Renegotiation_MarshalText r = Ok n \<longleftrightarrow> map_of tlsRenegotiationSupportTypes n = Some r"
    unfolding Renegotiation_MarshalText_def by (rule renegotiation.marshal_iff)
  show "CipherSuite_Validate cs = Ok () \<longleftrightarrow> cs \<in> snd ` set tlsCipherSuites"
    using cipher_suites.unmarshal_none [of cs] by (auto simp: CipherSuite_Validate_def split: option.splits)
  show "\<exists>cs. CipherSuite_Unpack (CStr name) = Ok cs \<and> CipherSuite_String cs = name" if nm: "name \<in> fst ` set tlsCipherSuites" for name
  proof -
    obtain cs where "map_of tlsCipherSuites name = Some cs"
      using nm map_of_eq_None_iff [of tlsCipherSuites name] by (cases "map_of tlsCipherSuites name") simp_all
    then show ?thesis using cipher_suites.name_roundtrip by (simp add: CipherSuite_String_def)
  qed
  show "VerificationMode_Unpack (CInt64 256) = Ok VerifyFull" "VerificationMode_Unpack (CUint64 257) = Ok VerifyNone"
    by (simp_all add: VerifyFull_def VerifyNone_def)
qed

theorem settings_roundtrip_witness:
  "\<exists>cs. CipherSuite_Unpack (CStr ''ECDHE-RSA-CHACHA20-POLY1205'') = Ok cs \<and>
     CipherSuite_String cs = ''ECDHE-RSA-CHACHA20-POLY1205''"
proof -
  have "''ECDHE-RSA-CHACHA20-POLY1205'' \<in> fst ` set tlsCipherSuites"
    by (simp only: tlsCipherSuites_def list.set image_insert fst_conv insert_iff simp_thms)
  then show ?thesis by (rule settings_roundtrip [THEN conjunct2, THEN conjunct2, THEN conjunct2, THEN conjunct1, THEN bspec])
qed

text \<open>
  The range of versions of a connection: it holds every configured version, or every default
  version when none is configured, and its ends are among them; validated versions are in range.
\<close>

theorem version_range:
  assumes "versions cfg \<noteq> []" and "extractMinMaxVersion df (versions cfg) = (mn, mx)"
  shows "mn \<in> set (versions cfg) \<and> mx \<in> set (versions cfg) \<and> (\<forall>v \<in> set (versions cfg). mn \<le> v \<and> v \<le> mx) \<and>
    ((\<forall>v \<in> set (versions cfg). TLSVersion_Validate df v = Ok ()) \<longleftrightarrow> TLSVersionMin df \<le> mn \<and> mx \<le> TLSVersion13)"
proof -
  have eq: "mn = foldr min (versions cfg) 0xffff" "mx = foldr max (versions cfg) 0"
    using assms by (simp_all add: extractMinMaxVersion_def minMaxLoop_spec)
  have le: "(v :: TLSVersion) \<le> 0xffff \<and> 0 \<le> v" for v
    using unsigned_less [of v, where ?'a = nat] by (simp add: word_le_nat_alt)
  have m: "mn \<in> set (versions cfg)" "mx \<in> set (versions cfg)"
    using fold_attained [of "versions cfg" "0xffff" 0] assms(1) le eq by auto
  have b: "\<forall>v \<in> set (versions cfg). mn \<le> v \<and> v \<le> mx" using fold_bounds eq by blast
  then have "(\<forall>v \<in> set (versions cfg). TLSVersion_Validate df v = Ok ()) \<longleftrightarrow> TLSVersionMin df \<le> mn \<and> mx \<le> TLSVersion13"
    using m by (auto simp: TLSVersion_Validate_def TLSVersionMax_def not_less intro: order_trans split: if_splits)
  with m b show ?thesis by blast
qed

theorem version_range_witness:
  "fst (extractMinMaxVersion initialDefaults [TLSVersion13, TLSVersion11]) \<in> {TLSVersion11, TLSVersion13}"
proof -
  let ?cfg = "(defaultTLSConfig VerifyFull ''h'')\<lparr>versions := [TLSVersion13, TLSVersion11]\<rparr>"
  have "versions ?cfg \<noteq> []" by simp
  from version_range [OF this surjective_pairing] show ?thesis by auto
qed

end
