(* ===== verification/Tls_Load.thy ===== *)
theory Tls_Load
  imports Tls_Laws
begin

text \<open>
  Loading of certificates, keys and authorities in package \<open>tlscommon\<close> (src/transport/tlscommon):
  reading of PEM data with decryption of keys (tls.go, decrypt_block_nofips.go) and the settings of a
  client and of a server made from a configuration (config.go, server_config.go); the laws show that
  the reading ends, what it keeps, and what the loaded settings accept.

  The file system, PEM, X.509 and the PKCS8 package are a record of functions. A file that cannot be
  opened has no entry, one that cannot be read has no content. Logging is left out.
\<close>

section \<open>Reading PEM data\<close>

record pem_block =
  BlockType :: string
  Headers :: "(string, string) gomap"
  Bytes :: string

datatype pkcs8key = RSAKey string | ECDSAKey string | OtherKey string

record loader =
  openFile :: "string \<Rightarrow> string option option"
  pemDecode :: "string \<Rightarrow> (pem_block \<times> string) option"
  pemEncode :: "pem_block \<Rightarrow> string option"
  decryptPEMBlock :: "pem_block \<Rightarrow> string \<Rightarrow> string option"
  parsePKCS8 :: "string \<Rightarrow> string \<Rightarrow> pkcs8key option"
  marshalPKCS8 :: "pkcs8key \<Rightarrow> string option"
  x509KeyPair :: "string \<Rightarrow> string \<Rightarrow> keypair option"
  certsFromPEM :: "string \<Rightarrow> certificate list"

datatype load_error =
    LValidate tls_error | LPassphrase | LOpen | LRead | LNoPem | LNoBlocks "load_error list"
  | LNoPassphrase | LDecrypt | LParseKey | LKeyType | LMarshal | LEncode | LKeyPair | LNotACertificate
  | LJoin "load_error list"

text \<open>Only the white space before a dash matters: trimming at the end never removes a dash.\<close>

function IsPEMString :: "string \<Rightarrow> bool" where
  "IsPEMString s =
     (if s = [] then False
      else if isSpaceRune (fst (decodeRune s)) then IsPEMString (drop (snd (decodeRune s)) s)
      else hd s = CHR ''-'')"
  by pat_completeness auto
termination
  by (relation "measure length") (use decodeRune_width in \<open>auto simp: diff_less\<close>)

declare IsPEMString.simps [simp del]

text \<open>A reader of the text itself or of a file, and what reading it to the end gives.\<close>

datatype pem_reader = Inline string | File "string option"

definition NewPEMReader :: "loader \<Rightarrow> string \<Rightarrow> (load_error, pem_reader) outcome" where
  "NewPEMReader L c =
     (if IsPEMString c then Ok (Inline c)
      else (case openFile L c of None \<Rightarrow> Err LOpen | Some content \<Rightarrow> Ok (File content)))"

fun readAll :: "pem_reader \<Rightarrow> (load_error, string) outcome" where
  "readAll (Inline s) = Ok s"
| "readAll (File (Some s)) = Ok s"
| "readAll (File None) = Err LRead"

definition decryptPKCS1Key :: "loader \<Rightarrow> pem_block \<Rightarrow> string \<Rightarrow> (load_error, pem_block) outcome" where
  "decryptPKCS1Key L block passphrase =
     (if length passphrase = 0 then Err LNoPassphrase
      else (case decryptPEMBlock L block passphrase of
              None \<Rightarrow> Err LDecrypt
            | Some buffer \<Rightarrow> Ok (block\<lparr>Headers := map_del ''DEK-Info'' (Headers block), Bytes := buffer\<rparr>)))"

definition decryptPKCS8Key :: "loader \<Rightarrow> pem_block \<Rightarrow> string \<Rightarrow> (load_error, pem_block) outcome" where
  "decryptPKCS8Key L block passphrase =
     (if length passphrase = 0 then Err LNoPassphrase
      else (case parsePKCS8 L (Bytes block) passphrase of
              None \<Rightarrow> Err LParseKey
            | Some key \<Rightarrow>
                bind_outcome
                  (case key of RSAKey _ \<Rightarrow> Ok ''RSA PRIVATE KEY'' | ECDSAKey _ \<Rightarrow> Ok ''ECDSA PRIVATE KEY'' | OtherKey _ \<Rightarrow> Err LKeyType)
                  (\<lambda>type. case marshalPKCS8 L key of
                            None \<Rightarrow> Err LMarshal
                          | Some buffer \<Rightarrow> Ok (block\<lparr>BlockType := type, Bytes := buffer\<rparr>))))"

definition IsEncryptedPEMBlock :: "pem_block \<Rightarrow> bool" where
  "IsEncryptedPEMBlock block \<longleftrightarrow> ''DEK-Info'' \<in> fst ` set (Headers block)"

text \<open>What the loop keeps of a block.\<close>

definition decryptBlock :: "loader \<Rightarrow> string \<Rightarrow> pem_block \<Rightarrow> (load_error, pem_block) outcome" where
  "decryptBlock L pass block =
     (if IsEncryptedPEMBlock block then decryptPKCS1Key L block pass
      else if BlockType block = ''ENCRYPTED PRIVATE KEY'' then decryptPKCS8Key L block pass
      else Ok block)"

text \<open>The loop of \<open>ReadPEMFile\<close>; None is a loop that does not end.\<close>

partial_function (option) pemLoop ::
  "loader \<Rightarrow> string \<Rightarrow> string \<Rightarrow> pem_block list \<Rightarrow> load_error list \<Rightarrow> (load_error, pem_block list \<times> load_error list) outcome option" where
  "pemLoop L pass content blocks errs =
     (if content = [] then Some (Ok (blocks, errs))
      else (case pemDecode L content of
              None \<Rightarrow> Some (if length blocks = 0 then Err LNoPem else Ok (blocks, errs))
            | Some (block, rest) \<Rightarrow>
                (case decryptBlock L pass block of
                   Ok b \<Rightarrow> pemLoop L pass rest (blocks @ [b]) errs
                 | Err e \<Rightarrow> pemLoop L pass rest blocks (errs @ [e])
                 | Panic \<Rightarrow> Some Panic)))"

declare pemLoop.simps [code]

fun encodeAll :: "loader \<Rightarrow> pem_block list \<Rightarrow> string \<Rightarrow> (load_error, string) outcome" where
  "encodeAll L [] buffer = Ok buffer"
| "encodeAll L (b # bs) buffer = (case pemEncode L b of None \<Rightarrow> Err LEncode | Some t \<Rightarrow> encodeAll L bs (buffer @ t))"

definition ReadPEMFile :: "loader \<Rightarrow> string \<Rightarrow> string \<Rightarrow> (load_error, string) outcome option" where
  "ReadPEMFile L s passphrase =
     (case bind_outcome (NewPEMReader L s) readAll of
        Ok content \<Rightarrow>
          map_option (\<lambda>r. bind_outcome r (\<lambda>(blocks, errs).
              if length blocks = 0 then Err (LNoBlocks errs) else encodeAll L blocks []))
            (pemLoop L passphrase content [] [])
      | Err e \<Rightarrow> Some (Err e)
      | Panic \<Rightarrow> Some Panic)"

section \<open>Certificates and authorities\<close>

definition readPassphrase :: "loader \<Rightarrow> CertificateConfig \<Rightarrow> (load_error, string) outcome" where
  "readPassphrase L c =
     (if Passphrase c = [] \<and> PassphrasePath c \<noteq> [] then
        (case openFile L (PassphrasePath c) of Some (Some p) \<Rightarrow> Ok p | _ \<Rightarrow> Err LPassphrase)
      else Ok (Passphrase c))"

text \<open>Calls in sequence, each of which may not end, fail or go on with its result.\<close>

definition bindCall :: "('e, 'a) outcome option \<Rightarrow> ('a \<Rightarrow> ('e, 'b) outcome option) \<Rightarrow> ('e, 'b) outcome option" where
  "bindCall r f =
     (case r of None \<Rightarrow> None | Some (Ok x) \<Rightarrow> f x | Some (Err e) \<Rightarrow> Some (Err e) | Some Panic \<Rightarrow> Some Panic)"

definition LoadCertificate :: "loader \<Rightarrow> CertificateConfig \<Rightarrow> (load_error, keypair option) outcome option" where
  "LoadCertificate L config =
     (case CertificateConfig_Validate config of
        Err e \<Rightarrow> Some (Err (LValidate e))
      | Panic \<Rightarrow> Some Panic
      | Ok _ \<Rightarrow>
          if Certificate config = [] then Some (Ok None)
          else
            bindCall (Some (readPassphrase L config)) (\<lambda>passphrase.
            bindCall (ReadPEMFile L (Certificate config) passphrase) (\<lambda>certPEM.
            bindCall (ReadPEMFile L (Key config) passphrase) (\<lambda>keyPEM.
              Some (case x509KeyPair L certPEM keyPEM of None \<Rightarrow> Err LKeyPair | Some cert \<Rightarrow> Ok (Some cert))))))"

text \<open>The certificates of one entry: none of them is an error.\<close>

definition readCA :: "loader \<Rightarrow> string \<Rightarrow> (load_error, certificate list) outcome" where
  "readCA L s = bind_outcome (bind_outcome (NewPEMReader L s) readAll)
     (\<lambda>pemData. if certsFromPEM L pemData = [] then Err LNotACertificate else Ok (certsFromPEM L pemData))"

fun authoritiesLoop :: "loader \<Rightarrow> string list \<Rightarrow> certificate list \<Rightarrow> load_error list \<Rightarrow> certificate list \<times> load_error list" where
  "authoritiesLoop L [] roots errs = (roots, errs)"
| "authoritiesLoop L (s # ss) roots errs =
     (case readCA L s of
        Ok certs \<Rightarrow> authoritiesLoop L ss (fold (\<lambda>c p. AddCert p c) certs roots) errs
      | Err e \<Rightarrow> authoritiesLoop L ss roots (errs @ [e])
      | Panic \<Rightarrow> authoritiesLoop L ss roots errs)"

definition LoadCertificateAuthorities :: "loader \<Rightarrow> string list \<Rightarrow> certificate list option \<times> load_error list" where
  "LoadCertificateAuthorities L cas =
     (if length cas = 0 then (None, [])
      else (case authoritiesLoop L cas [] [] of (roots, errs) \<Rightarrow> (Some roots, errs)))"

text \<open>The part the two loaders share: all errors of the certificate and of the authorities are joined.\<close>

definition loadFiles :: "loader \<Rightarrow> 'c CommonConfig_scheme \<Rightarrow> (load_error, keypair list \<times> certificate list option) outcome option" where
  "loadFiles L config =
     (case LoadCertificate L (CertConfig config) of
        None \<Rightarrow> None
      | Some r \<Rightarrow>
          (case LoadCertificateAuthorities L (CAs config) of
             (cas, errs) \<Rightarrow>
               (let fail = (case r of Err e \<Rightarrow> [e] | _ \<Rightarrow> []) @ errs in
                Some (if length fail \<noteq> 0 then Err (LJoin fail)
                      else (case r of
                              Ok (Some cert) \<Rightarrow> Ok ([cert], cas)
                            | Ok None \<Rightarrow> Ok ([], cas)
                            | Err e \<Rightarrow> Err e
                            | Panic \<Rightarrow> Panic)))))"

definition LoadTLSConfig :: "loader \<Rightarrow> Config option \<Rightarrow> (load_error, TLSConfig option) outcome option" where
  "LoadTLSConfig L config =
     (case config of
        None \<Rightarrow> Some (Ok None)
      | Some c \<Rightarrow>
          if \<not> Config_IsEnabled config then Some (Ok None)
          else bindCall (loadFiles L c) (\<lambda>(certs, cas). Some (Ok (Some
            \<lparr>versions = Versions c, Verification = VerificationMode c, Certificates = certs, RootCAs = cas,
             ClientCAs = None, cipherSuites = CipherSuites c, CurvePreferences = CurveTypes c,
             Renegotiation = cfgRenegotiation c, ClientAuth = 0, CASha256 = cfgCASha256 c,
             CATrustedFingerprint = cfgTrustedFingerprint c, ServerName = []\<rparr>))))"




section \<open>Laws of reading\<close>

text \<open>The reference: all blocks of a text, and those of them that are kept.\<close>

fun decodeAll :: "loader \<Rightarrow> nat \<Rightarrow> string \<Rightarrow> pem_block list" where
  "decodeAll L 0 c = []"
| "decodeAll L (Suc n) c =
     (if c = [] then [] else (case pemDecode L c of None \<Rightarrow> [] | Some (b, rest) \<Rightarrow> b # decodeAll L n rest))"

definition kept :: "loader \<Rightarrow> string \<Rightarrow> pem_block list \<Rightarrow> pem_block list" where
  "kept L pass bs = concat (map (\<lambda>b. case decryptBlock L pass b of Ok b' \<Rightarrow> [b'] | _ \<Rightarrow> []) bs)"

definition pemText :: "loader \<Rightarrow> string \<Rightarrow> string \<Rightarrow> pem_block list" where
  "pemText L pass content = kept L pass (decodeAll L (length content) content)"

text \<open>What is relied on of \<open>pem.Decode\<close>: the rest after a block is shorter than the text.\<close>

definition decode_shrinks :: "loader \<Rightarrow> bool" where
  "decode_shrinks L \<longleftrightarrow> (\<forall>c b rest. pemDecode L c = Some (b, rest) \<longrightarrow> length rest < length c)"

lemma decryptBlock_no_panic [simp]: "decryptBlock L pass b \<noteq> Panic"
  by (auto simp: decryptBlock_def decryptPKCS1Key_def decryptPKCS8Key_def split: option.split pkcs8key.split)

lemma pemLoop_spec:
  assumes "decode_shrinks L" and "length c \<le> n"
  shows "\<exists>r. pemLoop L pass c blocks errs = Some r \<and>
    (let out = blocks @ kept L pass (decodeAll L n c) in
     if out = [] then r = Err LNoPem \<or> (\<exists>errs'. r = Ok ([], errs')) else \<exists>errs'. r = Ok (out, errs'))"
  using assms(2)
proof (induction n arbitrary: c blocks errs)
  case 0
  then show ?case by (simp add: pemLoop.simps [of L pass "[]"] kept_def)
next
  case (Suc n)
  show ?case
  proof (cases "c = [] \<or> pemDecode L c = None")
    case True
    then show ?thesis by (auto simp: pemLoop.simps [of L pass c] kept_def)
  next
    case False
    then obtain b rest where d: "pemDecode L c = Some (b, rest)" by auto
    then have le: "length rest \<le> n" using assms(1) Suc.prems unfolding decode_shrinks_def by fastforce
    show ?thesis
    proof (cases "decryptBlock L pass b")
      case (Ok b')
      then show ?thesis
        using False d Suc.IH [OF le, of "blocks @ [b']" errs] by (simp add: pemLoop.simps [of L pass c] kept_def)
    next
      case (Err e)
      then show ?thesis
        using False d Suc.IH [OF le, of blocks "errs @ [e]"] by (simp add: pemLoop.simps [of L pass c] kept_def)
    qed simp
  qed
qed

lemma encodeAll_iff:
  "encodeAll L bs buffer = Ok out \<longleftrightarrow>
     list_all (\<lambda>b. pemEncode L b \<noteq> None) bs \<and> out = buffer @ concat (map (\<lambda>b. the (pemEncode L b)) bs)"
  by (induction bs arbitrary: buffer) (auto split: option.splits)

lemma PKCS1_headers: "decryptPKCS1Key L b pass = Ok b' \<Longrightarrow> Headers b' = map_del ''DEK-Info'' (Headers b)"
  by (auto simp: decryptPKCS1Key_def split: if_splits option.splits)

lemma PKCS8_headers: "decryptPKCS8Key L b pass = Ok b' \<Longrightarrow> Headers b' = Headers b"
  by (auto simp: decryptPKCS8Key_def split: if_splits option.splits pkcs8key.splits)

lemma decryptBlock_clear: "decryptBlock L pass b = Ok b' \<Longrightarrow> \<not> IsEncryptedPEMBlock b'"
  using PKCS1_headers [of L b pass b'] PKCS8_headers [of L b pass b']
  by (auto simp: decryptBlock_def IsEncryptedPEMBlock_def delete_notin_dom split: if_splits)

lemma kept_clear: "b \<in> set (kept L pass bs) \<Longrightarrow> \<not> IsEncryptedPEMBlock b"
  by (auto simp: kept_def dest: decryptBlock_clear [OF sym] split: outcome.splits)

lemma kept_without_passphrase:
  "kept L [] bs = filter (\<lambda>b. \<not> IsEncryptedPEMBlock b \<and> BlockType b \<noteq> ''ENCRYPTED PRIVATE KEY'') bs"
  by (induction bs) (auto simp: kept_def decryptBlock_def decryptPKCS1Key_def decryptPKCS8Key_def)

lemma ReadPEMFile_iff:
  assumes "decode_shrinks L"
  shows "\<exists>r. ReadPEMFile L s pass = Some r \<and> (\<forall>out. r = Ok out \<longleftrightarrow>
    (\<exists>content. bind_outcome (NewPEMReader L s) readAll = Ok content \<and> pemText L pass content \<noteq> [] \<and>
       list_all (\<lambda>b. pemEncode L b \<noteq> None) (pemText L pass content) \<and>
       out = concat (map (\<lambda>b. the (pemEncode L b)) (pemText L pass content))))"
proof (cases "bind_outcome (NewPEMReader L s) readAll")
  case (Ok content)
  obtain r where r: "pemLoop L pass content [] [] = Some r"
    "if pemText L pass content = [] then r = Err LNoPem \<or> (\<exists>errs'. r = Ok ([], errs'))
     else \<exists>errs'. r = Ok (pemText L pass content, errs')"
    using pemLoop_spec [OF assms order_refl, of pass content "[]" "[]"] by (auto simp: Let_def pemText_def)
  show ?thesis using Ok r by (auto simp: ReadPEMFile_def encodeAll_iff split: if_splits)
qed (auto simp: ReadPEMFile_def)

section \<open>Laws of loading\<close>

lemma AddCert_set [simp]: "set (AddCert p c) = insert c (set p)"
  by (auto simp: AddCert_def)

lemma AddCert_fold: "set (fold (\<lambda>c p. AddCert p c) cs p) = set cs \<union> set p"
  by (induction cs arbitrary: p) auto

lemma readCA_no_panic [simp]: "readCA L s \<noteq> Panic"
proof -
  have "readAll r \<noteq> Panic" for r by (cases r rule: readAll.cases) simp_all
  moreover have "NewPEMReader L s \<noteq> Panic" by (simp add: NewPEMReader_def split: option.split)
  ultimately show ?thesis by (cases "NewPEMReader L s"; cases "bind_outcome (NewPEMReader L s) readAll") (auto simp: readCA_def)
qed

lemma readCA_ok_iff: "(\<exists>certs. readCA L s = Ok certs) \<longleftrightarrow> (\<forall>e. readCA L s \<noteq> Err e)"
  by (cases "readCA L s") auto

lemma authoritiesLoop_errs: "snd (authoritiesLoop L ss roots errs) = errs @ concat (map (\<lambda>s. case readCA L s of Err e \<Rightarrow> [e] | _ \<Rightarrow> []) ss)"
  by (induction ss arbitrary: roots errs) (auto split: outcome.split)

lemma authoritiesLoop_roots:
  "set (fst (authoritiesLoop L ss roots errs)) = set roots \<union> {c. \<exists>s \<in> set ss. \<exists>certs. readCA L s = Ok certs \<and> c \<in> set certs}"
  by (induction ss arbitrary: roots errs) (auto simp: AddCert_fold split: outcome.split)

lemma authorities_ok:
  "snd (LoadCertificateAuthorities L cas) = [] \<longleftrightarrow> (\<forall>s \<in> set cas. \<exists>certs. readCA L s = Ok certs)"
proof -
  have "snd (LoadCertificateAuthorities L cas) = [] \<longleftrightarrow> snd (authoritiesLoop L cas [] []) = []"
    by (auto simp: LoadCertificateAuthorities_def split: prod.split)
  also have "\<dots> \<longleftrightarrow> (\<forall>s \<in> set cas. \<exists>certs. readCA L s = Ok certs)"
    by (auto simp: authoritiesLoop_errs readCA_ok_iff split: outcome.splits)
  finally show ?thesis .
qed

lemma authorities_pool:
  "(fst (LoadCertificateAuthorities L cas) = None \<longleftrightarrow> cas = []) \<and>
   (fst (LoadCertificateAuthorities L cas) = Some pool \<longrightarrow>
      set pool = {c. \<exists>s \<in> set cas. \<exists>certs. readCA L s = Ok certs \<and> c \<in> set certs})"
proof -
  obtain roots errs where a: "authoritiesLoop L cas [] [] = (roots, errs)" by (cases "authoritiesLoop L cas [] []")
  then have "set roots = {c. \<exists>s \<in> set cas. \<exists>certs. readCA L s = Ok certs \<and> c \<in> set certs}"
    using authoritiesLoop_roots [of L cas "[]" "[]"] by simp
  then show ?thesis using a by (auto simp only: LoadCertificateAuthorities_def fst_conv length_0_conv prod.case option.inject option.distinct split: if_splits)
qed

lemma loadFiles_iff:
  "loadFiles L config = Some (Ok (certs, cas)) \<longleftrightarrow>
     (\<exists>cert. LoadCertificate L (CertConfig config) = Some (Ok cert) \<and> certs = (case cert of None \<Rightarrow> [] | Some c \<Rightarrow> [c])) \<and>
     snd (LoadCertificateAuthorities L (CAs config)) = [] \<and> cas = fst (LoadCertificateAuthorities L (CAs config))"
  by (cases "LoadCertificateAuthorities L (CAs config)")
    (auto simp: loadFiles_def Let_def split: option.splits outcome.splits)

lemma bindCall_Ok_iff: "bindCall r f = Some (Ok y) \<longleftrightarrow> (\<exists>x. r = Some (Ok x) \<and> f x = Some (Ok y))"
  by (auto simp: bindCall_def split: option.splits outcome.splits)

lemma bindCall_returns: "(\<exists>x. r = Some x) \<Longrightarrow> (\<And>y. r = Some (Ok y) \<Longrightarrow> \<exists>x. f y = Some x) \<Longrightarrow> \<exists>x. bindCall r f = Some x"
  by (auto simp: bindCall_def split: outcome.splits)

lemma LoadCertificate_returns:
  assumes "decode_shrinks L"
  shows "\<exists>r. LoadCertificate L c = Some r"
proof -
  have "\<exists>r. ReadPEMFile L s pass = Some r" for s pass using ReadPEMFile_iff [OF assms] by blast
  then show ?thesis
    unfolding LoadCertificate_def
    by (auto intro!: bindCall_returns split: outcome.split)
qed

section \<open>Properties\<close>

text \<open>
  C23. Reading PEM data always ends. It succeeds exactly when a block is kept and every kept block can
  be encoded, with the encodings of the kept blocks in their order. No kept block is marked as encrypted,
  and without a passphrase exactly the blocks that are not encrypted are kept.
\<close>

theorem ReadPEMFile_spec:
  assumes "decode_shrinks L"
  shows "(\<exists>r. ReadPEMFile L s pass = Some r \<and> (\<forall>out. r = Ok out \<longleftrightarrow>
      (\<exists>content. bind_outcome (NewPEMReader L s) readAll = Ok content \<and> pemText L pass content \<noteq> [] \<and>
         list_all (\<lambda>b. pemEncode L b \<noteq> None) (pemText L pass content) \<and>
         out = concat (map (\<lambda>b. the (pemEncode L b)) (pemText L pass content))))) \<and>
    (\<forall>content. \<forall>b \<in> set (pemText L pass content). \<not> IsEncryptedPEMBlock b) \<and>
    (\<forall>content. pemText L [] content =
       filter (\<lambda>b. \<not> IsEncryptedPEMBlock b \<and> BlockType b \<noteq> ''ENCRYPTED PRIVATE KEY'') (decodeAll L (length content) content))"
  using ReadPEMFile_iff [OF assms] kept_clear kept_without_passphrase by (auto simp: pemText_def)

definition toy_loader :: loader where
  "toy_loader = \<lparr>openFile = (\<lambda>f. if f = ''ca'' then Some (Some ''-'') else None),
     pemDecode = (\<lambda>c. case c of [] \<Rightarrow> None | x # xs \<Rightarrow> Some (\<lparr>BlockType = ''CERTIFICATE'', Headers = [], Bytes = [x]\<rparr>, xs)),
     pemEncode = (\<lambda>b. Some (Bytes b)), decryptPEMBlock = (\<lambda>_ _. None), parsePKCS8 = (\<lambda>_ _. None), marshalPKCS8 = (\<lambda>_. None),
     x509KeyPair = (\<lambda>c k. Some \<lparr>certDER = [c], privateKey = k\<rparr>), certsFromPEM = (\<lambda>_. [toy_ca])\<rparr>"

lemma toy_shrinks: "decode_shrinks toy_loader"
  by (auto simp: decode_shrinks_def toy_loader_def split: list.splits)

theorem ReadPEMFile_spec_witness: "ReadPEMFile toy_loader ''ca'' [] = Some (Ok ''-'')"
proof -
  have "bind_outcome (NewPEMReader toy_loader ''ca'') readAll = Ok ''-''"
    by (simp add: NewPEMReader_def IsPEMString.simps decodeRune_def isSpaceRune_def toy_loader_def)
  moreover have "pemText toy_loader [] ''-'' = [\<lparr>BlockType = ''CERTIFICATE'', Headers = [], Bytes = ''-''\<rparr>]"
    by (simp add: pemText_def kept_without_passphrase IsEncryptedPEMBlock_def toy_loader_def)
  ultimately show ?thesis
    using ReadPEMFile_spec [OF toy_shrinks, THEN conjunct1, of "''ca''" "[]"] by (auto simp: toy_loader_def)
qed

text \<open>
  C22. Loaded settings of a client never fall back to other authorities: the system's roots are used only
  when no authority is configured, each configured authority was read and gave a certificate, and the
  pool holds exactly the certificates so read. The mode, the pins and the versions are those configured.
\<close>

theorem LoadTLSConfig_roots:
  assumes "LoadTLSConfig L (Some c) = Some (Ok (Some cfg))"
  shows "(RootCAs cfg = None \<longleftrightarrow> CAs c = []) \<and>
    (\<forall>s \<in> set (CAs c). \<exists>certs. readCA L s = Ok certs \<and> certs \<noteq> []) \<and>
    (\<forall>pool. RootCAs cfg = Some pool \<longrightarrow>
       set pool = {ca. \<exists>s \<in> set (CAs c). \<exists>certs. readCA L s = Ok certs \<and> ca \<in> set certs}) \<and>
    Verification cfg = VerificationMode c \<and> CASha256 cfg = cfgCASha256 c \<and> versions cfg = Versions c"
proof -
  obtain certs where l: "loadFiles L c = Some (Ok (certs, RootCAs cfg))"
    and f: "Verification cfg = VerificationMode c" "CASha256 cfg = cfgCASha256 c" "versions cfg = Versions c"
    using assms by (auto simp: LoadTLSConfig_def bindCall_Ok_iff split: if_splits)
  have roots: "RootCAs cfg = fst (LoadCertificateAuthorities L (CAs c))"
    and ok: "\<forall>s \<in> set (CAs c). \<exists>certs. readCA L s = Ok certs"
    using l authorities_ok [of L "CAs c"] by (simp_all add: loadFiles_iff)
  have "certs \<noteq> []" if "readCA L s = Ok certs" for s certs
    using that by (auto simp: readCA_def split: if_splits)
  then show ?thesis using ok f authorities_pool [of L "CAs c"] unfolding roots by blast
qed

definition toy_common :: "CertificateConfig" where
  "toy_common = \<lparr>Certificate = [], Key = [], Passphrase = [], PassphrasePath = []\<rparr>"

definition toy_client :: Config where
  "toy_client = \<lparr>Enabled = None, VerificationMode = VerifyFull, Versions = [], CipherSuites = [], CAs = [''ca''],
     CertConfig = toy_common, CurveTypes = [], cfgCASha256 = [], cfgRenegotiation = 0, cfgTrustedFingerprint = []\<rparr>"

lemma toy_authorities: "LoadCertificateAuthorities toy_loader [''ca''] = (Some [toy_ca], [])"
  by (simp add: LoadCertificateAuthorities_def readCA_def NewPEMReader_def IsPEMString.simps decodeRune_def isSpaceRune_def
      toy_loader_def AddCert_def)

lemma toy_files: "CAs c = [''ca''] \<Longrightarrow> CertConfig c = toy_common \<Longrightarrow> loadFiles toy_loader c = Some (Ok ([], Some [toy_ca]))"
  by (simp add: loadFiles_def LoadCertificate_def CertificateConfig_Validate_def toy_common_def toy_authorities)

theorem LoadTLSConfig_roots_witness:
  "\<exists>cfg. LoadTLSConfig toy_loader (Some toy_client) = Some (Ok (Some cfg)) \<and> RootCAs cfg \<noteq> None \<and> Verification cfg = VerifyFull"
proof -
  obtain cfg where l: "LoadTLSConfig toy_loader (Some toy_client) = Some (Ok (Some cfg))"
    using toy_files [of toy_client] by (auto simp: LoadTLSConfig_def Config_IsEnabled_def bindCall_def toy_client_def)
  from LoadTLSConfig_roots [OF l] show ?thesis using l by (auto simp: toy_client_def)
qed





end
