(* ===== verification/Keystore.thy ===== *)
theory Keystore
  imports Go_Utf8
begin

text \<open>
  Package \<open>keystore\<close> (src/keystore): secrets kept in memory and saved in an encrypted file
  (file_keystore.go, file_keystore_nofips.go, secure_string.go, keystore.go), with the replacement of a
  file (src/file/helper_other.go, helper_common.go).

  The ciphers, base64 and JSON are a record of functions, a file system is a record of files and of the
  answers of the system calls that may fail. Random bytes are a function of their number. The encryption of
  both builds and a system other than Windows are modelled; a document that is the JSON value null is left out.
\<close>

section \<open>The environment\<close>

text \<open>A file has a content, permissions and an owner.\<close>

record fileT =
  content :: string
  perm :: nat
  uid :: nat

record fsys =
  fsFiles :: "(string, fileT) gomap"
  canRead :: "string \<Rightarrow> bool"
  canOpen :: bool
  canRename :: bool
  canSync :: bool
  euid :: nat

record crypto =
  pbkdf2 :: "string \<Rightarrow> string \<Rightarrow> string option"
  newCipher :: "string \<Rightarrow> bool"
  seal :: "string \<Rightarrow> string \<Rightarrow> string \<Rightarrow> string"
  unseal :: "string \<Rightarrow> string \<Rightarrow> string \<Rightarrow> string option"
  b64Encode :: "string \<Rightarrow> string"
  b64Decode :: "string \<Rightarrow> string option"
  jsonEncode :: "(string, string) gomap \<Rightarrow> string"
  jsonDecode :: "string \<Rightarrow> (string, string) gomap option"

datatype ks_error =
    ErrKeyDoesntExists | ErrMissing | ErrRandom | ErrHash | ErrCipher | ErrOpenFile | ErrReplace | ErrReadFile | ErrOwner
  | ErrPermissions | ErrVersion | ErrCorrupt | ErrBase64 | ErrMissingInfo | ErrDecrypt | ErrJSON | ErrConfig

definition filePermission :: nat where "filePermission = 384"
definition iVLength :: nat where "iVLength = 12"
definition saltLength :: nat where "saltLength = 64"

definition version :: string where "version = ''v1''"

text \<open>\<open>os.Rename\<close> and the replacement of a file. The second component of a result is the world after it.\<close>

definition osRename :: "string \<Rightarrow> string \<Rightarrow> fsys \<Rightarrow> fsys \<times> bool" where
  "osRename src dst w =
     (case map_of (fsFiles w) src of
        Some f \<Rightarrow> if canRename w then (w\<lparr>fsFiles := map_put dst f (map_del src (fsFiles w))\<rparr>, True) else (w, False)
      | None \<Rightarrow> (w, False))"

definition SafeFileRotate :: "string \<Rightarrow> string \<Rightarrow> fsys \<Rightarrow> fsys \<times> (ks_error, unit) outcome" where
  "SafeFileRotate path tempfile w =
     (case osRename tempfile path w of
        (w', ok) \<Rightarrow> (w', if \<not> ok then Err ErrReplace else if canSync w' then Ok () else Err ErrReplace))"

section \<open>Keystores\<close>

record FileKeystore =
  Path :: string
  secrets :: "(string, string) gomap"
  dirty :: bool
  password :: string
  isStrictPerms :: bool

definition Retrieve :: "FileKeystore \<Rightarrow> string \<Rightarrow> (ks_error, string) outcome" where
  "Retrieve k key = (case map_of (secrets k) key of None \<Rightarrow> Err ErrKeyDoesntExists | Some v \<Rightarrow> Ok v)"

definition Store :: "string \<Rightarrow> string \<Rightarrow> FileKeystore \<Rightarrow> FileKeystore" where
  "Store key v k = k\<lparr>secrets := map_put key v (secrets k), dirty := True\<rparr>"

definition Delete :: "string \<Rightarrow> FileKeystore \<Rightarrow> FileKeystore" where
  "Delete key k = k\<lparr>secrets := map_del key (secrets k), dirty := True\<rparr>"

definition List :: "FileKeystore \<Rightarrow> string list" where
  "List k = map fst (secrets k)"

text \<open>The map that is handed to go-ucfg.\<close>

definition GetConfig :: "FileKeystore \<Rightarrow> (string, string) gomap" where
  "GetConfig k = map_put_all [] (secrets k)"

definition hashPassword :: "crypto \<Rightarrow> string \<Rightarrow> string \<Rightarrow> (ks_error, string) outcome" where
  "hashPassword C pw salt = (case pbkdf2 C pw salt of None \<Rightarrow> Err ErrHash | Some h \<Rightarrow> Ok h)"

definition randomBytes :: "(nat \<Rightarrow> string option) \<Rightarrow> nat \<Rightarrow> (ks_error, string) outcome" where
  "randomBytes rnd n = (case rnd n of None \<Rightarrow> Err ErrRandom | Some r \<Rightarrow> Ok r)"

definition encrypt :: "crypto \<Rightarrow> (nat \<Rightarrow> string option) \<Rightarrow> FileKeystore \<Rightarrow> string \<Rightarrow> (ks_error, string) outcome" where
  "encrypt C rnd k data =
     bind_outcome (randomBytes rnd iVLength) (\<lambda>iv.
     bind_outcome (randomBytes rnd saltLength) (\<lambda>salt.
     bind_outcome (hashPassword C (password k) salt) (\<lambda>passwordBytes.
       if \<not> newCipher C passwordBytes then Err ErrCipher
       else Ok (salt @ iv @ seal C passwordBytes iv data))))"

definition decrypt :: "crypto \<Rightarrow> FileKeystore \<Rightarrow> string \<Rightarrow> (ks_error, string) outcome" where
  "decrypt C k data =
     (if length data < saltLength + iVLength + 1 then Err ErrMissingInfo
      else
        (let salt = take saltLength data;
             iv = take iVLength (drop saltLength data);
             encodedBytes = drop (saltLength + iVLength) data in
         bind_outcome (hashPassword C (password k) salt) (\<lambda>passwordBytes.
           if \<not> newCipher C passwordBytes then Err ErrCipher
           else (case unseal C passwordBytes iv encodedBytes of None \<Rightarrow> Err ErrDecrypt | Some d \<Rightarrow> Ok d))))"

text \<open>
  Opening the temporary file: an existing one is refused without \<open>override\<close>, and otherwise emptied with
  its permissions kept.
\<close>

definition openTemp :: "bool \<Rightarrow> string \<Rightarrow> fsys \<Rightarrow> fsys \<times> bool" where
  "openTemp override p w =
     (case map_of (fsFiles w) p of
        Some f \<Rightarrow>
          if \<not> override \<or> \<not> canOpen w then (w, False)
          else (w\<lparr>fsFiles := map_put p (f\<lparr>content := []\<rparr>) (fsFiles w)\<rparr>, True)
      | None \<Rightarrow>
          if \<not> canOpen w then (w, False)
          else (w\<lparr>fsFiles := map_put p \<lparr>content = [], perm = filePermission, uid = euid w\<rparr> (fsFiles w)\<rparr>, True))"

text \<open>Writing to an open file; the source ignores the errors of writing and syncing, and the model has none.\<close>

definition writeFile :: "string \<Rightarrow> string \<Rightarrow> fsys \<Rightarrow> fsys" where
  "writeFile p s w =
     (case map_of (fsFiles w) p of None \<Rightarrow> w | Some f \<Rightarrow> w\<lparr>fsFiles := map_put p (f\<lparr>content := content f @ s\<rparr>) (fsFiles w)\<rparr>)"

definition removeFile :: "string \<Rightarrow> fsys \<Rightarrow> fsys" where
  "removeFile p w = w\<lparr>fsFiles := map_del p (fsFiles w)\<rparr>"

definition tempPath :: "FileKeystore \<Rightarrow> string" where "tempPath k = Path k @ ''.tmp''"

definition doSave :: "crypto \<Rightarrow> (nat \<Rightarrow> string option) \<Rightarrow> bool \<Rightarrow> FileKeystore \<Rightarrow> fsys \<Rightarrow>
    FileKeystore \<times> fsys \<times> (ks_error, unit) outcome" where
  "doSave C rnd override k w =
     (if \<not> dirty k then (k, w, Ok ())
      else
        (case encrypt C rnd k (jsonEncode C (secrets k)) of
           Err e \<Rightarrow> (k, w, Err e)
         | Panic \<Rightarrow> (k, w, Panic)
         | Ok encrypted \<Rightarrow>
             (case openTemp override (tempPath k) w of
                (w1, ok) \<Rightarrow>
                  if \<not> ok then (k, w1, Err ErrOpenFile)
                  else
                    (let w2 = writeFile (tempPath k) (b64Encode C encrypted) (writeFile (tempPath k) version w1) in
                     case SafeFileRotate (Path k) (tempPath k) w2 of
                       (w3, Ok _) \<Rightarrow> (k\<lparr>dirty := False\<rparr>, removeFile (tempPath k) w3, Ok ())
                     | (w3, Err e) \<Rightarrow> (k, removeFile (tempPath k) w3, Err e)
                     | (w3, Panic) \<Rightarrow> (k, w3, Panic)))))"

definition Save :: "crypto \<Rightarrow> (nat \<Rightarrow> string option) \<Rightarrow> FileKeystore \<Rightarrow> fsys \<Rightarrow> FileKeystore \<times> fsys \<times> (ks_error, unit) outcome" where
  "Save C rnd k w = doSave C rnd True k w"

definition Create :: "crypto \<Rightarrow> (nat \<Rightarrow> string option) \<Rightarrow> bool \<Rightarrow> FileKeystore \<Rightarrow> fsys \<Rightarrow>
    FileKeystore \<times> fsys \<times> (ks_error, unit) outcome" where
  "Create C rnd override k w = doSave C rnd override (k\<lparr>secrets := [], dirty := True\<rparr>) w"

definition IsPersisted :: "FileKeystore \<Rightarrow> fsys \<Rightarrow> bool" where
  "IsPersisted k w \<longleftrightarrow> map_of (fsFiles w) (Path k) \<noteq> None \<and> canRead w (Path k)"

definition checkPermissions :: "fsys \<Rightarrow> fileT \<Rightarrow> (ks_error, unit) outcome" where
  "checkPermissions w f =
     (if uid f \<noteq> 0 \<and> euid w \<noteq> uid f then Err ErrOwner
      else if perm f \<noteq> filePermission then Err ErrPermissions
      else Ok ())"

text \<open>
  The raw content of the file. The buffer of the standard library has room for more than the version
  and is zero behind the content, so a short file is compared with its zeros and rejected.
\<close>

definition loadRaw :: "FileKeystore \<Rightarrow> fsys \<Rightarrow> (ks_error, string) outcome" where
  "loadRaw k w =
     (case map_of (fsFiles w) (Path k) of
        None \<Rightarrow> Ok []
      | Some f \<Rightarrow>
          if \<not> canRead w (Path k) then Err ErrReadFile
          else bind_outcome (if isStrictPerms k then checkPermissions w f else Ok ()) (\<lambda>_.
            let raw = content f in
            if take (length version) (raw @ replicate (length version) (char_of (0 :: nat))) \<noteq> version then Err ErrVersion
            else if length raw \<le> length version then Err ErrCorrupt
            else Ok raw))"

definition load :: "crypto \<Rightarrow> FileKeystore \<Rightarrow> fsys \<Rightarrow> (ks_error, FileKeystore) outcome" where
  "load C k w =
     bind_outcome (loadRaw k w) (\<lambda>raw.
       if length raw = 0 then Ok k
       else (case b64Decode C (drop (length version) raw) of
               None \<Rightarrow> Err ErrBase64
             | Some data \<Rightarrow> bind_outcome (decrypt C k data) (\<lambda>plaintext.
                 case jsonDecode C plaintext of
                   None \<Rightarrow> Err ErrJSON
                 | Some m \<Rightarrow> Ok (k\<lparr>secrets := map_put_all (secrets k) m\<rparr>))))"

definition NewFileKeystoreWithPasswordAndStrictPerms ::
  "crypto \<Rightarrow> fsys \<Rightarrow> string \<Rightarrow> string \<Rightarrow> bool \<Rightarrow> (ks_error, FileKeystore) outcome" where
  "NewFileKeystoreWithPasswordAndStrictPerms C w keystoreFile pw strictPerms =
     load C \<lparr>Path = keystoreFile, secrets = [], dirty = False, password = pw, isStrictPerms = strictPerms\<rparr> w"

definition Package :: "FileKeystore \<Rightarrow> fsys \<Rightarrow> (ks_error, string) outcome" where
  "Package k w = loadRaw k w"

text \<open>The resolver of configurations: a key that is not found is left to other resolvers.\<close>

definition ResolverWrap :: "(string \<Rightarrow> (ks_error, string) outcome) \<Rightarrow> string \<Rightarrow> (ks_error, string) outcome" where
  "ResolverWrap retrieve keyName =
     (case retrieve keyName of
        Err e \<Rightarrow> Err (if e = ErrKeyDoesntExists then ErrMissing else e)
      | Ok v \<Rightarrow> Ok v
      | Panic \<Rightarrow> Panic)"


section \<open>Opening keystores\<close>

definition NewFileKeystoreWithStrictPerms :: "crypto \<Rightarrow> fsys \<Rightarrow> string \<Rightarrow> bool \<Rightarrow> (ks_error, FileKeystore) outcome" where
  "NewFileKeystoreWithStrictPerms C w keystoreFile strictPerms =
     NewFileKeystoreWithPasswordAndStrictPerms C w keystoreFile [] strictPerms"

definition NewFileKeystore :: "crypto \<Rightarrow> fsys \<Rightarrow> string \<Rightarrow> (ks_error, FileKeystore) outcome" where
  "NewFileKeystore C w keystoreFile = NewFileKeystoreWithStrictPerms C w keystoreFile False"

definition NewFileKeystoreWithPassword :: "crypto \<Rightarrow> fsys \<Rightarrow> string \<Rightarrow> string \<Rightarrow> (ks_error, FileKeystore) outcome" where
  "NewFileKeystoreWithPassword C w keystoreFile pw = NewFileKeystoreWithPasswordAndStrictPerms C w keystoreFile pw False"

text \<open>\<open>Factory\<close>: the path that unpacking the configuration gives, None when it fails, from the default that is empty.\<close>

definition Factory :: "crypto \<Rightarrow> fsys \<Rightarrow> (string \<Rightarrow> string option) \<Rightarrow> string \<Rightarrow> bool \<Rightarrow> (ks_error, FileKeystore) outcome" where
  "Factory C w unpackPath defaultPath strictPerms =
     (case unpackPath [] of
        None \<Rightarrow> Err ErrConfig
      | Some p \<Rightarrow> NewFileKeystoreWithStrictPerms C w (if p = [] then defaultPath else p) strictPerms)"

section \<open>The build with the FIPS restriction\<close>

text \<open>
  src/keystore/file_keystore_fips.go. The cipher of the standard library draws a nonce itself and puts it before the text it
  seals.
\<close>

definition versionFips :: string where "versionFips = ''v2''"

definition sealRandom :: "crypto \<Rightarrow> (nat \<Rightarrow> string option) \<Rightarrow> string \<Rightarrow> string \<Rightarrow> (ks_error, string) outcome" where
  "sealRandom C rnd key data = bind_outcome (randomBytes rnd iVLength) (\<lambda>nonce. Ok (nonce @ seal C key nonce data))"

definition openRandom :: "crypto \<Rightarrow> string \<Rightarrow> string \<Rightarrow> (ks_error, string) outcome" where
  "openRandom C key enc =
     (if length enc < iVLength then Err ErrDecrypt
      else (case unseal C key (take iVLength enc) (drop iVLength enc) of None \<Rightarrow> Err ErrDecrypt | Some d \<Rightarrow> Ok d))"

definition encryptFips :: "crypto \<Rightarrow> (nat \<Rightarrow> string option) \<Rightarrow> FileKeystore \<Rightarrow> string \<Rightarrow> (ks_error, string) outcome" where
  "encryptFips C rnd k data =
     bind_outcome (randomBytes rnd saltLength) (\<lambda>salt.
     bind_outcome (hashPassword C (password k) salt) (\<lambda>passwordBytes.
       if \<not> newCipher C passwordBytes then Err ErrCipher
       else bind_outcome (sealRandom C rnd passwordBytes data) (\<lambda>encodedBytes. Ok (salt @ encodedBytes))))"

definition decryptFips :: "crypto \<Rightarrow> FileKeystore \<Rightarrow> string \<Rightarrow> (ks_error, string) outcome" where
  "decryptFips C k data =
     (if length data < saltLength + 1 then Err ErrMissingInfo
      else
        (let salt = take saltLength data; encodedBytes = drop saltLength data in
         bind_outcome (hashPassword C (password k) salt) (\<lambda>passwordBytes.
           if \<not> newCipher C passwordBytes then Err ErrCipher else openRandom C passwordBytes encodedBytes)))"

end
