(* ===== verification/Keystore_Laws.thy ===== *)
theory Keystore_Laws
  imports Keystore
begin

text \<open>
  The laws of package \<open>keystore\<close>: a keystore as a map of secrets, saving and loading as inverse
  operations, what a failed save leaves behind, and when an existing keystore is replaced.
\<close>

section \<open>What is relied on\<close>

text \<open>Valid UTF-8: no byte is an error when the text is decoded. JSON replaces other keys.\<close>

function utf8_valid :: "string \<Rightarrow> bool" where
  "utf8_valid s =
     (if s = [] then True
      else if decodeRune s = (RuneError, 1) then False
      else utf8_valid (drop (snd (decodeRune s)) s))"
  by pat_completeness auto
termination
  by (relation "measure length") (use decodeRune_width in \<open>auto simp: diff_less\<close>)

declare utf8_valid.simps [simp del]

definition crypto_ok :: "crypto \<Rightarrow> bool" where
  "crypto_ok C \<longleftrightarrow>
     (\<forall>key iv d. newCipher C key \<longrightarrow> unseal C key iv (seal C key iv d) = Some d \<and> seal C key iv d \<noteq> []) \<and>
     (\<forall>s. b64Decode C (b64Encode C s) = Some s \<and> (s \<noteq> [] \<longrightarrow> b64Encode C s \<noteq> [])) \<and>
     (\<forall>pw salt. \<exists>h. pbkdf2 C pw salt = Some h \<and> newCipher C h) \<and>
     (\<forall>m. wf_map m \<and> list_all (\<lambda>(key, _). utf8_valid key) m \<longrightarrow>
        (\<exists>m'. jsonDecode C (jsonEncode C m) = Some m' \<and> wf_map m' \<and> map_of m' = map_of m))"

definition random_ok :: "(nat \<Rightarrow> string option) \<Rightarrow> bool" where
  "random_ok rnd \<longleftrightarrow> (\<forall>n. \<exists>r. rnd n = Some r \<and> length r = n)"

definition fsys_ok :: "fsys \<Rightarrow> bool" where
  "fsys_ok w \<longleftrightarrow> canOpen w \<and> canRename w \<and> canSync w \<and> (\<forall>p. canRead w p)"

section \<open>Encryption\<close>

lemma encrypt_ok:
  assumes "crypto_ok C" and "random_ok rnd"
  shows "\<exists>e. encrypt C rnd k d = Ok e \<and> e \<noteq> [] \<and> (\<forall>k'. password k' = password k \<longrightarrow> decrypt C k' e = Ok d)"
proof -
  obtain iv salt where r: "rnd iVLength = Some iv" "length iv = iVLength" "rnd saltLength = Some salt" "length salt = saltLength"
    using assms(2) unfolding random_ok_def by metis
  obtain h where h: "pbkdf2 C (password k) salt = Some h" "newCipher C h" using assms(1) unfolding crypto_ok_def by blast
  have s: "unseal C h iv (seal C h iv d) = Some d" "seal C h iv d \<noteq> []" using assms(1) h unfolding crypto_ok_def by blast+
  have e: "encrypt C rnd k d = Ok (salt @ iv @ seal C h iv d)"
    using r h by (simp add: encrypt_def randomBytes_def hashPassword_def)
  have "decrypt C k' (salt @ iv @ seal C h iv d) = Ok d" if "password k' = password k" for k'
    using that r h s by (cases "seal C h iv d") (simp_all add: decrypt_def hashPassword_def Let_def)
  then show ?thesis using e s by auto
qed

section \<open>Saving\<close>

lemma tempPath_other [simp]: "tempPath k \<noteq> Path k" "Path k \<noteq> tempPath k"
  by (simp_all add: tempPath_def)

lemma doSave_ok:
  assumes "crypto_ok C" "random_ok rnd" "fsys_ok w" "dirty k" "override \<or> map_of (fsFiles w) (tempPath k) = None"
  shows "\<exists>e w'. encrypt C rnd k (jsonEncode C (secrets k)) = Ok e \<and>
    doSave C rnd override k w = (k\<lparr>dirty := False\<rparr>, w', Ok ()) \<and>
    map_of (fsFiles w') (Path k) = Some
      (case map_of (fsFiles w) (tempPath k) of
         None \<Rightarrow> \<lparr>content = version @ b64Encode C e, perm = filePermission, uid = euid w\<rparr>
       | Some f \<Rightarrow> f\<lparr>content := version @ b64Encode C e\<rparr>) \<and>
    (\<forall>p. p \<noteq> Path k \<longrightarrow> map_of (fsFiles w') p = (if p = tempPath k then None else map_of (fsFiles w) p)) \<and>
    fsys_ok w' \<and> euid w' = euid w"
proof -
  obtain e where e: "encrypt C rnd k (jsonEncode C (secrets k)) = Ok e" using encrypt_ok [OF assms(1,2)] by blast
  show ?thesis
    using assms e
    by (cases "map_of (fsFiles w) (tempPath k)")
      (auto simp: doSave_def openTemp_def writeFile_def SafeFileRotate_def osRename_def removeFile_def fsys_ok_def Let_def
        update_conv' delete_conv')
qed

section \<open>Loading\<close>

lemma load_saved:
  assumes "crypto_ok C" "random_ok rnd" "wf_map m" "list_all (\<lambda>(key, _). utf8_valid key) m"
    and "encrypt C rnd k (jsonEncode C m) = Ok e" and "map_of (fsFiles w) (Path k) = Some f"
    and "content f = version @ b64Encode C e" "canRead w (Path k)" "strict \<longrightarrow> checkPermissions w f = Ok ()"
  shows "\<exists>k'. NewFileKeystoreWithPasswordAndStrictPerms C w (Path k) (password k) strict = Ok k' \<and>
    map_of (secrets k') = map_of m \<and> Path k' = Path k \<and> password k' = password k"
proof -
  let ?k = "\<lparr>Path = Path k, secrets = [], dirty = False, password = password k, isStrictPerms = strict\<rparr>"
  obtain m' where m': "jsonDecode C (jsonEncode C m) = Some m'" "wf_map m'" "map_of m' = map_of m"
    using assms(1,3,4) unfolding crypto_ok_def by blast
  have d: "decrypt C ?k e = Ok (jsonEncode C m)" and ne: "e \<noteq> []"
    using encrypt_ok [OF assms(1,2), of k "jsonEncode C m"] assms(5) by auto
  have b: "b64Decode C (b64Encode C e) = Some e" "b64Encode C e \<noteq> []" using assms(1) ne unfolding crypto_ok_def by blast+
  have raw: "loadRaw ?k w = Ok (version @ b64Encode C e)"
    using assms(6-9) b by (simp add: loadRaw_def)
  show ?thesis
    using raw b d m' map_of_map_put_all_empty [OF m'(2)]
    by (simp add: NewFileKeystoreWithPasswordAndStrictPerms_def load_def version_def)
qed


section \<open>Sequences of operations\<close>

datatype secret_op = StoreOp string string | DeleteOp string

fun run_op :: "secret_op \<Rightarrow> FileKeystore \<Rightarrow> FileKeystore" where
  "run_op (StoreOp key v) k = Store key v k"
| "run_op (DeleteOp key) k = Delete key k"

text \<open>The abstract keystore: a map of secrets.\<close>

fun spec_op :: "secret_op \<Rightarrow> (string \<rightharpoonup> string) \<Rightarrow> (string \<rightharpoonup> string)" where
  "spec_op (StoreOp key v) m = m(key \<mapsto> v)"
| "spec_op (DeleteOp key) m = m(key := None)"

definition op_valid :: "secret_op \<Rightarrow> bool" where
  "op_valid x = (case x of StoreOp key _ \<Rightarrow> utf8_valid key | DeleteOp _ \<Rightarrow> True)"

definition ks_inv :: "FileKeystore \<Rightarrow> bool" where
  "ks_inv k \<longleftrightarrow> wf_map (secrets k) \<and> list_all (\<lambda>(key, _). utf8_valid key) (secrets k)"

lemma run_op_inv: "ks_inv k \<Longrightarrow> op_valid x \<Longrightarrow> ks_inv (run_op x k)"
  by (cases x) (auto simp: ks_inv_def op_valid_def Store_def Delete_def list_all_iff
      dest!: set_map_put set_map_del [THEN subsetD])

lemma run_ops:
  "ks_inv k \<Longrightarrow> list_all op_valid ops \<Longrightarrow>
     ks_inv (fold run_op ops k) \<and> map_of (secrets (fold run_op ops k)) = fold spec_op ops (map_of (secrets k)) \<and>
     Path (fold run_op ops k) = Path k \<and> password (fold run_op ops k) = password k \<and>
     (ops \<noteq> [] \<longrightarrow> dirty (fold run_op ops k))"
proof (induction ops arbitrary: k)
  case (Cons x ops)
  have "map_of (secrets (run_op x k)) = spec_op x (map_of (secrets k))" "Path (run_op x k) = Path k"
    "password (run_op x k) = password k" "dirty (run_op x k)"
    by (cases x; simp add: Store_def Delete_def fun_eq_iff)+
  then show ?case using Cons run_op_inv [of k x] by (cases "ops = []") auto
qed simp


section \<open>Properties\<close>

lemma Retrieve_map: "Retrieve k key = (case map_of (secrets k) key of None \<Rightarrow> Err ErrKeyDoesntExists | Some v \<Rightarrow> Ok v)"
  by (simp add: Retrieve_def)

lemma save_load:
  assumes "crypto_ok C" "random_ok rnd" "fsys_ok w" "map_of (fsFiles w) (tempPath k) = None" "ks_inv k" "dirty k"
  shows "\<exists>w' k'. doSave C rnd override k w = (k\<lparr>dirty := False\<rparr>, w', Ok ()) \<and>
    (\<forall>p. p \<noteq> Path k \<longrightarrow> map_of (fsFiles w') p = map_of (fsFiles w) p) \<and>
    NewFileKeystoreWithPasswordAndStrictPerms C w' (Path k) (password k) strict = Ok k' \<and> map_of (secrets k') = map_of (secrets k)"
proof -
  obtain e w' where s: "encrypt C rnd k (jsonEncode C (secrets k)) = Ok e" "doSave C rnd override k w = (k\<lparr>dirty := False\<rparr>, w', Ok ())"
    "map_of (fsFiles w') (Path k) = Some \<lparr>content = version @ b64Encode C e, perm = filePermission, uid = euid w\<rparr>"
    "\<forall>p. p \<noteq> Path k \<longrightarrow> map_of (fsFiles w') p = (if p = tempPath k then None else map_of (fsFiles w) p)"
    "fsys_ok w'" "euid w' = euid w"
    using doSave_ok [OF assms(1-3,6), of override] assms(4) by auto
  have "\<exists>k'. NewFileKeystoreWithPasswordAndStrictPerms C w' (Path k) (password k) strict = Ok k' \<and> map_of (secrets k') = map_of (secrets k)"
    using load_saved [OF assms(1,2) _ _ s(1,3), of strict] s(5,6) assms(5)
    by (auto simp: ks_inv_def fsys_ok_def checkPermissions_def)
  then show ?thesis using s(2,4) assms(4) by auto
qed

text \<open>
  C9. A keystore is a map of secrets that survives: after any sequence of stores and deletes, saving
  succeeds, touches no other file, and opening the file with the same password, also with strict
  permissions, gives for every key the value last stored and not deleted since. Keys are valid UTF-8
  and no temporary file of an earlier save is left.
\<close>

theorem keystore_refines_map:
  assumes "crypto_ok C" "random_ok rnd" "fsys_ok w" "map_of (fsFiles w) (tempPath k) = None"
    and "ks_inv k" "list_all op_valid ops" "ops \<noteq> []"
  shows "\<exists>k1 w' k2. Save C rnd (fold run_op ops k) w = (k1, w', Ok ()) \<and> \<not> dirty k1 \<and>
    (\<forall>p. p \<noteq> Path k \<longrightarrow> map_of (fsFiles w') p = map_of (fsFiles w) p) \<and>
    NewFileKeystoreWithPasswordAndStrictPerms C w' (Path k) (password k) strict = Ok k2 \<and>
    (\<forall>key. Retrieve k2 key =
       (case fold spec_op ops (map_of (secrets k)) key of None \<Rightarrow> Err ErrKeyDoesntExists | Some v \<Rightarrow> Ok v))"
proof -
  let ?k = "fold run_op ops k"
  note r = run_ops [OF assms(5,6)]
  have t: "map_of (fsFiles w) (tempPath ?k) = None" using assms(4) r by (simp add: tempPath_def)
  obtain w' k2 where "doSave C rnd True ?k w = (?k\<lparr>dirty := False\<rparr>, w', Ok ())"
    "\<forall>p. p \<noteq> Path k \<longrightarrow> map_of (fsFiles w') p = map_of (fsFiles w) p"
    "NewFileKeystoreWithPasswordAndStrictPerms C w' (Path k) (password k) strict = Ok k2" "map_of (secrets k2) = map_of (secrets ?k)"
    using save_load [OF assms(1-3) t, of True strict] r assms(7) by auto
  then show ?thesis using r by (auto simp: Save_def Retrieve_map)
qed

text \<open>
  A concrete environment for the witnesses: a seal that adds a byte, and an encoding of maps that marks
  every character.
\<close>

fun enc_str :: "string \<Rightarrow> string" where
  "enc_str [] = ''0''"
| "enc_str (c # s) = CHR ''1'' # c # enc_str s"

fun dec_str :: "string \<Rightarrow> (string \<times> string) option" where
  "dec_str [] = None"
| "dec_str (m # r) =
     (if m = CHR ''0'' then Some ([], r)
      else (case r of [] \<Rightarrow> None | c # r' \<Rightarrow> map_option (\<lambda>(s, r). (c # s, r)) (dec_str r')))"

lemma dec_enc_str [simp]: "dec_str (enc_str s @ r) = Some (s, r)"
  by (induction s) simp_all

fun enc_map :: "(string, string) gomap \<Rightarrow> string" where
  "enc_map [] = []"
| "enc_map ((a, b) # m) = enc_str a @ enc_str b @ enc_map m"

fun dec_map :: "nat \<Rightarrow> string \<Rightarrow> (string, string) gomap option" where
  "dec_map 0 s = None"
| "dec_map (Suc n) s =
     (if s = [] then Some []
      else Option.bind (dec_str s) (\<lambda>(a, r). Option.bind (dec_str r) (\<lambda>(b, r'). map_option ((#) (a, b)) (dec_map n r'))))"

lemma enc_str_ne [simp]: "enc_str s \<noteq> []"
  by (cases s) simp_all

lemma dec_enc_map: "length (enc_map m) < n \<Longrightarrow> dec_map n (enc_map m) = Some m"
proof (induction m arbitrary: n)
  case (Cons x m)
  obtain a b where "x = (a, b)" by (cases x)
  moreover obtain n' where "n = Suc n'" using Cons.prems by (cases n) auto
  moreover have "0 < length (enc_str a)" by simp
  ultimately have "length (enc_map m) < n'" using Cons.prems by (simp del: length_greater_0_conv)
  then show ?case using Cons.IH \<open>x = (a, b)\<close> \<open>n = Suc n'\<close> by simp
qed (auto simp: gr0_conv_Suc)

definition toy_crypto :: crypto where
  "toy_crypto = \<lparr>pbkdf2 = (\<lambda>pw salt. Some pw), newCipher = (\<lambda>_. True), seal = (\<lambda>key iv d. CHR ''s'' # d),
     unseal = (\<lambda>key iv d. Some (tl d)), b64Encode = id, b64Decode = Some, jsonEncode = enc_map,
     jsonDecode = (\<lambda>s. dec_map (Suc (length s)) s)\<rparr>"

lemma toy_crypto_ok: "crypto_ok toy_crypto"
  by (auto simp: crypto_ok_def toy_crypto_def dec_enc_map simp del: dec_map.simps)

definition toy_random :: "nat \<Rightarrow> string option" where
  "toy_random n = Some (replicate n CHR ''r'')"

lemma toy_random_ok: "random_ok toy_random"
  by (simp add: random_ok_def toy_random_def)

definition toy_fsys :: "(string, fileT) gomap \<Rightarrow> fsys" where
  "toy_fsys fs = \<lparr>fsFiles = fs, canRead = (\<lambda>_. True), canOpen = True, canRename = True, canSync = True, euid = 1\<rparr>"

lemma toy_fsys_ok: "fsys_ok (toy_fsys fs)"
  by (simp add: fsys_ok_def toy_fsys_def)

definition toy_keystore :: FileKeystore where
  "toy_keystore = \<lparr>Path = ''k'', secrets = [], dirty = False, password = [], isStrictPerms = False\<rparr>"

lemma utf8_a: "utf8_valid ''a''"
  by (simp add: utf8_valid.simps decodeRune_def RuneError_def)

theorem keystore_refines_map_witness:
  "\<exists>k1 w' k2. Save toy_crypto toy_random (fold run_op [StoreOp ''a'' ''1'', StoreOp ''a'' ''2''] toy_keystore) (toy_fsys []) = (k1, w', Ok ()) \<and>
    NewFileKeystoreWithPasswordAndStrictPerms toy_crypto w' ''k'' [] True = Ok k2 \<and> Retrieve k2 ''a'' = Ok ''2''"
proof -
  let ?ops = "[StoreOp ''a'' ''1'', StoreOp ''a'' ''2'']"
  have "map_of (fsFiles (toy_fsys [])) (tempPath toy_keystore) = None" "ks_inv toy_keystore" "list_all op_valid ?ops" "?ops \<noteq> []"
    by (simp_all add: toy_fsys_def toy_keystore_def ks_inv_def op_valid_def utf8_a)
  from keystore_refines_map [OF toy_crypto_ok toy_random_ok toy_fsys_ok this, of True] show ?thesis
    by (fastforce simp: toy_keystore_def)
qed

text \<open>
  Creating a keystore without the permission to override nevertheless replaces an existing one: the
  check is made for the temporary file only. The secrets of the existing keystore are lost.
\<close>

theorem Create_overwrites:
  assumes "crypto_ok C" "random_ok rnd" "fsys_ok w" "map_of (fsFiles w) (tempPath k) = None"
  shows "\<exists>k1 w' k2. Create C rnd False k w = (k1, w', Ok ()) \<and>
    NewFileKeystoreWithPasswordAndStrictPerms C w' (Path k) (password k) strict = Ok k2 \<and>
    (\<forall>key. Retrieve k2 key = Err ErrKeyDoesntExists)"
proof -
  let ?k = "k\<lparr>secrets := [], dirty := True\<rparr>"
  have "ks_inv ?k" "map_of (fsFiles w) (tempPath ?k) = None" using assms(4) by (simp_all add: ks_inv_def tempPath_def)
  then obtain w' k2 where "doSave C rnd False ?k w = (?k\<lparr>dirty := False\<rparr>, w', Ok ())"
    "NewFileKeystoreWithPasswordAndStrictPerms C w' (Path k) (password k) strict = Ok k2" "map_of (secrets k2) = Map.empty"
    using save_load [OF assms(1-3), of ?k False strict] by auto
  then show ?thesis by (auto simp: Create_def Retrieve_map)
qed

theorem Create_overwrites_witness:
  "\<exists>k1 w' k2. Create toy_crypto toy_random False toy_keystore
      (toy_fsys [(''k'', \<lparr>content = ''v1secrets'', perm = filePermission, uid = 1\<rparr>)]) = (k1, w', Ok ()) \<and>
    NewFileKeystoreWithPasswordAndStrictPerms toy_crypto w' ''k'' [] False = Ok k2 \<and> Retrieve k2 ''a'' = Err ErrKeyDoesntExists"
proof -
  let ?w = "toy_fsys [(''k'', \<lparr>content = ''v1secrets'', perm = filePermission, uid = 1\<rparr>)]"
  have "map_of (fsFiles ?w) (tempPath toy_keystore) = None" by (simp add: toy_fsys_def toy_keystore_def tempPath_def)
  from Create_overwrites [OF toy_crypto_ok toy_random_ok toy_fsys_ok this, of False] show ?thesis
    by (fastforce simp: toy_keystore_def)
qed

text \<open>
  C20. A save that fails leaves the keystore as it was, to be saved again, and every file but the temporary
  one; only when the failure is that of the last step, making the directory durable, is the new
  file already in place.
\<close>

theorem failed_save:
  assumes "Save C rnd k w = (k', w', Err e)"
  shows "k' = k \<and> dirty k \<and>
    (\<forall>p. p \<noteq> tempPath k \<longrightarrow> p \<noteq> Path k \<or> canSync w \<longrightarrow> map_of (fsFiles w') p = map_of (fsFiles w) p)"
  using assms
  by (auto simp: Save_def doSave_def openTemp_def writeFile_def SafeFileRotate_def osRename_def removeFile_def Let_def
      split: if_splits outcome.splits option.splits)

theorem failed_save_witness:
  "\<exists>k' w'. Save toy_crypto (\<lambda>_. None) (Store ''a'' ''1'' toy_keystore) (toy_fsys []) = (k', w', Err ErrRandom) \<and> dirty k'"
proof -
  have "Save toy_crypto (\<lambda>_. None) (Store ''a'' ''1'' toy_keystore) (toy_fsys []) = (Store ''a'' ''1'' toy_keystore, toy_fsys [], Err ErrRandom)"
    by (simp add: Save_def doSave_def Store_def encrypt_def randomBytes_def)
  from failed_save [OF this] this show ?thesis by auto
qed

text \<open>
  A temporary file left by an earlier save keeps its permissions: the saved keystore has them, and a
  strict keystore then refuses to open it.
\<close>

lemma stale_temp_permissions:
  assumes "crypto_ok C" "random_ok rnd" "fsys_ok w" "dirty k"
    and "map_of (fsFiles w) (tempPath k) = Some f" "perm f \<noteq> filePermission" "uid f = euid w"
  shows "\<exists>k1 w'. Save C rnd k w = (k1, w', Ok ()) \<and>
    NewFileKeystoreWithPasswordAndStrictPerms C w' (Path k) (password k) True = Err ErrPermissions"
proof -
  obtain e w' where s: "doSave C rnd True k w = (k\<lparr>dirty := False\<rparr>, w', Ok ())"
    "map_of (fsFiles w') (Path k) = Some (f\<lparr>content := version @ b64Encode C e\<rparr>)" "fsys_ok w'" "euid w' = euid w"
    using doSave_ok [OF assms(1-4), of True] assms(5) by auto
  then show ?thesis
    using assms(6,7)
    by (auto simp: Save_def NewFileKeystoreWithPasswordAndStrictPerms_def load_def loadRaw_def checkPermissions_def fsys_ok_def)
qed


section \<open>The two formats\<close>

text \<open>
  The build with the FIPS restriction writes the same layout: from the same random bytes it makes the same text, and it
  decrypts every text of the other build that is long enough, so only the version at the head keeps one from reading the
  files of the other.
\<close>

lemma encryptFips_same:
  assumes "random_ok rnd" and "\<And>salt. \<exists>h. pbkdf2 C (password k) salt = Some h \<and> newCipher C h"
  shows "encryptFips C rnd k d = encrypt C rnd k d"
proof -
  obtain iv salt where r: "rnd iVLength = Some iv" "rnd saltLength = Some salt" using assms(1) unfolding random_ok_def by metis
  obtain h where "pbkdf2 C (password k) salt = Some h" "newCipher C h" using assms(2) by blast
  then show ?thesis by (simp add: r encryptFips_def encrypt_def sealRandom_def randomBytes_def hashPassword_def)
qed

lemma decryptFips_same: "saltLength + iVLength + 1 \<le> length data \<Longrightarrow> decryptFips C k data = decrypt C k data"
  by (auto simp: decryptFips_def decrypt_def openRandom_def hashPassword_def Let_def add.commute split: option.splits)

lemma fips_roundtrip:
  assumes "crypto_ok C" and "random_ok rnd" and "password k' = password k"
  shows "\<exists>e. encryptFips C rnd k d = Ok e \<and> decryptFips C k' e = Ok d"
proof -
  obtain e where e: "encrypt C rnd k d = Ok e" "decrypt C k' e = Ok d" using encrypt_ok [OF assms(1,2)] assms(3) by blast
  have "\<exists>h. pbkdf2 C (password k) salt = Some h \<and> newCipher C h" for salt using assms(1) unfolding crypto_ok_def by blast
  then have "encryptFips C rnd k d = Ok e" using encryptFips_same [OF assms(2)] e(1) by simp
  moreover have "\<not> length e < saltLength + iVLength + 1" using e(2) by (auto simp: decrypt_def)
  ultimately show ?thesis using e(2) decryptFips_same [of e C k'] by auto
qed

end
