(* ===== verification/Periodic.thy ===== *)
theory Periodic
  imports Go_Prelude
begin

text \<open>
  Package \<open>periodic\<close> (src/periodic/ratelimited.go): events are counted and a function is called with their
  number at most once in a period. The clients, which count, start and stop in any order and any number,
  and the goroutines of \<open>Start\<close> run concurrently: the state machine has one step per action of each, in any
  order. A call of \<open>Start\<close> or \<open>do\<close> is one step; a call of \<open>Stop\<close> is the swap of \<open>started\<close>, the close of the channel, the
  wait and the return. Times are numbers.
\<close>

section \<open>The code\<close>

text \<open>
  A goroutine of \<open>Start\<close>: about to enter its \<open>select\<close>, which reads \<open>r.done\<close> anew in every round, or in it with
  the channel read there.
\<close>

datatype gphase = Entering | Select nat

text \<open>
  The state, with the calls of \<open>doFn\<close> so far. Channels are numbers, \<open>doneChan\<close> is \<open>r.done\<close> with 0 for nil; \<open>gos\<close> are the
  goroutines that run, whose number is the counter of the wait group. A call of \<open>Stop\<close> is counted in \<open>closing\<close>
  before it closes the channel, in \<open>stopping\<close> before its wait, in \<open>waiting\<close> while it waits, in \<open>released\<close> when the
  counter has reached 0 and it has not woken yet, and in \<open>returned\<close> at the end. The field \<open>raced\<close> is not in the
  code: it records that a \<open>Start\<close> has replaced the channel of a \<open>Stop\<close> before this has closed it.
\<close>

record Doer =
  count :: "64 word"
  period :: nat
  lastDone :: nat
  started :: bool
  doneChan :: nat
  closed :: "nat list"
  gos :: "gphase list"
  closing :: nat
  stopping :: nat
  waiting :: nat
  released :: nat
  returned :: nat
  panicked :: bool
  raced :: bool
  calls :: "(64 word \<times> nat) list"

definition NewDoer :: "nat \<Rightarrow> Doer" where
  "NewDoer p = \<lparr>count = 0, period = p, lastDone = 0, started = False, doneChan = 0, closed = [], gos = [],
     closing = 0, stopping = 0, waiting = 0, released = 0, returned = 0, panicked = False, raced = False, calls = []\<rparr>"

definition AddN :: "64 word \<Rightarrow> Doer \<Rightarrow> Doer" where
  "AddN n r = r\<lparr>count := count r + n\<rparr>"

definition Add :: "Doer \<Rightarrow> Doer" where
  "Add r = r\<lparr>count := count r + 1\<rparr>"

definition doAction :: "nat \<Rightarrow> Doer \<Rightarrow> Doer" where
  "doAction now r =
     (let c = count r; r = r\<lparr>count := 0\<rparr> in
      if c = 0 then r else r\<lparr>lastDone := now, calls := calls r @ [(c, period r)]\<rparr>)"

definition Start :: "nat \<Rightarrow> Doer \<Rightarrow> Doer" where
  "Start now r =
     (if started r then r
      else r\<lparr>started := True, doneChan := Suc (doneChan r), lastDone := now, gos := gos r @ [Entering]\<rparr>)"

text \<open>
  The first part of \<open>Stop\<close>: a call on an object that is not started returns at once. Then it closes the
  channel that \<open>r.done\<close> holds at that time; closing a nil channel or one that is closed panics.
\<close>

definition StopBegin :: "Doer \<Rightarrow> Doer" where
  "StopBegin r =
     (if \<not> started r then r\<lparr>returned := Suc (returned r)\<rparr> else r\<lparr>started := False, closing := Suc (closing r)\<rparr>)"

definition StopClose :: "Doer \<Rightarrow> Doer" where
  "StopClose r =
     (let r = r\<lparr>closing := closing r - 1\<rparr> in
      if doneChan r = 0 \<or> doneChan r \<in> set (closed r) then r\<lparr>panicked := True\<rparr>
      else r\<lparr>closed := doneChan r # closed r, stopping := Suc (stopping r)\<rparr>)"

text \<open>The wait: it returns at once when no goroutine runs.\<close>

definition StopWait :: "Doer \<Rightarrow> Doer" where
  "StopWait r =
     (let r = r\<lparr>stopping := stopping r - 1\<rparr> in
      if gos r = [] then r\<lparr>returned := Suc (returned r)\<rparr> else r\<lparr>waiting := Suc (waiting r)\<rparr>)"

text \<open>
  A released call wakes; \<open>sync.WaitGroup\<close> panics when it has been reused before. The last goroutine that
  ends releases every call that waits.
\<close>

definition StopReturn :: "Doer \<Rightarrow> Doer" where
  "StopReturn r =
     (if gos r \<noteq> [] \<or> waiting r > 0 then r\<lparr>panicked := True\<rparr>
      else r\<lparr>released := released r - 1, returned := Suc (returned r)\<rparr>)"

definition goEnd :: "nat \<Rightarrow> Doer \<Rightarrow> Doer" where
  "goEnd g r =
     (let r = r\<lparr>gos := take g (gos r) @ drop (Suc g) (gos r)\<rparr> in
      if gos r = [] then r\<lparr>released := released r + waiting r, waiting := 0\<rparr> else r)"

section \<open>Interleavings\<close>

datatype action = AAdd | AAddN "64 word" | AStart nat | AStop | AClose | AWait | AReturn | AEnter nat | ATick nat nat | ADone nat nat

text \<open>
  One action, None when it is not enabled. Goroutine \<open>g\<close> enters its \<open>select\<close>, takes a tick of its timer or the
  close of the channel it waits for, in any order when both are ready. Nothing happens after a panic.
\<close>

fun enabled :: "action \<Rightarrow> Doer \<Rightarrow> bool" where
  "enabled AClose r = (closing r > 0)"
| "enabled AWait r = (stopping r > 0)"
| "enabled AReturn r = (released r > 0)"
| "enabled (AEnter g) r = (g < length (gos r) \<and> gos r ! g = Entering)"
| "enabled (ATick g _) r = (g < length (gos r) \<and> gos r ! g \<noteq> Entering)"
| "enabled (ADone g _) r = (g < length (gos r) \<and> (case gos r ! g of Entering \<Rightarrow> False | Select c \<Rightarrow> c \<in> set (closed r)))"
| "enabled _ r = True"

fun effect :: "action \<Rightarrow> Doer \<Rightarrow> Doer" where
  "effect AAdd r = Add r"
| "effect (AAddN n) r = AddN n r"
| "effect (AStart now) r = (Start now r)\<lparr>raced := raced r \<or> \<not> started r \<and> closing r > 0\<rparr>"
| "effect AStop r = StopBegin r"
| "effect AClose r = StopClose r"
| "effect AWait r = StopWait r"
| "effect AReturn r = StopReturn r"
| "effect (AEnter g) r = r\<lparr>gos := (gos r)[g := Select (doneChan r)]\<rparr>"
| "effect (ATick g now) r = doAction now (r\<lparr>gos := (gos r)[g := Entering]\<rparr>)"
| "effect (ADone g now) r = goEnd g (doAction now r)"

definition step :: "action \<Rightarrow> Doer \<Rightarrow> Doer option" where
  "step a r = (if \<not> panicked r \<and> enabled a r then Some (effect a r) else None)"

fun run :: "action list \<Rightarrow> Doer \<Rightarrow> Doer option" where
  "run [] r = Some r"
| "run (a # as) r = Option.bind (step a r) (run as)"

section \<open>Laws\<close>

text \<open>The number of events, which the counter keeps at 64 bits.\<close>

fun added :: "action \<Rightarrow> 64 word" where
  "added AAdd = 1"
| "added (AAddN n) = n"
| "added _ = 0"

definition reported :: "Doer \<Rightarrow> 64 word" where
  "reported r = sum_list (map fst (calls r))"

lemmas client_ops = Add_def AddN_def Start_def StopBegin_def StopClose_def StopWait_def StopReturn_def Let_def

lemmas doer_ops = client_ops goEnd_def doAction_def

lemma step_Some: "step a r = Some r' \<longleftrightarrow> \<not> panicked r \<and> enabled a r \<and> r' = effect a r"
  by (auto simp: step_def)

lemma doAction_simps [simp]:
  "count (doAction now r) = 0" "period (doAction now r) = period r" "started (doAction now r) = started r"
  "gos (doAction now r) = gos r" "doneChan (doAction now r) = doneChan r" "closed (doAction now r) = closed r"
  "waiting (doAction now r) = waiting r" "closing (doAction now r) = closing r" "raced (doAction now r) = raced r" "stopping (doAction now r) = stopping r" "released (doAction now r) = released r"
  "returned (doAction now r) = returned r" "panicked (doAction now r) = panicked r"
  "reported (doAction now r) = reported r + count r"
  by (simp_all add: doAction_def Let_def reported_def)

lemma reported_simps [simp]:
  "reported (r\<lparr>gos := b\<rparr>) = reported r" "reported (r\<lparr>raced := x\<rparr>) = reported r" "reported (StopClose r) = reported r" "reported (goEnd g r) = reported r" "reported (AddN n r) = reported r"
  "reported (Add r) = reported r" "reported (Start now r) = reported r" "reported (StopBegin r) = reported r"
  "reported (StopWait r) = reported r" "reported (StopReturn r) = reported r"
  by (simp_all add: reported_def doer_ops)

lemma count_simps [simp]:
  "count (AddN n r) = count r + n" "count (Add r) = count r + 1" "count (Start now r) = count r" "count (StopBegin r) = count r"
  "count (StopWait r) = count r" "count (StopClose r) = count r" "count (StopReturn r) = count r" "count (goEnd g r) = count r"
  by (simp_all add: doer_ops)

lemma goEnd_simps [simp]:
  "started (goEnd g r) = started r" "doneChan (goEnd g r) = doneChan r" "closed (goEnd g r) = closed r"
  "gos (goEnd g r) = take g (gos r) @ drop (Suc g) (gos r)" "stopping (goEnd g r) = stopping r" "closing (goEnd g r) = closing r" "raced (goEnd g r) = raced r"
  "returned (goEnd g r) = returned r" "panicked (goEnd g r) = panicked r" "calls (goEnd g r) = calls r" "period (goEnd g r) = period r"
  by (simp_all add: doer_ops)

text \<open>
  The invariant, as long as no channel was replaced before its close: every channel but the current one is closed, the
  current one is open exactly while the object is started or a call of \<open>Stop\<close> is about to close it, and then
  some goroutine runs that can only end with it. A call waits only while a goroutine runs.
\<close>

definition active :: "Doer \<Rightarrow> bool" where
  "active r \<longleftrightarrow> started r \<or> closing r > 0"

definition chans_inv :: "Doer \<Rightarrow> bool" where
  "chans_inv r \<longleftrightarrow> (\<forall>c. 0 < c \<and> c < doneChan r \<longrightarrow> c \<in> set (closed r)) \<and> (\<forall>c \<in> set (closed r). c \<le> doneChan r) \<and>
     closing r \<le> 1 \<and> (started r \<longrightarrow> closing r = 0) \<and>
     (if active r then 0 < doneChan r \<and> doneChan r \<notin> set (closed r) else 0 < doneChan r \<longrightarrow> doneChan r \<in> set (closed r))"

definition gos_inv :: "Doer \<Rightarrow> bool" where
  "gos_inv r \<longleftrightarrow> (\<forall>c. Select c \<in> set (gos r) \<longrightarrow> 0 < c \<and> c \<le> doneChan r) \<and> (gos r \<noteq> [] \<longrightarrow> 0 < doneChan r) \<and>
     (active r \<longrightarrow> Entering \<in> set (gos r) \<or> Select (doneChan r) \<in> set (gos r))"

definition doer_inv :: "Doer \<Rightarrow> bool" where
  "doer_inv r \<longleftrightarrow> (\<not> raced r \<longrightarrow> chans_inv r \<and> gos_inv r) \<and> (waiting r > 0 \<longrightarrow> gos r \<noteq> []) \<and>
     (\<forall>(c, d) \<in> set (calls r). c \<noteq> 0 \<and> d = period r)"

lemma raced_step: "\<not> raced (effect a r) \<Longrightarrow> \<not> raced r"
  by (cases a) (auto simp: client_ops split: if_splits)

lemma chans_inv_step: "enabled a r \<Longrightarrow> \<not> raced (effect a r) \<Longrightarrow> chans_inv r \<Longrightarrow> chans_inv (effect a r)"
  by (cases a) (auto simp: chans_inv_def active_def client_ops less_Suc_eq)

lemma in_removed: "x \<in> set xs \<Longrightarrow> g < length xs \<Longrightarrow> xs ! g \<noteq> x \<Longrightarrow> x \<in> set (take g xs @ drop (Suc g) xs)"
  by (metis Un_iff id_take_nth_drop list.set_intros(2) set_ConsD set_append)

lemma removed_in: "x \<in> set (take g xs @ drop (Suc g) xs) \<Longrightarrow> x \<in> set xs"
  by (auto dest: in_set_takeD in_set_dropD)

lemma in_updated_new: "g < length xs \<Longrightarrow> y \<in> set (xs[g := y])"
  by (simp add: set_update_memI)

text \<open>What a goroutine does keeps the one that serves the current channel.\<close>

lemma gos_inv_step:
  assumes "enabled a r" "chans_inv r" "gos_inv r" "\<not> raced (effect a r)"
  shows "gos_inv (effect a r)"
proof (cases a)
  case (AEnter g)
  have "Select c \<in> set ((gos r)[g := Select (doneChan r)]) \<Longrightarrow> 0 < c \<and> c \<le> doneChan r" for c
    using assms AEnter set_update_subset_insert [of "gos r" g "Select (doneChan r)"] by (fastforce simp: gos_inv_def)
  then show ?thesis using assms AEnter in_updated_new [of g "gos r" "Select (doneChan r)"] by (auto simp: gos_inv_def active_def)
next
  case (ATick g now)
  have "Select c \<in> set ((gos r)[g := Entering]) \<Longrightarrow> 0 < c \<and> c \<le> doneChan r" for c
    using assms ATick set_update_subset_insert [of "gos r" g Entering] by (fastforce simp: gos_inv_def)
  then show ?thesis using assms ATick in_updated_new [of g "gos r" Entering] by (auto simp: gos_inv_def active_def)
next
  case (ADone g now)
  then obtain c where c: "gos r ! g = Select c" "c \<in> set (closed r)" "g < length (gos r)"
    using assms(1) by (auto split: gphase.splits)
  have "active r \<Longrightarrow> c \<noteq> doneChan r" using assms(2) c(2) by (auto simp: chans_inv_def)
  moreover have "gos r \<noteq> []" using c(3) by auto
  ultimately show ?thesis
    using assms(3) ADone c in_removed [of _ "gos r" g] removed_in [of _ g "gos r"] by (auto simp: gos_inv_def active_def)
qed (use assms in \<open>auto simp: gos_inv_def active_def client_ops split: if_splits\<close>)

lemma step_inv:
  assumes "step a r = Some r'" "doer_inv r"
  shows "doer_inv r'"
proof -
  have e: "enabled a r" "r' = effect a r" using assms(1) by (simp_all add: step_Some)
  have "\<not> raced r' \<longrightarrow> chans_inv r' \<and> gos_inv r'"
    using assms(2) e raced_step chans_inv_step gos_inv_step by (auto simp: doer_inv_def)
  moreover have "(waiting r' > 0 \<longrightarrow> gos r' \<noteq> []) \<and> (\<forall>(c, d) \<in> set (calls r'). c \<noteq> 0 \<and> d = period r')"
    using assms(2) e by (cases a) (auto simp: doer_inv_def doer_ops split: if_splits)
  ultimately show ?thesis by (simp add: doer_inv_def)
qed

lemma step_conserves: "step a r = Some r' \<Longrightarrow> reported r' + count r' = reported r + count r + added a"
  by (cases a) (auto simp: step_Some)

lemma step_calls:
  "step a r = Some r' \<Longrightarrow> length (calls r') \<le> length (calls r) + (case a of ATick _ _ \<Rightarrow> 1 | ADone _ _ \<Rightarrow> 1 | _ \<Rightarrow> 0)"
  by (cases a) (auto simp: step_Some doer_ops)

lemma run_inv: "run as r = Some r' \<Longrightarrow> doer_inv r \<Longrightarrow> doer_inv r'"
  by (induction as arbitrary: r) (auto simp: bind_eq_Some_conv dest: step_inv)

lemma run_conserves: "run as r = Some r' \<Longrightarrow> reported r' + count r' = reported r + count r + sum_list (map added as)"
proof (induction as arbitrary: r)
  case (Cons a as)
  then obtain r1 where "step a r = Some r1" "run as r1 = Some r'" by (auto simp: bind_eq_Some_conv)
  then show ?case using Cons.IH [of r1] step_conserves [of a r r1] by (simp add: algebra_simps)
qed simp


definition tick :: "action \<Rightarrow> bool" where
  "tick a = (case a of ATick _ _ \<Rightarrow> True | ADone _ _ \<Rightarrow> True | _ \<Rightarrow> False)"

lemma run_calls: "run as r = Some r' \<Longrightarrow> length (calls r') \<le> length (calls r) + length (filter tick as)"
proof (induction as arbitrary: r)
  case (Cons a as)
  then obtain r1 where "step a r = Some r1" "run as r1 = Some r'" by (auto simp: bind_eq_Some_conv)
  then show ?case using Cons.IH [of r1] step_calls [of a r r1] by (cases a) (auto simp: tick_def)
qed simp

lemma NewDoer_inv: "doer_inv (NewDoer p)" "reported (NewDoer p) = 0" "count (NewDoer p) = 0" "calls (NewDoer p) = []"
  by (simp_all add: doer_inv_def chans_inv_def gos_inv_def active_def NewDoer_def reported_def)





















text \<open>
  What a channel that is replaced before its close leads to: \<open>Stop\<close> closes the channel of the new \<open>Start\<close>, and the next
  \<open>Stop\<close> closes it again and panics.
\<close>

lemma start_between_swap_and_close_panics:
  "map_option panicked (run [AStart 0, AStop, AStart 1, AClose, AStop, AClose] (NewDoer p)) = Some True"
  by (simp add: NewDoer_def step_def client_ops)

section \<open>Properties\<close>

text \<open>
  C18. In every interleaving no event is lost and none is counted twice: the numbers given to the
  function and the counter add up to the events, at 64 bits. The function is never called for no
  event, always with the period, and at most once for a tick of the timer or a stop.
\<close>

theorem doer_conserves:
  assumes "run as (NewDoer p) = Some r"
  shows "reported r + count r = sum_list (map added as) \<and> (\<forall>(c, d) \<in> set (calls r). c \<noteq> 0 \<and> d = p) \<and>
    length (calls r) \<le> length (filter tick as)"
proof -
  have "period r = p"
  proof -
    have "step a s = Some s' \<Longrightarrow> period s' = period s" for a s s'
      by (cases a) (auto simp: step_Some client_ops)
    then have "run as s = Some r \<Longrightarrow> period r = period s" for s
      by (induction as arbitrary: s) (fastforce simp: bind_eq_Some_conv)+
    from this [OF assms] show ?thesis by (simp add: NewDoer_def)
  qed
  then show ?thesis
    using run_conserves [OF assms] run_inv [OF assms] run_calls [OF assms] NewDoer_inv by (simp add: doer_inv_def)
qed

theorem doer_conserves_witness:
  "\<exists>r. run [AStart 0, AEnter 0, AAdd, ATick 0 1, AAddN 2, AStop, AAdd, AClose, AEnter 0, AWait, ADone 0 2, AReturn] (NewDoer 5) = Some r \<and>
     reported r + count r = 4"
proof -
  obtain r where r: "run [AStart 0, AEnter 0, AAdd, ATick 0 1, AAddN 2, AStop, AAdd, AClose, AEnter 0, AWait, ADone 0 2, AReturn] (NewDoer 5) = Some r"
    by (simp add: NewDoer_def step_def doer_ops)
  from doer_conserves [OF this] r show ?thesis by auto
qed



end
