(* ===== verification/Configs.thy ===== *)
theory Configs
  imports Stringset
begin

text \<open>
  Packages \<open>config\<close> and \<open>cloudid\<close> (src/config/config.go, src/cloudid/cloudid.go): the mask that hides
  secrets when a configuration is printed, the choice of a named section, and the settings derived from a
  cloud id.

  The configuration of go-ucfg is a type of its own with the operations used, as are the lower-case
  mapping of Unicode, base64 and the escaping of host names in a URL. The mask is modelled on a tree: the
  code changes it in place.
\<close>

section \<open>The logging mask\<close>

datatype tree = TMap "(string \<times> tree) list" | TList "tree list" | TLeaf string

definition mask :: string where "mask = ''xxxxx''"

definition maskList :: Set where
  "maskList = MakeSet [''password'', ''passphrase'', ''key_passphrase'', ''pass'', ''proxy_url'', ''url'', ''urls'', ''host'',
     ''hosts'', ''authorization'', ''proxy-authorization'']"

fun maskValue :: "tree \<Rightarrow> tree" where
  "maskValue (TList arr) = TList (map (\<lambda>_. TLeaf mask) arr)"
| "maskValue _ = TLeaf mask"

fun ApplyLoggingMask :: "(string \<Rightarrow> string) \<Rightarrow> tree \<Rightarrow> tree" where
  "ApplyLoggingMask lower (TMap cfg) =
     TMap (map (\<lambda>(k, v). (k, if Has maskList (lower k) then maskValue v else ApplyLoggingMask lower v)) cfg)"
| "ApplyLoggingMask lower (TList cfg) = TList (map (ApplyLoggingMask lower) cfg)"
| "ApplyLoggingMask lower (TLeaf s) = TLeaf s"

text \<open>The values of a tree with the keys above them.\<close>

fun leafValues :: "tree \<Rightarrow> (string list \<times> string) list" where
  "leafValues (TMap cfg) = concat (map (\<lambda>(k, v). map (\<lambda>(p, s). (k # p, s)) (leafValues v)) cfg)"
| "leafValues (TList cfg) = concat (map leafValues cfg)"
| "leafValues (TLeaf s) = [([], s)]"

section \<open>Named sections\<close>

record 'c ucfg =
  GetFields :: "'c \<Rightarrow> string list"
  Child :: "'c \<Rightarrow> string \<Rightarrow> 'c option"
  unpackEnabled :: "'c \<Rightarrow> bool option"

record 'c Namespace =
  nsName :: string
  nsConfig :: "'c option"

datatype cfg_error = ErrNotObject | ErrMoreThanOne

definition Enabled :: "'c ucfg \<Rightarrow> 'c option \<Rightarrow> bool" where
  "Enabled U c = (case c of None \<Rightarrow> False | Some cfg \<Rightarrow> (case unpackEnabled U cfg of None \<Rightarrow> True | Some b \<Rightarrow> b))"

text \<open>The loop over the fields; \<open>err\<close> is that of the last child looked at.\<close>

fun nsLoop :: "'c ucfg \<Rightarrow> 'c \<Rightarrow> string list \<Rightarrow> 'c Namespace \<Rightarrow> bool \<Rightarrow> bool \<Rightarrow> 'c Namespace \<times> (cfg_error, unit) outcome" where
  "nsLoop U cfg [] ns err found = (ns, if \<not> found \<and> err then Err ErrNotObject else Ok ())"
| "nsLoop U cfg (name # names) ns err found =
     (case Child U cfg name of
        None \<Rightarrow> nsLoop U cfg names ns True found
      | Some sub \<Rightarrow>
          if \<not> Enabled U (Some sub) then nsLoop U cfg names ns False found
          else if nsName ns \<noteq> [] then (ns, Err ErrMoreThanOne)
          else nsLoop U cfg names (ns\<lparr>nsName := name, nsConfig := Some sub\<rparr>) False True)"

definition Namespace_Unpack :: "'c ucfg \<Rightarrow> 'c \<Rightarrow> 'c Namespace \<Rightarrow> 'c Namespace \<times> (cfg_error, unit) outcome" where
  "Namespace_Unpack U cfg ns =
     (if length (GetFields U cfg) = 0 then (ns, Ok ()) else nsLoop U cfg (GetFields U cfg) ns False False)"

definition IsSet :: "'c Namespace \<Rightarrow> bool" where
  "IsSet ns \<longleftrightarrow> nsConfig ns \<noteq> None"

section \<open>Cloud ids\<close>

record CloudID =
  cloudid :: string
  esURL :: string
  kibURL :: string
  auth :: string
  username :: string
  pass :: string

datatype cloud_error = ErrBase64 | ErrParts | ErrAuth | ErrNoID | ErrUnpack | ErrOtherOutput | ErrSet

definition defaultCloudPort :: string where "defaultCloudPort = ''443''"

definition extractPortFromName :: "string \<Rightarrow> string \<Rightarrow> string \<times> string" where
  "extractPortFromName word defaultPort =
     (case cut_last_byte CHR '':'' word of Some (a, b) \<Rightarrow> (a, b) | None \<Rightarrow> (word, defaultPort))"

text \<open>The URL of a host, with the escaping of \<open>net/url\<close>.\<close>

definition hostURL :: "(string \<Rightarrow> string) \<Rightarrow> string \<Rightarrow> string \<Rightarrow> string \<Rightarrow> string" where
  "hostURL escape i host port = ''https://'' @ escape (i @ ''.'' @ host @ '':'' @ port)"

definition decodeCloudID :: "(string \<Rightarrow> string option) \<Rightarrow> (string \<Rightarrow> string) \<Rightarrow> CloudID \<Rightarrow> (cloud_error, CloudID) outcome" where
  "decodeCloudID b64 escape c =
     (case b64 (case cut_last_byte CHR '':'' (cloudid c) of Some (_, b) \<Rightarrow> b | None \<Rightarrow> cloudid c) of
        None \<Rightarrow> Err ErrBase64
      | Some decoded \<Rightarrow>
          (let words = split_byte CHR ''$'' decoded in
           if length words < 3 then Err ErrParts
           else
             (case extractPortFromName (words ! 0) defaultCloudPort of (host, port) \<Rightarrow>
              case extractPortFromName (words ! 1) port of (esID, esPort) \<Rightarrow>
              case extractPortFromName (words ! 2) port of (kbID, kbPort) \<Rightarrow>
                Ok (c\<lparr>esURL := hostURL escape esID host esPort, kibURL := hostURL escape kbID host kbPort\<rparr>))))"

definition decodeCloudAuth :: "CloudID \<Rightarrow> (cloud_error, CloudID) outcome" where
  "decodeCloudAuth c =
     (case cut_byte CHR '':'' (auth c) of
        None \<Rightarrow> Err ErrAuth
      | Some (a, b) \<Rightarrow> Ok (c\<lparr>username := a, pass := b\<rparr>))"

definition decode :: "(string \<Rightarrow> string option) \<Rightarrow> (string \<Rightarrow> string) \<Rightarrow> CloudID \<Rightarrow> (cloud_error, CloudID) outcome" where
  "decode b64 escape c =
     bind_outcome (decodeCloudID b64 escape c) (\<lambda>c'. if auth c' \<noteq> [] then decodeCloudAuth c' else Ok c')"

definition NewCloudID :: "(string \<Rightarrow> string option) \<Rightarrow> (string \<Rightarrow> string) \<Rightarrow> string \<Rightarrow> string \<Rightarrow> (cloud_error, CloudID) outcome" where
  "NewCloudID b64 escape cloudID cloudAuth =
     decode b64 escape \<lparr>cloudid = cloudID, esURL = [], kibURL = [], auth = cloudAuth, username = [], pass = []\<rparr>"

text \<open>
  The operations on the configuration: reading a string (an error reads as empty), the name of the
  output section if one is set, and storing hosts or a string. A store that fails leaves the
  configuration as it was.
\<close>

record 'c cloudcfg =
  getString :: "'c \<Rightarrow> string \<Rightarrow> string"
  outputName :: "'c \<Rightarrow> (cloud_error, string option) outcome"
  setHosts :: "'c \<Rightarrow> string \<Rightarrow> string list \<Rightarrow> 'c option"
  setString :: "'c \<Rightarrow> string \<Rightarrow> string \<Rightarrow> 'c option"

text \<open>Stores in sequence, up to the first that fails.\<close>

fun storeAll :: "('c \<Rightarrow> 'c option) list \<Rightarrow> 'c \<Rightarrow> 'c \<times> (cloud_error, unit) outcome" where
  "storeAll [] cfg = (cfg, Ok ())"
| "storeAll (f # fs) cfg = (case f cfg of None \<Rightarrow> (cfg, Err ErrSet) | Some cfg' \<Rightarrow> storeAll fs cfg')"

definition OverwriteSettings :: "'c cloudcfg \<Rightarrow> (string \<Rightarrow> string option) \<Rightarrow> (string \<Rightarrow> string) \<Rightarrow> 'c \<Rightarrow> 'c \<times> (cloud_error, unit) outcome" where
  "OverwriteSettings U b64 escape cfg =
     (let cloudID = getString U cfg ''cloud.id''; cloudAuth = getString U cfg ''cloud.auth'' in
      if cloudID = [] \<and> cloudAuth = [] then (cfg, Ok ())
      else if cloudID = [] then (cfg, Err ErrNoID)
      else
        (case NewCloudID b64 escape cloudID cloudAuth of
           Err e \<Rightarrow> (cfg, Err e)
         | Panic \<Rightarrow> (cfg, Panic)
         | Ok cid \<Rightarrow>
             (case outputName U cfg of
                Err e \<Rightarrow> (cfg, Err e)
              | Panic \<Rightarrow> (cfg, Panic)
              | Ok out \<Rightarrow>
                  if out \<noteq> None \<and> out \<noteq> Some ''elasticsearch'' then (cfg, Err ErrOtherOutput)
                  else
                    storeAll
                      ([\<lambda>c. setHosts U c ''output.elasticsearch.hosts'' [esURL cid],
                        \<lambda>c. setString U c ''setup.kibana.host'' (kibURL cid)] @
                       (if cloudAuth \<noteq> [] then
                          [\<lambda>c. setString U c ''output.elasticsearch.username'' (username cid),
                           \<lambda>c. setString U c ''output.elasticsearch.password'' (pass cid)] else [])) cfg)))"

section \<open>Laws\<close>

lemma maskValue_values: "(p, s) \<in> set (leafValues (maskValue v)) \<Longrightarrow> p = [] \<and> s = mask"
  by (cases v) (auto split: if_splits)

lemma leafValues_map:
  "(p, s) \<in> set (leafValues (TMap (map (\<lambda>(k, v). (k, f k v)) cfg))) \<longleftrightarrow>
     (\<exists>k v q. (k, v) \<in> set cfg \<and> p = k # q \<and> (q, s) \<in> set (leafValues (f k v)))"
  by (induction cfg) auto

lemma leafValues_TMap:
  "(p, s) \<in> set (leafValues (TMap cfg)) \<longleftrightarrow> (\<exists>k v q. (k, v) \<in> set cfg \<and> p = k # q \<and> (q, s) \<in> set (leafValues v))"
  using leafValues_map [of p s "\<lambda>_ v. v" cfg] by simp

lemma mask_TMap:
  "(p, s) \<in> set (leafValues (ApplyLoggingMask lower (TMap cfg))) \<longleftrightarrow>
     (\<exists>k v q. (k, v) \<in> set cfg \<and> p = k # q \<and>
        (q, s) \<in> set (leafValues (if Has maskList (lower k) then maskValue v else ApplyLoggingMask lower v)))"
  unfolding ApplyLoggingMask.simps(1) by (rule leafValues_map)

text \<open>A key is secret when its lower-case form is listed.\<close>

definition secret :: "(string \<Rightarrow> string) \<Rightarrow> string \<Rightarrow> bool" where
  "secret lower k \<longleftrightarrow> Has maskList (lower k)"

lemma mask_hides_values:
  "(p, s) \<in> set (leafValues (ApplyLoggingMask lower t)) \<Longrightarrow> list_ex (secret lower) p \<Longrightarrow> s = mask"
proof (induction lower t arbitrary: p rule: ApplyLoggingMask.induct)
  case (1 lower cfg)
  obtain k v q where kv: "(k, v) \<in> set cfg" "p = k # q"
    "(q, s) \<in> set (leafValues (if Has maskList (lower k) then maskValue v else ApplyLoggingMask lower v))"
    using 1(2) unfolding mask_TMap by blast
  show ?case
  proof (cases "Has maskList (lower k)")
    case True
    then show ?thesis using kv maskValue_values by auto
  next
    case False
    then show ?thesis using 1(1) [OF kv(1) refl False, of q] 1(3) kv by (simp add: secret_def)
  qed
next
  case (2 lower cfg)
  then show ?case by auto
qed simp

lemma mask_keeps_values:
  "\<not> list_ex (secret lower) p \<Longrightarrow>
     (p, s) \<in> set (leafValues (ApplyLoggingMask lower t)) \<longleftrightarrow> (p, s) \<in> set (leafValues t)"
proof (induction lower t arbitrary: p rule: ApplyLoggingMask.induct)
  case (1 lower cfg)
  have "(q, s) \<in> set (leafValues (if Has maskList (lower k) then maskValue v else ApplyLoggingMask lower v)) \<longleftrightarrow>
      (q, s) \<in> set (leafValues v)" if "(k, v) \<in> set cfg" "p = k # q" for k v q
    using 1(1) [OF that(1) refl, of q] 1(2) that(2) by (simp add: secret_def)
  then show ?case unfolding mask_TMap leafValues_TMap by blast
next
  case (2 lower cfg)
  then show ?case by auto
qed simp

text \<open>The sections that count: those that are objects and enabled.\<close>

definition active :: "'c ucfg \<Rightarrow> 'c \<Rightarrow> string list \<Rightarrow> (string \<times> 'c) list" where
  "active U cfg names = concat (map (\<lambda>n. case Child U cfg n of
     Some sub \<Rightarrow> if Enabled U (Some sub) then [(n, sub)] else [] | None \<Rightarrow> []) names)"

lemma active_simps [simp]:
  "active U cfg [] = []"
  "active U cfg (n # ns) = (case Child U cfg n of
     Some sub \<Rightarrow> if Enabled U (Some sub) then [(n, sub)] else [] | None \<Rightarrow> []) @ active U cfg ns"
  by (simp_all add: active_def)

lemma nsLoop_set:
  "nsName ns \<noteq> [] \<Longrightarrow> nsLoop U cfg names ns err True = (ns, if active U cfg names = [] then Ok () else Err ErrMoreThanOne)"
  by (induction names arbitrary: err) (auto split: option.split)

lemma nsLoop_spec:
  "nsName ns = [] \<Longrightarrow> [] \<notin> set names \<Longrightarrow> nsLoop U cfg names ns err False =
     (case active U cfg names of
        [] \<Rightarrow> (ns, if (if names = [] then err else Child U cfg (last names) = None) then Err ErrNotObject else Ok ())
      | (n, sub) # rest \<Rightarrow>
          (ns\<lparr>nsName := n, nsConfig := Some sub\<rparr>, if rest = [] then Ok () else Err ErrMoreThanOne))"
  by (induction names arbitrary: err) (auto simp: nsLoop_set split: option.split list.split)

section \<open>Properties\<close>

text \<open>
  C38. The logging mask hides every value below a secret key, at any depth of maps and lists, and changes
  no other value.
\<close>

theorem mask_hides:
  "(\<forall>(p, s) \<in> set (leafValues (ApplyLoggingMask lower t)). list_ex (secret lower) p \<longrightarrow> s = mask) \<and>
   (\<forall>p s. \<not> list_ex (secret lower) p \<longrightarrow>
      ((p, s) \<in> set (leafValues (ApplyLoggingMask lower t)) \<longleftrightarrow> (p, s) \<in> set (leafValues t)))"
  using mask_hides_values mask_keeps_values by fast

theorem mask_hides_witness:
  "set (leafValues (ApplyLoggingMask id (TMap [(''a'', TLeaf ''1''), (''pass'', TMap [(''b'', TLeaf ''2'')])]))) \<subseteq>
     {([''a''], ''1''), ([''pass''], mask)}"
proof -
  let ?t = "TMap [(''a'', TLeaf ''1''), (''pass'', TMap [(''b'', TLeaf ''2'')])]"
  have "secret id ''pass''" "\<not> secret id ''a''" by (simp_all add: secret_def maskList_def MakeSet_def Has_def)
  then show ?thesis
    using mask_hides [of id ?t] by (auto simp: secret_def)
qed

text \<open>
  What a configuration with named sections is read as: nothing when no section is active, the active
  section when there is one, and an error when there are two, with the first already set. Without an
  active section it is an error exactly when the last field is no section.
\<close>

lemma Namespace_Unpack_spec:
  assumes "nsName ns = []" and "[] \<notin> set (GetFields U cfg)"
  shows "Namespace_Unpack U cfg ns =
    (case active U cfg (GetFields U cfg) of
       [] \<Rightarrow> (ns, if GetFields U cfg \<noteq> [] \<and> Child U cfg (last (GetFields U cfg)) = None then Err ErrNotObject else Ok ())
     | (n, sub) # rest \<Rightarrow>
         (ns\<lparr>nsName := n, nsConfig := Some sub\<rparr>, if rest = [] then Ok () else Err ErrMoreThanOne))"
  using nsLoop_spec [OF assms, of U cfg False] by (cases "GetFields U cfg = []") (auto simp: Namespace_Unpack_def)

text \<open>
  C39. A cloud id made of a label, and of the encoding of a host, a port and the ids of Elasticsearch and
  Kibana, is decoded to the two URLs; the user and the password are the parts of the authentication
  around its first colon.
\<close>

theorem NewCloudID_roundtrip:
  assumes "b64 enc = Some (host @ '':'' @ port @ ''$'' @ es @ ''$'' @ kb)" and "CHR '':'' \<notin> set enc"
    and "CHR ''$'' \<notin> set (host @ port @ es @ kb)" and "CHR '':'' \<notin> set (port @ es @ kb @ user)"
  shows "\<exists>c. NewCloudID b64 escape (label @ '':'' @ enc) (user @ '':'' @ pw) = Ok c \<and>
    esURL c = ''https://'' @ escape (es @ ''.'' @ host @ '':'' @ port) \<and>
    kibURL c = ''https://'' @ escape (kb @ ''.'' @ host @ '':'' @ port) \<and> username c = user \<and> pass c = pw"
proof -
  have words: "split_byte CHR ''$'' (host @ '':'' @ port @ ''$'' @ es @ ''$'' @ kb) = [host @ '':'' @ port, es, kb]"
    using assms(3) split_byte_cut [of "CHR ''$''" "host @ '':'' @ port" "es @ ''$'' @ kb"]
      split_byte_cut [of "CHR ''$''" es kb] split_byte_no_sep [of "CHR ''$''" kb] by simp
  have last: "cut_last_byte CHR '':'' (label @ '':'' @ enc) = Some (label, enc)"
    "cut_last_byte CHR '':'' (host @ '':'' @ port) = Some (host, port)"
    "cut_last_byte CHR '':'' es = None" "cut_last_byte CHR '':'' kb = None"
    using assms(2,4) by (simp_all add: cut_last_byte_Some cut_last_byte_None)
  have first: "cut_byte CHR '':'' (user @ '':'' @ pw) = Some (user, pw)" using assms(4) by (simp add: cut_byte_Some)
  show ?thesis
    using assms(1) words last first
    by (simp add: NewCloudID_def decode_def decodeCloudID_def decodeCloudAuth_def extractPortFromName_def hostURL_def)
qed

theorem NewCloudID_roundtrip_witness:
  "\<exists>c. NewCloudID (\<lambda>_. Some ''h:9$e$k'') id ''l:x'' ''u:p:q'' = Ok c \<and> esURL c = ''https://e.h:9'' \<and> pass c = ''p:q''"
  using NewCloudID_roundtrip [of "\<lambda>_. Some ''h:9$e$k''" "''x''" "''h''" "''9''" "''e''" "''k''" "''u''" id "''l''" "''p:q''"]
  by auto

text \<open>
  Settings are overwritten only when the cloud id is well formed and no other output is enabled: on
  every other error the configuration is unchanged.
\<close>

lemma OverwriteSettings_error:
  assumes "OverwriteSettings U b64 escape cfg = (cfg', Err e)" and "e \<noteq> ErrSet"
  shows "cfg' = cfg"
proof -
  have "snd (storeAll fs c) = Err e' \<Longrightarrow> e' = ErrSet" for fs :: "('a \<Rightarrow> 'a option) list" and c e'
    by (induction fs arbitrary: c) (auto split: option.splits)
  then have "storeAll fs c = (c', Err e') \<Longrightarrow> e' = ErrSet" for fs :: "('a \<Rightarrow> 'a option) list" and c c' e'
    by (metis snd_conv)
  then show ?thesis
    using assms by (auto simp: OverwriteSettings_def Let_def split: if_splits outcome.splits)
qed


section \<open>Cloud settings of the monitoring reporter\<close>

text \<open>
  src/monitoring/cloudid.go, with the operations on the configuration it uses: the id and the credentials of its section
  \<open>cloud\<close>, removing that section, and storing.
\<close>

record 'c moncfg =
  unpackCloud :: "'c \<Rightarrow> (string \<times> string) option"
  removeCloud :: "'c \<Rightarrow> 'c option"
  msetHosts :: "'c \<Rightarrow> string \<Rightarrow> string list \<Rightarrow> 'c option"
  msetString :: "'c \<Rightarrow> string \<Rightarrow> string \<Rightarrow> 'c option"

datatype mon_error = CannotUnpack | CloudCfgIncomplete | CannotRemove | CloudErr cloud_error

definition overwriteWithCloudID :: "'c moncfg \<Rightarrow> CloudID \<Rightarrow> ('c \<Rightarrow> 'c option) list" where
  "overwriteWithCloudID U cid = [\<lambda>c. msetHosts U c ''elasticsearch.hosts'' [esURL cid]]"

definition overwriteWithCloudAuth :: "'c moncfg \<Rightarrow> CloudID \<Rightarrow> ('c \<Rightarrow> 'c option) list" where
  "overwriteWithCloudAuth U cid =
     [\<lambda>c. msetString U c ''elasticsearch.username'' (username cid),
      \<lambda>c. msetString U c ''elasticsearch.password'' (pass cid)]"

definition OverrideWithCloudSettings ::
  "'c moncfg \<Rightarrow> (string \<Rightarrow> string option) \<Rightarrow> (string \<Rightarrow> string) \<Rightarrow> 'c \<Rightarrow> 'c \<times> (mon_error, unit) outcome" where
  "OverrideWithCloudSettings U b64 escape cfg =
     (case unpackCloud U cfg of
        None \<Rightarrow> (cfg, Err CannotUnpack)
      | Some (cloudID, cloudAuth) \<Rightarrow>
          if cloudID = [] \<and> cloudAuth = [] then (cfg, Ok ())
          else if cloudID = [] \<and> cloudAuth \<noteq> [] then (cfg, Err CloudCfgIncomplete)
          else
            (case removeCloud U cfg of
               None \<Rightarrow> (cfg, Err CannotRemove)
             | Some cfg1 \<Rightarrow>
                 (case NewCloudID b64 escape cloudID cloudAuth of
                    Err e \<Rightarrow> (cfg1, Err (CloudErr e))
                  | Panic \<Rightarrow> (cfg1, Panic)
                  | Ok cid \<Rightarrow>
                      (case storeAll (overwriteWithCloudID U cid @
                               (if cloudAuth \<noteq> [] then overwriteWithCloudAuth U cid else [])) cfg1 of
                         (cfg2, Ok u) \<Rightarrow> (cfg2, Ok u)
                       | (cfg2, Err e) \<Rightarrow> (cfg2, Err (CloudErr e))
                       | (cfg2, Panic) \<Rightarrow> (cfg2, Panic)))))"

text \<open>
  The section is removed before the id is decoded, so a second call after an id that cannot be decoded finds no cloud
  settings and reports success, with the reporter still on its old hosts.
\<close>

lemma OverrideWithCloudSettings_retry:
  assumes "unpackCloud U cfg = Some (i, a)" and "i \<noteq> []" and "removeCloud U cfg = Some cfg1"
    and "unpackCloud U cfg1 = Some ([], [])" and "NewCloudID b64 escape i a = Err e"
  shows "OverrideWithCloudSettings U b64 escape cfg = (cfg1, Err (CloudErr e)) \<and>
    OverrideWithCloudSettings U b64 escape cfg1 = (cfg1, Ok ())"
  using assms by (simp add: OverrideWithCloudSettings_def)

text \<open>Where the stores succeed the reporter gets the host of the id, and the credentials if there are any.\<close>

lemma OverrideWithCloudSettings_stores:
  assumes "unpackCloud U cfg = Some (i, a)" and "i \<noteq> []" and "removeCloud U cfg = Some cfg1"
    and "NewCloudID b64 escape i a = Ok cid" and "msetHosts U cfg1 ''elasticsearch.hosts'' [esURL cid] = Some cfg2"
    and "msetString U cfg2 ''elasticsearch.username'' (username cid) = Some cfg3"
    and "msetString U cfg3 ''elasticsearch.password'' (pass cid) = Some cfg4"
  shows "OverrideWithCloudSettings U b64 escape cfg = (if a = [] then cfg2 else cfg4, Ok ())"
  using assms by (simp add: OverrideWithCloudSettings_def overwriteWithCloudID_def overwriteWithCloudAuth_def)

end
