(* ===== verification/Paths.thy ===== *)
theory Paths
  imports Go_Prelude
begin

text \<open>
  The package \<open>paths\<close> (src/paths/paths.go): the home, configuration, data and log directories, the
  defaults they take and the resolution of a file name against one of them. What it uses of
  \<open>path/filepath\<close> (\<open>Clean\<close>, \<open>Join\<close>, \<open>IsAbs\<close> on Unix) is modelled on strings; the creation of a
  directory is an argument.
\<close>

section \<open>Lexical paths\<close>

definition sep :: char where "sep = CHR ''/''"

definition IsAbs :: "string \<Rightarrow> bool" where
  "IsAbs p \<longleftrightarrow> p \<noteq> [] \<and> hd p = sep"

text \<open>
  \<open>Clean\<close> keeps a stack of components: an empty component and \<open>.\<close> are dropped, \<open>..\<close> removes the
  component before it; where there is none it is kept in a relative path and dropped in an absolute one.
\<close>

fun cleanStep :: "bool \<Rightarrow> string \<Rightarrow> string list \<Rightarrow> string list" where
  "cleanStep rooted c st =
     (if c = [] \<or> c = ''.'' then st
      else if c = ''..'' then
        (case st of
           [] \<Rightarrow> if rooted then [] else [''..'']
         | t # ts \<Rightarrow> if t = ''..'' then ''..'' # st else ts)
      else c # st)"

declare cleanStep.simps [simp del]

definition cleanStack :: "bool \<Rightarrow> string list \<Rightarrow> string list \<Rightarrow> string list" where
  "cleanStack rooted cs st = fold (cleanStep rooted) cs st"

definition render :: "bool \<Rightarrow> string list \<Rightarrow> string" where
  "render rooted st =
     (if rooted then sep # join_str [sep] (rev st)
      else if st = [] then ''.'' else join_str [sep] (rev st))"

definition Clean :: "string \<Rightarrow> string" where
  "Clean p = render (IsAbs p) (cleanStack (IsAbs p) (split_byte sep p) [])"

definition Join :: "string list \<Rightarrow> string" where
  "Join elem =
     (case dropWhile (\<lambda>e. e = []) elem of
        [] \<Rightarrow> []
      | es \<Rightarrow> Clean (join_str [sep] es))"

section \<open>The package\<close>

record Path =
  Home :: string
  Config :: string
  Data :: string
  Logs :: string

text \<open>A \<open>FileType\<close> is a string; the four constants.\<close>

definition FHome :: string where "FHome = ''home''"
definition FConfig :: string where "FConfig = ''config''"
definition FData :: string where "FData = ''data''"
definition FLogs :: string where "FLogs = ''logs''"

definition New :: Path where
  "New = \<lparr>Home = [], Config = [], Data = [], Logs = []\<rparr>"

definition initPaths :: "Path \<Rightarrow> Path \<Rightarrow> Path" where
  "initPaths paths cfg =
     (let p0 = cfg;
          p1 = (if Config p0 = [] then p0\<lparr>Config := Home p0\<rparr> else p0);
          p2 = (if Data p1 = [] then p1\<lparr>Data := Join [Home p1, ''data'']\<rparr> else p1)
      in (if Logs p2 = [] then p2\<lparr>Logs := Join [Home p2, ''logs'']\<rparr> else p2))"

text \<open>\<open>mkdirAll d\<close> is the error of creating \<open>d\<close>; the paths are set even when it fails.\<close>

definition InitPaths :: "(string \<Rightarrow> 'e option) \<Rightarrow> Path \<Rightarrow> Path \<Rightarrow> Path \<times> ('e, unit) outcome" where
  "InitPaths mkdirAll paths cfg =
     (let p = initPaths paths cfg in
      (p, case mkdirAll (Data p) of None \<Rightarrow> Ok () | Some e \<Rightarrow> Err e))"

definition Resolve :: "Path \<Rightarrow> string \<Rightarrow> string \<Rightarrow> (unit, string) outcome" where
  "Resolve paths fileType path =
     (if IsAbs path then Ok path
      else if fileType = FHome then Ok (Join [Home paths, path])
      else if fileType = FConfig then Ok (Join [Config paths, path])
      else if fileType = FData then Ok (Join [Data paths, path])
      else if fileType = FLogs then Ok (Join [Logs paths, path])
      else Panic)"

definition PathString :: "Path \<Rightarrow> string" where
  "PathString paths =
     ''Home path: ['' @ Home paths @ ''] Config path: ['' @ Config paths @
     ''] Data path: ['' @ Data paths @ ''] Logs path: ['' @ Logs paths @ '']''"

section \<open>Cleaned paths\<close>

text \<open>The components of a path, from the root on.\<close>

definition comps :: "string \<Rightarrow> string list" where
  "comps p = rev (cleanStack (IsAbs p) (split_byte sep p) [])"

text \<open>What a stack of \<open>Clean\<close> may hold: plain names over the unresolved \<open>..\<close> of a relative path.\<close>

definition plain :: "string \<Rightarrow> bool" where
  "plain c \<longleftrightarrow> c \<noteq> [] \<and> c \<noteq> ''.'' \<and> c \<noteq> ''..'' \<and> sep \<notin> set c"

fun okStack :: "bool \<Rightarrow> string list \<Rightarrow> bool" where
  "okStack rooted [] = True"
| "okStack rooted (c # st) =
     ((plain c \<and> okStack rooted st) \<or> (c = ''..'' \<and> \<not> rooted \<and> set st \<subseteq> {''..''}))"

lemma split_byte_append:
  "split_byte c (a @ c # b) = split_byte c a @ split_byte c b"
proof (induction a)
  case (Cons x a)
  then show ?case by (cases "split_byte c a") auto
qed simp

lemma okStack_dots: "\<not> rooted \<Longrightarrow> set st \<subseteq> {''..''} \<Longrightarrow> okStack rooted st"
  by (induction st) auto

lemma cleanStep_ok: "sep \<notin> set c \<Longrightarrow> okStack rooted st \<Longrightarrow> okStack rooted (cleanStep rooted c st)"
  by (cases st) (auto simp: cleanStep.simps plain_def intro: okStack_dots)

lemma cleanStack_ok:
  "(\<And>c. c \<in> set cs \<Longrightarrow> sep \<notin> set c) \<Longrightarrow> okStack rooted st \<Longrightarrow> okStack rooted (cleanStack rooted cs st)"
  unfolding cleanStack_def by (induction cs arbitrary: st) (simp_all add: cleanStep_ok)

lemma cleanStack_append: "cleanStack rooted (cs @ ds) st = cleanStack rooted ds (cleanStack rooted cs st)"
  by (simp add: cleanStack_def)

lemma cleanStack_Nil: "cleanStack rooted ([] # cs) st = cleanStack rooted cs st"
  by (simp add: cleanStack_def cleanStep.simps)

text \<open>A well-formed stack is a fixed point.\<close>

lemma cleanStack_dots:
  "\<not> rooted \<Longrightarrow> set st \<subseteq> {''..''} \<Longrightarrow> cleanStack rooted (rev st) [] = st"
proof (induction st)
  case (Cons c st)
  then have "st = [] \<or> hd st = ''..''" by (cases st) auto
  then show ?case using Cons by (auto simp: cleanStack_def cleanStep.simps neq_Nil_conv split: list.splits)
qed (simp add: cleanStack_def)

lemma cleanStack_fixed: "okStack rooted st \<Longrightarrow> cleanStack rooted (rev st) [] = st"
proof (induction st)
  case (Cons c st)
  show ?case
  proof (cases "plain c")
    case True
    then have "okStack rooted st" using Cons(2) by (auto simp: plain_def)
    then show ?thesis using Cons(1) True by (simp add: cleanStack_def cleanStep.simps plain_def)
  next
    case False
    then show ?thesis using Cons(2) by (intro cleanStack_dots) auto
  qed
qed (simp add: cleanStack_def)

lemma okStack_mem: "okStack rooted st \<Longrightarrow> c \<in> set st \<Longrightarrow> c \<noteq> [] \<and> sep \<notin> set c"
  by (induction st) (auto simp: plain_def sep_def)

lemma join_str_hd: "ps \<noteq> [] \<Longrightarrow> hd ps \<noteq> [] \<Longrightarrow> join_str s ps \<noteq> [] \<and> hd (join_str s ps) = hd (hd ps)"
  by (cases ps; cases "tl ps") auto

lemma IsAbs_render: "okStack rooted st \<Longrightarrow> IsAbs (render rooted st) = rooted"
proof (cases "rooted \<or> st = []")
  case False
  assume ok: "okStack rooted st"
  have "hd (rev st) \<in> set st" using False by (metis hd_in_set rev_is_Nil_conv set_rev)
  then have "hd (rev st) \<noteq> []" "sep \<notin> set (hd (rev st))" using okStack_mem [OF ok] by auto
  then show ?thesis using False join_str_hd [of "rev st" "[sep]"]
    by (auto simp: IsAbs_def render_def)
      (metis hd_in_set)
qed (auto simp: IsAbs_def render_def sep_def)

lemma comps_render: "okStack rooted st \<Longrightarrow> comps (render rooted st) = rev st"
proof -
  assume ok: "okStack rooted st"
  have sp: "st \<noteq> [] \<Longrightarrow> split_byte sep (join_str [sep] (rev st)) = rev st"
    using okStack_mem [OF ok] by (intro split_join) auto
  have "cleanStack rooted (split_byte sep (render rooted st)) [] = st"
  proof (cases "st = []")
    case True
    then show ?thesis by (auto simp: render_def cleanStack_def cleanStep.simps sep_def)
  next
    case False
    then show ?thesis using sp cleanStack_fixed [OF ok] by (auto simp: render_def cleanStack_Nil)
  qed
  then show ?thesis using IsAbs_render [OF ok] by (simp add: comps_def)
qed

lemma okStack_split: "okStack rooted (cleanStack rooted (split_byte sep p) [])"
  by (rule cleanStack_ok) (auto dest: split_byte_parts)

lemma Clean_comps: "IsAbs (Clean p) = IsAbs p" "comps (Clean p) = comps p"
  using IsAbs_render [OF okStack_split] comps_render [OF okStack_split] by (simp_all add: Clean_def comps_def)

lemma Clean_render: "Clean p = render (IsAbs p) (rev (comps p))"
  by (simp add: Clean_def comps_def)

lemma Clean_Clean: "Clean (Clean p) = Clean p"
  by (simp add: Clean_render [of "Clean p"] Clean_comps) (simp add: Clean_render)

section \<open>Resolution\<close>

text \<open>A step that is not \<open>..\<close> only adds to the stack.\<close>

lemma cleanStack_no_dotdot:
  "''..'' \<notin> set cs \<Longrightarrow> cleanStack rooted cs st = rev [c \<leftarrow> cs. c \<noteq> [] \<and> c \<noteq> ''.''] @ st"
  unfolding cleanStack_def by (induction cs arbitrary: st) (auto simp: cleanStep.simps)

lemma IsAbs_append: "base \<noteq> [] \<Longrightarrow> IsAbs (base @ xs) = IsAbs base"
  by (simp add: IsAbs_def)

lemma Join_two: "base \<noteq> [] \<Longrightarrow> Join [base, p] = Clean (base @ sep # p)"
  by (simp add: Join_def)

lemma comps_Join:
  "base \<noteq> [] \<Longrightarrow> comps (Join [base, p]) = rev (cleanStack (IsAbs base) (split_byte sep p) (rev (comps base)))"
  by (simp add: Join_two Clean_comps)
    (simp add: comps_def split_byte_append cleanStack_append IsAbs_append)

lemma IsAbs_Join: "base \<noteq> [] \<Longrightarrow> IsAbs (Join [base, p]) = IsAbs base"
  by (simp add: Join_two Clean_comps IsAbs_append)


text \<open>The directory of a file type, and the part of it under the home directory by default.\<close>

definition dirOf :: "Path \<Rightarrow> string \<Rightarrow> string option" where
  "dirOf paths = map_of [(FHome, Home paths), (FConfig, Config paths), (FData, Data paths), (FLogs, Logs paths)]"

definition defaultDir :: "string \<Rightarrow> string list" where
  "defaultDir t = (if t = FData then [''data''] else if t = FLogs then [''logs''] else [])"

lemmas fileType_defs = FHome_def FConfig_def FData_def FLogs_def

lemma dirOf_cases:
  assumes "dirOf paths t = Some d"
  obtains "t = FHome" "d = Home paths" | "t = FConfig" "d = Config paths"
    | "t = FData" "d = Data paths" | "t = FLogs" "d = Logs paths"
  using assms by (auto simp: dirOf_def split: if_splits)

lemma Resolve_dirOf:
  "\<not> IsAbs p \<Longrightarrow> Resolve paths t p = (case dirOf paths t of Some d \<Rightarrow> Ok (Join [d, p]) | None \<Rightarrow> Panic)"
  by (auto simp: Resolve_def dirOf_def fileType_defs)

lemma comps_Join_plain:
  "base \<noteq> [] \<Longrightarrow> ''..'' \<notin> set (split_byte sep p) \<Longrightarrow>
     comps (Join [base, p]) = comps base @ [c \<leftarrow> split_byte sep p. c \<noteq> [] \<and> c \<noteq> ''.'']"
  by (simp add: comps_Join cleanStack_no_dotdot)

lemma render_not_Nil: "render rooted st \<noteq> [] \<or> \<not> okStack rooted st"
proof (cases "rooted \<or> st = []")
  case False
  then have "hd (rev st) \<in> set st" by (metis hd_in_set rev_is_Nil_conv set_rev)
  then show ?thesis using False join_str_hd [of "rev st" "[sep]"] okStack_mem [of rooted st]
    by (auto simp: render_def)
qed (auto simp: render_def)

lemma Clean_not_Nil [simp]: "Clean p \<noteq> []" "[] \<noteq> Clean p"
  using render_not_Nil okStack_split by (metis Clean_def)+

lemma initPaths_default:
  assumes h: "Home cfg \<noteq> []" and u: "dirOf cfg t = Some [] \<or> t = FHome" and d: "dirOf (initPaths paths cfg) t = Some d"
  shows "d \<noteq> []" "IsAbs d = IsAbs (Home cfg)" "comps d = comps (Home cfg) @ defaultDir t"
proof -
  have c: "comps (Join [Home cfg, ''data'']) = comps (Home cfg) @ [''data'']"
    "comps (Join [Home cfg, ''logs'']) = comps (Home cfg) @ [''logs'']"
    using comps_Join_plain [OF h, of "''data''"] comps_Join_plain [OF h, of "''logs''"] by (simp_all add: sep_def)
  have n: "Join [Home cfg, s] \<noteq> []" for s by (simp add: Join_two h)
  note facts = c n IsAbs_Join [OF h] h
  have e: "Home (initPaths paths cfg) = Home cfg"
    "Config cfg = [] \<Longrightarrow> Config (initPaths paths cfg) = Home cfg"
    "Data cfg = [] \<Longrightarrow> Data (initPaths paths cfg) = Join [Home cfg, ''data'']"
    "Logs cfg = [] \<Longrightarrow> Logs (initPaths paths cfg) = Join [Home cfg, ''logs'']"
    by (simp_all add: initPaths_def Let_def)
  from d have r: "d \<noteq> [] \<and> IsAbs d = IsAbs (Home cfg) \<and> comps d = comps (Home cfg) @ defaultDir t"
  proof (cases rule: dirOf_cases)
    case 1 then show ?thesis using facts e by (simp add: defaultDir_def fileType_defs)
  next
    case 2 then show ?thesis using facts e u by (simp add: defaultDir_def fileType_defs dirOf_def)
  next
    case 3 then show ?thesis using facts e u by (simp add: defaultDir_def fileType_defs dirOf_def)
  next
    case 4 then show ?thesis using facts e u by (simp add: defaultDir_def fileType_defs dirOf_def)
  qed
  then show "d \<noteq> []" "IsAbs d = IsAbs (Home cfg)" "comps d = comps (Home cfg) @ defaultDir t" by simp_all
qed

lemma initPaths_dir_not_Nil: "Home cfg \<noteq> [] \<Longrightarrow> dirOf (initPaths paths cfg) t = Some d \<Longrightarrow> d \<noteq> []"
  by (auto elim!: dirOf_cases simp: initPaths_def Let_def Join_two split: if_splits)

text \<open>
  C34. After the paths have been set up with a home directory, an absolute name resolves, for each of the four file
  types, to itself, and a relative one to a cleaned path that is absolute when the directory of its type is; if no
  component of the name is \<open>..\<close> the path lies in that directory, with exactly the named components
  below it, and a directory left unset lies in the home directory under its default name. The paths
  hold the same values when the data directory cannot be created.\<close>

theorem Resolve_within:
  assumes "Home cfg \<noteq> []" and "InitPaths mkdirAll old cfg = (paths, res)"
    and "t \<in> {FHome, FConfig, FData, FLogs}"
  shows "if IsAbs p then Resolve paths t p = Ok p
    else \<exists>d r. dirOf paths t = Some d \<and> Resolve paths t p = Ok r \<and> Clean r = r \<and> IsAbs r = IsAbs d \<and>
    (''..'' \<notin> set (split_byte sep p) \<longrightarrow> comps r = comps d @ [c \<leftarrow> split_byte sep p. c \<noteq> [] \<and> c \<noteq> ''.'']) \<and>
    (dirOf cfg t = Some [] \<longrightarrow> IsAbs d = IsAbs (Home cfg) \<and> comps d = comps (Home cfg) @ defaultDir t)"
proof (cases "IsAbs p")
  case True
  then show ?thesis by (simp add: Resolve_def)
next
  case False
  have p: "paths = initPaths old cfg" using assms(2) by (simp add: InitPaths_def Let_def)
  obtain d where d: "dirOf paths t = Some d" using assms(3) by (auto simp: dirOf_def fileType_defs)
  have n: "d \<noteq> []" using initPaths_dir_not_Nil [OF assms(1) d [unfolded p]] .
  have "dirOf cfg t = Some [] \<longrightarrow> IsAbs d = IsAbs (Home cfg) \<and> comps d = comps (Home cfg) @ defaultDir t"
    using initPaths_default(2,3) [OF assms(1) _ d [unfolded p]] by simp
  moreover have "Resolve paths t p = Ok (Join [d, p])" using d False by (simp add: Resolve_dirOf)
  moreover have "Clean (Join [d, p]) = Join [d, p]" by (simp only: Join_two [OF n] Clean_Clean)
  ultimately show ?thesis using False d IsAbs_Join [OF n, of p] comps_Join_plain [OF n, of p] by auto
qed

theorem Resolve_within_witness:
  "\<exists>d r. dirOf (initPaths New (New\<lparr>Home := ''/opt''\<rparr>)) FLogs = Some d \<and>
     Resolve (initPaths New (New\<lparr>Home := ''/opt''\<rparr>)) FLogs ''a/./b'' = Ok r \<and> Clean r = r \<and> IsAbs r = IsAbs d \<and>
     comps r = comps d @ [''a'', ''b''] \<and> comps d = comps ''/opt'' @ [''logs'']"
proof -
  have "InitPaths (\<lambda>_. None :: unit option) New (New\<lparr>Home := ''/opt''\<rparr>) = (initPaths New (New\<lparr>Home := ''/opt''\<rparr>), Ok ())"
    by (simp add: InitPaths_def)
  from Resolve_within [OF _ this, of FLogs "''a/./b''"] show ?thesis
    by (simp add: New_def IsAbs_def sep_def dirOf_def fileType_defs defaultDir_def) blast
qed

end
