(* ===== verification/Logp_Config.thy ===== *)
theory Logp_Config
  imports Rotator
begin

text \<open>
  The settings of the package \<open>logp\<close>: levels (src/logp/level.go), environments
  (src/logp/environment.go), the configuration and its defaults (src/logp/config.go), the options that
  change it (src/logp/options.go), and the command line flags and sections of a configuration file it
  is built from (src/logp/configure/logging.go). The lower-case form of a string outside ASCII and the
  unpacking of a section by go-ucfg are arguments.
\<close>

section \<open>Levels\<close>

text \<open>A \<open>Level\<close> is an \<open>int8\<close>; so is a level of zap.\<close>

type_synonym Level = int

definition DebugLevel :: Level where "DebugLevel = -1"
definition InfoLevel :: Level where "InfoLevel = 0"
definition WarnLevel :: Level where "WarnLevel = 1"
definition ErrorLevel :: Level where "ErrorLevel = 2"
definition CriticalLevel :: Level where "CriticalLevel = 3"

lemmas level_defs = DebugLevel_def InfoLevel_def WarnLevel_def ErrorLevel_def CriticalLevel_def

definition levelStrings :: "(Level, string) gomap" where
  "levelStrings =
     [(DebugLevel, ''debug''), (InfoLevel, ''info''), (WarnLevel, ''warning''), (ErrorLevel, ''error''),
      (CriticalLevel, ''critical'')]"

text \<open>The levels of zap: \<open>Debug\<close> is -1, \<open>Info\<close> 0, \<open>Warn\<close> 1, \<open>Error\<close> 2.\<close>

definition zapLevels :: "(Level, int) gomap" where
  "zapLevels = [(DebugLevel, -1), (InfoLevel, 0), (WarnLevel, 1), (ErrorLevel, 2), (CriticalLevel, 2)]"

definition LevelString :: "Level \<Rightarrow> string" where
  "LevelString l = (case map_of levelStrings l of Some s \<Rightarrow> s | None \<Rightarrow> ''Level('' @ itoaInt l @ '')'')"

definition LevelEnabled :: "Level \<Rightarrow> Level \<Rightarrow> bool" where
  "LevelEnabled l level \<longleftrightarrow> level \<ge> l"

text \<open>The loop over the table stops at the first entry with the name; the level is set only then.\<close>

fun findLevel :: "string \<Rightarrow> (Level, string) gomap \<Rightarrow> Level option" where
  "findLevel str [] = None"
| "findLevel str ((level, name) # m) = (if name = str then Some level else findLevel str m)"

definition LevelUnpack :: "(string \<Rightarrow> string) \<Rightarrow> string \<Rightarrow> Level \<Rightarrow> Level \<times> (string, unit) outcome" where
  "LevelUnpack toLower str l =
     (let str = toLower str in
      case findLevel str levelStrings of
        Some level \<Rightarrow> (level, Ok ())
      | None \<Rightarrow> (l, Err (''invalid level '' @ [CHR 0x27] @ str @ [CHR 0x27])))"

definition MarshalYAML :: "Level \<Rightarrow> (string, string) outcome" where
  "MarshalYAML l =
     (case map_of levelStrings l of Some s \<Rightarrow> Ok s | None \<Rightarrow> Err (''invalid level '' @ [CHR 0x27] @ itoaInt l @ [CHR 0x27]))"

text \<open>The bytes that are put into the JSON text as they are.\<close>

definition MarshalJSON :: "Level \<Rightarrow> (string, string) outcome" where
  "MarshalJSON l =
     (case map_of levelStrings l of Some s \<Rightarrow> Ok s | None \<Rightarrow> Err (''invalid level '' @ [CHR 0x27] @ itoaInt l @ [CHR 0x27]))"

definition ZapLevel :: "Level \<Rightarrow> int" where
  "ZapLevel l = (case map_of zapLevels l of Some z \<Rightarrow> z | None \<Rightarrow> 0)"

section \<open>Environments\<close>

datatype Environment =
    DefaultEnvironment | SystemdEnvironment | ContainerEnvironment | MacOSServiceEnvironment
  | WindowsServiceEnvironment | InvalidEnvironment

fun EnvironmentString :: "Environment \<Rightarrow> string" where
  "EnvironmentString DefaultEnvironment = ''default''"
| "EnvironmentString SystemdEnvironment = ''systemd''"
| "EnvironmentString ContainerEnvironment = ''container''"
| "EnvironmentString MacOSServiceEnvironment = ''macos_service''"
| "EnvironmentString WindowsServiceEnvironment = ''windows_service''"
| "EnvironmentString InvalidEnvironment = ''<invalid>''"

definition ParseEnvironment :: "(string \<Rightarrow> string) \<Rightarrow> string \<Rightarrow> Environment" where
  "ParseEnvironment toLower in1 =
     (let s = toLower in1 in
      if s = ''default'' then DefaultEnvironment
      else if s = ''systemd'' then SystemdEnvironment
      else if s = ''container'' then ContainerEnvironment
      else if s = ''macos_service'' then MacOSServiceEnvironment
      else if s = ''windows_service'' then WindowsServiceEnvironment
      else InvalidEnvironment)"

section \<open>The configuration\<close>

record FileConfig =
  FPath :: string
  FName :: string
  FMaxSize :: nat
  FMaxBackups :: nat
  FPermissions :: nat
  FInterval :: int
  FRotateOnStartup :: bool
  FRedirectStderr :: bool

record MetricsConfig =
  MEnabled :: bool
  MPeriod :: int

text \<open>The value of a field added by \<open>with_fields\<close> is given as text.\<close>

record LogConfig =
  Beat :: string
  CLevel :: Level
  Selectors :: "string list"
  toObserver :: bool
  toIODiscard :: bool
  ToStderr :: bool
  ToSyslog :: bool
  ToFiles :: bool
  ToEventLog :: bool
  Files :: FileConfig
  Metrics :: MetricsConfig
  WithFields :: "(string, string) gomap option"
  environment :: Environment
  AddCaller :: bool
  development :: bool

definition defaultLevel :: Level where "defaultLevel = InfoLevel"

definition zeroFiles :: FileConfig where
  "zeroFiles = \<lparr>FPath = [], FName = [], FMaxSize = 0, FMaxBackups = 0, FPermissions = 0, FInterval = 0,
     FRotateOnStartup = False, FRedirectStderr = False\<rparr>"

definition zeroConfig :: LogConfig where
  "zeroConfig = \<lparr>Beat = [], CLevel = 0, Selectors = [], toObserver = False, toIODiscard = False, ToStderr = False,
     ToSyslog = False, ToFiles = False, ToEventLog = False, Files = zeroFiles,
     Metrics = \<lparr>MEnabled = False, MPeriod = 0\<rparr>, WithFields = None, environment = DefaultEnvironment,
     AddCaller = False, development = False\<rparr>"

definition DefaultConfig :: "Environment \<Rightarrow> LogConfig" where
  "DefaultConfig env =
     (let stderr = env \<in> {ContainerEnvironment, SystemdEnvironment} in
      zeroConfig\<lparr>CLevel := defaultLevel, ToFiles := \<not> stderr, ToStderr := stderr,
        Files := zeroFiles\<lparr>FMaxSize := 10 * 1024 * 1024, FMaxBackups := 7, FPermissions := 384, FInterval := 0,
          FRotateOnStartup := True\<rparr>,
        Metrics := \<lparr>MEnabled = True, MPeriod = 30 * Second\<rparr>, environment := env, AddCaller := True\<rparr>)"

definition DefaultEventConfig :: "Environment \<Rightarrow> LogConfig" where
  "DefaultEventConfig env =
     zeroConfig\<lparr>CLevel := defaultLevel, ToFiles := True, ToStderr := False,
       Files := zeroFiles\<lparr>FMaxSize := 5 * 1024 * 1024, FMaxBackups := 2, FPermissions := 384, FInterval := 0,
         FRotateOnStartup := False, FRedirectStderr := False, FName := ''event-data''\<rparr>,
       Metrics := \<lparr>MEnabled = False, MPeriod = 0\<rparr>, environment := env, AddCaller := True\<rparr>"

definition LogFilename :: "LogConfig \<Rightarrow> string" where
  "LogFilename cfg = (if FName (Files cfg) \<noteq> [] then FName (Files cfg) else Beat cfg)"

section \<open>Options\<close>

type_synonym Option = "LogConfig \<Rightarrow> LogConfig"

definition WithLevel :: "Level \<Rightarrow> Option" where
  "WithLevel level cfg = cfg\<lparr>CLevel := level\<rparr>"

definition WithSelectors :: "string list \<Rightarrow> Option" where
  "WithSelectors selectors cfg = cfg\<lparr>Selectors := Selectors cfg @ selectors\<rparr>"

definition ToObserverOutput :: Option where
  "ToObserverOutput cfg = cfg\<lparr>toObserver := True, ToStderr := False\<rparr>"

definition ToDiscardOutput :: Option where
  "ToDiscardOutput cfg = cfg\<lparr>toIODiscard := True, ToStderr := False\<rparr>"

section \<open>Command line flags\<close>

record flags =
  verbose :: bool
  toStderrF :: bool
  debugSelectors :: "string list"
  environmentF :: Environment

definition environmentSet :: "(string \<Rightarrow> string) \<Rightarrow> string \<Rightarrow> flags \<Rightarrow> flags \<times> (string, unit) outcome" where
  "environmentSet toLower in1 fl =
     (let env = ParseEnvironment toLower in1 in
      if env = InvalidEnvironment then (fl, Err ([CHR 0x27] @ in1 @ [CHR 0x27] @ '' is not supported''))
      else (fl\<lparr>environmentF := env\<rparr>, Ok ()))"

definition applyFlags :: "flags \<Rightarrow> LogConfig \<Rightarrow> LogConfig" where
  "applyFlags fl cfg0 =
     (let cfg1 = (if toStderrF fl then cfg0\<lparr>ToStderr := True\<rparr> else cfg0);
          cfg2 = (if CLevel cfg1 > InfoLevel \<and> verbose fl then cfg1\<lparr>CLevel := InfoLevel\<rparr> else cfg1);
          cfg3 = cfg2\<lparr>Selectors := Selectors cfg2 @ concat (map (split_byte (CHR '','')) (debugSelectors fl))\<rparr>;
          cfg4 = (if debugSelectors fl \<noteq> [] then cfg3\<lparr>CLevel := DebugLevel\<rparr> else cfg3)
      in
      if ToFiles cfg4 \<and> ToStderr cfg4 then
        (let d = DefaultConfig (environmentF fl) in
         if ToFiles d \<noteq> ToFiles cfg4 then cfg4\<lparr>ToStderr := \<not> ToFiles cfg4\<rparr>
         else if ToStderr d \<noteq> ToStderr cfg4 then cfg4\<lparr>ToFiles := \<not> ToStderr cfg4\<rparr>
         else cfg4)
      else cfg4)"

text \<open>
  The configuration of the default logger and of the typed one, as \<open>Logging\<close>, \<open>LoggingWithOutputs\<close> and
  \<open>LoggingWithTypedOutputs\<close> build them; a section is given by the function that unpacks it.
\<close>

type_synonym 'e unpacker = "LogConfig \<Rightarrow> ('e, LogConfig) outcome"

definition loggingConfig :: "flags \<Rightarrow> string \<Rightarrow> 'e unpacker option \<Rightarrow> ('e, LogConfig) outcome" where
  "loggingConfig fl beatName cfg =
     (let config = (DefaultConfig (environmentF fl))\<lparr>Beat := beatName\<rparr> in
      bind_outcome (case cfg of None \<Rightarrow> Ok config | Some unpack \<Rightarrow> unpack config) (\<lambda>config. Ok (applyFlags fl config)))"

definition typedConfig :: "flags \<Rightarrow> string \<Rightarrow> LogConfig \<Rightarrow> 'e unpacker option \<Rightarrow> ('e, LogConfig) outcome" where
  "typedConfig fl beatName config typedCfg =
     (let typed = DefaultEventConfig (environmentF fl);
          defaultName = FName (Files typed);
          typed = typed\<lparr>Beat := beatName\<rparr> in
      bind_outcome (case typedCfg of None \<Rightarrow> Ok typed | Some unpack \<Rightarrow> unpack typed)
        (\<lambda>typed.
          (let typed = typed\<lparr>CLevel := CLevel config, Selectors := Selectors config\<rparr> in
           Ok (if FName (Files typed) = defaultName then typed\<lparr>Files := (Files typed)\<lparr>FName := beatName @ ''-events-data''\<rparr>\<rparr>
               else typed))))"

section \<open>Names of levels and environments\<close>

definition validLevel :: "Level \<Rightarrow> bool" where
  "validLevel l \<longleftrightarrow> l \<in> fst ` set levelStrings"

text \<open>What is used of \<open>strings.ToLower\<close>: on ASCII it lowers each byte.\<close>

definition ascii :: "string \<Rightarrow> bool" where
  "ascii s \<longleftrightarrow> list_all (\<lambda>c. of_char c < (128 :: nat)) s"

definition lower_ok :: "(string \<Rightarrow> string) \<Rightarrow> bool" where
  "lower_ok toLower \<longleftrightarrow> (\<forall>s. ascii s \<longrightarrow> toLower s = map lower_byte s)"

lemma findLevel_Some: "findLevel s m = Some l \<Longrightarrow> (l, s) \<in> set m"
  by (induction s m rule: findLevel.induct) (auto split: if_splits)

lemma findLevel_name: "distinct (map snd m) \<Longrightarrow> (l, s) \<in> set m \<Longrightarrow> findLevel s m = Some l"
  by (induction s m rule: findLevel.induct) force+

lemma levelStrings_distinct: "distinct (map snd levelStrings)" "distinct (map fst levelStrings)"
  by (simp_all add: levelStrings_def level_defs)

lemma LevelString_valid: "validLevel l \<Longrightarrow> (l, LevelString l) \<in> set levelStrings"
  by (auto simp: validLevel_def LevelString_def levelStrings_def level_defs)

lemma LevelString_lower: "validLevel l \<Longrightarrow> ascii (LevelString l) \<and> map lower_byte (LevelString l) = LevelString l"
  by (auto simp: validLevel_def LevelString_def levelStrings_def level_defs ascii_def lower_byte_def is_upper_ascii_def)

lemma LevelUnpack_valid: "findLevel s levelStrings = Some l \<Longrightarrow> validLevel l \<and> LevelString l = s"
  using findLevel_Some [of s levelStrings l] levelStrings_distinct(2) by (force simp: validLevel_def LevelString_def)

text \<open>
  C36. Reading a level from text: every spelling, in any mixture of cases, of the name of a level gives
  that level, in particular the name it prints as and marshals to, and on success the value read is
  one of the five levels; an unknown name leaves the value unchanged. \<open>MarshalYAML\<close> and \<open>MarshalJSON\<close> return the name of
  one of the five levels, both without quotes, and an error for any other value. The level passed to zap is one of
  the four of \<open>Debug\<close> to \<open>Error\<close>.\<close>

theorem Level_type:
  assumes "lower_ok toLower"
  shows "(\<forall>s old. validLevel l \<and> ascii s \<and> map lower_byte s = LevelString l \<longrightarrow> LevelUnpack toLower s old = (l, Ok ())) \<and>
    (if validLevel l then MarshalYAML l = Ok (LevelString l) \<and> MarshalJSON l = Ok (LevelString l)
     else \<exists>e e'. MarshalYAML l = Err e \<and> MarshalJSON l = Err e') \<and>
    (validLevel l \<longrightarrow> (\<forall>old. LevelUnpack toLower (LevelString l) old = (l, Ok ()))) \<and>
    (\<forall>s old r. LevelUnpack toLower s old = (l, r) \<longrightarrow>
       (if r = Ok () then validLevel l \<and> LevelString l = toLower s else l = old)) \<and>
    -1 \<le> ZapLevel l \<and> ZapLevel l \<le> 2 \<and> (validLevel l \<longrightarrow> ZapLevel l = min l 2)"
proof (intro conjI allI impI)
  have name: "LevelUnpack toLower s old = (l, Ok ())" if "validLevel l" "toLower s = LevelString l" for s old
    using findLevel_name [OF levelStrings_distinct(1) LevelString_valid [OF that(1)]] that(2)
    by (simp add: LevelUnpack_def)
  show "LevelUnpack toLower s old = (l, Ok ())"
    if "validLevel l \<and> ascii s \<and> map lower_byte s = LevelString l" for s old
    using name that assms by (simp add: lower_ok_def)
  show "LevelUnpack toLower (LevelString l) old = (l, Ok ())" if "validLevel l" for old
    using name [OF that] LevelString_lower [OF that] assms by (simp add: lower_ok_def)
  show "if validLevel l then MarshalYAML l = Ok (LevelString l) \<and> MarshalJSON l = Ok (LevelString l)
      else \<exists>e e'. MarshalYAML l = Err e \<and> MarshalJSON l = Err e'"
  proof -
    have "map_of levelStrings l = Some (LevelString l)" if "validLevel l"
      using LevelString_valid [OF that] levelStrings_distinct(2) by simp
    moreover have "map_of levelStrings l = None" if "\<not> validLevel l"
      using that by (simp add: validLevel_def map_of_eq_None_iff)
    ultimately show ?thesis by (simp add: MarshalYAML_def MarshalJSON_def)
  qed
  show "if r = Ok () then validLevel l \<and> LevelString l = toLower s else l = old"
    if "LevelUnpack toLower s old = (l, r)" for s old r
    using that LevelUnpack_valid by (auto simp: LevelUnpack_def Let_def split: option.splits)
qed (auto simp: ZapLevel_def zapLevels_def level_defs validLevel_def levelStrings_def)

theorem Level_type_witness:
  "LevelUnpack (map lower_byte) ''warning'' DebugLevel = (WarnLevel, Ok ()) \<and>
   MarshalYAML WarnLevel = Ok ''warning'' \<and> ZapLevel WarnLevel = 1"
proof -
  have l: "lower_ok (map lower_byte)" by (simp add: lower_ok_def)
  have s: "validLevel WarnLevel" "LevelString WarnLevel = ''warning''"
    by (simp_all add: validLevel_def LevelString_def levelStrings_def level_defs)
  then show ?thesis using Level_type [OF l, of WarnLevel] by (simp add: WarnLevel_def)
qed

lemma ParseEnvironment_String:
  "lower_ok toLower \<Longrightarrow> ParseEnvironment toLower (EnvironmentString e) = e"
  by (cases e) (simp_all add: ParseEnvironment_def lower_ok_def ascii_def lower_byte_def is_upper_ascii_def)

section \<open>The flags\<close>

lemma DefaultConfig_outputs:
  "ToStderr (DefaultConfig env) \<longleftrightarrow> env \<in> {ContainerEnvironment, SystemdEnvironment}"
  "ToFiles (DefaultConfig env) \<longleftrightarrow> env \<notin> {ContainerEnvironment, SystemdEnvironment}"
  by (simp_all add: DefaultConfig_def Let_def)

text \<open>
  Applying the command line flags never leaves both the file output and the standard error
  selected, keeps an output selected if one was, and lowers the level to \<open>Debug\<close> exactly when debug
  selectors are given, to \<open>Info\<close> when \<open>-v\<close> is given and the level was higher. The flag \<open>-e\<close>
  selects the standard error, except in a container or systemd environment in which the configuration
  selects files: there the files win and the flag has no effect, although its description says that it
  disables the file output.\<close>

theorem applyFlags_outputs:
  "(let c = applyFlags fl cfg in
    \<not> (ToFiles c \<and> ToStderr c) \<and> (ToFiles c \<or> ToStderr c \<longleftrightarrow> ToFiles cfg \<or> ToStderr cfg \<or> toStderrF fl) \<and>
    CLevel c = (if debugSelectors fl \<noteq> [] then DebugLevel else if verbose fl then min (CLevel cfg) InfoLevel else CLevel cfg) \<and>
    Selectors c = Selectors cfg @ concat (map (split_byte (CHR '','')) (debugSelectors fl)) \<and>
    (ToStderr c \<longleftrightarrow> (toStderrF fl \<or> ToStderr cfg) \<and>
       \<not> (ToFiles cfg \<and> environmentF fl \<in> {ContainerEnvironment, SystemdEnvironment})))"
  unfolding applyFlags_def Let_def
  by (auto simp: DefaultConfig_outputs min_def)

end
