(* ===== verification/Logp.thy ===== *)
theory Logp
  imports Logp_Config Paths Go_Utf8
begin

text \<open>
  The loggers of the package \<open>logp\<close>: the tree of cores an entry passes through (src/logp/core.go,
  selective.go, typedloggercore.go, syslog_unix.go), the outputs and encoders (core.go, encoding.go),
  the functions that configure the global logger, and the loggers handed out (logger.go, global.go),
  for a Unix build.

  The packages zap and ecszap are arguments: the record \<open>zap\<close> holds the operations used, over a type
  \<open>'x\<close> of their cores and a type \<open>'l\<close> of their loggers. A core of an argument acts on the state of the
  package, which holds the level cells, the file rotators, the file system and a rest \<open>'w\<close>.
\<close>

section \<open>Entries, fields, errors\<close>

record field =
  Key :: string
  FString :: string

record entry =
  ELevel :: int
  LoggerName :: string
  Message :: string

datatype gerr = Msg string | Wrap string "gerr option list" | JoinErr "gerr list" | RotErr rot_error

text \<open>\<open>errors.Join\<close>: nil errors are left out; no error at all gives nil.\<close>

definition errorsJoin :: "gerr option list \<Rightarrow> gerr option" where
  "errorsJoin errs = (let es = map the (filter (\<lambda>e. e \<noteq> None) errs) in if es = [] then None else Some (JoinErr es))"

section \<open>Encoders\<close>

datatype levelEncoder = LowercaseLevelEncoder | CapitalLevelEncoder
datatype nameEncoder = FullNameEncoder | bracketedNameEncoder

record EncoderConfig =
  TimeKey :: string
  LevelKey :: string
  NameKey :: string
  CallerKey :: string
  MessageKey :: string
  StacktraceKey :: string
  EncodeLevel :: levelEncoder
  EncodeName :: nameEncoder

datatype encoder = ConsoleEncoder EncoderConfig | JSONEncoder EncoderConfig

definition baseEncodingConfig :: EncoderConfig where
  "baseEncodingConfig = \<lparr>TimeKey = ''timestamp'', LevelKey = ''level'', NameKey = ''logger'', CallerKey = ''caller'',
     MessageKey = ''message'', StacktraceKey = ''stacktrace'', EncodeLevel = LowercaseLevelEncoder,
     EncodeName = FullNameEncoder\<rparr>"

definition JSONEncoderConfig :: EncoderConfig where
  "JSONEncoderConfig = baseEncodingConfig"

definition ConsoleEncoderConfig :: EncoderConfig where
  "ConsoleEncoderConfig = baseEncodingConfig\<lparr>EncodeLevel := CapitalLevelEncoder, EncodeName := bracketedNameEncoder\<rparr>"

definition SyslogEncoderConfig :: EncoderConfig where
  "SyslogEncoderConfig = ConsoleEncoderConfig\<lparr>TimeKey := []\<rparr>"

definition buildEncoder :: "(EncoderConfig \<Rightarrow> EncoderConfig) \<Rightarrow> LogConfig \<Rightarrow> encoder" where
  "buildEncoder ecsCompatible cfg =
     (if ToSyslog cfg then ConsoleEncoder (ecsCompatible SyslogEncoderConfig)
      else JSONEncoder (ecsCompatible JSONEncoderConfig))"

section \<open>Cores\<close>

type_synonym selectors = "(string, unit) gomap"

text \<open>
  A core is one of zap or ecszap or of the caller (\<open>Ext\<close>), a \<open>syslogCore\<close> (level cell, encoder, writer,
  fields), a \<open>selectiveCore\<close>, a \<open>typedLoggerCore\<close> (key, value, typed core, default core), a
  \<open>multiCore\<close>, or a \<open>closerCore\<close> of a core and what its \<open>Close\<close> closes: a core or a file rotator.
\<close>

datatype 'x core =
    Ext 'x
  | SyslogC nat encoder nat "field list"
  | Selective bool selectors "'x core"
  | Typed string string "'x core" "'x core"
  | Multi "'x core list"
  | Closer "'x core" "'x core + nat"

datatype sinkOut = Stderr | Discard | RotatorOut nat

text \<open>Severities of \<open>log/syslog\<close>.\<close>

datatype severity = SDebug | SInfo | SWarning | SErr | SCrit

datatype zopt = AddCallerOpt | DevelopmentOpt | FieldsOpt "field list" | AddCallerSkip nat

text \<open>
  The state: the values of the atomic levels, the rotators created, the log files and directories,
  whether the logger of the standard library prints, and the rest.
\<close>

record 'w lstate =
  cells :: "int list"
  rots :: "Rotator list"
  fsys :: dir
  paths :: Path
  golog :: bool
  world :: 'w

type_synonym ('w, 'a) action = "'w lstate \<Rightarrow> 'w lstate \<times> 'a"

record ('x, 'l, 'w) zap =
  xEnabled :: "'x \<Rightarrow> 'w lstate \<Rightarrow> int \<Rightarrow> bool"
  xWith :: "'x \<Rightarrow> field list \<Rightarrow> 'x"
  xAdds :: "'x \<Rightarrow> 'w lstate \<Rightarrow> entry \<Rightarrow> bool"
  xWrite :: "'x \<Rightarrow> entry \<Rightarrow> field list \<Rightarrow> ('w, gerr option) action"
  xSync :: "'x \<Rightarrow> ('w, gerr option) action"
  xIsCloser :: "'x \<Rightarrow> bool"
  xClose :: "'x \<Rightarrow> ('w, gerr option) action"
  wrapCore :: "'x core \<Rightarrow> 'x"
  newZapCore :: "encoder \<Rightarrow> sinkOut \<Rightarrow> nat \<Rightarrow> 'x"
  nopCore :: 'x
  newObserver :: "nat \<Rightarrow> ('w, 'x \<times> nat) action"
  ecsCompatible :: "EncoderConfig \<Rightarrow> EncoderConfig"
  encodeEntry :: "encoder \<Rightarrow> entry \<Rightarrow> field list \<Rightarrow> string + gerr"
  syslogNew :: "('w, nat + gerr) action"
  syslogWrite :: "nat \<Rightarrow> severity \<Rightarrow> string \<Rightarrow> ('w, gerr option) action"
  syslogClose :: "nat \<Rightarrow> ('w, gerr option) action"
  zapAny :: "string \<Rightarrow> string \<Rightarrow> field"
  zNew :: "'x core \<Rightarrow> zopt list \<Rightarrow> 'l"
  zNop :: 'l
  zWithOptions :: "'l \<Rightarrow> zopt list \<Rightarrow> 'l"
  zNamed :: "'l \<Rightarrow> string \<Rightarrow> 'l"
  zWith :: "'l \<Rightarrow> field list \<Rightarrow> 'l"
  zCore :: "'l \<Rightarrow> 'x core"
  zCheck :: "'l \<Rightarrow> 'w lstate \<Rightarrow> int \<Rightarrow> string \<Rightarrow> 'x core list"
  zLog :: "'l \<Rightarrow> int \<Rightarrow> string \<Rightarrow> 'w lstate \<Rightarrow> 'w lstate"
  zSync :: "'l \<Rightarrow> ('w, gerr option) action"

text \<open>\<open>zap.AtomicLevel\<close>: a cell; it enables the levels that are not below it.\<close>

definition newAtomicLevelAt :: "int \<Rightarrow> ('w, nat) action" where
  "newAtomicLevelAt l s = (s\<lparr>cells := cells s @ [l]\<rparr>, length (cells s))"

definition cellEnabled :: "'w lstate \<Rightarrow> nat \<Rightarrow> int \<Rightarrow> bool" where
  "cellEnabled s i l \<longleftrightarrow> cells s ! i \<le> l"

fun coreEnabled :: "('x, 'l, 'w) zap \<Rightarrow> 'w lstate \<Rightarrow> 'x core \<Rightarrow> int \<Rightarrow> bool" where
  "coreEnabled z s (Ext x) l = xEnabled z x s l"
| "coreEnabled z s (SyslogC cell enc w fs) l = cellEnabled s cell l"
| "coreEnabled z s (Selective allSel sels c) l = coreEnabled z s c l"
| "coreEnabled z s (Typed key val t d) l = coreEnabled z s d l"
| "coreEnabled z s (Multi cs) l = list_ex (\<lambda>c. coreEnabled z s c l) cs"
| "coreEnabled z s (Closer c cl) l = coreEnabled z s c l"

definition selectiveWrapper :: "'x core \<Rightarrow> selectors \<Rightarrow> 'x core" where
  "selectiveWrapper c sels =
     (if sels = [] then c else Selective (map_of sels ''*'' \<noteq> None) sels c)"

fun coreWith :: "('x, 'l, 'w) zap \<Rightarrow> field list \<Rightarrow> 'x core \<Rightarrow> 'x core" where
  "coreWith z fs (Ext x) = Ext (xWith z x fs)"
| "coreWith z fs (SyslogC cell enc w fs0) = SyslogC cell enc w (fs0 @ fs)"
| "coreWith z fs (Selective allSel sels c) = selectiveWrapper (coreWith z fs c) sels"
| "coreWith z fs (Typed key val t d) = Typed key val (coreWith z fs t) (coreWith z fs d)"
| "coreWith z fs (Multi cs) = Multi (map (coreWith z fs) cs)"
| "coreWith z fs (Closer c cl) = Closer (coreWith z fs c) cl"

text \<open>
  \<open>Check\<close> adds cores to a checked entry, the list of the cores that will write it. A core of an
  argument adds itself when it decides to log the entry.
\<close>

fun coreCheck :: "('x, 'l, 'w) zap \<Rightarrow> 'w lstate \<Rightarrow> entry \<Rightarrow> 'x core \<Rightarrow> 'x core list \<Rightarrow> 'x core list" where
  "coreCheck z s e (Ext x) ce = (if xAdds z x s e then ce @ [Ext x] else ce)"
| "coreCheck z s e (SyslogC cell enc w fs) ce = (if cellEnabled s cell (ELevel e) then ce @ [SyslogC cell enc w fs] else ce)"
| "coreCheck z s e (Selective allSel sels c) ce =
     (if coreEnabled z s (Selective allSel sels c) (ELevel e) then
        if ELevel e = -1 then
          if allSel then ce @ [Selective allSel sels c]
          else if map_of sels (LoggerName e) \<noteq> None then ce @ [Selective allSel sels c]
          else ce
        else ce @ [Selective allSel sels c]
      else ce)"
| "coreCheck z s e (Typed key val t d) ce =
     (if coreEnabled z s d (ELevel e) then ce @ [Typed key val t d] else ce)"
| "coreCheck z s e (Multi cs) ce = fold (coreCheck z s e) cs ce"
| "coreCheck z s e (Closer c cl) ce = coreCheck z s e c ce"

text \<open>The first \<open>n\<close> tabs become blanks; a negative \<open>n\<close> means all of them.\<close>

fun replaceTabs :: "int \<Rightarrow> int \<Rightarrow> string \<Rightarrow> string" where
  "replaceTabs n k [] = []"
| "replaceTabs n k (v # b) =
     (if v = CHR 0x09 then
        CHR '' '' # (if n \<ge> 0 \<and> k + 1 \<ge> n then b else replaceTabs n (k + 1) b)
      else v # replaceTabs n k b)"

definition replaceTabsWithSpaces :: "string \<Rightarrow> int \<Rightarrow> string" where
  "replaceTabsWithSpaces b n = replaceTabs n 0 b"

definition syslogCoreWrite ::
  "('x, 'l, 'w) zap \<Rightarrow> encoder \<Rightarrow> nat \<Rightarrow> entry \<Rightarrow> field list \<Rightarrow> ('w, gerr option) action" where
  "syslogCoreWrite z enc w e fs s =
     (case encodeEntry z enc e fs of
        Inr err \<Rightarrow> (s, Some (Wrap ''failed to encode entry'' [Some err]))
      | Inl buffer \<Rightarrow>
          (let msg = replaceTabsWithSpaces buffer 4 in
           if ELevel e = -1 then syslogWrite z w SDebug msg s
           else if ELevel e = 0 then syslogWrite z w SInfo msg s
           else if ELevel e = 1 then syslogWrite z w SWarning msg s
           else if ELevel e = 2 then syslogWrite z w SErr msg s
           else if ELevel e \<in> {3, 4, 5} then syslogWrite z w SCrit msg s
           else (s, Some (Msg ''unhandled log level''))))"

text \<open>The first field with the key decides.\<close>

fun typedMatch :: "string \<Rightarrow> string \<Rightarrow> field list \<Rightarrow> bool" where
  "typedMatch key val [] = False"
| "typedMatch key val (f # fs) = (if Key f = key then FString f = val else typedMatch key val fs)"

fun coreWrite :: "('x, 'l, 'w) zap \<Rightarrow> entry \<Rightarrow> field list \<Rightarrow> 'x core \<Rightarrow> ('w, gerr option) action"
  and writeAll :: "('x, 'l, 'w) zap \<Rightarrow> entry \<Rightarrow> field list \<Rightarrow> 'x core list \<Rightarrow> ('w, gerr option list) action" where
  "coreWrite z e fs (Ext x) s = xWrite z x e fs s"
| "coreWrite z e fs (SyslogC cell enc w fs0) s = syslogCoreWrite z enc w e fs s"
| "coreWrite z e fs (Selective allSel sels c) s = coreWrite z e fs c s"
| "coreWrite z e fs (Typed key val t d) s =
     (if typedMatch key val fs then coreWrite z e fs t s else coreWrite z e fs d s)"
| "coreWrite z e fs (Multi cs) s = (let (s', errs) = writeAll z e fs cs s in (s', errorsJoin errs))"
| "coreWrite z e fs (Closer c cl) s = coreWrite z e fs c s"
| "writeAll z e fs [] s = (s, [])"
| "writeAll z e fs (c # cs) s =
     (let (s1, err) = coreWrite z e fs c s; (s2, errs) = writeAll z e fs cs s1 in (s2, err # errs))"

fun coreSync :: "('x, 'l, 'w) zap \<Rightarrow> 'x core \<Rightarrow> ('w, gerr option) action"
  and syncAll :: "('x, 'l, 'w) zap \<Rightarrow> 'x core list \<Rightarrow> ('w, gerr option list) action" where
  "coreSync z (Ext x) s = xSync z x s"
| "coreSync z (SyslogC cell enc w fs) s = (s, None)"
| "coreSync z (Selective allSel sels c) s = coreSync z c s"
| "coreSync z (Typed key val t d) s =
     (let (s1, defaultErr) = coreSync z d s; (s2, typedErr) = coreSync z t s1 in
      (s2, if defaultErr \<noteq> None \<or> typedErr \<noteq> None
           then Some (Wrap ''error syncing logger'' [defaultErr, typedErr]) else None))"
| "coreSync z (Multi cs) s = (let (s', errs) = syncAll z cs s in (s', errorsJoin errs))"
| "coreSync z (Closer c cl) s = coreSync z c s"
| "syncAll z [] s = (s, [])"
| "syncAll z (c # cs) s =
     (let (s1, err) = coreSync z c s; (s2, errs) = syncAll z cs s1 in (s2, err # errs))"

text \<open>Whether a core implements \<open>io.Closer\<close>.\<close>

fun isCloser :: "('x, 'l, 'w) zap \<Rightarrow> 'x core \<Rightarrow> bool" where
  "isCloser z (Ext x) = xIsCloser z x"
| "isCloser z _ = True"

definition closeRotator :: "nat \<Rightarrow> ('w, gerr option) action" where
  "closeRotator i s = (s\<lparr>rots := (rots s)[i := Rotator.Close (rots s ! i)]\<rparr>, None)"

fun coreClose :: "('x, 'l, 'w) zap \<Rightarrow> 'x core \<Rightarrow> ('w, gerr option) action"
  and closeAll :: "('x, 'l, 'w) zap \<Rightarrow> 'x core list \<Rightarrow> ('w, gerr option list) action" where
  "coreClose z (Ext x) s = xClose z x s"
| "coreClose z (SyslogC cell enc w fs) s = syslogClose z w s"
| "coreClose z (Selective allSel sels c) s = (if isCloser z c then coreClose z c s else (s, None))"
| "coreClose z (Typed key val t d) s =
     (let (s1, errs) = (if isCloser z d then (let (s1, err) = coreClose z d s in (s1, [err])) else (s, []));
          (s2, errs') = (if isCloser z t then (let (s2, err) = coreClose z t s1 in (s2, [err])) else (s1, []))
      in (s2, errorsJoin (errs @ errs')))"
| "coreClose z (Multi cs) s = (let (s', errs) = closeAll z cs s in (s', errorsJoin errs))"
| "coreClose z (Closer c (Inl c')) s = coreClose z c' s"
| "coreClose z (Closer c (Inr i)) s = closeRotator i s"
| "closeAll z [] s = (s, [])"
| "closeAll z (c # cs) s =
     (if isCloser z c then
        (let (s1, err) = coreClose z c s; (s2, errs) = closeAll z cs s1 in (s2, err # errs))
      else closeAll z cs s)"

section \<open>Outputs\<close>

definition wrappedCore :: "('x, 'l, 'w) zap \<Rightarrow> 'x core \<Rightarrow> 'x core" where
  "wrappedCore z c =
     (let wc = Ext (wrapCore z c) in if isCloser z c then Closer wc (Inl c) else wc)"

definition newCore :: "('x, 'l, 'w) zap \<Rightarrow> encoder \<Rightarrow> sinkOut \<Rightarrow> nat \<Rightarrow> 'x core" where
  "newCore z enc ws enab = wrappedCore z (Ext (newZapCore z enc ws enab))"

definition makeStderrOutput :: "('x, 'l, 'w) zap \<Rightarrow> LogConfig \<Rightarrow> nat \<Rightarrow> ('w, (gerr, 'x core) outcome) action" where
  "makeStderrOutput z cfg enab s = (s, Ok (newCore z (buildEncoder (ecsCompatible z) cfg) Stderr enab))"

definition makeDiscardOutput :: "('x, 'l, 'w) zap \<Rightarrow> LogConfig \<Rightarrow> nat \<Rightarrow> ('w, (gerr, 'x core) outcome) action" where
  "makeDiscardOutput z cfg enab s = (s, Ok (newCore z (buildEncoder (ecsCompatible z) cfg) Discard enab))"

definition newSyslog :: "('x, 'l, 'w) zap \<Rightarrow> encoder \<Rightarrow> nat \<Rightarrow> ('w, (gerr, 'x core) outcome) action" where
  "newSyslog z enc enab s =
     (case syslogNew z s of
        (s', Inr err) \<Rightarrow> (s', Err (Wrap ''failed to get a syslog writer'' [Some err]))
      | (s', Inl w) \<Rightarrow> (s', Ok (SyslogC enab enc w [])))"

definition makeSyslogOutput :: "('x, 'l, 'w) zap \<Rightarrow> LogConfig \<Rightarrow> nat \<Rightarrow> ('w, (gerr, 'x core) outcome) action" where
  "makeSyslogOutput z cfg enab s =
     (let (s', r) = newSyslog z (buildEncoder (ecsCompatible z) cfg) enab s in
      (s', bind_outcome r (\<lambda>c. Ok (wrappedCore z c))))"

text \<open>The event log exists on Windows only.\<close>

definition newEventLog :: "('w, (gerr, 'x core) outcome) action" where
  "newEventLog s = (s, Err (Msg ''eventlog is only supported on Windows''))"

definition makeEventLogOutput :: "('x, 'l, 'w) zap \<Rightarrow> LogConfig \<Rightarrow> nat \<Rightarrow> ('w, (gerr, 'x core) outcome) action" where
  "makeEventLogOutput z cfg enab s =
     (let (s', r) = newEventLog s in (s', bind_outcome r (\<lambda>c. Ok (wrappedCore z c))))"

definition rotatorOptions :: "FileConfig \<Rightarrow> RotatorOption list" where
  "rotatorOptions f =
     [MaxSizeBytes (FMaxSize f), MaxBackups (FMaxBackups f), Permissions (FPermissions f), Interval (FInterval f),
      RotateOnStartup (FRotateOnStartup f), RedirectStderr (FRedirectStderr f)]"

definition makeFileOutput ::
  "sorter \<Rightarrow> tm \<Rightarrow> ('x, 'l, 'w) zap \<Rightarrow> LogConfig \<Rightarrow> nat \<Rightarrow> ('w, (gerr, 'x core) outcome) action" where
  "makeFileOutput srt now z cfg enab s =
     (case Resolve (paths s) FLogs (Join [FPath (Files cfg), LogFilename cfg]) of
        Ok filename \<Rightarrow>
          (case NewFileRotator srt (fsys s) now filename (rotatorOptions (Files cfg)) of
             Ok r \<Rightarrow>
               (s\<lparr>rots := rots s @ [r]\<rparr>,
                Ok (Closer (newCore z (buildEncoder (ecsCompatible z) cfg) (RotatorOut (length (rots s))) enab)
                      (Inr (length (rots s)))))
           | Err e \<Rightarrow> (s, Err (Wrap ''failed to create file rotator'' [Some (RotErr e)]))
           | Panic \<Rightarrow> (s, Panic))
      | _ \<Rightarrow> (s, Panic))"

definition createLogOutput ::
  "sorter \<Rightarrow> tm \<Rightarrow> ('x, 'l, 'w) zap \<Rightarrow> LogConfig \<Rightarrow> nat \<Rightarrow> ('w, (gerr, 'x core) outcome) action" where
  "createLogOutput srt now z cfg enab s =
     (if toIODiscard cfg then makeDiscardOutput z cfg enab s
      else if ToStderr cfg then makeStderrOutput z cfg enab s
      else if ToSyslog cfg then makeSyslogOutput z cfg enab s
      else if ToEventLog cfg then makeEventLogOutput z cfg enab s
      else if ToFiles cfg then makeFileOutput srt now z cfg enab s
      else
        (case environment cfg of
           SystemdEnvironment \<Rightarrow> makeStderrOutput z cfg enab s
         | ContainerEnvironment \<Rightarrow> makeStderrOutput z cfg enab s
         | MacOSServiceEnvironment \<Rightarrow> makeFileOutput srt now z cfg enab s
         | WindowsServiceEnvironment \<Rightarrow> makeFileOutput srt now z cfg enab s
         | _ \<Rightarrow> (s, Ok (Ext (nopCore z)))))"

section \<open>Configuring the logger\<close>

record 'l Logger =
  zlogger :: 'l
  lselectors :: selectors

record 'l coreLogger =
  cselectors :: selectors
  rootLogger :: 'l
  globalLogger :: 'l
  logger :: "'l Logger"
  level :: nat
  observedLogs :: "nat option"

text \<open>The package: its state and the pointer to the current logger.\<close>

record ('l, 'w) pkg =
  st :: "'w lstate"
  log1 :: "'l coreLogger option"

definition makeOptions :: "LogConfig \<Rightarrow> zopt list" where
  "makeOptions cfg =
     (if AddCaller cfg then [AddCallerOpt] else []) @
     (if development cfg then [DevelopmentOpt] else []) @
     (if Beat cfg \<noteq> [] then [FieldsOpt [\<lparr>Key = ''service.name'', FString = Beat cfg\<rparr>]] else [])"

definition newLogger :: "('x, 'l, 'w) zap \<Rightarrow> 'l \<Rightarrow> selectors \<Rightarrow> zopt list \<Rightarrow> 'l Logger" where
  "newLogger z root sels options =
     \<lparr>zlogger = zWithOptions z (zWithOptions z root [AddCallerSkip 1]) options, lselectors = sels\<rparr>"

text \<open>\<open>selectorSet\<close> is the loop over the selectors of the configuration, with the default after it.\<close>

definition selectorSet :: "string list \<Rightarrow> selectors" where
  "selectorSet sels =
     (let m = fold (\<lambda>sel m. map_put (TrimSpace sel) () m) sels [] in
      if m = [] then map_put ''*'' () m else m)"

definition debugSelected :: "LogConfig \<Rightarrow> bool" where
  "debugSelected cfg \<longleftrightarrow> LevelEnabled (CLevel cfg) DebugLevel \<and> Selectors cfg \<noteq> []"

definition createSink ::
  "sorter \<Rightarrow> tm \<Rightarrow> ('x, 'l, 'w) zap \<Rightarrow> LogConfig \<Rightarrow> 'x core list \<Rightarrow>
     ('w, (gerr, 'x core \<times> nat \<times> nat option \<times> selectors) outcome) action" where
  "createSink srt now z cfg outputs s =
     (let (s1, enab) = newAtomicLevelAt (ZapLevel (CLevel cfg)) s;
          (s2, r) =
            (if toObserver cfg then
               (let (s2, x, obs) = newObserver z enab s1 in (s2, Ok (Ext x, Some obs)))
             else
               (let (s2, r) = createLogOutput srt now z cfg enab s1 in (s2, bind_outcome r (\<lambda>c. Ok (c, None)))))
      in
      case r of
        Err err \<Rightarrow> (s2, Err (Wrap ''failed to build log output'' [Some err]))
      | Panic \<Rightarrow> (s2, Panic)
      | Ok (sink, obs) \<Rightarrow>
          (let s3 = s2\<lparr>golog := False\<rparr> in
           if debugSelected cfg then
             (let sels = selectorSet (Selectors cfg);
                  s4 = (if map_of sels ''stdlog'' \<noteq> None \<or> map_of sels ''*'' \<noteq> None then s3\<lparr>golog := True\<rparr> else s3)
              in (s4, Ok (Multi (outputs @ [selectiveWrapper sink sels]), enab, obs, sels)))
           else (s3, Ok (Multi (outputs @ [sink]), enab, obs, []))))"

text \<open>The previous root logger is flushed before the pointer changes.\<close>

definition storeLogger :: "('x, 'l, 'w) zap \<Rightarrow> 'l coreLogger \<Rightarrow> ('l, 'w) pkg \<Rightarrow> ('l, 'w) pkg" where
  "storeLogger z l p =
     (let s = (case log1 p of Some old \<Rightarrow> fst (zSync z (rootLogger old) (st p)) | None \<Rightarrow> st p) in
      p\<lparr>st := s, log1 := Some l\<rparr>)"

text \<open>The state after the package is initialised.\<close>

definition initPkg :: "('x, 'l, 'w) zap \<Rightarrow> 'w lstate \<Rightarrow> ('l, 'w) pkg" where
  "initPkg z s =
     (let (s1, cell) = newAtomicLevelAt 0 s in
      storeLogger z
        \<lparr>cselectors = [], rootLogger = zNop z, globalLogger = zNop z,
          logger = newLogger z (zNop z) [] [], level = cell, observedLogs = None\<rparr>
        \<lparr>st = s1, log1 = None\<rparr>)"

text \<open>Storing the loggers for a sink, the end of every configuration function.\<close>

definition storeRoot ::
  "('x, 'l, 'w) zap \<Rightarrow> LogConfig \<Rightarrow> 'x core \<Rightarrow> nat \<Rightarrow> nat option \<Rightarrow> selectors \<Rightarrow> ('l, 'w) pkg \<Rightarrow> ('l, 'w) pkg" where
  "storeRoot z cfg sink cell obs sels p =
     (let root = zNew z sink (makeOptions cfg) in
      storeLogger z
        \<lparr>cselectors = sels, rootLogger = root, globalLogger = zWithOptions z root [AddCallerSkip 1],
          logger = newLogger z root sels [], level = cell, observedLogs = obs\<rparr> p)"

definition ConfigureWithOutputs ::
  "sorter \<Rightarrow> tm \<Rightarrow> ('x, 'l, 'w) zap \<Rightarrow> LogConfig \<Rightarrow> 'x core list \<Rightarrow> ('l, 'w) pkg \<Rightarrow> ('l, 'w) pkg \<times> (gerr, unit) outcome" where
  "ConfigureWithOutputs srt now z cfg outputs p =
     (let (s, r) = createSink srt now z cfg outputs (st p); p = p\<lparr>st := s\<rparr> in
      case r of
        Err err \<Rightarrow> (p, Err err)
      | Panic \<Rightarrow> (p, Panic)
      | Ok (sink, cell, obs, sels) \<Rightarrow> (storeRoot z cfg sink cell obs sels p, Ok ()))"

definition Configure ::
  "sorter \<Rightarrow> tm \<Rightarrow> ('x, 'l, 'w) zap \<Rightarrow> LogConfig \<Rightarrow> ('l, 'w) pkg \<Rightarrow> ('l, 'w) pkg \<times> (gerr, unit) outcome" where
  "Configure srt now z cfg p = ConfigureWithOutputs srt now z cfg [] p"

definition coreSink :: "('x, 'l, 'w) zap \<Rightarrow> LogConfig \<Rightarrow> 'x core \<Rightarrow> 'x core \<times> selectors" where
  "coreSink z cfg c =
     (let c' = (case WithFields cfg of None \<Rightarrow> c | Some m \<Rightarrow> coreWith z (map (\<lambda>(k, v). zapAny z k v) m) c);
          sink = wrappedCore z c' in
      if debugSelected cfg then
        (let sels = selectorSet (Selectors cfg) in (selectiveWrapper sink sels, sels))
      else (sink, []))"

definition ConfigureWithCore ::
  "('x, 'l, 'w) zap \<Rightarrow> LogConfig \<Rightarrow> 'x core \<Rightarrow> ('l, 'w) pkg \<Rightarrow> ('l, 'w) pkg \<times> (gerr, unit) outcome" where
  "ConfigureWithCore z cfg c p =
     (let (s, cell) = newAtomicLevelAt (ZapLevel (CLevel cfg)) (st p);
          (sink, sels) = coreSink z cfg c in
      (storeRoot z cfg sink cell None sels (p\<lparr>st := s\<rparr>), Ok ()))"

definition ConfigureWithCoreLocal ::
  "('x, 'l, 'w) zap \<Rightarrow> LogConfig \<Rightarrow> 'x core \<Rightarrow> ('l, 'w) pkg \<Rightarrow> ('l, 'w) pkg \<times> (gerr, 'l Logger) outcome" where
  "ConfigureWithCoreLocal z cfg c p =
     (let (s, cell) = newAtomicLevelAt (ZapLevel (CLevel cfg)) (st p);
          (sink, sels) = coreSink z cfg c in
      (storeRoot z cfg sink cell None sels (p\<lparr>st := s\<rparr>), Ok (newLogger z (zNew z sink (makeOptions cfg)) sels [])))"

text \<open>The sink with a typed output; only the global variant shares the sink when it is observed.\<close>

definition typedSink ::
  "sorter \<Rightarrow> tm \<Rightarrow> ('x, 'l, 'w) zap \<Rightarrow> bool \<Rightarrow> LogConfig \<Rightarrow> string \<Rightarrow> string \<Rightarrow> nat \<Rightarrow> selectors \<Rightarrow> 'x core \<Rightarrow>
     ('w, (gerr, 'x core) outcome) action" where
  "typedSink srt now z share typedCfg key val cell sels sink s =
     (let (s', r) = (if share then (s, Ok sink) else createLogOutput srt now z typedCfg cell s) in
      case r of
        Err err \<Rightarrow> (s', Err (Wrap ''could not create typed logger output'' [Some err]))
      | Panic \<Rightarrow> (s', Panic)
      | Ok typed \<Rightarrow> (s', Ok (selectiveWrapper (Typed key val typed sink) sels)))"

definition ConfigureWithTypedOutput ::
  "sorter \<Rightarrow> tm \<Rightarrow> ('x, 'l, 'w) zap \<Rightarrow> LogConfig \<Rightarrow> LogConfig \<Rightarrow> string \<Rightarrow> string \<Rightarrow> 'x core list \<Rightarrow>
     ('l, 'w) pkg \<Rightarrow> ('l, 'w) pkg \<times> (gerr, unit) outcome" where
  "ConfigureWithTypedOutput srt now z cfg typedCfg key val outputs p =
     (let (s, r) = createSink srt now z cfg outputs (st p) in
      case r of
        Err err \<Rightarrow> (p\<lparr>st := s\<rparr>, Err err)
      | Panic \<Rightarrow> (p\<lparr>st := s\<rparr>, Panic)
      | Ok (sink, cell, obs, sels) \<Rightarrow>
          (let (s', r') = typedSink srt now z (toObserver cfg) typedCfg key val cell sels sink s; p = p\<lparr>st := s'\<rparr> in
           case r' of
             Err err \<Rightarrow> (p, Err err)
           | Panic \<Rightarrow> (p, Panic)
           | Ok sink' \<Rightarrow> (storeRoot z cfg sink' cell obs sels p, Ok ())))"

definition ConfigureWithTypedOutputLocal ::
  "sorter \<Rightarrow> tm \<Rightarrow> ('x, 'l, 'w) zap \<Rightarrow> LogConfig \<Rightarrow> LogConfig \<Rightarrow> string \<Rightarrow> string \<Rightarrow> 'x core list \<Rightarrow>
     ('l, 'w) pkg \<Rightarrow> ('l, 'w) pkg \<times> (gerr, 'l Logger) outcome" where
  "ConfigureWithTypedOutputLocal srt now z cfg typedCfg key val outputs p =
     (let (s, r) = createSink srt now z cfg outputs (st p) in
      case r of
        Err err \<Rightarrow> (p\<lparr>st := s\<rparr>, Err err)
      | Panic \<Rightarrow> (p\<lparr>st := s\<rparr>, Panic)
      | Ok (sink, cell, obs, sels) \<Rightarrow>
          (let (s', r') = typedSink srt now z False typedCfg key val cell sels sink s; p = p\<lparr>st := s'\<rparr> in
           case r' of
             Err err \<Rightarrow> (p, Err err)
           | Panic \<Rightarrow> (p, Panic)
           | Ok sink' \<Rightarrow>
               (storeRoot z cfg sink' cell obs sels p, Ok (newLogger z (zNew z sink' (makeOptions cfg)) sels []))))"


definition DevelopmentSetup ::
  "sorter \<Rightarrow> tm \<Rightarrow> ('x, 'l, 'w) zap \<Rightarrow> Option list \<Rightarrow> ('l, 'w) pkg \<Rightarrow> ('l, 'w) pkg \<times> (gerr, unit) outcome" where
  "DevelopmentSetup srt now z options p =
     (let cfg = zeroConfig\<lparr>CLevel := DebugLevel, ToStderr := True, development := True, AddCaller := True\<rparr> in
      Configure srt now z (fold (\<lambda>apply cfg. apply cfg) options cfg) p)"

text \<open>The argument \<open>verboseFlag\<close> is the value of the flag \<open>test.v\<close>, if there is one.\<close>

definition TestingSetup ::
  "sorter \<Rightarrow> tm \<Rightarrow> ('x, 'l, 'w) zap \<Rightarrow> string option \<Rightarrow> Option list \<Rightarrow> ('l, 'w) pkg \<Rightarrow> ('l, 'w) pkg \<times> (gerr, unit) outcome" where
  "TestingSetup srt now z verboseFlag options p =
     (if verboseFlag = Some ''true'' then DevelopmentSetup srt now z options p else (p, Ok ()))"

text \<open>The current logger is set by the initialisation of the package and never removed.\<close>

definition loadLogger :: "('l, 'w) pkg \<Rightarrow> 'l coreLogger" where
  "loadLogger p = the (log1 p)"

definition ObserverLogs :: "('l, 'w) pkg \<Rightarrow> nat option" where
  "ObserverLogs p = observedLogs (loadLogger p)"

definition Sync :: "('x, 'l, 'w) zap \<Rightarrow> ('l, 'w) pkg \<Rightarrow> ('l, 'w) pkg \<times> gerr option" where
  "Sync z p = (let (s, err) = zSync z (rootLogger (loadLogger p)) (st p) in (p\<lparr>st := s\<rparr>, err))"

definition SetLevel :: "int \<Rightarrow> ('l, 'w) pkg \<Rightarrow> ('l, 'w) pkg" where
  "SetLevel lvl p = p\<lparr>st := (st p)\<lparr>cells := (cells (st p))[level (loadLogger p) := lvl]\<rparr>\<rparr>"

definition GetLevel :: "('l, 'w) pkg \<Rightarrow> int" where
  "GetLevel p = cells (st p) ! level (loadLogger p)"

definition HasSelector :: "string \<Rightarrow> ('l, 'w) pkg \<Rightarrow> bool" where
  "HasSelector sel p \<longleftrightarrow> map_of (cselectors (loadLogger p)) sel \<noteq> None"

section \<open>Loggers\<close>

definition NewLogger :: "('x, 'l, 'w) zap \<Rightarrow> string \<Rightarrow> zopt list \<Rightarrow> ('l, 'w) pkg \<Rightarrow> 'l Logger" where
  "NewLogger z sel options p = newLogger z (zNamed z (rootLogger (loadLogger p)) sel) [] options"

definition NewNopLogger :: "('x, 'l, 'w) zap \<Rightarrow> 'l Logger" where
  "NewNopLogger z = \<lparr>zlogger = zNop z, lselectors = []\<rparr>"

definition NewZapLogger :: "'l \<Rightarrow> 'l Logger" where
  "NewZapLogger l = \<lparr>zlogger = l, lselectors = []\<rparr>"

definition L :: "('l, 'w) pkg \<Rightarrow> 'l Logger" where
  "L p = logger (loadLogger p)"

definition LoggerHasSelector :: "string \<Rightarrow> 'l Logger \<Rightarrow> bool" where
  "LoggerHasSelector sel l \<longleftrightarrow> map_of (lselectors l) sel \<noteq> None"

definition LoggerWithOptions :: "('x, 'l, 'w) zap \<Rightarrow> zopt list \<Rightarrow> 'l Logger \<Rightarrow> 'l Logger" where
  "LoggerWithOptions z options l = l\<lparr>zlogger := zWithOptions z (zlogger l) options\<rparr>"

definition LoggerWith :: "('x, 'l, 'w) zap \<Rightarrow> field list \<Rightarrow> 'l Logger \<Rightarrow> 'l Logger" where
  "LoggerWith z args l = l\<lparr>zlogger := zWith z (zlogger l) args\<rparr>"

definition LoggerNamed :: "('x, 'l, 'w) zap \<Rightarrow> string \<Rightarrow> 'l Logger \<Rightarrow> 'l Logger" where
  "LoggerNamed z name l = l\<lparr>zlogger := zNamed z (zlogger l) name\<rparr>"

definition LoggerIsDebug :: "('x, 'l, 'w) zap \<Rightarrow> 'w lstate \<Rightarrow> 'l Logger \<Rightarrow> bool" where
  "LoggerIsDebug z s l \<longleftrightarrow> zCheck z (zlogger l) s (-1) [] \<noteq> []"

definition LoggerSync :: "('x, 'l, 'w) zap \<Rightarrow> 'l Logger \<Rightarrow> ('w, gerr option) action" where
  "LoggerSync z l s = zSync z (zlogger l) s"

definition LoggerCore :: "('x, 'l, 'w) zap \<Rightarrow> 'l Logger \<Rightarrow> 'x core" where
  "LoggerCore z l = zCore z (zlogger l)"

definition LoggerClose :: "('x, 'l, 'w) zap \<Rightarrow> 'l Logger \<Rightarrow> ('w, gerr option) action" where
  "LoggerClose z l s = (if isCloser z (zCore z (zlogger l)) then coreClose z (zCore z (zlogger l)) s else (s, None))"

text \<open>The functions of global.go, which log through the current logger; a message is given formatted.\<close>

definition globalLog :: "('x, 'l, 'w) zap \<Rightarrow> int \<Rightarrow> string \<Rightarrow> ('l, 'w) pkg \<Rightarrow> ('l, 'w) pkg" where
  "globalLog z lvl msg p =
     (let l = globalLogger (loadLogger p) in
      if coreEnabled z (st p) (zCore z l) lvl then p\<lparr>st := zLog z l lvl msg (st p)\<rparr> else p)"

definition GlobalDebug :: "('x, 'l, 'w) zap \<Rightarrow> string \<Rightarrow> string \<Rightarrow> ('l, 'w) pkg \<Rightarrow> ('l, 'w) pkg" where
  "GlobalDebug z sel msg p =
     (let l = globalLogger (loadLogger p) in
      if coreEnabled z (st p) (zCore z l) (-1) then p\<lparr>st := zLog z (zNamed z l sel) (-1) msg (st p)\<rparr> else p)"

definition MakeDebug :: "('x, 'l, 'w) zap \<Rightarrow> string \<Rightarrow> string \<Rightarrow> ('l, 'w) pkg \<Rightarrow> ('l, 'w) pkg" where
  "MakeDebug z sel msg p = p\<lparr>st := zLog z (zNamed z (globalLogger (loadLogger p)) sel) (-1) msg (st p)\<rparr>"

definition GlobalIsDebug :: "('x, 'l, 'w) zap \<Rightarrow> string \<Rightarrow> ('l, 'w) pkg \<Rightarrow> bool" where
  "GlobalIsDebug z sel p \<longleftrightarrow> zCheck z (zNamed z (globalLogger (loadLogger p)) sel) (st p) (-1) [] \<noteq> []"

definition GlobalInfo :: "('x, 'l, 'w) zap \<Rightarrow> string \<Rightarrow> ('l, 'w) pkg \<Rightarrow> ('l, 'w) pkg" where
  "GlobalInfo z = globalLog z 0"

definition GlobalWarn :: "('x, 'l, 'w) zap \<Rightarrow> string \<Rightarrow> ('l, 'w) pkg \<Rightarrow> ('l, 'w) pkg" where
  "GlobalWarn z = globalLog z 1"

definition GlobalErr :: "('x, 'l, 'w) zap \<Rightarrow> string \<Rightarrow> ('l, 'w) pkg \<Rightarrow> ('l, 'w) pkg" where
  "GlobalErr z = globalLog z 2"

definition GlobalCritical :: "('x, 'l, 'w) zap \<Rightarrow> string \<Rightarrow> ('l, 'w) pkg \<Rightarrow> ('l, 'w) pkg" where
  "GlobalCritical z = globalLog z 2"

section \<open>Configuring from a section of a file\<close>

definition Logging ::
  "sorter \<Rightarrow> tm \<Rightarrow> ('x, 'l, 'w) zap \<Rightarrow> flags \<Rightarrow> string \<Rightarrow> gerr unpacker option \<Rightarrow> ('l, 'w) pkg \<Rightarrow>
     ('l, 'w) pkg \<times> (gerr, unit) outcome" where
  "Logging srt now z fl beatName cfg p =
     (case loggingConfig fl beatName cfg of
        Ok config \<Rightarrow> Configure srt now z config p
      | Err err \<Rightarrow> (p, Err err)
      | Panic \<Rightarrow> (p, Panic))"

definition LoggingWithOutputs ::
  "sorter \<Rightarrow> tm \<Rightarrow> ('x, 'l, 'w) zap \<Rightarrow> flags \<Rightarrow> string \<Rightarrow> gerr unpacker option \<Rightarrow> 'x core list \<Rightarrow> ('l, 'w) pkg \<Rightarrow>
     ('l, 'w) pkg \<times> (gerr, unit) outcome" where
  "LoggingWithOutputs srt now z fl beatName cfg outputs p =
     (case loggingConfig fl beatName cfg of
        Ok config \<Rightarrow> ConfigureWithOutputs srt now z config outputs p
      | Err err \<Rightarrow> (p, Err err)
      | Panic \<Rightarrow> (p, Panic))"

definition typedConfigs ::
  "flags \<Rightarrow> string \<Rightarrow> gerr unpacker option \<Rightarrow> gerr unpacker option \<Rightarrow> (gerr, LogConfig \<times> LogConfig) outcome" where
  "typedConfigs fl beatName cfg typedCfg =
     bind_outcome (loggingConfig fl beatName cfg) (\<lambda>config.
       (case typedConfig fl beatName config typedCfg of
          Ok typed \<Rightarrow> Ok (config, typed)
        | Err err \<Rightarrow> Err (Wrap ''cannot unpack typed output config'' [Some err])
        | Panic \<Rightarrow> Panic))"

definition LoggingWithTypedOutputs ::
  "sorter \<Rightarrow> tm \<Rightarrow> ('x, 'l, 'w) zap \<Rightarrow> flags \<Rightarrow> string \<Rightarrow> gerr unpacker option \<Rightarrow> gerr unpacker option \<Rightarrow>
     string \<Rightarrow> string \<Rightarrow> 'x core list \<Rightarrow> ('l, 'w) pkg \<Rightarrow> ('l, 'w) pkg \<times> (gerr, unit) outcome" where
  "LoggingWithTypedOutputs srt now z fl beatName cfg typedCfg key kind outputs p =
     (case typedConfigs fl beatName cfg typedCfg of
        Ok (config, typed) \<Rightarrow> ConfigureWithTypedOutput srt now z config typed key kind outputs p
      | Err err \<Rightarrow> (p, Err err)
      | Panic \<Rightarrow> (p, Panic))"

definition LoggingWithTypedOutputsLocal ::
  "sorter \<Rightarrow> tm \<Rightarrow> ('x, 'l, 'w) zap \<Rightarrow> flags \<Rightarrow> string \<Rightarrow> gerr unpacker option \<Rightarrow> gerr unpacker option \<Rightarrow>
     string \<Rightarrow> string \<Rightarrow> 'x core list \<Rightarrow> ('l, 'w) pkg \<Rightarrow> ('l, 'w) pkg \<times> (gerr, 'l Logger) outcome" where
  "LoggingWithTypedOutputsLocal srt now z fl beatName cfg typedCfg key kind outputs p =
     (case typedConfigs fl beatName cfg typedCfg of
        Ok (config, typed) \<Rightarrow> ConfigureWithTypedOutputLocal srt now z config typed key kind outputs p
      | Err err \<Rightarrow> (p, Err err)
      | Panic \<Rightarrow> (p, Panic))"

end
