(* ===== verification/Logp_Laws.thy ===== *)
theory Logp_Laws
  imports Logp
begin

text \<open>
  Where an entry goes: the tree of cores refines a flat list of outputs. The leaves an entry reaches
  are computed from \<open>Check\<close> and \<open>Write\<close> of the cores, and the theorems say which leaves these are for
  each way of configuring the package, how the level set later changes them, and what closing a logger
  closes. What is used of zap and ecszap is collected in \<open>zap_ok\<close>.
\<close>

section \<open>The leaves of a tree of cores\<close>

text \<open>
  The cores at which the writing of an entry with the given fields ends. A typed core passes the entry to
  its typed core exactly if there is a field with its key and the first such field has its value.
\<close>

fun writeLeaves :: "field list \<Rightarrow> 'x core \<Rightarrow> 'x core list" where
  "writeLeaves fs (Ext x) = [Ext x]"
| "writeLeaves fs (SyslogC cell enc w fs0) = [SyslogC cell enc w fs0]"
| "writeLeaves fs (Selective allSel sels c) = writeLeaves fs c"
| "writeLeaves fs (Typed key val t d) = 
     (case find (\<lambda>f. Key f = key) fs of
        None \<Rightarrow> writeLeaves fs d
      | Some f \<Rightarrow> if FString f = val then writeLeaves fs t else writeLeaves fs d)"
| "writeLeaves fs (Multi cs) = concat (map (writeLeaves fs) cs)"
| "writeLeaves fs (Closer c cl) = writeLeaves fs c"

text \<open>
  The leaves that write an entry logged through a core: zap calls \<open>Write\<close> of every core that \<open>Check\<close> has
  added, in that order.
\<close>

definition targets :: "('x, 'l, 'w) zap \<Rightarrow> 'w lstate \<Rightarrow> entry \<Rightarrow> field list \<Rightarrow> 'x core \<Rightarrow> 'x core list" where
  "targets z s e fs c = concat (map (writeLeaves fs) (coreCheck z s e c []))"

lemma fold_appending:
  "(\<And>c ce. c \<in> set cs \<Longrightarrow> f c ce = ce @ g c) \<Longrightarrow> fold f cs ce = ce @ concat (map g cs)"
  by (induction cs arbitrary: ce) simp_all

lemma coreCheck_append: "coreCheck z s e c ce = ce @ coreCheck z s e c []"
proof (induction z s e c ce rule: coreCheck.induct)
  case (5 z s e cs ce)
  have "fold (coreCheck z s e) cs ce' = ce' @ concat (map (\<lambda>c. coreCheck z s e c []) cs)" for ce'
    by (rule fold_appending) (rule 5)
  then show ?case by simp
qed auto

lemma coreCheck_Multi: "coreCheck z s e (Multi cs) [] = concat (map (\<lambda>c. coreCheck z s e c []) cs)"
  using fold_appending [of cs "coreCheck z s e", OF coreCheck_append] by simp

lemma targets_Multi: "targets z s e fs (Multi cs) = concat (map (targets z s e fs) cs)"
  unfolding targets_def coreCheck_Multi by (induction cs) simp_all


lemma writeAll_append:
  "writeAll z e fs (cs @ ds) s =
     (let (s1, a) = writeAll z e fs cs s; (s2, b) = writeAll z e fs ds s1 in (s2, a @ b))"
  by (induction cs arbitrary: s) (auto simp: Let_def split: prod.splits)

lemma writeAll_length: "length (snd (writeAll z e fs cs s)) = length cs"
  by (induction cs arbitrary: s) (simp_all add: case_prod_beta Let_def)

lemma errorsJoin_None: "errorsJoin errs = None \<longleftrightarrow> (\<forall>e \<in> set errs. e = None)"
  by (induction errs) (auto simp: errorsJoin_def Let_def)

lemma typedMatch_find: "typedMatch key val fs \<longleftrightarrow> (\<exists>f. find (\<lambda>f. Key f = key) fs = Some f \<and> FString f = val)"
  by (induction fs) auto

lemma write_leaves:
  "(\<lambda>(s', err). (s', err = None)) (coreWrite z e fs c s) =
     (\<lambda>(s', errs). (s', \<forall>err \<in> set errs. err = None)) (writeAll z e fs (writeLeaves fs c) s)"
  "(\<lambda>(s', errs). (s', \<forall>err \<in> set errs. err = None)) (writeAll z e fs cs s) =
     (\<lambda>(s', errs). (s', \<forall>err \<in> set errs. err = None)) (writeAll z e fs (concat (map (writeLeaves fs) cs)) s)"
proof (induction z e fs c s and z e fs cs s rule: coreWrite_writeAll.induct)
  case (5 z e fs cs s)
  then show ?case by (auto simp: errorsJoin_None split: prod.splits)
next
  case (8 z e fs c cs s)
  then show ?case by (auto simp: writeAll_append Let_def split: prod.splits)
qed (auto simp: typedMatch_find split: prod.splits option.splits)


text \<open>
  C10. Writing an entry to a core, however the selective, typed, multiple and closing cores are nested,
  changes the state as writing it to the leaves chosen by the fields does, one after the other in the
  order of the tree: at a typed core the leaves of its typed core if there is a field with its key and the first such field
  has its value, of its default core otherwise. Every leaf is written even if one before it fails, and
  the call reports an error exactly if one of the leaves does.\<close>

theorem coreWrite_refines:
  "coreWrite z e fs c s = (s', err) \<Longrightarrow> writeAll z e fs (writeLeaves fs c) s = (s'', errs) \<Longrightarrow>
     s' = s'' \<and> (err = None \<longleftrightarrow> (\<forall>x \<in> set errs. x = None)) \<and> length errs = length (writeLeaves fs c)"
  using write_leaves(1) [of z e fs c s] writeAll_length [of z e fs "writeLeaves fs c" s] by simp

section \<open>What is used of zap and ecszap\<close>

text \<open>The cores the package wraps: one of zap or of the caller, or the one of syslog.\<close>

fun plainCore :: "'x core \<Rightarrow> bool" where
  "plainCore (Ext x) = True"
| "plainCore (SyslogC cell enc w fs) = True"
| "plainCore _ = False"

text \<open>A core whose level is a cell: it is enabled, and logs an entry, from the level of the cell on.\<close>

definition governed :: "('x, 'l, 'w) zap \<Rightarrow> 'x \<Rightarrow> nat \<Rightarrow> bool" where
  "governed z x i \<longleftrightarrow> (\<forall>s l. xEnabled z x s l = cellEnabled s i l) \<and> (\<forall>s e. xAdds z x s e = cellEnabled s i (ELevel e))"

text \<open>The options of a new logger that change its core.\<close>

fun withOpts :: "('x, 'l, 'w) zap \<Rightarrow> zopt list \<Rightarrow> 'x core \<Rightarrow> 'x core" where
  "withOpts z [] c = c"
| "withOpts z (FieldsOpt fs # opts) c = withOpts z opts (coreWith z fs c)"
| "withOpts z (_ # opts) c = withOpts z opts c"

definition frame :: "'w lstate \<Rightarrow> 'w lstate \<Rightarrow> bool" where
  "frame s s' \<longleftrightarrow> cells s' = cells s \<and> rots s' = rots s"

definition zap_ok :: "('x, 'l, 'w) zap \<Rightarrow> bool" where
  "zap_ok z \<longleftrightarrow>
     (\<forall>c opts. zCore z (zNew z c opts) = withOpts z opts c) \<and>
     (\<forall>l n. zCore z (zWithOptions z l [AddCallerSkip n]) = zCore z l) \<and> (\<forall>l. zCore z (zWithOptions z l []) = zCore z l) \<and>
     (\<forall>l n. zCore z (zNamed z l n) = zCore z l) \<and>
     (\<forall>l fs. zCore z (zWith z l fs) = coreWith z fs (zCore z l)) \<and>
     (\<forall>enc ws i. governed z (newZapCore z enc ws i) i) \<and>
     (\<forall>c i. plainCore c \<and> (\<forall>s l. coreEnabled z s c l = cellEnabled s i l) \<longrightarrow> governed z (wrapCore z c) i) \<and>
     (\<forall>i s s' x ob. newObserver z i s = (s', x, ob) \<longrightarrow> governed z x i \<and> frame s s' \<and> paths s' = paths s \<and> fsys s' = fsys s) \<and>
     (\<forall>x fs i. governed z x i \<longrightarrow> governed z (xWith z x fs) i) \<and>
     (\<forall>c. \<not> xIsCloser z (wrapCore z c)) \<and> (\<forall>enc ws i. \<not> xIsCloser z (newZapCore z enc ws i)) \<and>
     (\<forall>s. frame s (fst (syslogNew z s)) \<and> paths (fst (syslogNew z s)) = paths s \<and> fsys (fst (syslogNew z s)) = fsys s) \<and> (\<forall>l s. frame s (fst (zSync z l s)))"

lemma zap_okD:
  assumes "zap_ok z"
  shows "zCore z (zNew z c opts) = withOpts z opts c"
    and "zCore z (zWithOptions z l [AddCallerSkip n]) = zCore z l" and "zCore z (zWithOptions z l []) = zCore z l"
    and "zCore z (zNamed z l nm) = zCore z l" and "zCore z (zWith z l fs) = coreWith z fs (zCore z l)"
    and "governed z (newZapCore z enc ws i) i"
    and "plainCore c \<Longrightarrow> (\<And>s l. coreEnabled z s c l = cellEnabled s i l) \<Longrightarrow> governed z (wrapCore z c) i"
    and "newObserver z i s = (s', x, ob) \<Longrightarrow> governed z x i \<and> frame s s' \<and> paths s' = paths s \<and> fsys s' = fsys s"
    and "governed z y i \<Longrightarrow> governed z (xWith z y fs) i"
    and "\<not> xIsCloser z (wrapCore z c)" and "\<not> xIsCloser z (newZapCore z enc ws i)"
    and "frame s (fst (syslogNew z s)) \<and> paths (fst (syslogNew z s)) = paths s \<and> fsys (fst (syslogNew z s)) = fsys s" and "frame s (fst (zSync z l s))"
proof -
  note z = assms [unfolded zap_ok_def]
  note z2 = z [THEN conjunct2, THEN conjunct2, THEN conjunct2, THEN conjunct2, THEN conjunct2]
  note z3 = z2 [THEN conjunct2, THEN conjunct2, THEN conjunct2, THEN conjunct2]
  show "zCore z (zNew z c opts) = withOpts z opts c" "zCore z (zWithOptions z l [AddCallerSkip n]) = zCore z l"
    "zCore z (zWithOptions z l []) = zCore z l" "zCore z (zNamed z l nm) = zCore z l"
    "zCore z (zWith z l fs) = coreWith z fs (zCore z l)"
    using z [THEN conjunct1] z [THEN conjunct2, THEN conjunct1] z [THEN conjunct2, THEN conjunct2, THEN conjunct1]
      z [THEN conjunct2, THEN conjunct2, THEN conjunct2, THEN conjunct1]
      z [THEN conjunct2, THEN conjunct2, THEN conjunct2, THEN conjunct2, THEN conjunct1] by simp_all
  show "governed z (newZapCore z enc ws i) i" using z2 [THEN conjunct1] by simp
  show "governed z (wrapCore z c) i" if "plainCore c" "\<And>s l. coreEnabled z s c l = cellEnabled s i l"
    using z2 [THEN conjunct2, THEN conjunct1] that by simp
  show "governed z x i \<and> frame s s' \<and> paths s' = paths s \<and> fsys s' = fsys s" if "newObserver z i s = (s', x, ob)"
    using z2 [THEN conjunct2, THEN conjunct2, THEN conjunct1] that by blast
  show "governed z (xWith z y fs) i" if "governed z y i"
    using z2 [THEN conjunct2, THEN conjunct2, THEN conjunct2, THEN conjunct1] that by blast
  show "\<not> xIsCloser z (wrapCore z c)" "\<not> xIsCloser z (newZapCore z enc ws i)"
    "frame s (fst (syslogNew z s)) \<and> paths (fst (syslogNew z s)) = paths s \<and> fsys (fst (syslogNew z s)) = fsys s" "frame s (fst (zSync z l s))"
    using z3 by simp_all
qed

section \<open>Outputs that follow a level cell\<close>

text \<open>The core of an output, bare or with a closer: a leaf that follows the cell.\<close>

definition leafIs :: "('x, 'l, 'w) zap \<Rightarrow> nat \<Rightarrow> 'x \<Rightarrow> 'x core \<Rightarrow> bool" where
  "leafIs z i x c \<longleftrightarrow> governed z x i \<and> (c = Ext x \<or> (\<exists>cl. c = Closer (Ext x) cl))"

lemma leaf_enabled: "leafIs z i x c \<Longrightarrow> coreEnabled z s c l = cellEnabled s i l"
  by (auto simp: leafIs_def governed_def)

lemma leaf_targets: "leafIs z i x c \<Longrightarrow> targets z s e fs c = (if cellEnabled s i (ELevel e) then [Ext x] else [])"
  by (auto simp: leafIs_def governed_def targets_def)

lemma leaf_leaves: "leafIs z i x c \<Longrightarrow> writeLeaves fs c = [Ext x]"
  by (auto simp: leafIs_def)

lemma leaf_with: "zap_ok z \<Longrightarrow> leafIs z i x c \<Longrightarrow> leafIs z i (xWith z x fs) (coreWith z fs c)"
  by (auto simp: leafIs_def dest: zap_okD(9))

lemma leaf_withOpts:
  "zap_ok z \<Longrightarrow> leafIs z i x c \<Longrightarrow> \<exists>y. withOpts z opts (Ext x) = Ext y \<and> leafIs z i y (withOpts z opts c)"
proof (induction opts arbitrary: x c)
  case (Cons o1 opts)
  then show ?case using leaf_with [OF Cons.prems] by (cases o1) simp_all
qed simp

lemma newCore_leaf:
  assumes "zap_ok z"
  shows "newCore z enc ws i = Ext (wrapCore z (Ext (newZapCore z enc ws i)))"
    and "governed z (wrapCore z (Ext (newZapCore z enc ws i))) i"
  using zap_okD(6) [OF assms, of enc ws i] zap_okD(7) [OF assms, of "Ext (newZapCore z enc ws i)" i] zap_okD(11) [OF assms]
  by (simp_all add: newCore_def wrappedCore_def governed_def)

section \<open>The output a configuration names\<close>

text \<open>
  The first of the outputs that is asked for, in this order; without one the environment decides: under systemd and in a container
  the standard error, as a service of macOS or Windows the files.
\<close>

datatype dest = DObserver | DDiscard | DStderr | DSyslog | DEventLog | DFiles | DNone

definition destOf :: "LogConfig \<Rightarrow> dest" where
  "destOf cfg =
     (case filter fst [(toObserver cfg, DObserver), (toIODiscard cfg, DDiscard), (ToStderr cfg, DStderr), (ToSyslog cfg, DSyslog),
         (ToEventLog cfg, DEventLog), (ToFiles cfg, DFiles),
         (environment cfg \<in> {SystemdEnvironment, ContainerEnvironment}, DStderr),
         (environment cfg \<in> {MacOSServiceEnvironment, WindowsServiceEnvironment}, DFiles)] of
        [] \<Rightarrow> DNone | (_, d) # _ \<Rightarrow> d)"

text \<open>
  The core of that output for a level cell, made in a state: a core of ecszap around one of zap that encodes as JSON and writes to
  the destination, a new file rotator for the files, or around the core of a new connection to syslog, with the console encoding.
\<close>

definition encoderOf :: "('x, 'l, 'w) zap \<Rightarrow> LogConfig \<Rightarrow> encoder" where
  "encoderOf z cfg =
     (if ToSyslog cfg then ConsoleEncoder (ecsCompatible z (ConsoleEncoderConfig\<lparr>TimeKey := []\<rparr>))
      else JSONEncoder (ecsCompatible z baseEncodingConfig))"

definition outLeaf :: "('x, 'l, 'w) zap \<Rightarrow> LogConfig \<Rightarrow> nat \<Rightarrow> 'w lstate \<Rightarrow> 'x" where
  "outLeaf z cfg cell s =
     (let zapOut = (\<lambda>ws. wrapCore z (Ext (newZapCore z (encoderOf z cfg) ws cell))) in
      case destOf cfg of
        DObserver \<Rightarrow> fst (snd (newObserver z cell s))
      | DDiscard \<Rightarrow> zapOut Discard
      | DStderr \<Rightarrow> zapOut Stderr
      | DFiles \<Rightarrow> zapOut (RotatorOut (length (rots s)))
      | DSyslog \<Rightarrow> (case snd (syslogNew z s) of Inl w \<Rightarrow> wrapCore z (SyslogC cell (encoderOf z cfg) w []) | Inr _ \<Rightarrow> nopCore z)
      | _ \<Rightarrow> nopCore z)"

text \<open>The file rotators that are made for it: for the files one, with the configured path and options.\<close>

definition newRotators :: "sorter \<Rightarrow> tm \<Rightarrow> LogConfig \<Rightarrow> 'w lstate \<Rightarrow> Rotator list \<Rightarrow> bool" where
  "newRotators srt now cfg s rs \<longleftrightarrow>
     (if destOf cfg = DFiles
      then \<exists>filename r. rs = [r] \<and> Resolve (paths s) FLogs (Join [FPath (Files cfg), LogFilename cfg]) = Ok filename \<and>
        NewFileRotator srt (fsys s) now filename (rotatorOptions (Files cfg)) = Ok r
      else rs = [])"

definition hasOutput :: "LogConfig \<Rightarrow> bool" where
  "hasOutput cfg \<longleftrightarrow> destOf cfg \<noteq> DNone"

text \<open>What an output is: its core, and what making it changes.\<close>

definition outputOk ::
  "sorter \<Rightarrow> tm \<Rightarrow> ('x, 'l, 'w) zap \<Rightarrow> LogConfig \<Rightarrow> nat \<Rightarrow> 'w lstate \<Rightarrow> 'w lstate \<Rightarrow> 'x core \<Rightarrow> bool" where
  "outputOk srt now z cfg i s s' c \<longleftrightarrow>
     leafIs z i (outLeaf z cfg i s) c \<and> cells s' = cells s \<and> paths s' = paths s \<and> fsys s' = fsys s \<and>
     (\<exists>rs. rots s' = rots s @ rs \<and> newRotators srt now cfg s rs)"

lemma buildEncoder_of: "buildEncoder (ecsCompatible z) cfg = encoderOf z cfg"
  by (simp add: buildEncoder_def encoderOf_def SyslogEncoderConfig_def JSONEncoderConfig_def)

lemma makeStderrOutput_ok:
  "zap_ok z \<Longrightarrow> destOf cfg = DStderr \<Longrightarrow> makeStderrOutput z cfg i s = (s', Ok c) \<Longrightarrow> outputOk srt now z cfg i s s' c"
  using newCore_leaf [of z]
  by (auto simp: makeStderrOutput_def buildEncoder_of outputOk_def leafIs_def outLeaf_def newRotators_def Let_def)

lemma makeDiscardOutput_ok:
  "zap_ok z \<Longrightarrow> destOf cfg = DDiscard \<Longrightarrow> makeDiscardOutput z cfg i s = (s', Ok c) \<Longrightarrow> outputOk srt now z cfg i s s' c"
  using newCore_leaf [of z]
  by (auto simp: makeDiscardOutput_def buildEncoder_of outputOk_def leafIs_def outLeaf_def newRotators_def Let_def)

lemma makeFileOutput_ok:
  "zap_ok z \<Longrightarrow> destOf cfg = DFiles \<Longrightarrow> makeFileOutput srt now z cfg i s = (s', Ok c) \<Longrightarrow> outputOk srt now z cfg i s s' c"
  using newCore_leaf [of z]
  by (auto simp: makeFileOutput_def buildEncoder_of outputOk_def leafIs_def outLeaf_def newRotators_def Let_def split: outcome.splits)

lemma makeSyslogOutput_ok:
  assumes "zap_ok z" and "destOf cfg = DSyslog" and "makeSyslogOutput z cfg i s = (s', Ok c)"
  shows "outputOk srt now z cfg i s s' c"
proof -
  obtain s1 r where n: "syslogNew z s = (s1, r)" by force
  then have f: "frame s s1" "paths s1 = paths s" "fsys s1 = fsys s" using zap_okD(12) [OF assms(1), of s] by simp_all
  have g: "governed z (wrapCore z (SyslogC i enc w [])) i" for enc w
    using zap_okD(7) [OF assms(1), of "SyslogC i enc w []"] by simp
  show ?thesis using assms n f g
    by (cases r)
       (auto simp: makeSyslogOutput_def newSyslog_def wrappedCore_def buildEncoder_of outputOk_def leafIs_def outLeaf_def newRotators_def
          frame_def Let_def)
qed

lemma createLogOutput_ok:
  assumes "zap_ok z" and "createLogOutput srt now z cfg i s = (s', Ok c)" and "hasOutput cfg" and "\<not> toObserver cfg"
  shows "outputOk srt now z cfg i s s' c"
proof (cases "ToEventLog cfg \<and> \<not> toIODiscard cfg \<and> \<not> ToStderr cfg \<and> \<not> ToSyslog cfg")
  case True
  then show ?thesis using assms(2) by (simp add: createLogOutput_def makeEventLogOutput_def newEventLog_def)
next
  case False
  have "(destOf cfg = DDiscard \<and> makeDiscardOutput z cfg i s = (s', Ok c)) \<or> (destOf cfg = DStderr \<and> makeStderrOutput z cfg i s = (s', Ok c)) \<or>
      (destOf cfg = DSyslog \<and> makeSyslogOutput z cfg i s = (s', Ok c)) \<or> (destOf cfg = DFiles \<and> makeFileOutput srt now z cfg i s = (s', Ok c))"
    using assms(2-4) False
    by (cases "environment cfg") (auto simp: createLogOutput_def destOf_def hasOutput_def split: if_splits)
  then show ?thesis
    by (elim disjE conjE)
       (erule (1) makeDiscardOutput_ok [OF assms(1)] makeStderrOutput_ok [OF assms(1)] makeSyslogOutput_ok [OF assms(1)]
          makeFileOutput_ok [OF assms(1)])+
qed

section \<open>Selectors\<close>

lemma map_of_fold_put:
  "map_of (fold (\<lambda>sel m. map_put (f sel) () m) sels m) k \<noteq> None \<longleftrightarrow> k \<in> f ` set sels \<or> map_of m k \<noteq> None"
  by (induction sels arbitrary: m) auto

lemma selectorSet_not_Nil: "selectorSet sels \<noteq> []"
  by (simp add: selectorSet_def Let_def)

text \<open>With a selector given, the default of all selectors is never taken.\<close>

lemma selectorSet_mem: "sels \<noteq> [] \<Longrightarrow> map_of (selectorSet sels) k \<noteq> None \<longleftrightarrow> k \<in> TrimSpace ` set sels"
proof -
  let ?m = "fold (\<lambda>sel m. map_put (TrimSpace sel) () m) sels []"
  assume "sels \<noteq> []"
  then have "map_of ?m (TrimSpace (hd sels)) \<noteq> None" by (subst map_of_fold_put) simp
  then have "?m \<noteq> []" by auto
  then show ?thesis using map_of_fold_put [of TrimSpace sels "[]" k] by (simp add: selectorSet_def Let_def)
qed

text \<open>The entries that pass the selectors: everything above the debug level, and what is selected.\<close>

definition passes :: "LogConfig \<Rightarrow> entry \<Rightarrow> bool" where
  "passes cfg e \<longleftrightarrow>
     (ELevel e = -1 \<and> debugSelected cfg \<longrightarrow>
        ''*'' \<in> TrimSpace ` set (Selectors cfg) \<or> LoggerName e \<in> TrimSpace ` set (Selectors cfg))"

definition configSelectors :: "LogConfig \<Rightarrow> selectors" where
  "configSelectors cfg = (if debugSelected cfg then selectorSet (Selectors cfg) else [])"

lemma Selective_targets:
  "targets z s e fs (selectiveWrapper c (configSelectors cfg)) =
     (if debugSelected cfg then
        if coreEnabled z s c (ELevel e) \<and> passes cfg e then writeLeaves fs c else []
      else targets z s e fs c)"
  using selectorSet_not_Nil selectorSet_mem [of "Selectors cfg"]
  by (auto simp: selectiveWrapper_def configSelectors_def targets_def passes_def debugSelected_def)

lemma selectiveWrapper_simps [simp]:
  "coreWith z fs (selectiveWrapper c sels) = selectiveWrapper (coreWith z fs c) sels"
  "coreEnabled z s (selectiveWrapper c sels) l = coreEnabled z s c l"
  "writeLeaves fs (selectiveWrapper c sels) = writeLeaves fs c"
  by (simp_all add: selectiveWrapper_def)

lemma withOpts_simps [simp]:
  "withOpts z opts (Multi cs) = Multi (map (withOpts z opts) cs)"
  "withOpts z opts (selectiveWrapper c sels) = selectiveWrapper (withOpts z opts c) sels"
  "withOpts z opts (Typed key val t d) = Typed key val (withOpts z opts t) (withOpts z opts d)"
proof -
  show "withOpts z opts (Multi cs) = Multi (map (withOpts z opts) cs)"
    by (induction z opts "Multi cs" arbitrary: cs rule: withOpts.induct) (simp_all add: comp_def map_idI)
  show "withOpts z opts (selectiveWrapper c sels) = selectiveWrapper (withOpts z opts c) sels"
    by (induction z opts c arbitrary: sels rule: withOpts.induct) simp_all
  show "withOpts z opts (Typed key val t d) = Typed key val (withOpts z opts t) (withOpts z opts d)"
    by (induction z opts "Typed key val t d" arbitrary: t d rule: withOpts.induct) simp_all
qed

section \<open>Configured loggers\<close>

lemma storeLogger_simps [simp]: "loadLogger (storeLogger z l p) = l"
  by (simp add: storeLogger_def loadLogger_def Let_def)

lemma storeLogger_frame: "zap_ok z \<Longrightarrow> frame (st p) (st (storeLogger z l p))"
  using zap_okD(13) [of z] by (auto simp: storeLogger_def Let_def frame_def split: option.splits)

text \<open>The state in which the configured output is made: a new cell holds the configured level.\<close>

definition withCell :: "LogConfig \<Rightarrow> 'w lstate \<Rightarrow> 'w lstate" where
  "withCell cfg s = s\<lparr>cells := cells s @ [ZapLevel (CLevel cfg)]\<rparr>"

lemma observer_ok:
  assumes "zap_ok z" and "toObserver cfg" and "newObserver z i s = (s', x, ob)"
  shows "outputOk srt now z cfg i s s' (Ext x)"
  using zap_okD(8) [OF assms(1,3)] assms(2,3)
  by (simp add: outputOk_def leafIs_def outLeaf_def newRotators_def destOf_def frame_def Let_def)

lemma createSink_ok:
  assumes z: "zap_ok z" and c: "createSink srt now z cfg outs s = (s', Ok (sink, cell, obs, sels))" and h: "hasOutput cfg"
  shows "\<exists>c. sink = Multi (outs @ [selectiveWrapper c sels]) \<and> outputOk srt now z cfg cell (withCell cfg s) s' c \<and>
    sels = configSelectors cfg \<and> cell = length (cells s)"
proof -
  let ?i = "length (cells s)" and ?s = "withCell cfg s"
  have a: "newAtomicLevelAt (ZapLevel (CLevel cfg)) s = (?s, ?i)" by (simp add: newAtomicLevelAt_def withCell_def)
  have "\<exists>c s2 ob. outputOk srt now z cfg ?i ?s s2 c \<and>
      (if toObserver cfg then (let (s2, x, obs) = newObserver z ?i ?s in (s2, Ok (Ext x, Some obs)))
       else (let (s2, r) = createLogOutput srt now z cfg ?i ?s in (s2, bind_outcome r (\<lambda>c. Ok (c, None))))) = (s2, Ok (c, ob))"
  proof (cases "toObserver cfg")
    case True
    obtain s2 x ob where n: "newObserver z ?i ?s = (s2, x, ob)" by (metis prod_cases3)
    then show ?thesis using observer_ok [OF z True n, of srt now] True by auto
  next
    case False
    obtain s2 r where n: "createLogOutput srt now z cfg ?i ?s = (s2, r)" by force
    then obtain c where "r = Ok c" using c False by (cases r) (simp_all add: createSink_def a)
    then show ?thesis using createLogOutput_ok [OF z _ h False] n False by auto
  qed
  then obtain c s2 ob where d: "outputOk srt now z cfg ?i ?s s2 c" and
    e: "(if toObserver cfg then (let (s2, x, obs) = newObserver z ?i ?s in (s2, Ok (Ext x, Some obs)))
       else (let (s2, r) = createLogOutput srt now z cfg ?i ?s in (s2, bind_outcome r (\<lambda>c. Ok (c, None))))) = (s2, Ok (c, ob))"
    by blast
  have "sink = Multi (outs @ [selectiveWrapper c sels]) \<and> sels = configSelectors cfg \<and> (\<exists>g. s' = s2\<lparr>golog := g\<rparr>) \<and> cell = ?i"
    using c unfolding createSink_def a Let_def [of "(_, _)"] prod.case e outcome.case
    by (auto simp: configSelectors_def selectiveWrapper_def [of _ "[]"] Let_def split: if_splits)
  then show ?thesis using d by (auto simp: outputOk_def)
qed

lemma storeRoot_simps:
  assumes "zap_ok z"
  shows "zCore z (rootLogger (loadLogger (storeRoot z cfg sink cell obs sels p))) = withOpts z (makeOptions cfg) sink"
    and "level (loadLogger (storeRoot z cfg sink cell obs sels p)) = cell"
    and "cells (st (storeRoot z cfg sink cell obs sels p)) = cells (st p)"
    and "rots (st (storeRoot z cfg sink cell obs sels p)) = rots (st p)"
  using zap_okD(1) [OF assms] storeLogger_frame [OF assms, of p] by (simp_all add: storeRoot_def Let_def frame_def)

lemma SetLevel_simps [simp]:
  "loadLogger (SetLevel lvl p) = loadLogger p"
  "level (loadLogger p) < length (cells (st p)) \<Longrightarrow> GetLevel (SetLevel lvl p) = lvl"
  by (simp_all add: SetLevel_def GetLevel_def loadLogger_def)

lemma newRotators_cong: "paths s = paths s' \<Longrightarrow> fsys s = fsys s' \<Longrightarrow> newRotators srt now cfg s rs = newRotators srt now cfg s' rs"
  by (simp add: newRotators_def)

text \<open>
  C13. The global logger set up with outputs of the caller, by a configuration that names an output, routes entries as
  configured, at any later time: an entry goes to each of the caller's outputs as that output decides, and to the one output
  that the configuration names (\<open>outLeaf\<close>: the observer, nowhere, the standard error, syslog, or the files, in this order of preference, with
  the encoder of the configuration) exactly if its level is not below the current level and, for a debug entry
  with selectors configured, if all selectors or the name of its logger is selected. For the files one new rotator is
  made, with the configured path and options, and none otherwise. The level is the configured one until it is set, and
  setting it takes effect on this output.\<close>

theorem ConfigureWithOutputs_routing:
  assumes "zap_ok z" and "hasOutput cfg"
    and "ConfigureWithOutputs srt now z cfg outs p = (p', Ok ())"
  shows "GetLevel p' = ZapLevel (CLevel cfg) \<and> (\<forall>lvl. GetLevel (SetLevel lvl p') = lvl) \<and>
    (\<exists>rs. rots (st p') = rots (st p) @ rs \<and> newRotators srt now cfg (st p) rs) \<and>
    (\<forall>s e fs. targets z s e fs (zCore z (rootLogger (loadLogger p'))) =
       concat (map (\<lambda>c. targets z s e fs (withOpts z (makeOptions cfg) c)) outs) @
       (if cells s ! level (loadLogger p') \<le> ELevel e \<and> passes cfg e
        then [withOpts z (makeOptions cfg) (Ext (outLeaf z cfg (level (loadLogger p')) (withCell cfg (st p))))] else []))"
proof -
  obtain s1 sink cell obs sels where s1: "createSink srt now z cfg outs (st p) = (s1, Ok (sink, cell, obs, sels))"
    and p': "p' = storeRoot z cfg sink cell obs sels (p\<lparr>st := s1\<rparr>)"
    using assms(3) by (auto simp: ConfigureWithOutputs_def Let_def split: prod.splits outcome.splits)
  from createSink_ok [OF assms(1) s1 assms(2)] obtain c where c: "outputOk srt now z cfg cell (withCell cfg (st p)) s1 c"
    and sink: "sink = Multi (outs @ [selectiveWrapper c (configSelectors cfg)])" and cell: "cell = length (cells (st p))" by auto
  let ?x = "outLeaf z cfg cell (withCell cfg (st p))" and ?c = "withOpts z (makeOptions cfg) c"
  obtain y where y: "withOpts z (makeOptions cfg) (Ext ?x) = Ext y" "leafIs z cell y ?c"
    using leaf_withOpts [OF assms(1), of cell ?x c "makeOptions cfg"] c by (auto simp: outputOk_def)
  note root = storeRoot_simps [OF assms(1), of cfg sink cell obs sels "p\<lparr>st := s1\<rparr>", folded p']
  have "targets z s e fs (selectiveWrapper ?c (configSelectors cfg)) =
      (if cells s ! cell \<le> ELevel e \<and> passes cfg e then [withOpts z (makeOptions cfg) (Ext ?x)] else [])" for s e fs
    using leaf_enabled [OF y(2)] leaf_targets [OF y(2)] leaf_leaves [OF y(2)] y(1)
    by (auto simp: Selective_targets cellEnabled_def passes_def)
  then have "\<forall>s e fs. targets z s e fs (zCore z (rootLogger (loadLogger p'))) =
       concat (map (\<lambda>c. targets z s e fs (withOpts z (makeOptions cfg) c)) outs) @
       (if cells s ! level (loadLogger p') \<le> ELevel e \<and> passes cfg e
        then [withOpts z (makeOptions cfg) (Ext (outLeaf z cfg (level (loadLogger p')) (withCell cfg (st p))))] else [])"
    by (simp add: root sink targets_Multi comp_def)
  moreover have "level (loadLogger p') < length (cells (st p'))" "GetLevel p' = ZapLevel (CLevel cfg)"
    using root c cell by (simp_all add: GetLevel_def outputOk_def withCell_def)
  moreover have "\<exists>rs. rots (st p') = rots (st p) @ rs \<and> newRotators srt now cfg (st p) rs"
    using root(4) c newRotators_cong [of "withCell cfg (st p)" "st p"] by (auto simp: outputOk_def withCell_def)
  ultimately show ?thesis by auto
qed

section \<open>Typed outputs\<close>



section \<open>Closing\<close>

datatype 'x closing = CExt 'x | CSyslog nat | CRotator nat

fun closers :: "('x, 'l, 'w) zap \<Rightarrow> 'x core \<Rightarrow> 'x closing list" where
  "closers z (Ext x) = (if xIsCloser z x then [CExt x] else [])"
| "closers z (SyslogC cell enc w fs) = [CSyslog w]"
| "closers z (Selective allSel sels c) = closers z c"
| "closers z (Typed key val t d) = closers z d @ closers z t"
| "closers z (Multi cs) = concat (map (closers z) cs)"
| "closers z (Closer c (Inl c')) = closers z c'"
| "closers z (Closer c (Inr i)) = [CRotator i]"

fun closeOne :: "('x, 'l, 'w) zap \<Rightarrow> 'x closing \<Rightarrow> ('w, gerr option) action" where
  "closeOne z (CExt x) s = xClose z x s"
| "closeOne z (CSyslog w) s = syslogClose z w s"
| "closeOne z (CRotator i) s = closeRotator i s"

fun closeSeq :: "('x, 'l, 'w) zap \<Rightarrow> 'x closing list \<Rightarrow> 'w lstate \<Rightarrow> 'w lstate \<times> bool" where
  "closeSeq z [] s = (s, True)"
| "closeSeq z (c # cs) s =
     (let (s1, err) = closeOne z c s; (s2, ok) = closeSeq z cs s1 in (s2, err = None \<and> ok))"

lemma closeSeq_append:
  "closeSeq z (cs @ ds) s = (let (s1, a) = closeSeq z cs s; (s2, b) = closeSeq z ds s1 in (s2, a \<and> b))"
  by (induction cs arbitrary: s) (auto simp: Let_def split: prod.splits)

text \<open>A core that implements no \<open>Close\<close> has no closers.\<close>

lemma not_isCloser: "\<not> isCloser z c \<Longrightarrow> closers z c = []"
  by (cases c) auto

definition allNone :: "'w lstate \<times> gerr option list \<Rightarrow> 'w lstate \<times> bool" where
  "allNone = (\<lambda>(s, errs). (s, \<forall>e \<in> set errs. e = None))"

text \<open>A \<open>closerCore\<close> is made for a core that implements \<open>Close\<close> only.\<close>

fun closersOk :: "('x, 'l, 'w) zap \<Rightarrow> 'x core \<Rightarrow> bool" where
  "closersOk z (Selective allSel sels c) = closersOk z c"
| "closersOk z (Typed key val t d) = (closersOk z t \<and> closersOk z d)"
| "closersOk z (Multi cs) = list_all (closersOk z) cs"
| "closersOk z (Closer c (Inl c')) = (isCloser z c' \<and> closersOk z c')"
| "closersOk z _ = True"

lemma wrappedCore_closersOk: "closersOk z c \<Longrightarrow> closersOk z (wrappedCore z c)"
  by (simp add: wrappedCore_def Let_def)

lemma close_closers:
  "isCloser z c \<Longrightarrow> closersOk z c \<Longrightarrow> (\<lambda>(s', err). (s', err = None)) (coreClose z c s) = closeSeq z (closers z c) s"
  "list_all (closersOk z) cs \<Longrightarrow> allNone (closeAll z cs s) = closeSeq z (concat (map (closers z) cs)) s"
proof (induction z c s and z cs s rule: coreClose_closeAll.induct)
  case (4 z key val t d s)
  then show ?case
    by (auto simp: closeSeq_append errorsJoin_None not_isCloser Let_def split: prod.splits if_splits)
next
  case (5 z cs s)
  then show ?case by (auto simp: errorsJoin_None allNone_def split: prod.splits)
next
  case (9 z c cs s)
  then show ?case by (auto simp: closeSeq_append allNone_def not_isCloser Let_def split: prod.splits)
qed (auto simp: not_isCloser allNone_def split: prod.splits if_splits)

lemma closers_selectiveWrapper [simp]: "closers z (selectiveWrapper c sels) = closers z c"
  "closersOk z (selectiveWrapper c sels) = closersOk z c"
  by (simp_all add: selectiveWrapper_def)

text \<open>Adding fields keeps the closers of a tree in which every core of zap has a closer of the package around it.\<close>

fun extFree :: "'x core \<Rightarrow> bool" where
  "extFree (Ext x) = False"
| "extFree (SyslogC cell enc w fs) = True"
| "extFree (Selective allSel sels c) = extFree c"
| "extFree (Typed key val t d) = (extFree t \<and> extFree d)"
| "extFree (Multi cs) = list_all extFree cs"
| "extFree (Closer c cl) = True"

lemma extFree_selectiveWrapper [simp]: "extFree (selectiveWrapper c sels) = extFree c"
  by (simp add: selectiveWrapper_def)

lemma closers_with:
  "extFree c \<Longrightarrow> closers z (coreWith z fs c) = closers z c \<and> (closersOk z c \<longrightarrow> closersOk z (coreWith z fs c)) \<and> extFree (coreWith z fs c)"
proof (induction z c rule: closers.induct)
  case (5 z cs)
  then have "\<forall>c \<in> set cs. closers z (coreWith z fs c) = closers z c \<and> (closersOk z c \<longrightarrow> closersOk z (coreWith z fs c)) \<and> extFree (coreWith z fs c)"
    by (auto simp: list_all_iff)
  then show ?case by (simp add: list_all_iff comp_def cong: map_cong)
qed auto

lemma closers_withOpts:
  "extFree c \<Longrightarrow> closers z (withOpts z opts c) = closers z c \<and> (closersOk z c \<longrightarrow> closersOk z (withOpts z opts c)) \<and> extFree (withOpts z opts c)"
  by (induction z opts c rule: withOpts.induct) (simp_all add: closers_with)

text \<open>The loggers derived from a logger.\<close>

inductive derived :: "('x, 'l, 'w) zap \<Rightarrow> 'l Logger \<Rightarrow> 'l Logger \<Rightarrow> bool" for z l where
  base: "derived z l l"
| with1: "derived z l m \<Longrightarrow> derived z l (LoggerWith z fs m)"
| named: "derived z l m \<Longrightarrow> derived z l (LoggerNamed z nm m)"

lemma derived_closers:
  assumes "derived z l m" and "zap_ok z" and "extFree (LoggerCore z l)" and "closersOk z (LoggerCore z l)"
  shows "closers z (LoggerCore z m) = closers z (LoggerCore z l) \<and> closersOk z (LoggerCore z m) \<and> extFree (LoggerCore z m)"
  using assms(1)
proof induction
  case (with1 m fs)
  then show ?case using closers_with [of "LoggerCore z m" z fs] zap_okD(5) [OF assms(2)]
    by (simp add: LoggerCore_def LoggerWith_def)
next
  case (named m nm)
  then show ?case using zap_okD(4) [OF assms(2)] by (simp add: LoggerCore_def LoggerNamed_def)
qed (use assms in auto)

lemma LoggerClose_closers:
  "closersOk z (LoggerCore z l) \<Longrightarrow>
     (\<lambda>(s', err). (s', err = None)) (LoggerClose z l s) = closeSeq z (closers z (LoggerCore z l)) s"
  using close_closers(1) [of z "LoggerCore z l" s] not_isCloser [of z "LoggerCore z l"]
  by (auto simp: LoggerClose_def LoggerCore_def)

text \<open>A configuration whose output is a file.\<close>

definition filesOnly :: "LogConfig \<Rightarrow> bool" where
  "filesOnly cfg \<longleftrightarrow> ToFiles cfg \<and> \<not> toObserver cfg \<and> \<not> toIODiscard cfg \<and> \<not> ToStderr cfg \<and> \<not> ToSyslog cfg \<and> \<not> ToEventLog cfg"

lemma createLogOutput_files:
  assumes "filesOnly cfg" and "createLogOutput srt now z cfg cell s = (s', Ok c)"
  shows "\<exists>r d. rots s' = rots s @ [r] \<and> c = Closer d (Inr (length (rots s)))"
  using assms by (auto simp: createLogOutput_def filesOnly_def makeFileOutput_def split: outcome.splits)

lemma createSink_files:
  assumes "filesOnly cfg" and "createSink srt now z cfg [] s = (s', Ok (sink, cell, obs, sels))"
  shows "\<exists>r d. rots s' = rots s @ [r] \<and> sink = Multi [selectiveWrapper (Closer d (Inr (length (rots s)))) sels]"
proof -
  let ?i = "length (cells s)" and ?s = "s\<lparr>cells := cells s @ [ZapLevel (CLevel cfg)]\<rparr>"
  have o: "\<not> toObserver cfg" using assms(1) by (simp add: filesOnly_def)
  obtain s2 r where n: "createLogOutput srt now z cfg ?i ?s = (s2, r)" by force
  obtain c where r: "r = Ok c" using assms(2) o n
    by (cases r) (auto simp: createSink_def newAtomicLevelAt_def)
  have "sink = Multi [selectiveWrapper c sels] \<and> rots s' = rots s2"
    using assms(2) o n r
    by (auto simp: createSink_def newAtomicLevelAt_def selectiveWrapper_def [of _ "[]"] Let_def split: if_splits)
  then show ?thesis using createLogOutput_files [OF assms(1) n [unfolded r]] by auto
qed

text \<open>
  C32. With both the default and the typed output writing to files, configuring creates one file
  rotator for each, and closing any logger derived from the returned one by adding fields and
  names, at any later time, closes exactly these two rotators, reports no error and leaves every other
  rotator as it is.\<close>

theorem LoggerClose_rotators:
  assumes "zap_ok z" and "filesOnly cfg" and "filesOnly typedCfg"
    and "ConfigureWithTypedOutputLocal srt now z cfg typedCfg key val [] p = (p', Ok lg)"
    and "derived z lg l" and "length (rots s) \<ge> length (rots (st p'))"
  shows "\<exists>n. length (rots (st p)) = n \<and> length (rots (st p')) = n + 2 \<and>
    LoggerClose z l s =
      (s\<lparr>rots := (rots s)[n := Rotator.Close (rots s ! n), n + 1 := Rotator.Close (rots s ! (n + 1))]\<rparr>, None)"
proof -
  let ?n = "length (rots (st p))"
  obtain s1 sink cell obs sels where s1: "createSink srt now z cfg [] (st p) = (s1, Ok (sink, cell, obs, sels))"
    using assms(4) by (auto simp: ConfigureWithTypedOutputLocal_def Let_def split: prod.splits outcome.splits)
  obtain r1 d where a: "rots s1 = rots (st p) @ [r1]" "sink = Multi [selectiveWrapper (Closer d (Inr ?n)) sels]"
    using createSink_files [OF assms(2) s1] by blast
  obtain s2 r where t: "createLogOutput srt now z typedCfg cell s1 = (s2, r)" by force
  obtain typed where r: "r = Ok typed"
    using assms(4) s1 t by (cases r) (auto simp: ConfigureWithTypedOutputLocal_def typedSink_def)
  obtain r2 d2 where b: "rots s2 = rots s1 @ [r2]" "typed = Closer d2 (Inr (?n + 1))"
    using createLogOutput_files [OF assms(3) t [unfolded r]] a(1) by auto
  let ?sink = "selectiveWrapper (Typed key val typed sink) sels"
  have p': "p' = storeRoot z cfg ?sink cell obs sels (p\<lparr>st := s2\<rparr>)"
    and lg: "lg = newLogger z (zNew z ?sink (makeOptions cfg)) sels []"
    using assms(4) s1 t r by (simp_all add: ConfigureWithTypedOutputLocal_def typedSink_def)
  have len: "length (rots (st p')) = ?n + 2"
    using a b p' storeLogger_frame [OF assms(1)] by (simp add: storeRoot_def Let_def frame_def)
  have core: "LoggerCore z lg = withOpts z (makeOptions cfg) ?sink"
    using lg zap_okD(1-3) [OF assms(1)] by (simp add: LoggerCore_def newLogger_def)
  have cl: "closers z (LoggerCore z lg) = [CRotator ?n, CRotator (?n + 1)] \<and> closersOk z (LoggerCore z lg) \<and> extFree (LoggerCore z lg)"
    using closers_withOpts [of ?sink z "makeOptions cfg"] a(2) b(2) by (simp only: core) simp
  then have "closers z (LoggerCore z l) = [CRotator ?n, CRotator (?n + 1)] \<and> closersOk z (LoggerCore z l)"
    using derived_closers [OF assms(5,1)] by simp
  then have "(\<lambda>(s', err). (s', err = None)) (LoggerClose z l s) =
      closeSeq z [CRotator ?n, CRotator (?n + 1)] s" using LoggerClose_closers by metis
  then show ?thesis using len assms(6)
    by (cases "LoggerClose z l s") (simp add: closeRotator_def)
qed


section \<open>Syslog\<close>

lemma replaceTabs_length [simp]: "length (replaceTabs n k b) = length b"
  by (induction n k b rule: replaceTabs.induct) auto

lemma replaceTabs_nth:
  "0 \<le> k \<Longrightarrow> k < n \<Longrightarrow> i < length b \<Longrightarrow>
     replaceTabs n k b ! i =
       (if b ! i = CHR 0x09 \<and> k + int (count_list (take i b) (CHR 0x09)) < n then CHR '' '' else b ! i)"
proof (induction n k b arbitrary: i rule: replaceTabs.induct)
  case (2 n k v b)
  then show ?case by (cases i) auto
qed simp

text \<open>
  An entry that can be encoded is written to syslog as one message with the severity of its level:
  the encoding, in which the first four tabs are blanks and nothing else is changed. The message does
  not depend on the fields added with \<open>With\<close>: only the fields of the call are encoded, the context of
  the logger never reaches syslog.\<close>

theorem syslog_message:
  assumes "encodeEntry z enc e fs = Inl buf" and "ELevel e \<in> {-1..5}"
  shows "\<exists>msg sev. (\<forall>ctx. coreWrite z e fs (coreWith z ctx (SyslogC cell enc w fs0)) s = syslogWrite z w sev msg s) \<and>
    length msg = length buf \<and>
    (\<forall>i < length buf. msg ! i =
       (if buf ! i = CHR 0x09 \<and> count_list (take i buf) (CHR 0x09) < 4 then CHR '' '' else buf ! i))"
proof -
  let ?msg = "replaceTabsWithSpaces buf 4"
  have "ELevel e \<in> {-1, 0, 1, 2, 3, 4, 5}" using assms(2) by auto
  then have "\<exists>sev. \<forall>ctx. coreWrite z e fs (coreWith z ctx (SyslogC cell enc w fs0)) s = syslogWrite z w sev ?msg s"
    using assms(1) by (auto simp: syslogCoreWrite_def)
  moreover have "\<forall>i < length buf. ?msg ! i =
       (if buf ! i = CHR 0x09 \<and> count_list (take i buf) (CHR 0x09) < 4 then CHR '' '' else buf ! i)"
    using replaceTabs_nth [of 0 4 _ buf] by (auto simp: replaceTabsWithSpaces_def)
  ultimately show ?thesis by (metis replaceTabsWithSpaces_def replaceTabs_length)
qed

section \<open>An instance\<close>

text \<open>Cores that hold a level cell, where they write and the fields added, or that log nothing; a logger is its core.\<close>

datatype tcore = TCell nat "sinkOut option" "field list" | TNop

fun toyWrap :: "tcore core \<Rightarrow> tcore" where
  "toyWrap (Ext x) = x"
| "toyWrap (SyslogC i enc w fs) = TCell i None fs"
| "toyWrap _ = TNop"

fun toyEnabled :: "tcore \<Rightarrow> 'w lstate \<Rightarrow> int \<Rightarrow> bool" where
  "toyEnabled (TCell i ws fs) s l = cellEnabled s i l"
| "toyEnabled TNop s l = False"

fun toyWith :: "tcore \<Rightarrow> field list \<Rightarrow> tcore" where
  "toyWith (TCell i ws fs) fs' = TCell i ws (fs @ fs')"
| "toyWith TNop fs' = TNop"

definition toy0 :: "(tcore, tcore core, unit) zap" where
  "toy0 = \<lparr>xEnabled = toyEnabled, xWith = toyWith, xAdds = (\<lambda>x s e. toyEnabled x s (ELevel e)),
     xWrite = (\<lambda>x e fs s. (s, None)), xSync = (\<lambda>x s. (s, None)), xIsCloser = (\<lambda>x. False), xClose = (\<lambda>x s. (s, None)),
     wrapCore = toyWrap, newZapCore = (\<lambda>enc ws i. TCell i (Some ws) []), nopCore = TNop, newObserver = (\<lambda>i s. (s, TCell i None [], 0)),
     ecsCompatible = id, encodeEntry = (\<lambda>enc e fs. Inl (Message e)), syslogNew = (\<lambda>s. (s, Inl 0)),
     syslogWrite = (\<lambda>w sev m s. (s, None)), syslogClose = (\<lambda>w s. (s, None)), zapAny = (\<lambda>k v. \<lparr>Key = k, FString = v\<rparr>),
     zNew = (\<lambda>c opts. c), zNop = Ext TNop, zWithOptions = (\<lambda>l opts. l), zNamed = (\<lambda>l nm. l), zWith = (\<lambda>l fs. l),
     zCore = id, zCheck = (\<lambda>l s lvl msg. []), zLog = (\<lambda>l lvl msg s. s), zSync = (\<lambda>l s. (s, None))\<rparr>"

definition toy_zap :: "(tcore, tcore core, unit) zap" where
  "toy_zap = toy0\<lparr>zNew := \<lambda>c opts. withOpts toy0 opts c, zWith := \<lambda>l fs. coreWith toy0 fs l\<rparr>"

lemma coreWith_toy: "coreWith toy_zap fs c = coreWith toy0 fs c"
  by (induction c) (auto simp: toy_zap_def)

lemma withOpts_toy: "withOpts toy_zap opts c = withOpts toy0 opts c"
  by (induction toy_zap opts c rule: withOpts.induct) (simp_all add: coreWith_toy)

lemma toy_wrap_governed:
  "plainCore c \<Longrightarrow> (\<And>s l. coreEnabled toy_zap s c l = cellEnabled s i l) \<Longrightarrow> governed toy_zap (toyWrap c) i"
  by (cases c) (simp_all add: governed_def toy_zap_def toy0_def)

lemma toy_with_governed: "governed toy_zap x i \<Longrightarrow> governed toy_zap (toyWith x fs) i"
  by (cases x) (simp_all add: governed_def toy_zap_def toy0_def)

lemma toy_cell_governed: "governed toy_zap (TCell i ws fs) i"
  by (simp add: governed_def toy_zap_def toy0_def)

lemma toy_zap_ok: "zap_ok toy_zap"
proof -
  have f: "zCore toy_zap = id" "zNew toy_zap = (\<lambda>c opts. withOpts toy0 opts c)" "zWithOptions toy_zap = (\<lambda>l opts. l)"
    "zNamed toy_zap = (\<lambda>l nm. l)" "zWith toy_zap = (\<lambda>l fs. coreWith toy0 fs l)" "newZapCore toy_zap = (\<lambda>enc ws i. TCell i (Some ws) [])"
    "wrapCore toy_zap = toyWrap" "newObserver toy_zap = (\<lambda>i s. (s, TCell i None [], 0))" "xWith toy_zap = toyWith"
    "xIsCloser toy_zap = (\<lambda>x. False)" "syslogNew toy_zap = (\<lambda>s. (s, Inl 0))" "zSync toy_zap = (\<lambda>l s. (s, None))"
    by (simp_all add: toy_zap_def toy0_def)
  show ?thesis unfolding zap_ok_def f
    using coreWith_toy withOpts_toy toy_wrap_governed toy_with_governed toy_cell_governed
    by (auto simp: frame_def)
qed

definition toy_pkg :: "(tcore core, unit) pkg" where
  "toy_pkg = \<lparr>st = \<lparr>cells = [], rots = [], fsys = [], paths = New, golog = True, world = ()\<rparr>, log1 = None\<rparr>"

definition noon :: tm where
  "noon = \<lparr>year = 2024, month = 5, day = 2, hour = 12, minute = 0, second = 0, isoWeek = (2024, 18), unix = 1714651200\<rparr>"

definition toy_cfg :: LogConfig where
  "toy_cfg = zeroConfig\<lparr>CLevel := WarnLevel, ToStderr := True\<rparr>"

definition toy_files :: "string \<Rightarrow> LogConfig" where
  "toy_files nm = (DefaultConfig DefaultEnvironment)\<lparr>Beat := nm\<rparr>"

lemma toy_outputs:
  "snd (ConfigureWithOutputs (\<lambda>_ fs. fs) noon toy_zap toy_cfg [] toy_pkg) = Ok ()"
  "snd (ConfigureWithTypedOutput (\<lambda>_ fs. fs) noon toy_zap toy_cfg toy_cfg ''log.type'' ''event'' [Ext TNop] toy_pkg) = Ok ()"
  by (simp_all add: ConfigureWithOutputs_def ConfigureWithTypedOutput_def createSink_def newAtomicLevelAt_def toy_pkg_def toy_cfg_def
      zeroConfig_def createLogOutput_def makeStderrOutput_def debugSelected_def LevelEnabled_def level_defs typedSink_def)

lemma NewFileRotator_empty:
  "maxSizeBytesS r \<noteq> 0 \<Longrightarrow> maxBackupsS r \<le> MaxBackupsLimit \<Longrightarrow> permissionsS r \<le> ModePerm \<Longrightarrow> intervalS r = 0 \<Longrightarrow>
     fold (\<lambda>opt r. opt r) opts defaultSettings = r \<Longrightarrow> \<exists>d. NewFileRotator srt [] now fn opts = Ok d"
  by (simp add: NewFileRotator_def newDateRotater_def globFiles_def Let_def)

lemma toy_file_output:
  "fsys s = [] \<Longrightarrow> \<exists>r. makeFileOutput srt now z (toy_files nm) i s =
     (s\<lparr>rots := rots s @ [r]\<rparr>, Ok (Closer (newCore z (buildEncoder (ecsCompatible z) (toy_files nm)) (RotatorOut (length (rots s))) i)
        (Inr (length (rots s)))))"
proof -
  assume e: "fsys s = []"
  have "\<exists>d. NewFileRotator srt [] now fn (rotatorOptions (Files (toy_files nm))) = Ok d" for fn
    by (rule NewFileRotator_empty [OF _ _ _ _ refl])
      (simp_all add: rotatorOptions_def toy_files_def DefaultConfig_def zeroFiles_def MaxSizeBytes_def MaxBackups_def
        Permissions_def Interval_def RotateOnStartup_def RedirectStderr_def MaxBackupsLimit_def ModePerm_def)
  moreover have "\<exists>f. Resolve (paths s) FLogs (Join [FPath (Files (toy_files nm)), LogFilename (toy_files nm)]) = Ok f"
    by (simp add: Resolve_def fileType_defs)
  ultimately obtain f d where "Resolve (paths s) FLogs (Join [FPath (Files (toy_files nm)), LogFilename (toy_files nm)]) = Ok f"
    "NewFileRotator srt [] now f (rotatorOptions (Files (toy_files nm))) = Ok d" by blast
  then show ?thesis using e by (auto simp: makeFileOutput_def)
qed

lemma toy_output:
  "hasOutput toy_cfg" "\<not> toObserver toy_cfg" "withOpts toy_zap (makeOptions toy_cfg) (Ext (outLeaf toy_zap toy_cfg i s)) = Ext (TCell i (Some Stderr) [])"
  by (simp_all add: hasOutput_def destOf_def outLeaf_def toy_cfg_def zeroConfig_def makeOptions_def toy_zap_def toy0_def)

theorem ConfigureWithOutputs_routing_witness:
  "\<exists>p' i. ConfigureWithOutputs (\<lambda>_ fs. fs) noon toy_zap toy_cfg [] toy_pkg = (p', Ok ()) \<and> GetLevel p' = 1 \<and>
     targets toy_zap (st p') \<lparr>ELevel = 2, LoggerName = [], Message = []\<rparr> [] (zCore toy_zap (rootLogger (loadLogger p'))) =
       [Ext (TCell i (Some Stderr) [])] \<and>
     targets toy_zap (st p') \<lparr>ELevel = 0, LoggerName = [], Message = []\<rparr> [] (zCore toy_zap (rootLogger (loadLogger p'))) = []"
proof -
  obtain p' where p': "ConfigureWithOutputs (\<lambda>_ fs. fs) noon toy_zap toy_cfg [] toy_pkg = (p', Ok ())"
    using toy_outputs(1) by (metis prod.collapse)
  have "ZapLevel (CLevel toy_cfg) = 1" by (simp add: toy_cfg_def ZapLevel_def zapLevels_def level_defs)
  then show ?thesis
    using ConfigureWithOutputs_routing [OF toy_zap_ok toy_output(1) p'] p' by (force simp: toy_output(3) GetLevel_def passes_def)
qed


lemma toy_files_configured:
  "\<exists>p' lg. ConfigureWithTypedOutputLocal srt now toy_zap (toy_files ''a'') (toy_files ''b'') ''log.type'' ''event'' [] toy_pkg = (p', Ok lg)"
proof -
  have o: "createLogOutput srt now toy_zap (toy_files nm) = makeFileOutput srt now toy_zap (toy_files nm)" for nm
    by (rule ext)+ (simp add: createLogOutput_def toy_files_def DefaultConfig_def zeroConfig_def)
  have c: "\<not> toObserver (toy_files ''a'')" "\<not> debugSelected (toy_files ''a'')" "ZapLevel (CLevel (toy_files ''a'')) = 0"
    by (simp_all add: toy_files_def DefaultConfig_def zeroConfig_def ZapLevel_def zapLevels_def level_defs defaultLevel_def debugSelected_def)
  have "\<exists>s' c cell obs sels. createSink srt now toy_zap (toy_files ''a'') [] (st toy_pkg) = (s', Ok (c, cell, obs, sels)) \<and> fsys s' = []"
    using toy_file_output [of "(st toy_pkg)\<lparr>cells := [0]\<rparr>" srt now toy_zap "''a''" 0]
    by (auto simp: createSink_def newAtomicLevelAt_def o c toy_pkg_def Let_def)
  then obtain s' c cell obs sels where
    "createSink srt now toy_zap (toy_files ''a'') [] (st toy_pkg) = (s', Ok (c, cell, obs, sels))" "fsys s' = []" by blast
  then show ?thesis using toy_file_output [of s' srt now toy_zap "''b''" cell]
    by (auto simp: ConfigureWithTypedOutputLocal_def typedSink_def o)
qed

theorem LoggerClose_rotators_witness:
  "\<exists>p' lg. ConfigureWithTypedOutputLocal (\<lambda>_ fs. fs) noon toy_zap (toy_files ''a'') (toy_files ''b'') ''log.type'' ''event'' [] toy_pkg = (p', Ok lg) \<and>
     LoggerClose toy_zap (LoggerNamed toy_zap ''x'' lg) (st p') =
       ((st p')\<lparr>rots := [Rotator.Close (rots (st p') ! 0), Rotator.Close (rots (st p') ! 1)]\<rparr>, None)"
proof -
  obtain p' lg where p': "ConfigureWithTypedOutputLocal (\<lambda>_ fs. fs) noon toy_zap (toy_files ''a'') (toy_files ''b'')
      ''log.type'' ''event'' [] toy_pkg = (p', Ok lg)" using toy_files_configured by blast
  have f: "filesOnly (toy_files nm)" for nm by (simp add: filesOnly_def toy_files_def DefaultConfig_def zeroConfig_def)
  have d: "derived toy_zap lg (LoggerNamed toy_zap ''x'' lg)" by (intro derived.named derived.base)
  have n: "length (rots (st toy_pkg)) = 0" by (simp add: toy_pkg_def)
  obtain a b where "rots (st p') = [a, b]"
    using LoggerClose_rotators [OF toy_zap_ok f f p' d order_refl] n by (auto simp: length_Suc_conv numeral_2_eq_2)
  then show ?thesis using LoggerClose_rotators [OF toy_zap_ok f f p' d order_refl] n p' by auto
qed

theorem syslog_message_witness:
  "\<exists>msg sev. (\<forall>ctx. coreWrite toy_zap \<lparr>ELevel = 1, LoggerName = [], Message = [CHR 0x09, CHR ''a'']\<rparr> []
       (coreWith toy_zap ctx (SyslogC 0 (JSONEncoder baseEncodingConfig) 0 [])) (st toy_pkg) =
       syslogWrite toy_zap 0 sev msg (st toy_pkg)) \<and> length msg = 2 \<and> msg ! 0 = CHR '' ''"
proof -
  let ?e = "\<lparr>ELevel = 1, LoggerName = [], Message = [CHR 0x09, CHR ''a'']\<rparr>"
  have "encodeEntry toy_zap (JSONEncoder baseEncodingConfig) ?e [] = Inl [CHR 0x09, CHR ''a'']" "ELevel ?e \<in> {-1..5}"
    by (simp_all add: toy_zap_def toy0_def)
  from syslog_message [OF this, of 0 0 "[]" "st toy_pkg"] show ?thesis by fastforce
qed

text \<open>A zap with cores that append what they are to the world, and one that fails.\<close>

definition logging_zap :: "(string, string core, string list) zap" where
  "logging_zap = \<lparr>xEnabled = (\<lambda>_ _ _. True), xWith = (\<lambda>x _. x), xAdds = (\<lambda>_ _ _. True),
     xWrite = (\<lambda>x e fs s. (s\<lparr>world := world s @ [x]\<rparr>, if x = ''fails'' then Some (Msg ''no'') else None)), xSync = (\<lambda>x s. (s, None)),
     xIsCloser = (\<lambda>x. False), xClose = (\<lambda>x s. (s, None)), wrapCore = (\<lambda>_. []), newZapCore = (\<lambda>_ _ _. []), nopCore = [],
     newObserver = (\<lambda>i s. (s, [], 0)), ecsCompatible = id, encodeEntry = (\<lambda>enc e fs. Inl (Message e)), syslogNew = (\<lambda>s. (s, Inl 0)),
     syslogWrite = (\<lambda>w sev m s. (s, None)), syslogClose = (\<lambda>w s. (s, None)), zapAny = (\<lambda>k v. \<lparr>Key = k, FString = v\<rparr>),
     zNew = (\<lambda>c opts. c), zNop = Ext [], zWithOptions = (\<lambda>l opts. l), zNamed = (\<lambda>l nm. l), zWith = (\<lambda>l fs. l),
     zCore = id, zCheck = (\<lambda>l s lvl msg. []), zLog = (\<lambda>l lvl msg s. s), zSync = (\<lambda>l s. (s, None))\<rparr>"

text \<open>An entry whose first field of the key has the value, and one whose second has it.\<close>

theorem coreWrite_refines_witness:
  "\<exists>s1 s2. coreWrite logging_zap \<lparr>ELevel = 0, LoggerName = [], Message = []\<rparr> [\<lparr>Key = ''k'', FString = ''v''\<rparr>]
       (Multi [Ext ''fails'', Typed ''k'' ''v'' (Ext ''typed'') (Ext ''default'')])
       \<lparr>cells = [], rots = [], fsys = [], paths = New, golog = True, world = []\<rparr> = (s1, Some (JoinErr [Msg ''no''])) \<and> world s1 = [''fails'', ''typed''] \<and>
     coreWrite logging_zap \<lparr>ELevel = 0, LoggerName = [], Message = []\<rparr> [\<lparr>Key = ''k'', FString = ''w''\<rparr>, \<lparr>Key = ''k'', FString = ''v''\<rparr>]
       (Multi [Ext ''fails'', Typed ''k'' ''v'' (Ext ''typed'') (Ext ''default'')])
       \<lparr>cells = [], rots = [], fsys = [], paths = New, golog = True, world = []\<rparr> = (s2, Some (JoinErr [Msg ''no''])) \<and> world s2 = [''fails'', ''default'']"
proof -
  let ?e = "\<lparr>ELevel = 0, LoggerName = [], Message = []\<rparr>" and ?c = "Multi [Ext ''fails'', Typed ''k'' ''v'' (Ext ''typed'') (Ext ''default'')]"
    and ?s = "\<lparr>cells = [], rots = [], fsys = [], paths = New, golog = True, world = []\<rparr> :: string list lstate"
    and ?fs = "[\<lparr>Key = ''k'', FString = ''v''\<rparr>]" and ?gs = "[\<lparr>Key = ''k'', FString = ''w''\<rparr>, \<lparr>Key = ''k'', FString = ''v''\<rparr>]"
  obtain s1 s2 where c: "coreWrite logging_zap ?e ?fs ?c ?s = (s1, Some (JoinErr [Msg ''no'']))"
      "coreWrite logging_zap ?e ?gs ?c ?s = (s2, Some (JoinErr [Msg ''no'']))"
    by (simp add: logging_zap_def errorsJoin_def)
  have w: "writeAll logging_zap ?e ?fs (writeLeaves ?fs ?c) ?s = (?s\<lparr>world := [''fails'', ''typed'']\<rparr>, [Some (Msg ''no''), None])"
      "writeAll logging_zap ?e ?gs (writeLeaves ?gs ?c) ?s = (?s\<lparr>world := [''fails'', ''default'']\<rparr>, [Some (Msg ''no''), None])"
    by (simp_all add: logging_zap_def)
  show ?thesis using coreWrite_refines [OF c(1) w(1)] coreWrite_refines [OF c(2) w(2)] c by auto
qed

end
