(* ===== verification/Filewatcher.thy ===== *)
theory Filewatcher
  imports Go_Prelude
begin

unbundle bit_operations_syntax

text \<open>
  The package \<open>filewatcher\<close> (src/filewatcher/filewatcher.go): scanning a list of paths for changes by
  modification times and by a hash of the paths that exist. The hash is FNV-1 of \<open>hash/fnv\<close> on 64-bit
  words, with wrap-around. Times are nanoseconds since the zero time; the clock and the answers of
  \<open>os.Stat\<close> are arguments.
\<close>

section \<open>The hash\<close>

definition fnvOffset64 :: "64 word" where "fnvOffset64 = 14695981039346656037"
definition fnvPrime64 :: "64 word" where "fnvPrime64 = 1099511628211"

text \<open>\<open>Write\<close> of \<open>fnv.New64\<close>, which never fails.\<close>

definition fnvByte :: "char \<Rightarrow> 64 word \<Rightarrow> 64 word" where
  "fnvByte c h = (h * fnvPrime64) XOR of_nat (of_char c)"

definition fnvWrite :: "string \<Rightarrow> 64 word \<Rightarrow> 64 word" where
  "fnvWrite bs h = fold fnvByte bs h"

definition littleEndian :: "64 word \<Rightarrow> string" where
  "littleEndian u = map (\<lambda>i. char_of (unat (drop_bit (8 * i) u AND 255))) [0..<8]"

definition hashString :: "string \<Rightarrow> 64 word" where
  "hashString s = fnvWrite s fnvOffset64"

definition hash :: "string list \<Rightarrow> 64 word" where
  "hash files =
     fold (\<lambda>f u. fnvWrite (littleEndian (hashString f)) (fnvWrite (littleEndian u) fnvOffset64)) files 0"

section \<open>The watcher\<close>

definition oneSecond :: int where "oneSecond = 1000000000"

definition Truncate :: "int \<Rightarrow> int \<Rightarrow> int" where
  "Truncate t d = t - t mod d"

record FileWatcher =
  wfiles :: "string list"
  lastScan :: int
  lastHash :: "64 word"

definition NewWatcher :: "string list \<Rightarrow> FileWatcher" where
  "NewWatcher files = \<lparr>wfiles = files, lastScan = 0, lastHash = 0\<rparr>"

text \<open>The loop over the paths: whether one was changed recently, and those that exist.\<close>

fun scanFiles :: "(string \<Rightarrow> int option) \<Rightarrow> int \<Rightarrow> string list \<Rightarrow> bool \<times> string list" where
  "scanFiles stat limit [] = (False, [])"
| "scanFiles stat limit (path # ps) =
     (case stat path of
        None \<Rightarrow> scanFiles stat limit ps
      | Some modTime \<Rightarrow>
          (let (updated, files) = scanFiles stat limit ps in (modTime > limit \<or> updated, path # files)))"

definition Scan :: "int \<Rightarrow> (string \<Rightarrow> int option) \<Rightarrow> FileWatcher \<Rightarrow> FileWatcher \<times> string list \<times> bool" where
  "Scan now stat f =
     (let (updatedFiles, files) = scanFiles stat (Truncate (lastScan f - oneSecond) oneSecond) (wfiles f);
          h = hash files in
      (f\<lparr>lastScan := now, lastHash := h\<rparr>, files, \<not> (\<not> updatedFiles \<and> h = lastHash f)))"

section \<open>Changes are reported\<close>

lemma scanFiles_spec:
  "scanFiles stat limit ps =
     (\<exists>p \<in> set ps. \<exists>m. stat p = Some m \<and> m > limit, [p \<leftarrow> ps. stat p \<noteq> None])"
  by (induction ps) (auto split: option.splits)

lemma Truncate_le: "0 < d \<Longrightarrow> Truncate t d \<le> t" and Truncate_gt: "0 < d \<Longrightarrow> t - d < Truncate t d"
  by (simp_all add: Truncate_def algebra_simps)

lemma Truncate_mono: "0 < d \<Longrightarrow> a \<le> b \<Longrightarrow> Truncate a d \<le> Truncate b d"
  by (metis Truncate_def minus_mod_eq_mult_div mult_le_cancel_left_pos zdiv_mono1)

lemma Truncate_minus: "Truncate (t - d) d = Truncate t d - d"
  by (simp add: Truncate_def)

text \<open>
  Two scans in a row: a file that is changed at or after the time of the first scan, its
  modification time being recorded in full seconds, is reported by the second, and so is a
  change of the set of existing files unless the hashes of the two lists collide. The second scan
  reports no change only if no modification time is later than the full second before that of the
  first scan, and it does report none if then the same files exist. The files returned are those that
  exist, in the order of the list.\<close>

theorem Scan_twice:
  assumes "Scan t0 stat0 f = (f1, files0, ch0)" and "Scan t1 stat1 f1 = (f2, files1, ch1)"
  shows "files1 = [p \<leftarrow> wfiles f. stat1 p \<noteq> None] \<and>
    (\<forall>p t. p \<in> set (wfiles f) \<and> t0 \<le> t \<and> stat1 p = Some (Truncate t oneSecond) \<longrightarrow> ch1) \<and>
    (hash files0 \<noteq> hash files1 \<longrightarrow> ch1) \<and>
    (\<not> ch1 \<longrightarrow> (\<forall>p m. p \<in> set (wfiles f) \<and> stat1 p = Some m \<longrightarrow> m \<le> Truncate t0 oneSecond - oneSecond)) \<and>
    ((\<forall>p \<in> set (wfiles f). (stat0 p = None \<longleftrightarrow> stat1 p = None) \<and> (\<forall>m. stat1 p = Some m \<longrightarrow> m \<le> Truncate t0 oneSecond - oneSecond)) \<longrightarrow>
       \<not> ch1)"
proof -
  have f1: "f1 = f\<lparr>lastScan := t0, lastHash := hash files0\<rparr>" "files0 = [p \<leftarrow> wfiles f. stat0 p \<noteq> None]"
    using assms(1) by (auto simp: Scan_def scanFiles_spec Let_def)
  have ch: "ch1 \<longleftrightarrow> (\<exists>p \<in> set (wfiles f). \<exists>m. stat1 p = Some m \<and> m > Truncate t0 oneSecond - oneSecond) \<or> hash files1 \<noteq> hash files0"
    and fs: "files1 = [p \<leftarrow> wfiles f. stat1 p \<noteq> None]"
    using assms(2) by (auto simp: Scan_def scanFiles_spec f1(1) Let_def Truncate_minus)
  have "Truncate t0 oneSecond - oneSecond < Truncate t oneSecond" if "t0 \<le> t" for t
    using Truncate_mono [OF _ that, of oneSecond] by (simp add: oneSecond_def)
  moreover have "files0 = files1" if "\<forall>p \<in> set (wfiles f). (stat0 p = None \<longleftrightarrow> stat1 p = None)"
    using that unfolding f1(2) fs by (intro filter_cong) auto
  ultimately show ?thesis using ch fs by fastforce
qed

text \<open>The first scan reports a file that exists.\<close>

lemma Scan_first:
  "p \<in> set files \<Longrightarrow> stat p = Some m \<Longrightarrow> 0 \<le> m \<Longrightarrow> snd (snd (Scan now stat (NewWatcher files)))"
  by (fastforce simp: Scan_def NewWatcher_def scanFiles_spec Let_def Truncate_def oneSecond_def)

theorem Scan_twice_witness:
  "snd (snd (Scan (7 * oneSecond) (\<lambda>p. Some (6 * oneSecond)) (fst (Scan (6 * oneSecond + 5) (\<lambda>p. Some oneSecond) (NewWatcher [''a'']))))) \<and>
   \<not> snd (snd (Scan (7 * oneSecond) (\<lambda>p. Some oneSecond) (fst (Scan (6 * oneSecond + 5) (\<lambda>p. Some oneSecond) (NewWatcher [''a''])))))"
proof -
  let ?s0 = "Scan (6 * oneSecond + 5) (\<lambda>p. Some oneSecond) (NewWatcher [''a''])"
  obtain f1 files0 ch0 where s0: "?s0 = (f1, files0, ch0)" by (metis prod_cases3)
  obtain f2 files1 ch1 where s1: "Scan (7 * oneSecond) (\<lambda>p. Some (6 * oneSecond)) f1 = (f2, files1, ch1)" by (metis prod_cases3)
  obtain f3 files2 ch2 where s2: "Scan (7 * oneSecond) (\<lambda>p. Some oneSecond) f1 = (f3, files2, ch2)" by (metis prod_cases3)
  have t: "Truncate (6 * oneSecond + 5) oneSecond = 6 * oneSecond" by (simp add: Truncate_def oneSecond_def)
  have ch1 using Scan_twice [OF s0 s1] t by (auto simp: NewWatcher_def)
  moreover have "\<not> ch2" using Scan_twice [OF s0 s2] t by (simp add: NewWatcher_def oneSecond_def)
  ultimately show ?thesis by (simp add: s0 s1 s2)
qed

end
