(* ===== verification/Adapter.thy ===== *)
theory Adapter
  imports Monitoring_Laws Stringset Go_Utf8
begin

text \<open>
  The adapter of go-metrics to the registries (src/monitoring/adapter): the filters of filters.go, the
  registry of go-metrics.go over a monitoring registry and a second registry of go-metrics, and the
  wrappers of go-metrics-wrapper.go. The package go-metrics is an argument: its metrics are a
  type \<open>'g\<close>, its registries a type \<open>'s\<close>, with the operations used in the record \<open>gometrics\<close>. The
  lower- and upper-case forms of a name outside ASCII are arguments.
\<close>

section \<open>Metrics of go-metrics\<close>

datatype gkind =
    StandardCounter | StandardEWMA | StandardGauge | StandardGaugeFloat64 | StandardHealthcheck
  | StandardHistogram | StandardMeter | StandardTimer | FunctionalGauge | FunctionalGaugeFloat64
  | ClearOnVisit | OtherKind

text \<open>
  \<open>gkindOf\<close> is the dynamic type, \<open>gnil\<close> the inactive metric of a kind, \<open>gcall\<close> the result of calling a
  metric that is a function. \<open>gint\<close> and \<open>gfloat\<close> read a value; the histogram readings are the count,
  minimum, maximum, mean and deviation, and percentiles of a snapshot.
\<close>

record ('g, 's) gometrics =
  gkindOf :: "'g \<Rightarrow> gkind"
  gnil :: "gkind \<Rightarrow> 'g"
  gcall :: "'g \<Rightarrow> 'g option"
  gint :: "'g \<Rightarrow> int"
  gfloat :: "'g \<Rightarrow> 64 word"
  gcount :: "'g \<Rightarrow> int"
  gmin :: "'g \<Rightarrow> int"
  gmax :: "'g \<Rightarrow> int"
  gmean :: "'g \<Rightarrow> 64 word"
  gstddev :: "'g \<Rightarrow> 64 word"
  gpercentiles :: "'g \<Rightarrow> nat list \<Rightarrow> 64 word list"
  sNew :: 's
  sGet :: "'s \<Rightarrow> string \<Rightarrow> 'g option"
  sGetOrRegister :: "'s \<Rightarrow> string \<Rightarrow> 'g \<Rightarrow> 's \<times> 'g"
  sUnregister :: "'s \<Rightarrow> string \<Rightarrow> 's"
  sUnregisterAll :: "'s \<Rightarrow> 's"

section \<open>Filters\<close>

datatype action = actIgnore | actAccept
datatype kind = kndFind | kndAdd | kndRemove

record 'g fstate =
  fkind :: kind
  faction :: action
  fmode :: Mode
  fname :: string
  fmetric :: "'g option"

type_synonym 'g varFilter = "'g fstate \<Rightarrow> 'g fstate"
type_synonym 'g metricFilters = "'g varFilter list option"
type_synonym 'g MetricFilter = "'g varFilter list \<Rightarrow> 'g varFilter list"

definition makeFilters :: "'g MetricFilter list \<Rightarrow> 'g metricFilters" where
  "makeFilters in1 = (if in1 = [] then None else Some (fold (\<lambda>mk m. mk m) in1 []))"

definition applyFilters :: "'g metricFilters \<Rightarrow> 'g varFilter" where
  "applyFilters m st = (case m of None \<Rightarrow> st | Some fs \<Rightarrow> fold (\<lambda>f st. f st) fs st)"

definition withVarFilter :: "'g varFilter \<Rightarrow> 'g MetricFilter" where
  "withVarFilter f m = m @ [f]"

definition ApplyIf :: "(string \<Rightarrow> bool) \<Rightarrow> 'g MetricFilter list \<Rightarrow> 'g MetricFilter" where
  "ApplyIf pred filters =
     (let then1 = makeFilters filters in
      withVarFilter (\<lambda>st. if pred (fname st) then applyFilters then1 st else st))"

definition Accept :: "'g MetricFilter" where
  "Accept = withVarFilter (\<lambda>st. st\<lparr>faction := actAccept\<rparr>)"

definition WhitelistIf :: "(string \<Rightarrow> bool) \<Rightarrow> 'g MetricFilter" where
  "WhitelistIf pred = ApplyIf pred [Accept]"

definition NameIn :: "string list \<Rightarrow> string \<Rightarrow> bool" where
  "NameIn names = Has (MakeSet names)"

definition Whitelist :: "string list \<Rightarrow> 'g MetricFilter" where
  "Whitelist names = WhitelistIf (NameIn names)"

definition ReportIf :: "(string \<Rightarrow> bool) \<Rightarrow> 'g MetricFilter" where
  "ReportIf pred = ApplyIf pred [withVarFilter (\<lambda>st. st\<lparr>fmode := Reported\<rparr>)]"

definition ReportNames :: "string list \<Rightarrow> 'g MetricFilter" where
  "ReportNames names = ReportIf (NameIn names)"

definition ModifyName :: "(string \<Rightarrow> string) \<Rightarrow> 'g MetricFilter" where
  "ModifyName f = withVarFilter (\<lambda>st. st\<lparr>fname := f (fname st)\<rparr>)"

definition Rename :: "string \<Rightarrow> string \<Rightarrow> 'g MetricFilter" where
  "Rename from1 to1 = withVarFilter (\<lambda>st. if fname st = from1 then st\<lparr>faction := actAccept, fname := to1\<rparr> else st)"

text \<open>\<open>strings.Replace\<close> of all occurrences; an empty needle is found before each character and at the end.\<close>

function replaceAll :: "string \<Rightarrow> string \<Rightarrow> string \<Rightarrow> string" where
  "replaceAll old new s =
     (if old = [] then
        new @ (if s = [] then [] else take (snd (decodeRune s)) s @ replaceAll old new (drop (snd (decodeRune s)) s))
      else
        (case go_index s old of
           None \<Rightarrow> s
         | Some i \<Rightarrow> take i s @ new @ replaceAll old new (drop (i + length old) s)))"
  by pat_completeness auto
termination
proof (relation "measure (\<lambda>(_, _, s). length s)")
  fix old new s :: string and i
  assume "old \<noteq> []" "go_index s old = Some i"
  then show "((old, new, drop (i + length old) s), old, new, s) \<in> measure (\<lambda>(_, _, s). length s)"
    using go_index_Some [of s old i] by (cases old) auto
qed (use decodeRune_width in \<open>auto simp: diff_less\<close>)

declare replaceAll.simps [simp del]

definition NameReplace :: "string \<Rightarrow> string \<Rightarrow> 'g MetricFilter" where
  "NameReplace old new = ModifyName (replaceAll old new)"

definition ToLowerName :: "(string \<Rightarrow> string) \<Rightarrow> 'g MetricFilter" where
  "ToLowerName toLower = ModifyName toLower"

definition ToUpperName :: "(string \<Rightarrow> string) \<Rightarrow> 'g MetricFilter" where
  "ToUpperName toUpper = ModifyName toUpper"

definition GoMetricsNilify :: "('g, 's) gometrics \<Rightarrow> 'g MetricFilter" where
  "GoMetricsNilify G =
     withVarFilter (\<lambda>st.
       if faction st \<noteq> actIgnore then st
       else
         (case fmetric st of
            None \<Rightarrow> st
          | Some m \<Rightarrow>
              if gkindOf G m \<in> {StandardCounter, StandardEWMA, StandardGauge, StandardGaugeFloat64, StandardHealthcheck,
                  StandardHistogram, StandardMeter, StandardTimer}
              then st\<lparr>fmetric := Some (gnil G (gkindOf G m))\<rparr> else st))"

section \<open>Wrappers\<close>

text \<open>Whether a metric can be wrapped, and what its wrapper reports to a visitor.\<close>

definition goMetricsWrap :: "('g, 's) gometrics \<Rightarrow> 'g \<Rightarrow> bool" where
  "goMetricsWrap G m \<longleftrightarrow>
     gkindOf G m \<in> {StandardCounter, StandardGauge, StandardGaugeFloat64, FunctionalGauge, FunctionalGaugeFloat64,
       StandardHistogram, StandardMeter, ClearOnVisit}"

definition histogramVisit :: "('g, 's) gometrics \<Rightarrow> 'g \<Rightarrow> event list" where
  "histogramVisit G h =
     (let ps = gpercentiles G h [500, 750, 950, 990, 999] in
      [OnRegistryStart, OnKey ''count'', OnInt (gcount G h), OnKey ''min'', OnInt (gmin G h),
       OnKey ''max'', OnInt (gmax G h), OnKey ''mean'', OnFloat (gmean G h), OnKey ''stddev'', OnFloat (gstddev G h),
       OnKey ''median'', OnFloat (ps ! 0), OnKey ''p75'', OnFloat (ps ! 1), OnKey ''p95'', OnFloat (ps ! 2),
       OnKey ''p99'', OnFloat (ps ! 3), OnKey ''p999'', OnFloat (ps ! 4), OnRegistryFinished])"

definition clearOnVisitVisit :: "('g, 's) gometrics \<Rightarrow> 'g \<Rightarrow> event list" where
  "clearOnVisitVisit G h =
     (let ps = gpercentiles G h [500, 990] in
      [OnRegistryStart, OnKey ''count'', OnInt (gcount G h), OnKey ''min'', OnInt (gmin G h),
       OnKey ''max'', OnInt (gmax G h), OnKey ''median'', OnFloat (ps ! 0), OnKey ''p99'', OnFloat (ps ! 1),
       OnRegistryFinished])"

definition wrapperVisit :: "('g, 's) gometrics \<Rightarrow> 'g \<Rightarrow> event list" where
  "wrapperVisit G m =
     (case gkindOf G m of
        StandardGaugeFloat64 \<Rightarrow> [OnFloat (gfloat G m)]
      | FunctionalGaugeFloat64 \<Rightarrow> [OnFloat (gfloat G m)]
      | StandardHistogram \<Rightarrow> histogramVisit G m
      | ClearOnVisit \<Rightarrow> clearOnVisitVisit G m
      | _ \<Rightarrow> [OnInt (gint G m)])"

section \<open>The registry\<close>

text \<open>
  A wrapper is a cell of the heap of metrics; \<open>wrapped\<close> holds the metric of each such cell. The lock makes
  every operation one step.
\<close>

record ('g, 's) GoMetricsRegistry =
  reg :: registry
  heap :: "metric list"
  wrapped :: "(nat, 'g) gomap"
  filters :: "'g metricFilters"
  shadow :: 's

text \<open>What \<open>Get\<close> returns: a metric of go-metrics or another variable of the registry.\<close>

datatype 'g got = GoMetric 'g | OtherVar var

definition newGoMetrics :: "('g, 's) gometrics \<Rightarrow> registry \<Rightarrow> metric list \<Rightarrow> 'g MetricFilter list \<Rightarrow> ('g, 's) GoMetricsRegistry" where
  "newGoMetrics G r h fs = \<lparr>reg = r, heap = h, wrapped = [], filters = makeFilters fs, shadow = sNew G\<rparr>"

definition NewGoMetrics ::
  "('g, 's) gometrics \<Rightarrow> registry \<Rightarrow> metric list \<Rightarrow> string \<Rightarrow> 'g MetricFilter list \<Rightarrow>
     (reg_error, registry \<times> ('g, 's) GoMetricsRegistry) outcome" where
  "NewGoMetrics G parent h name fs =
     bind_outcome (NewRegistry parent name [IgnorePublishExpvar]) (\<lambda>parent'.
       (case Monitoring.Get parent' name of
          Some (VReg r) \<Rightarrow> Ok (parent', newGoMetrics G r h fs)
        | _ \<Rightarrow> Panic))"

definition GetGoMetrics ::
  "('g, 's) gometrics \<Rightarrow> registry \<Rightarrow> metric list \<Rightarrow> string \<Rightarrow> 'g MetricFilter list \<Rightarrow>
     (reg_error, registry \<times> ('g, 's) GoMetricsRegistry) outcome" where
  "GetGoMetrics G parent h name fs =
     (case Monitoring.Get parent name of
        None \<Rightarrow> NewGoMetrics G parent h name fs
      | Some (VReg r) \<Rightarrow> Ok (parent, newGoMetrics G r h fs)
      | Some (VMet _) \<Rightarrow> Panic)"

definition stateWith :: "('g, 's) GoMetricsRegistry \<Rightarrow> kind \<Rightarrow> string \<Rightarrow> 'g option \<Rightarrow> 'g fstate" where
  "stateWith r k name metric =
     applyFilters (filters r) \<lparr>fkind = k, faction = actIgnore, fmode = Full, fname = name, fmetric = metric\<rparr>"

definition findState :: "('g, 's) GoMetricsRegistry \<Rightarrow> string \<Rightarrow> 'g fstate" where
  "findState r name = stateWith r kndFind name None"

definition addState :: "('g, 's) GoMetricsRegistry \<Rightarrow> string \<Rightarrow> 'g \<Rightarrow> 'g fstate" where
  "addState r name metric = stateWith r kndAdd name (Some metric)"

definition rmState :: "('g, 's) GoMetricsRegistry \<Rightarrow> string \<Rightarrow> 'g fstate" where
  "rmState r name = stateWith r kndRemove name None"

definition findVar :: "('g, 's) GoMetricsRegistry \<Rightarrow> string \<Rightarrow> var option" where
  "findVar r name =
     (let st = findState r name in
      if faction st = actIgnore then None else Monitoring.Get (reg r) (fname st))"

definition GGet :: "('g, 's) gometrics \<Rightarrow> ('g, 's) GoMetricsRegistry \<Rightarrow> string \<Rightarrow> 'g got option" where
  "GGet G r name =
     (case findVar r name of
        None \<Rightarrow> map_option GoMetric (sGet G (shadow r) name)
      | Some (VMet a) \<Rightarrow>
          (case map_of (wrapped r) a of Some m \<Rightarrow> Some (GoMetric m) | None \<Rightarrow> Some (OtherVar (VMet a)))
      | Some v \<Rightarrow> Some (OtherVar v))"

definition doRegister ::
  "('g, 's) gometrics \<Rightarrow> ('g, 's) GoMetricsRegistry \<Rightarrow> string \<Rightarrow> 'g \<Rightarrow> (reg_error, ('g, 's) GoMetricsRegistry \<times> 'g option) outcome" where
  "doRegister G r name metric =
     (let metric = (case gcall G metric of Some m \<Rightarrow> m | None \<Rightarrow> metric);
          st = addState r name metric in
      if faction st = actIgnore then
        (case fmetric st of
           None \<Rightarrow> Ok (r, None)
         | Some m \<Rightarrow> (let (s, m') = sGetOrRegister G (shadow r) name m in Ok (r\<lparr>shadow := s\<rparr>, Some m')))
      else
        (case fmetric st of
           None \<Rightarrow> Ok (r, None)
         | Some m \<Rightarrow>
             if goMetricsWrap G m then
               (let a = length (heap r) in
                bind_outcome (Monitoring.Add (reg r) (fname st) (VMet a) (fmode st)) (\<lambda>reg'.
                  Ok (r\<lparr>reg := reg', heap := heap r @ [MFunc (\<lambda>_. wrapperVisit G m)], wrapped := map_put a m (wrapped r)\<rparr>,
                      Some m)))
             else Ok (r, Some m)))"

definition GetOrRegister ::
  "('g, 's) gometrics \<Rightarrow> ('g, 's) GoMetricsRegistry \<Rightarrow> string \<Rightarrow> 'g \<Rightarrow>
     (reg_error, ('g, 's) GoMetricsRegistry \<times> 'g got option) outcome" where
  "GetOrRegister G r name metric =
     (case GGet G r name of
        Some v \<Rightarrow> Ok (r, Some v)
      | None \<Rightarrow> bind_outcome (doRegister G r name metric) (\<lambda>(r', m). Ok (r', map_option GoMetric m)))"

definition Register ::
  "('g, 's) gometrics \<Rightarrow> ('g, 's) GoMetricsRegistry \<Rightarrow> string \<Rightarrow> 'g \<Rightarrow> (reg_error, ('g, 's) GoMetricsRegistry) outcome" where
  "Register G r name metric =
     (if GGet G r name \<noteq> None then Err ErrNameUsed
      else bind_outcome (doRegister G r name metric) (\<lambda>(r', m). Ok r'))"

definition Unregister :: "('g, 's) gometrics \<Rightarrow> ('g, 's) GoMetricsRegistry \<Rightarrow> string \<Rightarrow> ('g, 's) GoMetricsRegistry" where
  "Unregister G r name =
     (let st = rmState r name in
      r\<lparr>reg := Monitoring.Remove (reg r) (fname st), shadow := sUnregister G (shadow r) name\<rparr>)"

text \<open>An error of \<open>Clear\<close> is logged only.\<close>

definition UnregisterAll :: "('g, 's) gometrics \<Rightarrow> ('g, 's) GoMetricsRegistry \<Rightarrow> ('g, 's) GoMetricsRegistry" where
  "UnregisterAll G r = r\<lparr>shadow := sUnregisterAll G (shadow r), reg := fst (Clear (reg r))\<rparr>"

section \<open>Filters decide by name\<close>

text \<open>Two states that differ at most in the kind of the operation and the metric.\<close>

definition agree :: "'g fstate \<Rightarrow> 'g fstate \<Rightarrow> bool" where
  "agree a b \<longleftrightarrow> faction a = faction b \<and> fmode a = fmode b \<and> fname a = fname b"

definition byName :: "'g varFilter \<Rightarrow> bool" where
  "byName f \<longleftrightarrow> (\<forall>a b. agree a b \<longrightarrow> agree (f a) (f b))"

definition byNameM :: "'g MetricFilter \<Rightarrow> bool" where
  "byNameM mk \<longleftrightarrow> (\<forall>fs. list_all byName fs \<longrightarrow> list_all byName (mk fs))"

lemma byNameM_with: "byName f \<Longrightarrow> byNameM (withVarFilter f)"
  by (simp add: byNameM_def withVarFilter_def)

lemma byName_fold: "list_all byName fs \<Longrightarrow> agree a b \<Longrightarrow> agree (fold (\<lambda>f st. f st) fs a) (fold (\<lambda>f st. f st) fs b)"
  by (induction fs arbitrary: a b) (auto simp: byName_def)

lemma makeFilters_byName: "list_all byNameM mks \<Longrightarrow> makeFilters mks = Some fs \<Longrightarrow> list_all byName fs"
proof -
  have "list_all byNameM mks \<Longrightarrow> list_all byName fs0 \<Longrightarrow> list_all byName (fold (\<lambda>mk m. mk m) mks fs0)" for fs0
    by (induction mks arbitrary: fs0) (auto simp: byNameM_def)
  then show "list_all byNameM mks \<Longrightarrow> makeFilters mks = Some fs \<Longrightarrow> list_all byName fs"
    by (auto simp: makeFilters_def split: if_splits)
qed

lemma applyFilters_byName:
  "list_all byNameM mks \<Longrightarrow> agree a b \<Longrightarrow> agree (applyFilters (makeFilters mks) a) (applyFilters (makeFilters mks) b)"
  using makeFilters_byName [of mks] byName_fold by (fastforce simp: applyFilters_def split: option.splits)

lemma agree_fname: "agree a b \<Longrightarrow> fname a = fname b"
  by (simp add: agree_def)

lemma ApplyIf_byName: "list_all byNameM mks \<Longrightarrow> byNameM (ApplyIf pred mks)"
  unfolding ApplyIf_def Let_def
  by (rule byNameM_with) (simp add: byName_def applyFilters_byName agree_fname)

text \<open>Every filter of the package decides by the name only.\<close>

lemma filters_byName:
  "byNameM Accept" "byNameM (WhitelistIf pred)" "byNameM (Whitelist names)" "byNameM (ReportIf pred)"
  "byNameM (ReportNames names)" "byNameM (ModifyName f)" "byNameM (Rename a b)" "byNameM (NameReplace old new)"
  "byNameM (ToLowerName lo)" "byNameM (ToUpperName up)" "byNameM (GoMetricsNilify G)"
proof -
  have m: "byNameM (ModifyName f)" for f :: "string \<Rightarrow> string" unfolding ModifyName_def
    by (rule byNameM_with) (simp add: byName_def agree_def)
  show a: "byNameM Accept" unfolding Accept_def by (rule byNameM_with) (simp add: byName_def agree_def)
  show w: "byNameM (WhitelistIf pred)" for pred unfolding WhitelistIf_def by (rule ApplyIf_byName) (simp add: a)
  then show "byNameM (Whitelist names)" by (simp add: Whitelist_def)
  show r: "byNameM (ReportIf pred)" for pred unfolding ReportIf_def
    by (rule ApplyIf_byName) (simp, rule byNameM_with, simp add: byName_def agree_def)
  then show "byNameM (ReportNames names)" by (simp add: ReportNames_def)
  show "byNameM (ModifyName f)" "byNameM (NameReplace old new)" "byNameM (ToLowerName lo)" "byNameM (ToUpperName up)"
    by (simp_all add: m NameReplace_def ToLowerName_def ToUpperName_def)
  show "byNameM (Rename a b)" unfolding Rename_def by (rule byNameM_with) (simp add: byName_def agree_def)
  show "byNameM (GoMetricsNilify G)" unfolding GoMetricsNilify_def
    by (rule byNameM_with) (simp add: byName_def agree_def split: option.splits)
qed

text \<open>The state a name is given by the filters does not depend on the operation.\<close>

lemma stateWith_agree:
  assumes "filters r = makeFilters mks" and "list_all byNameM mks"
  shows "agree (stateWith r k name m) (stateWith r k' name m')"
  using applyFilters_byName [OF assms(2)] by (simp add: stateWith_def assms(1) agree_def)

section \<open>Registering and removing\<close>

definition shadow_ok :: "('g, 's) gometrics \<Rightarrow> bool" where
  "shadow_ok G \<longleftrightarrow>
     (\<forall>s n m. snd (sGetOrRegister G s n m) = (case sGet G s n of Some x \<Rightarrow> x | None \<Rightarrow> m)) \<and>
     (\<forall>s n m n'. sGet G (fst (sGetOrRegister G s n m)) n' = (if n' = n then Some (snd (sGetOrRegister G s n m)) else sGet G s n')) \<and>
     (\<forall>s n n'. sGet G (sUnregister G s n) n' = (if n' = n then None else sGet G s n')) \<and>
     (\<forall>s n. sGet G (sUnregisterAll G s) n = None)"

text \<open>The wrappers are cells of the heap.\<close>

definition wf_adapter :: "('g, 's) GoMetricsRegistry \<Rightarrow> bool" where
  "wf_adapter r \<longleftrightarrow> (\<forall>a \<in> fst ` set (wrapped r). a < length (heap r))"

lemma wf_newGoMetrics: "wf_adapter (newGoMetrics G r h fs)"
  by (simp add: wf_adapter_def newGoMetrics_def)

lemma wf_doRegister: "wf_adapter r \<Longrightarrow> doRegister G r name m = Ok (r', m') \<Longrightarrow> wf_adapter r'"
  by (fastforce simp: doRegister_def wf_adapter_def Let_def dest!: set_map_put split: option.splits if_splits prod.splits)

lemma Get_Add:
  "Monitoring.Add r name v m = Ok r' \<Longrightarrow> Monitoring.Get r' name = Some v"
  using addNames_stores [of "split_byte CHR ''.'' name" v] by (fastforce simp: Monitoring.Add_def panicErr_def Get_entry Let_def split: outcome.splits)

lemma Get_Remove: "Monitoring.Get (Monitoring.Remove r name) name = None"
  by (simp add: Get_entry Monitoring.Remove_def removeNames_gone)

lemma addState_findState:
  assumes "filters r = makeFilters mks" and "list_all byNameM mks"
  shows "faction (addState r name m) = faction (findState r name)" "fname (addState r name m) = fname (findState r name)"
    "fname (rmState r name) = fname (findState r name)" "faction (rmState r name) = faction (findState r name)"
  using stateWith_agree [OF assms] by (simp_all add: addState_def findState_def rmState_def agree_def)


text \<open>The metric that is registered: the result of the call if it is a function, changed by the filters.\<close>

definition registered :: "('g, 's) gometrics \<Rightarrow> ('g, 's) GoMetricsRegistry \<Rightarrow> string \<Rightarrow> 'g \<Rightarrow> 'g option" where
  "registered G r name metric = fmetric (addState r name (case gcall G metric of Some m \<Rightarrow> m | None \<Rightarrow> metric))"

lemma doRegister_cases:
  assumes "doRegister G r name metric = Ok (r', res)" and "registered G r name metric = Some m"
    and "filters r = makeFilters mks" and "list_all byNameM mks"
  shows "if faction (findState r name) = actIgnore then
      r' = r\<lparr>shadow := fst (sGetOrRegister G (shadow r) name m)\<rparr> \<and> res = Some (snd (sGetOrRegister G (shadow r) name m))
    else res = Some m \<and>
      (if goMetricsWrap G m then
         \<exists>md reg'. Monitoring.Add (reg r) (fname (findState r name)) (VMet (length (heap r))) md = Ok reg' \<and>
           r' = r\<lparr>reg := reg', heap := heap r @ [MFunc (\<lambda>_. wrapperVisit G m)], wrapped := map_put (length (heap r)) m (wrapped r)\<rparr>
       else r' = r)"
  using assms(1,2) unfolding doRegister_def registered_def Let_def
  by (auto simp: addState_findState [OF assms(3,4)] split: prod.splits if_splits)

lemma findState_update [simp]:
  "findState (r\<lparr>shadow := s\<rparr>) name = findState r name" "findState (r\<lparr>reg := g\<rparr>) name = findState r name"
  "findState (r\<lparr>reg := g, heap := h, wrapped := w\<rparr>) name = findState r name"
  "findState (r\<lparr>reg := g, shadow := s\<rparr>) name = findState r name"
  by (simp_all add: findState_def stateWith_def)

text \<open>
  Registering a metric, for every combination of the filters of the package: after a
  successful call \<open>Get\<close> returns the metric as the filters leave it, whether the filters accept the
  name, so that the metric is reported by the monitoring registry under its new name, or ignore it, so
  that it is kept aside. The exception is a metric of a kind that has no wrapper (a timer, say) under an
  accepted name: the call succeeds, but the registry is unchanged and \<open>Get\<close> finds nothing. A second
  registration fails in the other cases and leaves the registry as it is.\<close>

theorem Register_Get:
  assumes "filters r = makeFilters mks" and "list_all byNameM mks" and "shadow_ok G"
    and "registered G r name metric = Some m" and "Register G r name metric = Ok r'"
  shows "if faction (findState r name) = actAccept \<and> \<not> goMetricsWrap G m then r' = r \<and> GGet G r' name = None
    else GGet G r' name = Some (GoMetric m) \<and> Register G r' name metric2 = Err ErrNameUsed \<and>
      (faction (findState r name) = actAccept \<longrightarrow>
        (\<exists>a. Monitoring.Get (reg r') (fname (findState r name)) = Some (VMet a) \<and>
          visitMetric format mode (heap r' ! a) = wrapperVisit G m))"
proof -
  obtain res where d: "doRegister G r name metric = Ok (r', res)" and n: "GGet G r name = None"
    using assms(5) by (auto simp: Register_def split: if_splits prod.splits)
  note c = doRegister_cases [OF d assms(4,1,2)]
  show ?thesis
  proof (cases "faction (findState r name)")
    case actIgnore
    have "sGet G (shadow r) name = None" using n actIgnore by (simp add: GGet_def findVar_def Let_def)
    then have "GGet G r' name = Some (GoMetric m)"
      using c actIgnore assms(3) by (simp add: GGet_def findVar_def Let_def shadow_ok_def)
    then show ?thesis using actIgnore by (simp add: Register_def)
  next
    case actAccept
    show ?thesis
    proof (cases "goMetricsWrap G m")
      case True
      then obtain md reg' where a: "Monitoring.Add (reg r) (fname (findState r name)) (VMet (length (heap r))) md = Ok reg'"
        and r': "r' = r\<lparr>reg := reg', heap := heap r @ [MFunc (\<lambda>_. wrapperVisit G m)], wrapped := map_put (length (heap r)) m (wrapped r)\<rparr>"
        using c actAccept by auto
      have g: "Monitoring.Get (reg r') (fname (findState r name)) = Some (VMet (length (heap r)))"
        using Get_Add [OF a] r' by simp
      then have "GGet G r' name = Some (GoMetric m)" using actAccept r' by (simp add: GGet_def findVar_def Let_def)
      moreover have "visitMetric format mode (heap r' ! length (heap r)) = wrapperVisit G m" using r' by simp
      ultimately show ?thesis using g True by (auto simp: Register_def)
    next
      case False
      then show ?thesis using c actAccept n by simp
    qed
  qed
qed

text \<open>
  Removing a name removes it: \<open>Get\<close> finds nothing afterwards, and of the metrics kept aside only
  this one is gone. The variable of the monitoring registry under the name the filters give is
  removed as well, also when the filters ignore the name and it belongs to someone else.\<close>

theorem Unregister_spec:
  assumes "filters r = makeFilters mks" and "list_all byNameM mks" and "shadow_ok G"
  shows "GGet G (Unregister G r name) name = None \<and>
    Monitoring.Get (reg (Unregister G r name)) (fname (findState r name)) = None \<and>
    (\<forall>name'. faction (findState r name') = actIgnore \<and> name' \<noteq> name \<longrightarrow> GGet G (Unregister G r name) name' = GGet G r name')"
proof -
  let ?r = "Unregister G r name"
  have r: "?r = r\<lparr>reg := Monitoring.Remove (reg r) (fname (findState r name)), shadow := sUnregister G (shadow r) name\<rparr>"
    by (simp add: Unregister_def Let_def addState_findState [OF assms(1,2)])
  have "sGet G (shadow ?r) n = (if n = name then None else sGet G (shadow r) n)" for n
    using assms(3) by (simp add: r shadow_ok_def)
  then show ?thesis using Get_Remove by (simp add: r GGet_def findVar_def Let_def)
qed

section \<open>An instance\<close>

text \<open>A registry of go-metrics as a map, with counters and timers that hold a number.\<close>

definition toy_metrics :: "(gkind \<times> int, (string, gkind \<times> int) gomap) gometrics" where
  "toy_metrics = \<lparr>gkindOf = fst, gnil = (\<lambda>k. (OtherKind, 0)), gcall = (\<lambda>_. None), gint = snd, gfloat = (\<lambda>_. 0),
     gcount = snd, gmin = snd, gmax = snd, gmean = (\<lambda>_. 0), gstddev = (\<lambda>_. 0), gpercentiles = (\<lambda>_ ps. map (\<lambda>_. 0) ps),
     sNew = [], sGet = map_of,
     sGetOrRegister = (\<lambda>s n m. case map_of s n of Some x \<Rightarrow> (s, x) | None \<Rightarrow> (map_put n m s, m)),
     sUnregister = (\<lambda>s n. map_del n s), sUnregisterAll = (\<lambda>s. [])\<rparr>"

lemma toy_metrics_ok: "shadow_ok toy_metrics"
  by (auto simp: shadow_ok_def toy_metrics_def split: option.splits)

definition toy_adapter :: "(gkind \<times> int, (string, gkind \<times> int) gomap) GoMetricsRegistry" where
  "toy_adapter = newGoMetrics toy_metrics (NewRegistry0 []) [] [Whitelist [''a''], Rename ''b'' ''x'']"

lemma toy_adapter_filters:
  "filters toy_adapter = makeFilters [Whitelist [''a''], Rename ''b'' ''x'']" "list_all byNameM [Whitelist [''a''], Rename ''b'' ''x'']"
  by (simp_all add: toy_adapter_def newGoMetrics_def filters_byName)

lemmas toy_adapter_eval = toy_adapter_def newGoMetrics_def makeFilters_def Whitelist_def WhitelistIf_def ApplyIf_def Rename_def
  withVarFilter_def Accept_def applyFilters_def NameIn_def MakeSet_def Has_def stateWith_def findState_def addState_def

theorem Register_Get_witness:
  "\<exists>r'. Register toy_metrics toy_adapter ''b'' (StandardCounter, 5) = Ok r' \<and>
     GGet toy_metrics r' ''b'' = Some (GoMetric (StandardCounter, 5)) \<and>
     (\<exists>a. Monitoring.Get (reg r') ''x'' = Some (VMet a))"
proof -
  have f: "findState toy_adapter ''b'' = \<lparr>fkind = kndFind, faction = actAccept, fmode = Full, fname = ''x'', fmetric = None\<rparr>"
    by (simp add: toy_adapter_eval Let_def)
  have g: "registered toy_metrics toy_adapter ''b'' (StandardCounter, 5) = Some (StandardCounter, 5)"
    by (simp add: registered_def toy_adapter_eval toy_metrics_def Let_def)
  have "is_Ok (Register toy_metrics toy_adapter ''b'' (StandardCounter, 5))"
    by (simp add: Register_def doRegister_def GGet_def findVar_def f toy_adapter_eval toy_metrics_def goMetricsWrap_def Let_def
        Monitoring.Get_def find1_def NewRegistry0_def Monitoring.Add_def panicErr_def)
  then obtain r' where r': "Register toy_metrics toy_adapter ''b'' (StandardCounter, 5) = Ok r'" by (auto simp: is_Ok_iff)
  have w: "goMetricsWrap toy_metrics (StandardCounter, 5)" by (simp add: goMetricsWrap_def toy_metrics_def)
  show ?thesis
    using Register_Get [OF toy_adapter_filters toy_metrics_ok g r'] r' w by (simp add: f) blast
qed

theorem Unregister_spec_witness:
  "GGet toy_metrics (Unregister toy_metrics toy_adapter ''b'') ''b'' = None \<and>
   Monitoring.Get (reg (Unregister toy_metrics toy_adapter ''b'')) ''x'' = None"
proof -
  have f: "fname (findState toy_adapter ''b'') = ''x''" by (simp add: toy_adapter_eval Let_def)
  show ?thesis using Unregister_spec [OF toy_adapter_filters toy_metrics_ok, of "''b''"] by (simp add: f)
qed

end
