(* ===== verification/Loader.thy ===== *)
theory Loader
  imports Go_Prelude
begin

text \<open>
  The package \<open>loader\<close> (src/loader): reading a configuration from YAML or a map with keys left out of
  the expansion of variables (config.go), merging files with a folder of input files (loader.go) and
  discovering files (discover.go, file_discover.go). The package go-ucfg with its collector, YAML and
  the file system are arguments, in the record \<open>ucfgs\<close>, over a type \<open>'c\<close> of its configurations and a type
  \<open>'v\<close> of the values of a map; so are the matching and expansion of file patterns.
\<close>

section \<open>The packages used\<close>

datatype lerr = UErr string | UnknownOption | NoConfiguration | LWrap string lerr

text \<open>An option of go-ucfg is a number; an option of the package sets the keys to skip.\<close>

datatype lopt = UcfgOpt nat | VarSkipKeys "string list" | UnknownOpt

text \<open>
  \<open>merge\<close> of go-ucfg changes the configuration in place and may fail; \<open>collect\<close> adds a configuration to
  the ones collected; \<open>setChild c i d\<close> sets element \<open>i\<close> of \<open>inputs\<close>.
\<close>

type_synonym 'a res = "'a + lerr"

record ('c, 'v, 'm) ucfgs =
  yaml :: "string \<Rightarrow> ((string, 'v) gomap) + lerr"
  newFrom :: "nat list \<Rightarrow> (string, 'v) gomap \<Rightarrow> 'c + lerr"
  newFromAny :: "nat list \<Rightarrow> 'v \<Rightarrow> 'c option \<times> lerr option"
  mergeNoop :: "'c \<Rightarrow> (string, 'v) gomap \<Rightarrow> 'c \<times> lerr option"
  mergeOpts :: "nat list \<Rightarrow> 'c \<Rightarrow> 'v \<Rightarrow> 'c \<times> lerr option"
  emptyCollector :: 'm
  collect :: "'m \<Rightarrow> 'c \<Rightarrow> 'm \<times> lerr option"
  collected :: "'m \<Rightarrow> 'c"
  hasInputs :: "'c \<Rightarrow> bool"
  countInputs :: "'c \<Rightarrow> nat + lerr"
  setChild :: "'c \<Rightarrow> nat \<Rightarrow> 'c \<Rightarrow> 'c + lerr"
  unpackInputs :: "nat list \<Rightarrow> 'c \<Rightarrow> 'c list + lerr"
  unpackEnabled :: "nat list \<Rightarrow> 'c \<Rightarrow> bool + lerr"
  readFile :: "string \<Rightarrow> (string + lerr) + lerr"
  glob :: "string \<Rightarrow> string list + lerr"
  matchPath :: "string \<Rightarrow> string \<Rightarrow> bool \<times> lerr option"

section \<open>Reading a configuration\<close>

text \<open>The path separator, the resolution of the environment and the expansion of variables.\<close>

definition DefaultOptions :: "lopt list" where
  "DefaultOptions = [UcfgOpt 0, UcfgOpt 1, UcfgOpt 2, VarSkipKeys [''inputs'']]"

text \<open>The options of go-ucfg and the keys to skip; the last \<open>VarSkipKeys\<close> wins.\<close>

fun splitOpts :: "lopt list \<Rightarrow> nat list \<Rightarrow> string list \<Rightarrow> (nat list \<times> string list) res" where
  "splitOpts [] us ks = Inl (us, ks)"
| "splitOpts (UcfgOpt u # os) us ks = splitOpts os (us @ [u]) ks"
| "splitOpts (VarSkipKeys k # os) us ks = splitOpts os us k"
| "splitOpts (UnknownOpt # os) us ks = Inr UnknownOption"

datatype 'v source = Bytes string | Text string | Reader "string res" | MapSource "(string, 'v) gomap" | OtherSource 'v

text \<open>The map the source denotes, when it is read as a map.\<close>

fun sourceMap :: "('c, 'v, 'm) ucfgs \<Rightarrow> 'v source \<Rightarrow> (string, 'v) gomap res option" where
  "sourceMap U (Bytes b) = Some (yaml U b)"
| "sourceMap U (Text s) = Some (yaml U s)"
| "sourceMap U (Reader (Inl s)) = Some (yaml U s)"
| "sourceMap U (Reader (Inr e)) = Some (Inr e)"
| "sourceMap U (MapSource m) = Some (Inl m)"
| "sourceMap U (OtherSource v) = None"

text \<open>Moving the keys to skip out of the map.\<close>

fun skipLoop :: "string list \<Rightarrow> (string, 'v) gomap \<Rightarrow> (string, 'v) gomap \<Rightarrow> (string, 'v) gomap \<times> (string, 'v) gomap" where
  "skipLoop [] data skipped = (data, skipped)"
| "skipLoop (k # ks) data skipped =
     (case map_of data k of
        Some v \<Rightarrow> skipLoop ks (map_del k data) (map_put k v skipped)
      | None \<Rightarrow> skipLoop ks data skipped)"

text \<open>
  The configuration and the error returned, with the map after the call: for a map as the source it
  is the map of the caller.
\<close>

definition fromMap :: "('c, 'v, 'm) ucfgs \<Rightarrow> nat list \<Rightarrow> string list \<Rightarrow> (string, 'v) gomap \<Rightarrow>
    (string, 'v) gomap \<times> 'c option \<times> lerr option" where
  "fromMap U us ks data =
     (let (data', skipped) = skipLoop ks data [] in
      case newFrom U us data' of
        Inl cfg \<Rightarrow>
          if skipped \<noteq> [] then
            (let (cfg', err) = mergeNoop U cfg skipped in (map_put_all data' skipped, Some cfg', err))
          else (data', Some cfg, None)
      | Inr e \<Rightarrow> (data', None, Some e))"

definition NewConfigFrom :: "('c, 'v, 'm) ucfgs \<Rightarrow> 'v source \<Rightarrow> lopt list \<Rightarrow>
    (string, 'v) gomap \<times> 'c option \<times> lerr option" where
  "NewConfigFrom U from1 opts =
     (case splitOpts (if opts = [] then DefaultOptions else opts) [] [] of
        Inl (us, ks) \<Rightarrow>
          (case sourceMap U from1 of
             Some (Inl data) \<Rightarrow> fromMap U us ks data
           | Some (Inr e) \<Rightarrow> ([], None, Some e)
           | None \<Rightarrow> (case from1 of OtherSource v \<Rightarrow> (let (c, err) = newFromAny U us v in ([], c, err)) | _ \<Rightarrow> ([], None, None)))
      | Inr e \<Rightarrow> ((case from1 of MapSource m \<Rightarrow> m | _ \<Rightarrow> []), None, Some e))"

definition getUcfgOptions :: "lopt list \<Rightarrow> nat list res" where
  "getUcfgOptions opts =
     (case splitOpts (if opts = [] then DefaultOptions else opts) [] [] of Inl (us, ks) \<Rightarrow> Inl us | Inr e \<Rightarrow> Inr e)"

definition Enabled :: "('c, 'v, 'm) ucfgs \<Rightarrow> 'c option \<Rightarrow> bool" where
  "Enabled U c =
     (case c of
        None \<Rightarrow> False
      | Some c \<Rightarrow>
          (case getUcfgOptions [] of
             Inl us \<Rightarrow> (case unpackEnabled U us c of Inl b \<Rightarrow> b | Inr _ \<Rightarrow> True)
           | Inr _ \<Rightarrow> True))"

definition Merge :: "('c, 'v, 'm) ucfgs \<Rightarrow> 'c \<Rightarrow> 'v \<Rightarrow> lopt list \<Rightarrow> 'c \<times> lerr option" where
  "Merge U c from1 opts =
     (case getUcfgOptions opts of Inl us \<Rightarrow> mergeOpts U us c from1 | Inr e \<Rightarrow> (c, Some e))"

text \<open>Opening a file, and reading it through the reader.\<close>

definition LoadFile :: "('c, 'v, 'm) ucfgs \<Rightarrow> string \<Rightarrow> 'c option \<times> lerr option" where
  "LoadFile U path =
     (case readFile U path of
        Inr e \<Rightarrow> (None, Some e)
      | Inl r \<Rightarrow> snd (NewConfigFrom U (Reader r) []))"

text \<open>The collector keeps the error it is given.\<close>

fun LoadFilesLoop :: "('c, 'v, 'm) ucfgs \<Rightarrow> string list \<Rightarrow> 'm \<Rightarrow> (lerr, 'm) outcome" where
  "LoadFilesLoop U [] m = Ok m"
| "LoadFilesLoop U (p # ps) m =
     (case LoadFile U p of
        (_, Some e) \<Rightarrow> Err e
      | (None, None) \<Rightarrow> LoadFilesLoop U ps m
      | (Some c, None) \<Rightarrow>
          (case collect U m c of (m', None) \<Rightarrow> LoadFilesLoop U ps m' | (m', Some e) \<Rightarrow> Err e))"

definition LoadFiles :: "('c, 'v, 'm) ucfgs \<Rightarrow> string list \<Rightarrow> (lerr, 'c) outcome" where
  "LoadFiles U paths = bind_outcome (LoadFilesLoop U paths (emptyCollector U)) (\<lambda>m. Ok (collected U m))"

section \<open>The loader\<close>

definition isFileUnderInputsFolder :: "('c, 'v, 'm) ucfgs \<Rightarrow> string \<Rightarrow> string \<Rightarrow> bool" where
  "isFileUnderInputsFolder U inputsFolder f =
     (let (matches, err) = matchPath U inputsFolder f in \<not> (\<not> matches \<or> err \<noteq> None))"

definition getInput :: "('c, 'v, 'm) ucfgs \<Rightarrow> 'c \<Rightarrow> 'c list res" where
  "getInput U c =
     (case (case getUcfgOptions [] of Inl us \<Rightarrow> unpackInputs U us c | Inr e \<Rightarrow> Inr e) of
        Inl inps \<Rightarrow> Inl inps
      | Inr e \<Rightarrow> Inr (LWrap ''failed to parse inputs section from configuration'' e))"

fun loadLoop :: "('c, 'v, 'm) ucfgs \<Rightarrow> string \<Rightarrow> string list \<Rightarrow> 'm \<Rightarrow> 'c list \<Rightarrow> (lerr, 'm \<times> 'c list) outcome" where
  "loadLoop U folder [] m inputs = Ok (m, inputs)"
| "loadLoop U folder (f # fs) m inputs =
     (case LoadFile U f of
        (_, Some e) \<Rightarrow>
          Err (LWrap (if isFileUnderInputsFolder U folder f then ''failed to load external configuration file''
                      else ''failed to load configuration file'') e)
      | (None, None) \<Rightarrow> Panic
      | (Some cfg, None) \<Rightarrow>
          if isFileUnderInputsFolder U folder f then
            (case getInput U cfg of
               Inl inp \<Rightarrow> loadLoop U folder fs m (inputs @ inp)
             | Inr e \<Rightarrow> Err (LWrap ''cannot get configuration'' e))
          else
            (case collect U m cfg of
               (m', None) \<Rightarrow> loadLoop U folder fs m' inputs
             | (m', Some e) \<Rightarrow> Err (LWrap ''failed to merge configuration file'' e)))"

fun setInputs :: "('c, 'v, 'm) ucfgs \<Rightarrow> nat \<Rightarrow> 'c list \<Rightarrow> 'c \<Rightarrow> (lerr, 'c) outcome" where
  "setInputs U i [] config = Ok config"
| "setInputs U i (ll # lls) config =
     (case setChild U config i ll of
        Inl config' \<Rightarrow> setInputs U (i + 1) lls config'
      | Inr e \<Rightarrow> Err (LWrap ''failed to add inputs to result configuration'' e))"

definition Load :: "('c, 'v, 'm) ucfgs \<Rightarrow> string \<Rightarrow> string list \<Rightarrow> (lerr, 'c) outcome" where
  "Load U inputsFolder files =
     bind_outcome (loadLoop U inputsFolder files (emptyCollector U) []) (\<lambda>(m, inputsList).
       (let config = collected U m in
        if inputsList = [] then Ok config
        else
          (case (if hasInputs U config then countInputs U config else Inl 0) of
             Inl start \<Rightarrow> setInputs U start inputsList config
           | Inr e \<Rightarrow> Err (LWrap ''failed to count the number of inputs in the configuration'' e))))"

section \<open>Discovery\<close>

fun DiscoverFiles :: "('c, 'v, 'm) ucfgs \<Rightarrow> string list \<Rightarrow> string list \<Rightarrow> string list \<times> lerr option" where
  "DiscoverFiles U [] files = (files, None)"
| "DiscoverFiles U (p # ps) files =
     (case glob U p of
        Inl f \<Rightarrow> DiscoverFiles U ps (files @ f)
      | Inr e \<Rightarrow> (files, Some (LWrap ''error while loading glob pattern'' e)))"

definition Discoverer :: "('c, 'v, 'm) ucfgs \<Rightarrow> string list \<Rightarrow> string list \<times> lerr option" where
  "Discoverer U patterns =
     (let p = filter (\<lambda>newP. newP \<noteq> []) patterns in
      if p = [] then ([], Some NoConfiguration) else DiscoverFiles U p [])"

section \<open>The keys left out of the expansion\<close>

lemma skipLoop_spec:
  assumes "skipLoop ks data sk = (rest, skipped)" and "wf_map sk"
  shows "map_of rest = (map_of data) |` (- set ks) \<and> wf_map skipped \<and>
    (\<forall>k. map_of skipped k = (if k \<in> set ks \<and> map_of data k \<noteq> None then map_of data k else map_of sk k))"
  using assms
proof (induction ks data sk rule: skipLoop.induct)
  case (2 k ks data sk)
  show ?case
  proof (cases "map_of data k")
    case None
    then show ?thesis using 2 by (auto simp: restrict_map_def)
  next
    case (Some v)
    then have "skipLoop ks (map_del k data) (map_put k v sk) = (rest, skipped)" using 2(3) by simp
    from 2(2) [OF Some this] 2(4) show ?thesis using Some by (auto simp: restrict_map_def)
  qed
qed (auto simp: restrict_map_def)

text \<open>
  Reading a configuration from a map of the caller with keys to skip: go-ucfg is given the entries
  under the other keys, for which variables are expanded, and then merges the entries under the keys to
  skip as they are. If the first step succeeds the map of the caller holds the entries it held
  before, even when the merge fails; if it fails the entries under the keys to skip are lost from the
  caller's map.\<close>

theorem NewConfigFrom_map:
  assumes "wf_map data" and "splitOpts (if opts = [] then DefaultOptions else opts) [] [] = Inl (us, ks)"
    and "NewConfigFrom U (MapSource data) opts = (data', c, err)"
  shows "\<exists>rest skipped. map_of rest = (map_of data) |` (- set ks) \<and> map_of skipped = (map_of data) |` set ks \<and>
    (case newFrom U us rest of
       Inr e \<Rightarrow> c = None \<and> err = Some e \<and> map_of data' = map_of rest
     | Inl cfg \<Rightarrow> map_of data' = map_of data \<and>
         (c, err) = (if skipped = [] then (Some cfg, None) else (Some (fst (mergeNoop U cfg skipped)), snd (mergeNoop U cfg skipped))))"
proof -
  obtain rest skipped where s: "skipLoop ks data [] = (rest, skipped)" by force
  from skipLoop_spec [OF this] have m: "map_of rest = (map_of data) |` (- set ks)" "wf_map skipped"
    "map_of skipped = (map_of data) |` set ks" by (auto simp: restrict_map_def)
  have f: "fromMap U us ks data = (data', c, err)" using assms(2,3) by (simp add: NewConfigFrom_def)
  have restored: "map_of (map_put_all rest skipped) = map_of data"
    by (rule ext) (simp add: map_of_map_put_all m restrict_map_def split: option.splits)
  have "map_of rest = map_of data" if "skipped = []"
    using m that by (auto simp: restrict_map_def fun_eq_iff split: if_splits)
  then have "case newFrom U us rest of
       Inr e \<Rightarrow> c = None \<and> err = Some e \<and> map_of data' = map_of rest
     | Inl cfg \<Rightarrow> map_of data' = map_of data \<and>
         (c, err) = (if skipped = [] then (Some cfg, None) else (Some (fst (mergeNoop U cfg skipped)), snd (mergeNoop U cfg skipped)))"
    using f restored by (auto simp: fromMap_def s split: sum.splits if_splits prod.splits)
  then show ?thesis using m by blast
qed

section \<open>The order of the inputs\<close>

text \<open>
  What is used of go-ucfg: the field \<open>inputs\<close> of a configuration is a list, read by \<open>ins\<close>; setting the
  element after the last one appends it.
\<close>

definition inputs_ok :: "('c, 'v, 'm) ucfgs \<Rightarrow> ('c \<Rightarrow> 'c list) \<Rightarrow> bool" where
  "inputs_ok U ins \<longleftrightarrow>
     (\<forall>c. \<not> hasInputs U c \<longrightarrow> ins c = []) \<and>
     (\<forall>c n. hasInputs U c \<and> countInputs U c = Inl n \<longrightarrow> n = length (ins c)) \<and>
     (\<forall>c d c'. setChild U c (length (ins c)) d = Inl c' \<longrightarrow> ins c' = ins c @ [d])"

text \<open>The inputs of the files in the folder, and the configurations of the other files.\<close>

definition folderInputs :: "('c, 'v, 'm) ucfgs \<Rightarrow> string \<Rightarrow> 'c list" where
  "folderInputs U f = (case LoadFile U f of (Some c, None) \<Rightarrow> (case getInput U c of Inl inp \<Rightarrow> inp | _ \<Rightarrow> []) | _ \<Rightarrow> [])"

definition plainConfigs :: "('c, 'v, 'm) ucfgs \<Rightarrow> string list \<Rightarrow> 'c list" where
  "plainConfigs U fs = concat (map (\<lambda>f. case LoadFile U f of (Some c, None) \<Rightarrow> [c] | _ \<Rightarrow> []) fs)"

fun collectAll :: "('c, 'v, 'm) ucfgs \<Rightarrow> 'm \<Rightarrow> 'c list \<Rightarrow> 'm option" where
  "collectAll U m [] = Some m"
| "collectAll U m (c # cs) = (case collect U m c of (m', None) \<Rightarrow> collectAll U m' cs | _ \<Rightarrow> None)"

lemma loadLoop_spec:
  "loadLoop U folder files m inps = Ok (m', inps') \<Longrightarrow>
     inps' = inps @ concat (map (folderInputs U) [f \<leftarrow> files. isFileUnderInputsFolder U folder f]) \<and>
     collectAll U m (plainConfigs U [f \<leftarrow> files. \<not> isFileUnderInputsFolder U folder f]) = Some m'"
proof (induction U folder files m inps rule: loadLoop.induct)
  case (2 U folder f fs m inps)
  then show ?case
    by (auto simp: folderInputs_def plainConfigs_def split: prod.splits option.splits if_splits sum.splits)
qed (simp add: plainConfigs_def)

lemma setInputs_spec:
  "inputs_ok U ins \<Longrightarrow> i = length (ins c) \<Longrightarrow> setInputs U i lls c = Ok c' \<Longrightarrow> ins c' = ins c @ lls"
proof (induction U i lls c rule: setInputs.induct)
  case (2 U i ll lls c)
  obtain d where d: "setChild U c i ll = Inl d" using 2(4) by (cases "setChild U c i ll") auto
  then have "ins d = ins c @ [ll]" using 2(2,3) by (auto simp: inputs_ok_def)
  then show ?case using 2(1) [OF d 2(2)] 2(3,4) d by simp
qed simp

text \<open>
  Loading a list of files: the files outside the inputs folder are merged in the order of the
  list, and the result has the inputs of that merge followed by the inputs of every file in the
  folder, in the order of the list, wherever they stand among the others. Without any input in the folder
  the merge is the result.\<close>

theorem Load_inputs:
  assumes "inputs_ok U ins" and "Load U folder files = Ok c"
  shows "\<exists>m. collectAll U (emptyCollector U) (plainConfigs U [f \<leftarrow> files. \<not> isFileUnderInputsFolder U folder f]) = Some m \<and>
    (let extra = concat (map (folderInputs U) [f \<leftarrow> files. isFileUnderInputsFolder U folder f]) in
     ins c = ins (collected U m) @ extra \<and> (extra = [] \<longrightarrow> c = collected U m))"
proof -
  obtain m inps where l: "loadLoop U folder files (emptyCollector U) [] = Ok (m, inps)"
    using assms(2) by (auto simp: Load_def)
  note spec = loadLoop_spec [OF l]
  let ?c = "collected U m"
  have "ins c = ins ?c @ inps \<and> (inps = [] \<longrightarrow> c = ?c)"
  proof (cases "inps = []")
    case True
    then show ?thesis using assms(2) l by (simp add: Load_def)
  next
    case False
    then obtain start where st: "(if hasInputs U ?c then countInputs U ?c else Inl 0) = Inl start"
      "setInputs U start inps ?c = Ok c"
      using assms(2) l by (auto simp: Load_def Let_def split: sum.splits)
    have "start = length (ins ?c)" using st(1) assms(1) by (auto simp: inputs_ok_def split: if_splits)
    then show ?thesis using setInputs_spec [OF assms(1) _ st(2)] False by simp
  qed
  then show ?thesis using spec by (simp add: Let_def)
qed


section \<open>An instance\<close>

text \<open>Configurations with a list of names and of inputs; a file holds its own name.\<close>

datatype tcfg = TCfg (tnames: "string list") (tins: "tcfg list")

definition toy_ucfg :: "(tcfg, string, tcfg list) ucfgs" where
  "toy_ucfg = \<lparr>yaml = (\<lambda>s. Inl [(''k'', s)]), newFrom = (\<lambda>us m. Inl (TCfg (map snd m) [])),
     newFromAny = (\<lambda>us v. (None, None)), mergeNoop = (\<lambda>c m. (TCfg (tnames c @ map snd m) (tins c), None)),
     mergeOpts = (\<lambda>us c v. (c, None)), emptyCollector = [], collect = (\<lambda>m c. (m @ [c], None)),
     collected = (\<lambda>m. TCfg (concat (map tnames m)) (concat (map tins m))), hasInputs = (\<lambda>c. tins c \<noteq> []),
     countInputs = (\<lambda>c. Inl (length (tins c))), setChild = (\<lambda>c i d. Inl (TCfg (tnames c) (take i (tins c) @ [d]))),
     unpackInputs = (\<lambda>us c. Inl [c]), unpackEnabled = (\<lambda>us c. Inl True), readFile = (\<lambda>p. Inl (Inl p)),
     glob = (\<lambda>p. Inl [p]), matchPath = (\<lambda>pat f. (prefix pat f, None))\<rparr>"

lemma toy_inputs_ok: "inputs_ok toy_ucfg tins"
  by (auto simp: inputs_ok_def toy_ucfg_def)

theorem NewConfigFrom_map_witness:
  "\<exists>data' c. NewConfigFrom toy_ucfg (MapSource [(''inputs'', ''i''), (''a'', ''b'')]) [] = (data', c, None) \<and>
     map_of data' = map_of [(''inputs'', ''i''), (''a'', ''b'')]"
proof -
  obtain data' c err where n: "NewConfigFrom toy_ucfg (MapSource [(''inputs'', ''i''), (''a'', ''b'')]) [] = (data', c, err)"
    by (metis prod_cases3)
  have w: "wf_map [(''inputs'', ''i''), (''a'', ''b'')]" by (simp add: wf_map_def)
  have o: "splitOpts (if [] = ([] :: lopt list) then DefaultOptions else []) [] [] = Inl ([0, 1, 2], [''inputs''])"
    by (simp add: DefaultOptions_def)
  from NewConfigFrom_map [OF w o n] n show ?thesis by (fastforce simp: toy_ucfg_def split: if_splits)
qed

theorem Load_inputs_witness:
  "\<exists>c. Load toy_ucfg ''in'' [''in1'', ''a'', ''in2''] = Ok c \<and> tins c = [TCfg [''in1''] [], TCfg [''in2''] []]"
proof -
  have lf: "LoadFile toy_ucfg f = (Some (TCfg [f] []), None)" for f
    by (simp add: LoadFile_def NewConfigFrom_def DefaultOptions_def fromMap_def toy_ucfg_def)
  have gi: "getInput toy_ucfg c = Inl [c]" for c by (simp add: getInput_def getUcfgOptions_def DefaultOptions_def toy_ucfg_def)
  have un: "isFileUnderInputsFolder toy_ucfg ''in'' f \<longleftrightarrow> prefix ''in'' f" for f
    by (simp add: isFileUnderInputsFolder_def toy_ucfg_def)
  have "is_Ok (Load toy_ucfg ''in'' [''in1'', ''a'', ''in2''])"
    by (simp add: Load_def lf gi un) (simp add: toy_ucfg_def)
  then obtain c where c: "Load toy_ucfg ''in'' [''in1'', ''a'', ''in2''] = Ok c" by (auto simp: is_Ok_iff)
  show ?thesis
    using Load_inputs [OF toy_inputs_ok c] c by (auto simp: un folderInputs_def plainConfigs_def lf gi Let_def) (auto simp: toy_ucfg_def)
qed

end
