(* ===== verification/Transport.thy ===== *)
theory Transport
  imports Tls_Laws
begin

text \<open>
  The package \<open>transport\<close> (src/transport): addresses (util.go), dialers and their composition (transport.go,
  tcp.go, wrap.go, stats.go, proxy.go) and TLS connections (tls.go). What it uses of \<open>net\<close> to split and
  join addresses is modelled on strings. Connections, the resolver, the dialer of \<open>net\<close>, the proxy
  package and the cryptography of \<open>crypto/tls\<close> are arguments: the record \<open>net\<close> holds the operations used, over
  a type \<open>'c\<close> of connections and a type \<open>'w\<close> of states of the network. Logging and the reports to a test
  driver are left out.
\<close>

section \<open>Addresses\<close>

datatype addr_error = MissingPort | TooManyColons | MissingBracket | UnexpectedOpen | UnexpectedClose

text \<open>\<open>net.SplitHostPort\<close>; an offset of None stands for -1.\<close>

definition SplitHostPort :: "string \<Rightarrow> (string \<times> string) + addr_error" where
  "SplitHostPort hostport =
     (case cut_last_byte CHR '':'' hostport of
        None \<Rightarrow> Inr MissingPort
      | Some (before, port) \<Rightarrow>
          if hd hostport = CHR ''['' then
            (case cut_byte CHR '']'' hostport of
               None \<Rightarrow> Inr MissingBracket
             | Some (inside, rest) \<Rightarrow>
                 if rest = [] then Inr MissingPort
                 else if length inside + 1 = length before then
                   (if CHR ''['' \<in> set (tl hostport) then Inr UnexpectedOpen
                    else if CHR '']'' \<in> set rest then Inr UnexpectedClose
                    else Inl (tl inside, port))
                 else if hd rest = CHR '':'' then Inr TooManyColons
                 else Inr MissingPort)
          else if CHR '':'' \<in> set before then Inr TooManyColons
          else if CHR ''['' \<in> set hostport then Inr UnexpectedOpen
          else if CHR '']'' \<in> set hostport then Inr UnexpectedClose
          else Inl (before, port))"

definition JoinHostPort :: "string \<Rightarrow> string \<Rightarrow> string" where
  "JoinHostPort host port =
     (if CHR '':'' \<in> set host then ''['' @ host @ '']:'' @ port else host @ '':'' @ port)"

definition fullAddress :: "string \<Rightarrow> nat \<Rightarrow> string" where
  "fullAddress host defaultPort =
     (case SplitHostPort host of
        Inl _ \<Rightarrow> host
      | Inr _ \<Rightarrow>
          if CHR '':'' \<in> set host then ''['' @ host @ '']:'' @ go_itoa defaultPort
          else host @ '':'' @ go_itoa defaultPort)"

section \<open>Errors and dialers\<close>

text \<open>An error of the network carries whether it is a timeout; errors may wrap another.\<close>

datatype terr =
    EOFErr | CanceledErr | NetErr bool | ErrNotConnected | AddrErr addr_error | UnsupportedNetwork string
  | NoRoute string | UnableToConnect string | IncompleteHandshake | VersionNotConfigured | OtherErr string | WrapErr string terr

fun errIs :: "terr \<Rightarrow> terr \<Rightarrow> bool" where
  "errIs (WrapErr s e) t = (WrapErr s e = t \<or> errIs e t)"
| "errIs e t = (e = t)"

text \<open>\<open>errors.As\<close> with a \<open>net.Error\<close>: the first one in the chain.\<close>

fun asNetError :: "terr \<Rightarrow> bool option" where
  "asNetError (NetErr timeout) = Some timeout"
| "asNetError (WrapErr s e) = asNetError e"
| "asNetError _ = None"

type_synonym ('w, 'c) dialer = "string \<Rightarrow> string \<Rightarrow> 'w \<Rightarrow> 'w \<times> 'c option \<times> terr option"

record ('w, 'c) net =
  netDial :: "('w, 'c) dialer"
  lookupHost :: "string \<Rightarrow> 'w \<Rightarrow> 'w \<times> (string list + terr)"
  proxyFromURL :: "string \<Rightarrow> ('w, 'c) dialer option \<Rightarrow> ('w, 'c) dialer + terr"
  statsWrap :: "'c \<Rightarrow> 'c"
  tlsClient :: "'c \<Rightarrow> tlsConfig \<Rightarrow> 'c"
  setDeadline :: "'c \<Rightarrow> bool \<Rightarrow> 'w \<Rightarrow> 'w \<times> terr option"
  handshake :: "'c \<Rightarrow> 'w \<Rightarrow> 'w \<times> terr option"
  connState :: "'c \<Rightarrow> 'w \<Rightarrow> bool \<times> TLSVersion"
  closeConn :: "'c \<Rightarrow> 'w \<Rightarrow> 'w"

text \<open>
  \<open>DialWith\<close>; the argument \<open>perm\<close> is the random order of the indices. The connection and the error are
  those of the last attempt.
\<close>

fun dialLoop :: "('w, 'c) dialer \<Rightarrow> string \<Rightarrow> string list \<Rightarrow> string \<Rightarrow> nat list \<Rightarrow> terr option \<Rightarrow> 'w \<Rightarrow>
    'w \<times> 'c option \<times> terr option" where
  "dialLoop d network addresses port [] err w = (w, None, err)"
| "dialLoop d network addresses port (i # is) err w =
     (case d network (JoinHostPort (addresses ! i) port) w of
        (w', Some c, None) \<Rightarrow> (w', Some c, None)
      | (w', _, err') \<Rightarrow> dialLoop d network addresses port is err' w')"

definition DialWith :: "('w, 'c) dialer \<Rightarrow> string \<Rightarrow> string \<Rightarrow> string list \<Rightarrow> string \<Rightarrow> nat list \<Rightarrow> 'w \<Rightarrow>
    'w \<times> 'c option \<times> terr option" where
  "DialWith d network host addresses port perm w =
     (if length addresses = 0 then (w, None, Some (NoRoute host))
      else if length addresses = 1 then d network (JoinHostPort (addresses ! 0) port) w
      else
        (case dialLoop d network addresses port perm None w of
           (w', Some c, err) \<Rightarrow> (w', Some c, err)
         | (w', None, Some err) \<Rightarrow> (w', None, Some err)
         | (w', None, None) \<Rightarrow> (w', None, Some (UnableToConnect host))))"

definition NetDialer :: "('w, 'c) net \<Rightarrow> (nat \<Rightarrow> nat list) \<Rightarrow> ('w, 'c) dialer" where
  "NetDialer N perm network address w =
     (if network \<notin> {''tcp'', ''tcp4'', ''tcp6'', ''udp'', ''udp4'', ''udp6''} then (w, None, Some (UnsupportedNetwork network))
      else
        (case SplitHostPort address of
           Inr e \<Rightarrow> (w, None, Some (AddrErr e))
         | Inl (host, port) \<Rightarrow>
             (case lookupHost N host w of
                (w', Inr e) \<Rightarrow> (w', None, Some e)
              | (w', Inl addresses) \<Rightarrow> DialWith (netDial N) network host addresses port (perm (length addresses)) w')))"

definition ConnWrapper :: "('w, 'c) dialer \<Rightarrow> ('c \<Rightarrow> 'c) \<Rightarrow> ('w, 'c) dialer" where
  "ConnWrapper d wrap network addr w =
     (case d network addr w of
        (w', _, Some e) \<Rightarrow> (w', None, Some e)
      | (w', c, None) \<Rightarrow> (w', map_option wrap c, None))"

subsection \<open>Statistics\<close>

datatype statEvent = ReadError terr | ReadBytes int | WriteError terr | WriteBytes int

definition counted :: "terr option \<Rightarrow> bool" where
  "counted err = (case err of None \<Rightarrow> False | Some e \<Rightarrow> \<not> errIs e EOFErr \<and> \<not> errIs e CanceledErr)"

text \<open>What the wrapper reports about a read or write of the connection with the given result.\<close>

definition statsRead :: "int \<times> terr option \<Rightarrow> statEvent list" where
  "statsRead res = (case res of (n, err) \<Rightarrow> (if counted err then [ReadError (the err)] else []) @ [ReadBytes n])"

definition statsWrite :: "int \<times> terr option \<Rightarrow> statEvent list" where
  "statsWrite res = (case res of (n, err) \<Rightarrow> (if counted err then [WriteError (the err)] else []) @ [WriteBytes n])"

definition StatsDialer :: "('w, 'c) net \<Rightarrow> ('w, 'c) dialer \<Rightarrow> ('w, 'c) dialer" where
  "StatsDialer N d = ConnWrapper d (statsWrap N)"

subsection \<open>Proxies\<close>

record ProxyConfig =
  ProxyURL :: string
  LocalResolve :: bool

definition ProxyValidate :: "('w, 'c) net \<Rightarrow> ProxyConfig \<Rightarrow> terr option" where
  "ProxyValidate N c =
     (if ProxyURL c = [] then None
      else (case proxyFromURL N (ProxyURL c) None of Inl _ \<Rightarrow> None | Inr e \<Rightarrow> Some e))"

definition ProxyDialer ::
  "('w, 'c) net \<Rightarrow> (nat \<Rightarrow> nat list) \<Rightarrow> ProxyConfig option \<Rightarrow> ('w, 'c) dialer \<Rightarrow> ('w, 'c) dialer + terr" where
  "ProxyDialer N perm config forward =
     (case config of
        None \<Rightarrow> Inl forward
      | Some cfg \<Rightarrow>
          if ProxyURL cfg = [] then Inl forward
          else
            (case proxyFromURL N (ProxyURL cfg) None of
               Inr e \<Rightarrow> Inr e
             | Inl _ \<Rightarrow>
                 Inl (\<lambda>network address w.
                   case SplitHostPort address of
                     Inr e \<Rightarrow> (w, None, Some (AddrErr e))
                   | Inl (host, port) \<Rightarrow>
                       (case (if LocalResolve cfg then lookupHost N host w else (w, Inl [host])) of
                          (w', Inr e) \<Rightarrow> (w', None, Some e)
                        | (w', Inl addresses) \<Rightarrow>
                            (case proxyFromURL N (ProxyURL cfg) (Some forward) of
                               Inr e \<Rightarrow> (w', None, Some e)
                             | Inl d \<Rightarrow> DialWith d network host addresses port (perm (length addresses)) w')))))"

section \<open>TLS\<close>

text \<open>The versions are checked again after the handshake.\<close>

definition postVerifyTLSConnection ::
  "defaults \<Rightarrow> bool \<times> TLSVersion \<Rightarrow> TLSConfig option \<Rightarrow> terr option" where
  "postVerifyTLSConnection df state config =
     (if \<not> fst state then Some IncompleteHandshake
      else
        (case config of
           None \<Rightarrow> None
         | Some cfg \<Rightarrow>
             (let vs = (if versions cfg = [] then TLSDefaultVersions df else versions cfg) in
              if list_ex (\<lambda>v. snd state = v) vs then None else Some VersionNotConfigured)))"

text \<open>A dialer returns a connection or an error; without either nothing more is done.\<close>

definition tlsDialWith ::
  "('w, 'c) net \<Rightarrow> defaults \<Rightarrow> ('w, 'c) dialer \<Rightarrow> string \<Rightarrow> string \<Rightarrow> int \<Rightarrow> tlsConfig \<Rightarrow> TLSConfig option \<Rightarrow> 'w \<Rightarrow>
     'w \<times> 'c option \<times> terr option" where
  "tlsDialWith N df d network address timeout tlsCfg config w =
     (case d network address w of
        (w1, _, Some e) \<Rightarrow> (w1, None, Some e)
      | (w1, None, None) \<Rightarrow> (w1, None, None)
      | (w1, Some socket, None) \<Rightarrow>
          (let conn = tlsClient N socket tlsCfg; withTimeout = timeout > 0;
               (w2, err) = (if withTimeout then setDeadline N conn True w1 else (w1, None)) in
           case err of
             Some e \<Rightarrow> (closeConn N conn w2, None, Some e)
           | None \<Rightarrow>
               (case handshake N conn w2 of
                  (w3, Some e) \<Rightarrow> (closeConn N conn w3, None, Some e)
                | (w3, None) \<Rightarrow>
                    (let (w4, err) = (if withTimeout then setDeadline N conn False w3 else (w3, None)) in
                     case err of
                       Some e \<Rightarrow> (w4, None, Some e)
                     | None \<Rightarrow>
                         (case postVerifyTLSConnection df (connState N conn w4) config of
                            Some e \<Rightarrow> (closeConn N conn w4, None, Some e)
                          | None \<Rightarrow> (w4, Some conn, None))))))"

text \<open>The dialer remembers the settings of the last address; the memory is protected by a lock.\<close>

record tlsMemo =
  lastNetwork :: string
  lastAddress :: string
  lastTLSConfig :: "tlsConfig option"

definition emptyMemo :: tlsMemo where
  "emptyMemo = \<lparr>lastNetwork = [], lastAddress = [], lastTLSConfig = None\<rparr>"

definition memoConfig ::
  "lib \<Rightarrow> defaults \<Rightarrow> TLSConfig option \<Rightarrow> string \<Rightarrow> string \<Rightarrow> string \<Rightarrow> tlsMemo \<Rightarrow> tlsMemo \<times> tlsConfig" where
  "memoConfig L df config network address host m =
     (case (if network = lastNetwork m \<and> address = lastAddress m then lastTLSConfig m else None) of
        Some t \<Rightarrow> (m, t)
      | None \<Rightarrow>
          (let t = BuildModuleClientConfig L df config host in
           (\<lparr>lastNetwork = network, lastAddress = address, lastTLSConfig = Some t\<rparr>, t)))"

definition TLSDialer ::
  "('w, 'c) net \<Rightarrow> lib \<Rightarrow> defaults \<Rightarrow> ('w, 'c) dialer \<Rightarrow> TLSConfig option \<Rightarrow> int \<Rightarrow> string \<Rightarrow> string \<Rightarrow> tlsMemo \<times> 'w \<Rightarrow>
     (tlsMemo \<times> 'w) \<times> 'c option \<times> terr option" where
  "TLSDialer N L df forward config timeout network address = (\<lambda>(m, w).
     if network \<notin> {''tcp'', ''tcp4'', ''tcp6''} then ((m, w), None, Some (UnsupportedNetwork network))
     else
       (case SplitHostPort address of
          Inr e \<Rightarrow> ((m, w), None, Some (AddrErr e))
        | Inl (host, port) \<Rightarrow>
            (let (m', t) = memoConfig L df config network address host m;
                 (w', res) = tlsDialWith N df forward network address timeout t config w
             in ((m', w'), res))))"

text \<open>
  The dialer for HTTP/2. The settings are a cell that all calls for an address share; the protocols of a call are stored
  in it after the lock has been released. \<open>tlsClientP\<close> makes a connection with settings and protocols.
\<close>

record h2State =
  h2Network :: string
  h2Address :: string
  h2Last :: "nat option"
  h2Cells :: "(tlsConfig \<times> string list) list"

definition emptyH2 :: h2State where
  "emptyH2 = \<lparr>h2Network = [], h2Address = [], h2Last = None, h2Cells = []\<rparr>"

definition h2Lookup ::
  "lib \<Rightarrow> defaults \<Rightarrow> TLSConfig option \<Rightarrow> string \<Rightarrow> string \<Rightarrow> string \<Rightarrow> h2State \<Rightarrow> h2State \<times> nat" where
  "h2Lookup L df config network address host m =
     (case (if network = h2Network m \<and> address = h2Address m then h2Last m else None) of
        Some cell \<Rightarrow> (m, cell)
      | None \<Rightarrow>
          (let cell = length (h2Cells m) in
           (\<lparr>h2Network = network, h2Address = address, h2Last = Some cell,
             h2Cells = h2Cells m @ [(BuildModuleClientConfig L df config host, [])]\<rparr>, cell)))"

definition h2SetProtos :: "nat \<Rightarrow> string list \<Rightarrow> h2State \<Rightarrow> h2State" where
  "h2SetProtos cell nextProtos m = m\<lparr>h2Cells := (h2Cells m)[cell := (fst (h2Cells m ! cell), nextProtos)]\<rparr>"

definition h2Dial ::
  "('w, 'c) net \<Rightarrow> ('c \<Rightarrow> tlsConfig \<Rightarrow> string list \<Rightarrow> 'c) \<Rightarrow> defaults \<Rightarrow> ('w, 'c) dialer \<Rightarrow> string \<Rightarrow> string \<Rightarrow> int \<Rightarrow> nat \<Rightarrow>
     TLSConfig option \<Rightarrow> h2State \<Rightarrow> 'w \<Rightarrow> 'w \<times> 'c option \<times> terr option" where
  "h2Dial N tlsClientP df forward network address timeout cell config m w =
     (case h2Cells m ! cell of (t, protos) \<Rightarrow>
        tlsDialWith (N\<lparr>tlsClient := \<lambda>s t. tlsClientP s t protos\<rparr>) df forward network address timeout t config w)"

definition TLSDialerH2 ::
  "('w, 'c) net \<Rightarrow> ('c \<Rightarrow> tlsConfig \<Rightarrow> string list \<Rightarrow> 'c) \<Rightarrow> lib \<Rightarrow> defaults \<Rightarrow> ('w, 'c) dialer \<Rightarrow> TLSConfig option \<Rightarrow> int \<Rightarrow>
     string \<Rightarrow> string \<Rightarrow> string list \<Rightarrow> h2State \<times> 'w \<Rightarrow> (h2State \<times> 'w) \<times> 'c option \<times> terr option" where
  "TLSDialerH2 N tlsClientP L df forward config timeout network address nextProtos = (\<lambda>(m, w).
     if network \<notin> {''tcp'', ''tcp4'', ''tcp6''} then ((m, w), None, Some (UnsupportedNetwork network))
     else
       (case SplitHostPort address of
          Inr e \<Rightarrow> ((m, w), None, Some (AddrErr e))
        | Inl (host, port) \<Rightarrow>
            (let (m1, cell) = h2Lookup L df config network address host m;
                 m2 = h2SetProtos cell nextProtos m1;
                 (w', res) = h2Dial N tlsClientP df forward network address timeout cell config m2 w
             in ((m2, w'), res))))"

section \<open>Composition\<close>

record TransportConfig =
  TProxy :: "ProxyConfig option"
  TTLS :: "TLSConfig option"
  TTimeout :: int
  TStats :: bool

text \<open>The dialer without TLS, and the one with it over the same state and a memory.\<close>

definition MakeDialer ::
  "('w, 'c) net \<Rightarrow> lib \<Rightarrow> defaults \<Rightarrow> (nat \<Rightarrow> nat list) \<Rightarrow> TransportConfig \<Rightarrow> (tlsMemo \<times> 'w, 'c) dialer + terr" where
  "MakeDialer N L df perm c =
     (case ProxyDialer N perm (TProxy c) (NetDialer N perm) of
        Inr e \<Rightarrow> Inr e
      | Inl d \<Rightarrow>
          (let d = (if TStats c then StatsDialer N d else d) in
           case TTLS c of
             Some cfg \<Rightarrow> Inl (TLSDialer N L df d (Some cfg) (TTimeout c))
           | None \<Rightarrow> Inl (\<lambda>network address (m, w). let (w', res) = d network address w in ((m, w'), res))))"

end
