(* ===== verification/Transport_Laws.thy ===== *)
theory Transport_Laws
  imports Transport
begin

text \<open>
  The laws of the dialers: addresses are parsed as they are built, one of the addresses of a host that
  accepts connections is found, and a TLS connection is handed out only after its checks, with the
  settings of the host it was dialed for.
\<close>

section \<open>Addresses\<close>

definition noBrackets :: "string \<Rightarrow> bool" where
  "noBrackets s \<longleftrightarrow> CHR ''['' \<notin> set s \<and> CHR '']'' \<notin> set s"

lemma cut_last_colon:
  "CHR '':'' \<notin> set port \<Longrightarrow> cut_last_byte CHR '':'' (a @ CHR '':'' # port) = Some (a, port)"
  by (simp add: cut_last_byte_Some)

lemma Split_bracketed:
  assumes "noBrackets h" and "noBrackets port" and "CHR '':'' \<notin> set port"
  shows "SplitHostPort (''['' @ h @ '']:'' @ port) = Inl (h, port)"
proof -
  have c: "cut_last_byte CHR '':'' ((''['' @ h @ '']'') @ CHR '':'' # port) = Some (''['' @ h @ '']'', port)"
    using cut_last_colon [OF assms(3)] .
  have b: "cut_byte CHR '']'' ((''['' @ h) @ CHR '']'' # ('':'' @ port)) = Some (''['' @ h, '':'' @ port)"
    using assms(1) by (subst cut_byte_Some) (simp add: noBrackets_def)
  show ?thesis using c b assms(1,2) by (simp add: SplitHostPort_def noBrackets_def)
qed

lemma Split_plain:
  assumes "noBrackets h" and "noBrackets port" and "CHR '':'' \<notin> set port" and "CHR '':'' \<notin> set h"
  shows "SplitHostPort (h @ '':'' @ port) = Inl (h, port)"
proof -
  have c: "cut_last_byte CHR '':'' (h @ CHR '':'' # port) = Some (h, port)" using cut_last_colon [OF assms(3)] .
  have "hd (h @ '':'' @ port) \<noteq> CHR ''[''" using assms(1) by (cases h) (auto simp: noBrackets_def)
  then show ?thesis using c assms by (simp add: SplitHostPort_def noBrackets_def)
qed

text \<open>Addresses are parsed back as they were joined.\<close>

lemma Split_Join:
  "noBrackets h \<Longrightarrow> noBrackets port \<Longrightarrow> CHR '':'' \<notin> set port \<Longrightarrow> SplitHostPort (JoinHostPort h port) = Inl (h, port)"
  by (cases "CHR '':'' \<in> set h") (simp_all add: JoinHostPort_def Split_bracketed Split_plain del: append.simps)

lemma itoa_plain: "noBrackets (go_itoa n)" "CHR '':'' \<notin> set (go_itoa n)"
  by (auto simp: noBrackets_def is_digit_def dest!: go_itoa_digits)

lemma Split_doubleBracket:
  assumes "noBrackets h"
  shows "\<exists>e. SplitHostPort (''['' @ (''['' @ h @ '']'') @ '']:'' @ go_itoa p) = Inr e"
proof -
  let ?s = "''['' @ (''['' @ h @ '']'') @ '']:'' @ go_itoa p"
  have c: "cut_last_byte CHR '':'' ((''[['' @ h @ '']]'') @ CHR '':'' # go_itoa p) = Some (''[['' @ h @ '']]'', go_itoa p)"
    using cut_last_colon [OF itoa_plain(2)] .
  have b: "cut_byte CHR '']'' ((''[['' @ h) @ CHR '']'' # ('']:'' @ go_itoa p)) = Some (''[['' @ h, '']:'' @ go_itoa p)"
    using assms by (subst cut_byte_Some) (simp add: noBrackets_def)
  show ?thesis using c b by (simp add: SplitHostPort_def)
qed

text \<open>
  Completing a host with the default port: an address that can be parsed is kept, and every other
  host without brackets is completed to an address that is parsed as that host and the port, an IPv6
  address included. The bracketed form of an IPv6 address without a port is completed to an address
  that cannot be parsed, so that a client for it cannot be created.\<close>

theorem fullAddress_parses:
  assumes "noBrackets host"
  shows "SplitHostPort (fullAddress host p) =
      (case SplitHostPort host of Inl hp \<Rightarrow> Inl hp | Inr _ \<Rightarrow> Inl (host, go_itoa p)) \<and>
    (CHR '':'' \<in> set host \<longrightarrow> (\<exists>e. SplitHostPort (fullAddress (''['' @ host @ '']'') p) = Inr e))"
proof -
  have a: "SplitHostPort (fullAddress host p) = (case SplitHostPort host of Inl hp \<Rightarrow> Inl hp | Inr _ \<Rightarrow> Inl (host, go_itoa p))"
    using Split_bracketed [OF assms itoa_plain] Split_plain [OF assms itoa_plain]
    by (simp add: fullAddress_def del: append.simps split: sum.split)
  have "fullAddress (''['' @ host @ '']'') p = ''['' @ (''['' @ host @ '']'') @ '']:'' @ go_itoa p" if h: "CHR '':'' \<in> set host"
  proof -
    obtain before port where c: "cut_last_byte CHR '':'' (''['' @ host @ '']'') = Some (before, port)"
      using h by (cases "cut_last_byte CHR '':'' (''['' @ host @ '']'')") (auto simp: cut_last_byte_None)
    have b: "cut_byte CHR '']'' ((''['' @ host) @ CHR '']'' # []) = Some (''['' @ host, [])"
      using assms by (subst cut_byte_Some) (simp add: noBrackets_def)
    have "SplitHostPort (''['' @ host @ '']'') = Inr MissingPort" using c b by (simp add: SplitHostPort_def)
    then show ?thesis using h by (simp add: fullAddress_def)
  qed
  then show ?thesis using a Split_doubleBracket [OF assms, of p] by metis
qed

theorem fullAddress_parses_witness:
  "SplitHostPort (fullAddress ''::1'' 80) = Inl (''::1'', ''80'') \<and>
   (\<exists>e. SplitHostPort (fullAddress ''[::1]'' 80) = Inr e)"
proof -
  have n: "noBrackets ''::1''" by (simp add: noBrackets_def)
  have s: "SplitHostPort ''::1'' = Inr TooManyColons" by (simp add: SplitHostPort_def cut_last_byte_def)
  have i: "go_itoa 80 = ''80''" by code_simp
  show ?thesis using fullAddress_parses [OF n, of 80] by (simp add: s i del: go_itoa.simps)
qed

section \<open>Dialing one of several addresses\<close>

text \<open>A result is a connection or an error.\<close>

definition exact :: "'w \<times> 'c option \<times> terr option \<Rightarrow> bool" where
  "exact res \<longleftrightarrow> (fst (snd res) = None) \<noteq> (snd (snd res) = None)"

definition exactDialer :: "('w, 'c) dialer \<Rightarrow> bool" where
  "exactDialer d \<longleftrightarrow> (\<forall>n a w. exact (d n a w))"

text \<open>The attempts of the loop: it goes on while there is no connection without an error.\<close>

lemma dialLoop_connects:
  assumes "i \<in> set is" and "\<And>w. \<exists>w' c. d network (JoinHostPort (addresses ! i) port) w = (w', Some c, None)"
  shows "\<exists>w' c. dialLoop d network addresses port is err w = (w', Some c, None)"
  using assms(1)
proof (induction "is" arbitrary: err w)
  case (Cons j js)
  obtain w' c e where r: "d network (JoinHostPort (addresses ! j) port) w = (w', c, e)" by (metis prod_cases3)
  show ?case
  proof (cases "c \<noteq> None \<and> e = None")
    case True
    then show ?thesis using r by auto
  next
    case False
    then have "i \<noteq> j" using assms(2) [of w] r by auto
    then have "i \<in> set js" using Cons(2) by simp
    then show ?thesis using Cons(1) r False by (auto split: option.splits)
  qed
qed simp

lemma dialLoop_exact:
  "dialLoop d network addresses port is err w = (w', c, e) \<Longrightarrow> c = None \<or> e = None"
  by (induction d network addresses port "is" err w rule: dialLoop.induct) (auto split: prod.splits option.splits)

text \<open>
  C33. If one of the addresses of a host accepts connections, \<open>DialWith\<close> returns a connection, in
  whatever order the addresses are tried and whatever happens with the others. In every case it
  returns either a connection or an error, provided the dialer does.\<close>

theorem DialWith_connects:
  assumes "exactDialer d" and "set perm = {..<length addresses}"
  shows "exact (DialWith d network host addresses port perm w) \<and>
    (\<forall>a \<in> set addresses. (\<forall>w. \<exists>w' c. d network (JoinHostPort a port) w = (w', Some c, None)) \<longrightarrow>
       (\<exists>w' c. DialWith d network host addresses port perm w = (w', Some c, None)))"
proof (intro conjI ballI impI)
  show "exact (DialWith d network host addresses port perm w)"
    using assms(1) dialLoop_exact [of d network addresses port perm None w]
    by (auto simp: DialWith_def exactDialer_def exact_def split: prod.splits option.splits)
  fix a assume a: "a \<in> set addresses" "\<forall>w. \<exists>w' c. d network (JoinHostPort a port) w = (w', Some c, None)"
  obtain i where i: "i < length addresses" "addresses ! i = a" using a(1) by (auto simp: in_set_conv_nth)
  have "\<exists>w' c. dialLoop d network addresses port perm None w = (w', Some c, None)"
    using dialLoop_connects [of i perm d network addresses port None w] a(2) i assms(2) by auto
  moreover have "addresses \<noteq> []" "length addresses = 1 \<Longrightarrow> addresses ! 0 = a" using i by auto
  ultimately show "\<exists>w' c. DialWith d network host addresses port perm w = (w', Some c, None)"
    using a(2) by (auto simp: DialWith_def)
qed

text \<open>A dialer that connects to one address only and counts the attempts.\<close>

definition oneDialer :: "(nat, nat) dialer" where
  "oneDialer n a w = (if a = ''b:1'' then (w + 1, Some w, None) else (w + 1, None, Some (NetErr False)))"

theorem DialWith_connects_witness:
  "\<exists>w' c. DialWith oneDialer ''tcp'' ''h'' [''a'', ''b''] ''1'' [0, 1] 0 = (w', Some c, None)"
proof -
  have e: "exactDialer oneDialer" "set [0, 1 :: nat] = {..<length [''a'', ''b'']}"
    by (auto simp: exactDialer_def exact_def oneDialer_def)
  have "\<forall>w. \<exists>w' c. oneDialer ''tcp'' (JoinHostPort ''b'' ''1'') w = (w', Some c, None)"
    by (simp add: oneDialer_def JoinHostPort_def)
  then show ?thesis using DialWith_connects [OF e, of "''tcp''" "''h''" "''1''" 0] by simp
qed

section \<open>TLS connections\<close>

text \<open>The remembered settings are those of the remembered address.\<close>

definition memo_ok :: "lib \<Rightarrow> defaults \<Rightarrow> TLSConfig option \<Rightarrow> tlsMemo \<Rightarrow> bool" where
  "memo_ok L df config m \<longleftrightarrow>
     (\<forall>t. lastTLSConfig m = Some t \<longrightarrow>
       (\<exists>host port. SplitHostPort (lastAddress m) = Inl (host, port) \<and> t = BuildModuleClientConfig L df config host))"

lemma memoConfig_ok:
  assumes "memo_ok L df config m" and "SplitHostPort address = Inl (host, port)"
    and "memoConfig L df config network address host m = (m', t)"
  shows "memo_ok L df config m' \<and> t = BuildModuleClientConfig L df config host"
  using assms by (auto simp: memoConfig_def memo_ok_def Let_def split: option.splits if_splits)

lemma TLSDialer_memo:
  "memo_ok L df config m \<Longrightarrow> TLSDialer N L df forward config timeout network address (m, w) = ((m', w'), res) \<Longrightarrow>
     memo_ok L df config m'"
  using memoConfig_ok [of L df config m address _ _ network m']
  by (auto simp: TLSDialer_def split: sum.splits if_splits prod.splits)

text \<open>The states of the dialer after any number of calls.\<close>

inductive dials :: "('w, 'c) net \<Rightarrow> lib \<Rightarrow> defaults \<Rightarrow> ('w, 'c) dialer \<Rightarrow> TLSConfig option \<Rightarrow> int \<Rightarrow> tlsMemo \<Rightarrow> bool"
  for N L df forward config timeout where
  start: "dials N L df forward config timeout emptyMemo"
| again: "dials N L df forward config timeout m \<Longrightarrow>
    TLSDialer N L df forward config timeout network address (m, w) = ((m', w'), res) \<Longrightarrow>
    dials N L df forward config timeout m'"

lemma dials_memo: "dials N L df forward config timeout m \<Longrightarrow> memo_ok L df config m"
proof (induction rule: dials.induct)
  case (again m network address w m' w' res)
  from TLSDialer_memo [OF again(3,2)] show ?case .
qed (simp add: memo_ok_def emptyMemo_def)

lemma tlsDialWith_cases:
  assumes "tlsDialWith N df d network address timeout t config w = (w', c, err)" and "exactDialer d"
  obtains (dial) e where "d network address w = (w', None, Some e)" "c = None" "err = Some e"
  | (closed) w1 socket where "c = None" "err \<noteq> None" "w' = closeConn N (tlsClient N socket t) w1"
  | (reset) w1 conn e where "c = None" "err = Some e" "timeout > 0" "setDeadline N conn False w1 = (w', Some e)"
  | (ok) w1 socket where "c = Some (tlsClient N socket t)" "err = None" "d network address w = (w1, Some socket, None)"
      "postVerifyTLSConnection df (connState N (tlsClient N socket t) w') config = None"
      "\<exists>w2 w3. handshake N (tlsClient N socket t) w2 = (w3, None)"
proof -
  obtain w1 s e where d: "d network address w = (w1, s, e)" by (metis prod_cases3)
  then have x: "(s = None) \<noteq> (e = None)" using assms(2) by (metis exactDialer_def exact_def fst_conv snd_conv)
  show ?thesis
  proof (cases e)
    case (Some e')
    then show ?thesis using assms(1) d x dial by (simp add: tlsDialWith_def)
  next
    case None
    then obtain socket where s: "s = Some socket" using x by auto
    let ?conn = "tlsClient N socket t"
    obtain w2 e2 where a: "(if timeout > 0 then setDeadline N ?conn True w1 else (w1, None)) = (w2, e2)" by force
    obtain w3 e3 where h: "handshake N ?conn w2 = (w3, e3)" by force
    obtain w4 e4 where r: "(if timeout > 0 then setDeadline N ?conn False w3 else (w3, None)) = (w4, e4)" by force
    note run = assms(1) [unfolded tlsDialWith_def, unfolded d None s, simplified, unfolded Let_def a prod.case]
    show ?thesis
    proof (cases e2)
      case (Some e)
      then show ?thesis using run closed by auto
    next
      case e2: None
      show ?thesis
      proof (cases e3)
        case (Some e)
        then show ?thesis using run e2 h closed by auto
      next
        case e3: None
        show ?thesis
        proof (cases e4)
          case (Some e)
          then show ?thesis using run e2 h e3 r reset [of e ?conn w3] by (auto split: if_splits)
        next
          case e4: None
          show ?thesis
          proof (cases "postVerifyTLSConnection df (connState N ?conn w4) config")
            case None
            then show ?thesis using run e2 h e3 e4 r d s \<open>e = None\<close> ok [of socket w1] by auto
          next
            case (Some e)
            then have "c = None" "Some e = err" "w' = closeConn N ?conn w4" using run e2 h e3 e4 r by simp_all
            then show ?thesis using closed [of socket w4] by (metis option.distinct(1))
          qed
        qed
      qed
    qed
  qed
qed

text \<open>
  C25. A TLS dialer, after any number of earlier calls with any addresses: a connection it returns is
  one whose handshake succeeded and is complete, with a version that is configured, under the client
  settings built for the host of the address that was dialed and for no other. When it returns an
  error, the connection it had opened is closed, unless it is the error of removing the deadline after
  the handshake: that connection stays open.\<close>

theorem TLSDialer_safe:
  assumes "dials N L df forward config timeout m" and "exactDialer forward"
    and "TLSDialer N L df forward config timeout network address (m, w) = ((m', w'), c, err)"
  shows "(\<forall>conn. c = Some conn \<longrightarrow>
      (\<exists>host port socket w1 w2 w3. SplitHostPort address = Inl (host, port) \<and>
         forward network address w = (w1, Some socket, None) \<and>
         conn = tlsClient N socket (BuildModuleClientConfig L df config host) \<and>
         handshake N conn w2 = (w3, None) \<and> fst (connState N conn w') \<and>
         (\<forall>cfg. config = Some cfg \<longrightarrow>
            snd (connState N conn w') \<in> set (if versions cfg = [] then TLSDefaultVersions df else versions cfg)))) \<and>
    (c = None \<longrightarrow> err \<noteq> None \<and>
      (w' = w \<or> (\<exists>e. forward network address w = (w', None, Some e)) \<or> (\<exists>conn w1. w' = closeConn N conn w1) \<or>
       (timeout > 0 \<and> (\<exists>conn w1 e. setDeadline N conn False w1 = (w', Some e)))))"
proof (cases "network \<in> {''tcp'', ''tcp4'', ''tcp6''} \<and> (\<exists>hp. SplitHostPort address = Inl hp)")
  case False
  then show ?thesis using assms(3) by (auto simp: TLSDialer_def split: sum.splits if_splits)
next
  case True
  then obtain host port where hp: "SplitHostPort address = Inl (host, port)" by force
  obtain m1 t where mt: "memoConfig L df config network address host m = (m1, t)" by force
  have t: "t = BuildModuleClientConfig L df config host"
    using memoConfig_ok [OF dials_memo [OF assms(1)] hp mt] by simp
  have run: "tlsDialWith N df forward network address timeout t config w = (w', c, err)"
    using assms(3) True hp mt by (auto simp: TLSDialer_def split: prod.splits)
  from run assms(2) show ?thesis
  proof (cases rule: tlsDialWith_cases)
    case (ok w1 socket)
    have "fst (connState N (tlsClient N socket t) w')" "\<And>cfg. config = Some cfg \<Longrightarrow>
        snd (connState N (tlsClient N socket t) w') \<in> set (if versions cfg = [] then TLSDefaultVersions df else versions cfg)"
      using ok(4) by (auto simp: postVerifyTLSConnection_def Let_def list_ex_iff split: if_splits)
    then show ?thesis using ok hp t by auto
  qed (blast | auto)+
qed


text \<open>A network in which every address accepts connections; the number of the next one is the state.\<close>

definition toy_net :: "(nat, nat) net" where
  "toy_net = \<lparr>netDial = (\<lambda>n a w. (w + 1, Some w, None)), lookupHost = (\<lambda>h w. (w, Inl [h])),
     proxyFromURL = (\<lambda>u d. Inr (OtherErr u)), statsWrap = id, tlsClient = (\<lambda>c t. c), setDeadline = (\<lambda>c b w. (w, None)),
     handshake = (\<lambda>c w. (w, None)), connState = (\<lambda>c w. (True, TLSVersion12)), closeConn = (\<lambda>c w. w)\<rparr>"

theorem TLSDialer_safe_witness:
  "\<exists>m' w' conn w1 socket. TLSDialer toy_net toy_lib initialDefaults (netDial toy_net) None 0 ''tcp'' ''h:1'' (emptyMemo, 0) = ((m', w'), Some conn, None) \<and>
     netDial toy_net ''tcp'' ''h:1'' 0 = (w1, Some socket, None) \<and>
     conn = tlsClient toy_net socket (BuildModuleClientConfig toy_lib initialDefaults None ''h'')"
proof -
  have s: "SplitHostPort ''h:1'' = Inl (''h'', ''1'')" by (simp add: SplitHostPort_def cut_last_byte_def)
  obtain m' w' c err where t: "TLSDialer toy_net toy_lib initialDefaults (netDial toy_net) None 0 ''tcp'' ''h:1'' (emptyMemo, 0) = ((m', w'), c, err)"
    by (metis prod.collapse)
  have e: "exactDialer (netDial toy_net)" by (simp add: exactDialer_def exact_def toy_net_def)
  obtain conn where c: "c = Some conn" "err = None"
    using t by (auto simp: TLSDialer_def s memoConfig_def emptyMemo_def Let_def tlsDialWith_def toy_net_def postVerifyTLSConnection_def)
  show ?thesis using TLSDialer_safe [OF dials.start e t] t c s by auto
qed


section \<open>The dialer for HTTP/2\<close>

text \<open>The remembered cell holds the settings built for the host of the remembered address.\<close>

definition h2_ok :: "lib \<Rightarrow> defaults \<Rightarrow> TLSConfig option \<Rightarrow> h2State \<Rightarrow> bool" where
  "h2_ok L df config m \<longleftrightarrow>
     (\<forall>cell. h2Last m = Some cell \<longrightarrow>
        cell < length (h2Cells m) \<and>
        (\<exists>host port. SplitHostPort (h2Address m) = Inl (host, port) \<and> fst (h2Cells m ! cell) = BuildModuleClientConfig L df config host))"

lemma h2Lookup_ok:
  assumes "h2_ok L df config m" and "SplitHostPort address = Inl (host, port)" and "h2Lookup L df config network address host m = (m', cell)"
  shows "h2_ok L df config m' \<and> cell < length (h2Cells m') \<and> fst (h2Cells m' ! cell) = BuildModuleClientConfig L df config host"
  using assms by (auto simp: h2_ok_def h2Lookup_def Let_def nth_append split: option.splits if_splits)

lemma h2SetProtos_ok: "h2_ok L df config m \<Longrightarrow> cell < length (h2Cells m) \<Longrightarrow> h2_ok L df config (h2SetProtos cell ps m)"
  by (auto simp: h2_ok_def h2SetProtos_def nth_list_update)

text \<open>
  Calls one after the other: each dials with the settings built for its own host and with its own protocols, as \<open>tlsDialWith\<close>
  does.
\<close>

lemma TLSDialerH2_sequential:
  assumes "h2_ok L df config m" and "network \<in> {''tcp'', ''tcp4'', ''tcp6''}" and "SplitHostPort address = Inl (host, port)"
  shows "\<exists>m'. TLSDialerH2 N tlsClientP L df forward config timeout network address protos (m, w) =
      (let (w', res) = tlsDialWith (N\<lparr>tlsClient := \<lambda>s t. tlsClientP s t protos\<rparr>) df forward network address timeout
             (BuildModuleClientConfig L df config host) config w in ((m', w'), res)) \<and> h2_ok L df config m'"
proof -
  obtain m1 cell where l: "h2Lookup L df config network address host m = (m1, cell)" by fastforce
  note ok = h2Lookup_ok [OF assms(1,3) l]
  then have "h2Cells (h2SetProtos cell protos m1) ! cell = (BuildModuleClientConfig L df config host, protos)"
    by (simp add: h2SetProtos_def)
  then show ?thesis
    using assms(2,3) l ok h2SetProtos_ok [of L df config m1 cell protos]
    by (auto simp: TLSDialerH2_def h2Dial_def Let_def split: prod.splits)
qed

text \<open>
  Two calls for one address at the same time: both get the same cell, so the one that stores its protocols last decides the
  protocols of both connections.
\<close>

lemma TLSDialerH2_race:
  assumes "h2_ok L df config m" and "SplitHostPort address = Inl (host, port)"
    and "h2Lookup L df config network address host m = (m1, cell1)" and "h2Lookup L df config network address host m1 = (m2, cell2)"
  shows "h2Dial N tlsClientP df forward network address timeout cell1 config (h2SetProtos cell2 ps2 (h2SetProtos cell1 ps1 m2)) w =
    tlsDialWith (N\<lparr>tlsClient := \<lambda>s t. tlsClientP s t ps2\<rparr>) df forward network address timeout
      (BuildModuleClientConfig L df config host) config w"
proof -
  have "h2Network m1 = network \<and> h2Address m1 = address \<and> h2Last m1 = Some cell1"
    using assms(3) unfolding h2Lookup_def Let_def
    by (cases "network = h2Network m \<and> address = h2Address m"; cases "h2Last m") auto
  then have "cell2 = cell1" "m2 = m1" using assms(4) by (simp_all add: h2Lookup_def)
  then show ?thesis using h2Lookup_ok [OF assms(1-3)] by (simp add: h2Dial_def h2SetProtos_def)
qed

end
