(* ===== verification/Go_Machine.thy ===== *)
theory Go_Machine
  imports Go_Prelude
begin

text \<open>
  State machines for code that several goroutines run: a partial step function over actions, sequences of
  steps, and the interface of an invariant. The components give their step functions and discharge the laws;
  what holds after any sequence of steps is shown here once.
\<close>

fun runs :: "('a \<Rightarrow> 's \<Rightarrow> 's option) \<Rightarrow> 'a list \<Rightarrow> 's \<Rightarrow> 's option" where
  "runs step [] s = Some s"
| "runs step (a # as) s = (case step a s of None \<Rightarrow> None | Some s' \<Rightarrow> runs step as s')"

lemma runs_append: "runs step (as @ bs) s = Option.bind (runs step as s) (runs step bs)"
  by (induction as arbitrary: s) (auto split: option.splits)

lemma list_all_True [simp]: "list_all (\<lambda>_. True) xs"
  by (simp add: list_all_iff)

text \<open>An invariant of the steps by allowed actions.\<close>

locale machine_invariant =
  fixes step :: "'a \<Rightarrow> 's \<Rightarrow> 's option" and init :: 's and inv :: "'s \<Rightarrow> bool" and allowed :: "'a \<Rightarrow> bool"
  assumes init_inv: "inv init"
    and step_inv: "inv s \<Longrightarrow> allowed a \<Longrightarrow> step a s = Some s' \<Longrightarrow> inv s'"
begin

lemma runs_keep: "inv s \<Longrightarrow> list_all allowed as \<Longrightarrow> runs step as s = Some s' \<Longrightarrow> inv s'"
  by (induction as arbitrary: s) (auto split: option.splits intro: step_inv)

lemma reachable_inv: "list_all allowed as \<Longrightarrow> runs step as init = Some s \<Longrightarrow> inv s"
  using init_inv by (rule runs_keep)

text \<open>At every moment of a run.\<close>

lemma prefix_inv: "list_all allowed (as @ bs) \<Longrightarrow> runs step (as @ bs) init = Some s \<Longrightarrow> \<exists>s'. runs step as init = Some s' \<and> inv s'"
  by (auto simp: runs_append bind_eq_Some_conv intro: reachable_inv)

end

end
