(* ===== verification/Transport_Client.thy ===== *)
theory Transport_Client
  imports Transport_Laws Go_Machine
begin

text \<open>
  The client of the package \<open>transport\<close> (src/transport/client.go): one connection, shared by any number of
  goroutines. The lock protects \<open>Connect\<close>, \<open>Close\<close> and the reading of the connection by \<open>getConn\<close>, but \<open>Write\<close>,
  \<open>LocalAddr\<close> and \<open>RemoteAddr\<close> read the field a second time without it. The state machine has one step for
  each section under the lock and for each access outside of it, in any order of the goroutines.
  Connections are numbered in the order in which they are dialed; the result of a dial and of an operation
  on a connection are arguments of the step.
\<close>

section \<open>The code\<close>

record Client =
  network :: string
  chost :: string
  conn :: "nat option"
  mutex :: "nat option"
  nextConn :: nat
  closedConns :: "nat list"

definition newClientState :: "string \<Rightarrow> string \<Rightarrow> Client" where
  "newClientState n h = \<lparr>network = n, chost = h, conn = None, mutex = None, nextConn = 0, closedConns = []\<rparr>"

definition NewClientWithDialer :: "string \<Rightarrow> string \<Rightarrow> nat \<Rightarrow> Client + terr" where
  "NewClientWithDialer n host defaultPort =
     (let host = fullAddress host defaultPort in
      case SplitHostPort host of
        Inr e \<Rightarrow> Inr (AddrErr e)
      | Inl _ \<Rightarrow> Inl (newClientState n host))"

definition NewClient ::
  "('w, 'c) net \<Rightarrow> lib \<Rightarrow> defaults \<Rightarrow> (nat \<Rightarrow> nat list) \<Rightarrow> TransportConfig \<Rightarrow> string \<Rightarrow> string \<Rightarrow> nat \<Rightarrow> Client + terr" where
  "NewClient N L df perm c n host defaultPort =
     (if n \<in> {''tcp'', ''tcp4'', ''tcp6''} \<or> n \<in> {''udp'', ''udp4'', ''udp6''} \<and> TTLS c = None \<and> TProxy c = None then
        (case MakeDialer N L df perm c of
           Inr e \<Rightarrow> Inr e
         | Inl d \<Rightarrow> NewClientWithDialer n host defaultPort)
      else Inr (UnsupportedNetwork n))"

text \<open>\<open>Connect\<close> up to the dial, under the lock, and from its result on.\<close>

definition connectBegin :: "nat \<Rightarrow> Client \<Rightarrow> Client" where
  "connectBegin t c =
     (let c = c\<lparr>mutex := Some t\<rparr> in
      case conn c of
        Some x \<Rightarrow> c\<lparr>closedConns := closedConns c @ [x], conn := None\<rparr>
      | None \<Rightarrow> c)"

definition connectEnd :: "bool \<Rightarrow> Client \<Rightarrow> Client" where
  "connectEnd ok c =
     (let c = (if ok then c\<lparr>conn := Some (nextConn c), nextConn := nextConn c + 1\<rparr> else c) in c\<lparr>mutex := None\<rparr>)"

definition IsConnected :: "Client \<Rightarrow> bool" where
  "IsConnected c \<longleftrightarrow> conn c \<noteq> None"

definition CloseClient :: "Client \<Rightarrow> Client" where
  "CloseClient c =
     (case conn c of
        Some x \<Rightarrow> c\<lparr>closedConns := closedConns c @ [x], conn := None\<rparr>
      | None \<Rightarrow> c)"

definition getConn :: "Client \<Rightarrow> nat option" where
  "getConn c = conn c"

datatype op = ORead | OWrite | OLocalAddr | ORemoteAddr | OSetDeadline | OSetReadDeadline | OSetWriteDeadline

text \<open>The operations that use the field of the client again instead of the connection they have got.\<close>

fun usesField :: "op \<Rightarrow> bool" where
  "usesField OWrite = True"
| "usesField OLocalAddr = True"
| "usesField ORemoteAddr = True"
| "usesField _ = False"

fun reportsError :: "op \<Rightarrow> bool" where
  "reportsError OLocalAddr = False"
| "reportsError ORemoteAddr = False"
| "reportsError _ = True"

text \<open>Whether \<open>handleError\<close> closes the client.\<close>

definition closesOn :: "terr option \<Rightarrow> bool" where
  "closesOn err = (case err of None \<Rightarrow> False | Some e \<Rightarrow> (case asNetError e of Some timeout \<Rightarrow> \<not> timeout | None \<Rightarrow> False))"

section \<open>Interleavings\<close>

text \<open>
  A goroutine is idle, dials with the lock held, has got a connection for an operation, is about to close
  the client after an error on a connection, or has panicked.
\<close>

datatype pc = Idle | Dialing | Got op nat | Failed nat | Panicked

record sys =
  client :: Client
  pcs :: "nat \<Rightarrow> pc"

datatype act = AConnect | ADialed bool | AClose | AStart op | AUse "terr option" | AHandle

text \<open>
  One step of a goroutine, None when it cannot be taken: a section under the lock waits until it is free. The
  connections that \<open>Client.Test\<close> dials and closes are its own and are not steps here.
\<close>

fun cstep :: "nat \<Rightarrow> act \<Rightarrow> sys \<Rightarrow> sys option" where
  "cstep t AConnect s =
     (if pcs s t = Idle \<and> mutex (client s) = None then
        Some (s\<lparr>client := connectBegin t (client s), pcs := (pcs s)(t := Dialing)\<rparr>)
      else None)"
| "cstep t (ADialed ok) s =
     (if pcs s t = Dialing then Some (s\<lparr>client := connectEnd ok (client s), pcs := (pcs s)(t := Idle)\<rparr>) else None)"
| "cstep t AClose s =
     (if pcs s t = Idle \<and> mutex (client s) = None then Some (s\<lparr>client := CloseClient (client s)\<rparr>) else None)"
| "cstep t (AStart op) s =
     (if pcs s t = Idle \<and> mutex (client s) = None then
        (case getConn (client s) of
           None \<Rightarrow> Some s
         | Some c \<Rightarrow> Some (s\<lparr>pcs := (pcs s)(t := Got op c)\<rparr>))
      else None)"
| "cstep t (AUse err) s =
     (case pcs s t of
        Got op c \<Rightarrow>
          (case (if usesField op then conn (client s) else Some c) of
             None \<Rightarrow> Some (s\<lparr>pcs := (pcs s)(t := Panicked)\<rparr>)
           | Some d \<Rightarrow>
               Some (s\<lparr>pcs := (pcs s)(t := if reportsError op \<and> closesOn err then Failed d else Idle)\<rparr>))
      | _ \<Rightarrow> None)"
| "cstep t AHandle s =
     (case pcs s t of
        Failed c \<Rightarrow>
          (if mutex (client s) = None then
             Some (s\<lparr>client := CloseClient (client s), pcs := (pcs s)(t := Idle)\<rparr>)
           else None)
      | _ \<Rightarrow> None)"

text \<open>Steps of the goroutines in any order.\<close>

abbreviation crun :: "(nat \<times> act) list \<Rightarrow> sys \<Rightarrow> sys option" where
  "crun \<equiv> runs (\<lambda>(t, a). cstep t a)"

definition initSys :: "string \<Rightarrow> string \<Rightarrow> sys" where
  "initSys n h = \<lparr>client = newClientState n h, pcs = \<lambda>_. Idle\<rparr>"

section \<open>Laws\<close>

text \<open>Every connection dialed is in use or has been closed, and the lock is held while dialing.\<close>

definition client_inv :: "sys \<Rightarrow> bool" where
  "client_inv s \<longleftrightarrow>
     (let c = client s in
      distinct (closedConns c) \<and> set (closedConns c) \<union> set_option (conn c) = {..<nextConn c} \<and>
      (\<forall>x. conn c = Some x \<longrightarrow> x \<notin> set (closedConns c)) \<and>
      (\<forall>t. mutex c = Some t \<longleftrightarrow> pcs s t = Dialing) \<and> (mutex c \<noteq> None \<longrightarrow> conn c = None))"

lemmas client_defs = connectBegin_def connectEnd_def CloseClient_def getConn_def Let_def

lemma inv_pcs: "client_inv s \<Longrightarrow> pcs s t \<noteq> Dialing \<Longrightarrow> v \<noteq> Dialing \<Longrightarrow> client_inv (s\<lparr>pcs := (pcs s)(t := v)\<rparr>)"
  by (simp add: client_inv_def Let_def)

lemma cstep_inv:
  assumes "client_inv s" and "cstep t a s = Some s'"
  shows "client_inv s'"
proof (cases a)
  case AConnect
  then show ?thesis using assms
    by (cases "conn (client s)") (auto simp: client_inv_def client_defs split: if_splits)
next
  case (ADialed ok)
  then have "pcs s t = Dialing" and s': "s' = s\<lparr>client := connectEnd ok (client s), pcs := (pcs s)(t := Idle)\<rparr>"
    using assms(2) by (auto split: if_splits)
  then have "mutex (client s) = Some t" "conn (client s) = None" using assms(1) by (auto simp: client_inv_def Let_def)
  then show ?thesis using assms(1) s'
    by (auto simp: client_inv_def client_defs lessThan_Suc split: if_splits)
next
  case AClose
  then show ?thesis using assms
    by (cases "conn (client s)") (auto simp: client_inv_def client_defs split: if_splits)
next
  case (AStart op)
  then show ?thesis using assms by (auto simp: inv_pcs split: if_splits option.splits)
next
  case (AUse err)
  then show ?thesis using assms by (auto simp: inv_pcs split: pc.splits option.splits if_splits)
next
  case AHandle
  then show ?thesis using assms
    by (cases "conn (client s)") (auto simp: client_inv_def client_defs split: pc.splits if_splits)
qed

lemma client_init: "client_inv (initSys n h)"
  by (simp add: client_inv_def initSys_def newClientState_def)

interpretation shared_client: machine_invariant "\<lambda>(t, a). cstep t a" "initSys n h" client_inv "\<lambda>_. True" for n h
  by unfold_locales (auto intro: client_init cstep_inv)

text \<open>
  C12. Whatever the goroutines that share a client do and in whatever order, no connection is lost and
  none is closed twice: every connection ever dialed is either the one in use or was closed exactly
  once, never both, and while a goroutine dials there is no connection in use and no other one holds the
  lock.\<close>

theorem client_no_leak:
  assumes "crun as (initSys n h) = Some s"
  shows "distinct (closedConns (client s)) \<and> set (closedConns (client s)) \<inter> set_option (conn (client s)) = {} \<and>
    set (closedConns (client s)) \<union> set_option (conn (client s)) = {..<nextConn (client s)} \<and>
    (\<forall>t. pcs s t = Dialing \<longrightarrow> mutex (client s) = Some t \<and> \<not> IsConnected (client s))"
  using shared_client.reachable_inv [OF list_all_True assms] by (auto simp: client_inv_def Let_def IsConnected_def)

theorem client_no_leak_witness:
  "\<exists>s. crun [(1, AConnect), (1, ADialed True), (2, AClose), (1, AConnect), (1, ADialed True)] (initSys [] []) = Some s \<and>
     set (closedConns (client s)) \<union> set_option (conn (client s)) = {..<2}"
proof -
  let ?as = "[(1, AConnect), (1, ADialed True), (2, AClose), (1, AConnect), (1, ADialed True)]"
  obtain s where s: "crun ?as (initSys [] []) = Some s" "nextConn (client s) = 2"
    by (simp add: initSys_def newClientState_def client_defs)
  then show ?thesis using client_no_leak [OF s(1)] by auto
qed

text \<open>One goroutine alone: the connection it has got is the one in use.\<close>

definition alone_inv :: "nat \<Rightarrow> sys \<Rightarrow> bool" where
  "alone_inv t s \<longleftrightarrow>
     (case pcs s t of
        Idle \<Rightarrow> mutex (client s) = None
      | Dialing \<Rightarrow> True
      | Got op c \<Rightarrow> conn (client s) = Some c \<and> mutex (client s) = None
      | Failed c \<Rightarrow> conn (client s) = Some c \<and> mutex (client s) = None
      | Panicked \<Rightarrow> False)"

lemma cstep_alone: "alone_inv t s \<Longrightarrow> cstep t a s = Some s' \<Longrightarrow> alone_inv t s'"
  by (cases a) (auto simp: alone_inv_def client_defs split: pc.splits option.splits if_splits)

lemma alone_init: "alone_inv t (initSys n h)"
  by (simp add: alone_inv_def initSys_def newClientState_def)

interpretation single_client: machine_invariant "\<lambda>(t, a). cstep t a" "initSys n h" "alone_inv t" "\<lambda>(u, a). u = t" for n h t
  by unfold_locales (auto intro: alone_init cstep_alone)

text \<open>
  C37. A goroutine that has the client for itself never panics, and the connection it closes after an
  error is the one that failed. With two goroutines neither holds: a \<open>Write\<close> that has got its connection can be in a
  state, reached when the other closes the client between its two reads of the connection, in which its next step panics;
  and if one reconnects between the failure of a \<open>Read\<close> of the other and its handling, the new connection is closed.\<close>

theorem client_races:
  "(\<forall>t as s. fst ` set as \<subseteq> {t} \<and> crun as (initSys n h) = Some s \<longrightarrow>
      pcs s t \<noteq> Panicked \<and> (\<forall>c. pcs s t = Failed c \<longrightarrow> conn (client s) = Some c)) \<and>
   (\<exists>as s t c. crun as (initSys n h) = Some s \<and> pcs s t = Got OWrite c \<and>
      (\<forall>err. \<exists>s'. cstep t (AUse err) s = Some s' \<and> pcs s' t = Panicked)) \<and>
   (\<exists>as s s' t c d. crun as (initSys n h) = Some s \<and> pcs s t = Failed c \<and> conn (client s) = Some d \<and> c \<noteq> d \<and>
      cstep t AHandle s = Some s' \<and> d \<in> set (closedConns (client s')))"
proof (intro conjI allI impI)
  fix t as s assume "fst ` set as \<subseteq> {t} \<and> crun as (initSys n h) = Some s"
  then have "alone_inv t s"
    using single_client.reachable_inv [of t as n h s] by (fastforce simp: list_all_iff)
  then show "pcs s t \<noteq> Panicked" "\<And>c. pcs s t = Failed c \<Longrightarrow> conn (client s) = Some c"
    by (auto simp: alone_inv_def)
next
  have "\<exists>s. crun [(1, AConnect), (1, ADialed True), (1, AStart OWrite), (2, AClose)] (initSys n h) = Some s \<and>
      pcs s 1 = Got OWrite 0 \<and> (\<forall>err. \<exists>s'. cstep 1 (AUse err) s = Some s' \<and> pcs s' 1 = Panicked)"
    by (simp add: initSys_def newClientState_def client_defs)
  then show "\<exists>as s t c. crun as (initSys n h) = Some s \<and> pcs s t = Got OWrite c \<and>
      (\<forall>err. \<exists>s'. cstep t (AUse err) s = Some s' \<and> pcs s' t = Panicked)" by blast
next
  let ?as = "[(1, AConnect), (1, ADialed True), (1, AStart ORead), (1, AUse (Some (NetErr False))), (2, AConnect), (2, ADialed True)]"
  have "\<exists>s s'. crun ?as (initSys n h) = Some s \<and> pcs s 1 = Failed 0 \<and> conn (client s) = Some 1 \<and>
      cstep 1 AHandle s = Some s' \<and> 1 \<in> set (closedConns (client s'))"
    by (simp add: initSys_def newClientState_def client_defs closesOn_def)
  then show "\<exists>as s s' t c d. crun as (initSys n h) = Some s \<and> pcs s t = Failed c \<and> conn (client s) = Some d \<and> c \<noteq> d \<and>
      cstep t AHandle s = Some s' \<and> d \<in> set (closedConns (client s'))" by (metis zero_neq_one)
qed

theorem client_races_witness:
  "\<exists>s. crun [(1, AConnect), (1, ADialed True), (1, AStart ORead), (1, AUse (Some (NetErr False)))] (initSys [] []) = Some s \<and>
     pcs s 1 = Failed 0 \<and> conn (client s) = Some 0"
proof -
  let ?as = "[(1, AConnect), (1, ADialed True), (1, AStart ORead), (1, AUse (Some (NetErr False)))]"
  have "\<exists>s. crun ?as (initSys [] []) = Some s \<and> pcs s 1 = Failed 0"
    by (simp add: initSys_def newClientState_def client_defs closesOn_def)
  then obtain s where s: "crun ?as (initSys [] []) = Some s" "pcs s 1 = Failed 0" by blast
  have "fst ` set ?as \<subseteq> {1}" by simp
  then show ?thesis using client_races [of "[]" "[]"] s by blast
qed

end
