(* ===== verification/Pipelistener.thy ===== *)
theory Pipelistener
  imports Go_Machine
begin

text \<open>
  The listener over \<open>net.Pipe\<close> (src/transport/pipelistener.go) as a state machine: goroutines call \<open>DialContext\<close>,
  \<open>Accept\<close> and \<open>Close\<close> in any order. Each call of \<open>DialContext\<close> makes a pipe, numbered in the order they are made,
  and blocks in a select until an \<open>Accept\<close> receives the server end over the unbuffered channel, the
  listener is closed, or the context is done; when several cases are ready any of them may be taken.
\<close>

section \<open>The state machine\<close>

record PipeListener =
  closed :: bool
  nextPipe :: nat
  closedPipes :: "nat list"

definition NewPipeListener :: PipeListener where
  "NewPipeListener = \<lparr>closed = False, nextPipe = 0, closedPipes = []\<rparr>"

text \<open>\<open>closeOnce\<close> makes every call after the first do nothing.\<close>

definition ClosePipe :: "PipeListener \<Rightarrow> PipeListener" where
  "ClosePipe l = l\<lparr>closed := True\<rparr>"

datatype result = ClientEnd nat | ServerEnd nat | ListenerClosed | ContextErr

text \<open>
  Where a goroutine is: not in a call, or blocked in one of the two selects. The results of the calls that have
  returned are logged with their goroutines, the latest first.
\<close>

datatype ppc = PIdle | PDialing nat | PAccepting

record psys =
  listener :: PipeListener
  ppcs :: "nat \<Rightarrow> ppc"
  plog :: "(nat \<times> result) list"

definition initPipe :: psys where
  "initPipe = \<lparr>listener = NewPipeListener, ppcs = (\<lambda>_. PIdle), plog = []\<rparr>"

definition enter :: "nat \<Rightarrow> ppc \<Rightarrow> psys \<Rightarrow> psys" where
  "enter t p s = s\<lparr>ppcs := (ppcs s)(t := p)\<rparr>"

definition return :: "nat \<Rightarrow> result \<Rightarrow> psys \<Rightarrow> psys" where
  "return t r s = s\<lparr>ppcs := (ppcs s)(t := PIdle), plog := (t, r) # plog s\<rparr>"

definition dialBegin :: "nat \<Rightarrow> psys \<Rightarrow> psys" where
  "dialBegin t s =
     enter t (PDialing (nextPipe (listener s))) (s\<lparr>listener := (listener s)\<lparr>nextPipe := nextPipe (listener s) + 1\<rparr>\<rparr>)"

text \<open>Both ends are closed, and the error is returned.\<close>

definition dialFail :: "nat \<Rightarrow> nat \<Rightarrow> result \<Rightarrow> psys \<Rightarrow> psys" where
  "dialFail t n r s = return t r (s\<lparr>listener := (listener s)\<lparr>closedPipes := n # closedPipes (listener s)\<rparr>\<rparr>)"

text \<open>The argument of \<open>PCancel\<close> is a goroutine whose context is done.\<close>

datatype pact = PDial nat | PAccept nat | PClose | PRendezvous nat nat | PSeeClosed nat | PCancel nat

fun pstep :: "pact \<Rightarrow> psys \<Rightarrow> psys option" where
  "pstep (PDial t) s = (if ppcs s t = PIdle then Some (dialBegin t s) else None)"
| "pstep (PAccept t) s = (if ppcs s t = PIdle then Some (enter t PAccepting s) else None)"
| "pstep PClose s = Some (s\<lparr>listener := ClosePipe (listener s)\<rparr>)"
| "pstep (PRendezvous t u) s =
     (case (ppcs s t, ppcs s u) of
        (PDialing n, PAccepting) \<Rightarrow> Some (return u (ServerEnd n) (return t (ClientEnd n) s))
      | _ \<Rightarrow> None)"
| "pstep (PSeeClosed t) s =
     (if \<not> closed (listener s) then None
      else
        (case ppcs s t of
           PDialing n \<Rightarrow> Some (dialFail t n ListenerClosed s)
         | PAccepting \<Rightarrow> Some (return t ListenerClosed s)
         | PIdle \<Rightarrow> None))"
| "pstep (PCancel t) s = (case ppcs s t of PDialing n \<Rightarrow> Some (dialFail t n ContextErr s) | _ \<Rightarrow> None)"

lemmas pipe_defs = initPipe_def NewPipeListener_def ClosePipe_def enter_def return_def dialBegin_def dialFail_def

section \<open>No pipe is lost\<close>

fun clientEnds :: "(nat \<times> result) list \<Rightarrow> nat list" where
  "clientEnds [] = []"
| "clientEnds ((t, ClientEnd n) # rs) = n # clientEnds rs"
| "clientEnds (_ # rs) = clientEnds rs"

fun serverEnds :: "(nat \<times> result) list \<Rightarrow> nat list" where
  "serverEnds [] = []"
| "serverEnds ((t, ServerEnd n) # rs) = n # serverEnds rs"
| "serverEnds (_ # rs) = serverEnds rs"

definition dialing :: "psys \<Rightarrow> nat set" where
  "dialing s = {n. \<exists>t. ppcs s t = PDialing n}"

definition pipe_inv :: "psys \<Rightarrow> bool" where
  "pipe_inv s \<longleftrightarrow>
     clientEnds (plog s) = serverEnds (plog s) \<and>
     distinct (serverEnds (plog s) @ closedPipes (listener s)) \<and>
     (\<forall>t u n. ppcs s t = PDialing n \<longrightarrow> ppcs s u = PDialing n \<longrightarrow> t = u) \<and>
     dialing s \<inter> set (serverEnds (plog s) @ closedPipes (listener s)) = {} \<and>
     dialing s \<union> set (serverEnds (plog s) @ closedPipes (listener s)) = {..<nextPipe (listener s)}"

text \<open>The pipes that are dialed when a goroutine enters or leaves a call.\<close>

lemma dialing_update:
  "dialing (s\<lparr>ppcs := (ppcs s)(t := p)\<rparr>) = {n. \<exists>u. u \<noteq> t \<and> ppcs s u = PDialing n} \<union> {n. p = PDialing n}"
  by (auto simp: dialing_def split: if_splits)

lemma others_same:
  assumes "\<And>n. ppcs s t \<noteq> PDialing n"
  shows "{n. \<exists>u. u \<noteq> t \<and> ppcs s u = PDialing n} = dialing s"
proof -
  have "u \<noteq> t" if "ppcs s u = PDialing n" for u n using that assms by auto
  then show ?thesis unfolding dialing_def by blast
qed

lemma others_less:
  assumes "ppcs s t = PDialing n" and "pipe_inv s"
  shows "{m. \<exists>u. u \<noteq> t \<and> ppcs s u = PDialing m} = dialing s - {n}"
proof -
  have "u = t" if "ppcs s u = PDialing n" for u using that assms unfolding pipe_inv_def by blast
  then have "m \<noteq> n" if "ppcs s u = PDialing m" "u \<noteq> t" for u m using that by auto
  moreover have "u \<noteq> t" if "ppcs s u = PDialing m" "m \<noteq> n" for u m using that assms(1) by auto
  ultimately show ?thesis unfolding dialing_def by blast
qed

lemma dialing_rest [simp]:
  "dialing (s\<lparr>listener := l\<rparr>) = dialing s" "dialing (s\<lparr>plog := p\<rparr>) = dialing s"
  by (simp_all add: dialing_def)

lemma dialing_return_accept: "ppcs s t = PAccepting \<Longrightarrow> dialing (return t r s) = dialing s"
  using dialing_update [of s t PIdle] others_same [of s t] by (simp add: return_def)

lemma dialing_return_dial: "ppcs s t = PDialing n \<Longrightarrow> pipe_inv s \<Longrightarrow> dialing (return t r s) = dialing s - {n}"
  using dialing_update [of s t PIdle] others_less [of s t n] by (simp add: return_def)

lemma inv_dial: "pipe_inv s \<Longrightarrow> ppcs s t = PIdle \<Longrightarrow> pipe_inv (dialBegin t s)"
proof -
  assume i: "pipe_inv s" and t: "ppcs s t = PIdle"
  let ?n = "nextPipe (listener s)"
  have d: "dialing (dialBegin t s) = dialing s \<union> {?n}"
    using dialing_update [of s t "PDialing ?n"] others_same [of s t] t by (simp add: dialBegin_def enter_def dialing_def)
  have n: "?n \<notin> dialing s" "?n \<notin> set (serverEnds (plog s) @ closedPipes (listener s))"
    using i unfolding pipe_inv_def by auto
  have inj: "\<forall>u v m. ppcs (dialBegin t s) u = PDialing m \<longrightarrow> ppcs (dialBegin t s) v = PDialing m \<longrightarrow> u = v"
    using i n(1) unfolding pipe_inv_def dialing_def by (auto simp: dialBegin_def enter_def)
  have "plog (dialBegin t s) = plog s" "closedPipes (listener (dialBegin t s)) = closedPipes (listener s)"
    "nextPipe (listener (dialBegin t s)) = Suc ?n" by (simp_all add: dialBegin_def enter_def)
  then show ?thesis using i d n inj unfolding pipe_inv_def by (auto simp: lessThan_Suc)
qed

lemma inv_fail: "pipe_inv s \<Longrightarrow> ppcs s t = PDialing n \<Longrightarrow> r \<in> {ListenerClosed, ContextErr} \<Longrightarrow> pipe_inv (dialFail t n r s)"
proof -
  assume i: "pipe_inv s" and t: "ppcs s t = PDialing n" and r: "r \<in> {ListenerClosed, ContextErr}"
  have d: "dialing (dialFail t n r s) = dialing s - {n}"
    using dialing_return_dial [OF t i, of r] by (simp add: dialFail_def return_def dialing_def)
  have n: "n \<in> dialing s" using t by (auto simp: dialing_def)
  have l: "clientEnds (plog (dialFail t n r s)) = clientEnds (plog s)" "serverEnds (plog (dialFail t n r s)) = serverEnds (plog s)"
    "closedPipes (listener (dialFail t n r s)) = n # closedPipes (listener s)" "nextPipe (listener (dialFail t n r s)) = nextPipe (listener s)"
    using r by (auto simp: dialFail_def return_def)
  have inj: "\<forall>u v m. ppcs (dialFail t n r s) u = PDialing m \<longrightarrow> ppcs (dialFail t n r s) v = PDialing m \<longrightarrow> u = v"
    using i unfolding pipe_inv_def by (auto simp: dialFail_def return_def)
  show ?thesis using i d n l inj unfolding pipe_inv_def by auto
qed

lemma inv_rendezvous:
  "pipe_inv s \<Longrightarrow> ppcs s t = PDialing n \<Longrightarrow> ppcs s u = PAccepting \<Longrightarrow> pipe_inv (return u (ServerEnd n) (return t (ClientEnd n) s))"
proof -
  assume i: "pipe_inv s" and t: "ppcs s t = PDialing n" and u: "ppcs s u = PAccepting"
  let ?s = "return u (ServerEnd n) (return t (ClientEnd n) s)"
  have "ppcs (return t (ClientEnd n) s) u = PAccepting" using t u by (auto simp: return_def)
  then have d: "dialing ?s = dialing s - {n}" using dialing_return_dial [OF t i] dialing_return_accept by simp
  have n: "n \<in> dialing s" using t by (auto simp: dialing_def)
  have inj: "\<forall>u v m. ppcs ?s u = PDialing m \<longrightarrow> ppcs ?s v = PDialing m \<longrightarrow> u = v"
    using i unfolding pipe_inv_def by (auto simp: return_def)
  have "plog ?s = (u, ServerEnd n) # (t, ClientEnd n) # plog s" "listener ?s = listener s" by (simp_all add: return_def)
  then show ?thesis using i d n inj unfolding pipe_inv_def by auto
qed

lemma inv_accept:
  "pipe_inv s \<Longrightarrow> ppcs s t = PIdle \<Longrightarrow> pipe_inv (enter t PAccepting s)"
  "pipe_inv s \<Longrightarrow> ppcs s t = PAccepting \<Longrightarrow> pipe_inv (return t ListenerClosed s)"
  using dialing_update [of s t PAccepting] others_same [of s t] dialing_return_accept [of s t ListenerClosed]
  by (auto simp: pipe_inv_def enter_def return_def)

lemma pstep_inv: "pipe_inv s \<Longrightarrow> pstep a s = Some s' \<Longrightarrow> pipe_inv s'"
proof (cases a)
  case PClose
  assume "pipe_inv s" "pstep a s = Some s'"
  then show ?thesis using PClose by (auto simp: pipe_inv_def ClosePipe_def)
qed (auto intro: inv_dial inv_accept inv_fail inv_rendezvous split: ppc.splits if_splits)

lemma pipe_init: "pipe_inv initPipe"
  by (simp add: pipe_inv_def dialing_def initPipe_def NewPipeListener_def)

interpretation pipes: machine_invariant pstep initPipe pipe_inv "\<lambda>_. True"
  by unfold_locales (auto intro: pipe_init pstep_inv)

text \<open>
  C30. Whatever the goroutines that share a listener do and in whatever order: of every pipe ever made, either exactly one
  call of \<open>DialContext\<close> is still waiting with it, or both its ends were handed out, each exactly once, to
  a caller of \<open>DialContext\<close> and one of \<open>Accept\<close>, or both were closed; and only one of these. A call can return as soon as the
  listener is closed, and a waiting dial and a waiting accept can always meet.
\<close>

theorem pipe_no_leak:
  assumes "runs pstep as initPipe = Some s"
  shows "clientEnds (plog s) = serverEnds (plog s) \<and> distinct (serverEnds (plog s) @ closedPipes (listener s)) \<and>
    dialing s \<inter> set (serverEnds (plog s) @ closedPipes (listener s)) = {} \<and>
    dialing s \<union> set (serverEnds (plog s) @ closedPipes (listener s)) = {..<nextPipe (listener s)} \<and>
    (\<forall>n \<in> dialing s. \<exists>!t. ppcs s t = PDialing n) \<and>
    (closed (listener s) \<longrightarrow> (\<forall>t. ppcs s t \<noteq> PIdle \<longrightarrow> (\<exists>s'. pstep (PSeeClosed t) s = Some s' \<and> ppcs s' t = PIdle))) \<and>
    (\<forall>t u n. ppcs s t = PDialing n \<and> ppcs s u = PAccepting \<longrightarrow> (\<exists>s'. pstep (PRendezvous t u) s = Some s'))"
proof -
  have i: "pipe_inv s" using pipes.reachable_inv [OF list_all_True assms] .
  have "\<forall>n \<in> dialing s. \<exists>!t. ppcs s t = PDialing n"
    using i unfolding pipe_inv_def dialing_def by blast
  moreover have "\<exists>s'. pstep (PSeeClosed t) s = Some s' \<and> ppcs s' t = PIdle" if "closed (listener s)" "ppcs s t \<noteq> PIdle" for t
    using that by (cases "ppcs s t") (auto simp: dialFail_def return_def)
  ultimately show ?thesis using i unfolding pipe_inv_def by auto
qed

theorem pipe_no_leak_witness:
  "\<exists>s. runs pstep [PDial 1, PAccept 2, PRendezvous 1 2, PDial 1] initPipe = Some s \<and> dialing s = {1} \<and> serverEnds (plog s) = [0] \<and> set (serverEnds (plog s) @ closedPipes (listener s)) \<union> dialing s = {..<2}"
proof -
  have "\<exists>s. runs pstep [PDial 1, PAccept 2, PRendezvous 1 2, PDial 1] initPipe = Some s \<and> ppcs s 1 = PDialing 1 \<and>
      (\<forall>t. t \<noteq> 1 \<longrightarrow> ppcs s t = PIdle) \<and> plog s = [(2, ServerEnd 0), (1, ClientEnd 0)] \<and> nextPipe (listener s) = 2"
    by (simp add: pipe_defs)
  then obtain s where s: "runs pstep [PDial 1, PAccept 2, PRendezvous 1 2, PDial 1] initPipe = Some s" "ppcs s 1 = PDialing 1" "\<forall>t. t \<noteq> 1 \<longrightarrow> ppcs s t = PIdle"
    "plog s = [(2, ServerEnd 0), (1, ClientEnd 0)]" "nextPipe (listener s) = 2"
    by blast
  have "n = 1" if "ppcs s t = PDialing n" for t n using that s(2,3) by (cases "t = 1") auto
  then have "dialing s = {1}" unfolding dialing_def using s(2) by blast
  then show ?thesis using s pipe_no_leak [OF s(1)] by (intro exI [of _ s]) (simp add: Un_commute)
qed

end
