(* ===== verification/Go_Http.thy ===== *)
theory Go_Http
  imports Go_Utf8
begin

text \<open>
  What the packages use of \<open>net/http\<close>, \<open>net/textproto\<close> and \<open>net/url\<close>: headers with their canonical keys,
  and URLs.
\<close>

section \<open>Headers\<close>

type_synonym header = "(string, string list) gomap"

definition isLower :: "char \<Rightarrow> bool" where
  "isLower c \<longleftrightarrow> 97 \<le> (of_char c :: nat) \<and> (of_char c :: nat) \<le> 122"

definition isTokenByte :: "char \<Rightarrow> bool" where
  "isTokenByte c \<longleftrightarrow> is_digit c \<or> is_upper_ascii c \<or> isLower c \<or> c \<in> set ''!#$%&*+-.^_|~`'' \<or> c = CHR 0x27"

definition upper_byte :: "char \<Rightarrow> char" where
  "upper_byte c = (if isLower c then char_of ((of_char c :: nat) - 32) else c)"

fun canonicalLoop :: "bool \<Rightarrow> string \<Rightarrow> string" where
  "canonicalLoop upper [] = []"
| "canonicalLoop upper (c # cs) = (if upper then upper_byte c else lower_byte c) # canonicalLoop (c = CHR ''-'') cs"

text \<open>\<open>textproto.CanonicalMIMEHeaderKey\<close>.\<close>

definition canonicalKey :: "string \<Rightarrow> string" where
  "canonicalKey k = (if list_all isTokenByte k then canonicalLoop True k else k)"

definition hGetAll :: "header \<Rightarrow> string \<Rightarrow> string list" where
  "hGetAll h k = (case map_of h (canonicalKey k) of Some vs \<Rightarrow> vs | None \<Rightarrow> [])"

definition hGet :: "header \<Rightarrow> string \<Rightarrow> string" where
  "hGet h k = (case hGetAll h k of [] \<Rightarrow> [] | v # _ \<Rightarrow> v)"

definition hAdd :: "string \<Rightarrow> string \<Rightarrow> header \<Rightarrow> header" where
  "hAdd k v h = map_put (canonicalKey k) (hGetAll h k @ [v]) h"

definition hSet :: "string \<Rightarrow> string \<Rightarrow> header \<Rightarrow> header" where
  "hSet k v h = map_put (canonicalKey k) [v] h"

lemma hGetAll_Nil [simp]: "hGetAll [] k = []"
  by (simp add: hGetAll_def)

lemma hGetAll_hSet: "hGetAll (hSet k v h) k' = (if canonicalKey k = canonicalKey k' then [v] else hGetAll h k')"
  by (simp add: hGetAll_def hSet_def)

lemma hGetAll_hAdd: "hGetAll (hAdd k v h) k' = (if canonicalKey k = canonicalKey k' then hGetAll h k' @ [v] else hGetAll h k')"
  by (simp add: hGetAll_def hAdd_def)

section \<open>URLs\<close>

text \<open>The parts of a URL that the packages look at, and the rest.\<close>

record URL =
  Scheme :: string
  UHost :: string
  UPath :: string
  UUser :: "(string \<times> string) option"
  URest :: string

end
