(* ===== verification/Httpcommon.thy ===== *)
theory Httpcommon
  imports Go_Http Transport_Laws Tls_Load
begin

text \<open>
  The settings of HTTP clients (src/transport/httpcommon): proxy addresses (proxy_uri.go), proxy headers
  (proxy_headers.go) and settings (proxy.go), the round tripper made of the settings and options, the
  headers it adds, and the reading of a response with a limit (httpcommon.go), and the dialer that logs
  (src/transport/logging.go).

  URLs are parsed and rendered by arguments, and so are JSON, YAML and go-ucfg; \<open>http.Transport\<close> is the record of the
  fields that are set, with the default one as an argument.
\<close>

section \<open>Addresses, headers and settings of a proxy\<close>

datatype herr =
    HErr string | HLoad load_error | HNilResponse | ErrResponseLimit int int
  | HKnown int herr | HUnknown herr | HEOF | HUnexpectedEOF

definition zeroURL :: URL where
  "zeroURL = \<lparr>Scheme = [], UHost = [], UPath = [], UUser = None, URest = []\<rparr>"

type_synonym urlParser = "string \<Rightarrow> URL + herr"

definition NewProxyURIFromURL :: "URL \<Rightarrow> URL option" where
  "NewProxyURIFromURL u = (if u = zeroURL then None else Some u)"

definition NewProxyURIFromString :: "urlParser \<Rightarrow> string \<Rightarrow> (herr, URL option) outcome" where
  "NewProxyURIFromString parse s =
     (if s = [] then Ok None
      else (case parse s of Inr e \<Rightarrow> Err e | Inl u \<Rightarrow> Ok (NewProxyURIFromURL u)))"

text \<open>The result is dereferenced without a check.\<close>

definition ProxyURI_Unpack :: "urlParser \<Rightarrow> string \<Rightarrow> (herr, URL) outcome" where
  "ProxyURI_Unpack parse s =
     bind_outcome (NewProxyURIFromString parse s) (\<lambda>uri. case uri of None \<Rightarrow> Panic | Some u \<Rightarrow> Ok u)"

definition trimQuotes :: "string \<Rightarrow> string" where
  "trimQuotes s = rev (dropWhile (\<lambda>c. c = CHR 0x22) (rev (dropWhile (\<lambda>c. c = CHR 0x22) s)))"

definition ProxyURI_UnmarshalJSON :: "urlParser \<Rightarrow> string \<Rightarrow> (herr, URL) outcome" where
  "ProxyURI_UnmarshalJSON parse b =
     bind_outcome (NewProxyURIFromString parse (trimQuotes b)) (\<lambda>uri. case uri of None \<Rightarrow> Panic | Some u \<Rightarrow> Ok u)"

definition ProxyURI_UnmarshalYAML :: "urlParser \<Rightarrow> string + herr \<Rightarrow> (herr, URL) outcome" where
  "ProxyURI_UnmarshalYAML parse raw =
     (case raw of
        Inr e \<Rightarrow> Err e
      | Inl rawURI \<Rightarrow>
          bind_outcome (NewProxyURIFromString parse rawURI) (\<lambda>uri. case uri of None \<Rightarrow> Panic | Some u \<Rightarrow> Ok u))"

text \<open>\<open>String\<close> and \<open>MarshalYAML\<close> render the URL, \<open>MarshalJSON\<close> encodes this text.\<close>

definition ProxyURI_MarshalYAML :: "(URL \<Rightarrow> string) \<Rightarrow> URL \<Rightarrow> string" where
  "ProxyURI_MarshalYAML render p = render p"

definition ProxyURI_MarshalJSON :: "(URL \<Rightarrow> string) \<Rightarrow> (string \<Rightarrow> string) \<Rightarrow> URL \<Rightarrow> string" where
  "ProxyURI_MarshalJSON render quote p = quote (render p)"

type_synonym ProxyHeaders = "(string, string) gomap"

definition ProxyHeaders_Unpack :: "ProxyHeaders + herr \<Rightarrow> ProxyHeaders \<Rightarrow> ProxyHeaders \<times> herr option" where
  "ProxyHeaders_Unpack res p = (case res of Inl m \<Rightarrow> (m, None) | Inr e \<Rightarrow> (p, Some e))"

definition ProxyHeaders_Headers :: "ProxyHeaders \<Rightarrow> header option" where
  "ProxyHeaders_Headers p = (if p \<noteq> [] then Some (fold (\<lambda>(k, v) h. hAdd k v h) p []) else None)"

record HTTPClientProxySettings =
  PURL :: "URL option"
  PHeaders :: ProxyHeaders
  PDisable :: bool

definition NewHTTPClientProxySettings ::
  "urlParser \<Rightarrow> string \<Rightarrow> ProxyHeaders \<Rightarrow> bool \<Rightarrow> (herr, HTTPClientProxySettings) outcome" where
  "NewHTTPClientProxySettings parse u headers disable =
     bind_outcome (NewProxyURIFromString parse u) (\<lambda>proxyURI.
       Ok \<lparr>PURL = proxyURI, PHeaders = headers, PDisable = disable\<rparr>)"


text \<open>The argument is what go-ucfg reads: the address, whether the proxy is disabled, and the headers.\<close>

definition ProxySettings_Unpack ::
  "urlParser \<Rightarrow> (string \<times> bool \<times> ProxyHeaders) + herr \<Rightarrow> (herr, HTTPClientProxySettings) outcome" where
  "ProxySettings_Unpack parse tmp =
     (case tmp of
        Inr e \<Rightarrow> Err e
      | Inl (u, disable, headers) \<Rightarrow> NewHTTPClientProxySettings parse u headers disable)"

datatype proxyFunc = ProxyFromEnvironment | ProxyToURL URL

definition ProxyFunc :: "HTTPClientProxySettings \<Rightarrow> proxyFunc option" where
  "ProxyFunc settings =
     (if PDisable settings then None
      else (case PURL settings of None \<Rightarrow> Some ProxyFromEnvironment | Some u \<Rightarrow> Some (ProxyToURL u)))"

section \<open>Settings of the transport\<close>

record HTTPTransportSettings =
  STLS :: "Config option"
  STimeout :: int
  SProxy :: HTTPClientProxySettings
  SIdleConnTimeout :: int



text \<open>
  The first argument of go-ucfg gives the settings it reads over the old time-outs, the second the values of
  the proxy. \<open>None\<close>: loading the certificates does not return.
\<close>

definition Settings_Unpack ::
  "loader \<Rightarrow> urlParser \<Rightarrow> (int \<times> int \<Rightarrow> (Config option \<times> int \<times> int) + herr) \<Rightarrow> (string \<times> bool \<times> ProxyHeaders) + herr \<Rightarrow>
     HTTPTransportSettings \<Rightarrow> (herr, HTTPTransportSettings) outcome option" where
  "Settings_Unpack Ld parse unpackTmp unpackProxy settings =
     (case unpackTmp (STimeout settings, SIdleConnTimeout settings) of
        Inr e \<Rightarrow> Some (Err e)
      | Inl (tls, timeout, idle) \<Rightarrow>
          (case ProxySettings_Unpack parse unpackProxy of
             Err e \<Rightarrow> Some (Err e)
           | Panic \<Rightarrow> Some Panic
           | Ok proxy \<Rightarrow>
               (case LoadTLSConfig Ld tls of
                  None \<Rightarrow> None
                | Some (Err e) \<Rightarrow> Some (Err (HLoad e))
                | Some Panic \<Rightarrow> Some Panic
                | Some (Ok _) \<Rightarrow> Some (Ok \<lparr>STLS = tls, STimeout = timeout, SProxy = proxy, SIdleConnTimeout = idle\<rparr>))))"

section \<open>The round tripper\<close>

record ('w, 'c) httpTransport =
  TDialContext :: "(tlsMemo \<times> 'w, 'c) dialer"
  TDialTLSContext :: "(tlsMemo \<times> 'w, 'c) dialer"
  TTLSClientConfig :: tlsConfig
  TForceAttemptHTTP2 :: bool
  TProxyFunc :: "proxyFunc option"
  TProxyConnectHeader :: "header option"
  TTLSHandshakeTimeout :: int
  TExpectContinueTimeout :: int
  TDisableKeepAlives :: bool
  TIdleConnTimeout :: int
  TMaxIdleConns :: int
  TMaxIdleConnsPerHost :: int

text \<open>
  The round trippers: a transport, one for HTTP/2 only made from a transport, one that adds headers, and one
  of another package around one.
\<close>

datatype ('w, 'c) roundTripper =
    HTTP1 "('w, 'c) httpTransport"
  | HTTP2 "('w, 'c) httpTransport"
  | HeaderRoundTripper "('w, 'c) roundTripper" "(string, string) gomap"
  | OtherRoundTripper string "('w, 'c) roundTripper"

record extraSettings =
  hasLogger :: bool
  xhttp2 :: bool

datatype ('w, 'c) TransportOption =
    baseDialerFunc "('w, 'c) dialer"
  | dialerOptFunc "(tlsMemo \<times> 'w, 'c) dialer \<Rightarrow> (tlsMemo \<times> 'w, 'c) dialer"
  | transportOptFunc "HTTPTransportSettings \<Rightarrow> ('w, 'c) httpTransport \<Rightarrow> ('w, 'c) httpTransport"
  | rtOptFunc "('w, 'c) roundTripper \<Rightarrow> ('w, 'c) roundTripper"
  | extraOptionFunc "extraSettings \<Rightarrow> extraSettings"

text \<open>\<open>transport.LoggingDialer\<close>; the dialer gives a connection or an error, and \<open>logConn\<close> wraps a connection.\<close>

definition LoggingDialer :: "(string \<Rightarrow> string \<Rightarrow> 'c \<Rightarrow> 'c) \<Rightarrow> ('w, 'c) dialer \<Rightarrow> ('w, 'c) dialer" where
  "LoggingDialer logConn d network addr w =
     (case d network addr w of
        (w', _, Some e) \<Rightarrow> (w', None, Some e)
      | (w', c, None) \<Rightarrow> (w', map_option (logConn network addr) c, None))"

definition applyExtra :: "('w, 'c) TransportOption list \<Rightarrow> extraSettings" where
  "applyExtra opts =
     fold (\<lambda>opt x. case opt of extraOptionFunc f \<Rightarrow> f x | _ \<Rightarrow> x) opts \<lparr>hasLogger = False, xhttp2 = False\<rparr>"

definition baseDialer :: "('w, 'c) TransportOption list \<Rightarrow> ('w, 'c) dialer option" where
  "baseDialer opts = fold (\<lambda>opt d. case opt of baseDialerFunc f \<Rightarrow> Some f | _ \<Rightarrow> d) opts None"

definition applyDialers ::
  "('w, 'c) TransportOption list \<Rightarrow> (tlsMemo \<times> 'w, 'c) dialer \<Rightarrow> (tlsMemo \<times> 'w, 'c) dialer" where
  "applyDialers opts d = fold (\<lambda>opt d. case opt of dialerOptFunc f \<Rightarrow> f d | _ \<Rightarrow> d) opts d"

definition applyTransports ::
  "HTTPTransportSettings \<Rightarrow> ('w, 'c) TransportOption list \<Rightarrow> ('w, 'c) httpTransport \<Rightarrow> ('w, 'c) httpTransport" where
  "applyTransports s opts t = fold (\<lambda>opt t. case opt of transportOptFunc f \<Rightarrow> f s t | _ \<Rightarrow> t) opts t"

definition applyRoundTrippers :: "('w, 'c) TransportOption list \<Rightarrow> ('w, 'c) roundTripper \<Rightarrow> ('w, 'c) roundTripper" where
  "applyRoundTrippers opts rt = fold (\<lambda>opt rt. case opt of rtOptFunc f \<Rightarrow> f rt | _ \<Rightarrow> rt) opts rt"

definition httpRoundTripper ::
  "lib \<Rightarrow> defaults \<Rightarrow> ('w, 'c) httpTransport \<Rightarrow> HTTPTransportSettings \<Rightarrow> TLSConfig option \<Rightarrow>
     (tlsMemo \<times> 'w, 'c) dialer \<Rightarrow> (tlsMemo \<times> 'w, 'c) dialer \<Rightarrow> ('w, 'c) TransportOption list \<Rightarrow> ('w, 'c) httpTransport" where
  "httpRoundTripper L df DefaultTransport settings tls dialer tlsDialer opts =
     applyTransports settings opts
       (DefaultTransport\<lparr>TDialContext := dialer, TDialTLSContext := tlsDialer, TTLSClientConfig := ToConfig L df tls,
          TForceAttemptHTTP2 := False, TProxyFunc := ProxyFunc (SProxy settings),
          TProxyConnectHeader := ProxyHeaders_Headers (PHeaders (SProxy settings)),
          TTLSHandshakeTimeout := 0, TExpectContinueTimeout := 0\<rparr>)"

text \<open>The dialer without TLS, over the state with the memory of the one with it.\<close>

definition liftDialer :: "('w, 'c) dialer \<Rightarrow> (tlsMemo \<times> 'w, 'c) dialer" where
  "liftDialer d network address = (\<lambda>(m, w). let (w', res) = d network address w in ((m, w'), res))"

record ('w, 'c) httpEnv =
  envNet :: "('w, 'c) net"
  envLib :: lib
  envDefaults :: defaults
  envLoader :: loader
  envPerm :: "nat \<Rightarrow> nat list"
  envTransport :: "('w, 'c) httpTransport"
  envLogConn :: "string \<Rightarrow> string \<Rightarrow> 'c \<Rightarrow> 'c"
  configureHTTP2 :: "('w, 'c) httpTransport \<Rightarrow> herr option"

text \<open>The transport for HTTP/2 only, made by the package \<open>http2\<close> from the one for HTTP.\<close>

definition http2RoundTripper :: "('w, 'c) httpEnv \<Rightarrow> ('w, 'c) httpTransport \<Rightarrow> (herr, ('w, 'c) roundTripper) outcome" where
  "http2RoundTripper E t1 = (case configureHTTP2 E t1 of Some e \<Rightarrow> Err e | None \<Rightarrow> Ok (HTTP2 t1))"

text \<open>A logger is always set when the dialers are wrapped: without an option it is the one of the empty selector.\<close>

definition RoundTripper ::
  "('w, 'c) httpEnv \<Rightarrow> HTTPTransportSettings \<Rightarrow> ('w, 'c) TransportOption list \<Rightarrow> (herr, ('w, 'c) roundTripper) outcome option" where
  "RoundTripper E settings opts =
     (let extra = applyExtra opts;
          dialer = (case baseDialer opts of Some d \<Rightarrow> d | None \<Rightarrow> NetDialer (envNet E) (envPerm E)) in
      case LoadTLSConfig (envLoader E) (STLS settings) of
        None \<Rightarrow> None
      | Some (Err e) \<Rightarrow> Some (Err (HLoad e))
      | Some Panic \<Rightarrow> Some Panic
      | Some (Ok tls) \<Rightarrow>
          (let tlsDialer = applyDialers opts (TLSDialer (envNet E) (envLib E) (envDefaults E) dialer tls (STimeout settings));
               dialer = applyDialers opts (liftDialer dialer);
               t = httpRoundTripper (envLib E) (envDefaults E) (envTransport E) settings tls
                     (LoggingDialer (envLogConn E) dialer) (LoggingDialer (envLogConn E) tlsDialer) opts in
           Some (bind_outcome (if xhttp2 extra then http2RoundTripper E t else Ok (HTTP1 t))
             (\<lambda>rt. Ok (applyRoundTrippers opts rt)))))"

definition HTTPClient ::
  "('w, 'c) httpEnv \<Rightarrow> HTTPTransportSettings \<Rightarrow> ('w, 'c) TransportOption list \<Rightarrow>
     (herr, ('w, 'c) roundTripper \<times> int) outcome option" where
  "HTTPClient E settings opts =
     map_option (\<lambda>r. bind_outcome r (\<lambda>rt. Ok (rt, STimeout settings))) (RoundTripper E settings opts)"

section \<open>Options\<close>






definition WithTransportFunc :: "(('w, 'c) httpTransport \<Rightarrow> ('w, 'c) httpTransport) \<Rightarrow> ('w, 'c) TransportOption" where
  "WithTransportFunc fn = transportOptFunc (\<lambda>_. fn)"









text \<open>The headers of a request after \<open>headerRoundTripper.RoundTrip\<close>, which then calls the inner one.\<close>

definition headerRoundTrip :: "(string, string) gomap \<Rightarrow> header \<Rightarrow> header" where
  "headerRoundTrip headers h = fold (\<lambda>(k, v) h. if hGet h k = [] then hSet k v h else h) headers h"

section \<open>Reading a response\<close>

text \<open>
  A response: its content length, or \<open>-1\<close> if it is not known, its status, the bytes of its body and the error
  that reading reports after them on a call of its own, \<open>None\<close> for the end.
\<close>

record httpResponse =
  ContentLength :: int
  StatusCode :: nat
  bodyData :: string
  bodyErr :: "herr option"

definition ReadFull :: "string \<Rightarrow> herr option \<Rightarrow> nat \<Rightarrow> string + herr" where
  "ReadFull dat err n =
     (if n \<le> length dat then Inl (take n dat)
      else Inr (case err of Some e \<Rightarrow> e | None \<Rightarrow> if dat = [] then HEOF else HUnexpectedEOF))"

text \<open>
  \<open>io.Copy\<close> from the body or from a reader that is limited to \<open>n\<close> bytes, into a buffer that has room: the panic of
  \<open>bytes.Buffer\<close> when memory runs out while it grows is not modelled.
\<close>

definition CopyLimited :: "string \<Rightarrow> herr option \<Rightarrow> nat option \<Rightarrow> string + herr" where
  "CopyLimited dat err lim =
     (case lim of
        Some n \<Rightarrow> if n \<le> length dat then Inl (take n dat) else (case err of Some e \<Rightarrow> Inr e | None \<Rightarrow> Inl dat)
      | None \<Rightarrow> (case err of Some e \<Rightarrow> Inr e | None \<Rightarrow> Inl dat))"

text \<open>Making a slice of more than \<open>maxAlloc\<close> bytes panics.\<close>

definition ReadAllWithLimit :: "int \<Rightarrow> httpResponse option \<Rightarrow> int \<Rightarrow> (herr, string) outcome" where
  "ReadAllWithLimit maxAlloc resp limit =
     (case resp of
        None \<Rightarrow> Err HNilResponse
      | Some r \<Rightarrow>
          if ContentLength r = 0 \<or> limit = 0 \<or> StatusCode r = 204 then Ok []
          else if limit > 0 \<and> ContentLength r > limit then Err (ErrResponseLimit (ContentLength r) limit)
          else if ContentLength r \<ge> 0 then
            if ContentLength r > maxAlloc then Panic
            else
              (case ReadFull (bodyData r) (bodyErr r) (nat (ContentLength r)) of
                 Inl body \<Rightarrow> Ok body
               | Inr e \<Rightarrow> Err (HKnown (ContentLength r) e))
          else
            (case CopyLimited (bodyData r) (bodyErr r) (if limit > 0 then Some (nat limit) else None) of
               Inl body \<Rightarrow> Ok body
             | Inr e \<Rightarrow> Err (HUnknown e)))"

definition ReadAll :: "int \<Rightarrow> httpResponse option \<Rightarrow> (herr, string) outcome" where
  "ReadAll maxAlloc resp = ReadAllWithLimit maxAlloc resp (-1)"

section \<open>Laws\<close>

lemma ReadFull_OK: "ReadFull dat err n = Inl b \<longleftrightarrow> n \<le> length dat \<and> b = take n dat"
  by (auto simp: ReadFull_def)

lemma CopyLimited_OK:
  "CopyLimited dat err lim = Inl b \<longleftrightarrow>
     b = (case lim of Some n \<Rightarrow> take n dat | None \<Rightarrow> dat) \<and> (err = None \<or> (\<exists>n. lim = Some n \<and> n \<le> length dat))"
  by (auto simp: CopyLimited_def split: option.splits)

text \<open>
  C29. What reading a response returns is an initial part of its body, of at most the limit. With a known length it
  is of exactly this length, which is an error if it is above the limit or the body is
  shorter; without one it is the whole body up to the limit. With a limit that can be allocated reading never
  panics, whatever the server claims; without a limit a length that cannot be allocated makes it panic.
\<close>

theorem ReadAllWithLimit_bounds:
  "(\<forall>b. ReadAllWithLimit maxAlloc (Some r) limit = Ok b \<longrightarrow>
      prefix b (bodyData r) \<and> (0 \<le> limit \<longrightarrow> int (length b) \<le> limit) \<and>
      (limit \<noteq> 0 \<and> StatusCode r \<noteq> 204 \<longrightarrow>
         (if 0 \<le> ContentLength r then int (length b) = ContentLength r
          else b = (if limit > 0 then take (nat limit) (bodyData r) else bodyData r)))) \<and>
   (limit > 0 \<and> StatusCode r \<noteq> 204 \<and> ContentLength r > limit \<longrightarrow>
      ReadAllWithLimit maxAlloc (Some r) limit = Err (ErrResponseLimit (ContentLength r) limit)) \<and>
   (0 \<le> limit \<and> limit \<le> maxAlloc \<longrightarrow> ReadAllWithLimit maxAlloc (Some r) limit \<noteq> Panic) \<and>
   (limit < 0 \<and> StatusCode r \<noteq> 204 \<and> ContentLength r > maxAlloc \<and> maxAlloc \<ge> 0 \<longrightarrow> ReadAllWithLimit maxAlloc (Some r) limit = Panic)"
  by (auto simp: ReadAllWithLimit_def ReadFull_OK CopyLimited_OK take_is_prefix split: sum.splits if_splits)

theorem ReadAllWithLimit_bounds_witness:
  "ReadAllWithLimit 1000 (Some \<lparr>ContentLength = 9, StatusCode = 200, bodyData = ''abc'', bodyErr = None\<rparr>) 4 = Err (ErrResponseLimit 9 4)"
  using ReadAllWithLimit_bounds [of 1000 "\<lparr>ContentLength = 9, StatusCode = 200, bodyData = ''abc'', bodyErr = None\<rparr>" 4] by simp

text \<open>The headers that the round tripper sets are those that the request has not, under any spelling of their keys.\<close>

lemma headerRoundTrip_other:
  "\<forall>(k', v) \<in> set headers. canonicalKey k' \<noteq> canonicalKey k \<Longrightarrow> hGetAll (headerRoundTrip headers h) k = hGetAll h k"
  unfolding headerRoundTrip_def
  by (induction headers arbitrary: h) (auto simp: hGetAll_hSet)

lemma hGet_spelling: "canonicalKey k' = canonicalKey k \<Longrightarrow> hGet h k' = hGet h k"
  by (simp add: hGet_def hGetAll_def)

theorem headerRoundTrip_spec:
  "distinct (map (canonicalKey \<circ> fst) headers) \<Longrightarrow>
     hGetAll (headerRoundTrip headers h) k =
       (case find (\<lambda>(k', v). canonicalKey k' = canonicalKey k) headers of
          Some (k', v) \<Rightarrow> if hGet h k = [] then [v] else hGetAll h k
        | None \<Rightarrow> hGetAll h k)"
proof (induction headers arbitrary: h)
  case Nil
  then show ?case by (simp add: headerRoundTrip_def)
next
  case (Cons kv headers)
  obtain k0 v where kv: "kv = (k0, v)" by (cases kv)
  define h' where "h' = (if hGet h k0 = [] then hSet k0 v h else h)"
  have step: "headerRoundTrip ((k0, v) # headers) h = headerRoundTrip headers h'" by (simp add: headerRoundTrip_def h'_def)
  show ?case
  proof (cases "canonicalKey k0 = canonicalKey k")
    case True
    then have "\<forall>(k', v) \<in> set headers. canonicalKey k' \<noteq> canonicalKey k" using Cons.prems kv by force
    then have "hGetAll (headerRoundTrip headers h') k = hGetAll h' k" by (rule headerRoundTrip_other)
    then show ?thesis using True hGet_spelling [OF True, of h] by (simp add: step kv hGetAll_hSet h'_def)
  next
    case False
    then have "hGetAll h' k = hGetAll h k" by (simp add: hGetAll_hSet h'_def)
    moreover from this have "hGet h' k = hGet h k" by (simp add: hGet_def)
    ultimately show ?thesis using False Cons.IH [of h'] Cons.prems by (simp add: step kv split: option.splits)
  qed
qed




























end
