(* ===== verification/Api.thy ===== *)
theory Api
  imports Monitoring_Laws Paths Go_Http
begin

text \<open>
  The HTTP endpoint of the metrics (src/api, for a Unix build): its configuration (config.go), the address and the
  listener it is served on (server.go, make_listener_posix.go, npipe/pipe.go), the routes and their handlers
  (routes.go). The parsing of URLs, go-ucfg and the JSON text of a snapshot are arguments; calls of the operating
  system may fail. The multiplexer of \<open>net/http\<close> is modelled for routes that are plain paths, without method, host,
  wildcards or escapes. Logging and the serving of connections are left out.
\<close>

section \<open>Configuration and listener\<close>

record Config =
  CEnabled :: bool
  CHost :: string
  CPort :: int
  CUser :: string
  SecurityDescriptor :: string
  CTimeout :: int

definition DefaultConfig :: Config where
  "DefaultConfig = \<lparr>CEnabled = False, CHost = ''localhost'', CPort = 5066, CUser = [], SecurityDescriptor = [],
     CTimeout = 5 * 1000000000\<rparr>"

definition socketFileMode :: nat where "socketFileMode = 480"

datatype api_error =
    ErrURL | UnknownScheme string string | UserUnsupported | DescriptorUnsupported | PipeUnsupported string
  | RemoveFailed string | ListenFailed | ChmodFailed string | UnpackFailed | AlreadyExists string | MuxError string

definition IsNPipe :: "string \<Rightarrow> bool" where
  "IsNPipe s \<longleftrightarrow> prefix ''npipe:///'' s \<or> prefix [CHR 0x5C, CHR 0x5C, CHR ''.'', CHR 0x5C, CHR ''p'', CHR ''i'', CHR ''p'', CHR ''e'', CHR 0x5C] s"

definition parse :: "(string \<Rightarrow> URL option) \<Rightarrow> string \<Rightarrow> int \<Rightarrow> (api_error, string \<times> string) outcome" where
  "parse parseURL host port =
     (case parseURL host of
        None \<Rightarrow> Err ErrURL
      | Some url \<Rightarrow>
          if UHost url = [] \<and> Scheme url = [] then Ok (''tcp'', host @ '':'' @ itoaInt port)
          else if Scheme url = ''http'' then Ok (''tcp'', UHost url)
          else if Scheme url = ''unix'' then Ok (Scheme url, UPath url)
          else Err (UnknownScheme (Scheme url) host))"

text \<open>
  The system: the files with their modes, and the listeners that are open. Removing a file that does not
  exist is no failure here. Listening on a socket creates its file, and fails where there is a file.
\<close>

record sysT =
  sfiles :: "(string, nat) gomap"
  listeners :: "(string \<times> string) list"

record sysFaults =
  removeFails :: "string \<Rightarrow> bool"
  listenFails :: "string \<Rightarrow> bool"
  chmodFails :: "string \<Rightarrow> bool"
  umaskMode :: nat

definition sysRemove :: "sysFaults \<Rightarrow> string \<Rightarrow> sysT \<Rightarrow> sysT \<times> bool" where
  "sysRemove F p w =
     (if map_of (sfiles w) p = None then (w, True)
      else if removeFails F p then (w, False)
      else (w\<lparr>sfiles := map_del p (sfiles w)\<rparr>, True))"

definition sysListen :: "sysFaults \<Rightarrow> string \<Rightarrow> string \<Rightarrow> sysT \<Rightarrow> sysT \<times> bool" where
  "sysListen F network p w =
     (if listenFails F p \<or> network = ''unix'' \<and> map_of (sfiles w) p \<noteq> None then (w, False)
      else (let w' = w\<lparr>listeners := (network, p) # listeners w\<rparr>
            in (if network = ''unix'' then w'\<lparr>sfiles := map_put p (umaskMode F) (sfiles w')\<rparr> else w', True)))"

definition sysChmod :: "sysFaults \<Rightarrow> string \<Rightarrow> nat \<Rightarrow> sysT \<Rightarrow> sysT \<times> bool" where
  "sysChmod F p m w = (if chmodFails F p then (w, False) else (w\<lparr>sfiles := map_put p m (sfiles w)\<rparr>, True))"

definition makeListener ::
  "(string \<Rightarrow> URL option) \<Rightarrow> sysFaults \<Rightarrow> Config \<Rightarrow> sysT \<Rightarrow> sysT \<times> (api_error, string \<times> string) outcome" where
  "makeListener parseURL F cfg w =
     (if CUser cfg \<noteq> [] then (w, Err UserUnsupported)
      else if SecurityDescriptor cfg \<noteq> [] then (w, Err DescriptorUnsupported)
      else if IsNPipe (CHost cfg) then (w, Err (PipeUnsupported (CHost cfg)))
      else
        (case parse parseURL (CHost cfg) (CPort cfg) of
           Err e \<Rightarrow> (w, Err e)
         | Panic \<Rightarrow> (w, Panic)
         | Ok (network, path) \<Rightarrow>
             (case (if network = ''unix'' then sysRemove F path w else (w, True)) of
                (w1, False) \<Rightarrow> (w1, Err (RemoveFailed path))
              | (w1, True) \<Rightarrow>
                  (case sysListen F network path w1 of
                     (w2, False) \<Rightarrow> (w2, Err ListenFailed)
                   | (w2, True) \<Rightarrow>
                       (case (if network = ''unix'' then sysChmod F path socketFileMode w2 else (w2, True)) of
                          (w3, False) \<Rightarrow> (w3, Err (ChmodFailed path))
                        | (w3, True) \<Rightarrow> (w3, Ok (network, path)))))))"

section \<open>The multiplexer\<close>

record request =
  qpath :: string
  qkeys :: "string list"

datatype response = Response (rcode: nat) (rtype: string) (rtext: string) | Redirect string

text \<open>The state that handlers read: the namespaces of the registries, the metrics, and what snapshots may read of the process.\<close>

record mstate =
  spaces :: "Namespace list"
  metrics :: "metric list"
  globals :: globals

type_synonym handler = "request \<Rightarrow> mstate \<Rightarrow> (unit, mstate \<times> response) outcome"
type_synonym mux = "(string, handler) gomap"

text \<open>
  A pattern of \<open>Handle\<close> is an optional method, blanks, and a host with a path. An empty pattern, an invalid method, no slash and
  a brace in the host are errors. Beyond that the model is for plain routes: a path alone, without wildcards and without
  escaped bytes, of which two conflict only when they are equal.
\<close>

definition isBlank :: "char \<Rightarrow> bool" where
  "isBlank c \<longleftrightarrow> c = CHR '' '' \<or> c = CHR 0x09"

definition isTokenChar :: "char \<Rightarrow> bool" where
  "isTokenChar c \<longleftrightarrow>
     (let n = of_char c :: nat in 48 \<le> n \<and> n \<le> 57 \<or> 65 \<le> n \<and> n \<le> 90 \<or> 97 \<le> n \<and> n \<le> 122 \<or>
        n \<in> set [0x21, 0x23, 0x24, 0x25, 0x26, 0x27, 0x2A, 0x2B, 0x2D, 0x2E, 0x5E, 0x5F, 0x60, 0x7C, 0x7E])"

definition routeMethod :: "string \<Rightarrow> string" where
  "routeMethod route = (if list_ex isBlank route then takeWhile (\<lambda>c. \<not> isBlank c) route else [])"

definition routeRest :: "string \<Rightarrow> string" where
  "routeRest route = (if list_ex isBlank route then dropWhile isBlank (dropWhile (\<lambda>c. \<not> isBlank c) route) else route)"

definition badRoute :: "string \<Rightarrow> bool" where
  "badRoute route \<longleftrightarrow>
     route = [] \<or> \<not> list_all isTokenChar (routeMethod route) \<or> CHR ''/'' \<notin> set (routeRest route) \<or>
     CHR 0x7B \<in> set (takeWhile (\<lambda>c. c \<noteq> CHR ''/'') (routeRest route))"

definition plainRoute :: "string \<Rightarrow> bool" where
  "plainRoute route \<longleftrightarrow> route \<noteq> [] \<and> hd route = CHR ''/'' \<and> list_all (\<lambda>c. \<not> isBlank c \<and> c \<noteq> CHR 0x7B \<and> c \<noteq> CHR 0x25) route"

definition muxHandle :: "string \<Rightarrow> handler \<Rightarrow> mux \<Rightarrow> (api_error, mux) outcome" where
  "muxHandle route h m =
     (if badRoute route then Err (MuxError route)
      else if map_of m route \<noteq> None then Err (MuxError route)
      else Ok (map_put route h m))"

text \<open>\<open>HandleFunc\<close> panics where \<open>Handle\<close> has an error.\<close>

definition HandleFunc :: "string \<Rightarrow> handler \<Rightarrow> mux \<Rightarrow> (api_error, mux) outcome" where
  "HandleFunc route h m = (case muxHandle route h m of Ok m' \<Rightarrow> Ok m' | _ \<Rightarrow> Panic)"

definition NotFound :: response where
  "NotFound = Response 404 ''text/plain; charset=utf-8'' (''404 page not found'' @ [CHR 0x0A])"

definition endsSlash :: "string \<Rightarrow> bool" where
  "endsSlash p \<longleftrightarrow> p \<noteq> [] \<and> last p = CHR ''/''"

definition cleanPath :: "string \<Rightarrow> string" where
  "cleanPath p =
     (if p = [] then ''/''
      else (let p = (if hd p \<noteq> CHR ''/'' then CHR ''/'' # p else p); np = Clean p in
            if endsSlash p \<and> np \<noteq> ''/'' then np @ ''/'' else np))"

text \<open>The routes that are subtrees and contain the path, the longest of which is taken.\<close>

definition longer :: "string option \<Rightarrow> string \<Rightarrow> string option" where
  "longer best p = (case best of None \<Rightarrow> Some p | Some b \<Rightarrow> if length b < length p then Some p else best)"

definition muxMatch :: "mux \<Rightarrow> string \<Rightarrow> string option" where
  "muxMatch m path =
     (if map_of m path \<noteq> None then Some path
      else foldl longer None (filter (\<lambda>p. endsSlash p \<and> prefix p path) (map fst m)))"

definition serve :: "mux \<Rightarrow> handler" where
  "serve m r st =
     (let path = cleanPath (qpath r) in
      if muxMatch m path \<noteq> Some path \<and> \<not> endsSlash path \<and> map_of m (path @ ''/'') \<noteq> None then Ok (st, Redirect (path @ ''/''))
      else if path \<noteq> qpath r then Ok (st, Redirect path)
      else (case muxMatch m path of
              None \<Rightarrow> Ok (st, NotFound)
            | Some p \<Rightarrow> (case map_of m p of None \<Rightarrow> Ok (st, NotFound) | Some h \<Rightarrow> h r st)))"

section \<open>Routes\<close>

text \<open>The texts that \<open>String\<close> and \<open>StringToPrint\<close> make of a snapshot, and that of a time.\<close>

record render =
  String :: "smap \<Rightarrow> string"
  StringToPrint :: "smap \<Rightarrow> string"
  formatTime :: "int \<Rightarrow> string"

definition prettyPrint :: "render \<Rightarrow> smap \<Rightarrow> request \<Rightarrow> string" where
  "prettyPrint R data r = (if ''pretty'' \<in> set (qkeys r) then StringToPrint R data else String R data)"

definition MakeAPIHandler :: "render \<Rightarrow> nat \<Rightarrow> handler" where
  "MakeAPIHandler R ns r st =
     (if length (spaces st) \<le> ns then Panic
      else (case Namespace_GetRegistry (spaces st ! ns) of
              (n, reg) \<Rightarrow>
                bind_outcome (CollectStructSnapshot (globals st) (formatTime R) (metrics st) (Some reg) Full False) (\<lambda>data.
                  Ok (st\<lparr>spaces := (spaces st)[ns := n]\<rparr>,
                      Response 200 ''application/json; charset=utf-8'' (prettyPrint R data r)))))"

definition MakeRootAPIHandler :: "handler \<Rightarrow> handler" where
  "MakeRootAPIHandler handler r st = (if qpath r \<noteq> ''/'' then Ok (st, NotFound) else handler r st)"

fun attachAll :: "(string \<times> handler) list \<Rightarrow> mux \<Rightarrow> (api_error, mux) outcome" where
  "attachAll [] m = Ok m"
| "attachAll ((route, h) # hs) m = bind_outcome (HandleFunc route h m) (attachAll hs)"

text \<open>The multiplexer that \<open>NewWithDefaultRoutes\<close> sets up, and the server over it.\<close>

definition defaultMux :: "render \<Rightarrow> (string \<Rightarrow> nat) \<Rightarrow> (string, handler) gomap \<Rightarrow> (api_error, mux) outcome" where
  "defaultMux R ns handlerFuncMap =
     bind_outcome (HandleFunc ''/'' (MakeRootAPIHandler (MakeAPIHandler R (ns ''info''))) []) (\<lambda>m.
     bind_outcome (HandleFunc ''/state'' (MakeAPIHandler R (ns ''state'')) m) (\<lambda>m.
     bind_outcome (HandleFunc ''/stats'' (MakeAPIHandler R (ns ''stats'')) m) (\<lambda>m.
     bind_outcome (HandleFunc ''/dataset'' (MakeAPIHandler R (ns ''dataset'')) m) (\<lambda>m.
     attachAll handlerFuncMap m))))"

record Server =
  smux :: mux
  readHeaderTimeout :: int
  slistener :: "string \<times> string"
  sconfig :: Config

definition newServer ::
  "(string \<Rightarrow> URL option) \<Rightarrow> sysFaults \<Rightarrow> mux \<Rightarrow> Config \<Rightarrow> sysT \<Rightarrow> sysT \<times> (api_error, Server) outcome" where
  "newServer parseURL F m cfg w =
     (case makeListener parseURL F cfg w of
        (w', Ok l) \<Rightarrow> (w', Ok \<lparr>smux = m, readHeaderTimeout = CTimeout cfg, slistener = l, sconfig = cfg\<rparr>)
      | (w', Err e) \<Rightarrow> (w', Err e)
      | (w', Panic) \<Rightarrow> (w', Panic))"

text \<open>\<open>unpack\<close> fills a configuration that holds the defaults.\<close>

definition New ::
  "(Config \<Rightarrow> Config option) \<Rightarrow> (string \<Rightarrow> URL option) \<Rightarrow> sysFaults \<Rightarrow> mux \<Rightarrow> sysT \<Rightarrow> sysT \<times> (api_error, Server) outcome" where
  "New unpack parseURL F m w =
     (case unpack DefaultConfig of None \<Rightarrow> (w, Err UnpackFailed) | Some cfg \<Rightarrow> newServer parseURL F m cfg w)"

definition NewWithDefaultRoutes ::
  "render \<Rightarrow> (string \<Rightarrow> nat) \<Rightarrow> (string, handler) gomap \<Rightarrow> (Config \<Rightarrow> Config option) \<Rightarrow> (string \<Rightarrow> URL option) \<Rightarrow> sysFaults \<Rightarrow>
   sysT \<Rightarrow> sysT \<times> (api_error, Server) outcome" where
  "NewWithDefaultRoutes R ns handlerFuncMap unpack parseURL F w =
     (case defaultMux R ns handlerFuncMap of
        Ok m \<Rightarrow> New unpack parseURL F m w
      | Err e \<Rightarrow> (w, Err e)
      | Panic \<Rightarrow> (w, Panic))"

definition AddHandlerFunc :: "string \<Rightarrow> handler \<Rightarrow> (string, handler) gomap \<Rightarrow> (api_error, (string, handler) gomap) outcome" where
  "AddHandlerFunc api h handlerFuncMap =
     (if map_of handlerFuncMap api \<noteq> None then Err (AlreadyExists api) else Ok (map_put api h handlerFuncMap))"

definition AddRoute :: "string \<Rightarrow> handler \<Rightarrow> Server \<Rightarrow> (api_error, Server) outcome" where
  "AddRoute path h s = bind_outcome (HandleFunc path h (smux s)) (\<lambda>m. Ok (s\<lparr>smux := m\<rparr>))"

definition AttachPprof :: "handler \<Rightarrow> Server \<Rightarrow> (api_error, Server) outcome" where
  "AttachPprof defaultServeMux s = bind_outcome (HandleFunc ''/debug/pprof/'' defaultServeMux (smux s)) (\<lambda>m. Ok (s\<lparr>smux := m\<rparr>))"

text \<open>The panic of the multiplexer is recovered and becomes the error.\<close>

definition AttachHandler :: "string \<Rightarrow> handler \<Rightarrow> Server \<Rightarrow> Server \<times> api_error option" where
  "AttachHandler route h s =
     (case muxHandle route h (smux s) of Ok m \<Rightarrow> (s\<lparr>smux := m\<rparr>, None) | Err e \<Rightarrow> (s, Some e) | Panic \<Rightarrow> (s, Some (MuxError route)))"

definition Stop :: "Server \<Rightarrow> sysT \<Rightarrow> sysT" where
  "Stop s w =
     (let w' = w\<lparr>listeners := remove1 (slistener s) (listeners w)\<rparr>
      in if fst (slistener s) = ''unix'' then w'\<lparr>sfiles := map_del (snd (slistener s)) (sfiles w')\<rparr> else w')"


section \<open>The listener\<close>

text \<open>
  A listener that is returned is the only one added, and the file of a socket has the mode of the endpoint. An error
  adds no listener, except that of setting the mode, which leaves the new one open.
\<close>

lemma sysRemove_listeners: "listeners (fst (sysRemove F p w)) = listeners w"
  by (simp add: sysRemove_def)

lemma sysListen_spec:
  "sysListen F n p w = (w', ok) \<Longrightarrow>
     listeners w' = (if ok then (n, p) # listeners w else listeners w) \<and> (n \<noteq> ''unix'' \<longrightarrow> sfiles w' = sfiles w)"
  by (auto simp: sysListen_def Let_def split: if_splits)

lemma sysChmod_spec:
  "sysChmod F p md w = (w', ok) \<Longrightarrow> listeners w' = listeners w \<and> (ok \<longrightarrow> map_of (sfiles w') p = Some md)"
  by (auto simp: sysChmod_def split: if_splits)

lemma parse_network: "parse parseURL host port = Ok (n, p) \<Longrightarrow> n = ''tcp'' \<or> n = ''unix''"
  by (auto simp: parse_def split: option.splits if_splits)

lemma parse_no_panic: "parse parseURL host port \<noteq> Panic"
  by (auto simp: parse_def split: option.splits if_splits)

lemma makeListener_spec:
  assumes "makeListener parseURL F cfg w = (w', res)"
  shows "case res of
      Ok (n, p) \<Rightarrow>
        listeners w' = (n, p) # listeners w \<and> (n = ''tcp'' \<and> sfiles w' = sfiles w \<or> n = ''unix'' \<and> map_of (sfiles w') p = Some socketFileMode)
    | Err (ChmodFailed p) \<Rightarrow> listeners w' = (''unix'', p) # listeners w
    | Err _ \<Rightarrow> listeners w' = listeners w
    | Panic \<Rightarrow> False"
proof (cases "CUser cfg \<noteq> [] \<or> SecurityDescriptor cfg \<noteq> [] \<or> IsNPipe (CHost cfg)")
  case True
  then show ?thesis using assms by (auto simp: makeListener_def split: if_splits)
next
  case False
  show ?thesis
  proof (cases "parse parseURL (CHost cfg) (CPort cfg)")
    case (Ok np)
    obtain n p where np: "np = (n, p)" by (cases np)
    note net = parse_network [OF Ok [unfolded np]]
    obtain w1 b1 where r: "(if n = ''unix'' then sysRemove F p w else (w, True)) = (w1, b1)" by fastforce
    have l1: "listeners w1 = listeners w" "n = ''tcp'' \<Longrightarrow> sfiles w1 = sfiles w"
      using r sysRemove_listeners [of F p w] by (auto split: if_splits)
    obtain w2 b2 where l: "sysListen F n p w1 = (w2, b2)" by fastforce
    note l2 = sysListen_spec [OF l]
    obtain w3 b3 where c: "(if n = ''unix'' then sysChmod F p socketFileMode w2 else (w2, True)) = (w3, b3)" by fastforce
    have l3: "listeners w3 = listeners w2" "n = ''unix'' \<Longrightarrow> b3 \<Longrightarrow> map_of (sfiles w3) p = Some socketFileMode"
        "n = ''tcp'' \<Longrightarrow> sfiles w3 = sfiles w2 \<and> b3"
      using c net sysChmod_spec [of F p socketFileMode w2] by (auto split: if_splits)
    have "makeListener parseURL F cfg w =
        (if \<not> b1 then (w1, Err (RemoveFailed p)) else if \<not> b2 then (w2, Err ListenFailed)
         else if \<not> b3 then (w3, Err (ChmodFailed p)) else (w3, Ok (n, p)))"
      using False by (simp add: makeListener_def Ok np r l c)
    then show ?thesis using assms l1 l2 l3 net by (auto split: if_splits)
  next
    case (Err e)
    then have "(\<forall>p. e \<noteq> ChmodFailed p)" by (auto simp: parse_def split: option.splits if_splits)
    moreover have "makeListener parseURL F cfg w = (w, Err e)" using False by (simp add: makeListener_def Err)
    ultimately show ?thesis using assms by (cases e) auto
  next
    case Panic
    then show ?thesis using parse_no_panic by blast
  qed
qed


section \<open>The default routes\<close>

lemma HandleFunc_iff:
  "HandleFunc route h m =
     (if badRoute route \<or> map_of m route \<noteq> None then Panic else Ok (map_put route h m))"
  by (simp add: HandleFunc_def muxHandle_def)


lemma plain_not_bad: "plainRoute p \<Longrightarrow> \<not> badRoute p"
proof -
  assume p: "plainRoute p"
  then have "\<not> list_ex isBlank p" by (auto simp: plainRoute_def list_ex_iff list_all_iff)
  then show ?thesis using p by (cases p) (auto simp: plainRoute_def badRoute_def routeMethod_def routeRest_def)
qed

lemma keys_map_put: "fst ` set (map_put k v m) = insert k (fst ` set m)"
  unfolding dom_map_of_conv_image_fst [symmetric] by (auto split: if_splits)

text \<open>Handlers are attached if no route is bad or taken, under the routes they have in the map.\<close>

lemma attachAll_iff:
  assumes "wf_map hs"
  shows "attachAll hs m =
    (if \<exists>p \<in> fst ` set hs. badRoute p \<or> map_of m p \<noteq> None then Panic else Ok (map_put_all m hs))"
  using assms
proof (induction hs arbitrary: m)
  case (Cons e hs)
  obtain p h where e: "e = (p, h)" by (cases e)
  have "p \<notin> fst ` set hs" and "wf_map hs" using Cons.prems by (simp_all add: e wf_map_def)
  then have "attachAll hs (map_put p h m) =
      (if \<exists>q \<in> fst ` set hs. badRoute q \<or> map_of m q \<noteq> None then Panic else Ok (map_put_all (map_put p h m) hs))"
    using Cons.IH [of "map_put p h m"] by auto
  then show ?case by (auto simp: e HandleFunc_iff)
qed simp

definition defaultRoutes :: "(string, string) gomap" where
  "defaultRoutes = [(''/'', ''info''), (''/state'', ''state''), (''/stats'', ''stats''), (''/dataset'', ''dataset'')]"

definition startMux :: "render \<Rightarrow> (string \<Rightarrow> nat) \<Rightarrow> mux" where
  "startMux R ns =
     [(''/'', MakeRootAPIHandler (MakeAPIHandler R (ns ''info''))), (''/state'', MakeAPIHandler R (ns ''state'')),
      (''/stats'', MakeAPIHandler R (ns ''stats'')), (''/dataset'', MakeAPIHandler R (ns ''dataset''))]"

lemma defaultMux_attach: "defaultMux R ns hs = attachAll hs (startMux R ns)"
  by (simp add: defaultMux_def HandleFunc_iff startMux_def plain_not_bad plainRoute_def isBlank_def)

lemma startMux_keys: "map_of (startMux R ns) p \<noteq> None \<longleftrightarrow> p \<in> dom (map_of defaultRoutes)"
  by (simp add: startMux_def defaultRoutes_def domIff)

lemma keys_map_put_all: "fst ` set (map_put_all m d) = fst ` set m \<union> fst ` set d"
  by (induction m d rule: map_put_all.induct) (auto simp: keys_map_put)

lemma serve_exact: "cleanPath p = p \<Longrightarrow> map_of m p = Some h \<Longrightarrow> serve m \<lparr>qpath = p, qkeys = ks\<rparr> st = h \<lparr>qpath = p, qkeys = ks\<rparr> st"
  by (simp add: serve_def muxMatch_def)

lemma cleanPath_defaults: "p \<in> dom (map_of defaultRoutes) \<Longrightarrow> cleanPath p = p"
  by (auto simp: defaultRoutes_def domIff split: if_splits) code_simp+

lemma foldl_longer: "set ps \<subseteq> {q} \<Longrightarrow> foldl longer b ps \<in> {b, Some q}"
proof (induction ps arbitrary: b)
  case (Cons p ps)
  then show ?case using Cons.IH [of "longer b p"] by (auto simp: longer_def split: option.splits if_splits)
qed simp

text \<open>A path that no handler is registered for falls to the handler of the root, which rejects it.\<close>

lemma serve_unknown:
  assumes root: "map_of m ''/'' = Some (MakeRootAPIHandler h)" and "cleanPath p = p" and "p \<noteq> ''/''"
    and none: "\<And>q. q \<in> fst ` set m \<Longrightarrow> q \<noteq> ''/'' \<Longrightarrow> q \<noteq> p \<and> q \<noteq> p @ ''/'' \<and> \<not> (endsSlash q \<and> prefix q p)"
  shows "serve m \<lparr>qpath = p, qkeys = ks\<rparr> st = Ok (st, NotFound)"
proof -
  have p: "map_of m p = None" "map_of m (p @ ''/'') = None"
    using none [of p] none [of "p @ ''/''"] assms(2,3) by (auto simp: map_of_eq_None_iff cleanPath_def split: if_splits)
  have "set (filter (\<lambda>q. endsSlash q \<and> prefix q p) (map fst m)) \<subseteq> {''/''}" using none by auto
  then have "muxMatch m p \<in> {None, Some ''/''}" using foldl_longer [of _ "''/''" None] p(1) by (simp add: muxMatch_def)
  then show ?thesis using root p assms(2,3) by (auto simp: serve_def MakeRootAPIHandler_def)
qed


text \<open>
  C40. The server with default routes, with added handlers that are not nil and whose routes are bad (empty, without a slash, with
  an invalid method or a brace in the host) or plain (a path without blanks, braces and percent signs). Setting
  it up panics exactly when a handler was added with a bad route or with
  one of the default routes, although \<open>AddHandlerFunc\<close> accepts it. Otherwise \<open>/\<close>, \<open>/state\<close>, \<open>/stats\<close> and \<open>/dataset\<close> serve the
  full snapshot of the namespaces \<open>info\<close>, \<open>state\<close>, \<open>stats\<close> and \<open>dataset\<close> as they are at the time of the request: the tree of the values of its metrics, printed
  indented when the query has \<open>pretty\<close>, and \<open>null\<close> where there is none. An added handler serves its route, and a
  clean path without percent signs that is no route, below no added subtree and not an added subtree without its slash, is not found.
  Routes with methods, hosts, wildcards and escaped bytes are not claimed.
\<close>

theorem default_routes:
  assumes "wf_map hs" and "\<forall>p \<in> fst ` set hs. badRoute p \<or> plainRoute p"
  shows "(defaultMux R ns hs = Panic \<longleftrightarrow> (\<exists>p \<in> fst ` set hs. \<not> plainRoute p \<or> p \<in> dom (map_of defaultRoutes))) \<and>
    (\<forall>m ks st. defaultMux R ns hs = Ok m \<longrightarrow>
      (\<forall>p name reg mtree. map_of defaultRoutes p = Some name \<and> ns name < length (spaces st) \<and>
         Namespace_GetRegistry (spaces st ! ns name) = (spaces st ! ns name, reg) \<and>
         describes (formatTime R) (metrics st) Full mtree (regAddrs reg) \<longrightarrow>
           serve m \<lparr>qpath = p, qkeys = ks\<rparr> st =
             Ok (st, Response 200 ''application/json; charset=utf-8''
               ((if ''pretty'' \<in> set ks then StringToPrint R else String R)
                  (nodeRef (entryTrees mtree (metrics st) Full (rentries reg)) None)))) \<and>
      (\<forall>p h. map_of hs p = Some h \<and> cleanPath p = p \<longrightarrow>
         serve m \<lparr>qpath = p, qkeys = ks\<rparr> st = h \<lparr>qpath = p, qkeys = ks\<rparr> st) \<and>
      (\<forall>p. cleanPath p = p \<and> CHR 0x25 \<notin> set p \<and> p \<notin> dom (map_of defaultRoutes) \<and>
         (\<forall>q \<in> fst ` set hs. q \<noteq> p \<and> q \<noteq> p @ ''/'' \<and> \<not> (endsSlash q \<and> prefix q p)) \<longrightarrow>
           serve m \<lparr>qpath = p, qkeys = ks\<rparr> st = Ok (st, NotFound)))"
proof (intro conjI allI impI, goal_cases)
  case 1
  have "badRoute p \<longleftrightarrow> \<not> plainRoute p" if "p \<in> fst ` set hs" for p using assms(2) plain_not_bad that by blast
  then have "(\<exists>p \<in> fst ` set hs. badRoute p \<or> p \<in> dom (map_of defaultRoutes)) =
      (\<exists>p \<in> fst ` set hs. \<not> plainRoute p \<or> p \<in> dom (map_of defaultRoutes))" by blast
  then show ?case using startMux_keys [of R ns] by (simp add: defaultMux_attach attachAll_iff [OF assms(1)])
next
  case (2 m ks st p name reg mtree)
  have m: "m = map_put_all (startMux R ns) hs" and n: "p \<notin> fst ` set hs"
    using 2 startMux_keys [of R ns p] by (auto simp: defaultMux_attach attachAll_iff [OF assms(1)] split: if_splits)
  from n have "map_of m p = map_of (startMux R ns) p"
    by (simp add: m map_of_map_put_all [OF assms(1)] map_of_eq_None_iff [symmetric])
  moreover have "map_of (startMux R ns) p =
      Some (if p = ''/'' then MakeRootAPIHandler (MakeAPIHandler R (ns name)) else MakeAPIHandler R (ns name))"
    using 2 by (auto simp: startMux_def defaultRoutes_def split: if_splits)
  moreover have "cleanPath p = p" using 2 by (intro cleanPath_defaults) auto
  ultimately show ?case
    using 2 CollectStructSnapshot_tree [of "formatTime R" "metrics st" Full mtree "globals st" "Some reg"]
    by (simp add: orDefault_def serve_exact MakeRootAPIHandler_def MakeAPIHandler_def prettyPrint_def)
next
  case (3 m ks st p h)
  then have "m = map_put_all (startMux R ns) hs"
    by (auto simp: defaultMux_attach attachAll_iff [OF assms(1)] split: if_splits)
  then have "map_of m p = Some h" using 3 by (simp add: map_of_map_put_all [OF assms(1)])
  then show ?case using 3 by (simp add: serve_exact)
next
  case (4 m ks st p)
  have m: "m = map_put_all (startMux R ns) hs" and n: "''/'' \<notin> fst ` set hs"
    using 4 startMux_keys [of R ns "''/''"]
    by (auto simp: defaultMux_attach attachAll_iff [OF assms(1)] defaultRoutes_def split: if_splits)
  have root: "map_of m ''/'' = Some (MakeRootAPIHandler (MakeAPIHandler R (ns ''info'')))"
    using n by (simp add: m map_of_map_put_all [OF assms(1)] map_of_eq_None_iff [symmetric] startMux_def)
  have "p @ ''/'' \<notin> dom (map_of defaultRoutes) - {''/''}" by (auto simp: defaultRoutes_def domIff append_eq_Cons_conv split: if_splits)
  then show ?case using 4
    by (intro serve_unknown [OF root])
       (auto simp: m keys_map_put_all startMux_def defaultRoutes_def endsSlash_def domIff split: if_splits)
qed

theorem default_routes_witness:
  "\<exists>m. defaultMux \<lparr>String = (\<lambda>_. ''{}''), StringToPrint = (\<lambda>_. []), formatTime = (\<lambda>_. [])\<rparr> (\<lambda>_. 0) [] = Ok m \<and>
     serve m \<lparr>qpath = ''/stats'', qkeys = []\<rparr> \<lparr>spaces = [\<lparr>nname = [], nregistry = Some (NewRegistry0 [])\<rparr>], metrics = [], globals = sampleGlobals\<rparr> =
       Ok (\<lparr>spaces = [\<lparr>nname = [], nregistry = Some (NewRegistry0 [])\<rparr>], metrics = [], globals = sampleGlobals\<rparr>,
           Response 200 ''application/json; charset=utf-8'' ''{}'')"
proof -
  let ?R = "\<lparr>String = (\<lambda>_. ''{}''), StringToPrint = (\<lambda>_. []), formatTime = (\<lambda>_. [])\<rparr>"
  have "defaultMux ?R (\<lambda>_. 0) [] = Ok (startMux ?R (\<lambda>_. 0))" by (simp add: defaultMux_attach)
  moreover have "describes (\<lambda>_. []) [] Full (\<lambda>_. Node []) (regAddrs (NewRegistry0 []))"
    by (simp add: describes_def NewRegistry0_def)
  ultimately show ?thesis
    using default_routes [OF wf_map_Nil, of ?R "\<lambda>_. 0"] by (auto simp: defaultRoutes_def Namespace_GetRegistry_def)
qed

end
