(* ===== verification/Go_Runes.thy ===== *)
theory Go_Runes
  imports Go_Utf8
begin

text \<open>
  Encoding of characters in UTF-8: what is decoded from a valid byte string is encoded to the same bytes.
\<close>

text \<open>\<open>utf8.AppendRune\<close>; a value that is no character becomes the replacement character.\<close>

definition encodeRune :: "nat \<Rightarrow> string" where
  "encodeRune r0 =
     (let r = (if r0 > 0x10ffff \<or> 0xd800 \<le> r0 \<and> r0 \<le> 0xdfff then RuneError else r0) in
      map char_of
        (if r < 0x80 then [r]
         else if r < 0x800 then [0xc0 + r div 64, 0x80 + r mod 64]
         else if r < 0x10000 then [0xe0 + r div 4096, 0x80 + r div 64 mod 64, 0x80 + r mod 64]
         else [0xf0 + r div 262144, 0x80 + r div 4096 mod 64, 0x80 + r div 64 mod 64, 0x80 + r mod 64]))"

lemma encodeRune_length: "length (encodeRune r) \<le> 4"
  by (simp add: encodeRune_def Let_def)

lemma length_encodeRunes: "length (concat (map encodeRune rs)) \<le> 4 * length rs"
proof (induction rs)
  case (Cons r rs)
  then show ?case using encodeRune_length [of r] by simp
qed simp

lemma encodeRune_ascii: "r < 128 \<Longrightarrow> encodeRune r = [char_of r]"
  by (simp add: encodeRune_def)

lemma encodeRunes_ascii: "list_all (\<lambda>c. byte c < 128) t \<Longrightarrow> concat (map encodeRune (map of_char t)) = t"
  by (induction t) (simp_all add: encodeRune_ascii)

lemma encodeRune_3:
  "0x800 \<le> r \<Longrightarrow> r < 0x10000 \<Longrightarrow> r < 0xd800 \<or> 0xdfff < r \<Longrightarrow>
     encodeRune r = map char_of [0xe0 + r div 4096, 0x80 + r div 64 mod 64, 0x80 + r mod 64]"
  unfolding encodeRune_def Let_def by auto

lemma encodeRune_4:
  "0x10000 \<le> r \<Longrightarrow> r \<le> 0x10ffff \<Longrightarrow>
     encodeRune r = map char_of [0xf0 + r div 262144, 0x80 + r div 4096 mod 64, 0x80 + r div 64 mod 64, 0x80 + r mod 64]"
  unfolding encodeRune_def Let_def by auto

lemma le_obtain:
  fixes a :: nat
  assumes "m \<le> a" and "a < m + k"
  obtains x where "a = m + x" and "x < k"
  using assms by (metis add_less_cancel_left le_iff_add)

lemma horner_div_mod:
  fixes x y z :: nat
  assumes "z < k"
  shows "(y * k + z) div k = y" and "(y * k + z) mod k = z"
  using assms by auto

lemma lead_mod:
  fixes x :: nat
  shows "x < 32 \<Longrightarrow> (0xC0 + x) mod 32 = x" and "x < 16 \<Longrightarrow> (0xE0 + x) mod 16 = x"
    and "x < 8 \<Longrightarrow> (0xF0 + x) mod 8 = x" and "x < 64 \<Longrightarrow> (0x80 + x) mod 64 = x"
  using horner_div_mod(2) [of x 32 6] horner_div_mod(2) [of x 16 14] horner_div_mod(2) [of x 8 30] horner_div_mod(2) [of x 64 2]
  by simp_all

lemma encode_2:
  assumes "0xC2 \<le> a" "a \<le> 0xDF" and "0x80 \<le> b" "b \<le> 0xBF"
  shows "encodeRune ((a mod 32) * 64 + b mod 64) = [char_of a, char_of b]"
proof -
  obtain x where x: "a = 0xC0 + x" "x < 32" by (rule le_obtain [of "0xC0" a 32]) (use assms in auto)
  obtain y where y: "b = 0x80 + y" "y < 64" by (rule le_obtain [of "0x80" b 64]) (use assms in auto)
  have "2 \<le> x" using assms x by simp
  then show ?thesis using x y by (simp add: encodeRune_def lead_mod)
qed

lemma encode_3:
  assumes "0xE0 \<le> a" "a \<le> 0xEF" and "0x80 \<le> b" "b \<le> 0xBF" and "0x80 \<le> c" "c \<le> 0xBF"
    and "a = 0xE0 \<Longrightarrow> 0xA0 \<le> b" and "a = 0xED \<Longrightarrow> b \<le> 0x9F"
  shows "encodeRune ((a mod 16) * 4096 + (b mod 64) * 64 + c mod 64) = [char_of a, char_of b, char_of c]"
proof -
  obtain x where x: "a = 0xE0 + x" "x < 16" by (rule le_obtain [of "0xE0" a 16]) (use assms in auto)
  obtain y where y: "b = 0x80 + y" "y < 64" by (rule le_obtain [of "0x80" b 64]) (use assms in auto)
  obtain z where z: "c = 0x80 + z" "z < 64" by (rule le_obtain [of "0x80" c 64]) (use assms in auto)
  have xy: "x = 0 \<Longrightarrow> 0x20 \<le> y" "x = 13 \<Longrightarrow> y < 0x20" using assms(7,8) x y by auto
  let ?q = "x * 64 + y" let ?r = "?q * 64 + z"
  have q: "?r div 64 = ?q" "?r mod 64 = z" "?q div 64 = x" "?q mod 64 = y" by (rule horner_div_mod, fact)+
  then have d: "?r div 4096 = x" using div_mult2_eq [of ?r 64 64] by simp
  have lo: "?r \<ge> 0x800" using xy(1) by (cases "x = 0") auto
  have sur: "?r < 0xd800 \<or> 0xdfff < ?r"
  proof -
    consider "x < 13" | "x = 13" | "13 < x" by linarith
    then show ?thesis using xy(2) y z by cases auto
  qed
  have r: "(a mod 16) * 4096 + (b mod 64) * 64 + c mod 64 = ?r" using x y z by (simp add: lead_mod)
  have hi: "?r < 0x10000" using x y z by simp
  show ?thesis unfolding r unfolding encodeRune_3 [OF lo hi sur] q d unfolding x(1) y(1) z(1) by simp
qed

lemma encode_4:
  assumes "0xF0 \<le> a" "a \<le> 0xF4" and "0x80 \<le> b" "b \<le> 0xBF" and "0x80 \<le> c" "c \<le> 0xBF" and "0x80 \<le> d" "d \<le> 0xBF"
    and "a = 0xF0 \<Longrightarrow> 0x90 \<le> b" and "a = 0xF4 \<Longrightarrow> b \<le> 0x8F"
  shows "encodeRune ((a mod 8) * 262144 + (b mod 64) * 4096 + (c mod 64) * 64 + d mod 64) = [char_of a, char_of b, char_of c, char_of d]"
proof -
  obtain x where x: "a = 0xF0 + x" "x < 8" by (rule le_obtain [of "0xF0" a 8]) (use assms in auto)
  obtain y where y: "b = 0x80 + y" "y < 64" by (rule le_obtain [of "0x80" b 64]) (use assms in auto)
  obtain z where z: "c = 0x80 + z" "z < 64" by (rule le_obtain [of "0x80" c 64]) (use assms in auto)
  obtain u where u: "d = 0x80 + u" "u < 64" by (rule le_obtain [of "0x80" d 64]) (use assms in auto)
  have xy: "x = 0 \<Longrightarrow> 0x10 \<le> y" "x = 4 \<Longrightarrow> y < 0x10" "x < 5" using assms(2,9,10) x y by auto
  let ?p = "x * 64 + y" let ?q = "?p * 64 + z" let ?r = "?q * 64 + u"
  have q: "?r div 64 = ?q" "?r mod 64 = u" "?q div 64 = ?p" "?q mod 64 = z" "?p div 64 = x" "?p mod 64 = y"
    by (rule horner_div_mod, fact)+
  then have d: "?r div 4096 = ?p" "?r div 262144 = x"
    using div_mult2_eq [of ?r 64 64] div_mult2_eq [of ?r 64 4096] div_mult2_eq [of ?q 64 64] by simp_all
  have lo: "?r \<ge> 0x10000" using xy(1) by (cases "x = 0") auto
  have hi: "?r \<le> 0x10ffff"
  proof -
    consider "x < 4" | "x = 4" using xy(3) by linarith
    then show ?thesis using xy(2) y z u by cases auto
  qed
  have r: "(a mod 8) * 262144 + (b mod 64) * 4096 + (c mod 64) * 64 + d mod 64 = ?r" using x y z u by (simp add: lead_mod)
  show ?thesis unfolding r unfolding encodeRune_4 [OF lo hi] q d unfolding x(1) y(1) z(1) u(1) by simp
qed

lemma decodeRune_encodeRune:
  assumes "s \<noteq> []" and "decodeRune s \<noteq> (RuneError, 1)"
  shows "encodeRune (fst (decodeRune s)) = take (snd (decodeRune s)) s"
proof -
  obtain c cs where s: "s = c # cs" using assms(1) by (cases s) auto
  show ?thesis
  proof (cases "byte c < 128")
    case True
    then show ?thesis using s by (simp add: decodeRune_def encodeRune_ascii)
  next
    case False
    then obtain n lo hi where n: "leadInfo (byte c) = Some (n, lo, hi)"
      using assms s by (auto simp: decodeRune_def split: option.splits)
    have len: "n \<le> length s" and b1: "lo \<le> byte (s ! 1)" "byte (s ! 1) \<le> hi"
      and b23: "3 \<le> n \<Longrightarrow> isCont (byte (s ! 2))" "4 \<le> n \<Longrightarrow> isCont (byte (s ! 3))"
      using assms(2) s n False leadInfo_length [OF n] by (auto simp: decodeRune_def Let_def split: if_splits)
    from leadInfo_length [OF n] show ?thesis
    proof (elim disjE)
      assume n2: "n = 2"
      then obtain d ds where "cs = d # ds" using len s by (cases cs) auto
      then show ?thesis using s n n2 False b1 encode_2 [of "byte c" "byte d"]
        by (auto simp: decodeRune_def leadInfo_def Let_def split: if_splits)
    next
      assume n3: "n = 3"
      then obtain d e ds where "cs = d # e # ds" using len s by (cases cs; cases "tl cs") auto
      then show ?thesis using s n n3 False b1 b23 encode_3 [of "byte c" "byte d" "byte e"]
        by (auto simp: decodeRune_def leadInfo_def Let_def isCont_def split: if_splits)
    next
      assume n4: "n = 4"
      then obtain d e f ds where "cs = d # e # f # ds" using len s by (cases cs; cases "tl cs"; cases "tl (tl cs)") auto
      then show ?thesis using s n n4 False b1 b23 encode_4 [of "byte c" "byte d" "byte e" "byte f"]
        by (auto simp: decodeRune_def leadInfo_def Let_def isCont_def split: if_splits)
    qed
  qed
qed

text \<open>A valid string decodes without the error of width one.\<close>

function validUtf8 :: "string \<Rightarrow> bool" where
  "validUtf8 s = (if s = [] then True else if decodeRune s = (RuneError, 1) then False else validUtf8 (drop (snd (decodeRune s)) s))"
  by pat_completeness auto
termination
  by (relation "measure length") (use decodeRune_width in \<open>auto simp: diff_less\<close>)

declare validUtf8.simps [simp del]

lemma encode_runes: "validUtf8 s \<Longrightarrow> concat (map encodeRune (runes s)) = s"
proof (induction s rule: runes.induct)
  case (1 s)
  show ?case
  proof (cases "s = []")
    case False
    then have "decodeRune s \<noteq> (RuneError, 1)" "validUtf8 (drop (snd (decodeRune s)) s)"
      using 1(2) by (auto simp: validUtf8.simps [of s] split: if_splits)
    then show ?thesis using 1(1) False decodeRune_encodeRune [of s] by (simp add: runes.simps [of s])
  qed (simp add: runes.simps)
qed

section \<open>Decoding what was encoded\<close>

definition validRune :: "nat \<Rightarrow> bool" where
  "validRune r \<longleftrightarrow> r \<le> 0x10ffff \<and> (r < 0xd800 \<or> 0xdfff < r)"

lemma byte_char: "n < 256 \<Longrightarrow> byte (char_of n) = n"
  by simp

lemma decode_encode_2:
  assumes "0x80 \<le> r" "r < 0x800"
  shows "decodeRune (encodeRune r @ s) = (r, 2)"
proof -
  obtain x y where r: "r = x * 64 + y" "y < 64" "x < 32" "2 \<le> x"
    using that [of "r div 64" "r mod 64"] assms by (auto simp: less_mult_imp_div_less)
  have "encodeRune r = [char_of (0xc0 + x), char_of (0x80 + y)]"
    using assms r by (simp add: encodeRune_def)
  moreover have "byte (char_of (0xc0 + x)) = 0xc0 + x" "byte (char_of (0x80 + y)) = 0x80 + y" using r by (auto intro!: byte_char)
  ultimately show ?thesis using r lead_mod [of x] lead_mod [of y] by (simp add: decodeRune_def leadInfo_def)
qed

lemma decode_encode_3:
  assumes "0x800 \<le> r" "r < 0x10000" "r < 0xd800 \<or> 0xdfff < r"
  shows "decodeRune (encodeRune r @ s) = (r, 3)"
proof -
  define x y z where "x = r div 4096" "y = r div 64 mod 64" "z = r mod 64"
  have "r div 64 div 64 = r div 4096" by (simp add: div_mult2_eq [symmetric])
  then have r: "r = x * 4096 + y * 64 + z"
    using div_mult_mod_eq [of r 64] div_mult_mod_eq [of "r div 64" 64] unfolding x_y_z_def by linarith
  have b: "x < 16" "y < 64" "z < 64" using assms(2) by (auto simp: x_y_z_def less_mult_imp_div_less)
  have e: "x = 0 \<Longrightarrow> 32 \<le> y" "x = 13 \<Longrightarrow> y < 32" using assms r b by auto
  have "encodeRune r = [char_of (0xe0 + x), char_of (0x80 + y), char_of (0x80 + z)]"
    using encodeRune_3 [OF assms] by (simp add: x_y_z_def)
  moreover have "byte (char_of (0xe0 + x)) = 0xe0 + x" "byte (char_of (0x80 + y)) = 0x80 + y" "byte (char_of (0x80 + z)) = 0x80 + z"
    using b by (auto intro!: byte_char)
  ultimately show ?thesis using r b e lead_mod [of x] lead_mod [of y] lead_mod [of z]
    by (auto simp: decodeRune_def leadInfo_def isCont_def)
qed

lemma decode_encode_4:
  assumes "0x10000 \<le> r" "r \<le> 0x10ffff"
  shows "decodeRune (encodeRune r @ s) = (r, 4)"
proof -
  define x y z w where "x = r div 262144" "y = r div 4096 mod 64" "z = r div 64 mod 64" "w = r mod 64"
  have "r div 64 div 64 = r div 4096" "r div 4096 div 64 = r div 262144" by (simp_all add: div_mult2_eq [symmetric])
  then have r: "r = x * 262144 + y * 4096 + z * 64 + w"
    using div_mult_mod_eq [of r 64] div_mult_mod_eq [of "r div 64" 64] div_mult_mod_eq [of "r div 4096" 64] unfolding x_y_z_w_def by linarith
  have b: "x < 5" "y < 64" "z < 64" "w < 64" using assms(2) by (auto simp: x_y_z_w_def)
  have e: "x = 0 \<Longrightarrow> 16 \<le> y" "x = 4 \<Longrightarrow> y < 16" using assms r b by auto
  have "encodeRune r = [char_of (0xf0 + x), char_of (0x80 + y), char_of (0x80 + z), char_of (0x80 + w)]"
    using encodeRune_4 [OF assms] by (simp add: x_y_z_w_def)
  moreover have "byte (char_of (0xf0 + x)) = 0xf0 + x" "byte (char_of (0x80 + y)) = 0x80 + y" "byte (char_of (0x80 + z)) = 0x80 + z"
    "byte (char_of (0x80 + w)) = 0x80 + w"
    using b by (auto intro!: byte_char)
  moreover obtain lo hi where "leadInfo (0xf0 + x) = Some (4, lo, hi)" "lo \<le> 0x80 + y" "0x80 + y \<le> hi"
  proof -
    have "x \<in> {0, 1, 2, 3, 4}" using b by auto
    then show thesis using that e b by (auto simp: leadInfo_def)
  qed
  ultimately show ?thesis using b lead_mod(3) [of x] lead_mod(4) [of y] lead_mod(4) [of z] lead_mod(4) [of w]
    by (simp add: decodeRune_def isCont_def r)
qed

lemma decode_encode: "validRune r \<Longrightarrow> decodeRune (encodeRune r @ s) = (r, length (encodeRune r))"
  using decode_encode_2 [of r s] decode_encode_3 [of r s] decode_encode_4 [of r s]
  by (cases "r < 0x80"; cases "r < 0x800"; cases "r < 0x10000")
    (auto simp: validRune_def encodeRune_ascii decodeRune_def encodeRune_def)

lemma runes_encode: "list_all validRune rs \<Longrightarrow> runes (concat (map encodeRune rs)) = rs"
proof (induction rs)
  case (Cons r rs)
  have "encodeRune r \<noteq> []" by (simp add: encodeRune_def Let_def)
  then show ?case using Cons decode_encode [of r "concat (map encodeRune rs)"]
    by (subst runes.simps) (simp add: drop_append)
qed (simp add: runes.simps)

end
