(* ===== verification/Kibana.thy ===== *)
theory Kibana
  imports Version Paths Go_Runes Go_Http Transport
begin

text \<open>
  The client of Kibana (src/kibana): the configuration (client_config.go), URLs (url.go), sending of
  requests and reading of responses (client.go), the calls of the Fleet interface (fleet.go), and the
  user agent (src/useragent). HTTP, JSON, base64, the parsing of URLs and of media types are arguments,
  in the record \<open>web\<close> over a type \<open>'w\<close> of states of the server; a request body is given as its JSON
  text or the error of encoding it, the answer of a call is of a type \<open>'r\<close> with its decoder and its zero value.
\<close>

section \<open>Headers\<close>

definition addHeaders :: "header \<Rightarrow> header \<Rightarrow> header" where
  "addHeaders out in1 = fold (\<lambda>(k, vs) out. fold (hAdd k) vs out) in1 out"

section \<open>The packages used\<close>

datatype kerr =
    KErr string | KWrap string kerr | KAround string kerr string | KMessage string "(string \<times> string) list" | KAssets "string list"
  | KVersion version_error

record request =
  rmethod :: string
  rurl :: string
  rheaders :: header
  rbody :: "string option"

record response =
  Status :: string
  StatusCode :: nat
  Body :: "string + kerr"

text \<open>
  The results of decoding an error response (message and failed objects), an import response (success and
  the messages of its errors) and a status response (number, snapshot, flavor).
\<close>

record 'w web =
  httpDo :: "request \<Rightarrow> 'w \<Rightarrow> 'w \<times> (response + kerr)"
  newRequest :: "string \<Rightarrow> string \<Rightarrow> kerr option"
  base64 :: "string \<Rightarrow> string"
  mediaType :: "string \<Rightarrow> string"
  encodeParams :: "(string, string list) gomap \<Rightarrow> string"
  parseURL :: "string \<Rightarrow> URL + kerr"
  renderURL :: "URL \<Rightarrow> string"
  joinPath :: "string \<Rightarrow> string \<Rightarrow> string + kerr"
  decodeError :: "string \<Rightarrow> (string \<times> (string \<times> string) list) + kerr"
  decodeImport :: "string \<Rightarrow> (bool \<times> string list) + kerr"
  decodeVersion :: "string \<Rightarrow> (string \<times> bool) + kerr"
  decodeFlavor :: "string \<Rightarrow> string + kerr"

section \<open>URLs and the user agent\<close>

text \<open>The expression \<open>^([a-z][a-z0-9+\-.]*)://\<close>.\<close>

definition hasScheme :: "string \<Rightarrow> bool" where
  "hasScheme s \<longleftrightarrow>
     (case s of
        [] \<Rightarrow> False
      | c # cs \<Rightarrow> isLower c \<and> prefix ''://'' (dropWhile (\<lambda>x. isLower x \<or> is_digit x \<or> x \<in> set ''+-.'') cs))"

definition MakeURL :: "'w web \<Rightarrow> string \<Rightarrow> string \<Rightarrow> string \<Rightarrow> int \<Rightarrow> string + kerr" where
  "MakeURL W defaultScheme defaultPath rawURL defaultPort =
     (let defaultScheme = (if defaultScheme = [] then ''http'' else defaultScheme);
          rawURL = (if \<not> hasScheme rawURL then defaultScheme @ ''://'' @ rawURL else rawURL) in
      case parseURL W rawURL of
        Inr e \<Rightarrow> Inr e
      | Inl addr \<Rightarrow>
          (let defPort = (if defaultPort > 0 then go_itoa (nat defaultPort) else []);
               (host, port) =
                 (if UHost addr = [] then (''localhost'', defPort)
                  else
                    (let (h, p) = (case SplitHostPort (UHost addr) of Inl hp \<Rightarrow> hp | Inr _ \<Rightarrow> (UHost addr, defPort)) in
                     (if count_list h (CHR '':'') > 1 \<and> count_list h (CHR '']'') = 0 then ''['' @ h @ '']'' else h, p)));
               path = (if UPath addr = [] then defaultPath else UPath addr)
           in Inl (renderURL W (addr\<lparr>UHost := (if port \<noteq> [] then host @ '':'' @ port else host), UPath := path\<rparr>))))"

definition EncodeURLParams :: "'w web \<Rightarrow> string \<Rightarrow> (string, string list) gomap \<Rightarrow> string" where
  "EncodeURLParams W u params = (if params = [] then u else u @ ''?'' @ encodeParams W params)"

definition WithDefaultScheme :: "string \<Rightarrow> string \<Rightarrow> string" where
  "WithDefaultScheme scheme raw = (if \<not> go_contains raw ''://'' then scheme @ ''://'' @ raw else raw)"

definition ParseURL :: "'w web \<Rightarrow> string \<Rightarrow> (string \<Rightarrow> string) list \<Rightarrow> URL option + kerr" where
  "ParseURL W raw hints =
     (if raw = [] then Inl None
      else
        (let hints = (if hints = [] then [WithDefaultScheme ''http''] else hints);
             raw = (if \<not> go_contains raw ''://'' then fold (\<lambda>hint raw. hint raw) hints raw else raw) in
         case parseURL W raw of Inl u \<Rightarrow> Inl (Some u) | Inr e \<Rightarrow> Inr e))"

definition UserAgent :: "string \<Rightarrow> string \<Rightarrow> string \<Rightarrow> string \<Rightarrow> string \<Rightarrow> string \<Rightarrow> string list \<Rightarrow> string" where
  "UserAgent goos goarch binaryName ver commit buildTime additionalComments =
     ''Elastic-'' @ binaryName @ ''/'' @ ver @ '' ('' @
     join_str ''; '' ([goos, goarch, commit, buildTime] @ filter (\<lambda>v. v \<noteq> []) additionalComments) @ '')''"

text \<open>The modes are integers; a value without a name is written as unknown.\<close>

definition ManagementModeString :: "int \<Rightarrow> string" where
  "ManagementModeString m =
     (if m = 2 then ''Unmanaged'' else if m = 3 then ''Managed'' else if m = 1 then ''Standalone'' else ''Unknown'')"

definition UnprivilegedModeString :: "int \<Rightarrow> string" where
  "UnprivilegedModeString m = (if m = 1 then ''Unprivileged'' else if m = 2 then ''Privileged'' else ''Unknown'')"

definition UserAgentWithBeatTelemetry :: "string \<Rightarrow> string \<Rightarrow> string \<Rightarrow> string \<Rightarrow> int \<Rightarrow> int \<Rightarrow> string" where
  "UserAgentWithBeatTelemetry goos goarch name ver mode unprivileged =
     ''Elastic-'' @ name @ ''/'' @ ver @ '' ('' @
     join_str ''; ''
       ([goos, goarch] @ (if mode \<noteq> 0 then [ManagementModeString mode] else []) @
        (if unprivileged \<noteq> 0 then [UnprivilegedModeString unprivileged] else [])) @ '')''"

section \<open>The client\<close>

record ClientConfig =
  Protocol :: string
  Host :: string
  CPath :: string
  SpaceID :: string
  Username :: string
  Password :: string
  APIKey :: string
  ServiceToken :: string
  Headers :: "(string, string) gomap"
  IgnoreVersion :: bool

definition DefaultClientConfig :: ClientConfig where
  "DefaultClientConfig = \<lparr>Protocol = ''http'', Host = ''localhost:5601'', CPath = [], SpaceID = [], Username = [], Password = [],
     APIKey = [], ServiceToken = [], Headers = [(''Elastic-Api-Version'', ''2023-10-31'')], IgnoreVersion = False\<rparr>"

definition Validate :: "ClientConfig \<Rightarrow> kerr option" where
  "Validate c = (if APIKey c \<noteq> [] \<and> (Username c \<noteq> [] \<or> Password c \<noteq> []) then Some (KErr ''cannot set both api_key and username/password'') else None)"

record Connection =
  KURL :: string
  KUsername :: string
  KPassword :: string
  KAPIKey :: string
  KServiceToken :: string
  KHeaders :: header
  KVersionOf :: "V option"

definition addToURL :: "'w web \<Rightarrow> string \<Rightarrow> string \<Rightarrow> (string, string list) gomap \<Rightarrow> string" where
  "addToURL W u p params = (if params = [] then u @ p else u @ p @ ''?'' @ encodeParams W params)"

definition extractError :: "'w web \<Rightarrow> string \<Rightarrow> kerr option" where
  "extractError W result =
     (case decodeError W result of
        Inr e \<Rightarrow> Some (KWrap ''error extracting JSON for error response'' e)
      | Inl (message, objects) \<Rightarrow> if message \<noteq> [] then Some (KMessage message objects) else None)"

text \<open>Errors without any message are joined to nil.\<close>

definition extractMessage :: "'w web \<Rightarrow> string \<Rightarrow> kerr option" where
  "extractMessage W result =
     (case decodeImport W result of
        Inr e \<Rightarrow> None
      | Inl (success, errs) \<Rightarrow> if \<not> success \<and> errs \<noteq> [] then Some (KAssets errs) else None)"

definition authHeaders :: "'w web \<Rightarrow> Connection \<Rightarrow> header \<Rightarrow> header" where
  "authHeaders W conn h0 =
     (let h1 = (if KUsername conn \<noteq> [] \<or> KPassword conn \<noteq> []
                then hSet ''Authorization'' (''Basic '' @ base64 W (KUsername conn @ '':'' @ KPassword conn)) h0 else h0);
          h2 = (if KAPIKey conn \<noteq> [] then hSet ''Authorization'' (''ApiKey '' @ base64 W (KAPIKey conn)) h1 else h1)
      in (if KServiceToken conn \<noteq> [] then hSet ''Authorization'' (''Bearer '' @ KServiceToken conn) h2 else h2))"

definition requestHeaders :: "'w web \<Rightarrow> Connection \<Rightarrow> header \<Rightarrow> header" where
  "requestHeaders W conn headers =
     (let h = addHeaders (addHeaders (authHeaders W conn []) (KHeaders conn)) headers;
          contentType = mediaType W (hGet h ''Content-Type'');
          h = (if contentType \<noteq> ''multipart/form-data'' \<and> contentType \<noteq> ''application/ndjson''
               then hSet ''Content-Type'' ''application/json'' h else h)
      in hSet ''kbn-xsrf'' ''1'' (hSet ''Accept'' ''application/json'' h))"

definition SendWithContext ::
  "'w web \<Rightarrow> Connection \<Rightarrow> string \<Rightarrow> string \<Rightarrow> (string, string list) gomap \<Rightarrow> header \<Rightarrow> string option \<Rightarrow> 'w \<Rightarrow> 'w \<times> (response + kerr)" where
  "SendWithContext W conn method extraPath params headers body w =
     (let reqURL = addToURL W (KURL conn) extraPath params in
      case newRequest W method reqURL of
        Some e \<Rightarrow> (w, Inr (KWrap (''fail to create the HTTP '' @ method @ '' request'') e))
      | None \<Rightarrow> httpDo W \<lparr>rmethod = (if method = [] then ''GET'' else method), rurl = reqURL, rheaders = requestHeaders W conn headers, rbody = body\<rparr> w)"

definition Request ::
  "'w web \<Rightarrow> Connection \<Rightarrow> string \<Rightarrow> string \<Rightarrow> (string, string list) gomap \<Rightarrow> header \<Rightarrow> string option \<Rightarrow> 'w \<Rightarrow>
     'w \<times> nat \<times> string \<times> kerr option" where
  "Request W conn method extraPath params headers body w =
     (case SendWithContext W conn method extraPath params headers body w of
        (w', Inr e) \<Rightarrow> (w', 0, [], Some (KWrap (''fail to execute the HTTP '' @ method @ '' request'') e))
      | (w', Inl resp) \<Rightarrow>
          (case Body resp of
             Inr e \<Rightarrow> (w', 0, [], Some (KWrap ''fail to read response'' e))
           | Inl result \<Rightarrow>
               (w', StatusCode resp, result,
                if StatusCode resp \<ge> 300 then extractError W result else extractMessage W result)))"

definition truncateString :: "string \<Rightarrow> string" where
  "truncateString b =
     (let rs = runes b;
          rs = (if length rs > 250 then take 250 rs @ map of_char ''... (truncated)'' else rs)
      in map (\<lambda>c. if c = CHR 0x0A then CHR '' '' else c) (concat (map encodeRune rs)))"

definition statusAPI :: string where "statusAPI = ''/api/status''"

text \<open>\<open>version.New\<close> does not panic.\<close>

definition readVersion :: "'w web \<Rightarrow> Connection \<Rightarrow> 'w \<Rightarrow> 'w \<times> (Connection + kerr)" where
  "readVersion W conn w =
     (let (w', code, result, err) = Request W conn ''GET'' statusAPI [] [] None w in
      (w',
       case err of
         Some e \<Rightarrow>
           Inr (KAround (''HTTP GET request to '' @ KURL conn @ ''/api/status fails'') e
             ('' (status='' @ go_itoa code @ ''). Response: '' @ truncateString result))
       | None \<Rightarrow>
           if code \<ge> 400 then
             Inr (KErr (''HTTP GET request to '' @ KURL conn @ ''/api/status fails: status='' @ go_itoa code @
               ''. Response: '' @ truncateString result))
           else
             (case decodeVersion W result of
                Inr e \<Rightarrow>
                  Inr (KWrap (''fail to unmarshal the response from GET '' @ KURL conn @ ''/api/status. Response: '' @
                    truncateString result @ ''. Kibana status api returns'') e)
              | Inl (number, snapshot) \<Rightarrow>
                  (let versionString = (if snapshot then number @ ''-SNAPSHOT'' else number) in
                   case Version.New versionString of
                     Ok v \<Rightarrow> Inl (conn\<lparr>KVersionOf := Some v\<rparr>)
                   | Err e \<Rightarrow> Inr (KWrap (''fail to parse kibana version ('' @ versionString @ '')'') (KVersion e))
                   | Panic \<Rightarrow> Inr (KErr [])))))"

text \<open>The version is the zero value of \<open>version.V\<close> when it was not read.\<close>

definition GetVersion :: "Connection \<Rightarrow> V option" where
  "GetVersion conn = KVersionOf conn"

definition KibanaIsServerless :: "'w web \<Rightarrow> Connection \<Rightarrow> 'w \<Rightarrow> 'w \<times> (bool + kerr)" where
  "KibanaIsServerless W conn w =
     (let params = (if KAPIKey conn \<noteq> [] then hAdd ''Authorization'' (''ApiKey '' @ base64 W (KAPIKey conn)) [] else []);
          (w', ret, resp, err) = Request W conn ''GET'' ''/api/status'' [] params None w in
      (w',
       case err of
         Some e \<Rightarrow> Inr (KWrap ''error in HTTP request'' e)
       | None \<Rightarrow>
           if ret > 300 then Inr (KErr (''got invalid response code: '' @ go_itoa ret @ '' ('' @ resp @ '')''))
           else
             (case decodeFlavor W resp of
                Inr e \<Rightarrow> Inr (KWrap ''error unmarshalling JSON'' e)
              | Inl flavor \<Rightarrow> Inl (flavor = ''serverless''))))"

text \<open>
  The argument \<open>part\<close> is what the multipart writer makes of the file: the content type with the boundary and
  the encoded body, or the error with the text that wraps it.
\<close>

definition ImportMultiPartFormFile ::
  "'w web \<Rightarrow> Connection \<Rightarrow> string \<Rightarrow> (string, string list) gomap \<Rightarrow> (string \<times> string) + kerr \<Rightarrow> 'w \<Rightarrow> 'w \<times> kerr option" where
  "ImportMultiPartFormFile W conn u params part w =
     (case part of
        Inr e \<Rightarrow> (w, Some e)
      | Inl (contentType, buf) \<Rightarrow>
          (let h = hAdd ''Content-Type'' contentType [];
               (w1, serverless) = KibanaIsServerless W conn w;
               h = (if serverless = Inl True then hAdd ''x-elastic-internal-origin'' ''elastic-agent-libs'' h else h);
               (w2, statusCode, resp, err) = Request W conn ''POST'' u params h (Some buf) w1 in
           (w2,
            case err of
              Some e \<Rightarrow>
                Some (KAround (''returned '' @ go_itoa statusCode @ '' to import file'') e (''. Response: '' @ resp))
            | None \<Rightarrow>
                if statusCode \<ge> 300 then
                  Some (KErr (''returned '' @ go_itoa statusCode @ '' to import file. Response: '' @ resp))
                else None)))"

text \<open>
  The end of the construction, with the URL and the credentials that are used; \<open>transportErr\<close> is the error of
  making the HTTP client for a user agent.
\<close>

definition connectKibana ::
  "'w web \<Rightarrow> ClientConfig \<Rightarrow> string \<Rightarrow> string \<Rightarrow> string \<Rightarrow> kerr option \<Rightarrow> 'w \<Rightarrow> 'w \<times> (Connection + kerr)" where
  "connectKibana W config kibanaURL un pw transportErr w =
     (let conn = \<lparr>KURL = kibanaURL, KUsername = un, KPassword = pw, KAPIKey = APIKey config, KServiceToken = ServiceToken config,
            KHeaders = fold (\<lambda>(k, v) h. hSet k v h) (Headers config) [], KVersionOf = None\<rparr> in
      case transportErr of
        Some e \<Rightarrow> (w, Inr e)
      | None \<Rightarrow>
          if IgnoreVersion config then (w, Inl conn)
          else
            (case readVersion W conn w of
               (w', Inl c) \<Rightarrow> (w', Inl c)
             | (w', Inr e) \<Rightarrow> (w', Inr (KWrap ''fail to get the Kibana version'' e))))"

record buildInfo =
  binaryName :: string
  bversion :: string
  bcommit :: string
  buildtime :: string

definition NewClientWithConfigDefault ::
  "'w web \<Rightarrow> (string \<Rightarrow> kerr option) \<Rightarrow> string \<Rightarrow> string \<Rightarrow> ClientConfig \<Rightarrow> int \<Rightarrow> buildInfo \<Rightarrow> 'w \<Rightarrow> 'w \<times> (Connection + kerr)" where
  "NewClientWithConfigDefault W transportErr goos goarch config defaultPort b w =
     (case Validate config of
        Some e \<Rightarrow> (w, Inr e)
      | None \<Rightarrow>
          (let p = (if SpaceID config \<noteq> [] then Join [CPath config, ''s'', SpaceID config] else CPath config);
               userAgent = UserAgent goos goarch (if binaryName b = [] then ''Libbeat'' else binaryName b) (bversion b) (bcommit b) (buildtime b) [] in
           case MakeURL W (Protocol config) p (Host config) defaultPort of
             Inr e \<Rightarrow> (w, Inr (KWrap ''invalid Kibana host'' e))
           | Inl kibanaURL \<Rightarrow>
               (case parseURL W kibanaURL of
                  Inr e \<Rightarrow> (w, Inr (KWrap ''failed to parse the Kibana URL'' e))
                | Inl u \<Rightarrow>
                    (case UUser u of
                       Some (un, pw) \<Rightarrow>
                         if APIKey config \<noteq> [] \<and> (un \<noteq> [] \<or> pw \<noteq> [])
                         then (w, Inr (KErr ''cannot set api_key with username/password in Kibana URL''))
                         else connectKibana W config (renderURL W (u\<lparr>UUser := None\<rparr>)) un pw (transportErr userAgent) w
                     | None \<Rightarrow>
                         connectKibana W config kibanaURL (Username config) (Password config) (transportErr userAgent) w))))"

definition NewClientWithConfig where
  "NewClientWithConfig W transportErr goos goarch config b w =
     NewClientWithConfigDefault W transportErr goos goarch config 5601 b w"

text \<open>The argument \<open>unpack\<close> is the unpacking of the configuration over the defaults.\<close>

definition NewKibanaClient where
  "NewKibanaClient W transportErr goos goarch unpack b w =
     (case unpack DefaultClientConfig of
        Inr e \<Rightarrow> (w, Inr e)
      | Inl config \<Rightarrow> NewClientWithConfig W transportErr goos goarch config b w)"

section \<open>Fleet\<close>

text \<open>
  A decoder gives the value that is filled from the zero value, which on an error may be filled in part.
  The value is decoded only for the status 200; for every other status the message of the body is the
  error, and no message is no error.
\<close>

definition readJSONResponse :: "'w web \<Rightarrow> (string \<Rightarrow> 'r \<times> kerr option) \<Rightarrow> 'r \<Rightarrow> response \<Rightarrow> 'r \<times> kerr option" where
  "readJSONResponse W decode zero r =
     (case Body r of
        Inr e \<Rightarrow> (zero, Some (KWrap ''reading response body'' e))
      | Inl b \<Rightarrow>
          if StatusCode r \<noteq> 200 then (zero, extractError W b)
          else (case decode b of (v, err) \<Rightarrow> (v, map_option (KWrap ''unmarshalling response json'') err)))"

text \<open>
  The common body of the calls: a body that is encoded, the request, and the answer, with the texts of the
  two errors; the proxies return the second as it is.
\<close>

definition fleetCall ::
  "'w web \<Rightarrow> Connection \<Rightarrow> string \<Rightarrow> string option \<Rightarrow> string \<Rightarrow> string \<Rightarrow> (string, string list) gomap \<Rightarrow> (string + kerr) option \<Rightarrow>
     (string \<Rightarrow> 'r \<times> kerr option) \<Rightarrow> 'r \<Rightarrow> 'w \<Rightarrow> 'w \<times> 'r \<times> kerr option" where
  "fleetCall W conn encText callText method path params body decode zero w =
     (case body of
        Some (Inr e) \<Rightarrow> (w, zero, Some (KWrap encText e))
      | _ \<Rightarrow>
          (case SendWithContext W conn method path params [] (map_option projl body) w of
             (w', Inr e) \<Rightarrow> (w', zero, Some (case callText of Some t \<Rightarrow> KWrap t e | None \<Rightarrow> e))
           | (w', Inl resp) \<Rightarrow> (w', readJSONResponse W decode zero resp)))"

definition fleetAgentPoliciesAPI :: string where "fleetAgentPoliciesAPI = ''/api/fleet/agent_policies''"
definition fleetAgentsAPI :: string where "fleetAgentsAPI = ''/api/fleet/agents''"
definition fleetEnrollmentAPIKeysAPI :: string where "fleetEnrollmentAPIKeysAPI = ''/api/fleet/enrollment_api_keys''"
definition fleetFleetServerHostsAPI :: string where "fleetFleetServerHostsAPI = ''/api/fleet/fleet_server_hosts''"
definition fleetPackagePoliciesAPI :: string where "fleetPackagePoliciesAPI = ''/api/fleet/package_policies''"
definition fleetUninstallTokensAPI :: string where "fleetUninstallTokensAPI = ''/api/fleet/uninstall_tokens''"
definition fleetAgentDownloadSourcesAPI :: string where "fleetAgentDownloadSourcesAPI = ''/api/fleet/agent_download_sources''"
definition fleetProxiesAPI :: string where "fleetProxiesAPI = ''/api/fleet/proxies''"

definition CreatePolicy where
  "CreatePolicy W conn body =
     fleetCall W conn ''unable to marshal create policy request into JSON'' (Some ''error calling create policy API'')
       ''POST'' fleetAgentPoliciesAPI [] (Some body)"

definition GetPolicy where
  "GetPolicy W conn policyID =
     fleetCall W conn [] (Some ''error calling get policy API'') ''GET'' (fleetAgentPoliciesAPI @ ''/'' @ policyID) [] None"

definition UpdatePolicy where
  "UpdatePolicy W conn policyID body =
     fleetCall W conn ''unable to marshal update policy request into JSON'' (Some ''error calling update policy API'')
       ''PUT'' (fleetAgentPoliciesAPI @ ''/'' @ policyID) [] (Some body)"

definition CreateEnrollmentAPIKey where
  "CreateEnrollmentAPIKey W conn body =
     fleetCall W conn ''unable to marshal create enrollment API key request into JSON'' (Some ''error calling create enrollment API key API'')
       ''POST'' fleetEnrollmentAPIKeysAPI [] (Some body)"

definition ListAgents where
  "ListAgents W conn = fleetCall W conn [] (Some ''error calling list agents API'') ''GET'' fleetAgentsAPI [] None"

definition GetAgent where
  "GetAgent W conn agentID =
     fleetCall W conn [] (Some ''error calling get agent API'') ''GET'' (fleetAgentsAPI @ ''/'' @ agentID) [] None"

definition UnEnrollAgent where
  "UnEnrollAgent W conn agentID body =
     fleetCall W conn ''unable to marshal unenroll agent request into JSON'' (Some ''error calling unenroll agent API'')
       ''POST'' (fleetAgentsAPI @ ''/'' @ agentID @ ''/unenroll'') [] (Some body)"

definition UpgradeAgent where
  "UpgradeAgent W conn agentID body =
     fleetCall W conn ''unable to marshal upgrade agent request into JSON'' (Some ''error calling upgrade agent API'')
       ''POST'' (fleetAgentsAPI @ ''/'' @ agentID @ ''/upgrade'') [] (Some body)"

definition ListFleetServerHosts where
  "ListFleetServerHosts W conn =
     fleetCall W conn [] (Some ''error calling list fleet server hosts API'') ''GET'' fleetFleetServerHostsAPI [] None"

definition CreateFleetServerHosts where
  "CreateFleetServerHosts W conn body =
     fleetCall W conn ''could not marshal ListFleetServerHostsRequest'' (Some ''error calling new fleet server hosts API'')
       ''POST'' fleetFleetServerHostsAPI [] (Some body)"

definition GetFleetServerHost where
  "GetFleetServerHost W conn hostID =
     fleetCall W conn [] (Some ''error calling get fleet server hosts API'') ''GET'' (fleetFleetServerHostsAPI @ ''/'' @ hostID) [] None"

definition InstallFleetPackage where
  "InstallFleetPackage W conn body =
     fleetCall W conn ''marshalling request json'' (Some (''posting '' @ fleetPackagePoliciesAPI)) ''POST'' fleetPackagePoliciesAPI [] (Some body)"

definition DeleteFleetPackage where
  "DeleteFleetPackage W conn policyID decode zero w =
     (case joinPath W fleetPackagePoliciesAPI policyID of
        Inr e \<Rightarrow> (w, zero, Some e)
      | Inl u \<Rightarrow> fleetCall W conn [] (Some (''DELETE '' @ u)) ''DELETE'' u [] None decode zero w)"

text \<open>The headers of the proxy are never nil in the body; \<open>encode\<close> gives the body for them.\<close>

definition CreateFleetProxy where
  "CreateFleetProxy W conn encode proxyHeaders =
     fleetCall W conn ''could not marshal ListFleetServerHostsRequest'' None ''POST'' fleetProxiesAPI []
       (Some (encode (Some (case proxyHeaders of None \<Rightarrow> [] | Some m \<Rightarrow> m))))"

definition CreateDownloadSource ::
  "'w web \<Rightarrow> Connection \<Rightarrow> string + kerr \<Rightarrow> (string \<Rightarrow> 'r \<times> kerr option) \<Rightarrow> 'r \<Rightarrow> 'w \<Rightarrow> 'w \<times> 'r \<times> kerr option" where
  "CreateDownloadSource W conn body decode zero w =
     (case body of
        Inr e \<Rightarrow> (w, zero, Some (KWrap ''unable to marshal DownloadSource into JSON'' e))
      | Inl b \<Rightarrow>
          (case SendWithContext W conn ''POST'' fleetAgentDownloadSourcesAPI [] [] (Some b) w of
             (w', Inr e) \<Rightarrow> (w', zero, Some (KWrap ''error calling Agent Binary Download Sources API'' e))
           | (w', Inl resp) \<Rightarrow>
               if StatusCode resp \<noteq> 200 then
                 (w', zero, Some (KErr (''could not create download source, kibana returned '' @ Status resp @ ''. response body: '' @
                    (case Body resp of Inl s \<Rightarrow> s | Inr _ \<Rightarrow> ''could not read response body'') @ '': %!w(<nil>)'')))
               else
                 (case (case Body resp of Inl s \<Rightarrow> decode s | Inr e \<Rightarrow> (zero, Some e)) of
                    (v, None) \<Rightarrow> (w', v, None)
                  | (v, Some e) \<Rightarrow> (w', zero, Some (KWrap ''failed parsing download source response'' e)))))"

definition DeletePolicy :: "'w web \<Rightarrow> Connection \<Rightarrow> string + kerr \<Rightarrow> 'w \<Rightarrow> 'w \<times> kerr option" where
  "DeletePolicy W conn body w =
     (case body of
        Inr e \<Rightarrow> (w, Some (KWrap ''unable to marshal delete policy request into JSON'' e))
      | Inl b \<Rightarrow>
          (case SendWithContext W conn ''POST'' (fleetAgentPoliciesAPI @ ''/delete'') [] [] (Some b) w of
             (w', Inr e) \<Rightarrow> (w', Some (KWrap ''error calling delete policy API'' e))
           | (w', Inl resp) \<Rightarrow>
               (w', if StatusCode resp \<noteq> 200 then
                      (let t = ''unable to delete policy; API returned status code ['' @ go_itoa (StatusCode resp) @ '']'' in
                       case Body resp of
                         Inr e \<Rightarrow> Some (KWrap (t @ '' and error reading response'') e)
                       | Inl s \<Rightarrow> Some (KErr (t @ '' and body ['' @ s @ '']'')))
                    else None)))"

definition GetUninstallToken where
  "GetUninstallToken W conn tokenID decode zero w =
     (case joinPath W fleetUninstallTokensAPI tokenID of
        Inr e \<Rightarrow> (w, zero, Some e)
      | Inl u \<Rightarrow>
          (case fleetCall W conn [] (Some (''getting '' @ u)) ''GET'' u [] None decode zero w of
             (w', v, None) \<Rightarrow> (w', v, None)
           | (w', v, Some e) \<Rightarrow> (w', zero, Some e)))"

text \<open>An item is a token with its id; each is replaced by the answer of a call, up to the first error.\<close>

fun resolveTokens ::
  "'w web \<Rightarrow> Connection \<Rightarrow> (string \<Rightarrow> 'r \<times> kerr option) \<Rightarrow> 'r \<Rightarrow> ('r \<Rightarrow> string) \<Rightarrow> 'r list \<Rightarrow> 'w \<Rightarrow> 'w \<times> 'r list \<times> kerr option" where
  "resolveTokens W conn decode zero tokID [] w = (w, [], None)"
| "resolveTokens W conn decode zero tokID (i # is) w =
     (case GetUninstallToken W conn (tokID i) decode zero w of
        (w', v, Some e) \<Rightarrow> (w', i # is, Some e)
      | (w', v, None) \<Rightarrow>
          (let (w2, vs, err) = resolveTokens W conn decode zero tokID is w' in (w2, v # vs, err)))"

definition GetPolicyUninstallTokens ::
  "'w web \<Rightarrow> Connection \<Rightarrow> string \<Rightarrow> (string \<Rightarrow> 'r list \<times> kerr option) \<Rightarrow> (string \<Rightarrow> 'r \<times> kerr option) \<Rightarrow> 'r \<Rightarrow> ('r \<Rightarrow> string) \<Rightarrow> 'w \<Rightarrow>
     'w \<times> 'r list \<times> kerr option" where
  "GetPolicyUninstallTokens W conn policyID decodeAll decode zero tokID w =
     (let q = [(''policyId'', [policyID]), (''page'', [''1'']), (''perPage'', [''1000''])] in
      case fleetCall W conn [] (Some (''getting '' @ fleetUninstallTokensAPI @ '', policyID '' @ policyID))
             ''GET'' fleetUninstallTokensAPI q None decodeAll [] w of
        (w', items, Some e) \<Rightarrow> (w', items, Some e)
      | (w', items, None) \<Rightarrow> resolveTokens W conn decode zero tokID items w')"

end
