(* ===== verification/Kibana_Laws.thy ===== *)
theory Kibana_Laws
  imports Kibana
begin

text \<open>
  Laws of the Kibana client: the headers of every request, the credentials of a new client, the results of
  the Fleet calls, and the bound on the text of a response in an error.
\<close>

section \<open>Headers\<close>

text \<open>The values that a header has under the canonical form of a key, under any of its spellings.\<close>

definition valuesOf :: "header \<Rightarrow> string \<Rightarrow> string list" where
  "valuesOf h k = concat (map snd (filter (\<lambda>(k', _). canonicalKey k' = canonicalKey k) h))"

lemma valuesOf_Nil [simp]: "valuesOf [] k = []"
  by (simp add: valuesOf_def)

lemma valuesOf_Cons [simp]:
  "valuesOf ((k', vs) # h) k = (if canonicalKey k' = canonicalKey k then vs @ valuesOf h k else valuesOf h k)"
  by (simp add: valuesOf_def)

lemma hGetAll_fold_hAdd:
  "hGetAll (fold (hAdd k) vs h) k' = (if canonicalKey k = canonicalKey k' then hGetAll h k' @ vs else hGetAll h k')"
  by (induction vs arbitrary: h) (simp_all add: hGetAll_hAdd)

lemma hGetAll_addHeaders: "hGetAll (addHeaders out in1) k = hGetAll out k @ valuesOf in1 k"
  unfolding addHeaders_def
  by (induction in1 arbitrary: out) (auto simp: hGetAll_fold_hAdd)

lemma canonical_keys [simp]:
  "canonicalKey ''Accept'' = ''Accept''" "canonicalKey ''Authorization'' = ''Authorization''"
  "canonicalKey ''Content-Type'' = ''Content-Type''" "canonicalKey ''kbn-xsrf'' = ''Kbn-Xsrf''"
  by code_simp+

text \<open>The value of the credentials of a connection: the token, else the key, else the user.\<close>

definition authorization :: "'w web \<Rightarrow> Connection \<Rightarrow> string list" where
  "authorization W conn =
     (if KServiceToken conn \<noteq> [] then [''Bearer '' @ KServiceToken conn]
      else if KAPIKey conn \<noteq> [] then [''ApiKey '' @ base64 W (KAPIKey conn)]
      else if KUsername conn \<noteq> [] \<or> KPassword conn \<noteq> []
      then [''Basic '' @ base64 W (KUsername conn @ '':'' @ KPassword conn)] else [])"

lemma hGetAll_authHeaders:
  "hGetAll (authHeaders W conn []) k = (if canonicalKey k = ''Authorization'' then authorization W conn else [])"
  by (auto simp: authHeaders_def authorization_def hGetAll_hSet Let_def)

text \<open>The values of a key that are given, before the fixed headers are set.\<close>

definition givenValues :: "'w web \<Rightarrow> Connection \<Rightarrow> header \<Rightarrow> string \<Rightarrow> string list" where
  "givenValues W conn headers k =
     (if canonicalKey k = ''Authorization'' then authorization W conn else []) @ valuesOf (KHeaders conn) k @ valuesOf headers k"

definition firstOf :: "string list \<Rightarrow> string" where
  "firstOf vs = (case vs of [] \<Rightarrow> [] | v # _ \<Rightarrow> v)"

lemma requestHeaders_get:
  "hGetAll (requestHeaders W conn headers) k =
     (if canonicalKey k = ''Accept'' then [''application/json'']
      else if canonicalKey k = ''Kbn-Xsrf'' then [''1'']
      else if canonicalKey k = ''Content-Type'' \<and>
        mediaType W (firstOf (givenValues W conn headers ''Content-Type'')) \<notin> {''multipart/form-data'', ''application/ndjson''}
      then [''application/json'']
      else givenValues W conn headers k)"
  by (auto simp: requestHeaders_def Let_def hGetAll_hSet hGetAll_addHeaders hGetAll_authHeaders givenValues_def hGet_def firstOf_def)

text \<open>
  C24. Every request that is sent has the method (\<open>GET\<close> for an empty one), the URL and the body of the call, accepts JSON, carries the header
  against request forgery exactly once, and has the content type JSON unless the given one is a form or
  newline-delimited JSON. Every other header has the values of the connection followed by those of the
  call, under any spelling of its key; the credentials come before them, and of the credentials the token is
  preferred to the key and the key to user and password. A request that cannot be created is not sent.
\<close>

theorem SendWithContext_request:
  "(\<forall>e. newRequest W meth (addToURL W (KURL conn) path params) = Some e \<longrightarrow>
      SendWithContext W conn meth path params headers body w = (w, Inr (KWrap (''fail to create the HTTP '' @ meth @ '' request'') e))) \<and>
   (newRequest W meth (addToURL W (KURL conn) path params) = None \<longrightarrow>
      (\<exists>r. SendWithContext W conn meth path params headers body w = httpDo W r w \<and>
         rmethod r = (if meth = [] then ''GET'' else meth) \<and> rurl r = addToURL W (KURL conn) path params \<and> rbody r = body \<and>
         (\<forall>k. hGetAll (rheaders r) k =
            (if canonicalKey k = ''Accept'' then [''application/json'']
             else if canonicalKey k = ''Kbn-Xsrf'' then [''1'']
             else if canonicalKey k = ''Content-Type'' \<and>
               mediaType W (firstOf (givenValues W conn headers ''Content-Type'')) \<notin> {''multipart/form-data'', ''application/ndjson''}
             then [''application/json'']
             else (if canonicalKey k = ''Authorization'' then authorization W conn else []) @
                  valuesOf (KHeaders conn) k @ valuesOf headers k))))"
  by (auto simp: SendWithContext_def Let_def requestHeaders_get givenValues_def)

text \<open>A server that answers every request with the values of its header \<open>Authorization\<close>.\<close>

definition echoWeb :: "unit web" where
  "echoWeb = \<lparr>
     httpDo = (\<lambda>r w. (w, Inl \<lparr>Status = ''200 OK'', StatusCode = 200, Body = Inl (concat (hGetAll (rheaders r) ''Authorization''))\<rparr>)),
     newRequest = (\<lambda>m u. if CHR '' '' \<in> set m then Some (KErr ''method'') else None), base64 = rev, mediaType = id,
     encodeParams = (\<lambda>_. []), parseURL = (\<lambda>s. Inl \<lparr>Scheme = ''http'', UHost = drop 7 s, UPath = [], UUser = None, URest = []\<rparr>),
     renderURL = (\<lambda>u. Scheme u @ ''://'' @ UHost u @ UPath u @ URest u), joinPath = (\<lambda>a b. Inl (a @ ''/'' @ b)),
     decodeError = (\<lambda>b. Inl ([], [])), decodeImport = (\<lambda>b. Inl (True, [])),
     decodeVersion = (\<lambda>b. Inl (''8.1.2'', True)), decodeFlavor = (\<lambda>b. Inl ''serverless'')\<rparr>"

definition keyConn :: Connection where
  "keyConn = \<lparr>KURL = ''http://k'', KUsername = [], KPassword = [], KAPIKey = ''ab'', KServiceToken = [],
     KHeaders = [(''X-a'', [''1''])], KVersionOf = None\<rparr>"

theorem SendWithContext_request_witness:
  "\<exists>r. SendWithContext echoWeb keyConn ''GET'' ''/p'' [] [(''x-A'', [''2''])] None () = httpDo echoWeb r () \<and>
     hGetAll (rheaders r) ''X-A'' = [''1'', ''2''] \<and> hGetAll (rheaders r) ''authorization'' = [''ApiKey ba'']"
proof -
  have "newRequest echoWeb ''GET'' (addToURL echoWeb (KURL keyConn) ''/p'' []) = None" by (simp add: echoWeb_def)
  then obtain r where r: "SendWithContext echoWeb keyConn ''GET'' ''/p'' [] [(''x-A'', [''2''])] None () = httpDo echoWeb r ()"
      "\<forall>k. hGetAll (rheaders r) k =
        (if canonicalKey k = ''Accept'' then [''application/json'']
         else if canonicalKey k = ''Kbn-Xsrf'' then [''1'']
         else if canonicalKey k = ''Content-Type'' \<and>
           mediaType echoWeb (firstOf (givenValues echoWeb keyConn [(''x-A'', [''2''])] ''Content-Type'')) \<notin> {''multipart/form-data'', ''application/ndjson''}
         then [''application/json'']
         else (if canonicalKey k = ''Authorization'' then authorization echoWeb keyConn else []) @
              valuesOf (KHeaders keyConn) k @ valuesOf [(''x-A'', [''2''])] k)"
    using SendWithContext_request [of echoWeb "''GET''" keyConn "''/p''" "[]" "[(''x-A'', [''2''])]" None "()"] by blast
  have c: "canonicalKey ''X-A'' = ''X-A''" "canonicalKey ''X-a'' = ''X-A''" "canonicalKey ''x-A'' = ''X-A''"
      "canonicalKey ''authorization'' = ''Authorization''" by code_simp+
  show ?thesis using r by (intro exI [of _ r]) (simp add: c keyConn_def authorization_def echoWeb_def)
qed

section \<open>A new client\<close>

text \<open>A version that the client got: of some response of the server, parsed.\<close>

definition readFrom :: "'w web \<Rightarrow> V \<Rightarrow> bool" where
  "readFrom W v \<longleftrightarrow> (\<exists>b number snapshot. decodeVersion W b = Inl (number, snapshot) \<and>
     Version.New (if snapshot then number @ ''-SNAPSHOT'' else number) = Ok v)"

lemma readVersion_OK:
  "readVersion W conn w = (w', Inl c) \<Longrightarrow> \<exists>v. readFrom W v \<and> c = conn\<lparr>KVersionOf := Some v\<rparr>"
  unfolding readVersion_def readFrom_def Let_def
  by (simp split: option.splits if_split_asm prod.splits sum.splits outcome.splits; metis)

lemma connectKibana_OK:
  "connectKibana W config u un pw terr w = (w', Inl conn) \<Longrightarrow>
     terr = None \<and> KURL conn = u \<and> KUsername conn = un \<and> KPassword conn = pw \<and> KAPIKey conn = APIKey config \<and>
     KServiceToken conn = ServiceToken config \<and>
     (if IgnoreVersion config then KVersionOf conn = None \<and> w' = w else \<exists>v. KVersionOf conn = Some v \<and> readFrom W v)"
  by (auto simp: connectKibana_def Let_def split: option.splits if_splits prod.splits sum.splits dest!: readVersion_OK)

text \<open>
  C35. A client that is made has the API key or user and password, never both, whether they come from the
  configuration or from the URL; it has the service token of the configuration, which may come with either of them. Apart
  from headers of the caller, the requests of the client carry one kind of credentials: the token if there is one, otherwise the key, otherwise user and
  password if one of them is not empty. Its URL carries no credentials any more: it is rendered from, or parsed to, a URL
  without them. If the version is not ignored, it was read from the server and parsed; if it is ignored, nothing is sent.
\<close>

theorem NewClient_credentials:
  assumes "NewClientWithConfigDefault W transportErr goos goarch config port b w = (w', Inl conn)"
  shows "(KAPIKey conn = [] \<or> KUsername conn = [] \<and> KPassword conn = []) \<and>
    KAPIKey conn = APIKey config \<and> KServiceToken conn = ServiceToken config \<and>
    hGetAll (authHeaders W conn []) ''Authorization'' =
      (if ServiceToken config \<noteq> [] then [''Bearer '' @ ServiceToken config]
       else if APIKey config \<noteq> [] then [''ApiKey '' @ base64 W (APIKey config)]
       else if KUsername conn \<noteq> [] \<or> KPassword conn \<noteq> [] then [''Basic '' @ base64 W (KUsername conn @ '':'' @ KPassword conn)]
       else []) \<and>
    (\<exists>u. UUser u = None \<and> (KURL conn = renderURL W u \<or> parseURL W (KURL conn) = Inl u)) \<and>
    (IgnoreVersion config \<longrightarrow> w' = w \<and> GetVersion conn = None) \<and>
    (\<not> IgnoreVersion config \<longrightarrow> (\<exists>v. GetVersion conn = Some v \<and> readFrom W v))"
proof -
  from assms have v: "Validate config = None"
    by (simp add: NewClientWithConfigDefault_def split: option.splits)
  let ?ua = "UserAgent goos goarch (if binaryName b = [] then ''Libbeat'' else binaryName b) (bversion b) (bcommit b) (buildtime b) []"
  from assms v obtain u kurl where u: "parseURL W kurl = Inl u" and
    r: "(case UUser u of
       Some (un, pw) \<Rightarrow>
         if APIKey config \<noteq> [] \<and> (un \<noteq> [] \<or> pw \<noteq> [])
         then (w, Inr (KErr ''cannot set api_key with username/password in Kibana URL''))
         else connectKibana W config (renderURL W (u\<lparr>UUser := None\<rparr>)) un pw (transportErr ?ua) w
     | None \<Rightarrow> connectKibana W config kurl (Username config) (Password config) (transportErr ?ua) w) = (w', Inl conn)"
    unfolding NewClientWithConfigDefault_def Let_def by (simp split: sum.splits)
  then obtain ku un pw where
    k: "connectKibana W config ku un pw (transportErr ?ua) w = (w', Inl conn)" and
    cases: "UUser u = Some (un, pw) \<and> \<not> (APIKey config \<noteq> [] \<and> (un \<noteq> [] \<or> pw \<noteq> [])) \<and> ku = renderURL W (u\<lparr>UUser := None\<rparr>) \<or>
       UUser u = None \<and> un = Username config \<and> pw = Password config \<and> ku = kurl"
    by (cases "UUser u") (auto split: if_splits prod.splits)
  from connectKibana_OK [OF k] have c:
    "KURL conn = ku" "KUsername conn = un" "KPassword conn = pw" "KAPIKey conn = APIKey config" "KServiceToken conn = ServiceToken config"
    "if IgnoreVersion config then KVersionOf conn = None \<and> w' = w else \<exists>v. KVersionOf conn = Some v \<and> readFrom W v"
    by auto
  have "APIKey config = [] \<or> Username config = [] \<and> Password config = []"
    using v by (auto simp: Validate_def split: if_splits)
  then have "KAPIKey conn = [] \<or> KUsername conn = [] \<and> KPassword conn = []" using cases c by auto
  moreover have "\<exists>u. UUser u = None \<and> (KURL conn = renderURL W u \<or> parseURL W (KURL conn) = Inl u)"
    using cases c(1) u by (auto intro: exI [of _ "u\<lparr>UUser := None\<rparr>"])
  moreover have "canonicalKey ''Authorization'' = ''Authorization''" by code_simp
  ultimately show ?thesis using c(4-6) by (auto simp: GetVersion_def hGetAll_authHeaders authorization_def split: if_splits)
qed

definition echoConfig :: ClientConfig where
  "echoConfig = DefaultClientConfig\<lparr>APIKey := ''ab'', IgnoreVersion := True\<rparr>"

theorem NewClient_credentials_witness:
  "\<exists>w' conn. NewClientWithConfigDefault echoWeb (\<lambda>_. None) ''linux'' ''amd64'' echoConfig 0
       \<lparr>binaryName = [], bversion = [], bcommit = [], buildtime = []\<rparr> () = (w', Inl conn) \<and>
     KURL conn = ''http://localhost:5601'' \<and> KAPIKey conn = ''ab'' \<and> KUsername conn = [] \<and> KPassword conn = []"
proof -
  let ?r = "NewClientWithConfigDefault echoWeb (\<lambda>_. None) ''linux'' ''amd64'' echoConfig 0
       \<lparr>binaryName = [], bversion = [], bcommit = [], buildtime = []\<rparr> ()"
  have m: "MakeURL echoWeb ''http'' [] ''localhost:5601'' 0 = Inl ''http://localhost:5601''"
    by code_simp
  have p: "parseURL echoWeb s = Inl \<lparr>Scheme = ''http'', UHost = drop 7 s, UPath = [], UUser = None, URest = []\<rparr>" for s
    by (simp add: echoWeb_def)
  have "\<exists>w' conn. ?r = (w', Inl conn) \<and> KURL conn = ''http://localhost:5601'' \<and> KAPIKey conn = ''ab''"
    by (simp add: NewClientWithConfigDefault_def Validate_def connectKibana_def echoConfig_def DefaultClientConfig_def
        m p Let_def)
  then obtain w' conn where c: "?r = (w', Inl conn)" "KURL conn = ''http://localhost:5601''" "KAPIKey conn = ''ab''" by blast
  then show ?thesis using NewClient_credentials [OF c(1)] by auto
qed

section \<open>The calls of Fleet\<close>

lemma extractError_None: "extractError W b = None \<longleftrightarrow> (\<exists>objs. decodeError W b = Inl ([], objs))"
  by (auto simp: extractError_def split: sum.splits)

lemma readJSONResponse_OK:
  "readJSONResponse W decode zero resp = (v, None) \<longleftrightarrow>
     (\<exists>b. Body resp = Inl b \<and>
        (if StatusCode resp = 200 then decode b = (v, None) else v = zero \<and> (\<exists>objs. decodeError W b = Inl ([], objs))))"
  by (auto simp: readJSONResponse_def extractError_None split: sum.splits prod.splits)

text \<open>
  A call succeeds exactly if its body can be encoded, the request is answered, and the answer is either of the status
  200 and decoded without error, or of any other status with a body in JSON that has no message: then the
  call returns the empty value without an error.
\<close>

theorem fleetCall_result:
  "fleetCall W conn encText callText meth path params body decode zero w = (w', v, None) \<longleftrightarrow>
     (\<nexists>e. body = Some (Inr e)) \<and>
     (\<exists>resp b. SendWithContext W conn meth path params [] (map_option projl body) w = (w', Inl resp) \<and> Body resp = Inl b \<and>
        (if StatusCode resp = 200 then decode b = (v, None)
         else v = zero \<and> (\<exists>objs. decodeError W b = Inl ([], objs))))"
  by (cases body rule: option.exhaust)
    (auto simp: fleetCall_def readJSONResponse_OK split: sum.splits prod.splits)

lemma resolveTokens_spec:
  "resolveTokens W conn decode zero tokID is w = (w', vs, err) \<Longrightarrow>
     \<exists>n \<le> length is. length vs = length is \<and> drop n vs = drop n is \<and> (err = None \<longleftrightarrow> n = length is) \<and>
       (\<forall>i < n. \<exists>wa wb. GetUninstallToken W conn (tokID (is ! i)) decode zero wa = (wb, vs ! i, None))"
proof (induction W conn decode zero tokID "is" w arbitrary: vs rule: resolveTokens.induct)
  case (2 W conn decode zero tokID i "is" w)
  obtain wa v e where g: "GetUninstallToken W conn (tokID i) decode zero w = (wa, v, e)" by (metis prod_cases3)
  show ?case
  proof (cases e)
    case (Some x)
    then show ?thesis using 2 g by (intro exI [of _ 0]) auto
  next
    case None
    then obtain vs' where vs: "vs = v # vs'" "resolveTokens W conn decode zero tokID is wa = (w', vs', err)"
      using 2(2) g by (auto split: prod.splits)
    from 2(1) [OF g [symmetric] refl None vs(2)] obtain n where
      "n \<le> length is" "length vs' = length is" "drop n vs' = drop n is" "err = None \<longleftrightarrow> n = length is"
      "\<forall>i < n. \<exists>wa wb. GetUninstallToken W conn (tokID (is ! i)) decode zero wa = (wb, vs' ! i, None)" by blast
    then show ?thesis using vs(1) g None
      by (intro exI [of _ "Suc n"]) (auto simp: less_Suc_eq_0_disj)
  qed
qed simp

text \<open>
  If the uninstall tokens of a policy are returned without an error, there are as many as the server
  listed, in this order, and each is the answer to the request for the id that was listed at its place.
\<close>

theorem uninstall_tokens_resolved:
  assumes "GetPolicyUninstallTokens W conn policyID decodeAll decode zero tokID w = (w', vs, None)"
  shows "\<exists>items w1. fleetCall W conn [] (Some (''getting '' @ fleetUninstallTokensAPI @ '', policyID '' @ policyID)) ''GET''
        fleetUninstallTokensAPI [(''policyId'', [policyID]), (''page'', [''1'']), (''perPage'', [''1000''])] None decodeAll [] w = (w1, items, None) \<and>
    length vs = length items \<and>
    (\<forall>i < length items. \<exists>wa wb. GetUninstallToken W conn (tokID (items ! i)) decode zero wa = (wb, vs ! i, None))"
proof -
  from assms obtain items w1 where
    f: "fleetCall W conn [] (Some (''getting '' @ fleetUninstallTokensAPI @ '', policyID '' @ policyID)) ''GET''
      fleetUninstallTokensAPI [(''policyId'', [policyID]), (''page'', [''1'']), (''perPage'', [''1000''])] None decodeAll [] w = (w1, items, None)" and
    r: "resolveTokens W conn decode zero tokID items w1 = (w', vs, None)"
    by (auto simp: GetPolicyUninstallTokens_def Let_def split: prod.splits option.splits)
  from resolveTokens_spec [OF r] f show ?thesis by auto
qed

theorem uninstall_tokens_resolved_witness:
  "\<exists>items w1. fleetCall echoWeb keyConn [] (Some (''getting '' @ fleetUninstallTokensAPI @ '', policyID '' @ ''p'')) ''GET''
        fleetUninstallTokensAPI [(''policyId'', [''p'']), (''page'', [''1'']), (''perPage'', [''1000''])] None (\<lambda>b. ([b, b], None)) [] () = (w1, items, None) \<and>
    length items = (2 :: nat)"
proof -
  have "GetPolicyUninstallTokens echoWeb keyConn ''p'' (\<lambda>b. ([b, b], None)) (\<lambda>b. (b, None)) [] id () =
      ((), [''ApiKey ba'', ''ApiKey ba''], None)"
    by code_simp
  from uninstall_tokens_resolved [OF this] show ?thesis by auto
qed

section \<open>The text of a response\<close>

lemma truncateString_long:
  assumes "length (runes b) > 250"
  shows "truncateString b =
    map (\<lambda>c. if c = CHR 0x0A then CHR '' '' else c) (concat (map encodeRune (take 250 (runes b)))) @ ''... (truncated)''"
proof -
  have m: "concat (map encodeRune (map of_char ''... (truncated)'')) = ''... (truncated)''" by (rule encodeRunes_ascii) simp
  show ?thesis using assms unfolding truncateString_def Let_def by (simp only: if_True map_append concat_append m) simp
qed

text \<open>
  The text of a response that goes into an error has at most 1015 bytes, whatever the response is, and
  no line break. A valid response of at most 250 characters is kept but for its line breaks; a longer one
  is cut to its first 250 characters, followed by a mark.
\<close>

theorem truncateString_bounds:
  "length (truncateString b) \<le> 4 * 250 + 15 \<and> CHR 0x0A \<notin> set (truncateString b) \<and>
   (validUtf8 b \<and> length (runes b) \<le> 250 \<longrightarrow> truncateString b = map (\<lambda>c. if c = CHR 0x0A then CHR '' '' else c) b) \<and>
   (length (runes b) > 250 \<longrightarrow>
      truncateString b =
        map (\<lambda>c. if c = CHR 0x0A then CHR '' '' else c) (concat (map encodeRune (take 250 (runes b)))) @ ''... (truncated)'')"
proof -
  have n: "length (concat (map encodeRune (take 250 rs))) \<le> 4 * 250" for rs
    using length_encodeRunes [of "take 250 rs"] by simp
  have "length (truncateString b) \<le> 4 * 250 + 15"
  proof (cases "length (runes b) > 250")
    case True
    then show ?thesis using n [of "runes b"] by (simp add: truncateString_long)
  next
    case False
    then show ?thesis using length_encodeRunes [of "runes b"] by (simp add: truncateString_def)
  qed
  moreover have "CHR 0x0A \<notin> set (truncateString b)" by (auto simp: truncateString_def Let_def)
  moreover have "validUtf8 b \<and> length (runes b) \<le> 250 \<longrightarrow> truncateString b = map (\<lambda>c. if c = CHR 0x0A then CHR '' '' else c) b"
    by (simp add: truncateString_def encode_runes)
  ultimately show ?thesis using truncateString_long [of b] by blast
qed

theorem truncateString_bounds_witness:
  "truncateString [CHR ''a'', CHR 0xC3, CHR 0xA9, CHR 0x0A] = [CHR ''a'', CHR 0xC3, CHR 0xA9, CHR '' '']"
proof -
  have "validUtf8 [CHR ''a'', CHR 0xC3, CHR 0xA9, CHR 0x0A] \<and> length (runes [CHR ''a'', CHR 0xC3, CHR 0xA9, CHR 0x0A]) \<le> 250"
    by (simp add: validUtf8.simps runes.simps decodeRune_def leadInfo_def RuneError_def)
  then show ?thesis using truncateString_bounds [of "[CHR ''a'', CHR 0xC3, CHR 0xA9, CHR 0x0A]"] by simp
qed

end
