(* ===== verification/Flags.thy ===== *)
theory Flags
  imports Go_Prelude
begin

text \<open>
  Command line flags over configurations (src/config/flags.go): flags that collect their values in a list, and
  flags that overwrite one setting. A set of flags of the standard library is the list of the names registered in it;
  go-ucfg is an argument. The flags for key and value pairs only pass their text to go-ucfg and are left out.
\<close>

section \<open>Flags that collect values\<close>

text \<open>The flag in the set of flags is its default value, \<open>None\<close> before it is registered.\<close>

record StringsFlag =
  flist :: "string list"
  isDefault :: bool
  flag :: "string option"

definition NewStringsFlag :: "string list option \<Rightarrow> ('e, StringsFlag) outcome" where
  "NewStringsFlag arr =
     (case arr of None \<Rightarrow> Panic | Some l \<Rightarrow> Ok \<lparr>flist = l, isDefault = True, flag = None\<rparr>)"

definition FlagString :: "StringsFlag option \<Rightarrow> string" where
  "FlagString f = (case f of None \<Rightarrow> [] | Some f \<Rightarrow> join_str '', '' (flist f))"

text \<open>Registering a name twice in a set of flags panics; a new flag has its text as default.\<close>

definition Register :: "string list \<Rightarrow> string \<Rightarrow> StringsFlag \<Rightarrow> ('e, string list \<times> StringsFlag) outcome" where
  "Register fs name f =
     (if flag f \<noteq> None \<or> name \<in> set fs then Panic
      else Ok (name # fs, f\<lparr>flag := Some (if flist f \<noteq> [] then hd (flist f) else FlagString (Some f))\<rparr>))"

definition StringArrVarFlag :: "string list \<Rightarrow> string list option \<Rightarrow> string \<Rightarrow> ('e, string list \<times> StringsFlag) outcome" where
  "StringArrVarFlag fs arr name = bind_outcome (NewStringsFlag arr) (Register fs name)"

definition StringArrFlag :: "string list \<Rightarrow> string \<Rightarrow> string \<Rightarrow> ('e, string list \<times> StringsFlag) outcome" where
  "StringArrFlag fs name def = StringArrVarFlag fs (Some (if def \<noteq> [] then [def] else [])) name"

definition SetDefault :: "string \<Rightarrow> StringsFlag \<Rightarrow> StringsFlag" where
  "SetDefault v f = f\<lparr>flag := map_option (\<lambda>_. v) (flag f), flist := [v], isDefault := True\<rparr>"

definition FlagSet :: "string \<Rightarrow> StringsFlag \<Rightarrow> StringsFlag" where
  "FlagSet v f =
     (if isDefault f then f\<lparr>flist := [v], isDefault := False\<rparr>
      else if v \<in> set (flist f) then f
      else f\<lparr>flist := flist f @ [v], isDefault := False\<rparr>)"

definition List :: "StringsFlag \<Rightarrow> string list" where
  "List f = flist f"

section \<open>Flags that overwrite a setting\<close>

record 'c flagOverwrite =
  oconfig :: 'c
  opath :: string
  ovalue :: string

definition newOverwriteFlag :: "'c \<Rightarrow> string \<Rightarrow> string \<Rightarrow> 'c flagOverwrite" where
  "newOverwriteFlag c p def = \<lparr>oconfig = c, opath = p, ovalue = def\<rparr>"

text \<open>The argument \<open>setString\<close> sets a setting to a text.\<close>

definition OverwriteSet :: "(string \<Rightarrow> string \<Rightarrow> 'c \<Rightarrow> 'c + 'e) \<Rightarrow> string \<Rightarrow> 'c flagOverwrite \<Rightarrow> ('e, 'c flagOverwrite) outcome" where
  "OverwriteSet setString v f =
     (case setString (opath f) v (oconfig f) of
        Inr e \<Rightarrow> Err e
      | Inl c \<Rightarrow> Ok (f\<lparr>oconfig := c, ovalue := v\<rparr>))"

definition ConfigOverwriteFlag ::
  "(string \<Rightarrow> string \<Rightarrow> 'c \<Rightarrow> 'c + 'e) \<Rightarrow> string list \<Rightarrow> 'c option \<Rightarrow> string \<Rightarrow> string \<Rightarrow> string \<Rightarrow>
     ('e, string list \<times> 'c flagOverwrite) outcome" where
  "ConfigOverwriteFlag setString fs config name p def =
     (case config of
        None \<Rightarrow> Panic
      | Some c \<Rightarrow>
          if p = [] then Panic
          else
            (case (if def \<noteq> [] then setString p def c else Inl c) of
               Inr e \<Rightarrow> Panic
             | Inl c' \<Rightarrow> if name \<in> set fs then Panic else Ok (name # fs, newOverwriteFlag c' p def)))"

section \<open>Laws\<close>

text \<open>The values of a list without repetitions, in the order of their first use.\<close>

definition firstUses :: "string list \<Rightarrow> string list" where
  "firstUses vs = rev (remdups (rev vs))"

lemma firstUses_snoc: "firstUses (vs @ [v]) = (if v \<in> set vs then firstUses vs else firstUses vs @ [v])"
  by (simp add: firstUses_def)

lemma set_firstUses [simp]: "set (firstUses vs) = set vs"
  by (simp add: firstUses_def)

lemma remdups_absorb: "set xs \<subseteq> set ys \<Longrightarrow> remdups (xs @ ys) = remdups ys"
  by (induction xs) auto

lemma fold_Set:
  "vs \<noteq> [] \<Longrightarrow> isDefault f \<Longrightarrow> fold FlagSet vs f = f\<lparr>flist := firstUses vs, isDefault := False\<rparr>"
proof (induction vs rule: rev_induct)
  case (snoc v vs)
  then show ?case
    by (cases "vs = []") (auto simp: FlagSet_def firstUses_snoc firstUses_def)
qed simp

text \<open>
  A flag that was used has as its values those it was used with, each once and in the order of their first
  use, without the default; parsing the same command line again changes nothing. An unused flag has its default values.
\<close>

theorem StringsFlag_values:
  assumes "StringArrVarFlag fs (Some arr) name = Ok (fs', f)"
  shows "List (fold FlagSet vs f) = (if vs = [] then arr else firstUses vs) \<and> distinct (firstUses vs) \<and>
    List (fold FlagSet (vs @ vs) f) = List (fold FlagSet vs f) \<and>
    List (fold FlagSet vs (SetDefault d (fold FlagSet us f))) = (if vs = [] then [d] else firstUses vs)"
proof -
  have f: "flist f = arr" "isDefault f"
    using assms by (auto simp: StringArrVarFlag_def NewStringsFlag_def Register_def split: if_splits)
  have d: "isDefault (SetDefault d g)" "flist (SetDefault d g) = [d]" for g by (simp_all add: SetDefault_def)
  have "firstUses (vs @ vs) = firstUses vs"
    by (simp add: firstUses_def remdups_absorb)
  then show ?thesis using f d [of "fold FlagSet us f"] fold_Set [of "vs @ vs" f]
    by (cases "vs = []") (simp_all add: List_def fold_Set del: fold_append, simp_all add: firstUses_def)
qed

end
