(* ===== verification/Config_Core.thy ===== *)
theory Config_Core
  imports Configs
begin

text \<open>
  The configuration objects of package \<open>config\<close> (src/config/config.go): creating, merging and printing them, with the
  options that all calls share; the settings of the monitoring reporter (src/monitoring/monitoring.go), and the check for
  settings that have been removed (src/logp/cfgwarn/removed.go). go-ucfg is an argument, in the record \<open>clib\<close>, over a type
  \<open>'c\<close> of its configurations, \<open>'v\<close> of the values a configuration is made of and \<open>'e\<close> of errors. An option is a number.
\<close>

section \<open>Creating and merging\<close>

datatype 'v source = FString string | FValue 'v

record ('c, 'v, 'e) clib =
  uNew :: 'c
  uYaml :: "string \<Rightarrow> nat list \<Rightarrow> 'c option \<times> 'e option"
  uNewFrom :: "'v \<Rightarrow> nat list \<Rightarrow> 'c option \<times> 'e option"
  uMerge :: "'c \<Rightarrow> 'c \<Rightarrow> nat list \<Rightarrow> 'c \<times> 'e option"
  uChild :: "'c \<Rightarrow> string \<Rightarrow> nat list \<Rightarrow> 'c option \<times> 'e option"
  uHasField :: "'c \<Rightarrow> string \<Rightarrow> bool"
  uPathOf :: "'c \<Rightarrow> string \<Rightarrow> string"
  uIsDict :: "'c \<Rightarrow> bool"
  uIsArray :: "'c \<Rightarrow> bool"
  uUnpackMap :: "'c \<Rightarrow> nat list \<Rightarrow> tree + 'e"
  uUnpackList :: "'c \<Rightarrow> nat list \<Rightarrow> tree + 'e"
  uMetaData :: "string \<Rightarrow> nat"

text \<open>The options every call gets: the separator of paths, and the resolving and expansion of variables.\<close>

definition configOpts :: "nat list" where "configOpts = [0, 1, 2]"

definition OverwriteConfigOpts :: "nat list \<Rightarrow> nat list \<Rightarrow> nat list" where
  "OverwriteConfigOpts options opts = options"

definition NewConfig :: "('c, 'v, 'e) clib \<Rightarrow> 'c" where
  "NewConfig U = uNew U"

definition NewConfigFrom :: "('c, 'v, 'e) clib \<Rightarrow> nat list \<Rightarrow> 'v source \<Rightarrow> 'c option \<times> 'e option" where
  "NewConfigFrom U opts src = (case src of FString s \<Rightarrow> uYaml U s opts | FValue v \<Rightarrow> uNewFrom U v opts)"

definition MustNewConfigFrom :: "('c, 'v, 'e) clib \<Rightarrow> nat list \<Rightarrow> 'v source \<Rightarrow> ('e, 'c option) outcome" where
  "MustNewConfigFrom U opts src =
     (case NewConfigFrom U opts src of (cfg, Some err) \<Rightarrow> Panic | (cfg, None) \<Rightarrow> Ok cfg)"

definition Merge :: "('c, 'v, 'e) clib \<Rightarrow> nat list \<Rightarrow> 'c \<Rightarrow> 'c \<Rightarrow> 'c \<times> 'e option" where
  "Merge U opts c d = uMerge U c d opts"

text \<open>The options of the call, None for none, follow those of all calls.\<close>

definition MergeWithOpts :: "('c, 'v, 'e) clib \<Rightarrow> nat list \<Rightarrow> 'c \<Rightarrow> 'c \<Rightarrow> nat list option \<Rightarrow> 'c \<times> 'e option" where
  "MergeWithOpts U opts c d options =
     (let o1 = (case options of None \<Rightarrow> opts | Some os \<Rightarrow> opts @ os) in uMerge U c d o1)"

fun mergeLoop :: "('c \<Rightarrow> 'c \<Rightarrow> 'c \<times> 'e option) \<Rightarrow> 'c list \<Rightarrow> 'c \<Rightarrow> ('e, 'c) outcome" where
  "mergeLoop merge [] config = Ok config"
| "mergeLoop merge (c # cfgs) config =
     (case merge config c of (config', Some err) \<Rightarrow> Err err | (config', None) \<Rightarrow> mergeLoop merge cfgs config')"

definition MergeConfigs :: "('c, 'v, 'e) clib \<Rightarrow> nat list \<Rightarrow> 'c list \<Rightarrow> ('e, 'c) outcome" where
  "MergeConfigs U opts cfgs = mergeLoop (Merge U opts) cfgs (NewConfig U)"

definition MergeConfigsWithOptions :: "('c, 'v, 'e) clib \<Rightarrow> nat list \<Rightarrow> 'c list \<Rightarrow> nat list option \<Rightarrow> ('e, 'c) outcome" where
  "MergeConfigsWithOptions U opts cfgs options = mergeLoop (\<lambda>c d. MergeWithOpts U opts c d options) cfgs (NewConfig U)"

definition NewConfigWithYAML :: "('c, 'v, 'e) clib \<Rightarrow> nat list \<Rightarrow> string \<Rightarrow> string \<Rightarrow> 'c option \<times> 'e option" where
  "NewConfigWithYAML U opts inp source = uYaml U inp (uMetaData U source # opts)"

section \<open>Printing\<close>

text \<open>
  \<open>MarshalIndent\<close> and the text of an error are arguments. A configuration may be both a dictionary and a list.
\<close>

fun debugParts :: "(bool \<times> (tree + 'e)) list \<Rightarrow> (tree \<Rightarrow> tree) \<Rightarrow> (tree \<Rightarrow> string) \<Rightarrow> ('e \<Rightarrow> string) \<Rightarrow> string list \<Rightarrow> string list + string" where
  "debugParts [] msk json showErr bufs = Inl bufs"
| "debugParts ((is, u) # ps) msk json showErr bufs =
     (if \<not> is then debugParts ps msk json showErr bufs
      else (case u of
              Inr err \<Rightarrow> Inr (''<config error> '' @ showErr err)
            | Inl content \<Rightarrow> debugParts ps msk json showErr (bufs @ [json (msk content)])))"

definition DebugString ::
  "('c, 'v, 'e) clib \<Rightarrow> nat list \<Rightarrow> (string \<Rightarrow> string) \<Rightarrow> (tree \<Rightarrow> string) \<Rightarrow> ('e \<Rightarrow> string) \<Rightarrow> 'c \<Rightarrow> bool \<Rightarrow> string" where
  "DebugString U opts lower json showErr c filterPrivate =
     (case debugParts [(uIsDict U c, uUnpackMap U c opts), (uIsArray U c, uUnpackList U c opts)]
             (if filterPrivate then ApplyLoggingMask lower else id) json showErr [] of
        Inr e \<Rightarrow> e
      | Inl bufs \<Rightarrow> if bufs = [] then [] else join_str [CHR 0x0A] bufs)"

section \<open>Monitoring settings\<close>

text \<open>The setting \<open>cluster_uuid\<close>, empty when it is not set; a configuration that is None is nil.\<close>

definition GetClusterUUID :: "('c \<Rightarrow> string + 'e) \<Rightarrow> 'c option \<Rightarrow> ('e, string) outcome" where
  "GetClusterUUID unpackUUID cfg =
     (case cfg of
        None \<Rightarrow> Ok []
      | Some c \<Rightarrow> (case unpackUUID c of Inr err \<Rightarrow> Err err | Inl u \<Rightarrow> Ok u))"

definition IsEnabled :: "'c ucfg \<Rightarrow> 'c option \<Rightarrow> bool" where
  "IsEnabled U cfg =
     (case cfg of
        None \<Rightarrow> False
      | Some c \<Rightarrow> if GetFields U c = [''cluster_uuid''] then False else Enabled U cfg)"

definition IsBufferEnabled :: "'c ucfg \<Rightarrow> 'c option \<Rightarrow> bool" where
  "IsBufferEnabled U cfg =
     (case cfg of
        None \<Rightarrow> False
      | Some c \<Rightarrow> if ''enabled'' \<in> set (GetFields U c) then Enabled U cfg else False)"

section \<open>Removed settings\<close>

text \<open>The configuration at a path, None when a part of it is missing.\<close>

fun walkTo :: "('c, 'v, 'e) clib \<Rightarrow> nat list \<Rightarrow> string list \<Rightarrow> 'c \<Rightarrow> 'c option" where
  "walkTo U opts [] c = Some c"
| "walkTo U opts (p # ps) c = (case uChild U c p opts of (None, _) \<Rightarrow> None | (Some c', _) \<Rightarrow> walkTo U opts ps c')"

definition checkRemovedSetting :: "('c, 'v, 'e) clib \<Rightarrow> nat list \<Rightarrow> 'c \<Rightarrow> string \<Rightarrow> string option" where
  "checkRemovedSetting U opts cfg setting =
     (let segments = split_byte CHR ''.'' setting; name = last segments; path = butlast segments in
      case walkTo U opts path cfg of
        None \<Rightarrow> None
      | Some current \<Rightarrow>
          if \<not> uHasField U current name then None
          else Some (''setting '' @ [CHR 0x27] @ uPathOf U current name @ [CHR 0x27] @ '' has been removed''))"

text \<open>The errors found, joined; None when there is none.\<close>

definition checkRemovedSettings :: "('c, 'v, 'e) clib \<Rightarrow> nat list \<Rightarrow> 'c \<Rightarrow> string list \<Rightarrow> string list option" where
  "checkRemovedSettings U opts cfg settings =
     (let errs = concat (map (\<lambda>s. case checkRemovedSetting U opts cfg s of None \<Rightarrow> [] | Some e \<Rightarrow> [e]) settings) in
      if errs = [] then None else Some errs)"

section \<open>Laws\<close>

text \<open>Merging lists of configurations one after the other; the first failure stops it.\<close>

lemma mergeLoop_append: "mergeLoop merge (xs @ ys) c = bind_outcome (mergeLoop merge xs c) (mergeLoop merge ys)"
  by (induction xs arbitrary: c) (auto split: prod.splits option.splits)

lemma mergeLoop_Ok:
  "(\<And>c d. d \<in> set cs \<Longrightarrow> snd (merge c d) = None) \<Longrightarrow> mergeLoop merge cs c = Ok (foldl (\<lambda>c d. fst (merge c d)) c cs)"
proof (induction cs arbitrary: c)
  case (Cons d cs)
  then have "snd (merge c d) = None" by simp
  then show ?case using Cons by (cases "merge c d") auto
qed simp

text \<open>
  Trees that differ only in what the mask hides: equal outside of secret keys, and below a secret key lists of one length or
  no lists at all.
\<close>

fun sameShape :: "tree \<Rightarrow> tree \<Rightarrow> bool" where
  "sameShape (TList xs) (TList ys) \<longleftrightarrow> length xs = length ys"
| "sameShape (TList xs) _ \<longleftrightarrow> False"
| "sameShape _ (TList ys) \<longleftrightarrow> False"
| "sameShape _ _ \<longleftrightarrow> True"

inductive agree :: "(string \<Rightarrow> string) \<Rightarrow> tree \<Rightarrow> tree \<Rightarrow> bool" for lower where
  leaf: "agree lower (TLeaf s) (TLeaf s)"
| lists: "list_all2 (agree lower) xs ys \<Longrightarrow> agree lower (TList xs) (TList ys)"
| maps: "list_all2 (\<lambda>a b. fst a = fst b \<and> (secret lower (fst a) \<and> sameShape (snd a) (snd b) \<or> \<not> secret lower (fst a) \<and> agree lower (snd a) (snd b))) xs ys \<Longrightarrow>
    agree lower (TMap xs) (TMap ys)"

lemma sameShape_mask: "sameShape v v' \<Longrightarrow> maskValue v = maskValue v'"
  by (induction v v' rule: sameShape.induct) (auto simp: map_replicate_const)

lemma agree_mask: "agree lower t u \<Longrightarrow> ApplyLoggingMask lower t = ApplyLoggingMask lower u"
proof (induction rule: agree.induct)
  case (lists xs ys)
  then have "map (ApplyLoggingMask lower) xs = map (ApplyLoggingMask lower) ys"
    by (induction xs ys rule: list_all2_induct) auto
  then show ?case by simp
next
  case (maps xs ys)
  then have "map (\<lambda>(k, v). (k, if Has maskList (lower k) then maskValue v else ApplyLoggingMask lower v)) xs =
      map (\<lambda>(k, v). (k, if Has maskList (lower k) then maskValue v else ApplyLoggingMask lower v)) ys"
    by (induction xs ys rule: list_all2_induct) (auto simp: secret_def sameShape_mask split: if_splits)
  then show ?case by simp
qed simp

text \<open>
  Printing a configuration with private settings filtered does not depend on the private values: two configurations
  that differ only below secret keys, where a list keeps its length, have the same text, which is the one of
  masked trees.
\<close>

theorem DebugString_private:
  assumes "uIsDict U c = uIsDict U c'" and "uIsArray U c = uIsArray U c'"
    and "rel_sum (agree lower) (=) (uUnpackMap U c opts) (uUnpackMap U c' opts)"
    and "rel_sum (agree lower) (=) (uUnpackList U c opts) (uUnpackList U c' opts)"
  shows "DebugString U opts lower json showErr c True = DebugString U opts lower json showErr c' True"
  using assms by (auto simp: DebugString_def rel_sum.simps agree_mask)

definition toyConfig :: "(string, unit, unit) clib" where
  "toyConfig = \<lparr>uNew = [], uYaml = (\<lambda>s _. (Some s, None)), uNewFrom = (\<lambda>_ _. (None, None)), uMerge = (\<lambda>c d _. (d, None)),
     uChild = (\<lambda>c _ _. (Some c, None)), uHasField = (\<lambda>_ _. True), uPathOf = (\<lambda>_ n. n), uIsDict = (\<lambda>_. True), uIsArray = (\<lambda>_. False),
     uUnpackMap = (\<lambda>c _. Inl (TMap [(''user'', TLeaf ''u''), (''password'', TLeaf c)])), uUnpackList = (\<lambda>_ _. Inr ()), uMetaData = (\<lambda>_. 3)\<rparr>"

theorem DebugString_private_witness:
  "DebugString toyConfig configOpts id (\<lambda>_. ''t'') (\<lambda>_. []) ''one'' True = DebugString toyConfig configOpts id (\<lambda>_. ''t'') (\<lambda>_. []) ''two'' True"
proof -
  have "secret id ''password''" by code_simp
  then have "agree id (TMap [(''user'', TLeaf ''u''), (''password'', TLeaf ''one'')]) (TMap [(''user'', TLeaf ''u''), (''password'', TLeaf ''two'')])"
    by (auto intro!: agree.maps agree.leaf)
  then show ?thesis by (intro DebugString_private) (auto simp: toyConfig_def)
qed

text \<open>
  Settings of the reporter: without \<open>enabled\<close> the reporter is on unless the section holds only the id of the cluster, but
  the buffer is off.
\<close>

lemma monitoring_defaults:
  assumes "unpackEnabled U c = Some True" and "''enabled'' \<notin> set (GetFields U c)"
  shows "IsEnabled U (Some c) = (GetFields U c \<noteq> [''cluster_uuid'']) \<and> \<not> IsBufferEnabled U (Some c)"
  using assms by (simp add: IsEnabled_def IsBufferEnabled_def Enabled_def)

text \<open>A removed setting is reported exactly when the path to it exists and has the field.\<close>

lemma checkRemovedSettings_iff:
  "checkRemovedSettings U opts cfg settings = None \<longleftrightarrow>
     (\<forall>s \<in> set settings. \<forall>c. walkTo U opts (butlast (split_byte CHR ''.'' s)) cfg = Some c \<longrightarrow>
        \<not> uHasField U c (last (split_byte CHR ''.'' s)))"
  by (auto simp: checkRemovedSettings_def checkRemovedSetting_def Let_def split: option.splits)

end
