(* ===== verification/Logp_Loggers.thy ===== *)
theory Logp_Loggers
  imports Logp
begin

text \<open>
  Loggers that are not built from a configuration, and the methods that log (src/logp/logger.go), with the warnings of
  src/logp/cfgwarn/cfgwarn.go. What zap does for its constructors, for formatting and after an entry is an argument, in the
  record \<open>sugar\<close>.
\<close>

section \<open>Constructors\<close>

text \<open>
  An argument of a logging method is a text, a field or the stack of the caller under a key.
  \<open>zWrap\<close> is the option that replaces the core of a logger, \<open>newBuffer\<close> a new buffer in memory with the core that writes
  to it with the given encoder at every level, and \<open>timeISO8601\<close> sets the encoder of times. A logger may be nil: \<open>Named\<close> of zap returns it for an empty name and fails otherwise.
\<close>

datatype logArg = AText string | AField field | AStack string

record ('x, 'l, 'w) sugar =
  zProduction :: "zopt list \<Rightarrow> 'l option \<times> gerr option"
  zDevelopment :: "zopt list \<Rightarrow> 'l option \<times> gerr option"
  zWrap :: "'l \<Rightarrow> 'x core \<Rightarrow> 'l"
  newBuffer :: "encoder \<Rightarrow> ('w, 'x core \<times> nat) action"
  timeISO8601 :: "EncoderConfig \<Rightarrow> EncoderConfig"
  sprint :: "logArg list \<Rightarrow> string"
  sprintf :: "string \<Rightarrow> logArg list \<Rightarrow> string"
  pairsToFields :: "logArg list \<Rightarrow> field list"
  development :: "'l \<Rightarrow> bool"

definition nilNamed :: "('x, 'l, 'w) zap \<Rightarrow> 'l option \<Rightarrow> string \<Rightarrow> (gerr, 'l option) outcome" where
  "nilNamed z l sel =
     (case l of Some l' \<Rightarrow> Ok (Some (zNamed z l' sel)) | None \<Rightarrow> if sel = [] then Ok None else Panic)"

text \<open>The name is set before the error is looked at.\<close>

definition NewProductionLogger :: "('x, 'l, 'w) zap \<Rightarrow> ('x, 'l, 'w) sugar \<Rightarrow> string \<Rightarrow> zopt list \<Rightarrow> (gerr, 'l Logger) outcome" where
  "NewProductionLogger z g sel options =
     (case zProduction g options of
        (log, err) \<Rightarrow>
          bind_outcome (nilNamed z log sel) (\<lambda>log.
            case err of
              Some e \<Rightarrow> Err e
            | None \<Rightarrow> (case log of Some l \<Rightarrow> Ok \<lparr>zlogger = l, lselectors = []\<rparr> | None \<Rightarrow> Panic)))"

definition NewDevelopmentLogger :: "('x, 'l, 'w) zap \<Rightarrow> ('x, 'l, 'w) sugar \<Rightarrow> string \<Rightarrow> zopt list \<Rightarrow> (gerr, 'l Logger) outcome" where
  "NewDevelopmentLogger z g sel options =
     (case zDevelopment g (AddCallerSkip 1 # options) of
        (log, Some e) \<Rightarrow> Err e
      | (Some l, None) \<Rightarrow> Ok \<lparr>zlogger = zNamed z l sel, lselectors = []\<rparr>
      | (None, None) \<Rightarrow> Panic)"

text \<open>Loggers in memory: over the global logger, and over one of their own whose error is dropped.\<close>

definition NewInMemory ::
  "('x, 'l, 'w) zap \<Rightarrow> ('x, 'l, 'w) sugar \<Rightarrow> string \<Rightarrow> EncoderConfig \<Rightarrow> ('l, 'w) pkg \<Rightarrow> ('l, 'w) pkg \<times> 'l Logger \<times> nat" where
  "NewInMemory z g sel encCfg p =
     (case newBuffer g (ConsoleEncoder (timeISO8601 g (ecsCompatible z encCfg))) (st p) of
        (s', core, buff) \<Rightarrow>
          (p\<lparr>st := s'\<rparr>,
           \<lparr>zlogger = zWrap g (zWithOptions z (zNamed z (rootLogger (loadLogger p)) sel) [AddCallerSkip 1]) core, lselectors = []\<rparr>, buff))"

definition NewInMemoryLocal ::
  "('x, 'l, 'w) zap \<Rightarrow> ('x, 'l, 'w) sugar \<Rightarrow> string \<Rightarrow> EncoderConfig \<Rightarrow> ('w, 'l Logger option \<times> nat) action" where
  "NewInMemoryLocal z g sel encCfg s =
     (case newBuffer g (ConsoleEncoder (timeISO8601 g (ecsCompatible z encCfg))) s of
        (s', core, buff) \<Rightarrow>
          (s', (case NewDevelopmentLogger z g sel [] of
                  Ok l \<Rightarrow> Some (l\<lparr>zlogger := zWrap g (zlogger l) core\<rparr>)
                | _ \<Rightarrow> None), buff))"

section \<open>Methods that log\<close>

datatype logMethod = MDebug | MInfo | MWarn | MError | MDPanic | MPanic | MFatal

fun methodLevel :: "logMethod \<Rightarrow> int" where
  "methodLevel MDebug = -1"
| "methodLevel MInfo = 0"
| "methodLevel MWarn = 1"
| "methodLevel MError = 2"
| "methodLevel MDPanic = 3"
| "methodLevel MPanic = 4"
| "methodLevel MFatal = 5"

text \<open>How a call ends: it returns, panics, or ends the process.\<close>

datatype ending = Returns | Panics | Exits

fun methodEnds :: "bool \<Rightarrow> logMethod \<Rightarrow> ending" where
  "methodEnds dev MDPanic = (if dev then Panics else Returns)"
| "methodEnds dev MPanic = Panics"
| "methodEnds dev MFatal = Exits"
| "methodEnds dev _ = Returns"

text \<open>An entry is written when a core accepts it; a panic or exit comes in any case.\<close>

definition sugarLog ::
  "('x, 'l, 'w) zap \<Rightarrow> ('x, 'l, 'w) sugar \<Rightarrow> logMethod \<Rightarrow> 'l \<Rightarrow> string \<Rightarrow> ('w, ending) action" where
  "sugarLog z g m l msg s =
     (if zCheck z l s (methodLevel m) msg \<noteq> [] then zLog z l (methodLevel m) msg s else s, methodEnds (development g l) m)"

text \<open>\<open>Debug\<close>, \<open>Info\<close>, \<open>Warn\<close>, \<open>Error\<close>, \<open>DPanic\<close>, \<open>Panic\<close> and \<open>Fatal\<close>; the same with a format, and with keys and values.\<close>

definition LoggerPrint :: "('x, 'l, 'w) zap \<Rightarrow> ('x, 'l, 'w) sugar \<Rightarrow> logMethod \<Rightarrow> logArg list \<Rightarrow> 'l Logger \<Rightarrow> ('w, ending) action" where
  "LoggerPrint z g m args l = sugarLog z g m (zlogger l) (sprint g args)"

definition LoggerPrintf ::
  "('x, 'l, 'w) zap \<Rightarrow> ('x, 'l, 'w) sugar \<Rightarrow> logMethod \<Rightarrow> string \<Rightarrow> logArg list \<Rightarrow> 'l Logger \<Rightarrow> ('w, ending) action" where
  "LoggerPrintf z g m format args l = sugarLog z g m (zlogger l) (sprintf g format args)"

definition LoggerPrintw ::
  "('x, 'l, 'w) zap \<Rightarrow> ('x, 'l, 'w) sugar \<Rightarrow> logMethod \<Rightarrow> string \<Rightarrow> logArg list \<Rightarrow> 'l Logger \<Rightarrow> ('w, ending) action" where
  "LoggerPrintw z g m msg keysAndValues l = sugarLog z g m (zWith z (zlogger l) (pairsToFields g keysAndValues)) msg"

text \<open>\<open>Recover\<close> in a deferred call: the value of the panic if there is one.\<close>

definition LoggerRecover ::
  "('x, 'l, 'w) zap \<Rightarrow> ('x, 'l, 'w) sugar \<Rightarrow> string \<Rightarrow> string option \<Rightarrow> 'l Logger \<Rightarrow> ('w, ending) action" where
  "LoggerRecover z g msg panicked l s =
     (case panicked of
        None \<Rightarrow> (s, Returns)
      | Some r \<Rightarrow>
          LoggerPrint z g MError
            [AText (msg @ ''. Recovering, but please report this.''), AField (zapAny z ''panic'' r), AStack ''stack'']
            (LoggerWithOptions z [AddCallerSkip 1] l) s)"

section \<open>Warnings about a configuration\<close>

definition warnWith :: "('x, 'l, 'w) zap \<Rightarrow> ('x, 'l, 'w) sugar \<Rightarrow> string \<Rightarrow> logArg list \<Rightarrow> ('l, 'w) pkg \<Rightarrow> ('l, 'w) pkg" where
  "warnWith z g format args p =
     p\<lparr>st := fst (LoggerPrintf z g MWarn format args (NewLogger z ''cfgwarn'' [AddCallerSkip 1] p) (st p))\<rparr>"

definition Beta :: "('x, 'l, 'w) zap \<Rightarrow> ('x, 'l, 'w) sugar \<Rightarrow> string \<Rightarrow> logArg list \<Rightarrow> ('l, 'w) pkg \<Rightarrow> ('l, 'w) pkg" where
  "Beta z g format v = warnWith z g (''BETA: '' @ format) v"

definition Deprecate :: "('x, 'l, 'w) zap \<Rightarrow> ('x, 'l, 'w) sugar \<Rightarrow> string \<Rightarrow> string \<Rightarrow> logArg list \<Rightarrow> ('l, 'w) pkg \<Rightarrow> ('l, 'w) pkg" where
  "Deprecate z g ver format v =
     (let postfix = (if ver \<noteq> [] then '' Will be removed in version: '' @ ver else []) in
      warnWith z g (''DEPRECATED: '' @ format @ postfix) v)"

definition Experimental :: "('x, 'l, 'w) zap \<Rightarrow> ('x, 'l, 'w) sugar \<Rightarrow> string \<Rightarrow> logArg list \<Rightarrow> ('l, 'w) pkg \<Rightarrow> ('l, 'w) pkg" where
  "Experimental z g format v = warnWith z g (''EXPERIMENTAL: '' @ format) v"

section \<open>Laws\<close>

text \<open>
  When zap cannot build a production logger, \<open>NewProductionLogger\<close> panics instead of returning the error, unless the selector is
  empty; \<open>NewDevelopmentLogger\<close> returns the error.
\<close>

lemma constructor_errors:
  "zProduction g options = (None, Some e) \<Longrightarrow>
     NewProductionLogger z g sel options = (if sel = [] then Err e else Panic)"
  "zDevelopment g (AddCallerSkip 1 # options) = (None, Some e) \<Longrightarrow> NewDevelopmentLogger z g sel options = Err e"
  by (simp_all add: NewProductionLogger_def NewDevelopmentLogger_def nilNamed_def)

text \<open>Only the entries for panics and exits do not return, and in production \<open>DPanic\<close> does.\<close>

lemma methods_return:
  "snd (LoggerPrint z g m args l s) = Returns \<longleftrightarrow>
     methodLevel m \<le> 2 \<or> m = MDPanic \<and> \<not> development g (zlogger l)"
  by (cases m) (simp_all add: LoggerPrint_def sugarLog_def)

text \<open>A disabled level leaves the state as it is.\<close>

lemma disabled_silent: "zCheck z (zlogger l) s (methodLevel m) (sprint g args) = [] \<Longrightarrow> fst (LoggerPrint z g m args l s) = s"
  by (simp add: LoggerPrint_def sugarLog_def)

text \<open>\<open>Recover\<close> never panics again.\<close>

lemma Recover_returns: "snd (LoggerRecover z g msg panicked l s) = Returns"
  by (simp add: LoggerRecover_def LoggerPrint_def sugarLog_def split: option.splits)

end
