(* ===== verification/Typeconv.thy ===== *)
theory Typeconv
  imports Go_Prelude
begin

text \<open>
  Package \<open>transform/typeconv\<close> (src/transform/typeconv/typeconv.go, datetime.go): times packed into two 64-bit words, the
  unfolder that reads them back from events, the converter and its pool, and the type \<open>Time\<close> in JSON. The conversion
  itself is go-structform, an argument, as are parsing and printing of times by the standard library.
\<close>

unbundle bit_operations_syntax

section \<open>Times\<close>

text \<open>
  A time is the seconds since 1970 as an \<open>int64\<close>, kept as a word, with nanoseconds and a location. Offsets of the
  local and of named zones depend on the second; they are in seconds. \<open>time.Unix\<close> carries whole seconds
  out of the nanoseconds and is in the local zone.
\<close>

datatype location = UTC | Local | FixedZone int | NamedZone nat

record time =
  tSec :: "64 word"
  tNsec :: nat
  tLoc :: location

record zones =
  localOff :: "64 word \<Rightarrow> int"
  namedOff :: "nat \<Rightarrow> 64 word \<Rightarrow> int"

fun locOffset :: "zones \<Rightarrow> location \<Rightarrow> 64 word \<Rightarrow> int" where
  "locOffset z UTC s = 0"
| "locOffset z Local s = localOff z s"
| "locOffset z (FixedZone n) s = n"
| "locOffset z (NamedZone i) s = namedOff z i s"

definition Zone :: "zones \<Rightarrow> time \<Rightarrow> int" where
  "Zone z ts = locOffset z (tLoc ts) (tSec ts)"

definition timeUnix :: "64 word \<Rightarrow> nat \<Rightarrow> time" where
  "timeUnix sec nsec = \<lparr>tSec = sec + word_of_nat (nsec div 10 ^ 9), tNsec = nsec mod 10 ^ 9, tLoc = Local\<rparr>"

text \<open>Division of Go, towards zero.\<close>

definition quot60 :: "int \<Rightarrow> int" where
  "quot60 x = (if x < 0 then - ((- x) div 60) else x div 60)"

section \<open>Packing\<close>

definition zoneBits :: "zones \<Rightarrow> time \<Rightarrow> 16 word" where
  "zoneBits z ts =
     (if tLoc ts = UTC then - 1
      else (let offset = quot60 (Zone z ts);
                offset = (if offset < - 32768 \<or> offset = - 1 \<or> offset > 32767 then 0 else offset) in
            word_of_int offset))"

definition timestampToBits :: "zones \<Rightarrow> time \<Rightarrow> 64 word \<times> 64 word" where
  "timestampToBits z ts =
     (let off = zoneBits z ts; encodingVersion = (0 :: 64 word);
          extra = push_bit 56 encodingVersion OR push_bit 32 (ucast off) OR word_of_nat (tNsec ts) in
      (extra, tSec ts))"

text \<open>The product \<open>off * 60\<close> is computed in 16 bits.\<close>

datatype tc_error = ErrTimestamp | ErrUnexpectedString | ErrUnexpectedArray | ErrLength | ErrUnexpectedNumber | ErrClosed | ErrTimeParse | ErrNotQuoted

definition restoreZone :: "zones \<Rightarrow> 16 word \<Rightarrow> time \<Rightarrow> time" where
  "restoreZone z off ts =
     (if off = - 1 then ts\<lparr>tLoc := UTC\<rparr>
      else if off \<noteq> 0 then
        if off \<noteq> word_of_int (quot60 (Zone z ts)) then ts\<lparr>tLoc := FixedZone (sint (off * 60))\<rparr> else ts
      else ts)"

definition bitsToTimestamp :: "zones \<Rightarrow> 64 word \<Rightarrow> 64 word \<Rightarrow> (tc_error, time) outcome" where
  "bitsToTimestamp z extra sec =
     (let version = drop_bit 56 extra AND 0xff in
      if version \<noteq> 0 then Err ErrTimestamp
      else
        (let nsec = (ucast extra :: 32 word); off = (ucast (drop_bit 32 extra) :: 16 word);
             ts = timeUnix sec (unat nsec) in
         Ok (restoreZone z off ts)))"

section \<open>Unfolding from events\<close>

text \<open>
  What go-structform reports to the unfolder of a time. A number that is a \<open>float64\<close> comes with its conversion to \<open>uint64\<close>.
\<close>

datatype event = OnString string | OnArrayStart int | OnInt "64 word" | OnFloat "64 word" | OnUint "64 word" | OnArrayFinished

datatype timeUnfoldState = timeUnfoldInit | timeUnfoldDone | timeUnfoldWaitA | timeUnfoldWaitB | timeUnfoldWaitDone

record timeUnfolder =
  uTo :: time
  uA :: "64 word"
  uB :: "64 word"
  uSt :: timeUnfoldState
  uDone :: bool

definition unfoldTimestamp :: "time \<Rightarrow> timeUnfolder" where
  "unfoldTimestamp t = \<lparr>uTo = t, uA = 0, uB = 0, uSt = timeUnfoldInit, uDone = False\<rparr>"

text \<open>\<open>time.Parse\<close> returns a time also with an error; \<open>uDone\<close> is set by \<open>ctx.Done\<close>.\<close>

definition unfoldString :: "(string \<Rightarrow> time \<times> bool) \<Rightarrow> string \<Rightarrow> timeUnfolder \<Rightarrow> timeUnfolder \<times> tc_error option" where
  "unfoldString parse s u =
     (if uSt u \<noteq> timeUnfoldInit then (u, Some ErrUnexpectedString)
      else (case parse s of (t, ok) \<Rightarrow>
        (u\<lparr>uTo := t, uSt := timeUnfoldDone, uDone := True\<rparr>, if ok then None else Some ErrTimeParse)))"

definition unfoldArrayStart :: "int \<Rightarrow> timeUnfolder \<Rightarrow> timeUnfolder \<times> tc_error option" where
  "unfoldArrayStart len u =
     (if uSt u \<noteq> timeUnfoldInit then (u, Some ErrUnexpectedArray)
      else if len \<ge> 0 \<and> len \<noteq> 2 then (u, Some ErrLength)
      else (u\<lparr>uSt := timeUnfoldWaitA\<rparr>, None))"

definition unfoldUint :: "64 word \<Rightarrow> timeUnfolder \<Rightarrow> timeUnfolder \<times> tc_error option" where
  "unfoldUint n u =
     (case uSt u of
        timeUnfoldWaitA \<Rightarrow> (u\<lparr>uA := n, uSt := timeUnfoldWaitB\<rparr>, None)
      | timeUnfoldWaitB \<Rightarrow> (u\<lparr>uB := n, uSt := timeUnfoldWaitDone\<rparr>, None)
      | _ \<Rightarrow> (u, Some ErrUnexpectedNumber))"

definition unfoldArrayFinished :: "zones \<Rightarrow> timeUnfolder \<Rightarrow> timeUnfolder \<times> tc_error option" where
  "unfoldArrayFinished z u =
     (if uSt u \<noteq> timeUnfoldWaitDone then (u\<lparr>uDone := True\<rparr>, Some ErrClosed)
      else (case bitsToTimestamp z (uA u) (uB u) of
              Ok ts \<Rightarrow> (u\<lparr>uSt := timeUnfoldDone, uTo := ts, uDone := True\<rparr>, None)
            | Err e \<Rightarrow> (u\<lparr>uSt := timeUnfoldDone, uDone := True\<rparr>, Some e)
            | Panic \<Rightarrow> (u, None)))"

fun unfoldStep :: "zones \<Rightarrow> (string \<Rightarrow> time \<times> bool) \<Rightarrow> event \<Rightarrow> timeUnfolder \<Rightarrow> timeUnfolder \<times> tc_error option" where
  "unfoldStep z parse (OnString s) u = unfoldString parse s u"
| "unfoldStep z parse (OnArrayStart len) u = unfoldArrayStart len u"
| "unfoldStep z parse (OnInt n) u = unfoldUint n u"
| "unfoldStep z parse (OnFloat n) u = unfoldUint n u"
| "unfoldStep z parse (OnUint n) u = unfoldUint n u"
| "unfoldStep z parse OnArrayFinished u = unfoldArrayFinished z u"

text \<open>Events are sent to a visitor until one fails.\<close>

fun visitAll :: "(event \<Rightarrow> 's \<Rightarrow> 's \<times> 'e option) \<Rightarrow> event list \<Rightarrow> 's \<Rightarrow> 's \<times> 'e option" where
  "visitAll v [] s = (s, None)"
| "visitAll v (e # es) s = (case v e s of (s', Some err) \<Rightarrow> (s', Some err) | (s', None) \<Rightarrow> visitAll v es s')"

definition foldTimestamp :: "zones \<Rightarrow> time \<Rightarrow> (event \<Rightarrow> 's \<Rightarrow> 's \<times> 'e option) \<Rightarrow> 's \<Rightarrow> 's \<times> 'e option" where
  "foldTimestamp z ts v =
     (case timestampToBits z ts of (extra, sec) \<Rightarrow>
        visitAll v [OnArrayStart 2, OnUint extra, OnUint sec, OnArrayFinished])"

section \<open>The converter\<close>

text \<open>
  The iterator and the unfolder of go-structform are arguments, with their states \<open>'f\<close> and \<open>'u\<close>; \<open>'t\<close> is the type of targets and
  \<open>'v\<close> that of values. \<open>foldValue\<close> sends a value to the unfolder and returns the target it left.
\<close>

record ('f, 'u, 't, 'v, 'e) gotype =
  newUnfolder :: 'u
  newIterator :: "'u \<Rightarrow> 'f option"
  setTarget :: "'u \<Rightarrow> 't \<Rightarrow> 'u \<times> 'e option"
  foldValue :: "'f \<Rightarrow> 'u \<Rightarrow> 't \<Rightarrow> 'v \<Rightarrow> 'f \<times> 'u \<times> 't \<times> 'e option"
  resetUnfolder :: "'u \<Rightarrow> 'u"

record ('f, 'u) Converter =
  cFold :: "'f option"
  cUnfold :: "'u option"

definition NewConverter :: "('f, 'u) Converter" where
  "NewConverter = \<lparr>cFold = None, cUnfold = None\<rparr>"

definition initConverter :: "('f, 'u, 't, 'v, 'e) gotype \<Rightarrow> ('f, 'u) Converter \<Rightarrow> (unit, ('f, 'u) Converter) outcome" where
  "initConverter G c =
     (let u = newUnfolder G in case newIterator G u of None \<Rightarrow> Panic | Some f \<Rightarrow> Ok (c\<lparr>cUnfold := Some u, cFold := Some f\<rparr>))"

text \<open>After an error the iterator and the unfolder are dropped, so that the next call makes new ones.\<close>

definition Convert ::
  "('f, 'u, 't, 'v, 'e) gotype \<Rightarrow> 't \<Rightarrow> 'v \<Rightarrow> ('f, 'u) Converter \<Rightarrow> (unit, ('f, 'u) Converter \<times> 't \<times> 'e option) outcome" where
  "Convert G to src c =
     bind_outcome (if cUnfold c = None \<or> cFold c = None then initConverter G c else Ok c) (\<lambda>c.
       case (cUnfold c, cFold c) of
         (Some u, Some f) \<Rightarrow>
           (case setTarget G u to of
              (u, Some err) \<Rightarrow> Ok (c\<lparr>cFold := None, cUnfold := None\<rparr>, to, Some err)
            | (u, None) \<Rightarrow>
                (case foldValue G f u to src of (f, u, to, err) \<Rightarrow>
                   (let u = resetUnfolder G u in
                    Ok (if err \<noteq> None then c\<lparr>cFold := None, cUnfold := None\<rparr> else c\<lparr>cFold := Some f, cUnfold := Some u\<rparr>, to, err))))
       | _ \<Rightarrow> Panic)"

text \<open>The pool gives one of its converters or a new one.\<close>

definition poolConvert ::
  "('f, 'u, 't, 'v, 'e) gotype \<Rightarrow> nat \<Rightarrow> 't \<Rightarrow> 'v \<Rightarrow> ('f, 'u) Converter list \<Rightarrow> (unit, ('f, 'u) Converter list \<times> 't \<times> 'e option) outcome" where
  "poolConvert G i to src pool =
     (let (c, rest) = (if i < length pool then (pool ! i, take i pool @ drop (Suc i) pool) else (NewConverter, pool)) in
      bind_outcome (Convert G to src c) (\<lambda>(c', to', err). Ok (c' # rest, to', err)))"

section \<open>Times in JSON\<close>

text \<open>Parsing and printing with the layout \<open>2006-01-02T15:04:05.000Z\<close>, and the JSON text of a string, are arguments.\<close>

definition MarshalJSON :: "(time \<Rightarrow> string) \<Rightarrow> (string \<Rightarrow> 'j) \<Rightarrow> time \<Rightarrow> 'j" where
  "MarshalJSON fmt json t = json (fmt (t\<lparr>tLoc := UTC\<rparr>))"

definition ParseTime :: "(string \<Rightarrow> time \<times> bool) \<Rightarrow> string \<Rightarrow> time \<times> tc_error option" where
  "ParseTime parse timespec = (case parse timespec of (t, ok) \<Rightarrow> (t, if ok then None else Some ErrTimeParse))"

text \<open>The slice \<open>data[1 : len(data)-1]\<close> of a single quote panics, as does the first byte of no data.\<close>

definition UnmarshalJSON :: "(string \<Rightarrow> time \<times> bool) \<Rightarrow> string \<Rightarrow> time \<Rightarrow> (unit, time \<times> tc_error option) outcome" where
  "UnmarshalJSON parse data t =
     (if data = [] then Panic
      else if data ! 0 \<noteq> CHR 0x22 \<or> data ! (length data - 1) \<noteq> CHR 0x22 then Ok (t, Some ErrNotQuoted)
      else if length data - 1 < 1 then Panic
      else Ok (ParseTime parse (take (length data - 2) (drop 1 data))))"

definition MustParseTime :: "(string \<Rightarrow> time \<times> bool) \<Rightarrow> string \<Rightarrow> (unit, time) outcome" where
  "MustParseTime parse timespec = (case ParseTime parse timespec of (t, Some err) \<Rightarrow> Panic | (t, None) \<Rightarrow> Ok t)"

definition TimeString :: "(time \<Rightarrow> string) \<Rightarrow> time \<Rightarrow> string" where
  "TimeString fmt t = fmt (t\<lparr>tLoc := UTC\<rparr>)"

text \<open>What is written to a hash: the nanoseconds since 1970 modulo $2^{64}$, with the lowest byte first.\<close>

definition UnixNano :: "time \<Rightarrow> 64 word" where
  "UnixNano t = tSec t * 10 ^ 9 + word_of_nat (tNsec t)"

definition littleEndian :: "64 word \<Rightarrow> 8 word list" where
  "littleEndian w = map (\<lambda>i. ucast (drop_bit (8 * i) w)) [0..<8]"

definition Hash32 :: "(8 word list \<Rightarrow> 'h \<Rightarrow> 'h \<times> 'e option) \<Rightarrow> time \<Rightarrow> 'h \<Rightarrow> 'h \<times> 'e option" where
  "Hash32 write t h = write (littleEndian (UnixNano t)) h"

section \<open>What packing keeps\<close>

lemma small_bits: "(n :: nat) < 2 ^ k \<Longrightarrow> k \<le> i \<Longrightarrow> \<not> bit n i"
  by (metis bit_take_bit_iff not_le take_bit_nat_eq_self)

lemma unpack_nsec:
  assumes "n < 2 ^ 32"
  shows "(ucast (push_bit 56 (0 :: 64 word) OR push_bit 32 (ucast (off :: 16 word)) OR word_of_nat n) :: 32 word) = word_of_nat n"
  by (rule bit_word_eqI) (auto simp: bit_simps)

lemma unpack_zone:
  assumes "n < 2 ^ 32"
  shows "(ucast (drop_bit 32 (push_bit 56 (0 :: 64 word) OR push_bit 32 (ucast (off :: 16 word)) OR word_of_nat n)) :: 16 word) = off"
  using small_bits [OF assms] by (intro bit_word_eqI) (auto simp: bit_simps)

lemma unpack_version:
  assumes "n < 2 ^ 32"
  shows "drop_bit 56 (push_bit 56 (0 :: 64 word) OR push_bit 32 (ucast (off :: 16 word)) OR word_of_nat n) AND 0xff = 0"
proof (rule bit_word_eqI)
  fix i assume "i < LENGTH(64)"
  have "\<not> bit off (24 + i)" using bit_imp_le_length [of off "24 + i"] by auto
  then show "bit (drop_bit 56 (push_bit 56 (0 :: 64 word) OR push_bit 32 (ucast off) OR word_of_nat n) AND 0xff) i = bit (0 :: 64 word) i"
    using small_bits [OF assms, of "56 + i"] by (auto simp: bit_simps)
qed

lemma bitsToTimestamp_packed:
  assumes "tNsec ts < 10 ^ 9"
  shows "(case timestampToBits z ts of (extra, sec) \<Rightarrow> bitsToTimestamp z extra sec) =
    Ok (restoreZone z (zoneBits z ts) (ts\<lparr>tLoc := Local\<rparr>))"
proof -
  have n: "tNsec ts < 2 ^ 32" using assms by simp
  then have "unat (word_of_nat (tNsec ts) :: 32 word) = tNsec ts" by (simp add: unat_of_nat)
  moreover have "timeUnix (tSec ts) (tNsec ts) = ts\<lparr>tLoc := Local\<rparr>" using assms by (simp add: timeUnix_def)
  ultimately show ?thesis
    by (simp only: timestampToBits_def bitsToTimestamp_def Let_def prod.case unpack_nsec [OF n] unpack_zone [OF n] unpack_version [OF n]
        simp_thms if_False)
qed

lemma sint16_id: "- 32768 \<le> k \<Longrightarrow> k < 32768 \<Longrightarrow> sint (word_of_int k :: 16 word) = k"
  by (simp add: sint_sbintrunc' signed_take_bit_int_eq_self_iff)

lemma sint16_wrap: "32768 \<le> k \<Longrightarrow> k < 98304 \<Longrightarrow> sint (word_of_int k :: 16 word) = k - 65536"
  "- 98304 \<le> k \<Longrightarrow> k < - 32768 \<Longrightarrow> sint (word_of_int k :: 16 word) = k + 65536"
proof -
  have eq: "(word_of_int k :: 16 word) = word_of_int (k - 65536)" "(word_of_int k :: 16 word) = word_of_int (k + 65536)"
    by (simp_all add: word_of_int_eq_iff take_bit_eq_mod)
  show "32768 \<le> k \<Longrightarrow> k < 98304 \<Longrightarrow> sint (word_of_int k :: 16 word) = k - 65536" by (simp only: eq(1) sint16_id)
  show "- 98304 \<le> k \<Longrightarrow> k < - 32768 \<Longrightarrow> sint (word_of_int k :: 16 word) = k + 65536" by (simp only: eq(2) sint16_id)
qed

lemma word16_inj:
  assumes "- 32768 \<le> a" and "a < 32768" and "- 32768 \<le> b" and "b < 32768"
  shows "(word_of_int a :: 16 word) = word_of_int b \<longleftrightarrow> a = b"
  using sint16_id [of a] sint16_id [of b] assms by metis

lemma quot60_bound: "\<bar>x\<bar> \<le> 86400 \<Longrightarrow> \<bar>quot60 x\<bar> \<le> 1440"
  by (auto simp: quot60_def)


text \<open>Which location a time comes back with.\<close>

lemma restoreZone_packed:
  assumes "\<bar>Zone z ts\<bar> \<le> 86400" and "\<bar>localOff z (tSec ts)\<bar> \<le> 86400"
  defines "m \<equiv> quot60 (Zone z ts)"
  shows "restoreZone z (zoneBits z ts) (ts\<lparr>tLoc := Local\<rparr>) =
    ts\<lparr>tLoc := (if tLoc ts = UTC then UTC
                else if m = 0 \<or> m = - 1 \<or> m = quot60 (localOff z (tSec ts)) then Local
                else FixedZone (if m > 546 then 60 * m - 65536 else if m < - 546 then 60 * m + 65536 else 60 * m))\<rparr>"
proof (cases "tLoc ts = UTC")
  case True
  then show ?thesis by (simp add: restoreZone_def zoneBits_def)
next
  case False
  have m: "\<bar>m\<bar> \<le> 1440" and l: "\<bar>quot60 (localOff z (tSec ts))\<bar> \<le> 1440"
    using quot60_bound assms by auto
  have z: "zoneBits z ts = (if m = - 1 then 0 else word_of_int m)"
    using False m by (auto simp: zoneBits_def Let_def m_def [symmetric])
  have "(word_of_int m :: 16 word) = - 1 \<longleftrightarrow> m = - 1" "(word_of_int m :: 16 word) = 0 \<longleftrightarrow> m = 0"
    using word16_inj [of m "- 1"] word16_inj [of m 0] m by auto
  moreover have "(word_of_int m :: 16 word) = word_of_int (quot60 (localOff z (tSec ts))) \<longleftrightarrow> m = quot60 (localOff z (tSec ts))"
    using word16_inj m l by auto
  moreover have "sint (word_of_int m * 60 :: 16 word) =
      (if m > 546 then 60 * m - 65536 else if m < - 546 then 60 * m + 65536 else 60 * m)"
  proof -
    have "(word_of_int m * 60 :: 16 word) = word_of_int (60 * m)" by (simp add: mult.commute)
    moreover have "sint (word_of_int (60 * m) :: 16 word) =
        (if m > 546 then 60 * m - 65536 else if m < - 546 then 60 * m + 65536 else 60 * m)"
      using sint16_id [of "60 * m"] sint16_wrap [of "60 * m"] m by (auto simp del: of_int_mult)
    ultimately show ?thesis by (simp only:)
  qed
  ultimately show ?thesis using False z by (auto simp: restoreZone_def Zone_def)
qed

text \<open>
  C27. A time packed into two words by \<open>timestampToBits\<close> is read back by \<open>bitsToTimestamp\<close> as the same instant, and in UTC if it
  was in UTC. In another zone, with an offset of whole minutes \<open>m\<close> that is at most 9 hours and 6 minutes and neither 0 nor one minute
  west, it comes back with an offset of \<open>m\<close> minutes. In another zone with an offset of 0 or of one minute west, to the minute, or with
  the local offset, it comes back in the local zone. For a larger offset that is not the local one the 16-bit product wraps, so the
  offset is wrong by 65536 seconds. Offsets are at most a day.
\<close>

theorem timestamp_roundtrip:
  assumes "tNsec ts < 10 ^ 9" and "\<bar>Zone z ts\<bar> \<le> 86400" and "\<bar>localOff z (tSec ts)\<bar> \<le> 86400" and "timestampToBits z ts = (extra, sec)"
  defines "m \<equiv> quot60 (Zone z ts)"
  shows "\<exists>ts'. bitsToTimestamp z extra sec = Ok ts' \<and> tSec ts' = tSec ts \<and> tNsec ts' = tNsec ts \<and>
    (tLoc ts = UTC \<longrightarrow> ts' = ts) \<and>
    (tLoc ts \<noteq> UTC \<and> \<bar>m\<bar> \<le> 546 \<and> m \<noteq> 0 \<and> m \<noteq> - 1 \<longrightarrow> quot60 (Zone z ts') = m) \<and>
    (tLoc ts \<noteq> UTC \<and> (m = 0 \<or> m = - 1 \<or> m = quot60 (localOff z (tSec ts))) \<longrightarrow> tLoc ts' = Local) \<and>
    (tLoc ts \<noteq> UTC \<and> \<bar>m\<bar> > 546 \<and> m \<noteq> quot60 (localOff z (tSec ts)) \<longrightarrow> \<bar>Zone z ts' - 60 * m\<bar> = 65536)"
proof -
  define ts' where "ts' = restoreZone z (zoneBits z ts) (ts\<lparr>tLoc := Local\<rparr>)"
  have "bitsToTimestamp z extra sec = Ok ts'"
    using bitsToTimestamp_packed [OF assms(1), of z] assms(4) by (simp add: ts'_def)
  moreover note eq = restoreZone_packed [OF assms(2,3), folded ts'_def m_def]
  have "quot60 (60 * m) = m" by (cases "m < 0") (auto simp: quot60_def minus_mult_right simp del: mult_minus_right)
  ultimately show ?thesis by (intro exI [of _ ts']) (auto simp: eq Zone_def)
qed

text \<open>In ten hours east of Greenwich, with a local zone of UTC, the offset that comes back is -29536 seconds.\<close>

theorem timestamp_roundtrip_witness:
  "\<exists>ts'. bitsToTimestamp \<lparr>localOff = (\<lambda>_. 0), namedOff = (\<lambda>_ _. 0)\<rparr> 0x25800000005 7 = Ok ts' \<and> tSec ts' = 7 \<and> tNsec ts' = 5 \<and>
     \<bar>Zone \<lparr>localOff = (\<lambda>_. 0), namedOff = (\<lambda>_ _. 0)\<rparr> ts' - 36000\<bar> = 65536"
  using timestamp_roundtrip [of "\<lparr>tSec = 7, tNsec = 5, tLoc = FixedZone 36000\<rparr>" "\<lparr>localOff = (\<lambda>_. 0), namedOff = (\<lambda>_ _. 0)\<rparr>" "0x25800000005" "7"]
  by (auto simp: Zone_def quot60_def timestampToBits_def zoneBits_def)

lemma zone_overflow: "restoreZone \<lparr>localOff = (\<lambda>_. 0), namedOff = (\<lambda>_ _. 0)\<rparr> 600 \<lparr>tSec = 0, tNsec = 0, tLoc = Local\<rparr> =
    \<lparr>tSec = 0, tNsec = 0, tLoc = FixedZone (- 29536)\<rparr>"
  by (simp add: restoreZone_def Zone_def quot60_def)

text \<open>
  The events on which unfolding ends without an error: one string that parses, or an array announced with two elements or an
  unknown number of them, of two numbers with version 0.
\<close>

definition numberOf :: "event \<Rightarrow> 64 word option" where
  "numberOf e = (case e of OnInt n \<Rightarrow> Some n | OnFloat n \<Rightarrow> Some n | OnUint n \<Rightarrow> Some n | _ \<Rightarrow> None)"

lemmas unfold_defs = unfoldString_def unfoldArrayStart_def unfoldUint_def unfoldArrayFinished_def numberOf_def

lemma unfoldStep_states:
  assumes "unfoldStep z parse e u = (u', None)"
  shows "(uSt u = timeUnfoldInit \<and> ((\<exists>s t. e = OnString s \<and> parse s = (t, True) \<and> u' = u\<lparr>uTo := t, uSt := timeUnfoldDone, uDone := True\<rparr>) \<or>
            (\<exists>n. e = OnArrayStart n \<and> (n < 0 \<or> n = 2) \<and> u' = u\<lparr>uSt := timeUnfoldWaitA\<rparr>))) \<or>
    (uSt u = timeUnfoldWaitA \<and> (\<exists>n. numberOf e = Some n \<and> u' = u\<lparr>uA := n, uSt := timeUnfoldWaitB\<rparr>)) \<or>
    (uSt u = timeUnfoldWaitB \<and> (\<exists>n. numberOf e = Some n \<and> u' = u\<lparr>uB := n, uSt := timeUnfoldWaitDone\<rparr>)) \<or>
    (uSt u = timeUnfoldWaitDone \<and> e = OnArrayFinished \<and> (\<exists>t. bitsToTimestamp z (uA u) (uB u) = Ok t \<and> u' = u\<lparr>uSt := timeUnfoldDone, uTo := t, uDone := True\<rparr>))"
  using assms by (cases e; cases "uSt u") (auto simp: unfold_defs bitsToTimestamp_def Let_def split: if_splits prod.splits)

lemma visitAll_Cons_ok:
  "visitAll v (e # es) s = (s'', None) \<longleftrightarrow> (\<exists>s'. v e s = (s', None) \<and> visitAll v es s' = (s'', None))"
  by (auto split: prod.splits option.splits)

lemma unfold_done_stuck: "uSt u = timeUnfoldDone \<Longrightarrow> visitAll (unfoldStep z parse) es u = (u', None) \<Longrightarrow> es = [] \<and> u' = u"
  by (cases es) (auto simp: visitAll_Cons_ok simp del: visitAll.simps(2) dest: unfoldStep_states)

theorem unfold_language:
  assumes "visitAll (unfoldStep z parse) es (unfoldTimestamp t0) = (u, None)" and "uSt u = timeUnfoldDone"
  shows "uDone u \<and> ((\<exists>s. es = [OnString s] \<and> parse s = (uTo u, True)) \<or>
    (\<exists>n a b e1 e2. es = [OnArrayStart n, e1, e2, OnArrayFinished] \<and> (n < 0 \<or> n = 2) \<and> numberOf e1 = Some a \<and> numberOf e2 = Some b \<and>
       bitsToTimestamp z a b = Ok (uTo u)))"
proof -
  let ?v = "unfoldStep z parse"
  have start: "uSt (unfoldTimestamp t0) = timeUnfoldInit" by (simp add: unfoldTimestamp_def)
  then obtain e es1 u1 where es: "es = e # es1" and s1: "?v e (unfoldTimestamp t0) = (u1, None)" and r1: "visitAll ?v es1 u1 = (u, None)"
    using assms by (cases es) (auto simp: visitAll_Cons_ok simp del: visitAll.simps(2))
  show ?thesis
  proof (cases "\<exists>s. e = OnString s")
    case True
    then show ?thesis using unfoldStep_states [OF s1] start unfold_done_stuck [OF _ r1] es by auto
  next
    case False
    then obtain n where e: "e = OnArrayStart n" "n < 0 \<or> n = 2" and u1: "u1 = unfoldTimestamp t0\<lparr>uSt := timeUnfoldWaitA\<rparr>"
      using unfoldStep_states [OF s1] start by auto
    obtain e1 es2 u2 where es1: "es1 = e1 # es2" and s2: "?v e1 u1 = (u2, None)" and r2: "visitAll ?v es2 u2 = (u, None)"
      using assms(2) r1 u1 by (cases es1) (auto simp: visitAll_Cons_ok simp del: visitAll.simps(2))
    obtain a where a: "numberOf e1 = Some a" "u2 = u1\<lparr>uA := a, uSt := timeUnfoldWaitB\<rparr>"
      using unfoldStep_states [OF s2] u1 by auto
    obtain e2 es3 u3 where es2: "es2 = e2 # es3" and s3: "?v e2 u2 = (u3, None)" and r3: "visitAll ?v es3 u3 = (u, None)"
      using assms(2) r2 a(2) by (cases es2) (auto simp: visitAll_Cons_ok simp del: visitAll.simps(2))
    obtain b where b: "numberOf e2 = Some b" "u3 = u2\<lparr>uB := b, uSt := timeUnfoldWaitDone\<rparr>"
      using unfoldStep_states [OF s3] a(2) by auto
    obtain e3 es4 u4 where es3: "es3 = e3 # es4" and s4: "?v e3 u3 = (u4, None)" and r4: "visitAll ?v es4 u4 = (u, None)"
      using assms(2) r3 b(2) by (cases es3) (auto simp: visitAll_Cons_ok simp del: visitAll.simps(2))
    have "e3 = OnArrayFinished \<and> (\<exists>t. bitsToTimestamp z a b = Ok t \<and> u4 = u3\<lparr>uSt := timeUnfoldDone, uTo := t, uDone := True\<rparr>)"
      using unfoldStep_states [OF s4] a(2) b(2) by auto
    then show ?thesis using unfold_done_stuck [OF _ r4] es es1 es2 es3 e a b by auto
  qed
qed

text \<open>Folding a time into the unfolder of another: the target gets the time with the location it comes back with.\<close>

lemma fold_unfold:
  assumes "tNsec ts < 10 ^ 9"
  shows "foldTimestamp z ts (unfoldStep z parse) (unfoldTimestamp t0) =
    ((unfoldTimestamp t0)\<lparr>uA := fst (timestampToBits z ts), uB := tSec ts, uSt := timeUnfoldDone, uDone := True,
        uTo := restoreZone z (zoneBits z ts) (ts\<lparr>tLoc := Local\<rparr>)\<rparr>, None)"
  using bitsToTimestamp_packed [OF assms, of z]
  by (simp add: foldTimestamp_def unfold_defs unfoldTimestamp_def split: prod.splits) (simp add: timestampToBits_def Let_def)


section \<open>Reuse of converters\<close>

text \<open>
  \<open>fresh\<close> stands for the states of an iterator and an unfolder that behave as new ones: new ones do, and those of a
  successful conversion do after a reset. A converter of the pool is clean if it has such a state or none.
\<close>

definition clean :: "('f \<Rightarrow> 'u \<Rightarrow> bool) \<Rightarrow> ('f, 'u) Converter \<Rightarrow> bool" where
  "clean fresh c = (case (cFold c, cUnfold c) of (Some f, Some u) \<Rightarrow> fresh f u | _ \<Rightarrow> True)"

definition converted :: "('f, 'u, 't, 'v, 'e) gotype \<Rightarrow> 't \<Rightarrow> 'v \<Rightarrow> 'f \<Rightarrow> 'u \<Rightarrow> 't \<times> 'e option" where
  "converted G to src f u =
     (case setTarget G u to of (u', Some err) \<Rightarrow> (to, Some err) | (u', None) \<Rightarrow> snd (snd (foldValue G f u' to src)))"

definition reusable :: "('f, 'u, 't, 'v, 'e) gotype \<Rightarrow> ('f \<Rightarrow> 'u \<Rightarrow> bool) \<Rightarrow> 'f \<Rightarrow> bool" where
  "reusable G fresh f0 \<longleftrightarrow> newIterator G (newUnfolder G) = Some f0 \<and> fresh f0 (newUnfolder G) \<and>
     (\<forall>f u u1 f' u' to src to'. fresh f u \<longrightarrow> setTarget G u to = (u1, None) \<longrightarrow> foldValue G f u1 to src = (f', u', to', None) \<longrightarrow>
        fresh f' (resetUnfolder G u')) \<and>
     (\<forall>f u to src. fresh f u \<longrightarrow> converted G to src f u = converted G to src f0 (newUnfolder G))"

lemma Convert_clean:
  assumes "reusable G fresh f0" and "clean fresh c"
  shows "\<exists>c'. Convert G to src c = Ok (c', converted G to src f0 (newUnfolder G)) \<and> clean fresh c'"
proof -
  have again: "fresh f u \<Longrightarrow> setTarget G u to = (u1, None) \<Longrightarrow> foldValue G f u1 to src = (f', u', to', None) \<Longrightarrow> fresh f' (resetUnfolder G u')"
    and same: "fresh f u \<Longrightarrow> converted G to src f u = converted G to src f0 (newUnfolder G)" for f u u1 f' u' to'
    using assms(1) unfolding reusable_def by blast+
  obtain f u c1 where c1: "(if cUnfold c = None \<or> cFold c = None then initConverter G c else Ok c) = Ok c1"
      "cUnfold c1 = Some u" "cFold c1 = Some f" and "fresh f u"
    using assms by (cases c) (auto simp: initConverter_def clean_def reusable_def split: option.splits)
  obtain u1 e1 where t: "setTarget G u to = (u1, e1)" by fastforce
  obtain f2 u2 to2 e2 where v: "foldValue G f u1 to src = (f2, u2, to2, e2)" by (metis surj_pair)
  have "\<exists>c'. Convert G to src c = Ok (c', converted G to src f u) \<and> clean fresh c'"
    using again [OF \<open>fresh f u\<close>] c1 t v by (cases e1; cases e2) (simp_all add: Convert_def clean_def converted_def Let_def)
  then show ?thesis using same [OF \<open>fresh f u\<close>] by metis
qed

text \<open>With such a library, conversion through the pool gives what a new converter gives, whichever converter is taken.\<close>

theorem poolConvert_new:
  assumes "reusable G fresh f0" and "\<forall>c \<in> set pool. clean fresh c"
  shows "\<exists>pool'. poolConvert G i to src pool = Ok (pool', converted G to src f0 (newUnfolder G)) \<and> (\<forall>c \<in> set pool'. clean fresh c)"
proof -
  have "clean fresh (if i < length pool then pool ! i else NewConverter)"
    using assms(2) by (simp add: clean_def NewConverter_def)
  then obtain c' where "Convert G to src (if i < length pool then pool ! i else NewConverter) = Ok (c', converted G to src f0 (newUnfolder G))"
      "clean fresh c'"
    using Convert_clean [OF assms(1)] by blast
  moreover have "\<forall>c \<in> set (take i pool). clean fresh c" "\<forall>c \<in> set (drop (Suc i) pool). clean fresh c"
    using assms(2) by (meson in_set_takeD in_set_dropD)+
  ultimately show ?thesis using assms(2)
    by (cases "converted G to src f0 (newUnfolder G)") (auto simp: poolConvert_def)
qed

lemma UnmarshalJSON_panics: "UnmarshalJSON parse data t = Panic \<longleftrightarrow> data = [] \<or> data = [CHR 0x22]"
  by (cases data) (auto simp: UnmarshalJSON_def)

lemma Unmarshal_quoted:
  "UnmarshalJSON parse ([CHR 0x22] @ s @ [CHR 0x22]) t = Ok (ParseTime parse s)"
  by (simp add: UnmarshalJSON_def)

end
