(* ===== verification/Tls_Diag.thy ===== *)
theory Tls_Diag
  imports Tls_Load
begin

text \<open>
  The diagnostic reports about TLS settings (src/transport/tlscommon/diag.go): what a report about the certificate and the
  authorities of a client or a server says, and when it gives away the private key. Errors are printed, so loading of a
  certificate is modelled again with the texts of its errors.
\<close>

section \<open>Texts\<close>

text \<open>A line of a logger without flags; a slice of strings, a boolean and a pointer as \<open>fmt\<close> prints them.\<close>

definition logLine :: "string \<Rightarrow> string \<Rightarrow> string" where
  "logLine pfx msg = pfx @ msg @ (if msg \<noteq> [] \<and> last msg = CHR 0x0A then [] else [CHR 0x0A])"

definition showStrings :: "string list \<Rightarrow> string" where
  "showStrings xs = ''['' @ join_str '' '' xs @ '']''"

definition showBool :: "bool \<Rightarrow> string" where
  "showBool b = (if b then ''true'' else ''false'')"

definition showClientAuth :: "TLSClientAuth option \<Rightarrow> string" where
  "showClientAuth m = (case m of None \<Rightarrow> ''<nil>'' | Some a \<Rightarrow> ClientAuth_String a)"

text \<open>What the standard library prints of a certificate beyond the fields of \<open>certificate\<close>.\<close>

record certInfo =
  ciSubject :: string
  ciIssuer :: string
  ciBasicConstraintsValid :: bool
  ciNotBefore :: string
  ciNotAfter :: string
  ciIPs :: string
  ciURIs :: string

record diagEnv =
  dLib :: lib
  dLoader :: loader
  dInfo :: "certificate \<Rightarrow> certInfo"
  dErr :: "load_error \<Rightarrow> string"
  dParse :: "string \<Rightarrow> certificate + string"
  dNow :: string

definition CertDiagString :: "diagEnv \<Rightarrow> certificate option \<Rightarrow> string" where
  "CertDiagString D cert =
     (case cert of
        None \<Rightarrow> []
      | Some c \<Rightarrow>
          (let i = dInfo D c; sep = [CHR 0x0A, CHR 0x09] in
           sep @ ''Subject='' @ ciSubject i @ sep @ ''Issuer='' @ ciIssuer i @ sep @ ''IsCA='' @ showBool (IsCA c) @
           sep @ ''BasicConstraintsValid='' @ showBool (ciBasicConstraintsValid i) @ sep @ ''NotBefore='' @ ciNotBefore i @
           sep @ ''NotAfter='' @ ciNotAfter i @ sep @ ''Fingerprint='' @ Fingerprint (dLib D) c @
           sep @ ''SAN IP='' @ ciIPs i @ sep @ ''SAN DNS='' @ showStrings (DNSNames c) @ sep @ ''SAN URI='' @ ciURIs i))"

section \<open>The certificate\<close>

text \<open>
  \<open>LoadCertificate\<close> with the texts of its errors: those of reading the certificate or the key end with the setting, which is
  the name of a file or the PEM text itself.
\<close>

definition withText :: "(load_error \<Rightarrow> string) \<Rightarrow> string \<Rightarrow> (load_error, 'a) outcome option \<Rightarrow> (string, 'a) outcome option" where
  "withText show sfx r =
     (case r of None \<Rightarrow> None | Some (Ok x) \<Rightarrow> Some (Ok x) | Some (Err e) \<Rightarrow> Some (Err (show e @ sfx)) | Some Panic \<Rightarrow> Some Panic)"

definition LoadCertificateText :: "(load_error \<Rightarrow> string) \<Rightarrow> loader \<Rightarrow> CertificateConfig \<Rightarrow> (string, keypair option) outcome option" where
  "LoadCertificateText show L config =
     (case CertificateConfig_Validate config of
        Err e \<Rightarrow> Some (Err (show (LValidate e)))
      | Panic \<Rightarrow> Some Panic
      | Ok _ \<Rightarrow>
          if Certificate config = [] then Some (Ok None)
          else
            bindCall (withText show [] (Some (readPassphrase L config))) (\<lambda>passphrase.
            bindCall (withText show ('' '' @ Certificate config) (ReadPEMFile L (Certificate config) passphrase)) (\<lambda>certPEM.
            bindCall (withText show ('' '' @ Key config) (ReadPEMFile L (Key config) passphrase)) (\<lambda>keyPEM.
              Some (case x509KeyPair L certPEM keyPEM of None \<Rightarrow> Err (show LKeyPair) | Some cert \<Rightarrow> Ok (Some cert))))))"

fun diagChain :: "diagEnv \<Rightarrow> string \<Rightarrow> nat \<Rightarrow> string list \<Rightarrow> string" where
  "diagChain D pfx i [] = []"
| "diagChain D pfx i (p # ps) =
     (case dParse D p of
        Inr err \<Rightarrow> logLine pfx (''cert '' @ go_itoa i @ '' - error loading cert: '' @ err)
      | Inl cert \<Rightarrow> logLine pfx (''cert '' @ go_itoa i @ '' '' @ CertDiagString D (Some cert))) @
     diagChain D pfx (Suc i) ps"

text \<open>None: loading does not return.\<close>

definition diagCertificate :: "diagEnv \<Rightarrow> string \<Rightarrow> CertificateConfig option \<Rightarrow> (unit, string) outcome option" where
  "diagCertificate D pfx0 cfg =
     (let pfx = pfx0 @ ''CertificateSettings: ''; start = logLine pfx ''checking certificate keypair'' in
      case cfg of
        None \<Rightarrow> Some (Ok (start @ logLine pfx ''certificate keypair is nil.''))
      | Some c \<Rightarrow>
          (case LoadCertificateText (dErr D) (dLoader D) c of
             None \<Rightarrow> None
           | Some Panic \<Rightarrow> Some Panic
           | Some (Err err) \<Rightarrow> Some (Ok (start @ logLine pfx (''certificate keypair error: '' @ err)))
           | Some (Ok None) \<Rightarrow> Some (Ok (start @ logLine pfx ''certificate keypair is nil.''))
           | Some (Ok (Some crt)) \<Rightarrow>
               Some (Ok (start @ logLine pfx ''certificate keypair OK.'' @ diagChain D pfx 0 (certDER crt)))))"

section \<open>The authorities\<close>

text \<open>Certificates of a text: blocks of another type, with headers, or that do not parse are skipped.\<close>

partial_function (option) caLoop :: "diagEnv \<Rightarrow> string \<Rightarrow> certificate list \<Rightarrow> certificate list option" where
  "caLoop D p certs =
     (if p = [] then Some certs
      else (case pemDecode (dLoader D) p of
              None \<Rightarrow> Some certs
            | Some (block, rest) \<Rightarrow>
                if BlockType block \<noteq> ''CERTIFICATE'' \<or> length (Headers block) \<noteq> 0 then caLoop D rest certs
                else (case dParse D (Bytes block) of
                        Inr _ \<Rightarrow> caLoop D rest certs
                      | Inl cert \<Rightarrow> caLoop D rest (certs @ [cert]))))"

declare caLoop.simps [code]

definition getCACerts :: "diagEnv \<Rightarrow> string \<Rightarrow> (string, certificate list) outcome option" where
  "getCACerts D ca =
     (case NewPEMReader (dLoader D) ca of
        Panic \<Rightarrow> Some Panic
      | Err e \<Rightarrow> Some (Err (''unable to read CA: '' @ dErr D e))
      | Ok r \<Rightarrow>
          (case readAll r of
             Panic \<Rightarrow> Some Panic
           | Err e \<Rightarrow> Some (Err (''unable to read ca '' @ ca @ '': '' @ dErr D e))
           | Ok p \<Rightarrow> map_option Ok (caLoop D p [])))"

fun certLines :: "diagEnv \<Rightarrow> string \<Rightarrow> nat \<Rightarrow> certificate list \<Rightarrow> string" where
  "certLines D pfx i [] = []"
| "certLines D pfx i (c # cs) =
     logLine pfx (''- cert '' @ go_itoa i @ '' '' @ CertDiagString D (Some c)) @ certLines D pfx (Suc i) cs"

fun caLines :: "diagEnv \<Rightarrow> string \<Rightarrow> nat \<Rightarrow> string list \<Rightarrow> (unit, string) outcome option" where
  "caLines D pfx i [] = Some (Ok [])"
| "caLines D pfx i (ca # cas) =
     (case getCACerts D ca of
        None \<Rightarrow> None
      | Some Panic \<Rightarrow> Some Panic
      | Some (Err err) \<Rightarrow>
          bindCall (caLines D pfx i cas) (\<lambda>rest. Some (Ok (logLine pfx (''Error handling CA: '' @ err) @ rest)))
      | Some (Ok certs) \<Rightarrow>
          bindCall (caLines D pfx (i + length certs) cas) (\<lambda>rest. Some (Ok (certLines D pfx i certs @ rest))))"

definition diagCAs :: "diagEnv \<Rightarrow> string \<Rightarrow> string list \<Rightarrow> (unit, string) outcome option" where
  "diagCAs D pfx0 cas =
     (let pfx = pfx0 @ ''CertificateAuthorities: '' in
      if length cas = 0 then Some (Ok (logLine pfx ''certificate_authorities not provided, using system certificates.''))
      else bindCall (caLines D pfx 0 cas) (\<lambda>ls. Some (Ok (logLine pfx ''certificate_authorities provided.'' @ ls))))"

section \<open>The reports\<close>

definition diagFiles :: "diagEnv \<Rightarrow> string \<Rightarrow> CertificateConfig \<Rightarrow> string list \<Rightarrow> string \<Rightarrow> (unit, string) outcome option" where
  "diagFiles D pfx cert cas b =
     bindCall (diagCertificate D pfx (Some cert)) (\<lambda>c. bindCall (diagCAs D pfx cas) (\<lambda>a. Some (Ok (b @ c @ a))))"

definition clientHead :: "diagEnv \<Rightarrow> Config \<Rightarrow> string" where
  "clientHead D c =
     (let pfx = ''tlscommon.Config: '' in
      logLine pfx (''Start diagnostics '' @ dNow D) @
      logLine pfx (''verification_mode='' @ VerificationMode_String (VerificationMode c)) @
      logLine pfx (''ca_trusted_fingerprint='' @ cfgTrustedFingerprint c) @
      logLine pfx (''ca_sha256='' @ showStrings (cfgCASha256 c)))"

definition Config_DiagCerts :: "diagEnv \<Rightarrow> Config option \<Rightarrow> (unit, string) outcome option" where
  "Config_DiagCerts D cfg =
     (case cfg of
        None \<Rightarrow> Some (Ok (''error: nil tlscommon.Config'' @ [CHR 0x0A]))
      | Some c \<Rightarrow> diagFiles D ''tlscommon.Config: '' (CertConfig c) (CAs c) (clientHead D c))"

definition serverHead :: "diagEnv \<Rightarrow> ServerConfig \<Rightarrow> string" where
  "serverHead D c =
     (let pfx = ''tlscommon.ServerConfig: '' in
      logLine pfx (''Start diagnostics '' @ dNow D) @
      logLine pfx (''verification_mode='' @ VerificationMode_String (VerificationMode c)) @
      logLine pfx (''client_auth='' @ showClientAuth (cfgClientAuth c)) @
      logLine pfx (''ca_sha256='' @ showStrings (cfgCASha256 c)))"

definition ServerConfig_DiagCerts :: "diagEnv \<Rightarrow> ServerConfig option \<Rightarrow> (unit, string) outcome option" where
  "ServerConfig_DiagCerts D cfg =
     (case cfg of
        None \<Rightarrow> Some (Ok (''error: nil tlscommon.ServerConfig'' @ [CHR 0x0A]))
      | Some c \<Rightarrow> diagFiles D ''tlscommon.ServerConfig: '' (CertConfig c) (CAs c) (serverHead D c))"

section \<open>Laws\<close>

lemma withText_Ok [simp]: "withText show sfx r = Some (Ok x) \<longleftrightarrow> r = Some (Ok x)"
  by (auto simp: withText_def split: option.splits outcome.splits)


text \<open>The texts change nothing else: a certificate is loaded exactly when \<open>LoadCertificate\<close> loads it.\<close>

lemma LoadCertificateText_Ok: "LoadCertificateText show L c = Some (Ok x) \<longleftrightarrow> LoadCertificate L c = Some (Ok x)"
  by (auto simp: LoadCertificateText_def LoadCertificate_def bindCall_Ok_iff split: outcome.splits option.splits)

text \<open>The loop over the blocks ends, with the certificates that the reference finds.\<close>

definition caOf :: "diagEnv \<Rightarrow> pem_block \<Rightarrow> certificate list" where
  "caOf D b = (if BlockType b = ''CERTIFICATE'' \<and> Headers b = [] then (case dParse D (Bytes b) of Inl c \<Rightarrow> [c] | Inr _ \<Rightarrow> []) else [])"

lemma caLoop_spec:
  assumes "decode_shrinks (dLoader D)" and "length p \<le> n"
  shows "caLoop D p certs = Some (certs @ concat (map (caOf D) (decodeAll (dLoader D) n p)))"
  using assms(2)
proof (induction n arbitrary: p certs)
  case 0
  then show ?case by (simp add: caLoop.simps)
next
  case (Suc n)
  show ?case
  proof (cases "p = [] \<or> pemDecode (dLoader D) p = None")
    case True
    then show ?thesis by (auto simp: caLoop.simps [of D p])
  next
    case False
    then obtain b rest where d: "pemDecode (dLoader D) p = Some (b, rest)" by auto
    then have "length rest \<le> n" using assms(1) Suc.prems unfolding decode_shrinks_def by fastforce
    then show ?thesis
      using False d Suc.IH [of rest] by (auto simp: caLoop.simps [of D p] caOf_def split: sum.split)
  qed
qed

lemma getCACerts_returns: "decode_shrinks (dLoader D) \<Longrightarrow> \<exists>r. getCACerts D ca = Some r \<and> r \<noteq> Panic"
  by (auto simp: getCACerts_def NewPEMReader_def caLoop_spec [OF _ order_refl] split: option.splits outcome.splits
      elim: readAll.elims)

lemma caLines_returns: "decode_shrinks (dLoader D) \<Longrightarrow> \<exists>ls. caLines D pfx i cas = Some (Ok ls)"
proof (induction cas arbitrary: i)
  case (Cons ca cas)
  obtain r where "getCACerts D ca = Some r" "r \<noteq> Panic" using getCACerts_returns [OF Cons.prems] by blast
  then show ?case using Cons.IH [OF Cons.prems, of i] Cons.IH [OF Cons.prems, of "i + length (case r of Ok cs \<Rightarrow> cs | _ \<Rightarrow> [])"]
    by (cases r) (auto simp: bindCall_def)
qed simp

lemma diagCAs_returns: "decode_shrinks (dLoader D) \<Longrightarrow> \<exists>ls. diagCAs D pfx cas = Some (Ok ls)"
  using caLines_returns [of D "pfx @ ''CertificateAuthorities: ''" 0 cas] by (auto simp: diagCAs_def Let_def bindCall_def)

text \<open>A report is always made.\<close>

lemma encodeAll_no_panic [simp]: "encodeAll L bs buffer \<noteq> Panic"
  by (induction bs arbitrary: buffer) (auto split: option.split)

lemma readAll_no_panic [simp]: "readAll r \<noteq> Panic"
  by (cases r rule: readAll.cases) auto

lemma pemLoop_returns:
  assumes "decode_shrinks L"
  shows "\<exists>r. pemLoop L pass c [] [] = Some r \<and> r \<noteq> Panic"
  using pemLoop_spec [OF assms order_refl, of pass c "[]" "[]"] by (auto simp: Let_def split: if_splits)

lemma ReadPEMFile_returns:
  assumes "decode_shrinks L"
  shows "\<exists>r. ReadPEMFile L s pass = Some r \<and> r \<noteq> Panic"
proof (cases "bind_outcome (NewPEMReader L s) readAll")
  case (Ok content)
  obtain r where "pemLoop L pass content [] [] = Some r" "r \<noteq> Panic" using pemLoop_returns [OF assms] by blast
  then show ?thesis using Ok by (cases r) (auto simp: ReadPEMFile_def)
qed (auto simp: ReadPEMFile_def NewPEMReader_def split: if_splits option.splits)

lemma bindCall_no_panic:
  "\<exists>x. r = Some x \<and> x \<noteq> Panic \<Longrightarrow> (\<And>y. r = Some (Ok y) \<Longrightarrow> \<exists>x. f y = Some x \<and> x \<noteq> Panic) \<Longrightarrow> \<exists>x. bindCall r f = Some x \<and> x \<noteq> Panic"
  by (auto simp: bindCall_def split: outcome.splits)

lemma withText_no_panic: "\<exists>x. r = Some x \<and> x \<noteq> Panic \<Longrightarrow> \<exists>x. withText show sfx r = Some x \<and> x \<noteq> Panic"
  by (auto simp: withText_def split: outcome.splits)

lemma LoadCertificateText_returns:
  assumes "decode_shrinks L"
  shows "\<exists>r. LoadCertificateText show L c = Some r \<and> r \<noteq> Panic"
proof -
  have "readPassphrase L c \<noteq> Panic" "CertificateConfig_Validate c \<noteq> Panic"
    by (auto simp: readPassphrase_def CertificateConfig_Validate_def Let_def split: option.split)
  then show ?thesis
    unfolding LoadCertificateText_def
    by (auto intro!: bindCall_no_panic withText_no_panic ReadPEMFile_returns [OF assms] split: outcome.split option.split)
qed

lemma diagCertificate_returns:
  assumes "decode_shrinks (dLoader D)"
  shows "\<exists>ls. diagCertificate D pfx cfg = Some (Ok ls)"
proof (cases cfg)
  case (Some c)
  obtain r where "LoadCertificateText (dErr D) (dLoader D) c = Some r" "r \<noteq> Panic"
    using LoadCertificateText_returns [OF assms] by blast
  then show ?thesis using Some by (cases r) (auto simp: diagCertificate_def Let_def split: option.split)
qed (simp add: diagCertificate_def Let_def)

lemma diagFiles_split:
  assumes "decode_shrinks (dLoader D)"
  shows "\<exists>c a. diagCertificate D pfx (Some cert) = Some (Ok c) \<and> diagCAs D pfx cas = Some (Ok a) \<and> diagFiles D pfx cert cas b = Some (Ok (b @ c @ a))"
  using diagCertificate_returns [OF assms, of pfx "Some cert"] diagCAs_returns [OF assms, of pfx cas] by (auto simp: diagFiles_def bindCall_def)

text \<open>A key pair that loads is described by its certificates only.\<close>

lemma diagCertificate_public:
  assumes "LoadCertificate (dLoader D) c = Some (Ok (Some kp))" and "LoadCertificate (dLoader D) c' = Some (Ok (Some kp'))"
    and "certDER kp = certDER kp'"
  shows "diagCertificate D pfx (Some c) = diagCertificate D pfx (Some c')"
  using assms by (simp add: diagCertificate_def Let_def LoadCertificateText_Ok [of "dErr D", symmetric])

lemma sublist_logLine: "go_contains (pre @ logLine pfx (m @ x)) x"
  by (metis append.assoc logLine_def sublist_appendI)

text \<open>The setting of a key that cannot be read is part of the report.\<close>

lemma diagCertificate_key:
  assumes "Certificate c \<noteq> []" and "Key c \<noteq> []" and "readPassphrase (dLoader D) c = Ok pass"
    and "ReadPEMFile (dLoader D) (Certificate c) pass = Some (Ok certPEM)" and "ReadPEMFile (dLoader D) (Key c) pass = Some (Err e)"
  shows "\<exists>r. diagCertificate D pfx (Some c) = Some (Ok r) \<and> go_contains r (Key c)"
proof -
  have "LoadCertificateText (dErr D) (dLoader D) c = Some (Err (dErr D e @ '' '' @ Key c))"
    using assms by (simp add: LoadCertificateText_def CertificateConfig_Validate_def bindCall_def withText_def)
  then have "\<exists>pre. diagCertificate D pfx (Some c) =
      Some (Ok (pre @ logLine (pfx @ ''CertificateSettings: '') ((''certificate keypair error: '' @ dErr D e @ '' '') @ Key c)))"
    by (simp add: diagCertificate_def Let_def)
  then show ?thesis using sublist_logLine by metis
qed

section \<open>Properties\<close>

text \<open>
  C26. A diagnostic report about a client's settings is always made. If the key pair loads, the report depends on its certificates only:
  settings that differ in key and passphrase but load the same certificates have the same report. If the certificate can be
  read and the key cannot, for instance because its passphrase is wrong, the report contains the setting of the key, which is the
  private key itself when it is given inline.
\<close>

theorem DiagCerts_secrets:
  assumes "decode_shrinks (dLoader D)"
  shows "(\<exists>r. Config_DiagCerts D cfg = Some (Ok r)) \<and>
    (\<forall>c k kp kp'. LoadCertificate (dLoader D) (CertConfig c) = Some (Ok (Some kp)) \<and> LoadCertificate (dLoader D) k = Some (Ok (Some kp')) \<and>
       certDER kp = certDER kp' \<longrightarrow> Config_DiagCerts D (Some (c\<lparr>CertConfig := k\<rparr>)) = Config_DiagCerts D (Some c)) \<and>
    (\<forall>c pass certPEM e. cfg = Some c \<and> Certificate (CertConfig c) \<noteq> [] \<and> Key (CertConfig c) \<noteq> [] \<and> readPassphrase (dLoader D) (CertConfig c) = Ok pass \<and>
       ReadPEMFile (dLoader D) (Certificate (CertConfig c)) pass = Some (Ok certPEM) \<and>
       ReadPEMFile (dLoader D) (Key (CertConfig c)) pass = Some (Err e) \<longrightarrow>
       (\<exists>r. Config_DiagCerts D cfg = Some (Ok r) \<and> go_contains r (Key (CertConfig c))))"
proof (intro conjI allI impI)
  show "\<exists>r. Config_DiagCerts D cfg = Some (Ok r)"
    by (cases cfg) (use diagFiles_split [OF assms] in \<open>fastforce simp: Config_DiagCerts_def\<close>)+
next
  fix c :: Config and k kp kp'
  assume "LoadCertificate (dLoader D) (CertConfig c) = Some (Ok (Some kp)) \<and> LoadCertificate (dLoader D) k = Some (Ok (Some kp')) \<and> certDER kp = certDER kp'"
  then show "Config_DiagCerts D (Some (c\<lparr>CertConfig := k\<rparr>)) = Config_DiagCerts D (Some c)"
    using diagCertificate_public [of D "CertConfig c" kp k kp'] by (simp add: Config_DiagCerts_def clientHead_def diagFiles_def)
next
  fix c :: Config and pass certPEM e
  assume A: "cfg = Some c \<and> Certificate (CertConfig c) \<noteq> [] \<and> Key (CertConfig c) \<noteq> [] \<and> readPassphrase (dLoader D) (CertConfig c) = Ok pass \<and>
       ReadPEMFile (dLoader D) (Certificate (CertConfig c)) pass = Some (Ok certPEM) \<and> ReadPEMFile (dLoader D) (Key (CertConfig c)) pass = Some (Err e)"
  then obtain r where r: "diagCertificate D ''tlscommon.Config: '' (Some (CertConfig c)) = Some (Ok r)" "go_contains r (Key (CertConfig c))"
    using diagCertificate_key by blast
  obtain b a where "Config_DiagCerts D cfg = Some (Ok (b @ r @ a))"
    using diagFiles_split [OF assms, of "''tlscommon.Config: ''" "CertConfig c" "CAs c"] r(1) A by (fastforce simp: Config_DiagCerts_def)
  then show "\<exists>r. Config_DiagCerts D cfg = Some (Ok r) \<and> go_contains r (Key (CertConfig c))"
    using r(2) by (metis sublist_appendI sublist_order.order_trans)
qed

definition toy_diag :: diagEnv where
  "toy_diag = \<lparr>dLib = \<lparr>verify = (\<lambda>_ _ _ _. None), sha256 = id, base64 = id, hexDecode = (\<lambda>_. None), parseIP = (\<lambda>_. None)\<rparr>,
     dLoader = toy_loader\<lparr>pemDecode := (\<lambda>c. if c = [] then None else
       Some (\<lparr>BlockType = if c = ''-'' then ''CERTIFICATE'' else ''ENCRYPTED PRIVATE KEY'', Headers = [], Bytes = c\<rparr>, []))\<rparr>,
     dInfo = (\<lambda>_. \<lparr>ciSubject = [], ciIssuer = [], ciBasicConstraintsValid = True, ciNotBefore = [], ciNotAfter = [], ciIPs = [], ciURIs = []\<rparr>),
     dErr = (\<lambda>_. ''error''), dParse = (\<lambda>_. Inl toy_ca), dNow = ''now''\<rparr>"

definition toy_client :: Config where
  "toy_client = \<lparr>Enabled = None, VerificationMode = VerifyFull, Versions = [], CipherSuites = [], CAs = [],
     CertConfig = \<lparr>Certificate = ''-'', Key = ''-secret'', Passphrase = [], PassphrasePath = []\<rparr>, CurveTypes = [], cfgCASha256 = [],
     cfgRenegotiation = 0, cfgTrustedFingerprint = []\<rparr>"

theorem DiagCerts_secrets_witness: "\<exists>r. Config_DiagCerts toy_diag (Some toy_client) = Some (Ok r) \<and> go_contains r ''-secret''"
proof -
  have pem: "IsPEMString (CHR ''-'' # s)" for s
    by (simp add: IsPEMString.simps decodeRune_def isSpaceRune_def)
  have "decode_shrinks (dLoader toy_diag)" by (auto simp: decode_shrinks_def toy_diag_def split: if_splits)
  moreover have "readPassphrase (dLoader toy_diag) (CertConfig toy_client) = Ok []" by (simp add: readPassphrase_def toy_client_def)
  moreover have "ReadPEMFile (dLoader toy_diag) ''-'' [] = Some (Ok ''-'')"
    by (simp add: ReadPEMFile_def NewPEMReader_def pem toy_diag_def toy_loader_def pemLoop.simps decryptBlock_def IsEncryptedPEMBlock_def)
  moreover have "\<exists>e. ReadPEMFile (dLoader toy_diag) ''-secret'' [] = Some (Err e)"
    by (simp add: ReadPEMFile_def NewPEMReader_def pem toy_diag_def toy_loader_def pemLoop.simps decryptBlock_def IsEncryptedPEMBlock_def decryptPKCS8Key_def)
  ultimately show ?thesis using DiagCerts_secrets [of toy_diag "Some toy_client"] by (fastforce simp: toy_client_def)
qed

end
