(* ===== verification/Http_Diag.thy ===== *)
theory Http_Diag
  imports Httpcommon Tls_Diag
begin

text \<open>
  The diagnostics of HTTP requests (src/transport/httpcommon/diag.go): the report of sending requests with traced round trips, and
  the explanation of errors. The round trip is an argument that gives the events of \<open>httptrace\<close> with its result; the logger adds a
  time stamp to every line.
\<close>

section \<open>Explaining errors\<close>

text \<open>
  An error is the chain that unwrapping it gives, each with its kind and its text; the field \<open>Err\<close> of an \<open>OpError\<close> and of
  a \<open>url.Error\<close> is the next of the chain, and reading the text of a missing one panics.
\<close>

datatype errKind = UnsupportedAlgorithm | OpError | UnknownAuthority | CertificateInvalid | CertificateVerification | URLError | OtherError

type_synonym errChain = "(errKind \<times> string) list"

fun errorsAs :: "errKind \<Rightarrow> errChain \<Rightarrow> errChain option" where
  "errorsAs k [] = None"
| "errorsAs k (e # es) = (if fst e = k then Some (e # es) else errorsAs k es)"

definition errText :: "errChain \<Rightarrow> (unit, string) outcome" where
  "errText es = (case es of [] \<Rightarrow> Panic | e # _ \<Rightarrow> Ok (snd e))"

text \<open>The texts by which the last test tells errors of a URL apart, in its order.\<close>

definition urlCauses :: "(string \<times> string) list" where
  "urlCauses =
     [(''http: server gave HTTP response to HTTPS client'', '': caused by using HTTPS schema on HTTP server.''),
      (''remote error: tls: certificate required'', '':  caused by missing mTLS client cert.''),
      (''remote error: tls: expired certificate'', '': caused by expired mTLS client cert.''),
      (''remote error: tls: bad certificate'', '': caused by invalid mTLS client cert, does the server trust the CA used for the client cert?.'')]"

definition diagURL :: "errChain \<Rightarrow> (unit, string) outcome" where
  "diagURL err =
     (case errorsAs URLError err of
        None \<Rightarrow> errText err
      | Some u \<Rightarrow>
          bind_outcome (errText (tl u)) (\<lambda>errString.
            case find (\<lambda>(pat, _). go_contains errString pat) urlCauses of
              Some (_, cause) \<Rightarrow> bind_outcome (errText u) (\<lambda>t. Ok (t @ cause))
            | None \<Rightarrow> errText err))"

definition diagCert :: "errChain \<Rightarrow> (unit, string) outcome" where
  "diagCert err =
     (case errorsAs UnknownAuthority err of
        Some _ \<Rightarrow> bind_outcome (errText err) (\<lambda>t. Ok (t @ '': caused by no trusted client CA.''))
      | None \<Rightarrow>
          (case errorsAs CertificateInvalid err of
             Some c \<Rightarrow> bind_outcome (errText c) (\<lambda>t. Ok (t @ '': caused by invalid server certificate.''))
           | None \<Rightarrow>
               (case errorsAs CertificateVerification err of
                  Some v \<Rightarrow> bind_outcome (errText v) (\<lambda>t. Ok (t @ '': possible cause: client TLS settings incorrect.''))
                | None \<Rightarrow> diagURL err)))"

definition diagError :: "errChain \<Rightarrow> (unit, string) outcome" where
  "diagError err =
     (case errorsAs UnsupportedAlgorithm err of
        Some _ \<Rightarrow> bind_outcome (errText err) (\<lambda>t. Ok (t @ '': caused by client does not support server'' @ [CHR 0x27] @ ''s signature algorithm.''))
      | None \<Rightarrow>
          (case errorsAs OpError err of
             Some n \<Rightarrow>
               bind_outcome (errText (tl n)) (\<lambda>inner.
                 if inner = ''read: connection reset by peer''
                 then bind_outcome (errText n) (\<lambda>t. Ok (t @ '': possible cause: HTTP schema used for HTTPS server.''))
                 else diagCert err)
           | None \<Rightarrow> diagCert err))"

section \<open>Traced requests\<close>

datatype traceEvent =
    GetConn string | GotConn string | GotFirstResponseByte | Got1xxResponse int string | DNSStart string | DNSDone string
  | ConnectStart string string | ConnectDone string string string | TLSHandshakeStart
  | TLSHandshakeDone string connectionState string | WroteHeaders | Wait100Continue | WroteRequest string

text \<open>\<open>%q\<close> is an argument; values that are printed with \<open>%v\<close> are given as their texts.\<close>

fun peerLines :: "diagEnv \<Rightarrow> nat \<Rightarrow> certificate list \<Rightarrow> string list" where
  "peerLines D i [] = []"
| "peerLines D i (c # cs) =
     (''- Peer Certificate '' @ go_itoa i @ [CHR 0x0A, CHR 0x09] @ CertDiagString D (Some c)) # peerLines D (Suc i) cs"

fun chainLines :: "diagEnv \<Rightarrow> nat \<Rightarrow> nat \<Rightarrow> certificate list \<Rightarrow> string list" where
  "chainLines D i j [] = []"
| "chainLines D i j (c # cs) =
     (''- Chain '' @ go_itoa i @ '' certificate '' @ go_itoa j @ [CHR 0x0A, CHR 0x09] @ CertDiagString D (Some c)) # chainLines D i (Suc j) cs"

fun chainsLines :: "diagEnv \<Rightarrow> nat \<Rightarrow> certificate list list \<Rightarrow> string list" where
  "chainsLines D i [] = []"
| "chainsLines D i (ch # chs) = chainLines D i 0 ch @ chainsLines D (Suc i) chs"

fun traceLines :: "diagEnv \<Rightarrow> (string \<Rightarrow> string) \<Rightarrow> traceEvent \<Rightarrow> string list" where
  "traceLines D quote (GetConn hostPort) = [''GetConn called for '' @ quote hostPort]"
| "traceLines D quote (GotConn addr) = [''GotConn for '' @ quote addr]"
| "traceLines D quote GotFirstResponseByte = [''Response started'']"
| "traceLines D quote (Got1xxResponse code header) = [''Got info response status='' @ itoaInt code @ '', headers='' @ header]"
| "traceLines D quote (DNSStart host) = [''Starting DNS lookup for '' @ quote host]"
| "traceLines D quote (DNSDone info) = [''Done DNS lookup: '' @ info]"
| "traceLines D quote (ConnectStart network addr) = [''Connection started to '' @ network @ '':'' @ addr]"
| "traceLines D quote (ConnectDone network addr err) = [''Connection to '' @ network @ '':'' @ addr @ '' done, err: '' @ err]"
| "traceLines D quote TLSHandshakeStart = [''TLS handshake starting'']"
| "traceLines D quote (TLSHandshakeDone shown state err) =
     [''TLS handshake done. state='' @ shown @ '' err='' @ err, ''Peer certificate count '' @ go_itoa (length (PeerCertificates state))] @
     peerLines D 0 (PeerCertificates state) @
     [''Verified chains count: '' @ go_itoa (length (VerifiedChains state))] @ chainsLines D 0 (VerifiedChains state)"
| "traceLines D quote WroteHeaders = [''Wrote request headers'']"
| "traceLines D quote Wait100Continue = [''Waiting for continue'']"
| "traceLines D quote (WroteRequest err) = [''Wrote request err='' @ err]"

definition isGoHTTPResp :: "httpResponse \<Rightarrow> bool" where
  "isGoHTTPResp r =
     (if StatusCode r \<noteq> 400 then False
      else (case bodyErr r of
              Some _ \<Rightarrow> False
            | None \<Rightarrow> bodyData r = ''Client sent an HTTP request to an HTTPS server.'' @ [CHR 0x0A]))"

text \<open>A request is its URL as text and the round trip of it.\<close>

fun requestLines ::
  "diagEnv \<Rightarrow> (string \<Rightarrow> string) \<Rightarrow> nat \<Rightarrow> (string \<times> ('w \<Rightarrow> 'w \<times> traceEvent list \<times> (httpResponse + errChain))) list \<Rightarrow> 'w \<Rightarrow>
     'w \<times> (unit, string list) outcome" where
  "requestLines D quote i [] w = (w, Ok [])"
| "requestLines D quote i ((url, trip) # reqs) w =
     (case trip w of (w', trace, result) \<Rightarrow>
        (case (case result of
                 Inr err \<Rightarrow> bind_outcome (diagError err) (\<lambda>t. Ok (''request '' @ go_itoa i @ '' error: '' @ t))
               | Inl resp \<Rightarrow>
                   if isGoHTTPResp resp then Ok (''request '' @ go_itoa i @ '' error: HTTP request sent to HTTPS server.'')
                   else Ok (''request '' @ go_itoa i @ '' successful. status='' @ go_itoa (StatusCode resp))) of
           Ok line \<Rightarrow>
             (case requestLines D quote (Suc i) reqs w' of (w'', rest) \<Rightarrow>
                (w'', bind_outcome rest (\<lambda>ls. Ok ((''Request '' @ go_itoa i @ '' to '' @ url @ '' starting'') # concat (map (traceLines D quote) trace) @ [line] @ ls))))
         | Err e \<Rightarrow> (w', Err e)
         | Panic \<Rightarrow> (w', Panic)))"

text \<open>The lines before the requests; the URL of the proxy is printed with its user and password.\<close>

definition settingsLines :: "(URL \<Rightarrow> string) \<Rightarrow> HTTPTransportSettings \<Rightarrow> string list" where
  "settingsLines render s =
     [if STLS s = None then ''No TLS settings'' else ''TLS settings detected'',
      ''Proxy disable='' @ showBool (PDisable (SProxy s)) @ '' url='' @ (case PURL (SProxy s) of None \<Rightarrow> ''<nil>'' | Some u \<Rightarrow> render u)]"

text \<open>Every line has the date and time at which it was written.\<close>

fun stampLines :: "(nat \<Rightarrow> string) \<Rightarrow> nat \<Rightarrow> string list \<Rightarrow> string" where
  "stampLines stamp i [] = []"
| "stampLines stamp i (l # ls) = logLine (stamp i) l @ stampLines stamp (Suc i) ls"

definition DiagRequests ::
  "diagEnv \<Rightarrow> (string \<Rightarrow> string) \<Rightarrow> (URL \<Rightarrow> string) \<Rightarrow> (nat \<Rightarrow> string) \<Rightarrow> (unit + string) \<Rightarrow> HTTPTransportSettings option \<Rightarrow>
     (string \<times> ('w \<Rightarrow> 'w \<times> traceEvent list \<times> (httpResponse + errChain))) list \<Rightarrow> 'w \<Rightarrow> 'w \<times> (unit, string) outcome" where
  "DiagRequests D quote render stamp roundTripper settings reqs w =
     (case settings of
        None \<Rightarrow> (w, Ok ''error: nil httpcommon.HTTPTransportSettings'')
      | Some s \<Rightarrow>
          if length reqs = 0 then (w, Ok ''error: 0 requests'')
          else (case roundTripper of
                  Inr err \<Rightarrow> (w, Ok (''unable to get roundtripper: '' @ err))
                | Inl _ \<Rightarrow>
                    (case requestLines D quote 0 reqs w of (w', r) \<Rightarrow>
                       (w', bind_outcome r (\<lambda>ls. Ok (stampLines stamp 0 (settingsLines render s @ ls)))))))"

section \<open>Laws\<close>

text \<open>An error that is not empty and in which an \<open>OpError\<close> or a \<open>url.Error\<close> wraps another.\<close>

definition complete :: "errChain \<Rightarrow> bool" where
  "complete err \<longleftrightarrow> err \<noteq> [] \<and> (\<forall>n. errorsAs OpError err = Some n \<longrightarrow> tl n \<noteq> []) \<and> (\<forall>n. errorsAs URLError err = Some n \<longrightarrow> tl n \<noteq> [])"

lemma errorsAs_part: "errorsAs k err = Some n \<Longrightarrow> n \<noteq> [] \<and> fst (hd n) = k \<and> (\<exists>pre. err = pre @ n)"
proof (induction err)
  case (Cons e es)
  then show ?case
  proof (cases "fst e = k")
    case False
    then obtain pre where "es = pre @ n" "n \<noteq> []" "fst (hd n) = k" using Cons by auto
    then show ?thesis by (metis append_Cons)
  qed auto
qed simp

lemma errText_in: "n \<noteq> [] \<Longrightarrow> errText n = Ok (snd (hd n)) \<and> hd n \<in> set n"
  by (cases n) (auto simp: errText_def)

lemma part_in: "errorsAs k err = Some n \<Longrightarrow> errText n = Ok (snd (hd n)) \<and> hd n \<in> set err"
  using errorsAs_part [of k err n] errText_in [of n] by auto

text \<open>The explanation starts with the text of one of the errors of the chain, and explaining does not fail.\<close>

lemma diagURL_text: "complete err \<Longrightarrow> \<exists>e \<in> set err. \<exists>cause. diagURL err = Ok (snd e @ cause)"
proof (cases "errorsAs URLError err")
  case None
  then show "complete err \<Longrightarrow> ?thesis" using errText_in [of err] by (force simp: diagURL_def complete_def)
next
  case (Some u)
  assume c: "complete err"
  then obtain inner where "errText (tl u) = Ok inner" using Some errText_in [of "tl u"] by (auto simp: complete_def)
  then have d: "diagURL err = (case find (\<lambda>(pat, _). go_contains inner pat) urlCauses of
      Some (_, cause) \<Rightarrow> bind_outcome (errText u) (\<lambda>t. Ok (t @ cause)) | None \<Rightarrow> errText err)" by (simp add: diagURL_def Some)
  have e: "errText err = Ok (snd (hd err) @ [])" "hd err \<in> set err" using c errText_in [of err] by (auto simp: complete_def)
  have u: "errText u = Ok (snd (hd u))" "hd u \<in> set err" using part_in [OF Some] by auto
  show ?thesis
  proof (cases "find (\<lambda>(pat, _). go_contains inner pat) urlCauses")
    case None
    then have "diagURL err = Ok (snd (hd err) @ [])" using d e(1) by simp
    then show ?thesis using e(2) by blast
  next
    case (Some r)
    then have "diagURL err = Ok (snd (hd u) @ snd r)" using d u(1) by (simp split: prod.split)
    then show ?thesis using u(2) by blast
  qed
qed

lemma diagCert_text: "complete err \<Longrightarrow> \<exists>e \<in> set err. \<exists>cause. diagCert err = Ok (snd e @ cause)"
proof -
  assume c: "complete err"
  then have "errText err = Ok (snd (hd err))" "hd err \<in> set err" using errText_in [of err] by (auto simp: complete_def)
  then show ?thesis using diagURL_text [OF c] part_in [of CertificateInvalid err] part_in [of CertificateVerification err]
    by (cases "errorsAs UnknownAuthority err"; cases "errorsAs CertificateInvalid err"; cases "errorsAs CertificateVerification err")
      (auto simp: diagCert_def)
qed

theorem diagError_text:
  assumes "complete err"
  shows "\<exists>e \<in> set err. \<exists>cause. diagError err = Ok (snd e @ cause)"
proof -
  have err: "errText err = Ok (snd (hd err))" "hd err \<in> set err" using assms errText_in [of err] by (auto simp: complete_def)
  show ?thesis
  proof (cases "errorsAs UnsupportedAlgorithm err")
    case Some
    then show ?thesis using err by (force simp: diagError_def)
  next
    case None
    then show ?thesis
    proof (cases "errorsAs OpError err")
      case (Some n)
      then obtain inner where "errText (tl n) = Ok inner" using assms errText_in [of "tl n"] by (auto simp: complete_def)
      then show ?thesis using None Some part_in [OF Some] diagCert_text [OF assms] by (auto simp: diagError_def)
    qed (use None diagCert_text [OF assms] in \<open>simp add: diagError_def\<close>)
  qed
qed

lemma diagError_panics: "diagError [(OpError, t)] = Panic" "diagError [(URLError, t)] = Panic"
  by (simp_all add: diagError_def diagCert_def diagURL_def errText_def)

lemma requestLines_returns:
  assumes "\<And>url trip w w' trace err. (url, trip) \<in> set reqs \<Longrightarrow> trip w = (w', trace, Inr err) \<Longrightarrow> complete err"
  shows "\<exists>ls. snd (requestLines D quote i reqs w) = Ok ls"
  using assms
proof (induction reqs arbitrary: i w)
  case (Cons r reqs)
  obtain url trip where r: "r = (url, trip)" by (cases r)
  obtain w' trace res where t: "trip w = (w', trace, res)" by (metis surj_pair)
  have "\<exists>ls. snd (requestLines D quote (Suc i) reqs w') = Ok ls" using Cons by (metis list.set_intros(2))
  then obtain w2 ls where rest: "requestLines D quote (Suc i) reqs w' = (w2, Ok ls)" by (metis prod.collapse)
  show ?case
  proof (cases res)
    case (Inr err)
    then have "complete err" using Cons.prems [of url trip] r t by auto
    then obtain t1 where "diagError err = Ok t1" using diagError_text by blast
    then show ?thesis using r t rest Inr by simp
  qed (use r t rest in simp)
qed simp

text \<open>The report gives away the user and the password of a proxy, since the URL is printed as it is.\<close>

lemma settings_printed: "l \<in> set ls \<Longrightarrow> go_contains (stampLines stamp i ls) l"
proof (induction ls arbitrary: i)
  case (Cons k ls)
  then show ?case
  proof (cases "l = k")
    case True
    then show ?thesis using sublist_logLine [of k "[]" "stamp i" "[]"] by (auto intro: sublist_append_rightI sublist_order.order_trans)
  next
    case False
    then show ?thesis using Cons by (auto intro: sublist_append_leftI sublist_order.order_trans)
  qed
qed simp

lemma DiagRequests_proxy:
  assumes "DiagRequests D quote render stamp (Inl ()) (Some s) reqs w = (w', Ok report)" and "reqs \<noteq> []" and "PURL (SProxy s) = Some u"
  shows "go_contains report (render u)"
proof -
  let ?line = "(''Proxy disable='' @ showBool (PDisable (SProxy s)) @ '' url='') @ render u"
  obtain ls where "report = stampLines stamp 0 (settingsLines render s @ ls)"
    using assms by (auto simp: DiagRequests_def split: prod.splits)
  moreover have "?line \<in> set (settingsLines render s)" using assms(3) by (simp add: settingsLines_def)
  ultimately have "go_contains report ?line" using settings_printed by (metis UnCI set_append)
  then show ?thesis using sublist_append_leftI sublist_order.order_trans by blast
qed

end
