(* ===== verification/Histogram.thy ===== *)
theory Histogram
  imports Adapter
begin

text \<open>
  The histogram of package \<open>monitoring/adapter\<close> that is cleared when it is visited (src/monitoring/adapter/histogram.go), its snapshot,
  and the visit (go-metrics-wrapper.go) in its two accesses: taking the snapshot and clearing. The sample of go-metrics is an
  argument; \<open>smSnapshot\<close> is None for a sample whose snapshot is not a \<open>SampleSnapshot\<close>.
\<close>

section \<open>The histogram\<close>

record 's sampleOps =
  smClear :: "'s \<Rightarrow> 's"
  smCount :: "'s \<Rightarrow> int"
  smMax :: "'s \<Rightarrow> int"
  smMean :: "'s \<Rightarrow> 64 word"
  smMin :: "'s \<Rightarrow> int"
  smPercentile :: "'s \<Rightarrow> nat \<Rightarrow> 64 word"
  smPercentiles :: "'s \<Rightarrow> nat list \<Rightarrow> 64 word list"
  smSnapshot :: "'s \<Rightarrow> 's option"
  smStdDev :: "'s \<Rightarrow> 64 word"
  smSum :: "'s \<Rightarrow> int"
  smUpdate :: "int \<Rightarrow> 's \<Rightarrow> 's"
  smVariance :: "'s \<Rightarrow> 64 word"

record 's ClearOnVisitHistogram =
  hSample :: 's

record 's ClearOnVisitHistogramSnapshot =
  hsSample :: 's

definition NewClearOnVisitHistogram :: "'s \<Rightarrow> 's ClearOnVisitHistogram" where
  "NewClearOnVisitHistogram s = \<lparr>hSample = s\<rparr>"

definition hClear :: "'s sampleOps \<Rightarrow> 's ClearOnVisitHistogram \<Rightarrow> 's ClearOnVisitHistogram" where
  "hClear S h = h\<lparr>hSample := smClear S (hSample h)\<rparr>"

definition hUpdate :: "'s sampleOps \<Rightarrow> int \<Rightarrow> 's ClearOnVisitHistogram \<Rightarrow> 's ClearOnVisitHistogram" where
  "hUpdate S v h = h\<lparr>hSample := smUpdate S v (hSample h)\<rparr>"

definition hSnapshot :: "'s sampleOps \<Rightarrow> 's ClearOnVisitHistogram \<Rightarrow> (unit, 's ClearOnVisitHistogramSnapshot) outcome" where
  "hSnapshot S h = (case smSnapshot S (hSample h) of None \<Rightarrow> Panic | Some n \<Rightarrow> Ok \<lparr>hsSample = n\<rparr>)"

definition hCount :: "'s sampleOps \<Rightarrow> 's ClearOnVisitHistogram \<Rightarrow> int" where
  "hCount S h = smCount S (hSample h)"

definition hMax :: "'s sampleOps \<Rightarrow> 's ClearOnVisitHistogram \<Rightarrow> int" where
  "hMax S h = smMax S (hSample h)"

definition hMean :: "'s sampleOps \<Rightarrow> 's ClearOnVisitHistogram \<Rightarrow> 64 word" where
  "hMean S h = smMean S (hSample h)"

definition hMin :: "'s sampleOps \<Rightarrow> 's ClearOnVisitHistogram \<Rightarrow> int" where
  "hMin S h = smMin S (hSample h)"

definition hStdDev :: "'s sampleOps \<Rightarrow> 's ClearOnVisitHistogram \<Rightarrow> 64 word" where
  "hStdDev S h = smStdDev S (hSample h)"

definition hSum :: "'s sampleOps \<Rightarrow> 's ClearOnVisitHistogram \<Rightarrow> int" where
  "hSum S h = smSum S (hSample h)"

definition hVariance :: "'s sampleOps \<Rightarrow> 's ClearOnVisitHistogram \<Rightarrow> 64 word" where
  "hVariance S h = smVariance S (hSample h)"

definition hPercentile :: "'s sampleOps \<Rightarrow> 's ClearOnVisitHistogram \<Rightarrow> nat \<Rightarrow> 64 word" where
  "hPercentile S h p = smPercentile S (hSample h) p"

definition hPercentiles :: "'s sampleOps \<Rightarrow> 's ClearOnVisitHistogram \<Rightarrow> nat list \<Rightarrow> 64 word list" where
  "hPercentiles S h ps = smPercentiles S (hSample h) ps"

section \<open>Its snapshot\<close>

text \<open>A snapshot cannot be changed, and is its own snapshot.\<close>

definition hsClear :: "'s ClearOnVisitHistogramSnapshot \<Rightarrow> (unit, 's ClearOnVisitHistogramSnapshot) outcome" where
  "hsClear h = Panic"

definition hsUpdate :: "int \<Rightarrow> 's ClearOnVisitHistogramSnapshot \<Rightarrow> (unit, 's ClearOnVisitHistogramSnapshot) outcome" where
  "hsUpdate v h = Panic"

definition hsSnapshot :: "'s ClearOnVisitHistogramSnapshot \<Rightarrow> 's ClearOnVisitHistogramSnapshot" where
  "hsSnapshot h = h"

definition hsCount :: "'s sampleOps \<Rightarrow> 's ClearOnVisitHistogramSnapshot \<Rightarrow> int" where
  "hsCount S h = smCount S (hsSample h)"

definition hsMax :: "'s sampleOps \<Rightarrow> 's ClearOnVisitHistogramSnapshot \<Rightarrow> int" where
  "hsMax S h = smMax S (hsSample h)"

definition hsMean :: "'s sampleOps \<Rightarrow> 's ClearOnVisitHistogramSnapshot \<Rightarrow> 64 word" where
  "hsMean S h = smMean S (hsSample h)"

definition hsMin :: "'s sampleOps \<Rightarrow> 's ClearOnVisitHistogramSnapshot \<Rightarrow> int" where
  "hsMin S h = smMin S (hsSample h)"

definition hsStdDev :: "'s sampleOps \<Rightarrow> 's ClearOnVisitHistogramSnapshot \<Rightarrow> 64 word" where
  "hsStdDev S h = smStdDev S (hsSample h)"

definition hsSum :: "'s sampleOps \<Rightarrow> 's ClearOnVisitHistogramSnapshot \<Rightarrow> int" where
  "hsSum S h = smSum S (hsSample h)"

definition hsVariance :: "'s sampleOps \<Rightarrow> 's ClearOnVisitHistogramSnapshot \<Rightarrow> 64 word" where
  "hsVariance S h = smVariance S (hsSample h)"

definition hsPercentile :: "'s sampleOps \<Rightarrow> 's ClearOnVisitHistogramSnapshot \<Rightarrow> nat \<Rightarrow> 64 word" where
  "hsPercentile S h p = smPercentile S (hsSample h) p"

definition hsPercentiles :: "'s sampleOps \<Rightarrow> 's ClearOnVisitHistogramSnapshot \<Rightarrow> nat list \<Rightarrow> 64 word list" where
  "hsPercentiles S h ps = smPercentiles S (hsSample h) ps"

section \<open>The visit\<close>

text \<open>What the visitor is told about a snapshot; a position beyond the percentiles panics.\<close>

definition snapshotEvents :: "'s sampleOps \<Rightarrow> 's ClearOnVisitHistogramSnapshot \<Rightarrow> (unit, event list) outcome" where
  "snapshotEvents S h =
     (let ps = hsPercentiles S h [500, 990] in
      if length ps < 2 then Panic
      else Ok [OnRegistryStart, OnKey ''count'', OnInt (hsCount S h), OnKey ''min'', OnInt (hsMin S h),
         OnKey ''max'', OnInt (hsMax S h), OnKey ''median'', OnFloat (ps ! 0), OnKey ''p99'', OnFloat (ps ! 1), OnRegistryFinished])"

text \<open>The visit without a concurrent update.\<close>

definition visitHistogram :: "'s sampleOps \<Rightarrow> 's ClearOnVisitHistogram \<Rightarrow> (unit, 's ClearOnVisitHistogram \<times> event list) outcome" where
  "visitHistogram S h =
     bind_outcome (hSnapshot S h) (\<lambda>n.
       (let h' = hClear S h in bind_outcome (snapshotEvents S n) (\<lambda>es. Ok (h', es))))"

section \<open>Interleavings\<close>

text \<open>
  Updates by goroutines and the two accesses of the visits of one visitor, in any order. The state has the
  histogram, the snapshot of a visit that has not cleared yet, and the counts of the visits so far; the number of
  updates, and of those that came between a snapshot and its clear, are ghosts.
\<close>

record 's hstate =
  hist :: "'s ClearOnVisitHistogram"
  pending :: "int option"
  counts :: "int list"
  updates :: nat
  lost :: nat

inductive hstep :: "'s sampleOps \<Rightarrow> 's hstate \<Rightarrow> 's hstate \<Rightarrow> bool" for S where
  update: "hstep S s (s\<lparr>hist := hUpdate S v (hist s), updates := updates s + 1, lost := (if pending s = None then lost s else lost s + 1)\<rparr>)"
| snapshot: "pending s = None \<Longrightarrow> hSnapshot S (hist s) = Ok n \<Longrightarrow> hstep S s (s\<lparr>pending := Some (hsCount S n)\<rparr>)"
| clear: "pending s = Some c \<Longrightarrow> hstep S s (s\<lparr>hist := hClear S (hist s), pending := None, counts := counts s @ [c]\<rparr>)"

definition hinit :: "'s ClearOnVisitHistogram \<Rightarrow> 's hstate" where
  "hinit h = \<lparr>hist = h, pending = None, counts = [], updates = 0, lost = 0\<rparr>"

text \<open>What go-metrics documents of a sample: it counts the updates since it was cleared, and a snapshot has the count.\<close>

definition counting :: "'s sampleOps \<Rightarrow> bool" where
  "counting S \<longleftrightarrow> (\<forall>s. smCount S (smClear S s) = 0) \<and> (\<forall>s v. smCount S (smUpdate S v s) = smCount S s + 1) \<and>
     (\<forall>s n. smSnapshot S s = Some n \<longrightarrow> smCount S n = smCount S s)"

lemma hstep_invariant:
  assumes "counting S" and "smCount S (hSample h) = 0" and "(hstep S)\<^sup>*\<^sup>* (hinit h) s"
  shows "case pending s of
      None \<Rightarrow> sum_list (counts s) + smCount S (hSample (hist s)) + int (lost s) = int (updates s)
    | Some c \<Rightarrow> sum_list (counts s) + c + int (lost s) = int (updates s)"
  using assms(3)
proof (induction rule: rtranclp_induct)
  case base
  then show ?case using assms(2) by (simp add: hinit_def)
next
  case (step s s')
  note laws = assms(1) [unfolded counting_def]
  show ?case using step.hyps(2)
  proof cases
    case (update v)
    then show ?thesis using step.IH laws by (auto simp: hUpdate_def split: option.splits)
  next
    case (snapshot n)
    then show ?thesis using step.IH laws by (auto simp: hSnapshot_def hsCount_def split: option.splits)
  next
    case (clear c)
    then show ?thesis using step.IH laws by (auto simp: hClear_def)
  qed
qed

text \<open>
  The counts that visits report, with what is in the histogram, are all updates but those that came between the snapshot
  and the clear of a visit: these are lost.
\<close>

theorem visits_count:
  assumes "counting S" and "smCount S (hSample h) = 0" and "(hstep S)\<^sup>*\<^sup>* (hinit h) s" and "pending s = None"
  shows "sum_list (counts s) + smCount S (hSample (hist s)) + int (lost s) = int (updates s)"
  using hstep_invariant [OF assms(1-3)] assms(4) by simp

text \<open>A sample that keeps all values, and a run in which a visit loses an update.\<close>

definition listSample :: "int list sampleOps" where
  "listSample = \<lparr>smClear = (\<lambda>_. []), smCount = (\<lambda>s. int (length s)), smMax = (\<lambda>_. 0), smMean = (\<lambda>_. 0), smMin = (\<lambda>_. 0),
     smPercentile = (\<lambda>_ _. 0), smPercentiles = (\<lambda>_ ps. map (\<lambda>_. 0) ps), smSnapshot = Some, smStdDev = (\<lambda>_. 0), smSum = sum_list,
     smUpdate = (#), smVariance = (\<lambda>_. 0)\<rparr>"

lemma listSample_counting: "counting listSample"
  by (simp add: counting_def listSample_def)

lemma update_lost: "\<exists>s. (hstep listSample)\<^sup>*\<^sup>* (hinit (NewClearOnVisitHistogram [])) s \<and> updates s = 1 \<and> counts s = [0] \<and> hSample (hist s) = []"
proof -
  let ?s0 = "hinit (NewClearOnVisitHistogram ([] :: int list))"
  let ?s1 = "?s0\<lparr>pending := Some 0\<rparr>"
  let ?s2 = "?s1\<lparr>hist := hUpdate listSample 5 (hist ?s1), updates := 1, lost := 1\<rparr>"
  let ?s3 = "?s2\<lparr>hist := hClear listSample (hist ?s2), pending := None, counts := [0]\<rparr>"
  have "hstep listSample ?s0 ?s1"
    using hstep.snapshot [of ?s0 listSample "\<lparr>hsSample = []\<rparr>"]
    by (simp add: hinit_def NewClearOnVisitHistogram_def hSnapshot_def hsCount_def listSample_def)
  moreover have "hstep listSample ?s1 ?s2" using hstep.update [of listSample ?s1 5] by (simp add: hinit_def)
  moreover have "hstep listSample ?s2 ?s3" using hstep.clear [of ?s2 0 listSample] by (simp add: hinit_def)
  ultimately have "(hstep listSample)\<^sup>*\<^sup>* ?s0 ?s3" by (meson rtranclp.rtrancl_into_rtrancl rtranclp.rtrancl_refl)
  then show ?thesis by (intro exI [of _ ?s3]) (simp add: hClear_def listSample_def)
qed

end
