(* ===== verification/Service.thy ===== *)
theory Service
  imports Expvar
begin

text \<open>
  Package \<open>service\<close> (src/service/service.go, service_windows.go): stopping on signals, the service loop on Windows, profiling before
  and after the run, and the handler that serves metrics. The operating system, the profilers and formatting are
  arguments; the profile of the CPU and its file are part of the state, since the code loses the file.
\<close>

section \<open>Signals\<close>

text \<open>
  The goroutine that waits for a signal, in the places at which others may run: waiting, after the signal, after \<open>cancel\<close>, done. A request of
  the Windows service manager calls the same \<open>sync.Once\<close>.
\<close>

datatype sigPhase = SigWaiting | SigReceived | SigCancelled | SigDone

record sigState =
  sigPhase :: sigPhase
  winRequests :: nat
  onceDone :: bool
  cancels :: nat
  stops :: nat

definition HandleSignals :: sigState where
  "HandleSignals = \<lparr>sigPhase = SigWaiting, winRequests = 0, onceDone = False, cancels = 0, stops = 0\<rparr>"

definition callbackDo :: "sigState \<Rightarrow> sigState" where
  "callbackDo s = (if onceDone s then s else s\<lparr>onceDone := True, stops := stops s + 1\<rparr>)"

inductive sigStep :: "sigState \<Rightarrow> sigState \<Rightarrow> bool" where
  received: "sigPhase s = SigWaiting \<Longrightarrow> sigStep s (s\<lparr>sigPhase := SigReceived\<rparr>)"
| cancelled: "sigPhase s = SigReceived \<Longrightarrow> sigStep s (s\<lparr>sigPhase := SigCancelled, cancels := cancels s + 1\<rparr>)"
| stopped: "sigPhase s = SigCancelled \<Longrightarrow> sigStep s ((callbackDo s)\<lparr>sigPhase := SigDone\<rparr>)"
| windows: "sigStep s ((callbackDo s)\<lparr>winRequests := winRequests s + 1\<rparr>)"

section \<open>The service on Windows\<close>

datatype svcCmd = Interrogate string | Stop | Shutdown | OtherCmd nat
datatype svcStatus = StartPending | Running | CurrentStatus string | StopPending | Stopped

text \<open>The loop over the requests: the statuses sent and whether it ended; it waits for more when there are none.\<close>

fun controlLoop :: "svcCmd list \<Rightarrow> svcStatus list \<times> bool" where
  "controlLoop [] = ([], False)"
| "controlLoop (Interrogate st # cs) = (case controlLoop cs of (out, e) \<Rightarrow> ([CurrentStatus st, CurrentStatus st] @ out, e))"
| "controlLoop (Stop # cs) = ([], True)"
| "controlLoop (Shutdown # cs) = ([], True)"
| "controlLoop (OtherCmd n # cs) = controlLoop cs"

text \<open>
  \<open>Execute\<close> up to the point where it blocks: the statuses, whether the callback was called, and whether it returned. After
  the service was told to stop (\<open>notified\<close>) the other goroutine sends a shutdown after the requests it has passed on.
\<close>

definition Execute :: "svcCmd list \<Rightarrow> bool \<Rightarrow> svcStatus list \<times> bool \<times> bool" where
  "Execute reqs notified =
     (case controlLoop (reqs @ (if notified then [Shutdown] else [])) of
        (out, False) \<Rightarrow> ([StartPending, Running] @ out, False, False)
      | (out, True) \<Rightarrow> ([StartPending, Running] @ out @ [StopPending] @ (if notified then [Stopped] else []), True, notified))"

text \<open>Closing a closed channel panics.\<close>

definition notifyWindowsServiceStopped :: "bool \<Rightarrow> (unit, bool) outcome" where
  "notifyWindowsServiceStopped closed = (if closed then Panic else Ok True)"

section \<open>Profiles\<close>

record serviceState =
  memprofile :: string
  cpuprofile :: string
  httpprof :: string
  cpuOut :: "nat option"
  openFiles :: "nat list"
  profiling :: "nat option"

record serviceEnv =
  createFile :: "string \<Rightarrow> nat option"
  startCPU :: "nat \<Rightarrow> bool"
  listenTCP :: "string \<Rightarrow> bool"
  writeHeap :: "nat \<Rightarrow> bool"

datatype beforeRun = Exit nat serviceState | Serving serviceState | NotServing serviceState

definition withMemProfile :: "serviceState \<Rightarrow> bool" where
  "withMemProfile s \<longleftrightarrow> memprofile s \<noteq> []"

definition withCPUProfile :: "serviceState \<Rightarrow> bool" where
  "withCPUProfile s \<longleftrightarrow> cpuprofile s \<noteq> []"

definition ProfileEnabled :: "serviceState \<Rightarrow> bool" where
  "ProfileEnabled s \<longleftrightarrow> withMemProfile s \<or> withCPUProfile s"

text \<open>The file of the profile is assigned to a variable of the block, not to \<open>cpuOut\<close>.\<close>

definition startProfile :: "serviceEnv \<Rightarrow> serviceState \<Rightarrow> serviceState \<times> bool" where
  "startProfile E s =
     (if \<not> withCPUProfile s then (s, True)
      else (case createFile E (cpuprofile s) of
              None \<Rightarrow> (s, False)
            | Some f \<Rightarrow>
                (let s1 = s\<lparr>openFiles := f # openFiles s\<rparr> in
                 if \<not> startCPU E f then (s1, False) else (s1\<lparr>profiling := Some f\<rparr>, True))))"

definition BeforeRun :: "serviceEnv \<Rightarrow> serviceState \<Rightarrow> beforeRun" where
  "BeforeRun E s =
     (case startProfile E s of
        (s1, False) \<Rightarrow> Exit 1 s1
      | (s1, True) \<Rightarrow>
          if httpprof s1 = [] then NotServing s1
          else if \<not> listenTCP E (httpprof s1) then Exit 1 s1
          else Serving s1)"

text \<open>The file is left open when writing fails.\<close>

definition writeHeapProfile :: "serviceEnv \<Rightarrow> string \<Rightarrow> serviceState \<Rightarrow> serviceState" where
  "writeHeapProfile E filename s =
     (case createFile E filename of
        None \<Rightarrow> s
      | Some f \<Rightarrow> if \<not> writeHeap E f then s\<lparr>openFiles := f # openFiles s\<rparr> else s)"

text \<open>Closing a file that is nil only returns an error.\<close>

definition closeOut :: "serviceState \<Rightarrow> serviceState" where
  "closeOut s = (case cpuOut s of None \<Rightarrow> s | Some f \<Rightarrow> s\<lparr>openFiles := removeAll f (openFiles s)\<rparr>)"

definition Cleanup :: "serviceEnv \<Rightarrow> serviceState \<Rightarrow> serviceState" where
  "Cleanup E s =
     (let s1 = (if withCPUProfile s then closeOut (s\<lparr>profiling := None\<rparr>) else s) in
      if withMemProfile s1 then writeHeapProfile E (memprofile s1) s1 else s1)"

section \<open>The metrics handler\<close>

text \<open>\<open>quote\<close> is the verb \<open>%q\<close>, \<open>show\<close> is \<open>%v\<close> of a value that is no string, and \<open>first\<close> whether nothing has been written.\<close>

definition reportValue :: "(string \<Rightarrow> string) \<Rightarrow> (event \<Rightarrow> string) \<Rightarrow> string \<times> event \<Rightarrow> bool \<times> string \<Rightarrow> bool \<times> string" where
  "reportValue quote show kv w =
     (case (kv, w) of ((key, v), (first, body)) \<Rightarrow>
        (False, body @ (if \<not> first then '','' @ [CHR 0x0A] else []) @
           quote key @ '': '' @ (case v of OnString str \<Rightarrow> quote str | _ \<Rightarrow> show v)))"

definition reportVar :: "(string \<Rightarrow> string) \<Rightarrow> string \<times> string \<Rightarrow> bool \<times> string \<Rightarrow> bool \<times> string" where
  "reportVar quote kv w =
     (case (kv, w) of ((key, shown), (first, body)) \<Rightarrow>
        (False, body @ (if \<not> first then '','' @ [CHR 0x0A] else []) @ quote key @ '': '' @ shown))"

definition metricsHandler ::
  "(string \<Rightarrow> string) \<Rightarrow> (event \<Rightarrow> string) \<Rightarrow> (int \<Rightarrow> string) \<Rightarrow> metric list \<Rightarrow> registry \<Rightarrow> (string \<times> string) list \<Rightarrow> (unit, string) outcome" where
  "metricsHandler quote show format h reg vars =
     bind_outcome (Do format h reg Full) (\<lambda>calls.
       (case fold (reportVar quote) vars (fold (reportValue quote show) calls (True, ''{'' @ [CHR 0x0A])) of
          (first, body) \<Rightarrow> Ok (body @ [CHR 0x0A] @ ''}'' @ [CHR 0x0A])))"

section \<open>Laws\<close>

text \<open>The stop function is called at most once, and it has been called when a signal or a request was handled.\<close>

lemma sigStep_invariant:
  "sigStep\<^sup>*\<^sup>* HandleSignals s \<Longrightarrow>
     stops s = (if onceDone s then 1 else 0) \<and> (onceDone s \<longleftrightarrow> sigPhase s = SigDone \<or> winRequests s > 0) \<and>
     cancels s = (if sigPhase s \<in> {SigCancelled, SigDone} then 1 else 0)"
proof (induction rule: rtranclp_induct)
  case (step s s')
  from step.hyps(2) show ?case using step.IH by cases (auto simp: callbackDo_def)
qed (simp add: HandleSignals_def)

theorem stop_once:
  assumes "sigStep\<^sup>*\<^sup>* HandleSignals s"
  shows "stops s \<le> 1" and "sigPhase s = SigDone \<or> winRequests s > 0 \<Longrightarrow> stops s = 1"
    and "sigPhase s = SigWaiting \<Longrightarrow> cancels s = 0"
  using sigStep_invariant [OF assms] by auto

text \<open>The service reports that it stopped only after it was notified, and every request to stop is answered with \<open>StopPending\<close>.\<close>

lemma controlLoop_ends: "snd (controlLoop cs) \<longleftrightarrow> Stop \<in> set cs \<or> Shutdown \<in> set cs"
  by (induction cs rule: controlLoop.induct) (auto split: prod.splits)

lemma controlLoop_statuses: "Stopped \<notin> set (fst (controlLoop cs))" "StopPending \<notin> set (fst (controlLoop cs))"
  by (induction cs rule: controlLoop.induct) (auto split: prod.splits)

lemma Execute_spec:
  assumes "Execute reqs notified = (out, called, returned)"
  shows "(called \<longleftrightarrow> notified \<or> Stop \<in> set reqs \<or> Shutdown \<in> set reqs) \<and> (returned \<longleftrightarrow> notified) \<and>
    (Stopped \<in> set out \<longleftrightarrow> notified) \<and> (StopPending \<in> set out \<longleftrightarrow> called)"
  using assms controlLoop_ends [of "reqs @ (if notified then [Shutdown] else [])"]
    controlLoop_statuses [of "reqs @ (if notified then [Shutdown] else [])"]
  by (auto simp: Execute_def split: prod.splits bool.splits if_splits)

text \<open>The file of the CPU profile is never closed: it is open after \<open>Cleanup\<close>.\<close>

lemma cpuprofile_leaks:
  assumes "cpuOut s = None" and "startProfile E s = (s1, True)" and "withCPUProfile s"
  shows "\<exists>f. f \<in> set (openFiles (Cleanup E s1)) \<and> createFile E (cpuprofile s) = Some f"
  using assms by (auto simp: startProfile_def Cleanup_def closeOut_def writeHeapProfile_def withCPUProfile_def Let_def split: option.splits if_splits)

text \<open>The body of the response: an object whose members are separated by commas, first the registry and then \<open>expvar\<close>.\<close>

definition memberText :: "(string \<Rightarrow> string) \<Rightarrow> (event \<Rightarrow> string) \<Rightarrow> string \<times> event \<Rightarrow> string" where
  "memberText quote show kv = quote (fst kv) @ '': '' @ (case snd kv of OnString str \<Rightarrow> quote str | v \<Rightarrow> show v)"

lemma join_snoc: "xs \<noteq> [] \<Longrightarrow> join_str sep (xs @ [x]) = join_str sep xs @ sep @ x"
  by (induction sep xs rule: join_str.induct) auto

lemma fold_members:
  assumes "\<And>kv first body. step kv (first, body) = (False, body @ (if \<not> first then sep else []) @ text kv)"
  shows "fold step kvs (ms = [], pre @ join_str sep ms) = (ms @ map text kvs = [], pre @ join_str sep (ms @ map text kvs))"
proof (induction kvs arbitrary: ms)
  case (Cons kv kvs)
  have "step kv (ms = [], pre @ join_str sep ms) = (ms @ [text kv] = [], pre @ join_str sep (ms @ [text kv]))"
    using assms by (cases "ms = []") (auto simp: join_snoc)
  then show ?case using Cons.IH [of "ms @ [text kv]"] by simp
qed simp

theorem metricsHandler_body:
  assumes "describes format h Full mtree (regAddrs r)"
  defines "sep \<equiv> '','' @ [CHR 0x0A]"
  shows "metricsHandler quote show format h r vars = Ok (''{'' @ [CHR 0x0A] @
    join_str sep (map (\<lambda>(p, e). memberText quote show (join_str ''.'' p, e)) (leaves_of [] (regTree mtree h Full r)) @
      map (\<lambda>(key, shown). quote key @ '': '' @ shown) vars) @ [CHR 0x0A] @ ''}'' @ [CHR 0x0A])"
proof -
  define calls where "calls = map (\<lambda>(p, e). (join_str ''.'' p, e)) (leaves_of [] (regTree mtree h Full r))"
  let ?pre = "''{'' @ [CHR 0x0A]"
  have "fold (reportValue quote show) calls (True, ?pre) = (map (memberText quote show) calls = [], ?pre @ join_str sep (map (memberText quote show) calls))"
    using fold_members [of "reportValue quote show" sep "memberText quote show" calls "[]" ?pre]
    by (simp add: reportValue_def memberText_def sep_def split: event.split prod.split)
  then have "fold (reportVar quote) vars (fold (reportValue quote show) calls (True, ?pre)) =
      (map (memberText quote show) calls @ map (\<lambda>(key, shown). quote key @ '': '' @ shown) vars = [],
       ?pre @ join_str sep (map (memberText quote show) calls @ map (\<lambda>(key, shown). quote key @ '': '' @ shown) vars))"
    using fold_members [of "reportVar quote" sep "\<lambda>(key, shown). quote key @ '': '' @ shown" vars "map (memberText quote show) calls" ?pre]
    by (simp add: reportVar_def sep_def split: prod.split)
  moreover have "map (memberText quote show) calls =
      map (\<lambda>(p, e). memberText quote show (join_str ''.'' p, e)) (leaves_of [] (regTree mtree h Full r))"
    by (auto simp: calls_def)
  moreover have "Do format h r Full = Ok calls" using Do_leaves [OF assms(1)] by (simp add: calls_def)
  ultimately show ?thesis by (simp add: metricsHandler_def)
qed

end
