(* ===== verification/Pdh.thy ===== *)
theory Pdh
  imports Go_Runes
begin

text \<open>
  Queries of Windows performance counters (src/helpers/windows/pdh/pdh_query_windows.go): the counters of a query, the expansion of
  wildcards, the names of instances in counter paths, and lists of UTF-16 strings. The functions of the PDH library are
  an argument, over a world \<open>'w\<close>. The two regular expressions are written as the functions they denote.
\<close>

section \<open>Names of instances\<close>

text \<open>
  \<open>instanceNameRegexp\<close>: from the first opening parenthesis that can be continued, up to the last closing one that a backslash follows on the
  same line, with something in between.
\<close>

fun lastClose :: "string \<Rightarrow> string \<Rightarrow> string option" where
  "lastClose acc [] = None"
| "lastClose acc (c # cs) =
     (case (if c = CHR 0x0A then None else lastClose (acc @ [c]) cs) of
        Some b \<Rightarrow> Some b
      | None \<Rightarrow> if c = CHR '')'' \<and> acc \<noteq> [] \<and> cs \<noteq> [] \<and> hd cs = CHR 0x5C then Some acc else None)"

fun instanceMatch :: "string \<Rightarrow> string option" where
  "instanceMatch [] = None"
| "instanceMatch (c # cs) =
     (case (if c = CHR ''('' then lastClose [] cs else None) of
        Some b \<Rightarrow> Some (''('' @ b @ '')'')
      | None \<Rightarrow> instanceMatch cs)"

text \<open>\<open>objectNameRegexp\<close>: after the name of a machine between backslashes, or after one backslash.\<close>

definition segment :: "string \<Rightarrow> string" where
  "segment s = takeWhile (\<lambda>c. c \<noteq> CHR 0x5C) s"

definition objectMatch :: "string \<Rightarrow> string option" where
  "objectMatch s =
     (let bs = CHR 0x5C; m = segment (drop 2 s); r = drop (2 + length m) s in
      if take 2 s = [bs, bs] \<and> m \<noteq> [] \<and> r \<noteq> [] \<and> segment (tl r) \<noteq> [] then Some (segment (tl r))
      else if take 1 s = [bs] \<and> segment (drop 1 s) \<noteq> [] then Some (segment (drop 1 s))
      else None)"

text \<open>The loop of \<open>returnLastInstance\<close> over characters, with the number of open parentheses.\<close>

fun instanceLoop :: "nat list \<Rightarrow> int \<Rightarrow> string \<Rightarrow> string list \<Rightarrow> string list" where
  "instanceLoop [] opened inner ms = ms"
| "instanceLoop (r # rs) opened inner ms =
     (let ch = encodeRune r;
          o1 = (if ch = '')'' then opened - 1 else opened);
          i1 = (if o1 > 0 then inner @ ch else inner);
          (i2, ms2) = (if o1 = 0 \<and> i1 \<noteq> [] then ([], ms @ [i1]) else (i1, ms));
          o2 = (if ch = ''('' then o1 + 1 else o1) in
      instanceLoop rs o2 i2 ms2)"

definition returnLastInstance :: "string \<Rightarrow> string" where
  "returnLastInstance match =
     (let matches = instanceLoop (runes match) 0 [] [] in if length matches > 0 then last matches else match)"

datatype pdhErr =
    PDH_CSTATUS_NO_OBJECT | PDH_CSTATUS_NO_COUNTER | PDH_MORE_DATA | ERROR_NOT_FOUND | PdhErrno nat
  | ErrNoInstanceName | ErrNoCounterList | ErrNoItems | ErrNotInMap | ErrNoQueryPath | ErrNul | ErrNoCounterPaths | ErrFormat

definition MatchInstanceName :: "string \<Rightarrow> (pdhErr, string) outcome" where
  "MatchInstanceName counterPath =
     (case instanceMatch counterPath of
        Some m \<Rightarrow> Ok (returnLastInstance m)
      | None \<Rightarrow> (case objectMatch counterPath of Some n \<Rightarrow> Ok n | None \<Rightarrow> Err ErrNoInstanceName))"

section \<open>Lists of UTF-16 strings\<close>

text \<open>Characters of a sequence of units: pairs of surrogates are joined, others replaced.\<close>

fun utf16Decode :: "nat list \<Rightarrow> nat list" where
  "utf16Decode [] = []"
| "utf16Decode [u] = [if 0xd800 \<le> u \<and> u \<le> 0xdfff then RuneError else u]"
| "utf16Decode (u # v # us) =
     (if 0xd800 \<le> u \<and> u < 0xdc00 \<and> 0xdc00 \<le> v \<and> v < 0xe000 then (0x10000 + (u - 0xd800) * 1024 + (v - 0xdc00)) # utf16Decode us
      else (if 0xd800 \<le> u \<and> u \<le> 0xdfff then RuneError else u) # utf16Decode (v # us))"

text \<open>The string at the start of a buffer, up to a zero; without one the code reads beyond the buffer.\<close>

definition UTF16PtrToString :: "16 word list \<Rightarrow> (pdhErr, string) outcome" where
  "UTF16PtrToString buf =
     (if 0 \<notin> set buf then Panic else Ok (concat (map encodeRune (utf16Decode (map unat (takeWhile (\<lambda>u. u \<noteq> 0) buf))))))"

text \<open>The next string is looked for after as many units as the string has characters, and one.\<close>

function UTF16ToStringArray :: "16 word list \<Rightarrow> (pdhErr, string list) outcome" where
  "UTF16ToStringArray buf =
     (if buf = [] then Panic
      else bind_outcome (UTF16PtrToString buf) (\<lambda>stringLine.
        if stringLine = [] then Ok []
        else bind_outcome (UTF16ToStringArray (drop (length (runes stringLine) + 1) buf)) (\<lambda>rest. Ok (stringLine # rest))))"
  by pat_completeness auto
termination by (relation "measure length") auto

declare UTF16ToStringArray.simps [simp del]

section \<open>Queries\<close>

datatype PdhCounterFormat = PdhFmtLong | PdhFmtLarge | PdhFmtDouble | PdhFmtOther nat

record Counter =
  handle :: nat
  cformat :: PdhCounterFormat
  instanceName :: string

record Query =
  Handle :: nat
  Counters :: "(string, Counter) gomap"

record 'm CounterValue =
  Instance :: string
  Measurement :: "'m option"
  ErrError :: "pdhErr option"
  ErrCStatus :: nat

text \<open>A formatted value may come with an error; it has a status and a measurement.\<close>

record ('w, 'm, 'r) pdhLib =
  pOpenQuery :: "'w \<Rightarrow> 'w \<times> (nat + pdhErr)"
  pAddEnglish :: "nat \<Rightarrow> string \<Rightarrow> 'w \<Rightarrow> 'w \<times> (nat + pdhErr)"
  pAdd :: "nat \<Rightarrow> string \<Rightarrow> 'w \<Rightarrow> 'w \<times> (nat + pdhErr)"
  pRemove :: "nat \<Rightarrow> 'w \<Rightarrow> 'w \<times> pdhErr option"
  pFullPath :: "nat \<Rightarrow> 'w \<Rightarrow> 'w \<times> (string + pdhErr)"
  pCollect :: "nat \<Rightarrow> 'w \<Rightarrow> 'w \<times> pdhErr option"
  pExpandCounterPath :: "string \<Rightarrow> 'w \<Rightarrow> 'w \<times> (16 word list option + pdhErr)"
  pExpandWildCard :: "string \<Rightarrow> 'w \<Rightarrow> 'w \<times> (16 word list + pdhErr)"
  pEnumItems :: "string \<Rightarrow> 'w \<Rightarrow> 'w \<times> (16 word list \<times> 16 word list + pdhErr)"
  pFormatted :: "PdhCounterFormat \<Rightarrow> nat \<Rightarrow> 'w \<Rightarrow> 'w \<times> (nat \<times> 'm) option \<times> pdhErr option"
  pRaw :: "nat \<Rightarrow> 'w \<Rightarrow> 'w \<times> ('r + pdhErr)"
  pRawArray :: "nat \<Rightarrow> bool \<Rightarrow> 'w \<Rightarrow> 'w \<times> ('r list + pdhErr)"
  pClose :: "nat \<Rightarrow> 'w \<Rightarrow> 'w \<times> pdhErr option"

fun liftSum :: "'w \<times> ('a + 'e) \<Rightarrow> 'w \<times> ('e, 'a) outcome" where
  "liftSum (w, Inl x) = (w, Ok x)"
| "liftSum (w, Inr e) = (w, Err e)"

definition Open :: "('w, 'm, 'r) pdhLib \<Rightarrow> Query \<Rightarrow> 'w \<Rightarrow> ('w \<times> Query) \<times> pdhErr option" where
  "Open P q w =
     (case pOpenQuery P w of
        (w', Inr e) \<Rightarrow> ((w', q), Some e)
      | (w', Inl h) \<Rightarrow> ((w', \<lparr>Handle = h, Counters = []\<rparr>), None))"

definition AddEnglishCounter :: "('w, 'm, 'r) pdhLib \<Rightarrow> Query \<Rightarrow> string \<Rightarrow> 'w \<Rightarrow> 'w \<times> (pdhErr, nat) outcome" where
  "AddEnglishCounter P q counterPath w = liftSum (pAddEnglish P (Handle q) counterPath w)"

definition getPDHFormat :: "string \<Rightarrow> PdhCounterFormat" where
  "getPDHFormat format = (if format = ''long'' then PdhFmtLong else if format = ''large'' then PdhFmtLarge else PdhFmtDouble)"

definition AddCounter ::
  "('w, 'm, 'r) pdhLib \<Rightarrow> string \<Rightarrow> string \<Rightarrow> string \<Rightarrow> bool \<Rightarrow> bool \<Rightarrow> Query \<Rightarrow> 'w \<Rightarrow> ('w \<times> Query) \<times> (pdhErr, unit) outcome" where
  "AddCounter P counterPath inst format wildcard english q w =
     (if map_of (Counters q) counterPath \<noteq> None then ((w, q), Ok ())
      else
        (case (if inst = [] \<or> wildcard then MatchInstanceName counterPath else Ok inst) of
           Err e \<Rightarrow> ((w, q), Err e)
         | Panic \<Rightarrow> ((w, q), Panic)
         | Ok name \<Rightarrow>
             (case (if english then pAddEnglish P (Handle q) counterPath w else pAdd P (Handle q) counterPath w) of
                (w', Inr e) \<Rightarrow> ((w', q), Err e)
              | (w', Inl h) \<Rightarrow>
                  ((w', q\<lparr>Counters := map_put counterPath \<lparr>handle = h, cformat = getPDHFormat format, instanceName = name\<rparr> (Counters q)\<rparr>), Ok ()))))"

text \<open>
  When the library returns the wildcard itself it is asked again; if this succeeds, the first answer is returned.
\<close>

definition expandAgain :: "('w, 'm, 'r) pdhLib \<Rightarrow> string \<Rightarrow> 16 word list \<Rightarrow> 'w \<Rightarrow> 'w \<times> (pdhErr, string list) outcome" where
  "expandAgain P wildCardPath expdPaths w =
     (case UTF16ToStringArray expdPaths of
        Panic \<Rightarrow> (w, Panic)
      | Err e \<Rightarrow> (w, Err e)
      | Ok paths \<Rightarrow>
          if length paths = 1 \<and> CHR ''*'' \<in> set (paths ! 0) \<and> paths ! 0 = wildCardPath then
            (case pExpandWildCard P wildCardPath w of
               (w', Inl _) \<Rightarrow> (w', Ok paths)
             | (w', Inr _) \<Rightarrow> (w', Err ERROR_NOT_FOUND))
          else (w, Ok paths))"

definition ExpandWildCardPath :: "('w, 'm, 'r) pdhLib \<Rightarrow> bool \<Rightarrow> string \<Rightarrow> 'w \<Rightarrow> 'w \<times> (pdhErr, string list) outcome" where
  "ExpandWildCardPath P is386 wildCardPath w =
     (if wildCardPath = [] then (w, Err ErrNoQueryPath)
      else if CHR 0x00 \<in> set wildCardPath then (w, Err ErrNul)
      else if is386 then
        (case pExpandCounterPath P wildCardPath w of
           (w', Inr e) \<Rightarrow> (w', Err e)
         | (w', Inl None) \<Rightarrow> (w', Err ErrNoCounterPaths)
         | (w', Inl (Some expdPaths)) \<Rightarrow> (w', UTF16ToStringArray expdPaths))
      else
        (case pExpandWildCard P wildCardPath w of
           (w', Inl expdPaths) \<Rightarrow> expandAgain P wildCardPath expdPaths w'
         | (w', Inr e) \<Rightarrow>
             if e = PDH_MORE_DATA then
               (case pExpandWildCard P wildCardPath w' of
                  (w'', Inl expdPaths) \<Rightarrow> expandAgain P wildCardPath expdPaths w''
                | (w'', Inr e') \<Rightarrow> (w'', Err e'))
             else (w', Err e)))"

text \<open>On a system in another language the English path is translated by a counter that is removed again.\<close>

definition englishPaths :: "('w, 'm, 'r) pdhLib \<Rightarrow> bool \<Rightarrow> Query \<Rightarrow> string \<Rightarrow> pdhErr \<Rightarrow> 'w \<Rightarrow> 'w \<times> (pdhErr, string list) outcome" where
  "englishPaths P is386 q counterPath err w =
     (case AddEnglishCounter P q counterPath w of
        (w1, Err e) \<Rightarrow> (w1, Err e)
      | (w1, Panic) \<Rightarrow> (w1, Panic)
      | (w1, Ok h) \<Rightarrow>
          (case (case pFullPath P h w1 of
                   (w2, Inr e) \<Rightarrow> (w2, Err e)
                 | (w2, Inl path) \<Rightarrow> if path \<noteq> counterPath then ExpandWildCardPath P is386 path w2 else (w2, Err err)) of
             (w3, res) \<Rightarrow> (fst (pRemove P h w3), res)))"

definition GetCounterPaths :: "('w, 'm, 'r) pdhLib \<Rightarrow> bool \<Rightarrow> Query \<Rightarrow> string \<Rightarrow> 'w \<Rightarrow> 'w \<times> (pdhErr, string list) outcome" where
  "GetCounterPaths P is386 q counterPath w =
     (case ExpandWildCardPath P is386 counterPath w of
        (w', Ok paths) \<Rightarrow> (w', Ok paths)
      | (w', Panic) \<Rightarrow> (w', Panic)
      | (w', Err err) \<Rightarrow>
          if err = PDH_CSTATUS_NO_OBJECT \<or> err = PDH_CSTATUS_NO_COUNTER then englishPaths P is386 q counterPath err w'
          else (w', Err err))"

fun matchCounter :: "string \<Rightarrow> string list \<Rightarrow> bool" where
  "matchCounter counterPath [] = False"
| "matchCounter counterPath (cn # cns) = (if cn = counterPath then True else matchCounter counterPath cns)"

fun removeLoop :: "('w, 'm, 'r) pdhLib \<Rightarrow> (string \<times> Counter) list \<Rightarrow> Query \<Rightarrow> 'w \<Rightarrow> ('w \<times> Query) \<times> pdhErr option" where
  "removeLoop P [] q w = ((w, q), None)"
| "removeLoop P ((path, cnt) # unused) q w =
     (case pRemove P (handle cnt) w of
        (w', Some e) \<Rightarrow> ((w', q), Some e)
      | (w', None) \<Rightarrow> removeLoop P unused (q\<lparr>Counters := map_del path (Counters q)\<rparr>) w')"

definition RemoveUnusedCounters :: "('w, 'm, 'r) pdhLib \<Rightarrow> string list \<Rightarrow> Query \<Rightarrow> 'w \<Rightarrow> ('w \<times> Query) \<times> pdhErr option" where
  "RemoveUnusedCounters P counters q w =
     (if list_ex (\<lambda>c. CHR ''*'' \<in> set c) counters then ((w, q), None)
      else (let unused = filter (\<lambda>(path, _). \<not> matchCounter path counters) (Counters q) in
            if length unused = 0 then ((w, q), None) else removeLoop P unused q w))"

definition CollectData :: "('w, 'm, 'r) pdhLib \<Rightarrow> Query \<Rightarrow> 'w \<Rightarrow> 'w \<times> pdhErr option" where
  "CollectData P q w = pCollect P (Handle q) w"

definition getCounterValue :: "('w, 'm, 'r) pdhLib \<Rightarrow> Counter \<Rightarrow> 'w \<Rightarrow> 'w \<times> 'm CounterValue" where
  "getCounterValue P counter w =
     (let v = \<lparr>Instance = instanceName counter, Measurement = None, ErrError = None, ErrCStatus = 0\<rparr> in
      case cformat counter of
        PdhFmtOther _ \<Rightarrow> (w, v\<lparr>ErrError := Some ErrFormat\<rparr>)
      | f \<Rightarrow>
          (case pFormatted P f (handle counter) w of
             (w', Some (cstatus, m), Some err) \<Rightarrow> (w', v\<lparr>ErrError := Some err, ErrCStatus := cstatus\<rparr>)
           | (w', None, Some err) \<Rightarrow> (w', v\<lparr>ErrError := Some err\<rparr>)
           | (w', Some (cstatus, m), None) \<Rightarrow> (w', v\<lparr>Measurement := Some m\<rparr>)
           | (w', None, None) \<Rightarrow> (w', v)))"

fun valuesLoop :: "('w, 'm, 'r) pdhLib \<Rightarrow> (string \<times> Counter) list \<Rightarrow> 'w \<Rightarrow> 'w \<times> (string \<times> 'm CounterValue list) list" where
  "valuesLoop P [] w = (w, [])"
| "valuesLoop P ((path, counter) # cs) w =
     (let (w1, v) = getCounterValue P counter w; (w2, rtn) = valuesLoop P cs w1 in (w2, (path, [v]) # rtn))"

definition GetFormattedCounterValues ::
  "('w, 'm, 'r) pdhLib \<Rightarrow> Query \<Rightarrow> 'w \<Rightarrow> 'w \<times> (pdhErr, (string \<times> 'm CounterValue list) list) outcome" where
  "GetFormattedCounterValues P q w =
     (if Counters q = [] then (w, Err ErrNoCounterList)
      else (case valuesLoop P (Counters q) w of (w', rtn) \<Rightarrow> (w', Ok rtn)))"

definition GetCountersAndInstances :: "('w, 'm, 'r) pdhLib \<Rightarrow> string \<Rightarrow> 'w \<Rightarrow> 'w \<times> (pdhErr, string list \<times> string list) outcome" where
  "GetCountersAndInstances P objectName w =
     (case pEnumItems P objectName w of
        (w', Inr e) \<Rightarrow> (w', Err e)
      | (w', Inl (counters, instances)) \<Rightarrow>
          if length counters = 0 \<and> length instances = 0 then (w', Err ErrNoItems)
          else (w', bind_outcome (UTF16ToStringArray counters) (\<lambda>c. bind_outcome (UTF16ToStringArray instances) (\<lambda>i. Ok (c, i)))))"

definition GetRawCounterValue :: "('w, 'm, 'r) pdhLib \<Rightarrow> Query \<Rightarrow> string \<Rightarrow> 'w \<Rightarrow> 'w \<times> (pdhErr, 'r) outcome" where
  "GetRawCounterValue P q counterName w =
     (case map_of (Counters q) counterName of
        None \<Rightarrow> (w, Err ErrNotInMap)
      | Some c \<Rightarrow> liftSum (pRaw P (handle c) w))"

definition GetRawCounterArray :: "('w, 'm, 'r) pdhLib \<Rightarrow> Query \<Rightarrow> string \<Rightarrow> bool \<Rightarrow> 'w \<Rightarrow> 'w \<times> (pdhErr, 'r list) outcome" where
  "GetRawCounterArray P q counterName filterTotal w =
     (case map_of (Counters q) counterName of
        None \<Rightarrow> (w, Err ErrNotInMap)
      | Some c \<Rightarrow> liftSum (pRawArray P (handle c) filterTotal w))"

definition Close :: "('w, 'm, 'r) pdhLib \<Rightarrow> Query \<Rightarrow> 'w \<Rightarrow> 'w \<times> pdhErr option" where
  "Close P q w = pClose P (Handle q) w"

section \<open>Laws\<close>

subsection \<open>Lists of strings\<close>

lemma utf16Decode_bmp: "list_all (\<lambda>u. u < 0xd800 \<or> 0xdfff < u) us \<Longrightarrow> utf16Decode us = us"
  by (induction us rule: utf16Decode.induct) auto

text \<open>A list of non-empty strings of characters that are one unit each is read back.\<close>

definition bmp :: "16 word list \<Rightarrow> bool" where
  "bmp us \<longleftrightarrow> us \<noteq> [] \<and> list_all (\<lambda>u. u \<noteq> 0 \<and> (unat u < 0xd800 \<or> 0xdfff < unat u)) us"

definition utf16Text :: "16 word list \<Rightarrow> string" where
  "utf16Text us = concat (map encodeRune (map unat us))"

lemma encodeRune_not_Nil [simp]: "encodeRune r \<noteq> []"
  by (simp add: encodeRune_def Let_def)

lemma UTF16PtrToString_bmp: "bmp us \<Longrightarrow> UTF16PtrToString (us @ 0 # rest) = Ok (utf16Text us)"
proof -
  assume b: "bmp us"
  then have "takeWhile (\<lambda>u. u \<noteq> 0) (us @ 0 # rest) = us" by (simp add: bmp_def list_all_iff takeWhile_append2)
  moreover have "utf16Decode (map unat us) = map unat us"
    using b by (intro utf16Decode_bmp) (auto simp: bmp_def list_all_iff)
  ultimately show ?thesis by (simp add: UTF16PtrToString_def utf16Text_def)
qed

lemma bmp_runes: "bmp us \<Longrightarrow> runes (utf16Text us) = map unat us"
proof -
  assume "bmp us"
  moreover have "unat u \<le> 0x10ffff" for u :: "16 word"
  proof -
    have "unat u < 2 ^ LENGTH(16)" by (rule unsigned_less)
    then show ?thesis by simp
  qed
  ultimately show ?thesis unfolding utf16Text_def
    by (intro runes_encode) (auto simp: bmp_def list_all_iff validRune_def)
qed

theorem UTF16ToStringArray_roundtrip:
  assumes "list_all bmp ss"
  shows "UTF16ToStringArray (concat (map (\<lambda>s. s @ [0]) ss) @ [0]) = Ok (map utf16Text ss)"
  using assms
proof (induction ss)
  case Nil
  then show ?case by (simp add: UTF16ToStringArray.simps UTF16PtrToString_def)
next
  case (Cons s ss)
  then have "utf16Text s \<noteq> []" "runes (utf16Text s) = map unat s" using bmp_runes [of s] by (auto simp: bmp_def utf16Text_def)
  then show ?case using Cons UTF16PtrToString_bmp [of s "concat (map (\<lambda>s. s @ [0]) ss) @ [0]"]
    by (subst UTF16ToStringArray.simps) (simp add: drop_append)
qed

text \<open>After a character of two units the next string is looked for one unit too early: here the end of the first string is taken for the end of the list.\<close>

lemma UTF16ToStringArray_surrogate:
  "UTF16ToStringArray [0xd83d, 0xde00, 0, 0x61, 0, 0] = Ok [encodeRune 0x1f600]"
  by (simp add: UTF16ToStringArray.simps UTF16PtrToString_def runes.simps encodeRune_def decodeRune_def leadInfo_def isCont_def Let_def)

subsection \<open>Names of instances\<close>

text \<open>For a path of the form \<open>\Object(instance)\Counter\<close>, where object, instance and counter are ASCII without parentheses, the instance is found.\<close>

definition plain :: "string \<Rightarrow> bool" where
  "plain s \<longleftrightarrow> s \<noteq> [] \<and> list_all (\<lambda>c. byte c < 128 \<and> c \<notin> {CHR ''('', CHR '')'', CHR 0x0A}) s"

lemma lastClose_none: "CHR '')'' \<notin> set s \<Longrightarrow> lastClose acc s = None"
  by (induction acc s rule: lastClose.induct) (auto split: option.splits)

lemma lastClose_body:
  "list_all (\<lambda>c. c \<noteq> CHR 0x0A \<and> c \<noteq> CHR '')'') s \<Longrightarrow> acc @ s \<noteq> [] \<Longrightarrow> CHR '')'' \<notin> set rest \<Longrightarrow>
     lastClose acc (s @ [CHR '')'', CHR 0x5C] @ rest) = Some (acc @ s)"
proof (induction s arbitrary: acc)
  case Nil
  then show ?case by (simp add: lastClose_none)
qed simp

lemma instanceMatch_skip: "CHR ''('' \<notin> set s \<Longrightarrow> instanceMatch (s @ t) = instanceMatch t"
  by (induction s) auto

lemma instanceLoop_body:
  "plain s \<or> s = [] \<Longrightarrow> instanceLoop (map byte s @ rest) 1 inner ms = instanceLoop rest 1 (inner @ s) ms"
proof (induction s arbitrary: inner)
  case (Cons c s)
  then have "encodeRune (byte c) = [c]" "c \<noteq> CHR ''(''" "c \<noteq> CHR '')''" by (auto simp: plain_def encodeRune_ascii)
  moreover have "plain s \<or> s = []" using Cons.prems by (auto simp: plain_def)
  ultimately show ?case using Cons.IH [of "inner @ [c]"] by (simp add: Let_def)
qed simp

lemma paren_runes: "encodeRune 40 = ''(''" "encodeRune 41 = '')''"
  by (simp_all add: encodeRune_ascii) (code_simp+)

lemma returnLastInstance_paren: "plain s \<Longrightarrow> returnLastInstance (''('' @ s @ '')'') = s"
proof -
  assume s: "plain s"
  then have "runes (''('' @ s @ '')'') = 40 # map byte s @ [41]"
    using runes_ascii [of "''('' @ s @ '')''"] by (simp add: plain_def list_all_iff)
  then have "instanceLoop (runes (''('' @ s @ '')'')) 0 [] [] = [s]"
    using s instanceLoop_body [of s "[41]" "[]" "[]"] by (simp add: paren_runes Let_def) (simp add: plain_def)
  then show ?thesis by (simp add: returnLastInstance_def)
qed

theorem MatchInstanceName_path:
  assumes "plain obj" and "plain inst" and "plain counter"
  shows "MatchInstanceName ([CHR 0x5C] @ obj @ ''('' @ inst @ '')'' @ [CHR 0x5C] @ counter) = Ok inst"
proof -
  have "CHR ''('' \<notin> set ([CHR 0x5C] @ obj)" "CHR '')'' \<notin> set counter" "list_all (\<lambda>c. c \<noteq> CHR 0x0A \<and> c \<noteq> CHR '')'') inst" "inst \<noteq> []"
    using assms by (auto simp: plain_def list_all_iff)
  then have "instanceMatch ([CHR 0x5C] @ obj @ ''('' @ inst @ '')'' @ [CHR 0x5C] @ counter) = Some (''('' @ inst @ '')'')"
    using instanceMatch_skip [of "[CHR 0x5C] @ obj" "''('' @ inst @ [CHR '')'', CHR 0x5C] @ counter"] lastClose_body [of inst "[]" counter] by simp
  then show ?thesis using returnLastInstance_paren [OF assms(2)] by (simp add: MatchInstanceName_def)
qed

text \<open>Of several groups the last one is taken.\<close>

lemma instanceLoop_outside:
  "plain s \<or> s = [] \<Longrightarrow> instanceLoop (map byte s @ rest) 0 [] ms = instanceLoop rest 0 [] ms"
proof (induction s)
  case (Cons c s)
  then have "encodeRune (byte c) = [c]" "c \<noteq> CHR ''(''" "c \<noteq> CHR '')''" by (auto simp: plain_def encodeRune_ascii)
  moreover have "plain s \<or> s = []" using Cons.prems by (auto simp: plain_def)
  ultimately show ?case using Cons.IH by (simp add: Let_def)
qed simp

lemma instanceLoop_group:
  "plain s \<Longrightarrow> instanceLoop (40 # map byte s @ 41 # rest) 0 [] ms = instanceLoop rest 0 [] (ms @ [s])"
  using instanceLoop_body [of s "41 # rest" "[]" ms] by (simp add: paren_runes Let_def) (simp add: plain_def)

lemma returnLastInstance_last:
  assumes "plain a" and "plain mid" and "plain b"
  shows "returnLastInstance (''('' @ a @ '')'' @ mid @ ''('' @ b @ '')'') = b"
proof -
  have "runes (''('' @ a @ '')'' @ mid @ ''('' @ b @ '')'') = 40 # map byte a @ 41 # map byte mid @ 40 # map byte b @ [41]"
    using runes_ascii [of "''('' @ a @ '')'' @ mid @ ''('' @ b @ '')''"] assms by (auto simp: plain_def list_all_iff)
  then show ?thesis using assms by (simp add: returnLastInstance_def instanceLoop_group instanceLoop_outside del: instanceLoop.simps(2))
qed

subsection \<open>Counters\<close>

lemma matchCounter_iff [simp]: "matchCounter p cns \<longleftrightarrow> p \<in> set cns"
  by (induction cns) auto

text \<open>
  The handles that a query keeps are those it was given and has not removed: \<open>opened\<close> is the set of handles of the world, adding
  a counter opens its handle and removing one closes it.
\<close>

definition tracks :: "('w, 'm, 'r) pdhLib \<Rightarrow> ('w \<Rightarrow> nat set) \<Rightarrow> bool" where
  "tracks P opened \<longleftrightarrow>
     (\<forall>q p w w' h. pAddEnglish P q p w = (w', Inl h) \<or> pAdd P q p w = (w', Inl h) \<longrightarrow> h \<notin> opened w \<and> opened w' = insert h (opened w)) \<and>
     (\<forall>q p w w' e. pAddEnglish P q p w = (w', Inr e) \<or> pAdd P q p w = (w', Inr e) \<longrightarrow> opened w' = opened w) \<and>
     (\<forall>h w w' e. pRemove P h w = (w', e) \<longrightarrow> opened w' = (if e = None then opened w - {h} else opened w))"

definition owns :: "('w \<Rightarrow> nat set) \<Rightarrow> Query \<Rightarrow> 'w \<Rightarrow> bool" where
  "owns opened q w \<longleftrightarrow> distinct (map fst (Counters q)) \<and> distinct (map (handle \<circ> snd) (Counters q)) \<and>
     (\<forall>(p, c) \<in> set (Counters q). handle c \<in> opened w)"

lemma update_append: "map_of xs k = None \<Longrightarrow> map_put k v xs = xs @ [(k, v)]"
  by (induction xs) (auto split: if_splits)

lemma owns_opened: "owns opened q w \<Longrightarrow> opened w \<subseteq> opened w' \<Longrightarrow> owns opened q w'"
  by (auto simp: owns_def)

lemma AddCounter_cases:
  assumes "AddCounter P path inst format wildcard english q w = ((w', q'), r)"
  obtains (same) "q' = q" "w' = w"
    | (added) h name where "pAddEnglish P (Handle q) path w = (w', Inl h) \<or> pAdd P (Handle q) path w = (w', Inl h)" "map_of (Counters q) path = None"
        "q' = q\<lparr>Counters := Counters q @ [(path, \<lparr>handle = h, cformat = getPDHFormat format, instanceName = name\<rparr>)]\<rparr>"
    | (failed) e where "q' = q" "pAddEnglish P (Handle q) path w = (w', Inr e) \<or> pAdd P (Handle q) path w = (w', Inr e)"
proof (cases "map_of (Counters q) path")
  case None
  define add where "add = (if english then pAddEnglish P (Handle q) path w else pAdd P (Handle q) path w)"
  obtain w1 res where add: "add = (w1, res)" by (cases add)
  then have call: "pAddEnglish P (Handle q) path w = (w1, res) \<or> pAdd P (Handle q) path w = (w1, res)" by (auto simp: add_def split: if_splits)
  show thesis
  proof (cases "if inst = [] \<or> wildcard then MatchInstanceName path else Ok inst")
    case (Ok name)
    show thesis
    proof (cases res)
      case (Inl h)
      then show thesis using added [of h name] None Ok add call assms by (simp add: AddCounter_def add_def [symmetric] update_append)
    next
      case (Inr e)
      then show thesis using failed [of e] None Ok add call assms by (simp add: AddCounter_def add_def [symmetric])
    qed
  qed (use same None assms in \<open>simp_all add: AddCounter_def\<close>)
qed (use same assms in \<open>simp add: AddCounter_def\<close>)

lemma AddCounter_owns:
  assumes "tracks P opened" and "owns opened q w" and "AddCounter P path inst format wildcard english q w = ((w', q'), r)"
  shows "owns opened q' w'"
  using assms(3)
proof (cases rule: AddCounter_cases)
  case (added h name)
  then have "h \<notin> opened w" "opened w' = insert h (opened w)" using assms(1) unfolding tracks_def by blast+
  then show ?thesis using assms(2) added by (force simp: owns_def map_of_eq_None_iff)
next
  case (failed e)
  then have "opened w' = opened w" using assms(1) unfolding tracks_def by blast
  then show ?thesis using failed assms(2) by (simp add: owns_def)
qed (use assms in simp)

lemma del_filter: "map_del k xs = filter (\<lambda>(k', _). k' \<noteq> k) xs"
  by (induction xs) auto

lemma owns_remove:
  assumes "owns opened q w" and "(path, cnt) \<in> set (Counters q)" and "opened w' = opened w - {handle cnt}"
  shows "owns opened (q\<lparr>Counters := map_del path (Counters q)\<rparr>) w'"
proof -
  have d: "distinct (map fst (Counters q))" "distinct (map (handle \<circ> snd) (Counters q))" using assms(1) by (auto simp: owns_def)
  have "handle c \<noteq> handle cnt" if "(p, c) \<in> set (Counters q)" "p \<noteq> path" for p c
    using d(2) that assms(2) inj_onD [of "handle \<circ> snd" "set (Counters q)" "(p, c)" "(path, cnt)"] by (auto simp: distinct_map)
  then show ?thesis using assms d by (auto simp: owns_def del_filter distinct_map inj_on_def)
qed

lemma removeLoop_spec:
  assumes "tracks P opened" and "owns opened q w" and "distinct (map fst unused)" and "set unused \<subseteq> set (Counters q)"
    and "removeLoop P unused q w = ((w', q'), e)"
  shows "owns opened q' w' \<and> (\<exists>gone. set gone \<subseteq> set unused \<and> (e = None \<longrightarrow> gone = unused) \<and>
    Counters q' = filter (\<lambda>(p, _). p \<notin> fst ` set gone) (Counters q))"
  using assms(2-5)
proof (induction unused arbitrary: q w)
  case Nil
  then show ?case by (auto intro!: exI [of _ "[]"])
next
  case (Cons u unused)
  obtain path cnt where u: "u = (path, cnt)" by (cases u)
  obtain w1 e1 where r: "pRemove P (handle cnt) w = (w1, e1)" by (cases "pRemove P (handle cnt) w")
  then have o: "opened w1 = (if e1 = None then opened w - {handle cnt} else opened w)" using assms(1) unfolding tracks_def by blast
  show ?case
  proof (cases e1)
    case (Some err)
    then have "q' = q" "w' = w1" "e = Some err" using Cons.prems(4) u r by auto
    then show ?thesis using owns_opened [OF Cons.prems(1), of w1] o Some by (auto intro!: exI [of _ "[]"])
  next
    case None
    let ?q = "q\<lparr>Counters := map_del path (Counters q)\<rparr>"
    have "owns opened ?q w1" using owns_remove [OF Cons.prems(1), of path cnt w1] Cons.prems(3) u o None by auto
    moreover have "set unused \<subseteq> set (Counters ?q)" using Cons.prems(2,3) u by (force simp: del_filter)
    moreover have "removeLoop P unused ?q w1 = ((w', q'), e)" using Cons.prems(4) u r None by simp
    ultimately obtain gone where g: "owns opened q' w'" "set gone \<subseteq> set unused" "e = None \<longrightarrow> gone = unused"
        "Counters q' = filter (\<lambda>(p, _). p \<notin> fst ` set gone) (Counters ?q)"
      using Cons.IH [of ?q w1] Cons.prems(2) by auto
    then have "Counters q' = filter (\<lambda>(p, _). p \<notin> fst ` set (u # gone)) (Counters q)"
      by (auto simp: del_filter u intro!: filter_cong)
    then show ?thesis using g by (intro conjI exI [of _ "u # gone"]) auto
  qed
qed

text \<open>
  Removing the unused counters keeps what the query owns. Without a wildcard among the paths, what is left after a success are the
  counters with one of the paths, and after a failure at least these.
\<close>

theorem RemoveUnusedCounters_spec:
  assumes "tracks P opened" and "owns opened q w" and "RemoveUnusedCounters P counters q w = ((w', q'), e)"
    and "\<not> list_ex (\<lambda>c. CHR ''*'' \<in> set c) counters"
  shows "owns opened q' w' \<and> filter (\<lambda>(p, _). p \<in> set counters) (Counters q') = filter (\<lambda>(p, _). p \<in> set counters) (Counters q) \<and>
    (e = None \<longrightarrow> Counters q' = filter (\<lambda>(p, _). p \<in> set counters) (Counters q))"
proof -
  let ?unused = "filter (\<lambda>(p, _). p \<notin> set counters) (Counters q)"
  have "removeLoop P ?unused q w = ((w', q'), e)"
    using assms(3,4) by (cases "?unused = []") (auto simp: RemoveUnusedCounters_def Let_def)
  moreover have "distinct (map fst ?unused)" using assms(2) by (auto simp: owns_def intro: distinct_map_filter)
  ultimately obtain gone where g: "owns opened q' w'" "set gone \<subseteq> set ?unused" "e = None \<longrightarrow> gone = ?unused"
      "Counters q' = filter (\<lambda>(p, _). p \<notin> fst ` set gone) (Counters q)"
    using removeLoop_spec [OF assms(1,2), of ?unused] by auto
  have "filter (\<lambda>(p, _). p \<in> set counters) (Counters q') = filter (\<lambda>(p, _). p \<in> set counters) (Counters q)"
    unfolding g(4) filter_filter using g(2) by (intro filter_cong) auto
  moreover have "Counters q' = filter (\<lambda>(p, _). p \<in> set counters) (Counters q)" if "e = None"
    unfolding g(4) using g(3) that by (intro filter_cong) (auto simp: image_iff)
  ultimately show ?thesis using g(1) by blast
qed

end
