(* ===== verification/Spec2Isabelle.thy ===== *)
theory Spec2Isabelle
  imports Mapstr_Laws Safemapstr Version Opt Stringset Ringbuffer Dissect_Laws Dissect_Trim Reporter Monitoring_Laws Rotator_Laws Match_Optimize_Laws Tls_Load Keystore_Laws Periodic Configs
    Paths Logp_Laws Filewatcher Adapter Loader Transport_Client Pipelistener Httpcommon Api Kibana_Laws Flags Config_Core Logp_Loggers Typeconv Http_Diag Histogram Service Pdh
begin

text \<open>
  A verification of elastic-agent-libs, the library of packages shared by the Elastic Agent and the
  Beats. The packages are independent programs that meet in few places: events are trees of maps
  (package mapstr), which processors such as dissect fill, metrics are kept in registries (package
  monitoring), which the reporter (monitoring/report/buffer) samples into ring buffers, logs are
  written by the cores of package logp through the file rotator (package file), and connections are
  made by the dialers of package transport with the TLS settings of transport/tlscommon, on which the
  HTTP clients (transport/httpcommon) and the Kibana client (kibana) are built.

  \<^bold>\<open>Conventions.\<close> \<open>Go_Prelude\<close> holds what the components share: \<open>outcome\<close>, the result of a Go call that may
  return an error or panic; Go maps as association lists without duplicate keys, whose order is the
  order of an iteration; byte strings and the functions of \<open>strings\<close> and \<open>strconv\<close> the code calls; the
  locales \<open>keyed_store\<close> (a store addressed by dotted names) and \<open>slice_sorter\<close> (what \<open>sort.Slice\<close>
  promises, interpreted on the library's stable sort). An operation that changes an object returns
  it changed. A loop that may not end is a \<open>partial_function (option)\<close>, where None is not returning;
  every other function is total. Code of other packages is an argument. \<open>Go_Utf8\<close> and \<open>Go_Runes\<close> decode and
  encode characters, \<open>Go_Http\<close> has headers and URLs, and \<open>Go_Machine\<close> the locale \<open>machine_invariant\<close> of the state
  machines that goroutines run, whose steps are the sections under a lock and the accesses outside of one.

  \<^bold>\<open>Components.\<close>

  \<^item> \<open>Mapstr\<close> (src/mapstr/mapstr.go): the type \<open>M\<close> as a tree of maps, every operation of it, and the
    walk \<open>mapFind\<close> that keeps the path from the root as a list of frames, since the Go code changes the
    sub-map it has reached in place. \<open>Mapstr_Laws\<close>: maps as a \<open>keyed_store\<close>; what \<open>Put\<close>, \<open>Delete\<close>, \<open>Flatten\<close>,
    \<open>DeepUpdate\<close>, \<open>Clone\<close>, \<open>FindFold\<close> and \<open>AlterPath\<close> do, and that a failed write changes nothing.
  \<^item> \<open>Safemapstr\<close> (src/safemapstr/safemapstr.go): a \<open>Put\<close> that never fails and loses no value.
  \<^item> \<open>Dissect\<close> (src/processors/dissect): tokenizer, fields, extraction of positions, resolution and
    conversion; the regular expressions of const.go are written as the functions they denote.
    \<open>Dissect_Laws\<close>: equivalence with a reference that cuts the string itself, round trips, and the
    tokenizers on which the code hangs, panics or rejects. \<open>Dissect_Trim\<close> (trim.go): the two trimmers
    on UTF-8 strings, as instances of \<open>range_trimmer\<close>.
  \<^item> \<open>Monitoring\<close> (src/monitoring/registry.go, metrics.go, opts.go, list.go, namespace.go): registries as
    trees whose leaves are addresses of metrics on a heap, since clients share metrics.
    \<open>Monitoring_Visitors\<close> (snapshot.go, visitor_kv.go): the visitors as machines that consume events.
    \<open>Monitoring_Laws\<close>: the registry as a \<open>keyed_store\<close>; the visitors compute the tree of values.
  \<^item> \<open>Ringbuffer\<close>, \<open>Reporter\<close> (src/monitoring/report/buffer): the ring buffer refines a bounded history;
    one tick of the reporter composes snapshots and ring buffers.
  \<^item> \<open>Rotator\<close> (src/file/rotator.go, trigger.go): triggers, file names, rotation, purging and writing
    over a directory. \<open>Rotator_Laws\<close>: the interface \<open>rotater\<close> of the code as a locale; fresh names, the
    number of backups, and the size of a file over every sequence of writes.
  \<^item> \<open>Match\<close> (src/match): the shapes of parsed regular expressions the package recognises, rewriting
    steps of its optimizer, compilation to specialised matchers, and the matchers. \<open>Match_Laws\<close>: a
    meaning of expressions as pairs of positions, with respect to which compilation, the steps and
    the anchoring of \<open>CompileExact\<close> are correct on lines of text, and where they are not on others.
    \<open>Match_Optimize\<close> has the rest of the optimizer, of which \<open>flattenRepetition\<close> works on a store of nodes and
    arrays, since it changes shared nodes in place; \<open>Match_Optimize_Laws\<close> shows that a round keeps what is found.
  \<^item> \<open>Tls\<close> (src/transport/tlscommon: types.go, versions*.go, validhostname.go, ca_pinning.go, tls_config.go):
    named settings, host names, pins, and the functions that verify a connection; these get the
    configuration as earlier connections left it. \<open>Tls_Laws\<close>: tables of names as instances of the locale
    \<open>named_values\<close>, what each verification mode accepts. \<open>Tls_Load\<close> (tls.go, decrypt_block_nofips.go,
    config.go, server_config.go): reading of PEM data and loading of settings, up to what a loaded
    client trusts and a loaded server requires. \<open>Tls_Diag\<close> (diag.go): the diagnostic reports, which say nothing of a key that
    loads and give away one that does not.
  \<^item> \<open>Transport\<close> (src/transport: util.go, transport.go, tcp.go, wrap.go, stats.go, proxy.go, tls.go): addresses and
    the composition of dialers, with the one for HTTP/2. \<open>Transport_Laws\<close>: addresses are parsed as they are built; an address that accepts
    is found; a TLS connection is handed out only after its checks. \<open>Transport_Client\<close> (client.go) and
    \<open>Pipelistener\<close> (pipelistener.go) are state machines: what interleavings of goroutines leave open or make panic.
  \<^item> \<open>Httpcommon\<close> (src/transport/httpcommon, src/transport/logging.go): proxy settings, the dialers and the round
    tripper made of settings and options, and the bounded reading of a response; the wrappers of a dialer are
    instances of \<open>dialer_wrapper\<close>. \<open>Http_Diag\<close> (diag.go): the report of traced requests and the explanation of errors.
  \<^item> \<open>Kibana\<close> (src/kibana, src/useragent): configuration, requests and the calls of the Fleet interface.
    \<open>Kibana_Laws\<close>: the headers and credentials of every request, and the results of the calls.
  \<^item> \<open>Api\<close> (src/api): the endpoint that serves the snapshots of \<open>Monitoring\<close> over HTTP, its listener and routes.
  \<^item> \<open>Paths\<close> (src/paths): the directories, their defaults, and resolution of names against them.
  \<^item> \<open>Logp_Config\<close> (src/logp: level.go, environment.go, config.go, options.go, src/logp/configure): settings of logging.
    \<open>Logp\<close> (core.go, selective.go, typedloggercore.go, syslog_unix.go, logger.go, global.go): the tree of cores and
    the loggers over it. \<open>Logp_Laws\<close>: the tree refines a flat list of outputs. \<open>Logp_Loggers\<close> (logger.go, src/logp/cfgwarn/cfgwarn.go):
    loggers without a configuration, the methods that log and how they end, and \<open>Recover\<close>.
  \<^item> \<open>Filewatcher\<close> (src/filewatcher): changes by modification times and by a hash of the paths.
  \<^item> \<open>Adapter\<close> (src/monitoring/adapter): registries of go-metrics over those of \<open>Monitoring\<close>. \<open>Histogram\<close> (histogram.go): the
    histogram that a visit clears, and which updates interleaved with visits are counted.
  \<^item> \<open>Expvar\<close> (src/monitoring/visitor.go, visitor_expvar.go): reporting to visitors and the variables of expvar, which the snapshots of
    \<open>Monitoring_Snapshots\<close> (snapshot.go) may include. \<open>Service\<close>
    (src/service): the stop function is called once over all interleavings of signals and requests; the Windows service loop,
    profiles, and the handler that serves metrics and variables.
  \<^item> \<open>Typeconv\<close> (src/transform/typeconv): times packed into two words and read back, the unfolder as an automaton and what it
    accepts, and converters that are reused from a pool.
  \<^item> \<open>Pdh\<close> (src/helpers/windows/pdh/pdh_query_windows.go): performance counters that a query owns, names of instances, and lists of
    UTF-16 strings, over the PDH library as an argument.
  \<^item> \<open>Loader\<close>, \<open>Flags\<close> (src/loader, src/config/flags.go): reading and merging of files, and command line flags.
  \<^item> \<open>Keystore\<close> (src/keystore, src/file/helper_other.go): secrets, their encrypted file, saving through a
    temporary file and loading, over a file system whose calls may fail, for both builds of the encryption. \<open>Keystore_Laws\<close>: the keystore
    refines a map across saving and loading; failed saves; replacement of existing keystores.
  \<^item> \<open>Periodic\<close> (src/periodic): the counter and its goroutines as a state machine over interleavings of clients that
    count, start and stop, and timers; conservation of events, what has been reported when \<open>Stop\<close> returns, and when it can return.
  \<^item> \<open>Configs\<close> (src/config/config.go, src/cloudid): the logging mask, which hides exactly the values below
    secret keys, named sections, and settings from a cloud id. \<open>Config_Core\<close>: creating, merging and printing, where
    the text does not depend on secrets; settings of the reporter (src/monitoring/monitoring.go) and removed settings.
  \<^item> \<open>Version\<close>, \<open>Opt\<close>, \<open>Stringset\<close> (src/version, src/opt, src/str): parsing and order of versions,
    optional 64-bit numbers, string sets.

  \<^bold>\<open>Bounds and fuel.\<close> Integers of 64 bits are words or numbers with the wrap-around written out. The only
  fuel: the reference \<open>decodeAll\<close> of \<open>Tls_Load\<close> counts down from the length of the
  text, which is enough because every block shortens it, and \<open>flattenRepetition\<close> of
  \<open>Match_Optimize\<close> a depth of the size of the expression, which is shown to be enough. That the loop of the optimizer
  ends depends on the simplifier of the standard library and is not claimed.

  \<^bold>\<open>Not modelled.\<close> Locks: an operation is one step, except in \<open>Periodic\<close>, \<open>Transport_Client\<close>, \<open>Pipelistener\<close>,
  \<open>Histogram\<close> and the signals of \<open>Service\<close>.
  Input and output themselves; the serving of connections in api and the registration of a service, whose work is done by the
  standard library and the operating system; bindings of Windows, build and test tools; the conversion by
  reflection that go-structform does for transform/typeconv; the FIPS build of the TLS settings. In the modelled packages: memory that runs out, errors of writing a file that the source ignores, patterns of
  the multiplexer beyond plain paths, the connections that \<open>Client.Test\<close> dials,
  printing of maps, the default registry's wrappers, permissions and redirection in the
  rotator, the event log of Windows in logp, the JSON objects of the Kibana client beyond the fields that decide a
  result, the accessors of config around single calls of go-ucfg.
\<close>

end
